(* ===== verification/Prelude.thy ===== *)
theory Prelude
  imports Main "HOL-Library.Word"
begin

unbundle bit_operations_syntax

text \<open>
  Shared vocabulary of the development: the C integer types of
  \<^verbatim>\<open>src/system/software/sim_module/cpu.h\<close> as machine words, the C shift operators as the
  OR1200 target computes them, the collections of simplification rules the component theories
  add to, and the generic lemmas on words, bits and options that the component proofs use.
\<close>

section \<open>Machine integers\<close>

text \<open>
  The unsigned types of the source are words of their width. A signed C integer is kept as the
  word of its two's-complement representation: the casts \<^verbatim>\<open>to_u32\<close>, \<^verbatim>\<open>to_i32\<close>, \<^verbatim>\<open>to_i64\<close> between
  types of the same width do not change the word, and a signed comparison reads it with
  \<^term>\<open>sint\<close>. Signed addition, subtraction and negation wrap around, as the compiled code does.
\<close>

type_synonym u8 = "8 word"
type_synonym u32 = "32 word"
type_synonym u64 = "64 word"
type_synonym i32 = "32 word"
type_synonym i64 = "64 word"

named_theorems spr_defs \<open>special-purpose register numbers and status-register masks\<close>
named_theorems cpu_defs \<open>definitions of the register-file and status-register accessors\<close>
named_theorems op_defs \<open>opcodes and function codes\<close>
named_theorems inst_defs \<open>definitions of the instruction handlers\<close>
named_theorems err_defs \<open>error codes of the debug bridge\<close>

text \<open>
  A shift of a 32-bit value by a variable amount compiles to \<^verbatim>\<open>l.sll\<close> and \<^verbatim>\<open>l.srl\<close>, which use the
  low five bits of the count (\<^verbatim>\<open>a << b[4:0]\<close>, \<^verbatim>\<open>a >> b[4:0]\<close> in
  \<^verbatim>\<open>src/system/hardware/cores/or1200/or1200_alu.v\<close>). In C a count of 32 or more has no
  defined result; the model takes the target's.
\<close>

definition c_shl :: "u32 \<Rightarrow> u32 \<Rightarrow> u32" where
  "c_shl x n = push_bit (unat (n AND 31)) x"

definition c_shr :: "u32 \<Rightarrow> u32 \<Rightarrow> u32" where
  "c_shr x n = drop_bit (unat (n AND 31)) x"

section \<open>Generic lemmas\<close>

lemma unat_and_31: "unat ((n :: u32) AND 31) = unat n mod 32"
proof -
  have "n AND 31 = take_bit 5 n"
    by (simp add: take_bit_eq_mask mask_eq_exp_minus_1)
  then show ?thesis
    by (simp only: unsigned_take_bit_eq) (simp add: take_bit_eq_mod)
qed

lemma unat_and_31_small: "unat (n :: u32) < 32 \<Longrightarrow> unat (n AND 31) = unat n"
  by (simp add: unat_and_31)

lemma unat_and_31_less [simp]: "unat ((n :: u32) AND 31) < 32"
  by (simp add: unat_and_31)

text \<open>Selecting one bit of a word with a mask.\<close>

lemma exp_word_neq_0: "n < LENGTH('a) \<Longrightarrow> (2 :: 'a::len word) ^ n \<noteq> 0"
  by (metis possible_bit_def possible_bit_word)

lemma and_exp_if: "(x :: 'a::len word) AND 2 ^ n = (if bit x n then 2 ^ n else 0)"
  by (rule bit_word_eqI) (auto simp: bit_simps)

lemma and_exp_eq_0: "n < LENGTH('a) \<Longrightarrow> (x :: 'a::len word) AND 2 ^ n = 0 \<longleftrightarrow> \<not> bit x n"
  by (metis exp_word_neq_0 and_exp_if)

lemma unat_exp: "n < LENGTH('a) \<Longrightarrow> unat ((2 :: 'a::len word) ^ n) = 2 ^ n"
proof -
  assume "n < LENGTH('a)"
  then have "uint ((2 :: 'a word) ^ n) = 2 ^ n"
    by (intro uint_2p) (simp add: word_gt_0 exp_word_neq_0)
  then have "int (unat ((2 :: 'a word) ^ n)) = int (2 ^ n)" by simp
  then show ?thesis by (simp only: of_nat_eq_iff)
qed

text \<open>The sign bit and the signed reading of a word.\<close>

lemma sint_less_0_iff_bit: "sint (x :: u32) < 0 \<longleftrightarrow> bit x 31"
  using bit_last_iff [of x] by simp

lemma sint_less_0_iff_bit64: "sint (x :: u64) < 0 \<longleftrightarrow> bit x 63"
  using bit_last_iff [of x] by simp

lemma sint_eq_uint_if:
  "sint (x :: 'a::len word) = (if bit x (LENGTH('a) - 1) then uint x - 2 ^ LENGTH('a) else uint x)"
proof -
  obtain n where n: "LENGTH('a) = Suc n" by (cases "LENGTH('a)") auto
  have "sint x = take_bit (Suc n) (uint x) - 2 ^ Suc n * of_bool (bit (uint x) n)"
    by (simp add: sint_uint n signed_take_bit_eq_take_bit_minus)
  moreover have "take_bit (Suc n) (uint x) = uint x"
    using n by (metis take_bit_length_eq unsigned_take_bit_eq)
  ultimately show ?thesis by (simp add: n bit_unsigned_iff)
qed

lemma bit_msb_iff_uint:
  "bit (x :: 'a::len word) (LENGTH('a) - 1) \<longleftrightarrow> 2 ^ (LENGTH('a) - 1) \<le> uint x"
proof -
  have "sint x < 2 ^ (LENGTH('a) - 1)" "- (2 ^ (LENGTH('a) - 1)) \<le> sint x"
    using sint_less [of x] sint_greater_eq [of x] by simp_all
  moreover have "(2 :: int) ^ LENGTH('a) = 2 * 2 ^ (LENGTH('a) - 1)"
    by (metis len_gt_0 power_Suc Suc_pred' One_nat_def)
  ultimately show ?thesis
    using sint_eq_uint_if [of x] by (auto split: if_splits)
qed

lemmas bit_31_iff_uint = bit_msb_iff_uint [where 'a = 32, simplified]
lemmas bit_63_iff_uint = bit_msb_iff_uint [where 'a = 64, simplified]
lemmas sint32_if = sint_eq_uint_if [where 'a = 32, simplified]
lemmas sint64_if = sint_eq_uint_if [where 'a = 64, simplified]

lemma unat32_less: "unat (x :: u32) < 2 ^ 32"
  by (rule order_less_le_trans [OF unsigned_less]) simp

lemma unat64_less: "unat (x :: u64) < 2 ^ 64"
  by (rule order_less_le_trans [OF unsigned_less]) simp

text \<open>A chain of guards that returns, one guard at a time.\<close>

lemma if_SomeE:
  "(if b then x else y) = Some r \<Longrightarrow> (b \<Longrightarrow> x = Some r \<Longrightarrow> P) \<Longrightarrow> (y = Some r \<Longrightarrow> P) \<Longrightarrow> P"
  by (simp split: if_splits)

end
