(* ===== verification/Cpu.thy ===== *)
theory Cpu
  imports Prelude
begin

unbundle bit_operations_syntax

text \<open>
  The simulated processor: \<^verbatim>\<open>struct CPU\<close>, the accessor macros of
  \<^verbatim>\<open>src/system/software/sim_module/cpu.h\<close>, the register numbers of \<^verbatim>\<open>spr_defs.h\<close>, and the
  functions of \<^verbatim>\<open>cpu.c\<close> that touch the structure only (\<^verbatim>\<open>cpu_reset\<close>, \<^verbatim>\<open>cpu_init0\<close>,
  \<^verbatim>\<open>cpu_advance_pc\<close>, \<^verbatim>\<open>cpu_set_gpr\<close>). The register file is a list of 32 words; the
  well-formedness invariant says so and that register 0 reads as zero.
\<close>

section \<open>Special-purpose registers and status bits\<close>

definition SPRGROUP_SYS :: u32 where
  [spr_defs]: "SPRGROUP_SYS = push_bit 11 0"

definition SPRGROUP_DMMU :: u32 where
  [spr_defs]: "SPRGROUP_DMMU = push_bit 11 1"

definition SPRGROUP_IMMU :: u32 where
  [spr_defs]: "SPRGROUP_IMMU = push_bit 11 2"

definition SPRGROUP_DC :: u32 where
  [spr_defs]: "SPRGROUP_DC = push_bit 11 3"

definition SPRGROUP_IC :: u32 where
  [spr_defs]: "SPRGROUP_IC = push_bit 11 4"

definition SPRGROUP_MAC :: u32 where
  [spr_defs]: "SPRGROUP_MAC = push_bit 11 5"

definition SPRGROUP_D :: u32 where
  [spr_defs]: "SPRGROUP_D = push_bit 11 6"

definition SPRGROUP_PC :: u32 where
  [spr_defs]: "SPRGROUP_PC = push_bit 11 7"

definition SPRGROUP_TT :: u32 where
  [spr_defs]: "SPRGROUP_TT = push_bit 11 10"

definition SPR_NPC :: u32 where
  [spr_defs]: "SPR_NPC = SPRGROUP_SYS + 16"

definition SPR_SR :: u32 where
  [spr_defs]: "SPR_SR = SPRGROUP_SYS + 17"

definition SPR_PPC :: u32 where
  [spr_defs]: "SPR_PPC = SPRGROUP_SYS + 18"

definition SPR_EPCR_BASE :: u32 where
  [spr_defs]: "SPR_EPCR_BASE = SPRGROUP_SYS + 32"

definition SPR_EEAR_BASE :: u32 where
  [spr_defs]: "SPR_EEAR_BASE = SPRGROUP_SYS + 48"

definition SPR_ESR_BASE :: u32 where
  [spr_defs]: "SPR_ESR_BASE = SPRGROUP_SYS + 64"

definition SPR_DCBFR :: u32 where
  [spr_defs]: "SPR_DCBFR = SPRGROUP_DC + 2"

definition SPR_ICBIR :: u32 where
  [spr_defs]: "SPR_ICBIR = SPRGROUP_IC + 2"

definition SPR_MACLO :: u32 where
  [spr_defs]: "SPR_MACLO = SPRGROUP_MAC + 1"

definition SPR_MACHI :: u32 where
  [spr_defs]: "SPR_MACHI = SPRGROUP_MAC + 2"

definition SPR_DSR :: u32 where
  [spr_defs]: "SPR_DSR = SPRGROUP_D + 20"

definition SPR_TTMR :: u32 where
  [spr_defs]: "SPR_TTMR = SPRGROUP_TT + 0"

definition SPR_TTCR :: u32 where
  [spr_defs]: "SPR_TTCR = SPRGROUP_TT + 1"

definition SPR_DTLBMR_BASE :: "u32 \<Rightarrow> u32" where
  [spr_defs]: "SPR_DTLBMR_BASE way = SPRGROUP_DMMU + 0x200 + way * 0x100"

definition SPR_DTLBTR_BASE :: "u32 \<Rightarrow> u32" where
  [spr_defs]: "SPR_DTLBTR_BASE way = SPRGROUP_DMMU + 0x280 + way * 0x100"

definition SPR_ITLBMR_BASE :: "u32 \<Rightarrow> u32" where
  [spr_defs]: "SPR_ITLBMR_BASE way = SPRGROUP_IMMU + 0x200 + way * 0x100"

definition SPR_ITLBTR_BASE :: "u32 \<Rightarrow> u32" where
  [spr_defs]: "SPR_ITLBTR_BASE way = SPRGROUP_IMMU + 0x280 + way * 0x100"

definition SPR_PCCR :: "u32 \<Rightarrow> u32" where
  [spr_defs]: "SPR_PCCR n = SPRGROUP_PC + n"

definition ASSERTION_REG :: u32 where
  [spr_defs]: "ASSERTION_REG = SPR_PCCR 5"

definition EPPC_REG :: u32 where
  [spr_defs]: "EPPC_REG = SPR_PCCR 7"

definition SPR_SR_SM :: u32 where
  [spr_defs]: "SPR_SR_SM = 0x1"

definition SPR_SR_TEE :: u32 where
  [spr_defs]: "SPR_SR_TEE = 0x2"

definition SPR_SR_IEE :: u32 where
  [spr_defs]: "SPR_SR_IEE = 0x4"

definition SPR_SR_DCE :: u32 where
  [spr_defs]: "SPR_SR_DCE = 0x8"

definition SPR_SR_ICE :: u32 where
  [spr_defs]: "SPR_SR_ICE = 0x10"

definition SPR_SR_DME :: u32 where
  [spr_defs]: "SPR_SR_DME = 0x20"

definition SPR_SR_IME :: u32 where
  [spr_defs]: "SPR_SR_IME = 0x40"

definition SPR_SR_LEE :: u32 where
  [spr_defs]: "SPR_SR_LEE = 0x80"

definition SPR_SR_CE :: u32 where
  [spr_defs]: "SPR_SR_CE = 0x100"

definition SPR_SR_F :: u32 where
  [spr_defs]: "SPR_SR_F = 0x200"

definition SPR_SR_CY :: u32 where
  [spr_defs]: "SPR_SR_CY = 0x400"

definition SPR_SR_OV :: u32 where
  [spr_defs]: "SPR_SR_OV = 0x800"

definition SPR_SR_OVE :: u32 where
  [spr_defs]: "SPR_SR_OVE = 0x1000"

definition SPR_SR_DSX :: u32 where
  [spr_defs]: "SPR_SR_DSX = 0x2000"

definition SPR_SR_EPH :: u32 where
  [spr_defs]: "SPR_SR_EPH = 0x4000"

definition SPR_SR_FO :: u32 where
  [spr_defs]: "SPR_SR_FO = 0x8000"

section \<open>The processor state\<close>

record CPU =
  gpr :: "u32 list"
  pc :: u32
  npc :: u32
  sr :: u32
  machi :: u32
  maclo :: u32
  branch_pc :: u32
  esr :: u32
  epcr :: u32
  eear :: u32
  dsr :: u32
  ttmr :: u32
  ttcr :: u32

definition NUM_REGS :: nat where
  "NUM_REGS = 32"

definition cpu_get_gpr :: "CPU \<Rightarrow> u32 \<Rightarrow> u32" where
  "cpu_get_gpr c reg = gpr c ! unat reg"

definition cpu_set_gpr :: "CPU \<Rightarrow> u32 \<Rightarrow> u32 \<Rightarrow> CPU" where
  "cpu_set_gpr c reg val = c\<lparr>gpr := (gpr c)[unat reg := (if reg = 0 then 0 else val)]\<rparr>"

text \<open>\<^verbatim>\<open>cpu_set_lr\<close> and \<^verbatim>\<open>cpu_set_sp\<close> write registers 9 and 1 directly.\<close>

definition cpu_set_lr :: "CPU \<Rightarrow> u32 \<Rightarrow> CPU" where
  [cpu_defs]: "cpu_set_lr c val = c\<lparr>gpr := (gpr c)[9 := val]\<rparr>"

definition cpu_set_sp :: "CPU \<Rightarrow> u32 \<Rightarrow> CPU" where
  [cpu_defs]: "cpu_set_sp c val = c\<lparr>gpr := (gpr c)[1 := val]\<rparr>"

definition is_in_delay_slot :: "CPU \<Rightarrow> bool" where
  "is_in_delay_slot c \<longleftrightarrow> npc c \<noteq> pc c + 4"

definition cpu_get_mac :: "CPU \<Rightarrow> i64" where
  "cpu_get_mac c = ucast (maclo c) OR push_bit 32 (ucast (machi c))"

definition cpu_set_mac :: "CPU \<Rightarrow> i64 \<Rightarrow> CPU" where
  "cpu_set_mac c m = c\<lparr>machi := ucast (drop_bit 32 m), maclo := ucast (m AND 0xffffffff)\<rparr>"

definition cpu_is_set_sr_flag :: "CPU \<Rightarrow> u32 \<Rightarrow> bool" where
  "cpu_is_set_sr_flag c flag \<longleftrightarrow> sr c AND flag \<noteq> 0"

text \<open>The argument \<^verbatim>\<open>set\<close> is 0 or 1 at every use; the model takes a boolean.\<close>

definition cpu_set_sr_flag :: "CPU \<Rightarrow> u32 \<Rightarrow> bool \<Rightarrow> CPU" where
  "cpu_set_sr_flag c flag s = c\<lparr>sr := (sr c AND NOT flag) OR (flag AND (0 - of_bool s))\<rparr>"

definition cpu_get_sm :: "CPU \<Rightarrow> bool" where
  [cpu_defs]: "cpu_get_sm c = cpu_is_set_sr_flag c SPR_SR_SM"

definition cpu_get_dme :: "CPU \<Rightarrow> bool" where
  [cpu_defs]: "cpu_get_dme c = cpu_is_set_sr_flag c SPR_SR_DME"

definition cpu_get_ime :: "CPU \<Rightarrow> bool" where
  [cpu_defs]: "cpu_get_ime c = cpu_is_set_sr_flag c SPR_SR_IME"

definition cpu_get_f :: "CPU \<Rightarrow> bool" where
  [cpu_defs]: "cpu_get_f c = cpu_is_set_sr_flag c SPR_SR_F"

definition cpu_get_cy :: "CPU \<Rightarrow> bool" where
  [cpu_defs]: "cpu_get_cy c = cpu_is_set_sr_flag c SPR_SR_CY"

definition cpu_get_ov :: "CPU \<Rightarrow> bool" where
  [cpu_defs]: "cpu_get_ov c = cpu_is_set_sr_flag c SPR_SR_OV"

definition cpu_get_ove :: "CPU \<Rightarrow> bool" where
  [cpu_defs]: "cpu_get_ove c = cpu_is_set_sr_flag c SPR_SR_OVE"

definition cpu_get_dsx :: "CPU \<Rightarrow> bool" where
  [cpu_defs]: "cpu_get_dsx c = cpu_is_set_sr_flag c SPR_SR_DSX"

definition cpu_get_eph :: "CPU \<Rightarrow> bool" where
  [cpu_defs]: "cpu_get_eph c = cpu_is_set_sr_flag c SPR_SR_EPH"

definition cpu_set_sm :: "CPU \<Rightarrow> bool \<Rightarrow> CPU" where
  [cpu_defs]: "cpu_set_sm c s = cpu_set_sr_flag c SPR_SR_SM s"

definition cpu_set_tee :: "CPU \<Rightarrow> bool \<Rightarrow> CPU" where
  [cpu_defs]: "cpu_set_tee c s = cpu_set_sr_flag c SPR_SR_TEE s"

definition cpu_set_iee :: "CPU \<Rightarrow> bool \<Rightarrow> CPU" where
  [cpu_defs]: "cpu_set_iee c s = cpu_set_sr_flag c SPR_SR_IEE s"

definition cpu_set_dme :: "CPU \<Rightarrow> bool \<Rightarrow> CPU" where
  [cpu_defs]: "cpu_set_dme c s = cpu_set_sr_flag c SPR_SR_DME s"

definition cpu_set_ime :: "CPU \<Rightarrow> bool \<Rightarrow> CPU" where
  [cpu_defs]: "cpu_set_ime c s = cpu_set_sr_flag c SPR_SR_IME s"

definition cpu_set_f :: "CPU \<Rightarrow> bool \<Rightarrow> CPU" where
  [cpu_defs]: "cpu_set_f c s = cpu_set_sr_flag c SPR_SR_F s"

definition cpu_set_cy :: "CPU \<Rightarrow> bool \<Rightarrow> CPU" where
  [cpu_defs]: "cpu_set_cy c s = cpu_set_sr_flag c SPR_SR_CY s"

definition cpu_set_ov :: "CPU \<Rightarrow> bool \<Rightarrow> CPU" where
  [cpu_defs]: "cpu_set_ov c s = cpu_set_sr_flag c SPR_SR_OV s"

definition cpu_set_dsx :: "CPU \<Rightarrow> bool \<Rightarrow> CPU" where
  [cpu_defs]: "cpu_set_dsx c s = cpu_set_sr_flag c SPR_SR_DSX s"

section \<open>Functions of \<^verbatim>\<open>cpu.c\<close> on the structure\<close>

text \<open>The loop of \<^verbatim>\<open>cpu_reset\<close> writes registers \<open>idx\<close>, \<open>idx + 1\<close>, \<open>\<dots>\<close>, 31.\<close>

function cpu_reset_gprs :: "nat \<Rightarrow> CPU \<Rightarrow> CPU" where
  "cpu_reset_gprs idx c =
     (if idx < NUM_REGS then cpu_reset_gprs (Suc idx) (cpu_set_gpr c (of_nat idx) 0) else c)"
  by pat_completeness auto
termination
  by (relation "measure (\<lambda>(idx, c). NUM_REGS - idx)") auto

declare cpu_reset_gprs.simps [simp del]

definition cpu_reset :: "CPU \<Rightarrow> CPU" where
  "cpu_reset c =
     (let c = cpu_reset_gprs 0 c;
          c = c\<lparr>sr := 0x00008001\<rparr>;
          c = c\<lparr>maclo := 0\<rparr>;
          c = c\<lparr>machi := 0\<rparr>;
          c = c\<lparr>pc := 0x100\<rparr>
      in c\<lparr>npc := pc c + 4\<rparr>)"

definition cpu_initvars :: "CPU \<Rightarrow> CPU" where
  "cpu_initvars c =
     (let c = c\<lparr>npc := pc c + 4\<rparr>
      in c\<lparr>branch_pc := 0xffffffff\<rparr>)"

text \<open>\<^verbatim>\<open>cpu_init0\<close> clears the structure with \<^verbatim>\<open>memset\<close>, whatever it held.\<close>

definition cpu_zero :: CPU where
  "cpu_zero =
     \<lparr>gpr = replicate NUM_REGS 0, pc = 0, npc = 0, sr = 0, machi = 0, maclo = 0, branch_pc = 0,
      esr = 0, epcr = 0, eear = 0, dsr = 0, ttmr = 0, ttcr = 0\<rparr>"

definition cpu_init0 :: "CPU \<Rightarrow> CPU" where
  "cpu_init0 c = cpu_initvars cpu_zero"

definition cpu_advance_pc :: "CPU \<Rightarrow> CPU" where
  "cpu_advance_pc c =
     (let c = c\<lparr>pc := npc c\<rparr>
      in if branch_pc c \<noteq> 0xffffffff
         then c\<lparr>npc := branch_pc c, branch_pc := 0xffffffff\<rparr>
         else c\<lparr>npc := npc c + 4\<rparr>)"

section \<open>Well-formedness and basic lemmas\<close>

definition wf_cpu :: "CPU \<Rightarrow> bool" where
  "wf_cpu c \<longleftrightarrow> length (gpr c) = NUM_REGS \<and> gpr c ! 0 = 0"

lemma wf_cpu_cong: "gpr c = gpr d \<Longrightarrow> wf_cpu c = wf_cpu d"
  by (simp add: wf_cpu_def)

lemma wf_cpu_set_gpr [simp, intro]: "wf_cpu c \<Longrightarrow> wf_cpu (cpu_set_gpr c reg v)"
  by (auto simp: wf_cpu_def cpu_set_gpr_def NUM_REGS_def nth_list_update unat_eq_0)

lemma cpu_get_set_gpr:
  assumes "wf_cpu c" "unat r < 32" "unat s < 32"
  shows "cpu_get_gpr (cpu_set_gpr c r v) s = (if s = r \<and> r \<noteq> 0 then v else cpu_get_gpr c s)"
  using assms
  by (auto simp: wf_cpu_def cpu_get_gpr_def cpu_set_gpr_def NUM_REGS_def nth_list_update
      word_unat_eq_iff)

lemma cpu_set_gpr_fields [simp]:
  "pc (cpu_set_gpr c r v) = pc c" "npc (cpu_set_gpr c r v) = npc c" "sr (cpu_set_gpr c r v) = sr c"
  "machi (cpu_set_gpr c r v) = machi c" "maclo (cpu_set_gpr c r v) = maclo c"
  "branch_pc (cpu_set_gpr c r v) = branch_pc c" "esr (cpu_set_gpr c r v) = esr c"
  "epcr (cpu_set_gpr c r v) = epcr c" "eear (cpu_set_gpr c r v) = eear c"
  "dsr (cpu_set_gpr c r v) = dsr c" "ttmr (cpu_set_gpr c r v) = ttmr c"
  "ttcr (cpu_set_gpr c r v) = ttcr c"
  by (simp_all add: cpu_set_gpr_def)

lemma cpu_set_sr_flag_fields [simp]:
  "gpr (cpu_set_sr_flag c f b) = gpr c" "pc (cpu_set_sr_flag c f b) = pc c"
  "npc (cpu_set_sr_flag c f b) = npc c" "machi (cpu_set_sr_flag c f b) = machi c"
  "maclo (cpu_set_sr_flag c f b) = maclo c" "branch_pc (cpu_set_sr_flag c f b) = branch_pc c"
  "esr (cpu_set_sr_flag c f b) = esr c" "epcr (cpu_set_sr_flag c f b) = epcr c"
  "eear (cpu_set_sr_flag c f b) = eear c" "dsr (cpu_set_sr_flag c f b) = dsr c"
  "ttmr (cpu_set_sr_flag c f b) = ttmr c" "ttcr (cpu_set_sr_flag c f b) = ttcr c"
  by (simp_all add: cpu_set_sr_flag_def)

text \<open>Reading a status bit back after writing it or another one.\<close>

lemma sr_flag_same [simp]: "f \<noteq> 0 \<Longrightarrow> cpu_is_set_sr_flag (cpu_set_sr_flag c f b) f = b"
  by (cases b) (simp_all add: cpu_is_set_sr_flag_def cpu_set_sr_flag_def bit.conj_disj_distrib2 and.assoc)

lemma sr_flag_other [simp]:
  assumes "f AND g = 0"
  shows "cpu_is_set_sr_flag (cpu_set_sr_flag c f b) g = cpu_is_set_sr_flag c g"
proof -
  have "((x AND NOT f) OR (f AND y)) AND g = x AND g" for x y
  proof (rule bit_word_eqI)
    fix n assume "n < LENGTH(32)"
    moreover have "\<not> bit (f AND g) n" by (simp add: assms)
    ultimately show "bit (((x AND NOT f) OR (f AND y)) AND g) n = bit (x AND g) n"
      by (auto simp: bit_simps)
  qed
  then show ?thesis by (simp add: cpu_is_set_sr_flag_def cpu_set_sr_flag_def)
qed

lemma sr_flag_masked: "f AND NOT g = 0 \<Longrightarrow> sr (cpu_set_sr_flag c f b) AND NOT g = sr c AND NOT g"
proof -
  assume "f AND NOT g = 0"
  then have "\<not> bit (f AND NOT g) n" for n by simp
  then have "bit f n \<Longrightarrow> n < 32 \<Longrightarrow> bit g n" for n by (auto simp: bit_simps)
  then show ?thesis unfolding cpu_set_sr_flag_def
    by (auto intro!: bit_word_eqI simp: bit_simps)
qed

lemma wf_cpu_set_sr_flag [simp]: "wf_cpu (cpu_set_sr_flag c f b) = wf_cpu c"
  by (rule wf_cpu_cong) simp

lemma wf_cpu_updates [simp]:
  "wf_cpu (c\<lparr>pc := v\<rparr>) = wf_cpu c" "wf_cpu (c\<lparr>npc := v\<rparr>) = wf_cpu c" "wf_cpu (c\<lparr>sr := v\<rparr>) = wf_cpu c"
  "wf_cpu (c\<lparr>machi := v\<rparr>) = wf_cpu c" "wf_cpu (c\<lparr>maclo := v\<rparr>) = wf_cpu c"
  "wf_cpu (c\<lparr>branch_pc := v\<rparr>) = wf_cpu c" "wf_cpu (c\<lparr>esr := v\<rparr>) = wf_cpu c"
  "wf_cpu (c\<lparr>epcr := v\<rparr>) = wf_cpu c" "wf_cpu (c\<lparr>eear := v\<rparr>) = wf_cpu c"
  "wf_cpu (c\<lparr>dsr := v\<rparr>) = wf_cpu c" "wf_cpu (c\<lparr>ttmr := v\<rparr>) = wf_cpu c" "wf_cpu (c\<lparr>ttcr := v\<rparr>) = wf_cpu c"
  by (simp_all add: wf_cpu_def)

lemma wf_cpu_set_lr [simp, intro]: "wf_cpu c \<Longrightarrow> wf_cpu (cpu_set_lr c v)"
  by (simp add: wf_cpu_def cpu_set_lr_def NUM_REGS_def)

lemma wf_cpu_set_mac [simp]: "wf_cpu (cpu_set_mac c m) = wf_cpu c"
  by (simp add: cpu_set_mac_def)

lemma wf_cpu_advance_pc [simp]: "wf_cpu (cpu_advance_pc c) = wf_cpu c"
  by (simp add: cpu_advance_pc_def Let_def)

section \<open>Reset\<close>

lemma cpu_reset_gprs_gpr:
  "length (gpr c) = NUM_REGS \<Longrightarrow> idx \<le> NUM_REGS \<Longrightarrow>
   gpr (cpu_reset_gprs idx c) = take idx (gpr c) @ replicate (NUM_REGS - idx) 0"
proof (induction idx c rule: cpu_reset_gprs.induct)
  case (1 idx c)
  show ?case
  proof (cases "idx < NUM_REGS")
    case True
    have "unat (of_nat idx :: u32) = idx"
      using True by (simp add: NUM_REGS_def unat_of_nat take_bit_nat_eq_self)
    then have g: "gpr (cpu_set_gpr c (of_nat idx) 0) = (gpr c)[idx := 0]" by (simp add: cpu_set_gpr_def)
    have "gpr (cpu_reset_gprs (Suc idx) (cpu_set_gpr c (of_nat idx) 0)) =
        take (Suc idx) ((gpr c)[idx := 0]) @ replicate (NUM_REGS - Suc idx) 0"
      using 1(1) [OF True] 1(2) True by (simp add: g)
    also have "\<dots> = take idx (gpr c) @ replicate (NUM_REGS - idx) 0"
      using 1(2) True by (simp add: take_Suc_conv_app_nth Suc_diff_Suc flip: replicate_Suc)
    finally show ?thesis using True by (simp add: cpu_reset_gprs.simps [of idx c])
  next
    case False
    then have "cpu_reset_gprs idx c = c" by (subst cpu_reset_gprs.simps) simp
    then show ?thesis using 1 False by simp
  qed
qed

text \<open>
  \<^verbatim>\<open>cpu_reset\<close> brings a processor of any content into the state the architecture asks for: all
  registers zero, supervisor mode with exceptions, caches and MMUs off, the accumulator cleared and
  execution at the reset vector, outside a delay slot; \<^verbatim>\<open>cpu_init0\<close> does not depend on what the
  structure held.
\<close>

lemma reset_state:
  assumes "length (gpr c) = NUM_REGS"
  shows "gpr (cpu_reset c) = replicate 32 0 \<and> wf_cpu (cpu_reset c) \<and> cpu_get_sm (cpu_reset c) \<and>
    \<not> cpu_get_dme (cpu_reset c) \<and> \<not> cpu_get_ime (cpu_reset c) \<and> \<not> cpu_get_ove (cpu_reset c) \<and>
    cpu_get_mac (cpu_reset c) = 0 \<and> pc (cpu_reset c) = 0x100 \<and> \<not> is_in_delay_slot (cpu_reset c) \<and>
    cpu_init0 c = cpu_init0 cpu_zero \<and> wf_cpu (cpu_init0 c) \<and> branch_pc (cpu_init0 c) = 0xffffffff"
  using cpu_reset_gprs_gpr [OF assms, of 0]
  by (simp add: cpu_reset_def Let_def NUM_REGS_def wf_cpu_def cpu_defs cpu_is_set_sr_flag_def spr_defs
      cpu_get_mac_def is_in_delay_slot_def cpu_init0_def cpu_initvars_def cpu_zero_def)

lemma reset_state_witness: "cpu_get_sm (cpu_reset cpu_zero)"
  using reset_state [of cpu_zero] by (simp add: cpu_zero_def)

end
