(* ===== verification/Sim_Arith.thy ===== *)
theory Sim_Arith
  imports Prelude
begin

unbundle bit_operations_syntax

text \<open>
  The arithmetic helpers of \<^verbatim>\<open>src/system/software/sim_module/simulator.c\<close>: extension of
  immediates, the ripple-carry adder, the shift-and-add multipliers and the restoring divider
  with which the simulator computes what the hardware it replaces would compute. Each loop is
  proved equal to the arithmetic it stands for.
\<close>

section \<open>Definitions\<close>

text \<open>\<^verbatim>\<open>IS_BIT_SET\<close>, \<^verbatim>\<open>IS_NEG\<close> and \<^verbatim>\<open>IS_POS\<close>.\<close>

definition IS_BIT_SET :: "u32 \<Rightarrow> u32 \<Rightarrow> bool" where
  "IS_BIT_SET a n \<longleftrightarrow> a AND c_shl 1 n \<noteq> 0"

definition IS_NEG :: "u32 \<Rightarrow> bool" where
  "IS_NEG a \<longleftrightarrow> a AND c_shl 1 31 \<noteq> 0"

definition IS_POS :: "u32 \<Rightarrow> bool" where
  "IS_POS a \<longleftrightarrow> \<not> IS_NEG a"

definition maxNbit32 :: "u32 \<Rightarrow> u32" where
  "maxNbit32 n = ucast (push_bit (unat n) (1 :: u64) - 1)"

definition zero_extend :: "u32 \<Rightarrow> u32 \<Rightarrow> u32" where
  "zero_extend val num_bits = val AND (c_shl 1 num_bits - 1)"

definition sign_extend :: "u32 \<Rightarrow> u32 \<Rightarrow> i32" where
  "sign_extend val sign_bit =
     (if IS_BIT_SET val sign_bit then val OR c_shl 0xffffffff sign_bit else val)"

definition exts :: "u32 \<Rightarrow> i32" where
  "exts imm = sign_extend imm 15"

definition is_overflow :: "u32 \<Rightarrow> u32 \<Rightarrow> u32 \<Rightarrow> bool" where
  "is_overflow a b r \<longleftrightarrow>
     (IS_NEG a \<and> IS_NEG b \<and> IS_POS r) \<or> (IS_POS a \<and> IS_POS b \<and> IS_NEG r)"

text \<open>The loop of \<^verbatim>\<open>calc_add\<close>: bit \<open>idx\<close> of the sum and the carry into the next bit.\<close>

function calc_add_loop :: "u32 \<Rightarrow> u32 \<Rightarrow> nat \<Rightarrow> u32 \<Rightarrow> bool \<Rightarrow> u32 \<times> bool" where
  "calc_add_loop a b idx r c =
     (if idx < 32 then
        let cin = (if c then push_bit idx 1 else 0);
            mask = push_bit idx 1;
            A = a AND mask;
            B = b AND mask;
            r' = r OR (A XOR B XOR cin);
            cin' = (A AND B) OR (cin AND (A XOR B))
        in calc_add_loop a b (Suc idx) r' (cin' \<noteq> 0)
      else (r, c))"
  by pat_completeness auto
termination
  by (relation "measure (\<lambda>(a, b, idx, r, c). 32 - idx)") auto

declare calc_add_loop.simps [simp del]

text \<open>\<^verbatim>\<open>calc_add\<close> returns the sum, the overflow flag and the carry.\<close>

definition calc_add :: "bool \<Rightarrow> u32 \<Rightarrow> u32 \<Rightarrow> u32 \<times> bool \<times> bool" where
  "calc_add carry_in a b =
     (let (r, c) = calc_add_loop a b 0 0 carry_in
      in (r, is_overflow a b r, c))"

text \<open>The loops of \<^verbatim>\<open>peasant_mulu\<close> and \<^verbatim>\<open>calc_mulu\<close>.\<close>

fun peasant_mulu_loop :: "nat \<Rightarrow> u64 \<Rightarrow> u64 \<Rightarrow> u32 \<Rightarrow> u64 \<times> u64 \<times> u32" where
  "peasant_mulu_loop 0 p mand mier = (p, mand, mier)"
| "peasant_mulu_loop (Suc n) p mand mier =
     peasant_mulu_loop n (if mier mod 2 \<noteq> 0 then p + mand else p) (mand * 2) (mier div 2)"

definition peasant_mulu :: "u32 \<Rightarrow> u32 \<Rightarrow> u64" where
  "peasant_mulu a b = fst (peasant_mulu_loop 32 0 (ucast a) b)"

fun calc_mulu_loop :: "nat \<Rightarrow> u64 \<Rightarrow> u64 \<Rightarrow> u32 \<Rightarrow> u64 \<times> u64 \<times> u32" where
  "calc_mulu_loop 0 p mand mier = (p, mand, mier)"
| "calc_mulu_loop (Suc n) p mand mier =
     calc_mulu_loop n (if mier AND 1 \<noteq> 0 then p + mand else p)
       (push_bit 1 mand) (drop_bit 1 mier)"

definition calc_mulu :: "u32 \<Rightarrow> u32 \<Rightarrow> u64" where
  "calc_mulu a b = fst (calc_mulu_loop 32 0 (ucast a) b)"

text \<open>
  \<^verbatim>\<open>calc_mul\<close>: the product of the magnitudes, negated when the signs differ. The signs are kept
  as the masked words \<^verbatim>\<open>sign_a\<close> and \<^verbatim>\<open>sign_b\<close>.
\<close>

definition calc_mul :: "i32 \<Rightarrow> i32 \<Rightarrow> i64" where
  "calc_mul a b =
     (let sign_a = a AND 0x80000000;
          sign_b = b AND 0x80000000;
          a' = (if sign_a \<noteq> 0 then (a XOR -1) + 1 else a);
          b' = (if sign_b \<noteq> 0 then (b XOR -1) + 1 else b);
          p = calc_mulu a' b'
      in if sign_a XOR sign_b \<noteq> 0 then (p - 1) XOR -1 else p)"

text \<open>
  \<^verbatim>\<open>calc_divu\<close>: \<open>rq\<close> holds the partial remainder above the quotient bits. The test
  \<^verbatim>\<open>rem < 0\<close> is on the signed 64-bit difference.
\<close>

definition calc_divu_step :: "u32 \<Rightarrow> u64 \<Rightarrow> u64" where
  "calc_divu_step divisor rq =
     (let rem = (drop_bit 32 rq AND 0xffffffff) - ucast divisor
      in if sint rem < 0 then push_bit 1 rq
         else push_bit 1 ((rq AND 0xffffffff) OR push_bit 32 rem) OR 1)"

fun calc_divu_loop :: "nat \<Rightarrow> u32 \<Rightarrow> u64 \<Rightarrow> u64" where
  "calc_divu_loop 0 divisor rq = rq"
| "calc_divu_loop (Suc n) divisor rq = calc_divu_loop n divisor (calc_divu_step divisor rq)"

definition calc_divu :: "u32 \<Rightarrow> u32 \<Rightarrow> u32 \<times> u32" where
  "calc_divu divisor dividend =
     (let rq = calc_divu_loop 32 divisor (push_bit 1 (ucast dividend))
      in (ucast (rq AND 0xffffffff), ucast (drop_bit 33 rq)))"

section \<open>Sign and extension\<close>

lemma c_shl_1: "unat n < 32 \<Longrightarrow> c_shl 1 n = 2 ^ unat n"
  by (simp add: c_shl_def unat_and_31)

lemma IS_BIT_SET_iff: "unat n < 32 \<Longrightarrow> IS_BIT_SET a n \<longleftrightarrow> bit a (unat n)"
  by (simp add: IS_BIT_SET_def c_shl_1 and_exp_eq_0)

lemma IS_NEG_iff: "IS_NEG a \<longleftrightarrow> bit a 31"
  using IS_BIT_SET_iff [of 31 a] by (simp add: IS_NEG_def IS_BIT_SET_def)

lemma IS_NEG_sint: "IS_NEG a \<longleftrightarrow> sint a < 0"
  by (simp add: IS_NEG_iff sint_less_0_iff_bit)

text \<open>\<^verbatim>\<open>sign_extend\<close> is the signed truncation to \<open>sign_bit + 1\<close> bits, for a value that fits there.\<close>

lemma sign_extend_signed_take_bit:
  assumes n: "unat n < 32" and fits: "take_bit (Suc (unat n)) val = val"
  shows "sign_extend val n = signed_take_bit (unat n) val"
proof (rule bit_word_eqI)
  fix m assume m: "m < LENGTH(32)"
  have high: "\<not> bit val m" if "unat n < m"
    using that fits by (metis bit_take_bit_iff not_less_eq)
  show "bit (sign_extend val n) m = bit (signed_take_bit (unat n) val) m"
  proof (cases "bit val (unat n)")
    case True
    have ones: "(0xffffffff :: u32) = -1" by simp
    from True n m show ?thesis
      unfolding sign_extend_def c_shl_def ones
      by (auto simp: IS_BIT_SET_iff unat_and_31 bit_simps min_def)
  next
    case False
    with n m high show ?thesis
      by (auto simp: sign_extend_def IS_BIT_SET_iff bit_simps min_def le_less)
  qed
qed

lemma take_bit_imp_fits: "unat (val :: u32) < 2 ^ n \<Longrightarrow> take_bit n val = val"
  by (simp only: word_unat_eq_iff unsigned_take_bit_eq take_bit_nat_eq_self)

lemma exts_signed_take_bit: "unat imm < 2 ^ 16 \<Longrightarrow> exts imm = signed_take_bit 15 imm"
  using sign_extend_signed_take_bit [of 15 imm] take_bit_imp_fits [of imm 16]
  by (simp add: exts_def)

section \<open>Addition\<close>

lemma unat_take_bit_Suc:
  "unat (take_bit (Suc n) (a :: u32)) = unat (take_bit n a) + 2 ^ n * of_bool (bit a n)"
  by (simp add: unsigned_take_bit_eq take_bit_Suc_from_most bit_unsigned_iff)

lemma or_exp_add:
  assumes "unat (r :: u32) < 2 ^ n" "n < 32"
  shows "unat (r OR 2 ^ n) = unat r + 2 ^ n"
proof -
  have "take_bit n r = r" using assms(1) by (rule take_bit_imp_fits)
  then have "\<not> bit r n" by (metis bit_take_bit_iff less_irrefl)
  then have eq: "r OR 2 ^ n = r + 2 ^ n"
    using disjunctive_add_eq_or [of r "2 ^ n"] by (simp add: and_exp_if)
  have "(2 :: nat) ^ n * 2 \<le> 2 ^ 32" using assms(2)
    by (metis power_Suc2 Suc_leI power_increasing one_le_numeral)
  with assms show ?thesis
    unfolding eq by (subst unat_add_lem [THEN iffD1]) (simp_all add: unat_exp)
qed

definition add_inv :: "u32 \<Rightarrow> u32 \<Rightarrow> bool \<Rightarrow> nat \<Rightarrow> u32 \<Rightarrow> bool \<Rightarrow> bool" where
  "add_inv a b c0 idx r c \<longleftrightarrow>
     unat (take_bit idx a) + unat (take_bit idx b) + of_bool c0 = unat r + 2 ^ idx * of_bool c \<and>
     unat r < 2 ^ idx"

lemma add_inv_step:
  assumes inv: "add_inv a b c0 idx r c" and i: "idx < 32"
  defines "x \<equiv> (bit a idx \<noteq> bit b idx) \<noteq> c"
    and "y \<equiv> (bit a idx \<and> bit b idx) \<or> (c \<and> bit a idx \<noteq> bit b idx)"
  shows "add_inv a b c0 (Suc idx) (if x then r OR 2 ^ idx else r) y"
proof -
  have r: "unat (if x then r OR 2 ^ idx else r) = unat r + 2 ^ idx * of_bool x"
    using inv i by (simp add: add_inv_def or_exp_add)
  show ?thesis
    using inv unfolding add_inv_def r unat_take_bit_Suc
    by (cases "bit a idx"; cases "bit b idx"; cases c) (simp_all add: x_def y_def)
qed

lemma calc_add_loop_inv:
  "add_inv a b c0 idx r c \<Longrightarrow> idx \<le> 32 \<Longrightarrow> calc_add_loop a b idx r c = (r', c') \<Longrightarrow>
   add_inv a b c0 32 r' c'"
proof (induction a b idx r c rule: calc_add_loop.induct)
  case (1 a b idx r c)
  show ?case
  proof (cases "idx < 32")
    case True
    note step = add_inv_step [OF "1.prems"(1) True]
    show ?thesis
      by (rule "1.IH" [OF True refl refl refl refl refl refl])
        (use step True "1.prems"(3) in \<open>auto simp: calc_add_loop.simps [of a b idx] Let_def and_exp_if
          exp_word_neq_0 split: if_splits\<close>)
  next
    case False
    with "1.prems" show ?thesis by (simp add: calc_add_loop.simps)
  qed
qed

lemma calc_add_loop_sum:
  assumes "calc_add_loop a b 0 0 c0 = (r, c)"
  shows "unat a + unat b + of_bool c0 = unat r + 2 ^ 32 * of_bool c"
proof -
  have "add_inv a b c0 32 r c"
    by (rule calc_add_loop_inv [OF _ _ assms]) (simp_all add: add_inv_def)
  moreover have "take_bit 32 a = a" "take_bit 32 b = b"
    using take_bit_length_eq [of a] take_bit_length_eq [of b] by simp_all
  ultimately show ?thesis by (simp add: add_inv_def)
qed

lemma overflow_arith:
  fixes x y z k c :: int
  assumes "0 \<le> x" "x < 2 ^ 32" "0 \<le> y" "y < 2 ^ 32" "0 \<le> z" "z < 2 ^ 32"
    and "k = 0 \<or> k = 1" "c = 0 \<or> c = 1" and "x + y + k = z + 2 ^ 32 * c"
  shows "(2 ^ 31 \<le> x \<and> 2 ^ 31 \<le> y \<and> z < 2 ^ 31 \<or> x < 2 ^ 31 \<and> y < 2 ^ 31 \<and> 2 ^ 31 \<le> z) \<longleftrightarrow>
    \<not> (- (2 ^ 31) \<le> (if 2 ^ 31 \<le> x then x - 2 ^ 32 else x) + (if 2 ^ 31 \<le> y then y - 2 ^ 32 else y) + k \<and>
       (if 2 ^ 31 \<le> x then x - 2 ^ 32 else x) + (if 2 ^ 31 \<le> y then y - 2 ^ 32 else y) + k < 2 ^ 31)"
  using assms by (elim disjE) (auto split: if_splits)

lemma overflow_iff_sint_range:
  assumes "uint a + uint b + of_bool c0 = uint r + 2 ^ 32 * of_bool c"
  shows "is_overflow a b r \<longleftrightarrow> sint a + sint b + of_bool c0 \<notin> {-(2 ^ 31)..<2 ^ 31}"
proof -
  have "uint a < 2 ^ 32" "uint b < 2 ^ 32" "uint r < 2 ^ 32"
    using uint_lt2p [of a] uint_lt2p [of b] uint_lt2p [of r] by simp_all
  from overflow_arith [OF _ this(1) _ this(2) _ this(3) _ _ assms]
  show ?thesis
    by (simp add: is_overflow_def IS_POS_def IS_NEG_iff bit_31_iff_uint sint32_if not_le)
qed

text \<open>The adder computes sum, signed overflow and unsigned carry for all inputs.\<close>

lemma calc_add_eq:
  "calc_add cin a b =
     (a + b + of_bool cin,
      sint a + sint b + of_bool cin \<notin> {-(2 ^ 31)..<2 ^ 31},
      2 ^ 32 \<le> unat a + unat b + of_bool cin)"
proof -
  obtain r c where rc: "calc_add_loop a b 0 0 cin = (r, c)" by fastforce
  note sum = calc_add_loop_sum [OF rc]
  have "r = a + b + of_bool cin"
  proof -
    have "unat (a + b + of_bool cin) = (unat a + unat b + of_bool cin) mod 2 ^ 32"
      by (cases cin) (simp_all add: unat_word_ariths mod_simps)
    then show ?thesis using unat32_less [of r] by (simp add: sum word_unat_eq_iff)
  qed
  moreover have "c \<longleftrightarrow> 2 ^ 32 \<le> unat a + unat b + of_bool cin"
    using sum unat32_less [of r] by (cases c) simp_all
  moreover have "is_overflow a b r \<longleftrightarrow> sint a + sint b + of_bool cin \<notin> {-(2 ^ 31)..<2 ^ 31}"
  proof (rule overflow_iff_sint_range)
    show "uint a + uint b + of_bool cin = uint r + 2 ^ 32 * of_bool c"
      using arg_cong [OF sum, of int] by simp
  qed
  ultimately show ?thesis by (simp add: calc_add_def rc)
qed

section \<open>Multiplication\<close>

lemma ucast_halve:
  "(ucast (m :: u32) :: u64) = 2 * ucast (drop_bit 1 m) + (if m AND 1 \<noteq> 0 then 1 else 0)"
proof -
  have "unat m = 2 * (unat m div 2) + unat m mod 2" by simp
  moreover have "unat m mod 2 = (if m AND 1 \<noteq> 0 then 1 else 0)"
    by (simp add: and_one_eq odd_iff_mod_2_eq_one [symmetric] word_unat_eq_iff unat_mod_distrib)
  moreover have "unat m div 2 = unat (drop_bit 1 m)"
    by (simp add: drop_bit_eq_div unat_div_distrib)
  ultimately have "unat m = 2 * unat (drop_bit 1 m) + (if m AND 1 \<noteq> 0 then 1 else 0)" by simp
  then have "(of_nat (unat m) :: u64) =
      of_nat (2 * unat (drop_bit 1 m) + (if m AND 1 \<noteq> 0 then 1 else 0))" by simp
  then show ?thesis by (simp add: unsigned_def)
qed

lemma calc_mulu_loop_inv:
  "calc_mulu_loop n p mand mier = (p', mand', mier') \<Longrightarrow>
   p' + mand' * ucast mier' = p + mand * ucast mier \<and> mier' = drop_bit n mier"
proof (induction n arbitrary: p mand mier)
  case 0
  then show ?case by simp
next
  case (Suc n)
  from Suc.IH [OF Suc.prems [simplified]]
  show ?case
    by (subst (2) ucast_halve) (auto simp: algebra_simps drop_bit_drop_bit)
qed

lemma calc_mulu_eq: "calc_mulu a b = ucast a * ucast b"
proof -
  obtain p mand mier where l: "calc_mulu_loop 32 0 (ucast a) b = (p, mand, mier)"
    by (metis prod_cases3)
  have "mier = 0" using calc_mulu_loop_inv [OF l]
    by (simp add: drop_bit_word_beyond)
  with calc_mulu_loop_inv [OF l] show ?thesis by (simp add: calc_mulu_def l)
qed

lemma peasant_mulu_loop_eq: "peasant_mulu_loop n p mand mier = calc_mulu_loop n p mand mier"
  by (induction n p mand mier rule: peasant_mulu_loop.induct)
    (simp_all add: and_one_eq push_bit_eq_mult drop_bit_eq_div mult.commute word_mod_2p_is_mask)

lemma peasant_mulu_eq: "peasant_mulu a b = calc_mulu a b"
  by (simp add: peasant_mulu_def calc_mulu_def peasant_mulu_loop_eq)

lemma unat_calc_mulu: "unat (calc_mulu a b) = unat a * unat b"
proof -
  have "unat a * unat b < 2 ^ 32 * 2 ^ 32"
    by (rule mult_strict_mono) (simp_all add: unat32_less [simplified])
  then show ?thesis
    by (simp add: calc_mulu_eq unat_word_ariths unsigned_ucast_eq take_bit_nat_eq_self
        unat32_less [THEN order_less_le_trans])
qed

lemma sign_mask_iff: "(a :: u32) AND 0x80000000 \<noteq> 0 \<longleftrightarrow> sint a < 0"
  using IS_NEG_sint [of a] by (simp add: IS_NEG_def c_shl_def)

lemma uint_magnitude:
  "uint (if a AND 0x80000000 \<noteq> 0 then (a XOR -1) + 1 else a) = \<bar>sint (a :: u32)\<bar>"
proof (cases "sint a < 0")
  case True
  then have "0 < uint a" "bit a 31"
    by (auto simp: sint_less_0_iff_bit bit_31_iff_uint)
  then have "uint (- a) = 2 ^ 32 - uint a"
    using uint_lt2p [of a] by (simp add: uint_word_ariths zmod_zminus1_eq_if)
  with True \<open>bit a 31\<close> show ?thesis
    by (simp add: sign_mask_iff not_eq_complement sint32_if)
next
  case False
  then have "\<not> bit a 31" by (simp add: sint_less_0_iff_bit)
  with False show ?thesis by (simp add: sign_mask_iff sint32_if)
qed

lemma ucast_eq_of_int: "(ucast (x :: u32) :: u64) = of_int (uint x)"
  by (simp add: unsigned_def)

lemma sign_masks_differ:
  "(a AND 0x80000000) XOR (b AND 0x80000000) \<noteq> (0 :: u32) \<longleftrightarrow> (sint a < 0) \<noteq> (sint b < 0)"
proof -
  have "x AND 0x80000000 = (if bit x 31 then 0x80000000 else 0)" for x :: u32
    using and_exp_if [of x 31] by simp
  then show ?thesis by (simp add: sint_less_0_iff_bit)
qed

text \<open>The signed multiplier computes the exact product, \<^verbatim>\<open>INT_MIN\<close> included.\<close>

lemma calc_mul_eq: "calc_mul a b = word_of_int (sint a * sint b)"
proof -
  have p: "calc_mulu (if a AND 0x80000000 \<noteq> 0 then (a XOR -1) + 1 else a)
      (if b AND 0x80000000 \<noteq> 0 then (b XOR -1) + 1 else b) = word_of_int (\<bar>sint a\<bar> * \<bar>sint b\<bar>)"
    by (simp only: calc_mulu_eq ucast_eq_of_int uint_magnitude) simp
  have neg: "(word_of_int x - 1) XOR -1 = (word_of_int (- x) :: u64)" for x
    by (simp add: not_eq_complement)
  show ?thesis
    by (cases "sint a < 0"; cases "sint b < 0")
      (simp_all only: calc_mul_def Let_def p sign_masks_differ neg, simp_all)
qed

lemma sint_mult_bounds: "\<bar>sint (a :: u32) * sint (b :: u32)\<bar> \<le> 2 ^ 62"
proof -
  have "\<bar>sint a\<bar> \<le> 2 ^ 31" "\<bar>sint b\<bar> \<le> 2 ^ 31"
    using sint_less [of a] sint_greater_eq [of a] sint_less [of b] sint_greater_eq [of b] by auto
  then have "\<bar>sint a\<bar> * \<bar>sint b\<bar> \<le> 2 ^ 31 * 2 ^ 31" by (intro mult_mono) simp_all
  then show ?thesis by (simp add: abs_mult)
qed

lemma sint_calc_mul: "sint (calc_mul a b) = sint a * sint b"
proof -
  have "- (2 ^ 63) \<le> sint a * sint b" "sint a * sint b < 2 ^ 63"
    using sint_mult_bounds [of a b] by (simp_all add: abs_le_iff)
  then show ?thesis
    by (simp only: calc_mul_eq sint_sbintrunc') (simp add: signed_take_bit_int_eq_self)
qed

section \<open>Division\<close>

lemma and_ffffffff: "(x :: u64) AND 0xffffffff = take_bit 32 x"
  by (simp add: take_bit_eq_mask mask_eq_exp_minus_1)

lemma unat_take_bit_32: "unat (take_bit 32 (x :: u64)) = unat x mod 2 ^ 32"
  by (subst unsigned_take_bit_eq) (simp only: take_bit_eq_mod)

lemma unat_ucast_up: "unat (ucast (x :: u32) :: u64) = unat x"
  by (simp add: unsigned_ucast_eq take_bit_nat_eq_self unat32_less [THEN order_less_le_trans])

lemma unat_push_bit: "unat (push_bit n (x :: u64)) = 2 ^ n * unat x mod 2 ^ 64"
  by (subst unsigned_push_bit_eq) (simp add: push_bit_eq_mult take_bit_eq_mod mult.commute)

text \<open>The high half of \<open>rq\<close> compared with the divisor, on natural numbers.\<close>

lemma rem_properties:
  fixes rq :: u64 and d :: u32
  defines "rem \<equiv> (drop_bit 32 rq AND 0xffffffff) - ucast d"
  shows "sint rem < 0 \<longleftrightarrow> unat rq div 2 ^ 32 < unat d"
    and "unat d \<le> unat rq div 2 ^ 32 \<Longrightarrow> unat rem = unat rq div 2 ^ 32 - unat d"
proof -
  have lt: "unat rq div 2 ^ 32 < 2 ^ 32"
    using unat64_less [of rq] by (simp add: less_mult_imp_div_less)
  have h: "unat (drop_bit 32 rq AND 0xffffffff) = unat rq div 2 ^ 32"
    using lt by (simp only: and_ffffffff unat_take_bit_32 unat_drop_bit_eq) (simp add: drop_bit_eq_div)
  have ge: "unat rem = unat rq div 2 ^ 32 - unat d" if "unat d \<le> unat rq div 2 ^ 32"
    using that by (simp add: rem_def unat_sub_if' h unat_ucast_up)
  have below: "unat rem = 2 ^ 64 + unat rq div 2 ^ 32 - unat d" if "unat rq div 2 ^ 32 < unat d"
    using that by (simp add: rem_def unat_sub_if' h unat_ucast_up)
  show "unat d \<le> unat rq div 2 ^ 32 \<Longrightarrow> unat rem = unat rq div 2 ^ 32 - unat d" by (rule ge)
  have "int (unat rem) = uint rem" by simp
  then have "sint rem < 0 \<longleftrightarrow> 2 ^ 63 \<le> unat rem"
    unfolding sint_less_0_iff_bit64 bit_63_iff_uint
    using of_nat_le_iff [of "2 ^ 63" "unat rem", where 'a = int] by simp
  then show "sint rem < 0 \<longleftrightarrow> unat rq div 2 ^ 32 < unat d"
    using ge below lt unat32_less [of d] by (cases "unat rq div 2 ^ 32 < unat d") auto
qed

lemma unat_calc_divu_step:
  "unat (calc_divu_step d rq) =
     (let h = unat rq div 2 ^ 32; l = unat rq mod 2 ^ 32 in
      if h < unat d then 2 * unat rq mod 2 ^ 64
      else (2 * (l + 2 ^ 32 * (h - unat d)) + 1) mod 2 ^ 64)"
proof (cases "unat rq div 2 ^ 32 < unat d")
  case True
  then show ?thesis by (simp add: calc_divu_step_def rem_properties unat_push_bit [where n = 1, simplified])
next
  case False
  define rem where "rem = (drop_bit 32 rq AND 0xffffffff) - ucast d"
  have "calc_divu_step d rq = push_bit 1 ((rq AND 0xffffffff) OR push_bit 32 rem) OR 1"
    using False by (simp add: calc_divu_step_def rem_properties rem_def Let_def)
  also have "\<dots> = 2 * (take_bit 32 rq + push_bit 32 rem) + 1"
  proof -
    have disj: "take_bit 32 rq AND push_bit 32 rem = 0"
      by (rule bit_word_eqI) (simp add: bit_simps)
    have or1: "push_bit 1 x OR 1 = 2 * x + 1" for x :: u64
      by (simp add: push_bit_eq_mult or_one_eq mult.commute)
    show ?thesis by (simp only: and_ffffffff or1 disjunctive_add_eq_or [OF disj])
  qed
  also have "unat \<dots> = (2 * (unat rq mod 2 ^ 32 + 2 ^ 32 * unat rem) + 1) mod 2 ^ 64"
    by (simp add: unat_word_ariths unat_take_bit_32 [simplified] unat_push_bit [where n = 32, simplified] mod_simps)
  also have "unat rem = unat rq div 2 ^ 32 - unat d"
    using False rem_properties(2) [of d rq] by (simp only: rem_def not_less)
  finally show ?thesis unfolding Let_def using False by (simp only: if_False)
qed

text \<open>
  The loop invariant: after \<open>i\<close> iterations, \<open>rq\<close> holds remainder and quotient of the top \<open>i\<close>
  bits of the dividend, and the dividend bits not yet consumed between them.
\<close>

definition divu_inv :: "nat \<Rightarrow> nat \<Rightarrow> nat \<Rightarrow> nat \<Rightarrow> bool" where
  "divu_inv d n i rq \<longleftrightarrow>
     rq = ((n div 2 ^ (32 - i) mod d) * 2 ^ 33 + (n mod 2 ^ (32 - i)) * 2 ^ (i + 1)
           + n div 2 ^ (32 - i) div d) mod 2 ^ 64"

lemma divu_inv_init: "n < 2 ^ 32 \<Longrightarrow> divu_inv d n 0 (2 * n)"
  by (simp add: divu_inv_def)

text \<open>One division step on the quotient and remainder of a number extended by one bit.\<close>

lemma div_mod_extend:
  fixes m b d :: nat
  assumes "0 < d"
  shows "(2 * m + b) div d =
      (if 2 * (m mod d) + b < d then 2 * (m div d) else 2 * (m div d) + (2 * (m mod d) + b) div d)"
    and "(2 * m + b) mod d = (2 * (m mod d) + b) mod d"
proof -
  have e: "2 * m + b = (2 * (m mod d) + b) + d * (2 * (m div d))"
    by (metis (no_types, opaque_lifting) add.assoc add.commute distrib_left mult.left_commute mult_div_mod_eq)
  show "(2 * m + b) div d =
      (if 2 * (m mod d) + b < d then 2 * (m div d) else 2 * (m div d) + (2 * (m mod d) + b) div d)"
    by (subst e) (use assms in \<open>simp add: div_mult_self2 del: mult_div_mod_eq\<close>)
  show "(2 * m + b) mod d = (2 * (m mod d) + b) mod d"
    by (subst e) simp
qed

lemma div_mod_extend_bit:
  fixes m b d :: nat
  assumes "0 < d" "b \<le> 1"
  defines "h \<equiv> 2 * (m mod d) + b"
  shows "(2 * m + b) div d = 2 * (m div d) + (if h < d then 0 else 1)"
    and "(2 * m + b) mod d = (if h < d then h else h - d)"
proof -
  have "m mod d < d" using assms by simp
  then have "h < 2 * d" using assms(2) unfolding h_def by linarith
  then have q: "h div d = (if h < d then 0 else 1)" and r: "h mod d = (if h < d then h else h - d)"
    using assms(1) by (auto simp: div_if mod_if)
  show "(2 * m + b) div d = 2 * (m div d) + (if h < d then 0 else 1)"
    using div_mod_extend(1) [OF assms(1), of m b] q by (simp add: h_def)
  show "(2 * m + b) mod d = (if h < d then h else h - d)"
    using div_mod_extend(2) [OF assms(1), of m b] r by (simp add: h_def)
qed

lemma mod_pow_split:
  fixes n :: nat
  assumes "i < 32"
  defines "b \<equiv> n div 2 ^ (31 - i) mod 2"
  shows "n mod 2 ^ (32 - i) = b * 2 ^ (31 - i) + n mod 2 ^ (31 - i)"
    and "n div 2 ^ (31 - i) = 2 * (n div 2 ^ (32 - i)) + b" and "b \<le> 1"
proof -
  have e: "32 - i = Suc (31 - i)" using assms by simp
  show "n mod 2 ^ (32 - i) = b * 2 ^ (31 - i) + n mod 2 ^ (31 - i)"
    unfolding e power_Suc b_def by (metis add.commute mod_mult2_eq mult.commute)
  show "n div 2 ^ (31 - i) = 2 * (n div 2 ^ (32 - i)) + b"
    unfolding e power_Suc2 b_def by (simp add: div_mult2_eq)
  show "b \<le> 1" unfolding b_def by simp
qed

lemma divu_inv_step:
  assumes inv: "divu_inv (unat d) n i (unat rq)" and d: "0 < unat d" and i: "i < 32" and n: "n < 2 ^ 32"
  shows "divu_inv (unat d) n (Suc i) (unat (calc_divu_step d rq))"
proof -
  define m where "m = n div 2 ^ (32 - i)"
  define b where "b = n div 2 ^ (31 - i) mod 2"
  define q where "q = m div unat d"
  define r where "r = m mod unat d"
  define l where "l = (n mod 2 ^ (31 - i)) * 2 ^ (i + 1) + q"
  note split = mod_pow_split [OF i, of n, folded b_def m_def]
  have pw: "2 ^ (31 - i) * 2 ^ (i + 1) = (2 :: nat) ^ 32" using i by (simp flip: power_add)
  have m: "m < 2 ^ i"
  proof -
    have "n < 2 ^ i * 2 ^ (32 - i)" using n i by (simp flip: power_add)
    then show ?thesis unfolding m_def by (rule less_mult_imp_div_less)
  qed
  have "(2 :: nat) ^ i \<le> 2 ^ 31" using i by (intro power_increasing) simp_all
  with m have m31: "m < 2 ^ 31" by simp
  have r31: "r < 2 ^ 31" unfolding r_def using m31 by (meson mod_less_eq_dividend le_less_trans)
  have q_m: "q < 2 ^ i" unfolding q_def using m by (meson div_le_dividend le_less_trans)
  have l32: "l < 2 ^ 32"
  proof -
    have "n mod 2 ^ (31 - i) \<le> 2 ^ (31 - i) - 1" by (simp add: Suc_leI less_Suc_eq_le flip: less_Suc_eq_le)
    then have "(n mod 2 ^ (31 - i)) * 2 ^ (i + 1) \<le> (2 ^ (31 - i) - 1) * 2 ^ (i + 1)" by (rule mult_le_mono1)
    also have "\<dots> = 2 ^ 32 - 2 ^ (i + 1)" by (simp only: diff_mult_distrib pw mult_1)
    finally have "l < 2 ^ 32 - 2 ^ (i + 1) + 2 ^ i" unfolding l_def using q_m by linarith
    moreover have "(2 :: nat) ^ (i + 1) \<le> 2 ^ 32" using i by (intro power_increasing) simp_all
    ultimately show ?thesis by simp
  qed
  have rq: "unat rq = (2 * r + b) * 2 ^ 32 + l"
  proof -
    have "r * 2 ^ 33 + (n mod 2 ^ (32 - i)) * 2 ^ (i + 1) + q = (2 * r + b) * 2 ^ 32 + l"
      unfolding split(1) l_def using pw by (simp add: algebra_simps)
    moreover have "(2 * r + b) * 2 ^ 32 + l < 2 ^ 64" using r31 split(3) l32 by simp
    ultimately show ?thesis using inv by (simp add: divu_inv_def m_def q_def r_def)
  qed
  have hl: "unat rq div 2 ^ 32 = 2 * r + b" "unat rq mod 2 ^ 32 = l"
    unfolding rq mod_mult_self3 using l32 by simp_all
  note ext = div_mod_extend_bit [OF d split(3), of m, folded q_def r_def, folded split(2)]
  have two_l: "2 * l = (n mod 2 ^ (31 - i)) * 2 ^ (Suc i + 1) + 2 * q" by (simp add: l_def)
  show ?thesis
  proof (cases "2 * r + b < unat d")
    case True
    have "2 * unat rq = (2 * r + b) * 2 ^ 33 + 2 * l" unfolding rq by simp
    with True show ?thesis
      by (simp add: divu_inv_def unat_calc_divu_step hl [simplified] ext two_l Let_def add.assoc)
  next
    case False
    then show ?thesis
      by (simp add: divu_inv_def unat_calc_divu_step hl [simplified] ext Let_def l_def
          distrib_left ac_simps)
  qed
qed

lemma calc_divu_loop_inv:
  "divu_inv (unat d) n i (unat rq) \<Longrightarrow> 0 < unat d \<Longrightarrow> n < 2 ^ 32 \<Longrightarrow> i + k = 32 \<Longrightarrow>
   divu_inv (unat d) n 32 (unat (calc_divu_loop k d rq))"
proof (induction k arbitrary: i rq)
  case 0
  then show ?case by simp
next
  case (Suc k)
  from Suc.prems have "divu_inv (unat d) n (Suc i) (unat (calc_divu_step d rq))"
    by (intro divu_inv_step) simp_all
  from Suc.IH [OF this] Suc.prems show ?case by simp
qed

lemma unat_ucast_down: "unat (ucast (x :: u64) :: u32) = unat x mod 2 ^ 32"
  by (simp add: unsigned_ucast_eq take_bit_eq_mod)

text \<open>
  The quotient is right for every dividend and every non-zero divisor; of the remainder only the
  low 31 bits survive the last shift.
\<close>

lemma calc_divu_eq:
  assumes "d \<noteq> 0"
  shows "fst (calc_divu d n) = n div d" and "unat (snd (calc_divu d n)) = unat (n mod d) mod 2 ^ 31"
proof -
  have d: "0 < unat d" using assms by (simp add: unat_gt_0)
  have n: "unat n < 2 ^ 32" by (rule unat32_less)
  define rq where "rq = calc_divu_loop 32 d (push_bit 1 (ucast n))"
  have "unat (push_bit 1 (ucast n) :: u64) = 2 * unat n"
    using n by (subst unat_push_bit) (simp add: unat_ucast_up)
  with n have "divu_inv (unat d) (unat n) 32 (unat rq)"
    unfolding rq_def by (intro calc_divu_loop_inv [where i = 0] d) (simp_all add: divu_inv_init [simplified])
  then have inv: "unat rq = ((unat n mod unat d) * 2 ^ 33 + unat n div unat d) mod 2 ^ 64"
    by (simp add: divu_inv_def)
  have q: "unat n div unat d < 2 ^ 32" using n by (meson div_le_dividend le_less_trans)
  have "unat rq mod 2 ^ 32 = unat n div unat d"
  proof -
    have "unat rq mod 2 ^ 32 = ((unat n mod unat d) * 2 * 2 ^ 32 + unat n div unat d) mod 2 ^ 32"
      unfolding inv by (subst mod_mod_cancel) (simp_all add: le_imp_power_dvd mult.commute)
    with q show ?thesis by (simp only: mod_mult_self3 mod_less)
  qed
  then show "fst (calc_divu d n) = n div d"
    unfolding calc_divu_def Let_def rq_def [symmetric]
    by (simp add: word_unat_eq_iff unat_div_distrib
        unat_ucast_down [simplified] and_ffffffff unat_take_bit_32 [simplified])
  have "unat rq div 2 ^ 33 = (unat n mod unat d) mod 2 ^ 31"
  proof -
    have "(x * 2 ^ 33 + y) mod 2 ^ 64 div 2 ^ 33 = x mod 2 ^ 31" if "y < 2 ^ 32" for x y :: nat
    proof -
      have "(x * 2 ^ 33 + y) mod (2 ^ 33 * 2 ^ 31) div 2 ^ 33 = (x * 2 ^ 33 + y) div 2 ^ 33 mod 2 ^ 31"
        by (simp only: mod_mult2_eq) simp
      with that show ?thesis by simp
    qed
    from this [OF q] show ?thesis unfolding inv .
  qed
  then show "unat (snd (calc_divu d n)) = unat (n mod d) mod 2 ^ 31"
    unfolding calc_divu_def Let_def rq_def [symmetric]
    by (simp add: unat_ucast_down [simplified]
        unat_drop_bit_eq unat_mod_distrib drop_bit_eq_div unat_div_distrib)
qed

section \<open>Properties\<close>

text \<open>
  The ripple-carry loop of \<^verbatim>\<open>calc_add\<close> is 32-bit addition with carry: the sum modulo 2 to the
  32, overflow exactly when the signed sum leaves the range, carry exactly when the unsigned does.
\<close>

lemma calc_add_correct:
  "calc_add k a b = (r, ov, cy) \<longleftrightarrow>
     r = a + b + of_bool k \<and> ov = (sint a + sint b + of_bool k \<notin> {- (2 ^ 31)..<2 ^ 31}) \<and>
     int (unat a + unat b + of_bool k) = uint r + 2 ^ 32 * of_bool cy"
proof -
  obtain r' c' where l: "calc_add_loop a b 0 0 k = (r', c')" by fastforce
  have "fst (calc_add k a b) = r'" "snd (snd (calc_add k a b)) = c'"
    by (simp_all add: calc_add_def l)
  then have r: "r' = a + b + of_bool k" "c' = (2 ^ 32 \<le> unat a + unat b + of_bool k)"
    by (simp_all add: calc_add_eq)
  have s: "unat a + unat b + of_bool k = unat r' + 2 ^ 32 * of_bool c'"
    by (rule calc_add_loop_sum [OF l])
  have "int (unat a + unat b + of_bool k) = uint r' + 2 ^ 32 * of_bool cy \<longleftrightarrow> cy = c'"
    unfolding s by (cases cy; cases c') simp_all
  then show ?thesis unfolding calc_add_eq by (auto simp: r)
qed

text \<open>
  The three multipliers: the shift-and-add loop and the peasant loop both return the exact
  64-bit unsigned product, and \<^verbatim>\<open>calc_mul\<close> the exact signed product for all operands, the least
  integer included.
\<close>

lemma multipliers_exact:
  "unat (calc_mulu a b) = unat a * unat b \<and> peasant_mulu a b = calc_mulu a b \<and>
   sint (calc_mul a b) = sint a * sint b"
  by (simp add: unat_calc_mulu peasant_mulu_eq sint_calc_mul)

text \<open>
  The restoring divider \<^verbatim>\<open>calc_divu\<close> returns the quotient for every dividend and every non-zero
  divisor; of the remainder it returns the low 31 bits, which is the remainder unless that needs 32.
\<close>

lemma divider_exact:
  assumes "d \<noteq> 0"
  shows "calc_divu d n = (n div d, n mod d AND 0x7fffffff)"
proof -
  have m: "(0x7fffffff :: u32) = mask 31" by (simp add: mask_eq_exp_minus_1)
  have "snd (calc_divu d n) = take_bit 31 (n mod d)"
    using calc_divu_eq(2) [OF assms, of n]
    by (simp only: word_unat_eq_iff unsigned_take_bit_eq) (simp add: take_bit_eq_mod)
  then show ?thesis using calc_divu_eq(1) [OF assms, of n]
    by (simp add: prod_eq_iff m take_bit_eq_mask)
qed

lemma divider_exact_witness: "calc_divu 0x7 0xffffffff = (0x24924924, 3)"
  using divider_exact [of "0x7" "0xffffffff"] by simp

end
