(* ===== verification/Guest_Words.thy ===== *)
theory Guest_Words
  imports Sim_Arith
begin

unbundle bit_operations_syntax

text \<open>
  Bytes and half-words inside big-endian words, the way \<^verbatim>\<open>lbz\<close>, \<^verbatim>\<open>lhz\<close>, \<^verbatim>\<open>sb\<close> and \<^verbatim>\<open>sh\<close> of
  \<^verbatim>\<open>simulator.c\<close> reach them: a word is loaded, the part is shifted out or replaced, and a store
  writes the word back. The interface \<open>word_memory\<close> says what these handlers need of the word
  accesses below them; its lemmas hold for every memory that provides it, the physical memory of
  the firmware and the RAM array of the hosted simulator.
\<close>

section \<open>Definitions\<close>

text \<open>The shift of the addressed byte, and the byte itself.\<close>

definition byte_shift :: "u32 \<Rightarrow> u32" where
  "byte_shift ea = (0x3 - (ea AND 0x3)) * 8"

definition byte_of_word :: "u32 \<Rightarrow> u32 \<Rightarrow> u32" where
  "byte_of_word ea val = c_shr val (byte_shift ea) AND 0xff"

text \<open>The word a byte store writes back: the addressed byte cleared and replaced.\<close>

definition put_byte :: "u32 \<Rightarrow> u32 \<Rightarrow> u32 \<Rightarrow> u32" where
  "put_byte ea val b =
     (let shift = byte_shift ea;
          val = val AND NOT (c_shl 0xff shift)
      in val OR c_shl (b AND 0xff) shift)"

definition half_of_word :: "u32 \<Rightarrow> u32 \<Rightarrow> u32" where
  "half_of_word ea val = (if ea AND 0x2 = 0 then drop_bit 16 val else val AND 0xffff)"

definition put_half :: "u32 \<Rightarrow> u32 \<Rightarrow> u32 \<Rightarrow> u32" where
  "put_half ea val h =
     (let val = (if ea AND 0x2 = 0 then val AND 0xffff else val AND NOT 0xffff)
      in val OR (if ea AND 0x2 = 0 then push_bit 16 h else h AND 0xffff))"

section \<open>Parts of a word\<close>

lemma word_and_3_eq: "unat ((x :: u32) AND 3) = unat x mod 4"
proof -
  have "x AND 3 = take_bit 2 x" by (simp add: take_bit_eq_mask mask_eq_exp_minus_1)
  then have "unat (x AND 3) = take_bit 2 (unat x)" by (simp only: unsigned_take_bit_eq)
  then show ?thesis by (simp add: take_bit_eq_mod)
qed

lemma unat_byte_shift: "unat (byte_shift ea AND 31) = 8 * (3 - unat ea mod 4)"
proof -
  have le: "unat (ea AND 3) \<le> 3" by (simp add: word_and_3_eq less_Suc_eq_le [symmetric])
  then have "unat (3 - (ea AND 3)) = 3 - unat ea mod 4"
    by (simp add: unat_sub_if' word_and_3_eq)
  then have "unat ((3 - (ea AND 3)) * 8) = (3 - unat ea mod 4) * 8"
    by (subst unat_mult_lem [THEN iffD1]) simp_all
  then show ?thesis by (simp add: byte_shift_def unat_and_31)
qed

lemma and_ff: "(x :: u32) AND 0xff = take_bit 8 x"
  by (simp add: take_bit_eq_mask mask_eq_exp_minus_1)

lemma and_ffff: "(x :: u32) AND 0xffff = take_bit 16 x"
  by (simp add: take_bit_eq_mask mask_eq_exp_minus_1)

lemma ff_mask: "(0xff :: u32) = mask 8"
  by (simp add: mask_eq_exp_minus_1)

lemma byte_of_word_eq: "byte_of_word ea w = take_bit 8 (drop_bit (8 * (3 - unat ea mod 4)) w)"
  by (simp only: byte_of_word_def c_shr_def unat_byte_shift and_ff)

lemma put_byte_eq:
  "put_byte ea w b =
     (let k = 8 * (3 - unat ea mod 4)
      in (w AND NOT (push_bit k (mask 8))) OR push_bit k (take_bit 8 b))"
  by (simp only: put_byte_def c_shl_def unat_byte_shift and_ff Let_def) (simp only: ff_mask)

lemma byte_of_put_byte: "byte_of_word ea (put_byte ea w b) = b AND 0xff"
  unfolding byte_of_word_eq put_byte_eq Let_def and_ff
  by (rule bit_word_eqI) (auto simp: bit_simps)

lemma byte_of_put_byte_other:
  assumes "ea AND 3 \<noteq> ea' AND 3"
  shows "byte_of_word ea' (put_byte ea w b) = byte_of_word ea' w"
proof -
  have ne: "unat ea mod 4 \<noteq> unat ea' mod 4"
    using assms by (simp add: word_and_3_eq word_unat_eq_iff)
  show ?thesis
    unfolding byte_of_word_eq put_byte_eq Let_def
  proof (rule bit_word_eqI)
    fix n :: nat assume "n < LENGTH(32)"
    define i where "i = 3 - unat ea mod 4"
    define j where "j = 3 - unat ea' mod 4"
    have "unat ea mod 4 < 4" "unat ea' mod 4 < 4" by simp_all
    with ne have "i \<noteq> j" by (simp add: i_def j_def)
    then have "\<not> (8 * i \<le> 8 * j + n \<and> 8 * j + n - 8 * i < 8)" if "n < 8" using that by linarith
    then show "bit (take_bit 8 (drop_bit (8 * (3 - unat ea' mod 4))
        ((w AND NOT (push_bit (8 * (3 - unat ea mod 4)) (mask 8))) OR
         push_bit (8 * (3 - unat ea mod 4)) (take_bit 8 b)))) n =
      bit (take_bit 8 (drop_bit (8 * (3 - unat ea' mod 4)) w)) n"
      unfolding i_def [symmetric] j_def [symmetric] by (auto simp: bit_simps dest: bit_imp_le_length)
  qed
qed

lemma half_of_put_half: "half_of_word ea (put_half ea w h) = h AND 0xffff"
  unfolding half_of_word_def put_half_def Let_def and_ffff
  by (rule bit_word_eqI) (auto simp: bit_simps)

lemma half_of_put_half_other:
  "(ea AND 2 = 0) \<noteq> (ea' AND 2 = 0) \<Longrightarrow> half_of_word ea' (put_half ea w h) = half_of_word ea' w"
proof -
  assume ne: "(ea AND 2 = 0) \<noteq> (ea' AND 2 = 0)"
  have m: "(0xffff :: u32) = mask 16" by (simp add: mask_eq_exp_minus_1)
  show ?thesis
    unfolding half_of_word_def put_half_def Let_def m using ne
    by (cases "ea AND 2 = 0"; auto intro!: bit_word_eqI simp: bit_simps)
      (drule bit_imp_le_length, simp)
qed

section \<open>The interface: word memory\<close>

definition load_byte :: "('s \<Rightarrow> u32 \<Rightarrow> u32) \<Rightarrow> 's \<Rightarrow> u32 \<Rightarrow> u32" where
  "load_byte load s ea = byte_of_word ea (load s (ea AND NOT 0x3))"

definition store_byte ::
    "('s \<Rightarrow> u32 \<Rightarrow> u32) \<Rightarrow> ('s \<Rightarrow> u32 \<Rightarrow> u32 \<Rightarrow> 's) \<Rightarrow> 's \<Rightarrow> u32 \<Rightarrow> u32 \<Rightarrow> 's" where
  "store_byte load store s ea b =
     store s (ea AND NOT 0x3) (put_byte ea (load s (ea AND NOT 0x3)) b)"

definition load_half :: "('s \<Rightarrow> u32 \<Rightarrow> u32) \<Rightarrow> 's \<Rightarrow> u32 \<Rightarrow> u32" where
  "load_half load s ea = half_of_word ea (load s (ea AND NOT 0x3))"

definition store_half ::
    "('s \<Rightarrow> u32 \<Rightarrow> u32) \<Rightarrow> ('s \<Rightarrow> u32 \<Rightarrow> u32 \<Rightarrow> 's) \<Rightarrow> 's \<Rightarrow> u32 \<Rightarrow> u32 \<Rightarrow> 's" where
  "store_half load store s ea h =
     store s (ea AND NOT 0x3) (put_half ea (load s (ea AND NOT 0x3)) h)"

locale word_memory =
  fixes load :: "'s \<Rightarrow> u32 \<Rightarrow> u32"
    and store :: "'s \<Rightarrow> u32 \<Rightarrow> u32 \<Rightarrow> 's"
    and ok :: "u32 \<Rightarrow> bool"
  assumes load_store_same: "ok a \<Longrightarrow> load (store s a v) a = v"
    and load_store_other: "ok a \<Longrightarrow> ok b \<Longrightarrow> a \<noteq> b \<Longrightarrow> load (store s a v) b = load s b"
begin

lemma load_byte_same:
  "ok (ea AND NOT 3) \<Longrightarrow> load_byte load (store_byte load store s ea b) ea = b AND 0xff"
  by (simp add: load_byte_def store_byte_def load_store_same byte_of_put_byte)

lemma load_byte_other:
  assumes "ok (ea AND NOT 3)" "ok (ea' AND NOT 3)" "ea' \<noteq> ea"
  shows "load_byte load (store_byte load store s ea b) ea' = load_byte load s ea'"
proof (cases "ea AND NOT 3 = ea' AND NOT 3")
  case True
  have "x = (x AND NOT 3) OR (x AND 3)" for x :: u32 by (rule bit_word_eqI) (auto simp: bit_simps)
  then have "ea AND 3 \<noteq> ea' AND 3" using True assms(3) by metis
  from byte_of_put_byte_other [OF this] True assms show ?thesis
    by (simp add: load_byte_def store_byte_def load_store_same)
next
  case False
  with assms show ?thesis by (simp add: load_byte_def store_byte_def load_store_other)
qed

lemma load_half_same:
  "ok (ea AND NOT 3) \<Longrightarrow> load_half load (store_half load store s ea h) ea = h AND 0xffff"
  by (simp add: load_half_def store_half_def load_store_same half_of_put_half)

lemma load_half_other:
  assumes "ok (ea AND NOT 3)" "ok (ea' AND NOT 3)"
    and "ea AND 1 = 0" "ea' AND 1 = 0" "ea' \<noteq> ea"
  shows "load_half load (store_half load store s ea h) ea' = load_half load s ea'"
proof (cases "ea AND NOT 3 = ea' AND NOT 3")
  case True
  have split: "x = ((x AND NOT 3) OR (x AND 2)) OR (x AND 1)" for x :: u32
  proof -
    have m: "(3 :: u32) = mask 2" "(1 :: u32) = mask 1" "(2 :: u32) = push_bit 1 (mask 1)"
      by (simp_all add: mask_eq_exp_minus_1)
    show ?thesis unfolding m by (rule bit_word_eqI) (auto simp: bit_simps)
  qed
  have "ea AND 2 \<noteq> ea' AND 2" using split [of ea] split [of ea'] True assms(3-5) by metis
  moreover have "x AND 2 = 0 \<or> x AND 2 = 2" for x :: u32
    using and_exp_if [of x 1] by simp
  ultimately have "(ea AND 2 = 0) \<noteq> (ea' AND 2 = 0)" by metis
  from half_of_put_half_other [OF this] True assms show ?thesis
    by (simp add: load_half_def store_half_def load_store_same)
next
  case False
  with assms show ?thesis by (simp add: load_half_def store_half_def load_store_other)
qed

end

end
