(* ===== verification/Machine.thy ===== *)
theory Machine
  imports Cpu Guest_Words
begin

unbundle bit_operations_syntax

text \<open>
  The machine the recovery firmware runs on, and the code that reaches it: the inline assembly of
  \<^verbatim>\<open>mmu_support.h\<close> and \<^verbatim>\<open>mmu_support.c\<close> (\<^verbatim>\<open>l.mfspr\<close>, \<^verbatim>\<open>l.mtspr\<close>, byte loads and stores), the
  translation of guest addresses through the TLB registers, the guest word accesses, and the
  special-register switch of \<^verbatim>\<open>cpu.c\<close>. The build modelled is the one the Makefile target
  \<^verbatim>\<open>mmu\<close> produces, with \<^verbatim>\<open>STANDALONE\<close> and \<^verbatim>\<open>MMU_SUPPORT\<close> defined; \<^verbatim>\<open>assert\<close> is then empty.
\<close>

section \<open>The machine state\<close>

text \<open>
  \<open>cpu\<close> is the global \<^verbatim>\<open>struct CPU cpu\<close>, \<open>hspr\<close> the special-purpose registers of the processor
  that runs the firmware, \<open>mem\<close> the bytes of physical memory. \<open>uninit\<close> is the indeterminate
  content of an automatic variable that is read before it is written; no theorem assumes anything
  about it.
\<close>

record machine =
  cpu :: CPU
  hspr :: "u32 \<Rightarrow> u32"
  mem :: "u32 \<Rightarrow> u8"
  uninit :: u32

definition getSPR :: "machine \<Rightarrow> u32 \<Rightarrow> u32" where
  "getSPR m spr = hspr m spr"

definition setSPR :: "machine \<Rightarrow> u32 \<Rightarrow> u32 \<Rightarrow> machine" where
  "setSPR m spr val = m\<lparr>hspr := (hspr m)(spr := val)\<rparr>"

text \<open>Big-endian word access to physical memory, what \<^verbatim>\<open>*((u32 *)(guestAddr))\<close> is on the OR1200.\<close>

definition load_word :: "(u32 \<Rightarrow> u8) \<Rightarrow> u32 \<Rightarrow> u32" where
  "load_word b a =
     push_bit 24 (ucast (b a)) OR push_bit 16 (ucast (b (a + 1))) OR
     push_bit 8 (ucast (b (a + 2))) OR ucast (b (a + 3))"

definition store_word :: "(u32 \<Rightarrow> u8) \<Rightarrow> u32 \<Rightarrow> u32 \<Rightarrow> (u32 \<Rightarrow> u8)" where
  "store_word b a v =
     b(a := ucast (drop_bit 24 v), a + 1 := ucast (drop_bit 16 v),
       a + 2 := ucast (drop_bit 8 v), a + 3 := ucast v)"

definition guestLoad :: "machine \<Rightarrow> u32 \<Rightarrow> u32" where
  "guestLoad m guestAddr = load_word (mem m) guestAddr"

definition guestStore :: "machine \<Rightarrow> u32 \<Rightarrow> u32 \<Rightarrow> machine" where
  "guestStore m guestAddr val = m\<lparr>mem := store_word (mem m) guestAddr val\<rparr>"

text \<open>The byte instructions issued directly by \<^verbatim>\<open>lbz\<close>, \<^verbatim>\<open>lbs\<close> and \<^verbatim>\<open>sb\<close>.\<close>

definition asm_lbz :: "machine \<Rightarrow> u32 \<Rightarrow> u32" where
  "asm_lbz m phyAddr = ucast (mem m phyAddr)"

definition asm_lbs :: "machine \<Rightarrow> u32 \<Rightarrow> u32" where
  "asm_lbs m phyAddr = scast (mem m phyAddr)"

definition asm_sb :: "machine \<Rightarrow> u32 \<Rightarrow> u32 \<Rightarrow> machine" where
  "asm_sb m phyAddr val = m\<lparr>mem := (mem m)(phyAddr := ucast val)\<rparr>"

section \<open>Address translation\<close>

definition NUM_WAYS :: nat where
  "NUM_WAYS = 1"

definition NUM_SETS_WAY :: u32 where
  "NUM_SETS_WAY = 64"

definition tlbEntryValid :: "u32 \<Rightarrow> bool" where
  "tlbEntryValid entry \<longleftrightarrow> entry AND 0x00000001 \<noteq> 0"

definition tlbPPN :: "u32 \<Rightarrow> u32" where
  "tlbPPN entry = entry AND 0xffffe000"

definition tlbVPN :: "u32 \<Rightarrow> u32" where
  "tlbVPN entry = entry AND 0xffffe000"

definition addressNoOffset :: "u32 \<Rightarrow> u32" where
  "addressNoOffset address = address AND 0xffffe000"

definition addressOffset :: "u32 \<Rightarrow> u32" where
  "addressOffset address = address AND 0x00001fff"

text \<open>The loop over the ways; \<open>mr\<close> and \<open>tr\<close> are the match and translate register banks.\<close>

fun tlb_walk :: "machine \<Rightarrow> (u32 \<Rightarrow> u32) \<Rightarrow> (u32 \<Rightarrow> u32) \<Rightarrow> u32 \<Rightarrow> u32 list \<Rightarrow> u32" where
  "tlb_walk m mr tr guestAddr [] = 1"
| "tlb_walk m mr tr guestAddr (way # ways) =
     (let setIndex = drop_bit 13 guestAddr AND (NUM_SETS_WAY - 1);
          entry = getSPR m (mr way + setIndex)
      in if \<not> tlbEntryValid entry then tlb_walk m mr tr guestAddr ways
         else if tlbVPN entry = addressNoOffset guestAddr then
           let phyAddr = getSPR m (tr way + setIndex)
           in tlbPPN phyAddr OR addressOffset guestAddr
         else tlb_walk m mr tr guestAddr ways)"

definition virtualToPhysicalD :: "machine \<Rightarrow> u32 \<Rightarrow> u32" where
  "virtualToPhysicalD m guestAddr =
     (if \<not> cpu_get_dme (cpu m) then guestAddr
      else tlb_walk m SPR_DTLBMR_BASE SPR_DTLBTR_BASE guestAddr (map of_nat [0..<NUM_WAYS]))"

definition virtualToPhysicalI :: "machine \<Rightarrow> u32 \<Rightarrow> u32" where
  "virtualToPhysicalI m guestAddr =
     (if \<not> cpu_get_ime (cpu m) then guestAddr
      else tlb_walk m SPR_ITLBMR_BASE SPR_ITLBTR_BASE guestAddr (map of_nat [0..<NUM_WAYS]))"

text \<open>
  The guest accesses return the code the C functions return and, for the loads, what was stored
  through the \<^verbatim>\<open>value\<close> pointer: \<open>None\<close> when it was left alone.
\<close>

definition guestLoadD :: "machine \<Rightarrow> u32 \<Rightarrow> u32 \<times> u32 option" where
  "guestLoadD m guestAddr =
     (let phyAddr = virtualToPhysicalD m guestAddr
      in if phyAddr > 2 then (0, Some (guestLoad m phyAddr)) else (phyAddr, None))"

definition guestLoadI :: "machine \<Rightarrow> u32 \<Rightarrow> u32 \<times> u32 option" where
  "guestLoadI m guestAddr =
     (let phyAddr = virtualToPhysicalI m guestAddr
      in if phyAddr > 2 then (0, Some (guestLoad m phyAddr)) else (phyAddr, None))"

definition flushCaches :: "machine \<Rightarrow> u32 \<Rightarrow> machine" where
  "flushCaches m phyAddr = setSPR (setSPR m SPR_DCBFR phyAddr) SPR_ICBIR phyAddr"

text \<open>\<^verbatim>\<open>flushPipeline\<close> is five \<^verbatim>\<open>l.nop\<close> and changes nothing.\<close>

definition guestStoreD :: "machine \<Rightarrow> u32 \<Rightarrow> u32 \<Rightarrow> u32 \<times> machine" where
  "guestStoreD m guestAddr val =
     (let phyAddr = virtualToPhysicalD m guestAddr
      in if phyAddr > 2 then
           let m = flushCaches m phyAddr;
               temp = getSPR m SPR_SR;
               m = setSPR m SPR_SR (temp AND 0xffffffe7);
               m = guestStore m phyAddr val;
               m = setSPR m SPR_SR temp
           in (0, m)
         else (phyAddr, m))"

section \<open>Special-purpose registers of the simulated processor\<close>

text \<open>The cases of \<^verbatim>\<open>cpu_set_spr\<close> and \<^verbatim>\<open>cpu_get_spr\<close> that every build has; \<open>None\<close> is \<^verbatim>\<open>default\<close>.\<close>

definition cpu_set_spr_case :: "CPU \<Rightarrow> u32 \<Rightarrow> u32 \<Rightarrow> CPU option" where
  "cpu_set_spr_case c spr val =
     (if spr = SPR_NPC then Some (c\<lparr>npc := val\<rparr>)
      else if spr = SPR_SR then Some (c\<lparr>sr := (val AND 0xf001ffff) OR 0x00008000\<rparr>)
      else if spr = SPR_PPC then Some (c\<lparr>pc := val\<rparr>)
      else if spr = SPR_EPCR_BASE then Some (c\<lparr>epcr := val\<rparr>)
      else if spr = SPR_EEAR_BASE then Some (c\<lparr>eear := val\<rparr>)
      else if spr = SPR_ESR_BASE then Some (c\<lparr>esr := val\<rparr>)
      else if spr = SPR_DSR then Some (c\<lparr>dsr := val\<rparr>)
      else if spr = SPR_MACLO then Some (c\<lparr>maclo := val\<rparr>)
      else if spr = SPR_MACHI then Some (c\<lparr>machi := val\<rparr>)
      else None)"

definition cpu_get_spr_case :: "CPU \<Rightarrow> u32 \<Rightarrow> u32 option" where
  "cpu_get_spr_case c spr =
     (if spr = SPR_NPC then Some (npc c)
      else if spr = SPR_SR then Some (sr c)
      else if spr = SPR_PPC then Some (pc c)
      else if spr = SPR_EPCR_BASE then Some (epcr c)
      else if spr = SPR_EEAR_BASE then Some (eear c)
      else if spr = SPR_ESR_BASE then Some (esr c)
      else if spr = SPR_DSR then Some (dsr c)
      else if spr = SPR_MACLO then Some (maclo c)
      else if spr = SPR_MACHI then Some (machi c)
      else None)"

text \<open>The firmware build: no check of the mode, and other registers go to the hardware.\<close>

definition cpu_set_spr :: "machine \<Rightarrow> u32 \<Rightarrow> u32 \<Rightarrow> machine" where
  "cpu_set_spr m spr val =
     (case cpu_set_spr_case (cpu m) spr val of
        Some c \<Rightarrow> m\<lparr>cpu := c\<rparr>
      | None \<Rightarrow> setSPR m spr val)"

definition cpu_get_spr :: "machine \<Rightarrow> u32 \<Rightarrow> u32" where
  "cpu_get_spr m spr =
     (case cpu_get_spr_case (cpu m) spr of Some v \<Rightarrow> v | None \<Rightarrow> getSPR m spr)"

text \<open>
  The hosted builds: both functions assert supervisor mode, know the timer registers, and stop
  with a failed assertion on any other register.
\<close>

datatype 'a hosted = Returns 'a | AssertFails

definition cpu_set_spr_hosted :: "CPU \<Rightarrow> u32 \<Rightarrow> u32 \<Rightarrow> CPU hosted" where
  "cpu_set_spr_hosted c spr val =
     (if sr c AND SPR_SR_SM = 0 then AssertFails
      else case cpu_set_spr_case c spr val of
        Some c' \<Rightarrow> Returns c'
      | None \<Rightarrow>
          if spr = SPR_TTMR then Returns (c\<lparr>ttmr := val\<rparr>)
          else if spr = SPR_TTCR then Returns (c\<lparr>ttcr := val\<rparr>)
          else AssertFails)"

definition cpu_get_spr_hosted :: "CPU \<Rightarrow> u32 \<Rightarrow> u32 hosted" where
  "cpu_get_spr_hosted c spr =
     (if sr c AND SPR_SR_SM = 0 then AssertFails
      else case cpu_get_spr_case c spr of
        Some v \<Rightarrow> Returns v
      | None \<Rightarrow>
          if spr = SPR_TTMR then Returns (ttmr c)
          else if spr = SPR_TTCR then Returns (ttcr c)
          else AssertFails)"

section \<open>Physical memory provides word memory\<close>

lemma load_store_word_same: "load_word (store_word b a v) a = v"
proof -
  have "load_word (store_word b a v) a =
      push_bit 24 (ucast (ucast (drop_bit 24 v) :: u8)) OR push_bit 16 (ucast (ucast (drop_bit 16 v) :: u8)) OR
      push_bit 8 (ucast (ucast (drop_bit 8 v) :: u8)) OR ucast (ucast v :: u8)"
    by (simp add: load_word_def store_word_def)
  also have "\<dots> = v"
  proof (rule bit_word_eqI)
    fix n :: nat assume "n < LENGTH(32)"
    then show "bit (push_bit 24 (ucast (ucast (drop_bit 24 v) :: u8)) OR
        push_bit 16 (ucast (ucast (drop_bit 16 v) :: u8)) OR
        push_bit 8 (ucast (ucast (drop_bit 8 v) :: u8)) OR ucast (ucast v :: u8) :: u32) n = bit v n"
      by (cases "n < 8"; cases "n < 16"; cases "n < 24") (auto simp: bit_simps)
  qed
  finally show ?thesis .
qed

lemma aligned_plus_and:
  assumes "(a :: u32) AND 3 = 0" "i \<in> {0, 1, 2, 3}"
  shows "(a + i) AND NOT 3 = a"
proof -
  have m: "(3 :: u32) = mask 2" by (simp add: mask_eq_exp_minus_1)
  have i: "take_bit 2 i = i" using assms(2) by (auto simp: take_bit_eq_mask mask_eq_exp_minus_1)
  have a: "take_bit 2 a = 0" using assms(1) by (simp add: m take_bit_eq_mask)
  have low: "n < 2 \<Longrightarrow> \<not> bit a n" for n
    using arg_cong [OF a, of "\<lambda>x. bit x n"] by (simp add: bit_take_bit_iff)
  have high: "2 \<le> n \<Longrightarrow> \<not> bit i n" for n using i by (metis bit_take_bit_iff not_less)
  have "a AND i = 0" by (rule bit_word_eqI) (use low high in \<open>auto simp: bit_simps, meson not_less\<close>)
  then have sum: "a + i = a OR i" by (rule disjunctive_add_eq_or)
  show ?thesis unfolding m sum
  proof (rule bit_word_eqI)
    fix n :: nat assume "n < LENGTH(32)"
    then show "bit ((a OR i) AND NOT (mask 2)) n = bit a n"
      using low [of n] high [of n] by (cases "n < 2") (auto simp: bit_simps)
  qed
qed

lemma load_store_word_other:
  assumes "a AND 3 = 0" "b AND 3 = 0" "a \<noteq> b"
  shows "load_word (store_word f a v) b = load_word f b"
proof -
  have "b + j \<noteq> a + i" if "i \<in> {0, 1, 2, 3}" "j \<in> {0, 1, 2, 3}" for i j
    using aligned_plus_and [OF assms(1) that(1)] aligned_plus_and [OF assms(2) that(2)] assms(3) by metis
  from this [of 0 0] this [of 1 0] this [of 2 0] this [of 3 0] this [of 0 1] this [of 1 1]
    this [of 2 1] this [of 3 1] this [of 0 2] this [of 1 2] this [of 2 2] this [of 3 2]
    this [of 0 3] this [of 1 3] this [of 2 3] this [of 3 3]
  show ?thesis by (simp add: load_word_def store_word_def)
qed

interpretation phys: word_memory guestLoad guestStore "\<lambda>a. a AND 3 = 0"
  by unfold_locales
    (simp_all add: guestLoad_def guestStore_def load_store_word_same load_store_word_other)

text \<open>The byte of a big-endian word at its own address.\<close>

lemma u8_bit_beyond [simp]: "8 \<le> n \<Longrightarrow> \<not> bit (x :: u8) n"
  using bit_imp_le_length [of x n] by auto

lemma bytes_of_concat:
  fixes b0 b1 b2 b3 :: u8
  defines "w \<equiv> push_bit 24 (ucast b0) OR push_bit 16 (ucast b1) OR push_bit 8 (ucast b2) OR ucast b3 :: u32"
  shows "take_bit 8 (drop_bit 24 w) = ucast b0" "take_bit 8 (drop_bit 16 w) = ucast b1"
    "take_bit 8 (drop_bit 8 w) = ucast b2" "take_bit 8 w = ucast b3"
  unfolding w_def by (rule bit_word_eqI; case_tac "n < 8"; auto simp: bit_simps)+

lemma byte_of_load_word: "byte_of_word a (load_word b (a AND NOT 3)) = ucast (b a)"
proof -
  have "x = (x AND NOT 3) OR (x AND 3)" for x :: u32 by (rule bit_word_eqI) (auto simp: bit_simps)
  moreover have "(a AND NOT 3) AND (a AND 3) = 0" by (rule bit_word_eqI) (auto simp: bit_simps)
  ultimately have a: "a = (a AND NOT 3) + (a AND 3)" by (metis disjunctive_add_eq_or)
  have "a AND 3 = of_nat (unat a mod 4)" by (simp flip: word_and_3_eq)
  moreover have "unat a mod 4 \<in> {0, 1, 2, 3}" by auto
  ultimately consider "a AND 3 = 0" "unat a mod 4 = 0" | "a AND 3 = 1" "unat a mod 4 = 1"
    | "a AND 3 = 2" "unat a mod 4 = 2" | "a AND 3 = 3" "unat a mod 4 = 3" by fastforce
  then have "byte_of_word a (load_word b base) = ucast (b (base + (a AND 3)))" for base
  proof cases
    case 1 show ?thesis unfolding byte_of_word_eq load_word_def 1
      using bytes_of_concat(1) [of "b base" "b (base + 1)" "b (base + 2)" "b (base + 3)"] by simp
  next
    case 2 show ?thesis unfolding byte_of_word_eq load_word_def 2
      using bytes_of_concat(2) [of "b base" "b (base + 1)" "b (base + 2)" "b (base + 3)"] by simp
  next
    case 3 show ?thesis unfolding byte_of_word_eq load_word_def 3
      using bytes_of_concat(3) [of "b base" "b (base + 1)" "b (base + 2)" "b (base + 3)"] by simp
  next
    case 4 show ?thesis unfolding byte_of_word_eq load_word_def 4
      using bytes_of_concat(4) [of "b base" "b (base + 1)" "b (base + 2)" "b (base + 3)"] by simp
  qed
  from this [of "a AND NOT 3"] show ?thesis by (simp only: a [symmetric])
qed

section \<open>The interface: page translation\<close>

lemma page_split: "a = addressNoOffset a OR addressOffset a"
proof -
  have m: "(0x1fff :: u32) = mask 13" "(0xffffe000 :: u32) = NOT (mask 13)"
    by (simp_all add: mask_eq_exp_minus_1)
  show ?thesis unfolding addressNoOffset_def addressOffset_def m
    by (rule bit_word_eqI) (auto simp: bit_simps)
qed

lemma page_parts:
  "addressNoOffset (tlbPPN p OR addressOffset a) = tlbPPN p"
  "addressOffset (tlbPPN p OR addressOffset a) = addressOffset a"
proof -
  have m: "(0x1fff :: u32) = mask 13" "(0xffffe000 :: u32) = NOT (mask 13)"
    by (simp_all add: mask_eq_exp_minus_1)
  show "addressNoOffset (tlbPPN p OR addressOffset a) = tlbPPN p"
    unfolding addressNoOffset_def addressOffset_def tlbPPN_def m
    by (rule bit_word_eqI) (auto simp: bit_simps)
  show "addressOffset (tlbPPN p OR addressOffset a) = addressOffset a"
    unfolding addressNoOffset_def addressOffset_def tlbPPN_def m
    by (rule bit_word_eqI) (auto simp: bit_simps)
qed

lemma page_of_word_address:
  "addressNoOffset (a AND NOT 3) = addressNoOffset a"
  "addressOffset (a AND NOT 3) = addressOffset a AND NOT 3"
proof -
  have "(a AND NOT 3) AND x = (a AND x) AND NOT 3" for x
    by (rule bit_word_eqI) (auto simp: bit_simps)
  moreover have "(a AND 0xffffe000) AND NOT 3 = a AND (0xffffe000 AND NOT 3)" by (simp only: and.assoc)
  ultimately show "addressNoOffset (a AND NOT 3) = addressNoOffset a"
    "addressOffset (a AND NOT 3) = addressOffset a AND NOT 3"
    by (simp_all only: addressNoOffset_def addressOffset_def) simp
qed

text \<open>
  What the access functions need of a translation: it either misses on a whole page or maps the
  page, keeping offsets. The client lemma is what makes the byte accesses sound: \<^verbatim>\<open>lbz\<close>, \<^verbatim>\<open>lbs\<close> and
  \<^verbatim>\<open>sb\<close> translate the byte address and then access the word around it through a second
  translation.
\<close>

locale page_translation =
  fixes v2p :: "u32 \<Rightarrow> u32"
  assumes page: "addressNoOffset a = addressNoOffset b \<Longrightarrow>
    v2p a = 1 \<and> v2p b = 1 \<or>
    addressNoOffset (v2p a) = addressNoOffset (v2p b) \<and>
    addressOffset (v2p a) = addressOffset a \<and> addressOffset (v2p b) = addressOffset b"
begin

lemma word_around:
  assumes "v2p a \<noteq> 1"
  shows "v2p (a AND NOT 3) = v2p a AND NOT 3"
proof -
  have "addressNoOffset (v2p (a AND NOT 3)) = addressNoOffset (v2p a AND NOT 3)"
    "addressOffset (v2p (a AND NOT 3)) = addressOffset (v2p a AND NOT 3)"
    using page [of a "a AND NOT 3"] assms by (simp_all only: page_of_word_address) auto
  then show ?thesis by (metis page_split)
qed

lemma offset_kept:
  assumes "v2p a \<noteq> 1"
  shows "v2p a AND 3 = a AND 3"
proof -
  have "addressOffset (v2p a) = addressOffset a" using page [of a a] assms by simp
  moreover have "x AND 3 = addressOffset x AND 3" for x by (simp add: addressOffset_def and.assoc)
  ultimately show ?thesis by metis
qed

end

lemma tlb_walk_page:
  assumes "addressNoOffset a = addressNoOffset b"
  shows "tlb_walk m mr tr a ways = 1 \<and> tlb_walk m mr tr b ways = 1 \<or>
    (\<exists>p. tlb_walk m mr tr a ways = tlbPPN p OR addressOffset a \<and>
         tlb_walk m mr tr b ways = tlbPPN p OR addressOffset b)"
proof (induction ways)
  case Nil
  then show ?case by simp
next
  case (Cons way ways)
  have "drop_bit 13 a = drop_bit 13 b"
  proof -
    have "drop_bit 13 x = drop_bit 13 (addressNoOffset x)" for x :: u32
    proof -
      have m: "(0xffffe000 :: u32) = NOT (mask 13)" by (simp add: mask_eq_exp_minus_1)
      show ?thesis unfolding addressNoOffset_def m
        by (rule bit_word_eqI; auto simp: bit_simps) (drule bit_imp_le_length, simp)
    qed
    then show ?thesis using assms by metis
  qed
  with Cons.IH assms show ?case by (auto simp: Let_def)
qed

interpretation dmmu: page_translation "virtualToPhysicalD m" for m
  by unfold_locales
    (use tlb_walk_page in \<open>fastforce simp: virtualToPhysicalD_def page_parts\<close>)

interpretation immu: page_translation "virtualToPhysicalI m" for m
  by unfold_locales
    (use tlb_walk_page in \<open>fastforce simp: virtualToPhysicalI_def page_parts\<close>)

section \<open>Properties\<close>

text \<open>
  Translation through the 64-entry, one-way TLBs: with the MMU off the address itself; otherwise
  the entry the page number selects decides, a miss (code 1) when it is invalid or holds another
  page, else its physical page with the offset kept. A word access around a byte that is mapped is
  in the same page.
\<close>

lemma translation:
  fixes a :: u32
  defines "set_i \<equiv> drop_bit 13 a AND 63"
  shows "virtualToPhysicalD m a =
      (if \<not> cpu_get_dme (cpu m) then a
       else let e = hspr m (0xA00 + set_i) in
         if e AND 1 \<noteq> 0 \<and> e AND 0xffffe000 = a AND 0xffffe000
         then (hspr m (0xA80 + set_i) AND 0xffffe000) OR (a AND 0x1fff) else 1) \<and>
    virtualToPhysicalI m a =
      (if \<not> cpu_get_ime (cpu m) then a
       else let e = hspr m (0x1200 + set_i) in
         if e AND 1 \<noteq> 0 \<and> e AND 0xffffe000 = a AND 0xffffe000
         then (hspr m (0x1280 + set_i) AND 0xffffe000) OR (a AND 0x1fff) else 1) \<and>
    (virtualToPhysicalD m a = 1 \<or> virtualToPhysicalD m (a AND NOT 3) = virtualToPhysicalD m a AND NOT 3)"
proof -
  have "virtualToPhysicalD m a = 1 \<or> virtualToPhysicalD m (a AND NOT 3) = virtualToPhysicalD m a AND NOT 3"
    using dmmu.word_around [of m a] by blast
  then show ?thesis
    by (simp add: virtualToPhysicalD_def virtualToPhysicalI_def NUM_WAYS_def NUM_SETS_WAY_def Let_def
        getSPR_def tlbEntryValid_def tlbVPN_def tlbPPN_def addressNoOffset_def addressOffset_def
        spr_defs set_i_def)
qed

lemma spr_case_other:
  "cpu_set_spr_case c r v = Some d \<Longrightarrow> s \<noteq> r \<Longrightarrow> cpu_get_spr_case d s = cpu_get_spr_case c s"
  unfolding cpu_set_spr_case_def
  by (elim if_SomeE; (simp only: option.inject option.distinct)?; (hypsubst, simp add: cpu_get_spr_case_def)?)

text \<open>
  Every special-purpose register reads back what was written to it, the simulated ones and those
  passed on to the hardware, except SR, of which the reserved bits read as zero and FO as one; a
  write leaves every other register alone. The hosted variants agree with the firmware's on the
  registers both simulate, in supervisor mode.
\<close>

lemma spr_round_trip:
  "cpu_get_spr (cpu_set_spr m r v) r = (if r = SPR_SR then (v AND 0xf001ffff) OR 0x8000 else v) \<and>
   (s \<noteq> r \<longrightarrow> cpu_get_spr (cpu_set_spr m r v) s = cpu_get_spr m s) \<and>
   (cpu_get_sm (cpu m) \<and> cpu_set_spr_case (cpu m) r v \<noteq> None \<longrightarrow>
      cpu_set_spr_hosted (cpu m) r v = Returns (cpu (cpu_set_spr m r v)) \<and>
      cpu_get_spr_hosted (cpu m) r = Returns (cpu_get_spr m r))"
proof -
  have c: "cpu_set_spr_case c r v = None \<longleftrightarrow> cpu_get_spr_case c' r = None" for c c' r v
    by (simp add: cpu_set_spr_case_def cpu_get_spr_case_def)
  have same: "cpu_get_spr (cpu_set_spr m r v) r = (if r = SPR_SR then (v AND 0xf001ffff) OR 0x8000 else v)"
    by (simp add: cpu_get_spr_def cpu_set_spr_def cpu_set_spr_case_def cpu_get_spr_case_def
        getSPR_def setSPR_def) (simp add: spr_defs)
  have other: "cpu_get_spr (cpu_set_spr m r v) s = cpu_get_spr m s" if "s \<noteq> r"
  proof (cases "cpu_set_spr_case (cpu m) r v")
    case None
    then show ?thesis using that by (simp add: cpu_set_spr_def cpu_get_spr_def setSPR_def getSPR_def split: option.split)
  next
    case (Some d)
    then have "cpu_get_spr_case d s = cpu_get_spr_case (cpu m) s"
      using that by (rule spr_case_other)
    then show ?thesis using Some by (simp add: cpu_set_spr_def cpu_get_spr_def getSPR_def split: option.split)
  qed
  show ?thesis
  proof (intro conjI impI, goal_cases)
    case 1
    show ?case by (rule same)
  next
    case 2
    then show ?case by (rule other)
  qed (use c [of "cpu m" r v "cpu m"] in \<open>auto simp: cpu_set_spr_hosted_def cpu_get_spr_hosted_def
    cpu_get_sm_def cpu_is_set_sr_flag_def cpu_set_spr_def cpu_get_spr_def\<close>)
qed

lemma spr_round_trip_witness:
  "cpu_get_spr (cpu_set_spr \<lparr>cpu = cpu_zero, hspr = (\<lambda>_. 0), mem = (\<lambda>_. 0), uninit = 0\<rparr> SPR_SR 1) SPR_SR = 0x8001"
  using spr_round_trip [of _ SPR_SR 1 0] by simp

end
