(* ===== verification/Decode.thy ===== *)
theory Decode
  imports Prelude
begin

unbundle bit_operations_syntax

text \<open>
  Instruction fields and decoding: the opcode constants of \<^verbatim>\<open>simulator.h\<close> and \<^verbatim>\<open>simulator.c\<close>,
  \<^verbatim>\<open>struct control\<close>, the field macros and the function \<^verbatim>\<open>decode\<close>, with the bounds on its fields
  that every instruction handler relies on.
\<close>

section \<open>Opcodes\<close>

definition OP_J :: u32 where
  [op_defs]: "OP_J = 0x0"

definition OP_JAL :: u32 where
  [op_defs]: "OP_JAL = 0x1"

definition OP_JALR :: u32 where
  [op_defs]: "OP_JALR = 0x12"

definition OP_BNF :: u32 where
  [op_defs]: "OP_BNF = 0x3"

definition OP_BF :: u32 where
  [op_defs]: "OP_BF = 0x4"

definition OP_NOP :: u32 where
  [op_defs]: "OP_NOP = 0x5"

definition OP_JR :: u32 where
  [op_defs]: "OP_JR = 0x11"

definition OP_LWZ :: u32 where
  [op_defs]: "OP_LWZ = 0x21"

definition OP_LWS :: u32 where
  [op_defs]: "OP_LWS = 0x22"

definition OP_LBZ :: u32 where
  [op_defs]: "OP_LBZ = 0x23"

definition OP_LBS :: u32 where
  [op_defs]: "OP_LBS = 0x24"

definition OP_LHZ :: u32 where
  [op_defs]: "OP_LHZ = 0x25"

definition OP_LHS :: u32 where
  [op_defs]: "OP_LHS = 0x26"

definition OP_ADDI :: u32 where
  [op_defs]: "OP_ADDI = 0x27"

definition OP_ADDIC :: u32 where
  [op_defs]: "OP_ADDIC = 0x28"

definition OP_ORI :: u32 where
  [op_defs]: "OP_ORI = 0x2a"

definition OP_XORI :: u32 where
  [op_defs]: "OP_XORI = 0x2b"

definition OP_MULI :: u32 where
  [op_defs]: "OP_MULI = 0x2c"

definition OP_SFI :: u32 where
  [op_defs]: "OP_SFI = 0x2f"

definition OP_SW :: u32 where
  [op_defs]: "OP_SW = 0x35"

definition OP_SB :: u32 where
  [op_defs]: "OP_SB = 0x36"

definition OP_SH :: u32 where
  [op_defs]: "OP_SH = 0x37"

definition OP_ALU :: u32 where
  [op_defs]: "OP_ALU = 0x38"

definition OP_MAC :: u32 where
  [op_defs]: "OP_MAC = 0x31"

definition OP_MACI :: u32 where
  [op_defs]: "OP_MACI = 0x13"

definition OP_MACRC_MOVHI :: u32 where
  [op_defs]: "OP_MACRC_MOVHI = 0x6"

definition OP_MTSPR :: u32 where
  [op_defs]: "OP_MTSPR = 0x30"

definition OP_MFSPR :: u32 where
  [op_defs]: "OP_MFSPR = 0x2d"

definition OP_ANDI :: u32 where
  [op_defs]: "OP_ANDI = 0x29"

definition OP_RO_SHIFT_I :: u32 where
  [op_defs]: "OP_RO_SHIFT_I = 0x2e"

definition OP_SF :: u32 where
  [op_defs]: "OP_SF = 0x39"

definition OP_SYS_TRAP_SYNC :: u32 where
  [op_defs]: "OP_SYS_TRAP_SYNC = 0x08"

definition OP_RFE :: u32 where
  [op_defs]: "OP_RFE = 0x9"

text \<open>Function codes of the ALU, compare and shift-immediate groups.\<close>

definition ADD_ALU_OP :: u32 where
  [op_defs]: "ADD_ALU_OP = 0x0"

definition ADDC_ALU_OP :: u32 where
  [op_defs]: "ADDC_ALU_OP = 0x1"

definition SUB_ALU_OP :: u32 where
  [op_defs]: "SUB_ALU_OP = 0x2"

definition AND_ALU_OP :: u32 where
  [op_defs]: "AND_ALU_OP = 0x3"

definition OR_ALU_OP :: u32 where
  [op_defs]: "OR_ALU_OP = 0x4"

definition XOR_ALU_OP :: u32 where
  [op_defs]: "XOR_ALU_OP = 0x5"

definition EXTHS_ALU_OP :: u32 where
  [op_defs]: "EXTHS_ALU_OP = 0xc"

definition EXTBS_ALU_OP :: u32 where
  [op_defs]: "EXTBS_ALU_OP = push_bit 6 0x1 OR 0xc"

definition EXTBZ_ALU_OP :: u32 where
  [op_defs]: "EXTBZ_ALU_OP = push_bit 6 0x3 OR 0xc"

definition EXTHZ_ALU_OP :: u32 where
  [op_defs]: "EXTHZ_ALU_OP = push_bit 6 0x2 OR 0xc"

definition EXTWS_ALU_OP :: u32 where
  [op_defs]: "EXTWS_ALU_OP = push_bit 6 0x0 OR 0xd"

definition EXTWZ_ALU_OP :: u32 where
  [op_defs]: "EXTWZ_ALU_OP = push_bit 6 0x1 OR 0xd"

definition SLL_ALU_OP :: u32 where
  [op_defs]: "SLL_ALU_OP = push_bit 6 0x0 OR 0x8"

definition SRL_ALU_OP :: u32 where
  [op_defs]: "SRL_ALU_OP = push_bit 6 0x1 OR 0x8"

definition SRA_ALU_OP :: u32 where
  [op_defs]: "SRA_ALU_OP = push_bit 6 0x2 OR 0x8"

definition DIVU_ALU_OP :: u32 where
  [op_defs]: "DIVU_ALU_OP = push_bit 8 0x3 OR 0xa"

definition DIV_ALU_OP :: u32 where
  [op_defs]: "DIV_ALU_OP = push_bit 8 0x3 OR 0x9"

definition FF1_ALU_OP :: u32 where
  [op_defs]: "FF1_ALU_OP = push_bit 8 0x0 OR 0xf"

definition FL1_ALU_OP :: u32 where
  [op_defs]: "FL1_ALU_OP = push_bit 8 0x1 OR 0xf"

definition MUL_ALU_OP :: u32 where
  [op_defs]: "MUL_ALU_OP = push_bit 8 0x3 OR 0x6"

definition MULU_ALU_OP :: u32 where
  [op_defs]: "MULU_ALU_OP = push_bit 8 0x3 OR 0xb"

definition ROR_ALU_OP :: u32 where
  [op_defs]: "ROR_ALU_OP = push_bit 6 0x3 OR 0x8"

definition CMOV_ALU_OP :: u32 where
  [op_defs]: "CMOV_ALU_OP = push_bit 6 0x0 OR 0xe"

definition SFEQ_OP :: u32 where
  [op_defs]: "SFEQ_OP = 0x0"

definition SFNE_OP :: u32 where
  [op_defs]: "SFNE_OP = 0x1"

definition SFGTU_OP :: u32 where
  [op_defs]: "SFGTU_OP = 0x2"

definition SFGEU_OP :: u32 where
  [op_defs]: "SFGEU_OP = 0x3"

definition SFLTU_OP :: u32 where
  [op_defs]: "SFLTU_OP = 0x4"

definition SFLEU_OP :: u32 where
  [op_defs]: "SFLEU_OP = 0x5"

definition SFGTS_OP :: u32 where
  [op_defs]: "SFGTS_OP = 0xa"

definition SFGES_OP :: u32 where
  [op_defs]: "SFGES_OP = 0xb"

definition SFLTS_OP :: u32 where
  [op_defs]: "SFLTS_OP = 0xc"

definition SFLES_OP :: u32 where
  [op_defs]: "SFLES_OP = 0xd"

definition RS_SLLI_OP :: u32 where
  [op_defs]: "RS_SLLI_OP = 0x0"

definition RS_SRLI_OP :: u32 where
  [op_defs]: "RS_SRLI_OP = 0x1"

definition RS_SRAI_OP :: u32 where
  [op_defs]: "RS_SRAI_OP = 0x2"

definition RS_RORI_OP :: u32 where
  [op_defs]: "RS_RORI_OP = 0x3"

section \<open>Fields\<close>

definition GET_BITS :: "u32 \<Rightarrow> nat \<Rightarrow> nat \<Rightarrow> u32" where
  "GET_BITS inst shift bits = drop_bit shift inst AND (push_bit bits 1 - 1)"

definition OPCODE :: "u32 \<Rightarrow> u32" where
  "OPCODE inst = GET_BITS inst 26 6"

definition SF_OP :: "u32 \<Rightarrow> u32" where
  "SF_OP inst = GET_BITS inst 21 5"

definition ALU_OP :: "u32 \<Rightarrow> u32" where
  "ALU_OP inst = GET_BITS inst 0 10"

definition ALU_SHIFT :: "u32 \<Rightarrow> bool" where
  "ALU_SHIFT inst \<longleftrightarrow> inst AND 0xf = 0xc \<or> inst AND 0xf = 0x8"

definition RO_SHIFT_I_OP :: "u32 \<Rightarrow> u32" where
  "RO_SHIFT_I_OP inst = GET_BITS inst 6 2"

definition SPLIT_I :: "u32 \<Rightarrow> u32" where
  "SPLIT_I inst = push_bit 11 (GET_BITS inst 21 5) OR GET_BITS inst 0 11"

record control =
  inst :: u32
  opcode :: u32
  sf_op :: u32
  alu_op :: u32
  ro_shift_i_op :: u32
  rD :: u32
  rA :: u32
  rB :: u32
  imm_N :: u32
  imm_K :: u32
  imm_I :: u32
  imm_L :: u32

definition decode :: "u32 \<Rightarrow> control" where
  "decode i =
     \<lparr>inst = i,
      opcode = OPCODE i,
      sf_op = SF_OP i,
      alu_op = (if ALU_SHIFT i then ALU_OP i AND NOT 0x30 else ALU_OP i AND NOT 0xf0),
      ro_shift_i_op = RO_SHIFT_I_OP i,
      rD = GET_BITS i 21 5,
      rA = GET_BITS i 16 5,
      rB = GET_BITS i 11 5,
      imm_N = GET_BITS i 0 26,
      imm_K = (if OPCODE i = OP_MTSPR then SPLIT_I i else GET_BITS i 0 16),
      imm_I = (if OPCODE i = OP_SW \<or> OPCODE i = OP_SH \<or> OPCODE i = OP_SB
               then SPLIT_I i else GET_BITS i 0 16),
      imm_L = GET_BITS i 0 5\<rparr>"

section \<open>Bounds of the fields\<close>

lemma GET_BITS_eq: "GET_BITS i s b = take_bit b (drop_bit s i)"
  by (simp add: GET_BITS_def take_bit_eq_mask mask_eq_exp_minus_1)

lemma unat_GET_BITS: "unat (GET_BITS i s b) = unat i div 2 ^ s mod 2 ^ b"
proof -
  have "unat (take_bit b (drop_bit s i)) = take_bit b (drop_bit s (unat i))"
    by (simp only: unsigned_take_bit_eq unat_drop_bit_eq)
  then show ?thesis by (simp add: GET_BITS_eq take_bit_eq_mod drop_bit_eq_div)
qed

lemma unat_GET_BITS_less: "unat (GET_BITS i s b) < 2 ^ b"
  by (simp add: unat_GET_BITS)

text \<open>The split immediate of stores and \<^verbatim>\<open>l.mtspr\<close>: five high and eleven low bits.\<close>

lemma SPLIT_I_less: "unat (SPLIT_I i) < 2 ^ 16"
proof -
  have "SPLIT_I i = take_bit 16 (SPLIT_I i)"
    by (rule bit_word_eqI) (auto simp: SPLIT_I_def GET_BITS_eq bit_simps)
  then have "unat (SPLIT_I i) = unat (take_bit 16 (SPLIT_I i))" by simp
  also have "\<dots> = take_bit 16 (unat (SPLIT_I i))" by (rule unsigned_take_bit_eq)
  also have "\<dots> < 2 ^ 16" by (rule take_bit_nat_less_exp)
  finally show ?thesis .
qed

definition wf_control :: "control \<Rightarrow> bool" where
  "wf_control c \<longleftrightarrow>
     unat (opcode c) < 64 \<and> unat (rD c) < 32 \<and> unat (rA c) < 32 \<and> unat (rB c) < 32 \<and>
     unat (imm_N c) < 2 ^ 26 \<and> unat (imm_K c) < 2 ^ 16 \<and> unat (imm_I c) < 2 ^ 16 \<and>
     unat (imm_L c) < 32"

lemma wf_control_decode [simp, intro]: "wf_control (decode i)"
  using unat_GET_BITS_less [of i 26 6] unat_GET_BITS_less [of i 21 5] unat_GET_BITS_less [of i 16 5]
    unat_GET_BITS_less [of i 11 5] unat_GET_BITS_less [of i 0 26] unat_GET_BITS_less [of i 0 16]
    unat_GET_BITS_less [of i 0 5] SPLIT_I_less [of i]
  by (simp add: wf_control_def decode_def OPCODE_def)

lemma decode_fields:
  "inst (decode i) = i" "opcode (decode i) = OPCODE i" "rD (decode i) = GET_BITS i 21 5"
  "rA (decode i) = GET_BITS i 16 5" "rB (decode i) = GET_BITS i 11 5" "imm_N (decode i) = GET_BITS i 0 26"
  "imm_L (decode i) = GET_BITS i 0 5" "sf_op (decode i) = SF_OP i" "ro_shift_i_op (decode i) = RO_SHIFT_I_OP i"
  "imm_K (decode i) = (if OPCODE i = OP_MTSPR then SPLIT_I i else GET_BITS i 0 16)"
  "imm_I (decode i) = (if OPCODE i = OP_SW \<or> OPCODE i = OP_SH \<or> OPCODE i = OP_SB
     then SPLIT_I i else GET_BITS i 0 16)"
  by (simp_all add: decode_def)

lemmas decode_eval = decode_fields GET_BITS_def OPCODE_def SPLIT_I_def SF_OP_def RO_SHIFT_I_OP_def op_defs

lemma wf_controlD:
  assumes "wf_control c"
  shows "unat (rD c) < 32" "unat (rA c) < 32" "unat (rB c) < 32" "unat (imm_N c) < 2 ^ 26"
    "unat (imm_K c) < 2 ^ 16" "unat (imm_I c) < 2 ^ 16" "unat (imm_L c) < 32"
  using assms by (simp_all add: wf_control_def)

section \<open>Properties\<close>

text \<open>
  Decoding is total and its fields are in range: register numbers below 32 and immediates of
  their width; the immediate of a store or \<^verbatim>\<open>l.mtspr\<close> is the five-bit high part followed by the
  eleven-bit low part, and the mask applied to the function code never yields the code of
  \<^verbatim>\<open>l.extwz\<close>, which decodes as \<^verbatim>\<open>l.extws\<close>.
\<close>

lemma decode_bounds:
  "wf_control (decode i) \<and> inst (decode i) = i \<and>
   unat (SPLIT_I i) = 2 ^ 11 * (unat i div 2 ^ 21 mod 2 ^ 5) + unat i mod 2 ^ 11 \<and>
   (OPCODE i \<in> {OP_SW, OP_SH, OP_SB} \<longrightarrow> imm_I (decode i) = SPLIT_I i) \<and>
   (OPCODE i = OP_MTSPR \<longrightarrow> imm_K (decode i) = SPLIT_I i) \<and> alu_op (decode i) \<noteq> EXTWZ_ALU_OP"
proof -
  have "unat (SPLIT_I i) = 2 ^ 11 * (unat i div 2 ^ 21 mod 2 ^ 5) + unat i mod 2 ^ 11"
  proof -
    have d: "push_bit 11 (GET_BITS i 21 5) AND GET_BITS i 0 11 = 0"
      unfolding GET_BITS_eq by (rule bit_word_eqI) (auto simp: bit_simps)
    have "unat (push_bit 11 (GET_BITS i 21 5)) = 2 ^ 11 * unat (GET_BITS i 21 5)"
      using unat_GET_BITS_less [of i 21 5]
      by (simp only: unsigned_push_bit_eq) (simp add: push_bit_eq_mult take_bit_nat_eq_self)
    moreover have "unat (push_bit 11 (GET_BITS i 21 5)) + unat (GET_BITS i 0 11) < 2 ^ 32"
      using unat_GET_BITS_less [of i 21 5] unat_GET_BITS_less [of i 0 11] calculation by simp
    ultimately show ?thesis
      unfolding SPLIT_I_def disjunctive_add_eq_or [OF d, symmetric]
      by (simp add: unat_plus_simple [THEN iffD1] unat_add_lem [THEN iffD1] unat_GET_BITS)
  qed
  moreover have "alu_op (decode i) \<noteq> EXTWZ_ALU_OP"
  proof (cases "ALU_SHIFT i")
    case True
    have "bit i 0 = bit (i AND 0xf) 0" by (simp add: bit_and_iff)
    then have "\<not> bit i 0" using True by (auto simp: ALU_SHIFT_def)
    then have "\<not> bit (alu_op (decode i)) 0"
      using True by (simp add: decode_def ALU_OP_def GET_BITS_eq bit_simps)
    moreover have "bit EXTWZ_ALU_OP 0" by (simp add: op_defs)
    ultimately show ?thesis by metis
  next
    case False
    then have "\<not> bit (alu_op (decode i)) 6" by (simp add: decode_def bit_simps)
    moreover have "bit EXTWZ_ALU_OP 6" by (simp add: op_defs)
    ultimately show ?thesis by metis
  qed
  ultimately show ?thesis by (auto simp: decode_fields)
qed

lemma decode_bounds_witness: "imm_I (decode 0xD7E42FFC) = 0xfffc"
  using decode_bounds [of "0xD7E42FFC"] by (simp add: OPCODE_def GET_BITS_def op_defs SPLIT_I_def)

end
