(* ===== verification/Exceptions.thy ===== *)
theory Exceptions
  imports Cpu
begin

unbundle bit_operations_syntax

text \<open>
  Exception entry in \<^verbatim>\<open>simulator.c\<close>: the seven handlers that model an OR1K exception, the system
  call, the trap, and the return from exception. The three blocks the C functions repeat are
  definitions of their own; the unused \<^verbatim>\<open>cont\<close> argument is dropped.
\<close>

section \<open>Definitions\<close>

text \<open>EPCR and SR[DSX], from whether the instruction sits in a delay slot.\<close>

definition save_epcr :: "CPU \<Rightarrow> CPU" where
  "save_epcr c =
     (if is_in_delay_slot c
      then cpu_set_dsx (c\<lparr>epcr := pc c - 4\<rparr>) True
      else cpu_set_dsx (c\<lparr>epcr := pc c\<rparr>) False)"

text \<open>The handler address, with the high prefix when SR[EPH] is set.\<close>

definition set_vector :: "u32 \<Rightarrow> u32 \<Rightarrow> CPU \<Rightarrow> CPU" where
  "set_vector hi lo c = c\<lparr>npc := (if cpu_get_eph c then hi else lo)\<rparr>"

text \<open>MMUs off, supervisor mode, interrupt and timer exceptions disabled.\<close>

definition enter_supervisor :: "CPU \<Rightarrow> CPU" where
  "enter_supervisor c =
     (let c = cpu_set_dme c False;
          c = cpu_set_ime c False;
          c = cpu_set_sm c True;
          c = cpu_set_iee c False
      in cpu_set_tee c False)"

definition alignment_exception :: "CPU \<Rightarrow> u32 \<Rightarrow> CPU" where
  "alignment_exception c ea =
     (let c = save_epcr c;
          c = c\<lparr>eear := ea\<rparr>;
          c = c\<lparr>esr := sr c\<rparr>;
          c = set_vector 0xF0000600 0x600 c
      in enter_supervisor c)"

definition dataPageFault :: "CPU \<Rightarrow> u32 \<Rightarrow> CPU" where
  "dataPageFault c ea =
     (let c = save_epcr c;
          c = c\<lparr>eear := ea\<rparr>;
          c = c\<lparr>esr := sr c\<rparr>;
          c = set_vector 0xF0000300 0x300 c
      in enter_supervisor c)"

definition dataTLBMiss :: "CPU \<Rightarrow> u32 \<Rightarrow> CPU" where
  "dataTLBMiss c ea =
     (let c = save_epcr c;
          c = c\<lparr>eear := ea\<rparr>;
          c = c\<lparr>esr := sr c\<rparr>;
          c = set_vector 0xF0000900 0x900 c
      in enter_supervisor c)"

definition instructionPageFault :: "CPU \<Rightarrow> u32 \<Rightarrow> CPU" where
  "instructionPageFault c ea =
     (let c = save_epcr c;
          c = c\<lparr>eear := ea\<rparr>;
          c = c\<lparr>esr := sr c\<rparr>;
          c = set_vector 0xF0000400 0x400 c
      in enter_supervisor c)"

definition instructionTLBMiss :: "CPU \<Rightarrow> u32 \<Rightarrow> CPU" where
  "instructionTLBMiss c ea =
     (let c = save_epcr c;
          c = c\<lparr>eear := ea\<rparr>;
          c = c\<lparr>esr := sr c\<rparr>;
          c = set_vector 0xF0000A00 0xA00 c
      in enter_supervisor c)"

definition range_exception :: "CPU \<Rightarrow> CPU" where
  "range_exception c =
     (let c = save_epcr c;
          c = c\<lparr>esr := sr c\<rparr>;
          c = set_vector 0xF0000B00 0xB00 c
      in enter_supervisor c)"

definition l_trap :: "CPU \<Rightarrow> CPU" where
  "l_trap c =
     (let c = save_epcr c;
          c = c\<lparr>esr := sr c\<rparr>;
          c = set_vector 0xF0000E00 0xE00 c
      in enter_supervisor c)"

text \<open>\<^verbatim>\<open>sys\<close> returns behind the instruction and saves SR before it writes SR[DSX].\<close>

definition l_sys :: "CPU \<Rightarrow> CPU" where
  "l_sys c =
     (let c = (if is_in_delay_slot c then c\<lparr>epcr := pc c - 4\<rparr> else c\<lparr>epcr := npc c\<rparr>);
          c = c\<lparr>esr := sr c\<rparr>;
          c = cpu_set_dsx c (is_in_delay_slot c);
          c = set_vector 0xF0000C00 0xC00 c
      in enter_supervisor c)"

definition l_rfe :: "CPU \<Rightarrow> CPU" where
  "l_rfe c =
     (let c = c\<lparr>sr := esr c\<rparr>
      in c\<lparr>npc := epcr c\<rparr>)"

section \<open>The contract of an exception entry\<close>

text \<open>
  What every entry into an OR1K exception handler promises: the handler's vector, supervisor mode
  with MMUs, interrupt and timer exceptions off, the return address in EPCR, the old status in
  ESR, and nothing else of the visible state changed. \<open>ret\<close> and \<open>saved\<close> are the return address
  and the status word saved.
\<close>

locale exception_entry =
  fixes enter :: "CPU \<Rightarrow> CPU" and hi lo :: u32 and ret saved :: "CPU \<Rightarrow> u32"
  assumes vector: "npc (enter c) = (if cpu_get_eph c then hi else lo)"
    and supervisor: "cpu_get_sm (enter c)"
    and mmus_off: "\<not> cpu_get_dme (enter c)" "\<not> cpu_get_ime (enter c)"
    and masked: "\<not> cpu_is_set_sr_flag (enter c) SPR_SR_IEE" "\<not> cpu_is_set_sr_flag (enter c) SPR_SR_TEE"
    and return_address: "epcr (enter c) = ret c"
    and saved_status: "esr (enter c) = saved c"
    and kept: "gpr (enter c) = gpr c" "branch_pc (enter c) = branch_pc c" "pc (enter c) = pc c"
      "machi (enter c) = machi c" "maclo (enter c) = maclo c" "dsr (enter c) = dsr c"
begin

lemma wf_enter [simp]: "wf_cpu (enter c) = wf_cpu c"
  by (rule wf_cpu_cong) (rule kept)

text \<open>The next instruction is the first of the handler, outside any delay slot.\<close>

lemma enters_handler:
  assumes "branch_pc c = 0xffffffff"
  shows "pc (cpu_advance_pc (enter c)) = (if cpu_get_eph c then hi else lo)"
    and "\<not> is_in_delay_slot (cpu_advance_pc (enter c))"
  using assms by (simp_all add: cpu_advance_pc_def Let_def kept vector is_in_delay_slot_def)

text \<open>A handler that returns at once resumes at the return address with the saved status.\<close>

lemma rfe_resumes:
  assumes "branch_pc c = 0xffffffff"
  defines "d \<equiv> cpu_advance_pc (l_rfe (cpu_advance_pc (enter c)))"
  shows "pc d = ret c" "npc d = ret c + 4" "sr d = saved c" "gpr d = gpr c"
  using assms
  by (simp_all add: d_def cpu_advance_pc_def l_rfe_def Let_def kept return_address saved_status)

end

definition ret_slot :: "CPU \<Rightarrow> u32" where
  "ret_slot c = (if is_in_delay_slot c then pc c - 4 else pc c)"

definition saved_dsx :: "CPU \<Rightarrow> u32" where
  "saved_dsx c = sr (cpu_set_dsx c (is_in_delay_slot c))"

definition ret_next :: "CPU \<Rightarrow> u32" where
  "ret_next c = (if is_in_delay_slot c then pc c - 4 else npc c)"

lemma enter_supervisor_flags:
  "cpu_get_sm (enter_supervisor c)" "\<not> cpu_get_dme (enter_supervisor c)"
  "\<not> cpu_get_ime (enter_supervisor c)" "\<not> cpu_is_set_sr_flag (enter_supervisor c) SPR_SR_IEE"
  "\<not> cpu_is_set_sr_flag (enter_supervisor c) SPR_SR_TEE"
  by (simp_all add: enter_supervisor_def Let_def cpu_defs spr_defs)

lemma enter_supervisor_fields [simp]:
  "gpr (enter_supervisor c) = gpr c" "pc (enter_supervisor c) = pc c" "npc (enter_supervisor c) = npc c"
  "branch_pc (enter_supervisor c) = branch_pc c" "esr (enter_supervisor c) = esr c"
  "epcr (enter_supervisor c) = epcr c" "eear (enter_supervisor c) = eear c"
  "machi (enter_supervisor c) = machi c" "maclo (enter_supervisor c) = maclo c" "dsr (enter_supervisor c) = dsr c"
  by (simp_all add: enter_supervisor_def Let_def cpu_defs)

lemma save_epcr_fields [simp]:
  "gpr (save_epcr c) = gpr c" "pc (save_epcr c) = pc c" "npc (save_epcr c) = npc c"
  "branch_pc (save_epcr c) = branch_pc c" "epcr (save_epcr c) = ret_slot c"
  "sr (save_epcr c) = saved_dsx c" "machi (save_epcr c) = machi c" "maclo (save_epcr c) = maclo c"
  "dsr (save_epcr c) = dsr c" "esr (save_epcr c) = esr c" "eear (save_epcr c) = eear c"
  by (simp_all add: save_epcr_def cpu_defs ret_slot_def saved_dsx_def cpu_set_sr_flag_def)

lemma set_vector_fields [simp]:
  "gpr (set_vector h l c) = gpr c" "pc (set_vector h l c) = pc c" "sr (set_vector h l c) = sr c"
  "branch_pc (set_vector h l c) = branch_pc c" "epcr (set_vector h l c) = epcr c"
  "esr (set_vector h l c) = esr c" "machi (set_vector h l c) = machi c" "eear (set_vector h l c) = eear c"
  "maclo (set_vector h l c) = maclo c" "dsr (set_vector h l c) = dsr c"
  "npc (set_vector h l c) = (if cpu_get_eph c then h else l)"
  by (simp_all add: set_vector_def)

lemma eph_after_dsx: "cpu_get_eph (cpu_set_dsx c b) = cpu_get_eph c"
  by (simp add: cpu_defs spr_defs)

lemma eph_saved_dsx: "(saved_dsx c AND SPR_SR_EPH \<noteq> 0) = cpu_get_eph c"
  using eph_after_dsx [of c "is_in_delay_slot c"]
  by (simp add: saved_dsx_def cpu_get_eph_def cpu_is_set_sr_flag_def)

lemma eph_of_sr: "sr d = saved_dsx c \<Longrightarrow> cpu_get_eph d = cpu_get_eph c"
  using eph_saved_dsx [of c] by (simp add: cpu_get_eph_def cpu_is_set_sr_flag_def)

lemmas exception_facts = Let_def enter_supervisor_flags eph_of_sr

interpretation align: exception_entry "\<lambda>c. alignment_exception c ea" "0xF0000600" "0x600" ret_slot saved_dsx for ea
  by unfold_locales (simp_all add: alignment_exception_def exception_facts)

interpretation dpf: exception_entry "\<lambda>c. dataPageFault c ea" "0xF0000300" "0x300" ret_slot saved_dsx for ea
  by unfold_locales (simp_all add: dataPageFault_def exception_facts)

interpretation dtlb: exception_entry "\<lambda>c. dataTLBMiss c ea" "0xF0000900" "0x900" ret_slot saved_dsx for ea
  by unfold_locales (simp_all add: dataTLBMiss_def exception_facts)

interpretation ipf: exception_entry "\<lambda>c. instructionPageFault c ea" "0xF0000400" "0x400" ret_slot saved_dsx for ea
  by unfold_locales (simp_all add: instructionPageFault_def exception_facts)

interpretation itlb: exception_entry "\<lambda>c. instructionTLBMiss c ea" "0xF0000A00" "0xA00" ret_slot saved_dsx for ea
  by unfold_locales (simp_all add: instructionTLBMiss_def exception_facts)

interpretation range: exception_entry range_exception "0xF0000B00" "0xB00" ret_slot saved_dsx
  by unfold_locales (simp_all add: range_exception_def exception_facts)

interpretation trap: exception_entry l_trap "0xF0000E00" "0xE00" ret_slot saved_dsx
  by unfold_locales (simp_all add: l_trap_def exception_facts)

lemma eph_updates:
  "cpu_get_eph (c\<lparr>epcr := x\<rparr>) = cpu_get_eph c" "cpu_get_eph (c\<lparr>esr := x\<rparr>) = cpu_get_eph c"
  by (simp_all add: cpu_get_eph_def cpu_is_set_sr_flag_def)

interpretation sys: exception_entry l_sys "0xF0000C00" "0xC00" ret_next sr
  by unfold_locales
    (simp_all add: l_sys_def exception_facts ret_next_def eph_after_dsx eph_updates,
     simp_all add: cpu_set_dsx_def)

section \<open>Properties\<close>

text \<open>
  \<open>takes enter hi lo c\<close>: after the entry the next instruction is the handler's first, outside a
  delay slot, in supervisor mode, with MMUs and interrupts off, and the registers are as they were.
\<close>

definition takes :: "(CPU \<Rightarrow> CPU) \<Rightarrow> u32 \<Rightarrow> u32 \<Rightarrow> CPU \<Rightarrow> bool" where
  "takes enter hi lo c \<longleftrightarrow>
     (let d = cpu_advance_pc (enter c) in
      pc d = (if cpu_get_eph c then hi else lo) \<and> \<not> is_in_delay_slot d \<and> cpu_get_sm d \<and>
      \<not> cpu_get_dme d \<and> \<not> cpu_get_ime d \<and> \<not> cpu_is_set_sr_flag d SPR_SR_IEE \<and>
      \<not> cpu_is_set_sr_flag d SPR_SR_TEE \<and> gpr d = gpr c)"

text \<open>\<open>resumes enter a s c\<close>: an \<^verbatim>\<open>l.rfe\<close> as the handler's first instruction continues at \<open>a\<close> with status \<open>s\<close>.\<close>

definition resumes :: "(CPU \<Rightarrow> CPU) \<Rightarrow> u32 \<Rightarrow> u32 \<Rightarrow> CPU \<Rightarrow> bool" where
  "resumes enter a s c \<longleftrightarrow>
     (let d = cpu_advance_pc (l_rfe (cpu_advance_pc (enter c))) in
      pc d = a \<and> npc d = a + 4 \<and> sr d = s \<and> gpr d = gpr c)"

lemma advance_flags:
  "cpu_is_set_sr_flag (cpu_advance_pc c) f = cpu_is_set_sr_flag c f"
  "gpr (cpu_advance_pc c) = gpr c" "sr (cpu_advance_pc c) = sr c"
  by (simp_all add: cpu_advance_pc_def Let_def cpu_is_set_sr_flag_def)

context exception_entry
begin

lemma takes_entry: "branch_pc c = 0xffffffff \<Longrightarrow> takes enter hi lo c"
  using enters_handler [of c] supervisor [of c] mmus_off [of c] masked [of c] kept(1) [of c]
  by (simp add: takes_def Let_def advance_flags cpu_get_sm_def cpu_get_dme_def cpu_get_ime_def)

lemma resumes_entry: "branch_pc c = 0xffffffff \<Longrightarrow> resumes enter (ret c) (saved c) c"
  using rfe_resumes [of c] by (simp add: resumes_def Let_def)

end

text \<open>
  C37. Every exception a simulated instruction can raise enters its own vector (with the high prefix
  when SR[EPH] is set) in supervisor mode with both MMUs, external interrupts and the tick timer
  off, and keeps the registers; the vector is reached as the very next instruction.
\<close>

theorem exceptions_enter_their_handlers:
  assumes "branch_pc c = 0xffffffff"
  shows "takes (\<lambda>c. alignment_exception c ea) 0xF0000600 0x600 c \<and>
    takes (\<lambda>c. dataPageFault c ea) 0xF0000300 0x300 c \<and> takes (\<lambda>c. dataTLBMiss c ea) 0xF0000900 0x900 c \<and>
    takes (\<lambda>c. instructionPageFault c ea) 0xF0000400 0x400 c \<and>
    takes (\<lambda>c. instructionTLBMiss c ea) 0xF0000A00 0xA00 c \<and> takes range_exception 0xF0000B00 0xB00 c \<and>
    takes l_sys 0xF0000C00 0xC00 c \<and> takes l_trap 0xF0000E00 0xE00 c"
  using align.takes_entry dpf.takes_entry dtlb.takes_entry ipf.takes_entry itlb.takes_entry
    range.takes_entry sys.takes_entry trap.takes_entry assms by blast

theorem exceptions_enter_their_handlers_witness:
  "takes l_sys 0xF0000C00 0xC00 (cpu_init0 cpu_zero)"
  using exceptions_enter_their_handlers [of "cpu_init0 cpu_zero"]
  by (simp add: cpu_init0_def cpu_initvars_def)

lemma saved_dsx_masked: "saved_dsx c AND NOT SPR_SR_DSX = sr c AND NOT SPR_SR_DSX"
  unfolding saved_dsx_def cpu_set_dsx_def by (rule sr_flag_masked) simp

text \<open>
  C38. Exception entry and \<^verbatim>\<open>l.rfe\<close> are inverse: returning at once re-executes the faulting instruction
  (the branch before it, when it sits in a delay slot) with the saved status word; a system call
  continues behind the instruction with exactly the status it had. The status the other entries
  save differs from the old one only in SR[DSX].
\<close>

theorem exceptions_resume:
  assumes "branch_pc c = 0xffffffff"
  shows "resumes (\<lambda>c. alignment_exception c ea) (ret_slot c) (saved_dsx c) c \<and>
    resumes (\<lambda>c. dataPageFault c ea) (ret_slot c) (saved_dsx c) c \<and>
    resumes (\<lambda>c. dataTLBMiss c ea) (ret_slot c) (saved_dsx c) c \<and>
    resumes (\<lambda>c. instructionPageFault c ea) (ret_slot c) (saved_dsx c) c \<and>
    resumes (\<lambda>c. instructionTLBMiss c ea) (ret_slot c) (saved_dsx c) c \<and>
    resumes range_exception (ret_slot c) (saved_dsx c) c \<and> resumes l_trap (ret_slot c) (saved_dsx c) c \<and>
    resumes l_sys (ret_next c) (sr c) c \<and>
    saved_dsx c AND NOT SPR_SR_DSX = sr c AND NOT SPR_SR_DSX"
  using saved_dsx_masked align.resumes_entry dpf.resumes_entry dtlb.resumes_entry ipf.resumes_entry itlb.resumes_entry
    range.resumes_entry sys.resumes_entry trap.resumes_entry assms by blast

theorem exceptions_resume_witness:
  "resumes l_sys 4 0 (cpu_init0 cpu_zero)"
  using exceptions_resume [of "cpu_init0 cpu_zero"]
  by (simp add: cpu_init0_def cpu_initvars_def cpu_zero_def ret_next_def is_in_delay_slot_def)

end
