(* ===== verification/Alu_Inst.thy ===== *)
theory Alu_Inst
  imports Sim_Arith Decode Exceptions
begin

unbundle bit_operations_syntax

text \<open>
  The instruction handlers of \<^verbatim>\<open>simulator.c\<close> that touch the processor structure only: arithmetic,
  logic, extension, shifts, compares, multiply-accumulate, branches. Each takes the processor and
  the decoded instruction and returns the processor. A handler is named after the instruction it
  simulates (\<^verbatim>\<open>l.add\<close> is \<open>l_add\<close>, the C function \<^verbatim>\<open>add\<close>); \<^verbatim>\<open>myprintf\<close> expands to nothing in the
  firmware build.

  \<^verbatim>\<open>unimpl\<close> is \<^verbatim>\<open>while(1)\<close> in that build: a dispatcher that reaches it does not return, which is
  the result \<open>None\<close>.
\<close>

section \<open>Definitions\<close>

definition unimpl :: "'a option" where
  "unimpl = None"

definition INT_MIN :: int where
  "INT_MIN = -2147483648"

definition INT_MAX :: int where
  "INT_MAX = 2147483647"

definition UINT_MAX :: u64 where
  "UINT_MAX = 0xffffffff"

definition calc_ea :: "CPU \<Rightarrow> control \<Rightarrow> u32" where
  "calc_ea c t = exts (imm_I t) + cpu_get_gpr c (rA t)"

definition mul_shared :: "CPU \<Rightarrow> i32 \<Rightarrow> i32 \<Rightarrow> u32 \<Rightarrow> CPU" where
  [inst_defs]: "mul_shared c a b rd =
     (let prod_out = calc_mul a b;
          c = cpu_set_gpr c rd (ucast prod_out);
          c = (if sint prod_out < INT_MIN \<or> INT_MAX < sint prod_out
               then cpu_set_ov c True else cpu_set_ov c False);
          uprod_out = calc_mulu a b
      in if uprod_out > UINT_MAX then cpu_set_cy c True else cpu_set_cy c False)"

definition add_base :: "CPU \<Rightarrow> bool \<Rightarrow> u32 \<Rightarrow> u32 \<Rightarrow> u32 \<Rightarrow> CPU" where
  [inst_defs]: "add_base c carry_in rd a b =
     (let (res, overflow, carry) = calc_add carry_in a b;
          c = cpu_set_gpr c rd res;
          c = cpu_set_ov c overflow
      in cpu_set_cy c carry)"

text \<open>The check every arithmetic handler ends with.\<close>

definition check_range :: "CPU \<Rightarrow> CPU" where
  "check_range c = (if cpu_get_ove c \<and> cpu_get_ov c then range_exception c else c)"

subsection \<open>Arithmetic\<close>

definition l_muli :: "CPU \<Rightarrow> control \<Rightarrow> CPU" where
  [inst_defs]: "l_muli c t = check_range (mul_shared c (cpu_get_gpr c (rA t)) (exts (imm_I t)) (rD t))"

definition l_mul :: "CPU \<Rightarrow> control \<Rightarrow> CPU" where
  [inst_defs]: "l_mul c t = check_range (mul_shared c (cpu_get_gpr c (rA t)) (cpu_get_gpr c (rB t)) (rD t))"

definition l_mulu :: "CPU \<Rightarrow> control \<Rightarrow> CPU" where
  [inst_defs]: "l_mulu c t =
     (let p = calc_mulu (cpu_get_gpr c (rA t)) (cpu_get_gpr c (rB t));
          c = cpu_set_gpr c (rD t) (ucast p);
          c = cpu_set_ov c False;
          c = (if p > UINT_MAX then cpu_set_cy c True else cpu_set_cy c False)
      in check_range c)"

definition l_divu :: "CPU \<Rightarrow> control \<Rightarrow> CPU" where
  [inst_defs]: "l_divu c t =
     (let divisor = cpu_get_gpr c (rB t);
          dividend = cpu_get_gpr c (rA t);
          c = (if divisor \<noteq> 0 then
                 let (q, r) = calc_divu divisor dividend in cpu_set_gpr c (rD t) q
               else c);
          c = cpu_set_ov c False;
          c = cpu_set_cy c (divisor = 0)
      in check_range c)"

definition or32_div :: "CPU \<Rightarrow> control \<Rightarrow> CPU" where
  [inst_defs]: "or32_div c t =
     (let divisor = cpu_get_gpr c (rB t);
          dividend = cpu_get_gpr c (rA t);
          sign_dsor = divisor AND 0x80000000;
          sign_dend = dividend AND 0x80000000;
          divisor = (if sign_dsor \<noteq> 0 then NOT divisor + 1 else divisor);
          dividend = (if sign_dend \<noteq> 0 then NOT dividend + 1 else dividend);
          c = (if divisor \<noteq> 0 then
                 let (q, r) = calc_divu divisor dividend;
                     q = (if sign_dsor XOR sign_dend \<noteq> 0 then NOT (q - 1) else q)
                 in cpu_set_gpr c (rD t) q
               else c);
          c = cpu_set_ov c False;
          c = cpu_set_cy c (divisor = 0)
      in check_range c)"

text \<open>The scans of \<^verbatim>\<open>fl1\<close> and \<^verbatim>\<open>ff1\<close> stop at the first set bit, or at 32.\<close>

function fl1_scan :: "u32 \<Rightarrow> nat \<Rightarrow> nat" where
  "fl1_scan a idx =
     (if idx < 32 \<and> a AND push_bit (31 - idx) 1 = 0 then fl1_scan a (Suc idx) else idx)"
  by pat_completeness auto
termination
  by (relation "measure (\<lambda>(a, idx). 32 - idx)") auto

declare fl1_scan.simps [simp del]

definition l_fl1 :: "CPU \<Rightarrow> control \<Rightarrow> CPU" where
  [inst_defs]: "l_fl1 c t =
     (let a = cpu_get_gpr c (rA t);
          idx = of_nat (fl1_scan a 0)
      in cpu_set_gpr c (rD t) (32 - idx))"

function ff1_scan :: "u32 \<Rightarrow> nat \<Rightarrow> nat" where
  "ff1_scan a idx =
     (if idx < 32 \<and> a AND push_bit idx 1 = 0 then ff1_scan a (Suc idx) else idx)"
  by pat_completeness auto
termination
  by (relation "measure (\<lambda>(a, idx). 32 - idx)") auto

declare ff1_scan.simps [simp del]

definition l_ff1 :: "CPU \<Rightarrow> control \<Rightarrow> CPU" where
  [inst_defs]: "l_ff1 c t =
     (let a = cpu_get_gpr c (rA t);
          idx = of_nat (ff1_scan a 0);
          idx = (if idx = 32 then -1 else idx)
      in cpu_set_gpr c (rD t) (idx + 1))"

definition l_mac :: "CPU \<Rightarrow> control \<Rightarrow> CPU" where
  [inst_defs]: "l_mac c t =
     cpu_set_mac c (cpu_get_mac c + calc_mul (cpu_get_gpr c (rA t)) (cpu_get_gpr c (rB t)))"

definition l_msb :: "CPU \<Rightarrow> control \<Rightarrow> CPU" where
  [inst_defs]: "l_msb c t =
     cpu_set_mac c (cpu_get_mac c - calc_mul (cpu_get_gpr c (rA t)) (cpu_get_gpr c (rB t)))"

definition l_maci :: "CPU \<Rightarrow> control \<Rightarrow> CPU" where
  [inst_defs]: "l_maci c t =
     cpu_set_mac c (cpu_get_mac c + calc_mul (cpu_get_gpr c (rA t)) (sign_extend (imm_I t) 15))"

definition l_addi :: "CPU \<Rightarrow> control \<Rightarrow> CPU" where
  [inst_defs]: "l_addi c t = check_range (add_base c False (rD t) (cpu_get_gpr c (rA t)) (exts (imm_I t)))"

definition l_addic :: "CPU \<Rightarrow> control \<Rightarrow> CPU" where
  [inst_defs]: "l_addic c t =
     check_range (add_base c (cpu_get_cy c) (rD t) (cpu_get_gpr c (rA t)) (exts (imm_I t)))"

definition l_add :: "CPU \<Rightarrow> control \<Rightarrow> CPU" where
  [inst_defs]: "l_add c t =
     check_range (add_base c False (rD t) (cpu_get_gpr c (rA t)) (cpu_get_gpr c (rB t)))"

definition l_addc :: "CPU \<Rightarrow> control \<Rightarrow> CPU" where
  [inst_defs]: "l_addc c t =
     check_range (add_base c (cpu_get_cy c) (rD t) (cpu_get_gpr c (rA t)) (cpu_get_gpr c (rB t)))"

text \<open>\<^verbatim>\<open>sub\<close> reads the difference back from the destination register for the overflow test.\<close>

definition l_sub :: "CPU \<Rightarrow> control \<Rightarrow> CPU" where
  [inst_defs]: "l_sub c t =
     (let a = cpu_get_gpr c (rA t);
          b = cpu_get_gpr c (rB t);
          c = add_base c False (rD t) a (- b);
          r = cpu_get_gpr c (rD t);
          c = (if b > a then cpu_set_cy c True else cpu_set_cy c False);
          c = (if (sint a < 0 \<and> 0 \<le> sint b \<and> 0 \<le> sint r) \<or>
                  (0 \<le> sint a \<and> sint b < 0 \<and> sint r < 0)
               then cpu_set_ov c True else cpu_set_ov c False)
      in check_range c)"

subsection \<open>Logic, extension and moves\<close>

definition l_ori :: "CPU \<Rightarrow> control \<Rightarrow> CPU" where
  [inst_defs]: "l_ori c t = cpu_set_gpr c (rD t) (cpu_get_gpr c (rA t) OR imm_K t)"

definition l_and :: "CPU \<Rightarrow> control \<Rightarrow> CPU" where
  [inst_defs]: "l_and c t = cpu_set_gpr c (rD t) (cpu_get_gpr c (rA t) AND cpu_get_gpr c (rB t))"

definition l_xor :: "CPU \<Rightarrow> control \<Rightarrow> CPU" where
  [inst_defs]: "l_xor c t = cpu_set_gpr c (rD t) (cpu_get_gpr c (rA t) XOR cpu_get_gpr c (rB t))"

definition l_xori :: "CPU \<Rightarrow> control \<Rightarrow> CPU" where
  [inst_defs]: "l_xori c t = cpu_set_gpr c (rD t) (cpu_get_gpr c (rA t) XOR exts (imm_I t))"

definition l_or :: "CPU \<Rightarrow> control \<Rightarrow> CPU" where
  [inst_defs]: "l_or c t = cpu_set_gpr c (rD t) (cpu_get_gpr c (rA t) OR cpu_get_gpr c (rB t))"

definition l_andi :: "CPU \<Rightarrow> control \<Rightarrow> CPU" where
  [inst_defs]: "l_andi c t = cpu_set_gpr c (rD t) (cpu_get_gpr c (rA t) AND imm_K t)"

definition l_extws :: "CPU \<Rightarrow> control \<Rightarrow> CPU" where
  [inst_defs]: "l_extws c t = cpu_set_gpr c (rD t) (cpu_get_gpr c (rA t))"

definition l_extwz :: "CPU \<Rightarrow> control \<Rightarrow> CPU" where
  [inst_defs]: "l_extwz c t = cpu_set_gpr c (rD t) (cpu_get_gpr c (rA t))"

definition l_exths :: "CPU \<Rightarrow> control \<Rightarrow> CPU" where
  [inst_defs]: "l_exths c t = cpu_set_gpr c (rD t) (sign_extend (cpu_get_gpr c (rA t) AND 0xffff) 15)"

definition l_extbs :: "CPU \<Rightarrow> control \<Rightarrow> CPU" where
  [inst_defs]: "l_extbs c t = cpu_set_gpr c (rD t) (sign_extend (cpu_get_gpr c (rA t) AND 0xff) 7)"

definition l_extbz :: "CPU \<Rightarrow> control \<Rightarrow> CPU" where
  [inst_defs]: "l_extbz c t = cpu_set_gpr c (rD t) (zero_extend (cpu_get_gpr c (rA t)) 8)"

definition l_exthz :: "CPU \<Rightarrow> control \<Rightarrow> CPU" where
  [inst_defs]: "l_exthz c t = cpu_set_gpr c (rD t) (zero_extend (cpu_get_gpr c (rA t)) 16)"

definition l_cmov :: "CPU \<Rightarrow> control \<Rightarrow> CPU" where
  [inst_defs]: "l_cmov c t =
     cpu_set_gpr c (rD t) (if cpu_get_f c then cpu_get_gpr c (rA t) else cpu_get_gpr c (rB t))"

definition l_movhi :: "CPU \<Rightarrow> control \<Rightarrow> CPU" where
  [inst_defs]: "l_movhi c t = cpu_set_gpr c (rD t) (push_bit 16 (imm_K t))"

definition l_macrc :: "CPU \<Rightarrow> control \<Rightarrow> CPU" where
  [inst_defs]: "l_macrc c t =
     (let m = cpu_get_mac c;
          c = cpu_set_gpr c (rD t) (ucast (m AND 0xffffffff))
      in cpu_set_mac c 0)"

subsection \<open>Shifts and rotates\<close>

definition l_srli :: "CPU \<Rightarrow> control \<Rightarrow> CPU" where
  [inst_defs]: "l_srli c t = cpu_set_gpr c (rD t) (c_shr (cpu_get_gpr c (rA t)) (imm_L t))"

definition l_srai :: "CPU \<Rightarrow> control \<Rightarrow> CPU" where
  [inst_defs]: "l_srai c t =
     (let x = c_shr (cpu_get_gpr c (rA t)) (imm_L t);
          x = (if imm_L t > 0 then sign_extend x (31 - imm_L t) else x)
      in cpu_set_gpr c (rD t) x)"

definition l_slli :: "CPU \<Rightarrow> control \<Rightarrow> CPU" where
  [inst_defs]: "l_slli c t = cpu_set_gpr c (rD t) (c_shl (cpu_get_gpr c (rA t)) (imm_L t))"

definition l_sll :: "CPU \<Rightarrow> control \<Rightarrow> CPU" where
  [inst_defs]: "l_sll c t = cpu_set_gpr c (rD t) (c_shl (cpu_get_gpr c (rA t)) (cpu_get_gpr c (rB t) AND 0x1f))"

definition l_srl :: "CPU \<Rightarrow> control \<Rightarrow> CPU" where
  [inst_defs]: "l_srl c t = cpu_set_gpr c (rD t) (c_shr (cpu_get_gpr c (rA t)) (cpu_get_gpr c (rB t)))"

definition l_sra :: "CPU \<Rightarrow> control \<Rightarrow> CPU" where
  [inst_defs]: "l_sra c t =
     (let shift = cpu_get_gpr c (rB t) AND 0x1f;
          x = c_shr (cpu_get_gpr c (rA t)) shift;
          x = (if shift > 0 then sign_extend x (31 - shift) else x)
      in cpu_set_gpr c (rD t) x)"

definition l_ror :: "CPU \<Rightarrow> control \<Rightarrow> CPU" where
  [inst_defs]: "l_ror c t =
     (let x = cpu_get_gpr c (rA t);
          shift = cpu_get_gpr c (rB t) AND 0x1f
      in cpu_set_gpr c (rD t) (c_shr x shift OR c_shl x (32 - shift)))"

definition l_rori :: "CPU \<Rightarrow> control \<Rightarrow> CPU" where
  [inst_defs]: "l_rori c t =
     (let x = cpu_get_gpr c (rA t);
          shift = imm_L t
      in cpu_set_gpr c (rD t) (c_shr x shift OR c_shl x (32 - shift)))"

subsection \<open>Branches\<close>

text \<open>The target of a PC-relative jump.\<close>

definition jump_target :: "CPU \<Rightarrow> control \<Rightarrow> u32" where
  "jump_target c t = pc c + sign_extend (push_bit 2 (imm_N t)) 27"

definition l_bf :: "CPU \<Rightarrow> control \<Rightarrow> CPU" where
  [inst_defs]: "l_bf c t = (if cpu_get_f c then c\<lparr>branch_pc := jump_target c t\<rparr> else c)"

definition l_bnf :: "CPU \<Rightarrow> control \<Rightarrow> CPU" where
  [inst_defs]: "l_bnf c t = (if \<not> cpu_get_f c then c\<lparr>branch_pc := jump_target c t\<rparr> else c)"

definition l_j :: "CPU \<Rightarrow> control \<Rightarrow> CPU" where
  [inst_defs]: "l_j c t = c\<lparr>branch_pc := jump_target c t\<rparr>"

definition l_jal :: "CPU \<Rightarrow> control \<Rightarrow> CPU" where
  [inst_defs]: "l_jal c t =
     (let c = c\<lparr>branch_pc := jump_target c t\<rparr>
      in cpu_set_lr c (pc c + 8))"

definition l_jalr :: "CPU \<Rightarrow> control \<Rightarrow> CPU" where
  [inst_defs]: "l_jalr c t =
     (let address = cpu_get_gpr c (rB t)
      in if address AND 0x3 \<noteq> 0 then alignment_exception c address
         else let c = c\<lparr>branch_pc := address\<rparr> in cpu_set_lr c (pc c + 8))"

definition l_jr :: "CPU \<Rightarrow> control \<Rightarrow> CPU" where
  [inst_defs]: "l_jr c t =
     (let address = cpu_get_gpr c (rB t)
      in if address AND 0x3 \<noteq> 0 then alignment_exception c address
         else c\<lparr>branch_pc := address\<rparr>)"

subsection \<open>Compares\<close>

definition l_sfne :: "CPU \<Rightarrow> control \<Rightarrow> CPU" where
  [inst_defs]: "l_sfne c t = cpu_set_f c (cpu_get_gpr c (rA t) \<noteq> cpu_get_gpr c (rB t))"

definition l_sfnei :: "CPU \<Rightarrow> control \<Rightarrow> CPU" where
  [inst_defs]: "l_sfnei c t = cpu_set_f c (cpu_get_gpr c (rA t) \<noteq> exts (imm_I t))"

definition l_sfeq :: "CPU \<Rightarrow> control \<Rightarrow> CPU" where
  [inst_defs]: "l_sfeq c t = cpu_set_f c (cpu_get_gpr c (rA t) = cpu_get_gpr c (rB t))"

definition l_sfeqi :: "CPU \<Rightarrow> control \<Rightarrow> CPU" where
  [inst_defs]: "l_sfeqi c t = cpu_set_f c (cpu_get_gpr c (rA t) = exts (imm_I t))"

definition l_sfltu :: "CPU \<Rightarrow> control \<Rightarrow> CPU" where
  [inst_defs]: "l_sfltu c t = cpu_set_f c (cpu_get_gpr c (rA t) < cpu_get_gpr c (rB t))"

definition l_sfltui :: "CPU \<Rightarrow> control \<Rightarrow> CPU" where
  [inst_defs]: "l_sfltui c t = cpu_set_f c (cpu_get_gpr c (rA t) < exts (imm_I t))"

definition l_sflts :: "CPU \<Rightarrow> control \<Rightarrow> CPU" where
  [inst_defs]: "l_sflts c t = cpu_set_f c (sint (cpu_get_gpr c (rA t)) < sint (cpu_get_gpr c (rB t)))"

definition l_sfltsi :: "CPU \<Rightarrow> control \<Rightarrow> CPU" where
  [inst_defs]: "l_sfltsi c t = cpu_set_f c (sint (cpu_get_gpr c (rA t)) < sint (exts (imm_I t)))"

definition l_sfleu :: "CPU \<Rightarrow> control \<Rightarrow> CPU" where
  [inst_defs]: "l_sfleu c t = cpu_set_f c (cpu_get_gpr c (rA t) \<le> cpu_get_gpr c (rB t))"

definition l_sfleui :: "CPU \<Rightarrow> control \<Rightarrow> CPU" where
  [inst_defs]: "l_sfleui c t = cpu_set_f c (cpu_get_gpr c (rA t) \<le> exts (imm_I t))"

definition l_sfles :: "CPU \<Rightarrow> control \<Rightarrow> CPU" where
  [inst_defs]: "l_sfles c t = cpu_set_f c (sint (cpu_get_gpr c (rA t)) \<le> sint (cpu_get_gpr c (rB t)))"

definition l_sflesi :: "CPU \<Rightarrow> control \<Rightarrow> CPU" where
  [inst_defs]: "l_sflesi c t = cpu_set_f c (sint (cpu_get_gpr c (rA t)) \<le> sint (exts (imm_I t)))"

definition l_sfgtu :: "CPU \<Rightarrow> control \<Rightarrow> CPU" where
  [inst_defs]: "l_sfgtu c t = cpu_set_f c (cpu_get_gpr c (rA t) > cpu_get_gpr c (rB t))"

definition l_sfgtui :: "CPU \<Rightarrow> control \<Rightarrow> CPU" where
  [inst_defs]: "l_sfgtui c t = cpu_set_f c (cpu_get_gpr c (rA t) > exts (imm_I t))"

definition l_sfgts :: "CPU \<Rightarrow> control \<Rightarrow> CPU" where
  [inst_defs]: "l_sfgts c t = cpu_set_f c (sint (cpu_get_gpr c (rA t)) > sint (cpu_get_gpr c (rB t)))"

definition l_sfgtsi :: "CPU \<Rightarrow> control \<Rightarrow> CPU" where
  [inst_defs]: "l_sfgtsi c t = cpu_set_f c (sint (cpu_get_gpr c (rA t)) > sint (exts (imm_I t)))"

definition l_sfgeu :: "CPU \<Rightarrow> control \<Rightarrow> CPU" where
  [inst_defs]: "l_sfgeu c t = cpu_set_f c (cpu_get_gpr c (rA t) \<ge> cpu_get_gpr c (rB t))"

definition l_sfgeui :: "CPU \<Rightarrow> control \<Rightarrow> CPU" where
  [inst_defs]: "l_sfgeui c t = cpu_set_f c (cpu_get_gpr c (rA t) \<ge> exts (imm_I t))"

definition l_sfges :: "CPU \<Rightarrow> control \<Rightarrow> CPU" where
  [inst_defs]: "l_sfges c t = cpu_set_f c (sint (cpu_get_gpr c (rA t)) \<ge> sint (cpu_get_gpr c (rB t)))"

definition l_sfgesi :: "CPU \<Rightarrow> control \<Rightarrow> CPU" where
  [inst_defs]: "l_sfgesi c t = cpu_set_f c (sint (cpu_get_gpr c (rA t)) \<ge> sint (exts (imm_I t)))"

definition l_sfi :: "CPU \<Rightarrow> control \<Rightarrow> CPU option" where
  [inst_defs]: "l_sfi c t =
     (if sf_op t = SFNE_OP then Some (l_sfnei c t)
      else if sf_op t = SFGTU_OP then Some (l_sfgtui c t)
      else if sf_op t = SFEQ_OP then Some (l_sfeqi c t)
      else if sf_op t = SFGEU_OP then Some (l_sfgeui c t)
      else if sf_op t = SFGES_OP then Some (l_sfgesi c t)
      else if sf_op t = SFLTU_OP then Some (l_sfltui c t)
      else if sf_op t = SFLTS_OP then Some (l_sfltsi c t)
      else if sf_op t = SFLEU_OP then Some (l_sfleui c t)
      else if sf_op t = SFLES_OP then Some (l_sflesi c t)
      else if sf_op t = SFGTS_OP then Some (l_sfgtsi c t)
      else unimpl)"

definition l_sf :: "CPU \<Rightarrow> control \<Rightarrow> CPU option" where
  [inst_defs]: "l_sf c t =
     (if sf_op t = SFNE_OP then Some (l_sfne c t)
      else if sf_op t = SFEQ_OP then Some (l_sfeq c t)
      else if sf_op t = SFLTU_OP then Some (l_sfltu c t)
      else if sf_op t = SFLEU_OP then Some (l_sfleu c t)
      else if sf_op t = SFGTU_OP then Some (l_sfgtu c t)
      else if sf_op t = SFGTS_OP then Some (l_sfgts c t)
      else if sf_op t = SFGEU_OP then Some (l_sfgeu c t)
      else if sf_op t = SFGES_OP then Some (l_sfges c t)
      else if sf_op t = SFLTS_OP then Some (l_sflts c t)
      else if sf_op t = SFLES_OP then Some (l_sfles c t)
      else unimpl)"

subsection \<open>Dispatchers\<close>

definition macrc_movhi :: "CPU \<Rightarrow> control \<Rightarrow> CPU" where
  [inst_defs]: "macrc_movhi c t = (if inst t AND 0x1ffff = 0x10000 then l_macrc c t else l_movhi c t)"

definition mac_msb :: "CPU \<Rightarrow> control \<Rightarrow> CPU option" where
  "mac_msb c t =
     (if inst t AND 0xf = 0x2 then Some (l_msb c t)
      else if inst t AND 0xf = 0x1 then Some (l_mac c t)
      else unimpl)"

definition sys_trap_sync :: "CPU \<Rightarrow> control \<Rightarrow> CPU option" where
  "sys_trap_sync c t =
     (if inst t AND 0xffff0000 = 0x20000000 then Some (l_sys c)
      else if inst t AND 0xffff0000 = 0x21000000 then Some (l_trap c)
      else unimpl)"

definition ro_shift_i :: "CPU \<Rightarrow> control \<Rightarrow> CPU option" where
  "ro_shift_i c t =
     (if ro_shift_i_op t = RS_SLLI_OP then Some (l_slli c t)
      else if ro_shift_i_op t = RS_SRLI_OP then Some (l_srli c t)
      else if ro_shift_i_op t = RS_SRAI_OP then Some (l_srai c t)
      else if ro_shift_i_op t = RS_RORI_OP then Some (l_rori c t)
      else unimpl)"

definition alu :: "CPU \<Rightarrow> control \<Rightarrow> CPU option" where
  "alu c t =
     (if alu_op t = ADD_ALU_OP then Some (l_add c t)
      else if alu_op t = ADDC_ALU_OP then Some (l_addc c t)
      else if alu_op t = EXTWS_ALU_OP then Some (l_extws c t)
      else if alu_op t = EXTWZ_ALU_OP then Some (l_extwz c t)
      else if alu_op t = EXTHS_ALU_OP then Some (l_exths c t)
      else if alu_op t = EXTBS_ALU_OP then Some (l_extbs c t)
      else if alu_op t = EXTBZ_ALU_OP then Some (l_extbz c t)
      else if alu_op t = EXTHZ_ALU_OP then Some (l_exthz c t)
      else if alu_op t = DIVU_ALU_OP then Some (l_divu c t)
      else if alu_op t = DIV_ALU_OP then Some (or32_div c t)
      else if alu_op t = FF1_ALU_OP then Some (l_ff1 c t)
      else if alu_op t = FL1_ALU_OP then Some (l_fl1 c t)
      else if alu_op t = MUL_ALU_OP then Some (l_mul c t)
      else if alu_op t = MULU_ALU_OP then Some (l_mulu c t)
      else if alu_op t = SUB_ALU_OP then Some (l_sub c t)
      else if alu_op t = AND_ALU_OP then Some (l_and c t)
      else if alu_op t = XOR_ALU_OP then Some (l_xor c t)
      else if alu_op t = SLL_ALU_OP then Some (l_sll c t)
      else if alu_op t = SRL_ALU_OP then Some (l_srl c t)
      else if alu_op t = SRA_ALU_OP then Some (l_sra c t)
      else if alu_op t = ROR_ALU_OP then Some (l_ror c t)
      else if alu_op t = OR_ALU_OP then Some (l_or c t)
      else if alu_op t = CMOV_ALU_OP then Some (l_cmov c t)
      else unimpl)"

section \<open>Well-formedness\<close>

lemma wf_range_exception [simp]: "wf_cpu (range_exception c) = wf_cpu c"
  by (rule range.wf_enter)

lemma wf_check_range [simp]: "wf_cpu (check_range c) = wf_cpu c"
  by (simp add: check_range_def)

lemma wf_mul_shared [simp, intro]: "wf_cpu c \<Longrightarrow> wf_cpu (mul_shared c a b r)"
  by (simp add: mul_shared_def Let_def cpu_defs)

lemma wf_add_base [simp, intro]: "wf_cpu c \<Longrightarrow> wf_cpu (add_base c k r a b)"
  by (simp add: add_base_def Let_def cpu_defs split: prod.split)

lemmas wf_inst_simps = Let_def cpu_defs case_prod_unfold align.wf_enter

lemma wf_arith_inst:
  "wf_cpu c \<Longrightarrow> wf_cpu (l_muli c t)" "wf_cpu c \<Longrightarrow> wf_cpu (l_mul c t)" "wf_cpu c \<Longrightarrow> wf_cpu (l_mulu c t)"
  "wf_cpu c \<Longrightarrow> wf_cpu (l_divu c t)" "wf_cpu c \<Longrightarrow> wf_cpu (or32_div c t)" "wf_cpu c \<Longrightarrow> wf_cpu (l_fl1 c t)"
  "wf_cpu c \<Longrightarrow> wf_cpu (l_ff1 c t)" "wf_cpu c \<Longrightarrow> wf_cpu (l_mac c t)" "wf_cpu c \<Longrightarrow> wf_cpu (l_msb c t)"
  "wf_cpu c \<Longrightarrow> wf_cpu (l_maci c t)" "wf_cpu c \<Longrightarrow> wf_cpu (l_addi c t)" "wf_cpu c \<Longrightarrow> wf_cpu (l_addic c t)"
  "wf_cpu c \<Longrightarrow> wf_cpu (l_add c t)" "wf_cpu c \<Longrightarrow> wf_cpu (l_addc c t)" "wf_cpu c \<Longrightarrow> wf_cpu (l_sub c t)"
  by (simp_all add: inst_defs wf_inst_simps del: mul_shared_def add_base_def)

lemma wf_logic_inst:
  "wf_cpu c \<Longrightarrow> wf_cpu (l_ori c t)" "wf_cpu c \<Longrightarrow> wf_cpu (l_and c t)" "wf_cpu c \<Longrightarrow> wf_cpu (l_xor c t)"
  "wf_cpu c \<Longrightarrow> wf_cpu (l_xori c t)" "wf_cpu c \<Longrightarrow> wf_cpu (l_or c t)" "wf_cpu c \<Longrightarrow> wf_cpu (l_andi c t)"
  "wf_cpu c \<Longrightarrow> wf_cpu (l_cmov c t)" "wf_cpu c \<Longrightarrow> wf_cpu (macrc_movhi c t)"
  "wf_cpu c \<Longrightarrow> wf_cpu (l_bf c t)" "wf_cpu c \<Longrightarrow> wf_cpu (l_bnf c t)" "wf_cpu c \<Longrightarrow> wf_cpu (l_j c t)"
  "wf_cpu c \<Longrightarrow> wf_cpu (l_jal c t)" "wf_cpu c \<Longrightarrow> wf_cpu (l_jalr c t)" "wf_cpu c \<Longrightarrow> wf_cpu (l_jr c t)"
  by (simp_all add: inst_defs wf_cpu_set_lr align.wf_enter Let_def)

text \<open>The dispatchers keep well-formedness whenever they return.\<close>

lemma wf_dispatch:
  "wf_cpu c \<Longrightarrow> l_sfi c t = Some d \<Longrightarrow> wf_cpu d" "wf_cpu c \<Longrightarrow> l_sf c t = Some d \<Longrightarrow> wf_cpu d"
  "wf_cpu c \<Longrightarrow> mac_msb c t = Some d \<Longrightarrow> wf_cpu d" "wf_cpu c \<Longrightarrow> ro_shift_i c t = Some d \<Longrightarrow> wf_cpu d"
  "wf_cpu c \<Longrightarrow> sys_trap_sync c t = Some d \<Longrightarrow> wf_cpu d"
  by (auto simp: l_sfi_def l_sf_def mac_msb_def ro_shift_i_def sys_trap_sync_def unimpl_def
      wf_arith_inst sys.wf_enter trap.wf_enter cpu_set_f_def inst_defs Let_def split: if_splits)

lemma wf_alu: "wf_cpu c \<Longrightarrow> alu c t = Some d \<Longrightarrow> wf_cpu d"
  by (auto simp: alu_def unimpl_def wf_arith_inst wf_logic_inst l_extws_def l_extwz_def l_exths_def
      l_extbs_def l_extbz_def l_exthz_def l_sll_def l_srl_def l_sra_def l_ror_def Let_def split: if_splits)

end
