(* ===== verification/Mem_Inst.thy ===== *)
theory Mem_Inst
  imports Machine Guest_Words Alu_Inst
begin

unbundle bit_operations_syntax

text \<open>
  The loads, stores and special-register moves of \<^verbatim>\<open>simulator.c\<close>, on the whole machine: a handler
  may raise an exception in the simulated processor, and a store changes guest memory.
\<close>

section \<open>Definitions\<close>

text \<open>What a \<^verbatim>\<open>u32 value\<close> local holds after a load that may have left it alone.\<close>

definition loaded :: "machine \<Rightarrow> u32 option \<Rightarrow> u32" where
  "loaded m v = (case v of Some x \<Rightarrow> x | None \<Rightarrow> uninit m)"

definition simLoadData :: "machine \<Rightarrow> u32 \<Rightarrow> u32 \<times> u32 option \<times> machine" where
  "simLoadData m address =
     (let (ret, v) = guestLoadD m address;
          m = (if ret = 1 then m\<lparr>cpu := dataTLBMiss (cpu m) address\<rparr> else m)
      in (ret, v, m))"

definition simStoreData :: "machine \<Rightarrow> u32 \<Rightarrow> u32 \<Rightarrow> u32 \<times> machine" where
  "simStoreData m address val =
     (let (ret, m) = guestStoreD m address val;
          m = (if ret = 1 then m\<lparr>cpu := dataTLBMiss (cpu m) address\<rparr> else m)
      in (ret, m))"

definition set_rD :: "machine \<Rightarrow> control \<Rightarrow> u32 \<Rightarrow> machine" where
  "set_rD m t val = m\<lparr>cpu := cpu_set_gpr (cpu m) (rD t) val\<rparr>"

subsection \<open>Loads\<close>

definition l_lwz :: "machine \<Rightarrow> control \<Rightarrow> machine" where
  "l_lwz m t =
     (let ea = calc_ea (cpu m) t
      in if ea AND 0x3 \<noteq> 0 then m\<lparr>cpu := alignment_exception (cpu m) ea\<rparr>
         else let (ret, v, m) = simLoadData m ea
              in if ret = 0 then set_rD m t (loaded m v) else m)"

definition l_lbz :: "machine \<Rightarrow> control \<Rightarrow> machine" where
  "l_lbz m t =
     (let ea = calc_ea (cpu m) t;
          phyAddr = virtualToPhysicalD m ea
      in if phyAddr = 1 then m\<lparr>cpu := dataTLBMiss (cpu m) ea\<rparr>
         else if drop_bit 27 phyAddr \<noteq> 0 then set_rD m t (asm_lbz m phyAddr)
         else let (ret, v, m) = simLoadData m (ea AND NOT 0x3)
              in if ret = 0 then set_rD m t (byte_of_word ea (loaded m v)) else m)"

definition l_lbs :: "machine \<Rightarrow> control \<Rightarrow> machine" where
  "l_lbs m t =
     (let ea = calc_ea (cpu m) t;
          phyAddr = virtualToPhysicalD m ea
      in if phyAddr = 1 then m\<lparr>cpu := dataTLBMiss (cpu m) ea\<rparr>
         else if drop_bit 27 phyAddr \<noteq> 0 then set_rD m t (asm_lbs m phyAddr)
         else let (ret, v, m) = simLoadData m (ea AND NOT 0x3)
              in if ret = 0 then set_rD m t (sign_extend (byte_of_word ea (loaded m v)) 7) else m)"

definition l_lhz :: "machine \<Rightarrow> control \<Rightarrow> machine" where
  "l_lhz m t =
     (let ea = calc_ea (cpu m) t
      in if ea AND 0x1 \<noteq> 0 then m\<lparr>cpu := alignment_exception (cpu m) ea\<rparr>
         else let (ret, v, m) = simLoadData m (ea AND NOT 0x3)
              in if ret = 0 then
                   set_rD m t (half_of_word ea (loaded m v))
                 else m)"

definition l_lhs :: "machine \<Rightarrow> control \<Rightarrow> machine" where
  "l_lhs m t =
     (let ea = calc_ea (cpu m) t
      in if ea AND 0x1 \<noteq> 0 then m\<lparr>cpu := alignment_exception (cpu m) ea\<rparr>
         else let (ret, v, m) = simLoadData m (ea AND NOT 0x3)
              in if ret = 0 then
                   let val = loaded m v;
                       val = (if ea AND 0x2 = 0 then drop_bit 16 val else val);
                       val = (if val AND 0x00008000 = 0 then val AND 0xffff else val OR 0xffff0000)
                   in set_rD m t val
                 else m)"

subsection \<open>Stores\<close>

definition l_sw :: "machine \<Rightarrow> control \<Rightarrow> machine" where
  "l_sw m t =
     (let ea = calc_ea (cpu m) t
      in if ea AND 0x3 \<noteq> 0 then m\<lparr>cpu := alignment_exception (cpu m) ea\<rparr>
         else snd (simStoreData m ea (cpu_get_gpr (cpu m) (rB t))))"

definition l_sb :: "machine \<Rightarrow> control \<Rightarrow> machine" where
  "l_sb m t =
     (let ea = calc_ea (cpu m) t;
          phyAddr = virtualToPhysicalD m ea
      in if phyAddr = 1 then m\<lparr>cpu := dataTLBMiss (cpu m) ea\<rparr>
         else if drop_bit 27 phyAddr \<noteq> 0 then asm_sb m phyAddr (cpu_get_gpr (cpu m) (rB t))
         else let (ret, v, m) = simLoadData m (ea AND NOT 0x3)
              in if ret = 0 then
                   snd (simStoreData m (ea AND NOT 0x3)
                          (put_byte ea (loaded m v) (cpu_get_gpr (cpu m) (rB t))))
                 else m)"

definition l_sh :: "machine \<Rightarrow> control \<Rightarrow> machine" where
  "l_sh m t =
     (let ea = calc_ea (cpu m) t
      in if ea AND 0x1 \<noteq> 0 then m\<lparr>cpu := alignment_exception (cpu m) ea\<rparr>
         else let (ret, v, m) = simLoadData m (ea AND NOT 0x3)
              in if ret = 0 then
                   snd (simStoreData m (ea AND NOT 0x3)
                          (put_half ea (loaded m v) (cpu_get_gpr (cpu m) (rB t))))
                 else m)"

subsection \<open>Special registers and no-operation\<close>

definition or32_nop :: "machine \<Rightarrow> control \<Rightarrow> machine" where
  "or32_nop m t = m"

definition or32_mtspr :: "machine \<Rightarrow> control \<Rightarrow> machine" where
  "or32_mtspr m t =
     cpu_set_spr m (cpu_get_gpr (cpu m) (rA t) OR imm_K t) (cpu_get_gpr (cpu m) (rB t))"

definition or32_mfspr :: "machine \<Rightarrow> control \<Rightarrow> machine" where
  "or32_mfspr m t =
     set_rD m t (cpu_get_spr m (cpu_get_gpr (cpu m) (rA t) OR imm_K t))"

end
