(* ===== verification/Execute.thy ===== *)
theory Execute
  imports Mem_Inst
begin

unbundle bit_operations_syntax

text \<open>
  Fetch, dispatch and the public entry point \<^verbatim>\<open>cpu_exec_inst\<close> of \<^verbatim>\<open>simulator.c\<close>. The result
  \<open>None\<close> means that the call does not return: the firmware build spins in \<^verbatim>\<open>unimpl\<close>.
\<close>

section \<open>Definitions\<close>

definition fetch_next :: "machine \<Rightarrow> u32" where
  "fetch_next m =
     (case guestLoadI m (pc (cpu m) + 0x4) of (ret, v) \<Rightarrow>
        (case v of Some x \<Rightarrow> x | None \<Rightarrow> 0xdeadbeef))"

definition fetch :: "machine \<Rightarrow> u32 \<times> machine" where
  "fetch m =
     (let (ret, v) = guestLoadI m (pc (cpu m));
          i = (case v of Some x \<Rightarrow> x | None \<Rightarrow> 0xdeadbeef);
          m = (if ret = 1 then m\<lparr>cpu := instructionTLBMiss (cpu m) (pc (cpu m))\<rparr>
               else if ret = 2 then m\<lparr>cpu := instructionPageFault (cpu m) (pc (cpu m))\<rparr>
               else m)
      in (i, m))"

definition can_execute :: "u32 \<Rightarrow> bool" where
  "can_execute op \<longleftrightarrow>
     OPCODE op \<in> {OP_NOP, OP_ADDI, OP_ADDIC, OP_ORI, OP_ALU, OP_MAC,
      OP_MACI, OP_MACRC_MOVHI, OP_MULI, OP_ANDI, OP_XORI, OP_SFI,
      OP_SF, OP_RO_SHIFT_I, OP_MTSPR, OP_MFSPR, OP_RFE, OP_J,
      OP_JAL, OP_JALR, OP_BF, OP_BNF, OP_JR, OP_LWZ,
      OP_LWS, OP_SW, OP_LHZ, OP_LHS, OP_SH, OP_LBZ,
      OP_LBS, OP_SB, OP_SYS_TRAP_SYNC}"

text \<open>\<^verbatim>\<open>BAIL()\<close> is the empty statement in this source.\<close>

definition BAIL :: "machine \<Rightarrow> machine" where
  "BAIL m = m"

definition check_slot :: "machine \<Rightarrow> machine" where
  "check_slot m = (if \<not> can_execute (fetch_next m) then BAIL m else m)"

definition on_cpu :: "(CPU \<Rightarrow> control \<Rightarrow> CPU) \<Rightarrow> machine \<Rightarrow> control \<Rightarrow> machine option" where
  "on_cpu f m t = Some (m\<lparr>cpu := f (cpu m) t\<rparr>)"

definition on_cpu_opt :: "(CPU \<Rightarrow> control \<Rightarrow> CPU option) \<Rightarrow> machine \<Rightarrow> control \<Rightarrow> machine option" where
  "on_cpu_opt f m t = map_option (\<lambda>c. m\<lparr>cpu := c\<rparr>) (f (cpu m) t)"

text \<open>The switch of \<^verbatim>\<open>execute\<close>.\<close>

definition execute_switch :: "u32 \<Rightarrow> machine \<Rightarrow> control \<Rightarrow> machine option" where
  "execute_switch op m t =
     (if op = OP_J then on_cpu l_j (check_slot m) t
      else if op = OP_JAL then on_cpu l_jal (check_slot m) t
      else if op = OP_JALR then on_cpu l_jalr (check_slot m) t
      else if op = OP_BF then on_cpu l_bf (check_slot m) t
      else if op = OP_BNF then on_cpu l_bnf (check_slot m) t
      else if op = OP_JR then on_cpu l_jr (check_slot m) t
      else if op = OP_NOP then Some (or32_nop m t)
      else if op = OP_LBZ then Some (l_lbz m t)
      else if op = OP_LHZ then Some (l_lhz m t)
      else if op = OP_LBS then Some (l_lbs m t)
      else if op = OP_LHS then Some (l_lhs m t)
      else if op = OP_LWZ then Some (l_lwz m t)
      else if op = OP_LWS then Some (l_lwz m t)
      else if op = OP_ADDI then on_cpu l_addi m t
      else if op = OP_ADDIC then on_cpu l_addic m t
      else if op = OP_ORI then on_cpu l_ori m t
      else if op = OP_SFI then on_cpu_opt l_sfi m t
      else if op = OP_SW then Some (l_sw m t)
      else if op = OP_SB then Some (l_sb m t)
      else if op = OP_SH then Some (l_sh m t)
      else if op = OP_ALU then on_cpu_opt alu m t
      else if op = OP_MAC then on_cpu_opt mac_msb m t
      else if op = OP_MACI then on_cpu l_maci m t
      else if op = OP_MACRC_MOVHI then on_cpu macrc_movhi m t
      else if op = OP_MULI then on_cpu l_muli m t
      else if op = OP_ANDI then on_cpu l_andi m t
      else if op = OP_XORI then on_cpu l_xori m t
      else if op = OP_SF then on_cpu_opt l_sf m t
      else if op = OP_RO_SHIFT_I then on_cpu_opt ro_shift_i m t
      else if op = OP_MTSPR then Some (or32_mtspr m t)
      else if op = OP_MFSPR then Some (or32_mfspr m t)
      else if op = OP_SYS_TRAP_SYNC then on_cpu_opt sys_trap_sync (BAIL m) t
      else if op = OP_RFE then on_cpu (\<lambda>c _. l_rfe c) m t
      else unimpl)"

definition advance :: "machine \<Rightarrow> machine" where
  "advance m = m\<lparr>cpu := cpu_advance_pc (cpu m)\<rparr>"

definition execute :: "u32 \<Rightarrow> machine \<Rightarrow> control \<Rightarrow> machine option" where
  "execute op m t = map_option advance (execute_switch op m t)"

definition cpu_exec_inst :: "machine \<Rightarrow> machine option" where
  "cpu_exec_inst m =
     (let (i, m) = fetch m
      in if i = 0xdeadbeef then Some (advance m)
         else execute (OPCODE i) m (decode i))"

end
