(* ===== verification/Recovery.thy ===== *)
theory Recovery
  imports Execute
begin

unbundle bit_operations_syntax

text \<open>
  The recovery routine \<^verbatim>\<open>src/system/software/sim_module/runSim.c\<close>: it reads which assertion was
  violated from the assertion register, repairs the simulated processor accordingly and simulates
  at least two instructions, continuing until it is not between a branch and its delay slot.
\<close>

section \<open>Definitions\<close>

definition getAssertionReg :: "machine \<Rightarrow> u32" where
  "getAssertionReg m = getSPR m ASSERTION_REG"

definition getEPPCReg :: "machine \<Rightarrow> u32" where
  "getEPPCReg m = getSPR m EPPC_REG"

definition getEPCRReg :: "machine \<Rightarrow> u32" where
  "getEPCRReg m = getSPR m SPR_EPCR_BASE"

definition set_pcs :: "u32 \<Rightarrow> machine \<Rightarrow> machine" where
  "set_pcs a m = m\<lparr>cpu := (cpu m)\<lparr>pc := a, npc := a + 4\<rparr>\<rparr>"

text \<open>Both helpers move the program counter, fetch and decode, and move it back.\<close>

definition recalc_ea :: "machine \<Rightarrow> u32 \<Rightarrow> u32 \<times> machine" where
  "recalc_ea m address =
     (let backup_pc = pc (cpu m);
          m = set_pcs address m;
          (insn, m) = fetch m;
          t = decode insn;
          ea = calc_ea (cpu m) t
      in (ea, set_pcs backup_pc m))"

definition calc_jump_target :: "machine \<Rightarrow> u32 \<Rightarrow> u32 \<times> machine" where
  "calc_jump_target m address =
     (let backup_pc = pc (cpu m);
          m = set_pcs address m;
          (insn, m) = fetch m;
          t = decode insn;
          target =
            (if opcode t = OP_RFE then epcr (cpu m)
             else if opcode t = OP_J \<or> opcode t = OP_JAL \<or> opcode t = OP_BF \<or> opcode t = OP_BNF
             then jump_target (cpu m) t
             else if opcode t = OP_JALR \<or> opcode t = OP_JR then cpu_get_gpr (cpu m) (rB t)
             else if opcode t = OP_SYS_TRAP_SYNC then 0xC00
             else 0)
      in (target, set_pcs backup_pc m))"

text \<open>The program counter the simulation restarts from.\<close>

definition restart_pc :: "u32 \<Rightarrow> u32 \<Rightarrow> u32" where
  "restart_pc eppc epcr_t = (if epcr_t - eppc > 4 \<or> eppc - epcr_t > 4 then eppc - 4 else eppc)"

text \<open>In the handlers at \<^verbatim>\<open>0xA00\<close> the faulting address is the given one, else it is recomputed.\<close>

definition eear_for :: "machine \<Rightarrow> u32 \<Rightarrow> u32 \<times> machine" where
  "eear_for m a = (if pc (cpu m) AND 0xFFFFFF00 = 0xA00 then (a, m) else recalc_ea m a)"

text \<open>The repair of EPCR and EEAR, the branch under \<^verbatim>\<open>(violated & 0x8) != 0\<close>.\<close>

definition repair_exception :: "u32 \<Rightarrow> machine \<Rightarrow> machine" where
  "repair_exception violated m =
     (let eppc = getEPPCReg m;
          (new_epcr, new_eear, m) =
            (if cpu_get_dsx (cpu m) then
               let (e, m) = eear_for m (eppc + 4) in (eppc, e, m)
             else if violated AND 0x80000 = 0 then
               let (e, m) = eear_for m (eppc + 4) in (eppc + 4, e, m)
             else
               let (target_addr, m) = calc_jump_target m (eppc - 4);
                   (target_addr, m) =
                     (if target_addr = 0 then calc_jump_target m eppc else (target_addr, m));
                   (e, m) = eear_for m target_addr
               in (target_addr, e, m))
      in m\<lparr>cpu := (cpu m)\<lparr>epcr := new_epcr, eear := new_eear\<rparr>\<rparr>)"

text \<open>The \<^verbatim>\<open>do \<dots> while(is_in_delay_slot(&cpu))\<close> loop; \<open>None\<close> when it does not end.\<close>

partial_function (option) exec_slots :: "machine \<Rightarrow> machine option" where
  "exec_slots m =
     (case cpu_exec_inst m of
        None \<Rightarrow> None
      | Some m' \<Rightarrow> if is_in_delay_slot (cpu m') then exec_slots m' else Some m')"

definition runSim :: "machine \<Rightarrow> machine option" where
  "runSim m =
     (let violated = getAssertionReg m;
          m = (if violated AND 0x308 \<noteq> 0
               then m\<lparr>cpu := (cpu m)\<lparr>sr := sr (cpu m) AND 0xFFFFFFFE\<rparr>\<rparr> else m)
      in if violated AND 0x308 \<noteq> 0 \<and> violated AND 0x8 = 0 then Some m
         else if violated AND 0x8000 \<noteq> 0 then
           Some (m\<lparr>cpu := (cpu m)\<lparr>sr := esr (cpu m), pc := epcr (cpu m)\<rparr>\<rparr>)
         else
           let m = set_pcs (restart_pc (getEPPCReg m) (getEPCRReg m)) m;
               m = (if violated AND 0x8 \<noteq> 0 then repair_exception violated m else m)
           in case cpu_exec_inst m of None \<Rightarrow> None | Some m' \<Rightarrow> exec_slots m')"

end
