(* ===== verification/Alu_Spec.thy ===== *)
theory Alu_Spec
  imports Alu_Inst "HOL-Library.Signed_Division"
begin

unbundle bit_operations_syntax

text \<open>
  What the register-only instructions compute, on words and on the integers the words stand for:
  results, carry and overflow flags, and when the range exception is taken.
\<close>

section \<open>Flags and the range check\<close>

lemma flag_bits_distinct:
  "SPR_SR_OV \<noteq> 0" "SPR_SR_CY \<noteq> 0" "SPR_SR_F \<noteq> 0"
  "SPR_SR_OV AND SPR_SR_CY = 0" "SPR_SR_CY AND SPR_SR_OV = 0" "SPR_SR_OV AND SPR_SR_OVE = 0"
  "SPR_SR_CY AND SPR_SR_OVE = 0"
  by (simp_all add: spr_defs)

lemma flags_after [simp]:
  "cpu_get_ov (cpu_set_ov c b) = b" "cpu_get_cy (cpu_set_cy c b) = b" "cpu_get_f (cpu_set_f c b) = b"
  "cpu_get_ov (cpu_set_cy c b) = cpu_get_ov c" "cpu_get_cy (cpu_set_ov c b) = cpu_get_cy c"
  "cpu_get_ove (cpu_set_ov c b) = cpu_get_ove c" "cpu_get_ove (cpu_set_cy c b) = cpu_get_ove c"
  by (simp_all add: cpu_defs flag_bits_distinct)

lemma flags_set_gpr [simp]:
  "cpu_get_ov (cpu_set_gpr c r v) = cpu_get_ov c" "cpu_get_cy (cpu_set_gpr c r v) = cpu_get_cy c"
  "cpu_get_ove (cpu_set_gpr c r v) = cpu_get_ove c" "cpu_get_f (cpu_set_gpr c r v) = cpu_get_f c"
  "cpu_get_eph (cpu_set_gpr c r v) = cpu_get_eph c"
  by (simp_all add: cpu_defs cpu_is_set_sr_flag_def)

lemma gpr_flags [simp]:
  "cpu_get_gpr (cpu_set_ov c b) r = cpu_get_gpr c r" "cpu_get_gpr (cpu_set_cy c b) r = cpu_get_gpr c r"
  "cpu_get_gpr (cpu_set_f c b) r = cpu_get_gpr c r"
  by (simp_all add: cpu_get_gpr_def cpu_defs)

lemma eph_flags [simp]:
  "cpu_get_eph (cpu_set_ov c b) = cpu_get_eph c" "cpu_get_eph (cpu_set_cy c b) = cpu_get_eph c"
  by (simp_all add: cpu_defs spr_defs)

lemma npc_flags [simp]:
  "npc (cpu_set_ov c b) = npc c" "npc (cpu_set_cy c b) = npc c"
  by (simp_all add: cpu_defs)

lemma range_exception_flags [simp]:
  "cpu_get_ov (range_exception c) = cpu_get_ov c" "cpu_get_cy (range_exception c) = cpu_get_cy c"
  by (simp_all add: range_exception_def Let_def enter_supervisor_def set_vector_def save_epcr_def
      cpu_defs spr_defs) (simp_all add: cpu_is_set_sr_flag_def cpu_set_sr_flag_def bit.conj_disj_distrib2 and.assoc)

lemma check_range_flags [simp]:
  "cpu_get_ov (check_range c) = cpu_get_ov c" "cpu_get_cy (check_range c) = cpu_get_cy c"
  "cpu_get_gpr (check_range c) r = cpu_get_gpr c r"
  by (simp_all add: check_range_def cpu_get_gpr_def range.kept)

text \<open>
  The contract of the arithmetic instructions: the destination register, the two flags, and then
  either the range exception, exactly when SR[OVE] and the new SR[OV] are both set, or the next
  instruction with the rest of SR as it was.
\<close>

definition write_reg :: "CPU \<Rightarrow> u32 \<Rightarrow> u32 \<Rightarrow> u32 list" where
  "write_reg c r v = (if r = 0 then gpr c else (gpr c)[unat r := v])"

definition signed_range :: "int \<Rightarrow> bool" where
  "signed_range x \<longleftrightarrow> - (2 ^ 31) \<le> x \<and> x < 2 ^ 31"

definition OVCY :: u32 where
  "OVCY = SPR_SR_OV OR SPR_SR_CY"

definition settled :: "CPU \<Rightarrow> u32 \<Rightarrow> u32 \<Rightarrow> bool \<Rightarrow> bool \<Rightarrow> CPU \<Rightarrow> bool" where
  "settled c r res cy ov d \<longleftrightarrow>
     gpr d = write_reg c r res \<and> cpu_get_cy d = cy \<and> cpu_get_ov d = ov \<and>
     sr d AND NOT OVCY = sr c AND NOT OVCY \<and> pc d = pc c \<and> npc d = npc c \<and>
     branch_pc d = branch_pc c \<and> epcr d = epcr c \<and> esr d = esr c"

definition arith_result :: "CPU \<Rightarrow> u32 \<Rightarrow> u32 \<Rightarrow> bool \<Rightarrow> bool \<Rightarrow> CPU \<Rightarrow> bool" where
  "arith_result c r res cy ov d \<longleftrightarrow>
     gpr d = write_reg c r res \<and> cpu_get_cy d = cy \<and> cpu_get_ov d = ov \<and>
     pc d = pc c \<and> branch_pc d = branch_pc c \<and>
     (if cpu_get_ove c \<and> ov
      then npc d = (if cpu_get_eph c then 0xF0000B00 else 0xB00) \<and> epcr d = ret_slot c \<and> cpu_get_sm d
      else npc d = npc c \<and> epcr d = epcr c \<and> esr d = esr c \<and>
           sr d AND NOT OVCY = sr c AND NOT OVCY)"

lemma gpr_set_gpr: "wf_cpu c \<Longrightarrow> gpr (cpu_set_gpr c r v) = write_reg c r v"
  by (cases c) (auto simp: cpu_set_gpr_def write_reg_def wf_cpu_def list_update_same_conv NUM_REGS_def)

lemma settled_set_gpr [intro]:
  "wf_cpu c \<Longrightarrow> settled c r v (cpu_get_cy c) (cpu_get_ov c) (cpu_set_gpr c r v)"
  by (simp add: settled_def gpr_set_gpr)

text \<open>A division by zero leaves the destination register as it is.\<close>

lemma settled_refl:
  "wf_cpu c \<Longrightarrow> settled c r (cpu_get_gpr c r) (cpu_get_cy c) (cpu_get_ov c) c"
  by (simp add: settled_def write_reg_def cpu_get_gpr_def)

lemma masked_flags:
  "sr (cpu_set_ov c b) AND NOT OVCY = sr c AND NOT OVCY"
  "sr (cpu_set_cy c b) AND NOT OVCY = sr c AND NOT OVCY"
  unfolding cpu_set_ov_def cpu_set_cy_def
  by (rule sr_flag_masked, simp add: OVCY_def spr_defs)+

lemma flag_fields:
  "gpr (cpu_set_ov c b) = gpr c" "pc (cpu_set_ov c b) = pc c" "branch_pc (cpu_set_ov c b) = branch_pc c"
  "epcr (cpu_set_ov c b) = epcr c" "esr (cpu_set_ov c b) = esr c"
  "gpr (cpu_set_cy c b) = gpr c" "pc (cpu_set_cy c b) = pc c" "branch_pc (cpu_set_cy c b) = branch_pc c"
  "epcr (cpu_set_cy c b) = epcr c" "esr (cpu_set_cy c b) = esr c"
  by (simp_all add: cpu_defs)

lemma settled_set_ov: "settled c r v cy x d \<Longrightarrow> settled c r v cy ov (cpu_set_ov d ov)"
  by (simp add: settled_def masked_flags flag_fields)

lemma settled_set_cy: "settled c r v x ov d \<Longrightarrow> settled c r v cy ov (cpu_set_cy d cy)"
  by (simp add: settled_def masked_flags flag_fields)

lemma settled_add_base:
  assumes "wf_cpu c"
  shows "settled c r (a + b + of_bool k) (2 ^ 32 \<le> unat a + unat b + of_bool k)
     (\<not> signed_range (sint a + sint b + of_bool k)) (add_base c k r a b)"
proof -
  have "add_base c k r a b =
      cpu_set_cy (cpu_set_ov (cpu_set_gpr c r (a + b + of_bool k))
        (\<not> signed_range (sint a + sint b + of_bool k))) (2 ^ 32 \<le> unat a + unat b + of_bool k)"
    by (simp add: add_base_def calc_add_eq Let_def signed_range_def)
  then show ?thesis
    using settled_set_cy [OF settled_set_ov [OF settled_set_gpr [OF assms]]] by metis
qed

lemma flag_outside_OVCY:
  assumes "sr d AND NOT OVCY = sr c AND NOT OVCY" "f AND OVCY = 0"
  shows "cpu_is_set_sr_flag d f = cpu_is_set_sr_flag c f"
proof -
  have "x AND f = (x AND NOT OVCY) AND f" for x
    using arg_cong [OF assms(2), of bit] by (auto intro!: bit_word_eqI simp: bit_simps fun_eq_iff)
  then show ?thesis unfolding cpu_is_set_sr_flag_def using assms(1) by metis
qed

lemma arith_result_check_range:
  assumes "settled c r v cy ov d"
  shows "arith_result c r v cy ov (check_range d)"
proof -
  have "sr d AND NOT OVCY = sr c AND NOT OVCY" using assms by (simp add: settled_def)
  then have "cpu_get_ove d = cpu_get_ove c" "cpu_get_eph d = cpu_get_eph c"
    unfolding cpu_get_ove_def cpu_get_eph_def by (rule flag_outside_OVCY, simp add: OVCY_def spr_defs)+
  moreover have "ret_slot d = ret_slot c"
    using assms by (simp add: settled_def ret_slot_def is_in_delay_slot_def)
  ultimately show ?thesis
    using assms unfolding settled_def arith_result_def check_range_def
    by (simp add: range.kept range.vector range.return_address range.supervisor)
qed

lemma if_bool_arg: "(if P then f True else f False) = f P"
  by simp

section \<open>Addition and subtraction\<close>

lemma sub_borrow_arith:
  fixes x y z :: int
  assumes "- (2 ^ 31) \<le> x" "x < 2 ^ 31" "- (2 ^ 31) \<le> y" "y < 2 ^ 31" "- (2 ^ 31) \<le> z" "z < 2 ^ 31"
    and "x - y = z \<or> x - y = z + 2 ^ 32 \<or> x - y = z - 2 ^ 32"
  shows "(x < 0 \<and> 0 \<le> y \<and> 0 \<le> z \<or> 0 \<le> x \<and> y < 0 \<and> z < 0) \<longleftrightarrow> \<not> (- (2 ^ 31) \<le> x - y \<and> x - y < 2 ^ 31)"
  using assms by auto

lemma mod_diff_cases:
  fixes x y :: int
  assumes "0 \<le> x" "x < 2 ^ 32" "0 \<le> y" "y < 2 ^ 32"
  shows "(x - y) mod 2 ^ 32 = (if y \<le> x then x - y else x - y + 2 ^ 32)"
proof (cases "y \<le> x")
  case True
  with assms show ?thesis by (simp add: mod_pos_pos_trivial)
next
  case False
  have "(x - y) mod 2 ^ 32 = (x - y + 2 ^ 32) mod 2 ^ 32" by simp
  also have "\<dots> = x - y + 2 ^ 32" using assms False by (intro mod_pos_pos_trivial) simp_all
  finally show ?thesis using False by simp
qed

lemma sint_diff_cases:
  "sint (a :: u32) - sint b = sint (a - b) \<or> sint a - sint b = sint (a - b) + 2 ^ 32 \<or>
   sint a - sint b = sint (a - b) - 2 ^ 32"
proof -
  have "uint (a - b) = (uint a - uint b) mod 2 ^ 32" by (simp add: uint_word_ariths)
  then have "uint (a - b) = (if uint b \<le> uint a then uint a - uint b else uint a - uint b + 2 ^ 32)"
    using mod_diff_cases [of "uint a" "uint b"] uint_lt2p [of a] uint_lt2p [of b] by simp
  then show ?thesis
    using uint_lt2p [of a] uint_lt2p [of b] unfolding sint32_if bit_31_iff_uint by auto
qed

lemma sub_overflow_iff:
  "(sint a < 0 \<and> 0 \<le> sint b \<and> 0 \<le> sint (a - b) \<or> 0 \<le> sint a \<and> sint b < 0 \<and> sint (a - b) < 0) \<longleftrightarrow>
   \<not> signed_range (sint (a :: u32) - sint b)"
  unfolding signed_range_def
  by (rule sub_borrow_arith)
    (use sint_less [of a] sint_greater_eq [of a] sint_less [of b] sint_greater_eq [of b]
      sint_less [of "a - b"] sint_greater_eq [of "a - b"] sint_diff_cases [of a b] in simp_all)

text \<open>The handlers of the addition group and of subtraction.\<close>

lemma arith_add:
  assumes "wf_cpu c"
  shows "arith_result c r (a + b + of_bool k) (2 ^ 32 \<le> unat a + unat b + of_bool k)
      (\<not> signed_range (sint a + sint b + of_bool k)) (check_range (add_base c k r a b))"
  by (rule arith_result_check_range [OF settled_add_base [OF assms]])

lemma arith_sub:
  assumes "wf_cpu c" "wf_control t"
  shows "arith_result c (rD t) (cpu_get_gpr c (rA t) - cpu_get_gpr c (rB t))
      (cpu_get_gpr c (rA t) < cpu_get_gpr c (rB t))
      (if rD t = 0 then sint (cpu_get_gpr c (rA t)) < 0 \<and> 0 \<le> sint (cpu_get_gpr c (rB t))
       else \<not> signed_range (sint (cpu_get_gpr c (rA t)) - sint (cpu_get_gpr c (rB t)))) (l_sub c t)"
proof -
  define a b where "a = cpu_get_gpr c (rA t)" and "b = cpu_get_gpr c (rB t)"
  define d where "d = add_base c False (rD t) a (- b)"
  have d: "settled c (rD t) (a - b) (2 ^ 32 \<le> unat a + unat (- b))
      (\<not> signed_range (sint a + sint (- b))) d"
    using settled_add_base [OF assms(1), of "rD t" a "- b" False] by (simp add: d_def)
  have "cpu_get_gpr d (rD t) = (if rD t = 0 then 0 else a - b)"
    using d assms wf_controlD [OF assms(2)]
    by (simp add: settled_def cpu_get_gpr_def write_reg_def wf_cpu_def NUM_REGS_def)
  then have l: "l_sub c t = check_range (cpu_set_ov (cpu_set_cy d (a < b))
      (if rD t = 0 then sint a < 0 \<and> 0 \<le> sint b else \<not> signed_range (sint a - sint b)))"
    using sub_overflow_iff [of a b]
    by (simp add: l_sub_def Let_def if_bool_arg flip: a_def b_def d_def)
  show ?thesis unfolding a_def [symmetric] b_def [symmetric] l
    by (rule arith_result_check_range [OF settled_set_ov [OF settled_set_cy [OF d]]])
qed

section \<open>Multiplication and division\<close>

lemma ucast_word_of_int: "(ucast (word_of_int x :: u64) :: u32) = word_of_int x"
  by (rule bit_word_eqI) (simp add: bit_simps)

lemma ucast_calc_mul: "ucast (calc_mul a b) = a * b"
  by (simp only: calc_mul_eq ucast_word_of_int) simp

lemma ucast_calc_mulu: "ucast (calc_mulu a b) = a * b"
proof -
  have "calc_mulu a b = word_of_int (uint a * uint b)"
    by (simp only: calc_mulu_eq ucast_eq_of_int) simp
  then show ?thesis by (simp only: ucast_word_of_int) simp
qed

lemma calc_mulu_exceeds: "calc_mulu a b > UINT_MAX \<longleftrightarrow> 2 ^ 32 \<le> unat a * unat b"
  by (simp add: word_less_nat_alt unat_calc_mulu UINT_MAX_def) linarith

lemma settled_mul_shared:
  assumes "wf_cpu c"
  shows "settled c r (a * b) (2 ^ 32 \<le> unat a * unat b) (\<not> signed_range (sint a * sint b))
    (mul_shared c a b r)"
proof -
  have "(sint (calc_mul a b) < INT_MIN \<or> INT_MAX < sint (calc_mul a b)) \<longleftrightarrow>
      \<not> signed_range (sint a * sint b)"
    by (auto simp: sint_calc_mul INT_MIN_def INT_MAX_def signed_range_def)
  then have "mul_shared c a b r =
      cpu_set_cy (cpu_set_ov (cpu_set_gpr c r (a * b)) (\<not> signed_range (sint a * sint b)))
        (2 ^ 32 \<le> unat a * unat b)"
    by (simp only: mul_shared_def Let_def if_bool_arg calc_mulu_exceeds ucast_calc_mul)
  then show ?thesis
    using settled_set_cy [OF settled_set_ov [OF settled_set_gpr [OF assms]]] by metis
qed

lemma arith_mul:
  assumes "wf_cpu c"
  shows "arith_result c r (a * b) (2 ^ 32 \<le> unat a * unat b) (\<not> signed_range (sint a * sint b))
    (check_range (mul_shared c a b r))"
  by (rule arith_result_check_range [OF settled_mul_shared [OF assms]])

lemma arith_mulu:
  assumes "wf_cpu c"
  shows "arith_result c (rD t) (cpu_get_gpr c (rA t) * cpu_get_gpr c (rB t))
    (2 ^ 32 \<le> unat (cpu_get_gpr c (rA t)) * unat (cpu_get_gpr c (rB t))) False (l_mulu c t)"
  unfolding l_mulu_def Let_def if_bool_arg calc_mulu_exceeds ucast_calc_mulu
  by (rule arith_result_check_range [OF settled_set_cy [OF settled_set_ov [OF settled_set_gpr [OF assms]]]])

lemma arith_divu:
  assumes "wf_cpu c"
  shows "arith_result c (rD t)
    (if cpu_get_gpr c (rB t) = 0 then cpu_get_gpr c (rD t) else cpu_get_gpr c (rA t) div cpu_get_gpr c (rB t))
    (cpu_get_gpr c (rB t) = 0) False (l_divu c t)"
proof (cases "cpu_get_gpr c (rB t) = 0")
  case True
  show ?thesis
    using arith_result_check_range [OF settled_set_cy [OF settled_set_ov [OF settled_refl [OF assms]]]]
    by (simp add: l_divu_def True)
next
  case False
  show ?thesis
    using arith_result_check_range [OF settled_set_cy [OF settled_set_ov [OF settled_set_gpr [OF assms]]]]
    by (simp add: l_divu_def Let_def case_prod_unfold False calc_divu_eq)
qed

text \<open>The signed quotient of \<^verbatim>\<open>or32_div\<close> truncates towards zero.\<close>

lemma uint_negated: "uint (if a AND 0x80000000 \<noteq> 0 then NOT a + 1 else a) = \<bar>sint (a :: u32)\<bar>"
proof -
  have "a XOR -1 = NOT a" by (rule bit_word_eqI) (simp add: bit_simps)
  with uint_magnitude [of a] show ?thesis by metis
qed

lemma signed_quotient:
  fixes a b :: u32
  assumes "b \<noteq> 0"
  defines "d \<equiv> if b AND 0x80000000 \<noteq> 0 then NOT b + 1 else b"
    and "n \<equiv> if a AND 0x80000000 \<noteq> 0 then NOT a + 1 else a"
  shows "d \<noteq> 0"
    and "(if (b AND 0x80000000) XOR (a AND 0x80000000) \<noteq> 0 then NOT (n div d - 1) else n div d) =
      word_of_int (sint a sdiv sint b)"
proof -
  have ud: "uint d = \<bar>sint b\<bar>" and un: "uint n = \<bar>sint a\<bar>"
    unfolding d_def n_def by (rule uint_negated)+
  have "sint b \<noteq> 0" using assms(1) by (metis signed_0 signed_word_eqI)
  with ud have "uint d \<noteq> 0" by simp
  then show "d \<noteq> 0" by auto
  have q: "n div d = word_of_int (\<bar>sint a\<bar> div \<bar>sint b\<bar>)"
    by (simp add: word_div_def ud un)
  have neg: "NOT (x - 1) = - x" for x :: u32 by (simp add: not_eq_complement)
  show "(if (b AND 0x80000000) XOR (a AND 0x80000000) \<noteq> 0 then NOT (n div d - 1) else n div d) =
      word_of_int (sint a sdiv sint b)"
    unfolding q neg sign_masks_differ signed_divide_int_def
    by (auto simp: sgn_if)
qed

lemma arith_div:
  assumes "wf_cpu c"
  shows "arith_result c (rD t)
    (if cpu_get_gpr c (rB t) = 0 then cpu_get_gpr c (rD t)
     else word_of_int (sint (cpu_get_gpr c (rA t)) sdiv sint (cpu_get_gpr c (rB t))))
    (cpu_get_gpr c (rB t) = 0) False (or32_div c t)"
proof (cases "cpu_get_gpr c (rB t) = 0")
  case True
  show ?thesis
    using arith_result_check_range [OF settled_set_cy [OF settled_set_ov [OF settled_refl [OF assms]]]]
    by (simp add: or32_div_def True)
next
  case False
  note sq = signed_quotient(1) [OF False] signed_quotient(2) [OF False, of "cpu_get_gpr c (rA t)"]
  show ?thesis
    using arith_result_check_range [OF settled_set_cy [OF settled_set_ov [OF settled_set_gpr [OF assms]]]]
    by (simp only: or32_div_def Let_def case_prod_unfold False sq calc_divu_eq(1) [OF sq(1)]
        if_False if_True not_False_eq_True simp_thms)
qed

section \<open>Shifts, rotates and bit scans\<close>

text \<open>An arithmetic right shift is built from a logical one and \<^verbatim>\<open>sign_extend\<close>.\<close>

lemma c_shr_eq: "unat n < 32 \<Longrightarrow> c_shr x n = drop_bit (unat n) x"
  by (simp add: c_shr_def unat_and_31)

lemma c_shl_eq: "unat n < 32 \<Longrightarrow> c_shl x n = push_bit (unat n) x"
  by (simp add: c_shl_def unat_and_31)

lemma unat_31_minus: "unat (n :: u32) < 32 \<Longrightarrow> unat (31 - n) = 31 - unat n"
  by (simp add: unat_sub_if')

lemma sra_eq:
  assumes "unat n < 32"
  shows "(if n > 0 then sign_extend (c_shr x n) (31 - n) else c_shr x n) = signed_drop_bit (unat n) x"
proof (cases "n > 0")
  case True
  then have pos: "0 < unat n" by (simp add: unat_gt_0)
  have "take_bit (Suc (31 - unat n)) (c_shr x n) = c_shr x n"
    by (rule bit_word_eqI) (use assms in \<open>auto simp: c_shr_eq bit_simps dest: bit_imp_le_length\<close>)
  then have "sign_extend (c_shr x n) (31 - n) = signed_take_bit (31 - unat n) (c_shr x n)"
    using sign_extend_signed_take_bit [of "31 - n" "c_shr x n"] assms by (simp add: unat_31_minus)
  also have "\<dots> = signed_drop_bit (unat n) x"
  proof (rule bit_word_eqI)
    fix m assume m: "m < LENGTH(32)"
    consider "m < 31 - unat n" | "m = 31 - unat n" | "32 - unat n \<le> m" by linarith
    then show "bit (signed_take_bit (31 - unat n) (c_shr x n)) m = bit (signed_drop_bit (unat n) x) m"
      using m assms pos by cases (auto simp: c_shr_eq bit_signed_take_bit_iff bit_simps)
  qed
  finally show ?thesis using True by simp
next
  case False
  then have "n = 0" by (simp add: word_gt_0)
  then show ?thesis by (simp add: c_shr_def)
qed

lemma ror_eq:
  assumes "unat n < 32"
  shows "c_shr x n OR c_shl x (32 - n) = word_rotr (unat n) x"
proof (cases "n = 0")
  case True
  moreover have "word_rotr 0 x = x" by (rule bit_word_eqI) (simp add: bit_word_rotr_iff)
  ultimately show ?thesis by (simp add: c_shr_def c_shl_def)
next
  case False
  then have pos: "0 < unat n" by (simp add: unat_gt_0)
  have s: "unat (32 - n) = 32 - unat n" using assms by (simp add: unat_sub_if')
  show ?thesis
  proof (rule bit_word_eqI)
    fix m assume m: "m < LENGTH(32)"
    have "(m + unat n) mod 32 = (if m + unat n < 32 then m + unat n else m + unat n - 32)"
      using m assms by (simp add: mod_if)
    then show "bit (c_shr x n OR c_shl x (32 - n)) m = bit (word_rotr (unat n) x) m"
      using m assms pos s
      by (auto simp: c_shr_eq c_shl_eq bit_simps add.commute dest: bit_imp_le_length)
  qed
qed

lemma ff1_scan_spec:
  "idx \<le> 32 \<Longrightarrow> (\<forall>j<idx. \<not> bit a j) \<Longrightarrow>
   ff1_scan a idx \<le> 32 \<and> (\<forall>j<ff1_scan a idx. \<not> bit a j) \<and> (ff1_scan a idx < 32 \<longrightarrow> bit a (ff1_scan a idx))"
proof (induction a idx rule: ff1_scan.induct)
  case (1 a idx)
  have "a AND push_bit idx 1 = 0 \<longleftrightarrow> \<not> bit a idx" if "idx < 32"
    using that and_exp_eq_0 [of idx a] by simp
  with 1 show ?case by (subst (1 2 3 4) ff1_scan.simps) (auto simp: less_Suc_eq)
qed

lemma fl1_scan_spec:
  "idx \<le> 32 \<Longrightarrow> (\<forall>j<idx. \<not> bit a (31 - j)) \<Longrightarrow>
   fl1_scan a idx \<le> 32 \<and> (\<forall>j<fl1_scan a idx. \<not> bit a (31 - j)) \<and>
   (fl1_scan a idx < 32 \<longrightarrow> bit a (31 - fl1_scan a idx))"
proof (induction a idx rule: fl1_scan.induct)
  case (1 a idx)
  have "a AND push_bit (31 - idx) 1 = 0 \<longleftrightarrow> \<not> bit a (31 - idx)" if "idx < 32"
    using that and_exp_eq_0 [of "31 - idx" a] by simp
  with 1 show ?case by (subst (1 2 3 4) fl1_scan.simps) (auto simp: less_Suc_eq)
qed

text \<open>The one-based position of the lowest and of the highest set bit, 0 when there is none.\<close>

definition lowest_set :: "u32 \<Rightarrow> nat \<Rightarrow> bool" where
  "lowest_set a k \<longleftrightarrow> k < 32 \<and> bit a k \<and> (\<forall>j<k. \<not> bit a j)"

definition highest_set :: "u32 \<Rightarrow> nat \<Rightarrow> bool" where
  "highest_set a k \<longleftrightarrow> k < 32 \<and> bit a k \<and> (\<forall>j<32. k < j \<longrightarrow> \<not> bit a j)"

lemma no_bits_zero: "(\<forall>j<32. \<not> bit (a :: u32) j) \<longleftrightarrow> a = 0"
  by (auto intro!: bit_word_eqI)

lemma ff1_result:
  defines "i a \<equiv> of_nat (ff1_scan a 0) :: u32"
  shows "(if i 0 = 32 then -1 else i 0) + 1 = 0"
    and "lowest_set a k \<Longrightarrow> (if i a = 32 then -1 else i a) + 1 = of_nat (Suc k)"
proof -
  from ff1_scan_spec [of 0 0] have "ff1_scan 0 0 = 32" by fastforce
  then show "(if i 0 = 32 then -1 else i 0) + 1 = 0" by (simp add: i_def)
next
  assume k: "lowest_set a k"
  then have "ff1_scan a 0 = k"
    using ff1_scan_spec [of 0 a] unfolding lowest_set_def
    by (metis less_nat_zero_code linorder_neqE_nat order_less_le_trans order_less_trans zero_le)
  moreover have "(of_nat k :: u32) \<noteq> 32"
  proof
    assume "(of_nat k :: u32) = 32"
    then have "unat (of_nat k :: u32) = 32" by simp
    then show False using k by (simp add: lowest_set_def unat_of_nat take_bit_eq_mod)
  qed
  ultimately show "(if i a = 32 then -1 else i a) + 1 = of_nat (Suc k)" by (simp add: i_def add.commute)
qed

lemma fl1_result:
  shows "32 - (of_nat (fl1_scan 0 0) :: u32) = 0"
    and "highest_set a k \<Longrightarrow> 32 - (of_nat (fl1_scan a 0) :: u32) = of_nat (Suc k)"
proof -
  from fl1_scan_spec [of 0 0] have "fl1_scan 0 0 = 32" by fastforce
  then show "32 - (of_nat (fl1_scan 0 0) :: u32) = 0" by simp
next
  assume k: "highest_set a k"
  define i where "i = fl1_scan a 0"
  have i: "i \<le> 32" "\<And>j. j < i \<Longrightarrow> \<not> bit a (31 - j)" "i < 32 \<Longrightarrow> bit a (31 - i)"
    using fl1_scan_spec [of 0 a] by (auto simp: i_def)
  have "i \<le> 31 - k" using i(2) [of "31 - k"] k by (cases "31 - k < i") (auto simp: highest_set_def)
  moreover from this have "bit a (31 - i)" using i(3) k by (simp add: highest_set_def)
  then have "\<not> k < 31 - i" using k by (auto simp: highest_set_def)
  ultimately have "i = 31 - k" by simp
  then have "i + Suc k = 32" using k by (simp add: highest_set_def)
  then have "(of_nat i + of_nat (Suc k) :: u32) = 32" by (metis of_nat_add of_nat_numeral)
  then show "32 - (of_nat (fl1_scan a 0) :: u32) = of_nat (Suc k)"
    by (simp add: i_def algebra_simps)
qed

section \<open>Accumulator, extension and immediates\<close>

lemma mac_round_trip: "cpu_get_mac (cpu_set_mac c m) = m"
proof -
  have "n < 64 \<Longrightarrow> bit m n = (n < 32 \<and> bit m n \<or> 32 \<le> n \<and> bit m n)" for n by auto
  then show ?thesis
    unfolding cpu_get_mac_def cpu_set_mac_def and_ffffffff
    by (intro bit_word_eqI) (auto simp: bit_simps)
qed

lemma mac_set_gpr [simp]: "cpu_get_mac (cpu_set_gpr c r v) = cpu_get_mac c"
  by (simp add: cpu_get_mac_def)

lemma cpu_set_mac_fields [simp]:
  "gpr (cpu_set_mac c m) = gpr c" "sr (cpu_set_mac c m) = sr c" "npc (cpu_set_mac c m) = npc c"
  by (simp_all add: cpu_set_mac_def)

lemma zero_extend_eq: "unat n < 32 \<Longrightarrow> zero_extend v n = take_bit (unat n) v"
  by (simp add: zero_extend_def c_shl_eq take_bit_eq_mask mask_eq_exp_minus_1)

lemma sign_extend_low:
  "unat n < 31 \<Longrightarrow> sign_extend (take_bit (Suc (unat n)) v) n = signed_take_bit (unat n) v"
  by (subst sign_extend_signed_take_bit) (simp_all add: signed_take_bit_take_bit)

lemma ff_take_bit: "(v :: u32) AND 0xff = take_bit 8 v" "(v :: u32) AND 0xffff = take_bit 16 v"
  by (simp_all add: take_bit_eq_mask mask_eq_exp_minus_1)

lemma extension_values:
  "sign_extend (v AND 0xffff) 15 = signed_take_bit 15 v" "sign_extend (v AND 0xff) 7 = signed_take_bit 7 v"
  "zero_extend v 8 = take_bit 8 v" "zero_extend v 16 = take_bit 16 v"
  using sign_extend_low [of 15 v] sign_extend_low [of 7 v]
  by (simp_all add: ff_take_bit zero_extend_eq)

section \<open>Properties of the arithmetic instructions\<close>

text \<open>A processor for the witnesses: \<open>r4\<close>, \<open>r5\<close> and \<open>r6\<close> hold the arguments.\<close>

definition sample_cpu :: "u32 \<Rightarrow> u32 \<Rightarrow> u32 \<Rightarrow> CPU" where
  "sample_cpu x y z = cpu_set_gpr (cpu_set_gpr (cpu_set_gpr (cpu_init0 cpu_zero) 4 x) 5 y) 6 z"

lemma wf_sample_cpu [simp]: "wf_cpu (sample_cpu x y z)"
  by (simp add: sample_cpu_def cpu_init0_def cpu_initvars_def wf_cpu_def cpu_zero_def NUM_REGS_def
      cpu_set_gpr_def)

lemma sample_cpu_regs [simp]:
  "cpu_get_gpr (sample_cpu x y z) 4 = x" "cpu_get_gpr (sample_cpu x y z) 5 = y"
  "cpu_get_gpr (sample_cpu x y z) 6 = z" "cpu_get_cy (sample_cpu x y z) = False"
  by (simp_all add: sample_cpu_def cpu_init0_def cpu_initvars_def cpu_zero_def NUM_REGS_def
      cpu_set_gpr_def cpu_get_gpr_def cpu_defs cpu_is_set_sr_flag_def)

text \<open>The meaning of an addition with carry-in \<open>k\<close>, on the integers.\<close>

definition adds :: "CPU \<Rightarrow> u32 \<Rightarrow> u32 \<Rightarrow> u32 \<Rightarrow> bool \<Rightarrow> CPU \<Rightarrow> bool" where
  "adds c r a b k d = arith_result c r (a + b + of_bool k) (2 ^ 32 \<le> unat a + unat b + of_bool k)
     (\<not> signed_range (sint a + sint b + of_bool k)) d"

text \<open>
  C40. The addition instructions \<^verbatim>\<open>l.add\<close>, \<^verbatim>\<open>l.addi\<close>, \<^verbatim>\<open>l.addc\<close>, \<^verbatim>\<open>l.addic\<close> write the sum modulo
  2 to the 32 to rD (never to r0), set CY exactly when the unsigned sum (with the carry, where the
  instruction takes it) does not fit 32 bits and OV exactly when the signed sum does not, and take
  the range exception exactly when OV and OVE are set; what runs is the ripple loop of \<^verbatim>\<open>calc_add\<close>.
\<close>

theorem add_instructions:
  assumes "wf_cpu c"
  shows "adds c (rD t) (cpu_get_gpr c (rA t)) (cpu_get_gpr c (rB t)) False (l_add c t) \<and>
    adds c (rD t) (cpu_get_gpr c (rA t)) (exts (imm_I t)) False (l_addi c t) \<and>
    adds c (rD t) (cpu_get_gpr c (rA t)) (cpu_get_gpr c (rB t)) (cpu_get_cy c) (l_addc c t) \<and>
    adds c (rD t) (cpu_get_gpr c (rA t)) (exts (imm_I t)) (cpu_get_cy c) (l_addic c t)"
  unfolding adds_def l_add_def l_addi_def l_addc_def l_addic_def
  using arith_add [OF assms] by blast

theorem add_instructions_witness:
  "arith_result (sample_cpu 0x7fffffff 1 0) 3 0x80000000 False True
     (l_add (sample_cpu 0x7fffffff 1 0) (decode 0xE0642800))"
  using add_instructions [of "sample_cpu 0x7fffffff 1 0" "decode 0xE0642800"]
  by (simp add: decode_eval signed_range_def adds_def)

text \<open>
  \<^verbatim>\<open>l.sub\<close> with a destination other than r0 writes the difference, sets CY exactly on an
  unsigned borrow and OV exactly when the signed difference does not fit 32 bits.
\<close>

lemma sub_instruction:
  assumes "wf_cpu c" "wf_control t" "rD t \<noteq> 0"
  shows "arith_result c (rD t) (cpu_get_gpr c (rA t) - cpu_get_gpr c (rB t))
      (unat (cpu_get_gpr c (rA t)) < unat (cpu_get_gpr c (rB t)))
      (\<not> signed_range (sint (cpu_get_gpr c (rA t)) - sint (cpu_get_gpr c (rB t)))) (l_sub c t)"
  using arith_sub [OF assms(1,2)] assms(3) by (simp add: word_less_nat_alt)

lemma sub_instruction_witness:
  "arith_result (sample_cpu 3 5 0) 3 (- 2) True False (l_sub (sample_cpu 3 5 0) (decode 0xE0642802))"
  using sub_instruction [of "sample_cpu 3 5 0" "decode 0xE0642802"]
  by (simp add: decode_eval signed_range_def)

text \<open>
  With destination r0 the overflow test of \<^verbatim>\<open>sub\<close> reads zero back instead of the difference: OV
  is set whenever rA is negative and rB is not, also where the difference fits.
\<close>

lemma sub_to_r0_overflow:
  assumes "wf_cpu c" "wf_control t" "rD t = 0"
  shows "cpu_get_ov (l_sub c t) \<longleftrightarrow> sint (cpu_get_gpr c (rA t)) < 0 \<and> 0 \<le> sint (cpu_get_gpr c (rB t))"
  using arith_sub [OF assms(1,2)] assms(3) by (simp add: arith_result_def)

lemma sub_to_r0_overflow_witness:
  "cpu_get_ov (l_sub (sample_cpu 0xffffffff 0 0) (decode 0xE0042802)) \<and>
   signed_range (sint (0xffffffff :: u32) - sint (0 :: u32))"
  using sub_to_r0_overflow [of "sample_cpu 0xffffffff 0 0" "decode 0xE0042802"]
  by (simp add: decode_eval signed_range_def)

text \<open>
  \<^verbatim>\<open>l.mul\<close>, \<^verbatim>\<open>l.muli\<close> and \<^verbatim>\<open>l.mulu\<close> write the low 32 bits of the product, set CY exactly when the
  unsigned product does not fit 32 bits and, for the signed forms, OV exactly when the signed
  product does not; \<^verbatim>\<open>l.mulu\<close> clears OV.
\<close>

lemma mul_instructions:
  fixes t :: control
  assumes "wf_cpu c"
  defines "a \<equiv> cpu_get_gpr c (rA t)" and "b \<equiv> cpu_get_gpr c (rB t)" and "i \<equiv> exts (imm_I t)"
  shows "arith_result c (rD t) (a * b) (2 ^ 32 \<le> unat a * unat b) (\<not> signed_range (sint a * sint b)) (l_mul c t) \<and>
    arith_result c (rD t) (a * i) (2 ^ 32 \<le> unat a * unat i) (\<not> signed_range (sint a * sint i)) (l_muli c t) \<and>
    arith_result c (rD t) (a * b) (2 ^ 32 \<le> unat a * unat b) False (l_mulu c t)"
  unfolding a_def b_def i_def l_mul_def l_muli_def
  by (intro conjI arith_mul arith_mulu assms)

lemma mul_instructions_witness:
  "arith_result (sample_cpu 2 0x7fffffff 0) 3 0xfffffffe False True
     (l_mul (sample_cpu 2 0x7fffffff 0) (decode 0xE0642B06))"
  using mul_instructions [of "sample_cpu 2 0x7fffffff 0" "decode 0xE0642B06"]
  by (simp add: decode_eval signed_range_def)

text \<open>
  C39. \<^verbatim>\<open>l.divu\<close> writes the unsigned quotient and \<^verbatim>\<open>l.div\<close> the signed quotient truncated towards zero
  (modulo 2 to the 32, so the quotient of the least integer by -1 is itself), for every non-zero
  divisor; a zero divisor sets CY and leaves rD alone. OV is cleared.
\<close>

theorem div_instructions:
  fixes t :: control
  assumes "wf_cpu c"
  defines "a \<equiv> cpu_get_gpr c (rA t)" and "b \<equiv> cpu_get_gpr c (rB t)" and "old \<equiv> cpu_get_gpr c (rD t)"
  shows "arith_result c (rD t) (if b = 0 then old else a div b) (b = 0) False (l_divu c t) \<and>
    arith_result c (rD t) (if b = 0 then old else word_of_int (sint a sdiv sint b)) (b = 0) False (or32_div c t)"
  unfolding a_def b_def old_def by (intro conjI arith_divu arith_div assms)

theorem div_instructions_witness:
  "arith_result (sample_cpu 0xfffffff9 2 0) 3 (- 3) False False
     (or32_div (sample_cpu 0xfffffff9 2 0) (decode 0xE0642B09))"
  using div_instructions [of "sample_cpu 0xfffffff9 2 0" "decode 0xE0642B09"]
  by (simp add: decode_eval signed_divide_int_def)

text \<open>
  The shift and rotate instructions compute the left, logical right and arithmetic right shift
  and the right rotation by the low five bits of the count, whatever the count; the arithmetic
  shift goes through \<^verbatim>\<open>sign_extend\<close> of a logical one.
\<close>

lemma shift_instructions:
  assumes "wf_control t"
  defines "x c \<equiv> cpu_get_gpr c (rA t)" and "n c \<equiv> unat (cpu_get_gpr c (rB t)) mod 32" and "l \<equiv> unat (imm_L t)"
  shows "l_sll c t = cpu_set_gpr c (rD t) (push_bit (n c) (x c)) \<and>
    l_srl c t = cpu_set_gpr c (rD t) (drop_bit (n c) (x c)) \<and>
    l_sra c t = cpu_set_gpr c (rD t) (signed_drop_bit (n c) (x c)) \<and>
    l_ror c t = cpu_set_gpr c (rD t) (word_rotr (n c) (x c)) \<and>
    l_slli c t = cpu_set_gpr c (rD t) (push_bit l (x c)) \<and>
    l_srli c t = cpu_set_gpr c (rD t) (drop_bit l (x c)) \<and>
    l_srai c t = cpu_set_gpr c (rD t) (signed_drop_bit l (x c)) \<and>
    l_rori c t = cpu_set_gpr c (rD t) (word_rotr l (x c))"
proof -
  have l: "unat (imm_L t) < 32" using assms(1) by (rule wf_controlD)
  have s: "unat (y AND 0x1f) < 32" for y :: u32 by simp
  show ?thesis
    unfolding x_def n_def l_def l_sra_def l_ror_def l_srai_def l_rori_def Let_def
      sra_eq [OF l] ror_eq [OF l] sra_eq [OF s] ror_eq [OF s]
    by (simp add: inst_defs c_shl_eq c_shr_eq l unat_and_31) (simp add: c_shr_def unat_and_31)
qed

lemma sra_sample: "signed_drop_bit 4 (0x80000000 :: u32) = - 0x8000000"
  by code_simp

lemma shift_instructions_witness:
  "l_sra (sample_cpu 0x80000000 0x24 0) (decode 0xE0642888) = cpu_set_gpr (sample_cpu 0x80000000 0x24 0) 3 (- 0x8000000)"
  using shift_instructions [of "decode 0xE0642888" "sample_cpu 0x80000000 0x24 0"]
    sra_sample by (simp add: decode_eval)

text \<open>
  \<^verbatim>\<open>l.ff1\<close> and \<^verbatim>\<open>l.fl1\<close> write the one-based position of the lowest and of the highest set bit of
  rA, and 0 when no bit is set.
\<close>

lemma scan_instructions:
  defines "x c t \<equiv> cpu_get_gpr c (rA t)"
  shows "(lowest_set (x c t) k \<longrightarrow> l_ff1 c t = cpu_set_gpr c (rD t) (of_nat (Suc k))) \<and>
    (highest_set (x c t) k \<longrightarrow> l_fl1 c t = cpu_set_gpr c (rD t) (of_nat (Suc k))) \<and>
    (x c t = 0 \<longrightarrow> l_ff1 c t = cpu_set_gpr c (rD t) 0 \<and> l_fl1 c t = cpu_set_gpr c (rD t) 0)"
proof (unfold x_def l_ff1_def l_fl1_def Let_def, intro conjI impI)
  assume l: "lowest_set (cpu_get_gpr c (rA t)) k"
  show "cpu_set_gpr c (rD t) ((if of_nat (ff1_scan (cpu_get_gpr c (rA t)) 0) = (32 :: u32) then - 1
      else of_nat (ff1_scan (cpu_get_gpr c (rA t)) 0)) + 1) = cpu_set_gpr c (rD t) (of_nat (Suc k))"
    by (simp only: ff1_result(2) [OF l])
next
  assume h: "highest_set (cpu_get_gpr c (rA t)) k"
  show "cpu_set_gpr c (rD t) (32 - of_nat (fl1_scan (cpu_get_gpr c (rA t)) 0)) = cpu_set_gpr c (rD t) (of_nat (Suc k))"
    by (simp only: fl1_result(2) [OF h])
qed (simp_all only: ff1_result(1) fl1_result(1))

lemma scan_instructions_witness:
  "l_ff1 (sample_cpu 0x50 0 0) (decode 0xE064000F) = cpu_set_gpr (sample_cpu 0x50 0 0) 3 5"
proof -
  have "lowest_set 0x50 4"
    by code_simp
  then show ?thesis
    using scan_instructions [of "sample_cpu 0x50 0 0" "decode 0xE064000F" 4]
    by (simp add: decode_eval)
qed

text \<open>
  The accumulator instructions treat MACHI and MACLO as one 64-bit register: \<^verbatim>\<open>l.mac\<close>, \<^verbatim>\<open>l.maci\<close>
  and \<^verbatim>\<open>l.msb\<close> add or subtract the exact signed product, and \<^verbatim>\<open>l.macrc\<close> moves the low word to rD and
  clears it. No other register and no flag changes.
\<close>

lemma mac_instructions:
  defines "a c t \<equiv> sint (cpu_get_gpr c (rA t))"
  shows "cpu_get_mac (l_mac c t) = cpu_get_mac c + word_of_int (a c t * sint (cpu_get_gpr c (rB t))) \<and>
    cpu_get_mac (l_msb c t) = cpu_get_mac c - word_of_int (a c t * sint (cpu_get_gpr c (rB t))) \<and>
    cpu_get_mac (l_maci c t) = cpu_get_mac c + word_of_int (a c t * sint (exts (imm_I t))) \<and>
    cpu_get_mac (l_macrc c t) = 0 \<and> gpr (l_macrc c t) = gpr (cpu_set_gpr c (rD t) (maclo c)) \<and>
    gpr (l_mac c t) = gpr c \<and> sr (l_mac c t) = sr c \<and> gpr (l_msb c t) = gpr c \<and> sr (l_msb c t) = sr c \<and>
    gpr (l_maci c t) = gpr c \<and> sr (l_maci c t) = sr c \<and> sr (l_macrc c t) = sr c"
proof -
  have "(ucast (cpu_get_mac c AND 0xffffffff) :: u32) = maclo c"
    unfolding cpu_get_mac_def and_ffffffff by (rule bit_word_eqI) (auto simp: bit_simps)
  then show ?thesis
    unfolding a_def l_mac_def l_msb_def l_maci_def l_macrc_def Let_def mac_round_trip calc_mul_eq exts_def
    by simp
qed

text \<open>
  The extension instructions sign- or zero-extend the low half-word or byte of rA; the word
  forms copy it.
\<close>

lemma extension_instructions:
  "l_exths c t = cpu_set_gpr c (rD t) (signed_take_bit 15 (cpu_get_gpr c (rA t))) \<and>
   l_extbs c t = cpu_set_gpr c (rD t) (signed_take_bit 7 (cpu_get_gpr c (rA t))) \<and>
   l_exthz c t = cpu_set_gpr c (rD t) (take_bit 16 (cpu_get_gpr c (rA t))) \<and>
   l_extbz c t = cpu_set_gpr c (rD t) (take_bit 8 (cpu_get_gpr c (rA t))) \<and>
   l_extws c t = cpu_set_gpr c (rD t) (cpu_get_gpr c (rA t)) \<and>
   l_extwz c t = cpu_set_gpr c (rD t) (cpu_get_gpr c (rA t))"
  unfolding l_exths_def l_extbs_def l_exthz_def l_extbz_def l_extws_def l_extwz_def extension_values
  by simp

text \<open>The ten comparisons as relations on integers; every other code is unimplemented.\<close>

definition sf_relation :: "u32 \<Rightarrow> (u32 \<Rightarrow> u32 \<Rightarrow> bool) option" where
  "sf_relation op = map_of
     [(0x0, \<lambda>a b. uint a = uint b), (0x1, \<lambda>a b. uint a \<noteq> uint b),
      (0x2, \<lambda>a b. uint a > uint b), (0x3, \<lambda>a b. uint a \<ge> uint b),
      (0x4, \<lambda>a b. uint a < uint b), (0x5, \<lambda>a b. uint a \<le> uint b),
      (0xa, \<lambda>a b. sint a > sint b), (0xb, \<lambda>a b. sint a \<ge> sint b),
      (0xc, \<lambda>a b. sint a < sint b), (0xd, \<lambda>a b. sint a \<le> sint b)] op"

text \<open>
  The compare groups \<^verbatim>\<open>l.sf\<close> and \<^verbatim>\<open>l.sfi\<close> set SR[F] to the unsigned or signed relation of the
  operands that the function code names, change nothing else, and do not return for any other code.
\<close>

lemma compare_instructions:
  "l_sf c t = map_option (\<lambda>r. cpu_set_f c (r (cpu_get_gpr c (rA t)) (cpu_get_gpr c (rB t))))
     (sf_relation (sf_op t)) \<and>
   l_sfi c t = map_option (\<lambda>r. cpu_set_f c (r (cpu_get_gpr c (rA t)) (exts (imm_I t))))
     (sf_relation (sf_op t))"
  by (simp add: l_sf_def l_sfi_def sf_relation_def inst_defs op_defs unimpl_def word_less_def word_le_def
      word_uint_eq_iff)

end
