(* ===== verification/Mem_Spec.thy ===== *)
theory Mem_Spec
  imports Mem_Inst Alu_Spec
begin

unbundle bit_operations_syntax

text \<open>
  What the loads and stores do to the bytes of physical memory, through the TLB: the word-based
  code of \<^verbatim>\<open>simulator.c\<close> refines big-endian byte accesses, a store changes the addressed bytes only,
  and misaligned or unmapped accesses raise the exception the architecture asks for and leave
  memory alone.
\<close>

section \<open>Word stores as byte updates\<close>

lemma ucast_u8_u32 [simp]: "ucast (ucast (x :: u8) :: u32) = x"
  by (rule bit_word_eqI) (simp add: bit_simps)

lemma ucast_trunc: "(ucast (ucast (v :: u32) :: u8) :: u32) = take_bit 8 v"
  by (rule bit_word_eqI) (simp add: bit_simps)

lemma ucast_u8_inject: "(ucast (x :: u8) :: u32) = ucast y \<longleftrightarrow> x = y"
  by (metis ucast_u8_u32)

lemma base_aligned [simp]: "((a :: u32) AND NOT 3) AND 3 = 0"
  by (rule bit_word_eqI) (auto simp: bit_simps)

lemma store_word_outside:
  assumes "x AND NOT 3 \<noteq> a AND NOT 3"
  shows "store_word f (a AND NOT 3) v x = f x"
proof -
  have "x \<noteq> (a AND NOT 3) + i" if "i \<in> {0, 1, 2, 3}" for i
    using aligned_plus_and [OF base_aligned that, of a] assms by metis
  from this [of 0] this [of 1] this [of 2] this [of 3] show ?thesis
    by (simp add: store_word_def)
qed

lemma store_word_inside:
  "x AND NOT 3 = a AND NOT 3 \<Longrightarrow> ucast (store_word f (a AND NOT 3) v x) = byte_of_word x v"
  using byte_of_load_word [of x "store_word f (a AND NOT 3) v"] by (simp add: load_store_word_same)

text \<open>A byte read through the word accesses is the byte of memory; the interface says what a store does to it.\<close>

lemma load_byte_guest: "load_byte guestLoad m x = ucast (mem m x)"
  using byte_of_load_word [of x "mem m"] by (simp add: load_byte_def guestLoad_def)

lemma store_byte_bytes:
  "store_word f (a AND NOT 3) (put_byte a (load_word f (a AND NOT 3)) v) = f(a := ucast v)"
proof
  fix x
  define m where "m = (undefined :: machine)\<lparr>mem := f\<rparr>"
  have "mem (store_byte guestLoad guestStore m a v) x = (f(a := ucast v)) x"
  proof (cases "x = a")
    case True
    have "load_byte guestLoad (store_byte guestLoad guestStore m a v) a = v AND 0xff"
      by (rule phys.load_byte_same) (rule base_aligned)
    then have "(ucast (mem (store_byte guestLoad guestStore m a v) a) :: u32) = ucast (ucast v :: u8)"
      unfolding load_byte_guest and_ff by (auto intro!: bit_word_eqI simp: bit_simps)
    then show ?thesis using True by (metis ucast_u8_inject fun_upd_same)
  next
    case False
    then have "load_byte guestLoad (store_byte guestLoad guestStore m a v) x = load_byte guestLoad m x"
      by (intro phys.load_byte_other base_aligned)
    then have "mem (store_byte guestLoad guestStore m a v) x = mem m x"
      unfolding load_byte_guest ucast_u8_inject .
    then show ?thesis using False by (simp add: m_def)
  qed
  then show "store_word f (a AND NOT 3) (put_byte a (load_word f (a AND NOT 3)) v) x = (f(a := ucast v)) x"
    by (simp add: store_byte_def guestStore_def guestLoad_def m_def)
qed

text \<open>Half-words: the high byte goes to the even address.\<close>

lemma even_mod_4: "(a :: u32) AND 1 = 0 \<Longrightarrow> unat a mod 4 = 0 \<or> unat a mod 4 = 2"
proof -
  assume "a AND 1 = 0"
  moreover have "unat (a AND 1) = unat a mod 2" by (simp add: and_one_eq unat_mod)
  ultimately have "unat a mod 2 = 0" by simp
  then show ?thesis by presburger
qed

lemma put_half_high:
  fixes w h :: u32
  defines "v \<equiv> take_bit 16 w OR push_bit 16 h"
  shows "take_bit 8 (drop_bit 24 v) = take_bit 8 (drop_bit 8 h)" "take_bit 8 (drop_bit 16 v) = take_bit 8 h"
    "take_bit 8 (drop_bit 8 v) = take_bit 8 (drop_bit 8 w)" "take_bit 8 v = take_bit 8 w"
  unfolding v_def by (rule bit_word_eqI, auto simp: bit_simps)+

lemma put_half_low:
  fixes w h :: u32
  defines "v \<equiv> (w AND NOT (mask 16)) OR take_bit 16 h"
  shows "take_bit 8 (drop_bit 24 v) = take_bit 8 (drop_bit 24 w)"
    "take_bit 8 (drop_bit 16 v) = take_bit 8 (drop_bit 16 w)"
    "take_bit 8 (drop_bit 8 v) = take_bit 8 (drop_bit 8 h)" "take_bit 8 v = take_bit 8 h"
  unfolding v_def by (rule bit_word_eqI, auto simp: bit_simps)+

lemma half_offsets:
  fixes x a b :: u32
  assumes "x = b + of_nat i" "a = b + of_nat j" "i = 0 \<or> i = 1 \<or> i = 2 \<or> i = 3" "j = 0 \<or> j = 2"
  shows "(x = a \<longleftrightarrow> i = j) \<and> (x = a + 1 \<longleftrightarrow> i = j + 1)"
  using assms(3,4) unfolding assms(1,2) by (elim disjE) simp_all

lemma byte_of_put_half:
  assumes "a AND 1 = 0" "x AND NOT 3 = a AND NOT 3"
  shows "byte_of_word x (put_half a w h) =
    (if x = a then take_bit 8 (drop_bit 8 h) else if x = a + 1 then take_bit 8 h else byte_of_word x w)"
proof -
  have m: "(0xffff :: u32) = mask 16" by (simp add: mask_eq_exp_minus_1)
  define b where "b = a AND NOT 3"
  have split: "y = (y AND NOT 3) + (y AND 3)" for y :: u32
  proof -
    have "(y AND NOT 3) AND (y AND 3) = 0" by (rule bit_word_eqI) (auto simp: bit_simps)
    then show ?thesis by (subst disjunctive_add_eq_or) (auto intro!: bit_word_eqI simp: bit_simps)
  qed
  have low: "y AND 3 = of_nat (unat y mod 4)" for y :: u32
    by (simp flip: word_and_3_eq)
  have a: "a = b + of_nat (unat a mod 4)" and x: "x = b + of_nat (unat x mod 4)"
    using split [of a] split [of x] assms(2) unfolding low b_def by simp_all
  have ai: "unat a mod 4 = 0 \<or> unat a mod 4 = 2" using assms(1) by (rule even_mod_4)
  have xi: "unat x mod 4 = 0 \<or> unat x mod 4 = 1 \<or> unat x mod 4 = 2 \<or> unat x mod 4 = 3" by presburger
  have and2: "a AND 2 = (a AND 3) AND 2" by (simp add: and.assoc)
  have eq: "x = a \<longleftrightarrow> unat x mod 4 = unat a mod 4" "x = a + 1 \<longleftrightarrow> unat x mod 4 = unat a mod 4 + 1"
    using half_offsets [OF x a xi ai] by simp_all
  show ?thesis
  proof (cases "unat a mod 4 = 0")
    case True
    then have h: "put_half a w h = take_bit 16 w OR push_bit 16 h"
      using and2 by (simp add: low put_half_def Let_def and_ffff)
    show ?thesis using xi put_half_high [of w h] unfolding eq True byte_of_word_eq h
      by (elim disjE) simp_all
  next
    case False
    with ai have two: "unat a mod 4 = 2" by simp
    then have h: "put_half a w h = (w AND NOT (mask 16)) OR take_bit 16 h"
      using and2 by (simp add: low put_half_def Let_def and_ffff flip: m)
    show ?thesis using xi put_half_low [of w h] unfolding eq two byte_of_word_eq h
      by (elim disjE) simp_all
  qed
qed

lemma same_word_next: "(a :: u32) AND 1 = 0 \<Longrightarrow> (a + 1) AND NOT 3 = a AND NOT 3"
  by (subst disjunctive_add_eq_or) (simp_all add: bit.conj_disj_distrib2)

lemma store_half_bytes:
  assumes "a AND 1 = 0"
  shows "store_word f (a AND NOT 3) (put_half a (load_word f (a AND NOT 3)) h) =
    f(a := ucast (drop_bit 8 h), a + 1 := ucast h)"
proof
  fix x
  let ?g = "f(a := ucast (drop_bit 8 h), a + 1 := ucast h)"
  show "store_word f (a AND NOT 3) (put_half a (load_word f (a AND NOT 3)) h) x = ?g x"
  proof (cases "x AND NOT 3 = a AND NOT 3")
    case True
    have ne: "a + 1 \<noteq> a" by simp
    have "byte_of_word x (put_half a (load_word f (a AND NOT 3)) h) = ucast (?g x)"
      using byte_of_load_word [of x f] unfolding byte_of_put_half [OF assms True]
      by (simp only: True) (simp add: ucast_trunc ne)
    then show ?thesis using store_word_inside [OF True] by (metis ucast_u8_inject)
  next
    case False
    then have "x \<noteq> a" "x \<noteq> a + 1" using same_word_next [OF assms] by auto
    then show ?thesis using store_word_outside [OF False, of f] by simp
  qed
qed

section \<open>Loads from bytes\<close>

lemma byte_parts_cong:
  assumes "a AND 3 = b AND 3"
  shows "byte_of_word a w = byte_of_word b w" "put_byte a w v = put_byte b w v"
    "half_of_word a w = half_of_word b w" "put_half a w v = put_half b w v"
proof -
  have "x AND 2 = (x AND 3) AND 2" for x :: u32 by (simp add: and.assoc)
  then have "a AND 2 = b AND 2" using assms by metis
  then show "half_of_word a w = half_of_word b w" "put_half a w v = put_half b w v"
    by (simp_all add: half_of_word_def put_half_def)
  show "byte_of_word a w = byte_of_word b w" "put_byte a w v = put_byte b w v"
    by (simp_all add: byte_of_word_def put_byte_def byte_shift_def assms)
qed

lemma half_of_word_bytes:
  assumes "a AND 1 = 0"
  shows "half_of_word a w = push_bit 8 (byte_of_word a w) OR byte_of_word (a + 1) w"
proof -
  have "(a + 1) AND 3 = (a AND 3) OR 1"
    using assms by (subst disjunctive_add_eq_or) (simp_all add: bit.conj_disj_distrib2)
  then have next_mod: "unat (a + 1) mod 4 = unat ((a AND 3) OR 1)" by (simp flip: word_and_3_eq)
  have and2: "a AND 2 = (a AND 3) AND 2" by (simp add: and.assoc)
  have low: "a AND 3 = of_nat (unat a mod 4)" by (simp flip: word_and_3_eq)
  from even_mod_4 [OF assms] show ?thesis
  proof
    assume 0: "unat a mod 4 = 0"
    then have "unat (a + 1) mod 4 = 1" "a AND 2 = 0" using next_mod and2 low by simp_all
    with 0 show ?thesis
      unfolding half_of_word_def byte_of_word_eq
      by (auto intro!: bit_word_eqI simp: bit_simps) (drule bit_imp_le_length, simp)
  next
    assume 2: "unat a mod 4 = 2"
    then have "unat (a + 1) mod 4 = 3" "a AND 2 \<noteq> 0" using next_mod and2 low by simp_all
    with 2 show ?thesis
      unfolding half_of_word_def byte_of_word_eq and_ffff by (auto intro!: bit_word_eqI simp: bit_simps)
  qed
qed

lemma half_of_load_word:
  assumes "a AND 1 = 0"
  shows "half_of_word a (load_word f (a AND NOT 3)) = push_bit 8 (ucast (f a)) OR ucast (f (a + 1))"
  using byte_of_load_word [of a f] byte_of_load_word [of "a + 1" f]
  by (simp only: half_of_word_bytes [OF assms] same_word_next [OF assms])

lemma sign_extend_half:
  "(if (v :: u32) AND 0x00008000 = 0 then v AND 0xffff else v OR 0xffff0000) = signed_take_bit 15 v"
proof -
  have m: "(0xffff0000 :: u32) = NOT (mask 16)" by (simp add: mask_eq_exp_minus_1)
  have b: "v AND 0x8000 = 0 \<longleftrightarrow> \<not> bit v 15" using and_exp_eq_0 [of 15 v] by simp
  show ?thesis unfolding m and_ffff b
  proof (rule bit_word_eqI)
    fix n assume n: "n < LENGTH(32)"
    consider "n < 15" | "n = 15" | "15 < n" by linarith
    then show "bit (if \<not> bit v 15 then take_bit 16 v else v OR NOT (mask 16)) n = bit (signed_take_bit 15 v) n"
      using n by cases (auto simp: bit_simps bit_signed_take_bit_iff)
  qed
qed

section \<open>The accesses of the machine\<close>

lemma Suc_Suc_diff_2: "\<not> n < 2 \<Longrightarrow> Suc (Suc (n - 2)) = n" "2 \<le> n \<Longrightarrow> Suc (Suc (n - 2)) = n"
  by simp_all

lemma unat_word_base: "unat ((p :: u32) AND NOT 3) = 4 * (unat p div 4)"
proof -
  have m: "(3 :: u32) = mask 2" by (simp add: mask_eq_exp_minus_1)
  have "p AND NOT 3 = push_bit 2 (drop_bit 2 p)"
    unfolding m by (rule bit_word_eqI) (auto simp: bit_simps Suc_Suc_diff_2)
  moreover have "unat (push_bit 2 (drop_bit 2 p)) = take_bit 32 (push_bit 2 (unat p div 4))"
    by (simp only: unsigned_push_bit_eq unat_drop_bit_eq) (simp add: drop_bit_eq_div)
  moreover have "4 * (unat p div 4) < 2 ^ 32" using unat32_less [of p] by linarith
  ultimately show ?thesis by (simp add: push_bit_eq_mult take_bit_nat_eq_self mult.commute)
qed

lemma word_base_ge: "4 \<le> (p :: u32) \<Longrightarrow> p AND NOT 3 > 2"
proof -
  assume "4 \<le> p"
  then have "4 \<le> unat p" by (simp add: word_le_nat_alt)
  then have "2 < 4 * (unat p div 4)" by presburger
  then show ?thesis by (simp only: word_less_nat_alt unat_word_base) simp
qed

lemma ge_4_gt_2: "4 \<le> (p :: u32) \<Longrightarrow> p > 2 \<and> p \<noteq> 1"
  by (auto simp: word_le_nat_alt word_less_nat_alt)

lemma simLoadData_mapped:
  "virtualToPhysicalD m a > 2 \<Longrightarrow>
   simLoadData m a = (0, Some (load_word (mem m) (virtualToPhysicalD m a)), m)"
  by (simp add: simLoadData_def guestLoadD_def Let_def guestLoad_def)

definition stored :: "machine \<Rightarrow> u32 \<Rightarrow> (u32 \<Rightarrow> u8) \<Rightarrow> machine" where
  "stored m p b = m\<lparr>hspr := (hspr m)(SPR_DCBFR := p, SPR_ICBIR := p), mem := b\<rparr>"

text \<open>\<open>quiet m m'\<close>: no register of the hardware changed but the two that flush a cache line.\<close>

definition quiet :: "machine \<Rightarrow> machine \<Rightarrow> bool" where
  "quiet m m' \<longleftrightarrow> (\<forall>r. r \<noteq> SPR_DCBFR \<longrightarrow> r \<noteq> SPR_ICBIR \<longrightarrow> hspr m' r = hspr m r)"

lemma set_index_le: "(x :: u32) AND 63 \<le> 63"
  by (simp add: word_and_le1)

lemma tlb_register_not_flush:
  "SPR_DTLBMR_BASE 0 + (x AND 63) \<noteq> SPR_DCBFR" "SPR_DTLBMR_BASE 0 + (x AND 63) \<noteq> SPR_ICBIR"
  "SPR_DTLBTR_BASE 0 + (x AND 63) \<noteq> SPR_DCBFR" "SPR_DTLBTR_BASE 0 + (x AND 63) \<noteq> SPR_ICBIR"
proof -
  have ne: "k + (x AND 63) \<noteq> c" if "c - k > 63" for k c :: u32
    using set_index_le [of x] that by (metis add_diff_cancel_left' leD)
  show "SPR_DTLBMR_BASE 0 + (x AND 63) \<noteq> SPR_DCBFR" "SPR_DTLBMR_BASE 0 + (x AND 63) \<noteq> SPR_ICBIR"
    "SPR_DTLBTR_BASE 0 + (x AND 63) \<noteq> SPR_DCBFR" "SPR_DTLBTR_BASE 0 + (x AND 63) \<noteq> SPR_ICBIR"
    by (rule ne, simp add: spr_defs)+
qed

lemma v2pD_quiet:
  assumes "cpu m' = cpu m" "quiet m m'"
  shows "virtualToPhysicalD m' a = virtualToPhysicalD m a"
  using assms tlb_register_not_flush [of "drop_bit 13 a"]
  by (simp add: virtualToPhysicalD_def NUM_WAYS_def NUM_SETS_WAY_def Let_def getSPR_def quiet_def)

lemma quiet_stored [simp]: "quiet m (stored m p b)" "cpu (stored m p b) = cpu m" "mem (stored m p b) = b"
  by (simp_all add: quiet_def stored_def)

lemma simStoreData_mapped:
  assumes "virtualToPhysicalD m a > 2"
  defines "p \<equiv> virtualToPhysicalD m a"
  shows "simStoreData m a v = (0, stored m p (store_word (mem m) p v))"
  using assms(1)
  by (simp add: simStoreData_def guestStoreD_def Let_def flushCaches_def setSPR_def getSPR_def
      guestStore_def stored_def flip: p_def)

lemma word_around_mapped:
  assumes "4 \<le> virtualToPhysicalD m a"
  shows "virtualToPhysicalD m (a AND NOT 3) = virtualToPhysicalD m a AND NOT 3"
    and "virtualToPhysicalD m (a AND NOT 3) > 2"
    and "a AND 3 = virtualToPhysicalD m a AND 3"
proof -
  have n: "virtualToPhysicalD m a \<noteq> 1" using ge_4_gt_2 [OF assms] by simp
  show w: "virtualToPhysicalD m (a AND NOT 3) = virtualToPhysicalD m a AND NOT 3"
    by (rule dmmu.word_around [OF n])
  show "virtualToPhysicalD m (a AND NOT 3) > 2" unfolding w by (rule word_base_ge [OF assms])
  show "a AND 3 = virtualToPhysicalD m a AND 3" using dmmu.offset_kept [OF n] by simp
qed

lemma and_1_of_and_3: "(a :: u32) AND 3 = b AND 3 \<Longrightarrow> a AND 1 = b AND 1"
proof -
  have "x AND 1 = (x AND 3) AND 1" for x :: u32 by (simp add: and.assoc)
  then show "a AND 3 = b AND 3 \<Longrightarrow> a AND 1 = b AND 1" by metis
qed

lemma aligned_word_base: "(a :: u32) AND 3 = 0 \<Longrightarrow> a AND NOT 3 = a"
proof -
  have "a = (a AND NOT 3) OR (a AND 3)" by (rule bit_word_eqI) (auto simp: bit_simps)
  then show "a AND 3 = 0 \<Longrightarrow> a AND NOT 3 = a" by simp
qed

text \<open>The five loads, on the bytes of physical memory.\<close>

definition half_at :: "(u32 \<Rightarrow> u8) \<Rightarrow> u32 \<Rightarrow> u32" where
  "half_at f p = push_bit 8 (ucast (f p)) OR ucast (f (p + 1))"

lemma lwz_bytes:
  assumes "virtualToPhysicalD m (calc_ea (cpu m) t) > 2" "calc_ea (cpu m) t AND 3 = 0"
  shows "l_lwz m t = set_rD m t (load_word (mem m) (virtualToPhysicalD m (calc_ea (cpu m) t)))"
  using assms by (simp add: l_lwz_def Let_def simLoadData_mapped loaded_def)

lemma load_part_bytes:
  assumes "4 \<le> virtualToPhysicalD m ea"
  defines "p \<equiv> virtualToPhysicalD m ea"
  shows "simLoadData m (ea AND NOT 3) = (0, Some (load_word (mem m) (p AND NOT 3)), m)"
    and "byte_of_word ea (load_word (mem m) (p AND NOT 3)) = ucast (mem m p)"
    and "ea AND 1 = 0 \<Longrightarrow> half_of_word ea (load_word (mem m) (p AND NOT 3)) = half_at (mem m) p"
proof -
  note w = word_around_mapped [OF assms(1), folded p_def]
  show "simLoadData m (ea AND NOT 3) = (0, Some (load_word (mem m) (p AND NOT 3)), m)"
    using simLoadData_mapped [OF w(2)] unfolding w(1) .
  show "byte_of_word ea (load_word (mem m) (p AND NOT 3)) = ucast (mem m p)"
    unfolding byte_parts_cong(1) [OF w(3)] by (rule byte_of_load_word)
  show "half_of_word ea (load_word (mem m) (p AND NOT 3)) = half_at (mem m) p" if "ea AND 1 = 0"
    unfolding byte_parts_cong(3) [OF w(3)] half_at_def
    by (rule half_of_load_word) (use and_1_of_and_3 [OF w(3)] that in simp)
qed

lemma lbz_bytes:
  assumes "4 \<le> virtualToPhysicalD m (calc_ea (cpu m) t)"
  shows "l_lbz m t = set_rD m t (ucast (mem m (virtualToPhysicalD m (calc_ea (cpu m) t))))"
  using ge_4_gt_2 [OF assms]
  by (simp add: l_lbz_def Let_def loaded_def asm_lbz_def load_part_bytes(1,2) [OF assms, simplified])

lemma sign_extend_byte: "sign_extend (ucast (b :: u8)) 7 = scast b"
proof -
  have f: "take_bit (Suc (unat (7 :: u32))) (ucast b :: u32) = ucast b"
    by (rule bit_word_eqI) (auto simp: bit_simps dest: bit_imp_le_length [where 'a = 8, simplified])
  have "sign_extend (ucast b) 7 = signed_take_bit 7 (ucast b :: u32)"
    using sign_extend_signed_take_bit [OF _ f] by simp
  also have "\<dots> = scast b"
    by (rule bit_word_eqI) (auto simp: bit_signed_take_bit_iff bit_simps min_def)
  finally show ?thesis .
qed

lemma lbs_bytes:
  assumes "4 \<le> virtualToPhysicalD m (calc_ea (cpu m) t)"
  shows "l_lbs m t = set_rD m t (scast (mem m (virtualToPhysicalD m (calc_ea (cpu m) t))))"
  using ge_4_gt_2 [OF assms]
  by (simp add: l_lbs_def Let_def loaded_def asm_lbs_def load_part_bytes(1,2) [OF assms, simplified]
      sign_extend_byte)

lemma lhz_bytes:
  assumes "4 \<le> virtualToPhysicalD m (calc_ea (cpu m) t)" "calc_ea (cpu m) t AND 1 = 0"
  shows "l_lhz m t = set_rD m t (half_at (mem m) (virtualToPhysicalD m (calc_ea (cpu m) t)))"
  using load_part_bytes(1,3) [OF assms(1)] assms(2)
  by (simp add: l_lhz_def Let_def loaded_def)

lemma lhs_bytes:
  assumes "4 \<le> virtualToPhysicalD m (calc_ea (cpu m) t)" "calc_ea (cpu m) t AND 1 = 0"
  shows "l_lhs m t =
    set_rD m t (signed_take_bit 15 (half_at (mem m) (virtualToPhysicalD m (calc_ea (cpu m) t))))"
proof -
  have "signed_take_bit 15 (if a AND 2 = 0 then drop_bit 16 w else w) = signed_take_bit 15 (half_of_word a w)"
    for a w unfolding half_of_word_def and_ffff by (simp add: signed_take_bit_take_bit)
  then show ?thesis
    unfolding l_lhs_def Let_def loaded_def sign_extend_half load_part_bytes(1) [OF assms(1)]
    using load_part_bytes(3) [OF assms] assms(2) by (simp only: prod.case option.case if_True if_False simp_thms)
qed

text \<open>The three stores: each changes the addressed bytes and the cache-maintenance registers only.\<close>

lemma sw_bytes:
  assumes "virtualToPhysicalD m (calc_ea (cpu m) t) > 2" "calc_ea (cpu m) t AND 3 = 0"
  defines "p \<equiv> virtualToPhysicalD m (calc_ea (cpu m) t)"
  shows "l_sw m t = stored m p (store_word (mem m) p (cpu_get_gpr (cpu m) (rB t)))"
  using assms by (simp add: l_sw_def Let_def simStoreData_mapped)

lemma sb_bytes:
  assumes "4 \<le> virtualToPhysicalD m (calc_ea (cpu m) t)"
  defines "p \<equiv> virtualToPhysicalD m (calc_ea (cpu m) t)"
  shows "cpu (l_sb m t) = cpu m \<and> quiet m (l_sb m t) \<and>
    mem (l_sb m t) = (mem m)(p := ucast (cpu_get_gpr (cpu m) (rB t)))"
proof (cases "drop_bit 27 p = 0")
  case True
  note w = word_around_mapped [OF assms(1), folded p_def]
  note st = simStoreData_mapped [OF word_around_mapped(2) [OF assms(1)], unfolded w(1), folded p_def]
  have "l_sb m t = stored m (p AND NOT 3) (store_word (mem m) (p AND NOT 3)
      (put_byte (calc_ea (cpu m) t) (load_word (mem m) (p AND NOT 3)) (cpu_get_gpr (cpu m) (rB t))))"
    unfolding l_sb_def Let_def p_def [symmetric] load_part_bytes(1) [OF assms(1), folded p_def] 
    using ge_4_gt_2 [OF assms(1)] st True by (simp add: loaded_def flip: p_def)
  then show ?thesis
    unfolding byte_parts_cong(2) [OF w(3)] store_byte_bytes by (simp add: stored_def quiet_def)
next
  case False
  then show ?thesis
    using ge_4_gt_2 [OF assms(1)] by (simp add: l_sb_def Let_def asm_sb_def quiet_def flip: p_def)
qed

lemma sh_bytes:
  assumes "4 \<le> virtualToPhysicalD m (calc_ea (cpu m) t)" "calc_ea (cpu m) t AND 1 = 0"
  defines "p \<equiv> virtualToPhysicalD m (calc_ea (cpu m) t)"
    and "v \<equiv> cpu_get_gpr (cpu m) (rB t)"
  shows "l_sh m t = stored m (p AND NOT 3) ((mem m)(p := ucast (drop_bit 8 v), p + 1 := ucast v))"
proof -
  note w = word_around_mapped [OF assms(1), folded p_def]
  note st = simStoreData_mapped [OF word_around_mapped(2) [OF assms(1)], unfolded w(1), folded p_def]
  have p1: "p AND 1 = 0" using and_1_of_and_3 [OF w(3)] assms(2) by simp
  have "l_sh m t = stored m (p AND NOT 3) (store_word (mem m) (p AND NOT 3)
      (put_half (calc_ea (cpu m) t) (load_word (mem m) (p AND NOT 3)) v))"
    unfolding l_sh_def Let_def load_part_bytes(1) [OF assms(1), folded p_def]
    using st assms(2) by (simp add: loaded_def v_def)
  then show ?thesis
    unfolding byte_parts_cong(4) [OF w(3)] store_half_bytes [OF p1] .
qed

section \<open>Properties of loads and stores\<close>

text \<open>A machine for the witnesses: the sample processor, MMUs off, memory all zero.\<close>

definition sample_machine :: "u32 \<Rightarrow> u32 \<Rightarrow> machine" where
  "sample_machine x y = \<lparr>cpu = sample_cpu x y 0, hspr = (\<lambda>_. 0), mem = (\<lambda>_. 0), uninit = 0\<rparr>"

lemma sample_machine_fields [simp]:
  "cpu (sample_machine x y) = sample_cpu x y 0" "mem (sample_machine x y) = (\<lambda>_. 0)"
  "virtualToPhysicalD (sample_machine x y) a = a" "virtualToPhysicalI (sample_machine x y) a = a"
  by (simp_all add: sample_machine_def virtualToPhysicalD_def virtualToPhysicalI_def sample_cpu_def
      cpu_init0_def cpu_initvars_def cpu_zero_def cpu_defs cpu_is_set_sr_flag_def)

lemmas ea_eval = calc_ea_def decode_eval exts_def sign_extend_def IS_BIT_SET_def c_shl_def

text \<open>
  C2. A load whose address translates to a physical address \<open>p\<close> of 4 or more delivers the big-endian
  word, half-word or byte at \<open>p\<close>, zero- or sign-extended as the instruction says, and changes the
  destination register only; the byte loads take the word path below 128 MB and the byte
  instructions above, with the same result.
\<close>

theorem loads_read_memory:
  fixes m t
  defines "ea \<equiv> calc_ea (cpu m) t"
  defines "p \<equiv> virtualToPhysicalD m ea"
  assumes "4 \<le> p"
  shows "(ea AND 3 = 0 \<longrightarrow> l_lwz m t = set_rD m t (load_word (mem m) p)) \<and>
    (ea AND 1 = 0 \<longrightarrow> l_lhz m t = set_rD m t (half_at (mem m) p)) \<and>
    (ea AND 1 = 0 \<longrightarrow> l_lhs m t = set_rD m t (signed_take_bit 15 (half_at (mem m) p))) \<and>
    l_lbz m t = set_rD m t (ucast (mem m p)) \<and> l_lbs m t = set_rD m t (scast (mem m p))"
  using assms(3) ge_4_gt_2 [OF assms(3)] unfolding p_def ea_def
  by (simp add: lwz_bytes lhz_bytes lhs_bytes lbz_bytes lbs_bytes)

theorem loads_read_memory_witness:
  "l_lbz (sample_machine 0x1000 7) (decode 0x8C640003) = set_rD (sample_machine 0x1000 7) (decode 0x8C640003) 0"
  using loads_read_memory [of "sample_machine 0x1000 7" "decode 0x8C640003"]
  by (simp add: ea_eval)

text \<open>
  C1. A store whose address translates to a physical address \<open>p\<close> of 4 or more writes exactly the
  four, two or one bytes at \<open>p\<close>, big-endian, and nothing else: not the simulated processor, not any
  other byte, and of the hardware's registers only the two that flush a cache line; the status
  register the store switches off the caches in is restored.
\<close>

theorem stores_write_memory:
  fixes m t
  defines "ea \<equiv> calc_ea (cpu m) t" and "v \<equiv> cpu_get_gpr (cpu m) (rB t)"
  defines "p \<equiv> virtualToPhysicalD m ea"
  assumes "4 \<le> p"
  shows "(ea AND 3 = 0 \<longrightarrow> cpu (l_sw m t) = cpu m \<and> quiet m (l_sw m t) \<and> mem (l_sw m t) = store_word (mem m) p v) \<and>
    (ea AND 1 = 0 \<longrightarrow> cpu (l_sh m t) = cpu m \<and> quiet m (l_sh m t) \<and>
      mem (l_sh m t) = (mem m)(p := ucast (drop_bit 8 v), p + 1 := ucast v)) \<and>
    cpu (l_sb m t) = cpu m \<and> quiet m (l_sb m t) \<and> mem (l_sb m t) = (mem m)(p := ucast v)"
  using assms(4) ge_4_gt_2 [OF assms(4)] unfolding p_def ea_def v_def
  by (simp add: sw_bytes sh_bytes sb_bytes)

theorem stores_write_memory_witness:
  "mem (l_sb (sample_machine 0x1000 7) (decode 0xD8042803)) = (\<lambda>_. 0)(0x1003 := 7)"
  using stores_write_memory [of "sample_machine 0x1000 7" "decode 0xD8042803"]
  by (simp add: ea_eval)

text \<open>
  C3. A store followed by a load of the same size from the same address returns what was stored:
  the word, the low half-word (zero- or sign-extended), the low byte (zero- or sign-extended).
\<close>

theorem store_then_load:
  fixes m s l
  defines "ea \<equiv> calc_ea (cpu m) s" and "v \<equiv> cpu_get_gpr (cpu m) (rB s)"
  assumes "4 \<le> virtualToPhysicalD m ea" "calc_ea (cpu m) l = ea"
  shows "(ea AND 3 = 0 \<longrightarrow> l_lwz (l_sw m s) l = set_rD (l_sw m s) l v) \<and>
    (ea AND 1 = 0 \<longrightarrow> l_lhz (l_sh m s) l = set_rD (l_sh m s) l (take_bit 16 v) \<and>
      l_lhs (l_sh m s) l = set_rD (l_sh m s) l (signed_take_bit 15 v)) \<and>
    l_lbz (l_sb m s) l = set_rD (l_sb m s) l (take_bit 8 v) \<and>
    l_lbs (l_sb m s) l = set_rD (l_sb m s) l (signed_take_bit 7 v)"
proof -
  let ?p = "virtualToPhysicalD m ea"
  have ea: "4 \<le> virtualToPhysicalD m (calc_ea (cpu m) s)" "4 \<le> virtualToPhysicalD m (calc_ea (cpu m) l)"
    using assms by simp_all
  note gt = ge_4_gt_2 [OF assms(3)]
  have b: "cpu (l_sb m s) = cpu m" "virtualToPhysicalD (l_sb m s) a = virtualToPhysicalD m a"
    "mem (l_sb m s) = (mem m)(?p := ucast v)" for a
    using sb_bytes [OF ea(1)] by (simp_all add: v2pD_quiet ea_def v_def)
  have byte: "take_bit 8 v = ucast (ucast v :: u8)" "signed_take_bit 7 v = scast (ucast v :: u8)"
    by (auto intro!: bit_word_eqI simp: bit_simps bit_signed_take_bit_iff min_def)
  have h: "half_at ((mem m)(?p := ucast (drop_bit 8 v), ?p + 1 := ucast v)) ?p = take_bit 16 v"
    unfolding half_at_def by (auto intro!: bit_word_eqI simp: bit_simps)
  have lb: "l_lbz (l_sb m s) l = set_rD (l_sb m s) l (take_bit 8 v)"
    "l_lbs (l_sb m s) l = set_rD (l_sb m s) l (signed_take_bit 7 v)"
    using lbz_bytes [of "l_sb m s" l] lbs_bytes [of "l_sb m s" l] b assms(3,4) byte by simp_all
  have lw: "l_lwz (l_sw m s) l = set_rD (l_sw m s) l v" if "ea AND 3 = 0"
    using sw_bytes [of m s] gt that assms(4)
      lwz_bytes [of "l_sw m s" l] by (simp add: v2pD_quiet load_store_word_same ea_def v_def)
  have lh: "l_lhz (l_sh m s) l = set_rD (l_sh m s) l (take_bit 16 v)"
    "l_lhs (l_sh m s) l = set_rD (l_sh m s) l (signed_take_bit 15 v)" if "ea AND 1 = 0"
    using sh_bytes [OF ea(1)] that assms(3,4) h
      lhz_bytes [of "l_sh m s" l] lhs_bytes [of "l_sh m s" l]
    by (simp_all add: v2pD_quiet ea_def v_def signed_take_bit_take_bit)
  show ?thesis using lb lw lh by blast
qed

theorem store_then_load_witness:
  "l_lhs (l_sh (sample_machine 0x1000 0xfffe) (decode 0xDC042802)) (decode 0x98640002) =
   set_rD (l_sh (sample_machine 0x1000 0xfffe) (decode 0xDC042802)) (decode 0x98640002) (- 2)"
proof -
  have "signed_take_bit 15 (0xfffe :: u32) = - 2" by code_simp
  then show ?thesis
    using store_then_load [of "sample_machine 0x1000 0xfffe" "decode 0xDC042802" "decode 0x98640002"]
    by (simp add: ea_eval)
qed

lemma miss_facts:
  "virtualToPhysicalD m a = 1 \<Longrightarrow> simLoadData m a = (1, None, m\<lparr>cpu := dataTLBMiss (cpu m) a\<rparr>)"
  "virtualToPhysicalD m a = 1 \<Longrightarrow> simStoreData m a v = (1, m\<lparr>cpu := dataTLBMiss (cpu m) a\<rparr>)"
  by (simp_all add: simLoadData_def guestLoadD_def simStoreData_def guestStoreD_def Let_def)

text \<open>
  A misaligned word or half-word access raises the alignment exception and an access whose page
  is not in the TLB raises the data TLB miss, each with the faulting address in EEAR (the address
  of the word, for half-words); memory and the hardware's registers do not change, whether the
  access is a load or a store.
\<close>

lemma access_faults:
  fixes m t
  defines "ea \<equiv> calc_ea (cpu m) t"
  defines "align \<equiv> m\<lparr>cpu := alignment_exception (cpu m) ea\<rparr>"
    and "miss \<equiv> (\<lambda>a. m\<lparr>cpu := dataTLBMiss (cpu m) a\<rparr>)"
  shows "(ea AND 3 \<noteq> 0 \<longrightarrow> l_lwz m t = align \<and> l_sw m t = align) \<and>
    (ea AND 1 \<noteq> 0 \<longrightarrow> l_lhz m t = align \<and> l_lhs m t = align \<and> l_sh m t = align) \<and>
    (virtualToPhysicalD m ea = 1 \<longrightarrow> l_lbz m t = miss ea \<and> l_lbs m t = miss ea \<and> l_sb m t = miss ea) \<and>
    (virtualToPhysicalD m ea = 1 \<and> ea AND 3 = 0 \<longrightarrow> l_lwz m t = miss ea \<and> l_sw m t = miss ea) \<and>
    (virtualToPhysicalD m (ea AND NOT 3) = 1 \<and> ea AND 1 = 0 \<longrightarrow>
      l_lhz m t = miss (ea AND NOT 3) \<and> l_lhs m t = miss (ea AND NOT 3) \<and> l_sh m t = miss (ea AND NOT 3)) \<and>
    (\<forall>a. eear (cpu align) = ea \<and> eear (cpu (miss a)) = a)"
  unfolding align_def miss_def ea_def
  by (simp add: l_lwz_def l_lhz_def l_lhs_def l_lbz_def l_lbs_def l_sw_def l_sb_def l_sh_def Let_def
      miss_facts alignment_exception_def dataTLBMiss_def)

lemma access_faults_witness:
  "l_sw (sample_machine 0x1000 7) (decode 0xD4042802) =
   (sample_machine 0x1000 7)\<lparr>cpu := alignment_exception (sample_cpu 0x1000 7 0) 0x1002\<rparr>"
  using access_faults [of "sample_machine 0x1000 7" "decode 0xD4042802"]
  by (simp add: ea_eval)

text \<open>
  The translation's return codes share their values with physical addresses 0 and 1, so with the
  MMU off a word store to address 0 is dropped and reports success, a word load from it delivers the
  indeterminate content of a local variable, and a byte access at address 1 raises a data TLB miss.
\<close>

lemma address_code_collision:
  assumes "\<not> cpu_get_dme (cpu m)"
  shows "(calc_ea (cpu m) t = 0 \<longrightarrow> l_sw m t = m \<and> l_lwz m t = set_rD m t (uninit m)) \<and>
    (calc_ea (cpu m) t = 1 \<longrightarrow> l_lbz m t = m\<lparr>cpu := dataTLBMiss (cpu m) 1\<rparr> \<and>
      l_sb m t = m\<lparr>cpu := dataTLBMiss (cpu m) 1\<rparr>)"
  using assms
  by (simp add: l_lwz_def l_sw_def l_lbz_def l_sb_def Let_def virtualToPhysicalD_def simLoadData_def
      simStoreData_def guestLoadD_def guestStoreD_def loaded_def)

lemma address_code_collision_witness:
  "l_sw (sample_machine 0 7) (decode 0xD4042800) = sample_machine 0 7"
proof -
  have "\<not> cpu_get_dme (cpu (sample_machine 0 7))"
    by (simp add: sample_machine_def sample_cpu_def cpu_init0_def cpu_initvars_def cpu_zero_def
        cpu_defs cpu_is_set_sr_flag_def)
  then show ?thesis
    using address_code_collision [of "sample_machine 0 7" "decode 0xD4042800"] by (simp add: ea_eval)
qed

end
