(* ===== verification/Execute_Spec.thy ===== *)
theory Execute_Spec
  imports Execute Mem_Spec
begin

unbundle bit_operations_syntax

text \<open>
  Properties of one simulated instruction as a whole: \<^verbatim>\<open>cpu_exec_inst\<close> keeps the register-file
  invariant, returns exactly for the implemented instructions, touches memory only for stores,
  raises privilege only through the architecture's doors, and follows the delay-slot discipline.
\<close>

section \<open>Well-formedness\<close>

lemma cpu_set_rD [simp]: "cpu (set_rD m t v) = cpu_set_gpr (cpu m) (rD t) v"
  "mem (set_rD m t v) = mem m" "hspr (set_rD m t v) = hspr m"
  by (simp_all add: set_rD_def)

text \<open>What a guest access can do to the simulated processor: nothing, or a data TLB miss.\<close>

definition access_outcome :: "CPU \<Rightarrow> CPU \<Rightarrow> bool" where
  "access_outcome c d \<longleftrightarrow> d = c \<or> (\<exists>ea. d = dataTLBMiss c ea \<or> d = alignment_exception c ea)"

lemma access_outcome_intros [simp, intro]:
  "access_outcome c c" "access_outcome c (dataTLBMiss c ea)" "access_outcome c (alignment_exception c ea)"
  by (auto simp: access_outcome_def)

lemma simLoadData_cases:
  obtains (ok) v where "simLoadData m a = (0, v, m)"
  | (fault) r v m' where "simLoadData m a = (r, v, m')" "r \<noteq> 0" "access_outcome (cpu m) (cpu m')"
      "mem m' = mem m" "hspr m' = hspr m"
proof (cases "simLoadData m a")
  case (fields r v m')
  then show ?thesis
    using that by (auto simp: simLoadData_def Let_def split: prod.splits if_splits)
qed

lemma cpu_guestStoreD: "cpu (snd (guestStoreD m a v)) = cpu m"
  by (simp add: guestStoreD_def Let_def flushCaches_def setSPR_def guestStore_def)

lemma cpu_simStoreData [simp]: "access_outcome (cpu m) (cpu (snd (simStoreData m a v)))"
  using cpu_guestStoreD [of m a v] by (auto simp: simStoreData_def Let_def split: prod.splits)

text \<open>The loads set a register or fault; the stores fault or leave the processor alone.\<close>

lemma part_load_outcome:
  assumes "f \<in> {l_lbz, l_lbs, l_lhz, l_lhs}"
  shows "((\<exists>v. cpu (f m t) = cpu_set_gpr (cpu m) (rD t) v) \<or> access_outcome (cpu m) (cpu (f m t))) \<and>
    mem (f m t) = mem m \<and> hspr (f m t) = hspr m"
  using assms
  by (cases rule: simLoadData_cases [of m "calc_ea (cpu m) t AND NOT 3"])
    (auto simp: l_lbz_def l_lbs_def l_lhz_def l_lhs_def Let_def)

lemma lwz_outcome:
  "((\<exists>v. cpu (l_lwz m t) = cpu_set_gpr (cpu m) (rD t) v) \<or> access_outcome (cpu m) (cpu (l_lwz m t))) \<and>
    mem (l_lwz m t) = mem m \<and> hspr (l_lwz m t) = hspr m"
  by (cases rule: simLoadData_cases [of m "calc_ea (cpu m) t"]) (auto simp: l_lwz_def Let_def)

lemma load_outcome:
  assumes "f \<in> {l_lwz, l_lbz, l_lbs, l_lhz, l_lhs}"
  shows "((\<exists>v. cpu (f m t) = cpu_set_gpr (cpu m) (rD t) v) \<or> access_outcome (cpu m) (cpu (f m t))) \<and>
    mem (f m t) = mem m \<and> hspr (f m t) = hspr m"
  using assms part_load_outcome [of f m t] lwz_outcome [of m t] by auto

lemma store_outcome:
  assumes "f \<in> {l_sw, l_sb, l_sh}"
  shows "access_outcome (cpu m) (cpu (f m t))"
  using assms
  by (cases rule: simLoadData_cases [of m "calc_ea (cpu m) t AND NOT 3"])
    (auto simp: l_sw_def l_sb_def l_sh_def Let_def asm_sb_def)

lemma wf_access: "access_outcome c d \<Longrightarrow> wf_cpu d = wf_cpu c"
  by (auto simp: access_outcome_def dtlb.wf_enter align.wf_enter)

lemma cpu_setSPR [simp]: "cpu (setSPR m r v) = cpu m" "mem (setSPR m r v) = mem m"
  by (simp_all add: setSPR_def)

lemma wf_mtspr: "wf_cpu (cpu (or32_mtspr m t)) = wf_cpu (cpu m)"
  by (simp add: or32_mtspr_def cpu_set_spr_def cpu_set_spr_case_def)

lemma wf_memory_inst:
  assumes "wf_cpu (cpu m)"
  shows "wf_cpu (cpu (l_lwz m t))" "wf_cpu (cpu (l_lbz m t))" "wf_cpu (cpu (l_lbs m t))"
    "wf_cpu (cpu (l_lhz m t))" "wf_cpu (cpu (l_lhs m t))" "wf_cpu (cpu (l_sw m t))"
    "wf_cpu (cpu (l_sb m t))" "wf_cpu (cpu (l_sh m t))" "wf_cpu (cpu (or32_mfspr m t))"
  using assms load_outcome [of l_lwz m t] load_outcome [of l_lbz m t] load_outcome [of l_lbs m t]
    load_outcome [of l_lhz m t] load_outcome [of l_lhs m t] store_outcome [of l_sw m t]
    store_outcome [of l_sb m t] store_outcome [of l_sh m t]
  by (auto simp: wf_access or32_mfspr_def)

lemma check_slot_id [simp]: "check_slot m = m" "BAIL m = m"
  by (simp_all add: check_slot_def BAIL_def)

lemma on_cpu_simps:
  "on_cpu f m t = Some m' \<longleftrightarrow> m' = m\<lparr>cpu := f (cpu m) t\<rparr>"
  "on_cpu_opt g m t = Some m' \<longleftrightarrow> (\<exists>c. g (cpu m) t = Some c \<and> m' = m\<lparr>cpu := c\<rparr>)"
  by (auto simp: on_cpu_def on_cpu_opt_def)

text \<open>
  The switch is a chain of about thirty guards. A property of its result is established once for
  all from the groups of handlers: those on the processor, the dispatchers, the loads and moves,
  the stores, and the two that write the status register directly.
\<close>

definition cpu_handlers :: "(CPU \<Rightarrow> control \<Rightarrow> CPU) set" where
  "cpu_handlers = {l_j, l_jal, l_jalr, l_bf, l_bnf, l_jr, l_addi, l_addic, l_ori, l_maci, macrc_movhi,
     l_muli, l_andi, l_xori}"

definition cpu_dispatchers :: "(CPU \<Rightarrow> control \<Rightarrow> CPU option) set" where
  "cpu_dispatchers = {l_sfi, alu, mac_msb, l_sf, ro_shift_i, sys_trap_sync}"

definition reading_handlers :: "(machine \<Rightarrow> control \<Rightarrow> machine) set" where
  "reading_handlers = {or32_nop, l_lbz, l_lhz, l_lbs, l_lhs, l_lwz, or32_mfspr}"

definition store_handlers :: "(machine \<Rightarrow> control \<Rightarrow> machine) set" where
  "store_handlers = {l_sw, l_sb, l_sh}"

lemma execute_switch_outcome:
  assumes "execute_switch op m t = Some m'"
  shows "(\<exists>f\<in>cpu_handlers. m' = m\<lparr>cpu := f (cpu m) t\<rparr>) \<or>
    (\<exists>g\<in>cpu_dispatchers. \<exists>c. g (cpu m) t = Some c \<and> m' = m\<lparr>cpu := c\<rparr>) \<or>
    (\<exists>h\<in>reading_handlers. m' = h m t) \<or>
    (\<exists>h\<in>store_handlers. m' = h m t) \<and> op \<in> {OP_SW, OP_SB, OP_SH} \<or>
    op = OP_MTSPR \<and> m' = or32_mtspr m t \<or> op = OP_RFE \<and> m' = m\<lparr>cpu := l_rfe (cpu m)\<rparr>"
  using assms unfolding execute_switch_def check_slot_id cpu_handlers_def cpu_dispatchers_def
    reading_handlers_def store_handlers_def
  by (elim if_SomeE) (simp_all add: on_cpu_simps unimpl_def)

lemma execute_switch_cases:
  assumes "execute_switch op m t = Some m'"
  obtains (handler) f where "f \<in> cpu_handlers" "m' = m\<lparr>cpu := f (cpu m) t\<rparr>"
  | (dispatch) g c where "g \<in> cpu_dispatchers" "g (cpu m) t = Some c" "m' = m\<lparr>cpu := c\<rparr>"
  | (reading) h where "h \<in> reading_handlers" "m' = h m t"
  | (store) h where "h \<in> store_handlers" "m' = h m t" "op \<in> {OP_SW, OP_SB, OP_SH}"
  | (mtspr) "op = OP_MTSPR" "m' = or32_mtspr m t"
  | (rfe) "op = OP_RFE" "m' = m\<lparr>cpu := l_rfe (cpu m)\<rparr>"
  using execute_switch_outcome [OF assms] by (elim disjE bexE exE conjE)

lemma wf_execute_switch:
  assumes "wf_cpu (cpu m)" "execute_switch op m t = Some m'"
  shows "wf_cpu (cpu m')"
  using assms(2)
proof (cases rule: execute_switch_cases)
  case (handler f)
  then show ?thesis using assms(1) by (auto simp: cpu_handlers_def wf_arith_inst wf_logic_inst)
next
  case (dispatch g c)
  then show ?thesis using assms(1) by (auto simp: cpu_dispatchers_def intro: wf_dispatch wf_alu)
next
  case (reading h)
  then show ?thesis using assms(1) by (auto simp: reading_handlers_def wf_memory_inst or32_nop_def)
next
  case (store h)
  then show ?thesis using assms(1) by (auto simp: store_handlers_def wf_memory_inst)
qed (use assms(1) in \<open>simp_all add: wf_mtspr l_rfe_def\<close>)

lemma fetch_cpu:
  "cpu (snd (fetch m)) = cpu m \<or> (\<exists>ea. cpu (snd (fetch m)) = instructionTLBMiss (cpu m) ea \<or>
     cpu (snd (fetch m)) = instructionPageFault (cpu m) ea)"
  "mem (snd (fetch m)) = mem m" "hspr (snd (fetch m)) = hspr m"
  by (auto simp: fetch_def Let_def split: prod.splits)

lemma wf_fetch: "wf_cpu (cpu (snd (fetch m))) = wf_cpu (cpu m)"
  using fetch_cpu(1) [of m] by (auto simp: itlb.wf_enter ipf.wf_enter)

lemma cpu_exec_inst_cases:
  assumes "cpu_exec_inst m = Some m'"
  obtains "fst (fetch m) = 0xdeadbeef" "m' = advance (snd (fetch m))"
  | m1 where "fst (fetch m) \<noteq> 0xdeadbeef" "m' = advance m1"
      "execute_switch (OPCODE (fst (fetch m))) (snd (fetch m)) (decode (fst (fetch m))) = Some m1"
  using assms by (auto simp: cpu_exec_inst_def Let_def case_prod_unfold execute_def split: if_splits)

lemma wf_cpu_exec_inst:
  assumes "wf_cpu (cpu m)" "cpu_exec_inst m = Some m'"
  shows "wf_cpu (cpu m')"
  using assms(2) by (cases rule: cpu_exec_inst_cases)
    (use assms(1) in \<open>auto simp: advance_def wf_fetch dest: wf_execute_switch [rotated]\<close>)

section \<open>Memory\<close>

lemma mem_reading:
  assumes "h \<in> reading_handlers"
  shows "mem (h m t) = mem m" "hspr (h m t) = hspr m"
  using assms load_outcome [of h m t] by (auto simp: reading_handlers_def or32_nop_def or32_mfspr_def)

lemma mem_mtspr: "mem (or32_mtspr m t) = mem m"
  by (simp add: or32_mtspr_def cpu_set_spr_def split: option.split)

lemma mem_execute_switch:
  assumes "execute_switch op m t = Some m'" "op \<notin> {OP_SW, OP_SB, OP_SH}"
  shows "mem m' = mem m" and "op \<noteq> OP_MTSPR \<Longrightarrow> hspr m' = hspr m"
  using assms(1)
  by (cases rule: execute_switch_cases; use assms(2) in \<open>simp_all add: mem_reading mem_mtspr\<close>)+

lemma advance_fields [simp]: "mem (advance m) = mem m" "hspr (advance m) = hspr m"
  "cpu (advance m) = cpu_advance_pc (cpu m)"
  by (simp_all add: advance_def)

section \<open>Privilege\<close>

text \<open>
  \<open>guarded c d\<close>: from \<open>c\<close> to \<open>d\<close> the mode is unchanged, or an exception was entered: supervisor
  mode, at a vector.
\<close>

definition vectors :: "u32 list" where
  "vectors = [0x300, 0x400, 0x600, 0x900, 0xA00, 0xB00, 0xC00, 0xE00, 0xF0000300, 0xF0000400, 0xF0000600,
     0xF0000900, 0xF0000A00, 0xF0000B00, 0xF0000C00, 0xF0000E00]"

definition entered :: "CPU \<Rightarrow> CPU \<Rightarrow> bool" where
  "entered c d \<longleftrightarrow> cpu_get_sm d \<and> npc d \<in> set vectors \<and> branch_pc d = branch_pc c"

definition guarded :: "CPU \<Rightarrow> CPU \<Rightarrow> bool" where
  "guarded c d \<longleftrightarrow> cpu_get_sm d = cpu_get_sm c \<or> entered c d"

lemma entered_exceptions:
  "entered c (alignment_exception c ea)" "entered c (dataTLBMiss c ea)" "entered c (dataPageFault c ea)"
  "entered c (instructionTLBMiss c ea)" "entered c (instructionPageFault c ea)" "entered c (l_sys c)"
  "entered c (l_trap c)"
  by (simp_all add: entered_def vectors_def align.supervisor align.vector align.kept
      dtlb.supervisor dtlb.vector dtlb.kept dpf.supervisor dpf.vector dpf.kept
      itlb.supervisor itlb.vector itlb.kept ipf.supervisor ipf.vector ipf.kept
      sys.supervisor sys.vector sys.kept trap.supervisor trap.vector trap.kept)

lemma guarded_sr: "sr d = sr c \<Longrightarrow> guarded c d"
  by (simp add: guarded_def cpu_get_sm_def cpu_is_set_sr_flag_def)

lemma guarded_arith: "arith_result c r v cy ov d \<Longrightarrow> guarded c d"
  using flag_outside_OVCY [of d c SPR_SR_SM]
  by (auto simp: arith_result_def guarded_def entered_def vectors_def cpu_get_sm_def OVCY_def spr_defs
      split: if_splits)

lemma guarded_f: "guarded c (cpu_set_f c b)"
  by (simp add: guarded_def cpu_defs spr_defs)

lemma guarded_access: "access_outcome c d \<Longrightarrow> guarded c d"
  by (auto simp: access_outcome_def guarded_def entered_exceptions)

lemma sr_same:
  "sr (l_ori c t) = sr c" "sr (l_and c t) = sr c" "sr (l_xor c t) = sr c" "sr (l_xori c t) = sr c"
  "sr (l_or c t) = sr c" "sr (l_andi c t) = sr c" "sr (l_cmov c t) = sr c" "sr (macrc_movhi c t) = sr c"
  "sr (l_bf c t) = sr c" "sr (l_bnf c t) = sr c" "sr (l_j c t) = sr c" "sr (l_jal c t) = sr c"
  "sr (l_maci c t) = sr c" "sr (l_mac c t) = sr c" "sr (l_msb c t) = sr c" "sr (l_ff1 c t) = sr c"
  "sr (l_fl1 c t) = sr c" "sr (l_slli c t) = sr c" "sr (l_srli c t) = sr c" "sr (l_srai c t) = sr c"
  "sr (l_rori c t) = sr c" "sr (l_sll c t) = sr c" "sr (l_srl c t) = sr c" "sr (l_sra c t) = sr c"
  "sr (l_ror c t) = sr c" "sr (l_extws c t) = sr c" "sr (l_extwz c t) = sr c" "sr (l_exths c t) = sr c"
  "sr (l_extbs c t) = sr c" "sr (l_exthz c t) = sr c" "sr (l_extbz c t) = sr c"
  by (simp_all add: inst_defs Let_def cpu_set_lr_def)

lemmas arith_guarded =
  arith_add [THEN guarded_arith] arith_mul [THEN guarded_arith] arith_sub [THEN guarded_arith]
  arith_mulu [THEN guarded_arith] arith_divu [THEN guarded_arith] arith_div [THEN guarded_arith]

lemma guarded_jumps: "guarded c (l_jr c t)" "guarded c (l_jalr c t)"
  by (simp_all add: l_jr_def l_jalr_def Let_def guarded_def entered_exceptions)
    (simp_all add: cpu_defs cpu_is_set_sr_flag_def)

lemma guarded_handlers:
  assumes "wf_cpu c" "f \<in> cpu_handlers"
  shows "guarded c (f c t)"
  using assms(2) unfolding cpu_handlers_def
  by (elim insertE emptyE) (simp_all add: guarded_sr sr_same guarded_jumps arith_guarded assms(1)
      l_addi_def l_addic_def l_muli_def)

lemma guarded_alu:
  assumes "wf_cpu c" "wf_control t" "alu c t = Some d"
  shows "guarded c d"
  using assms(3) unfolding alu_def
  by (elim if_SomeE) (auto simp: unimpl_def guarded_sr sr_same arith_guarded assms l_add_def l_addc_def l_mul_def)

lemma guarded_dispatchers:
  assumes "wf_cpu c" "wf_control t" "g \<in> cpu_dispatchers" "g c t = Some d"
  shows "guarded c d"
proof -
  have "guarded c d" if "l_sf c t = Some d \<or> l_sfi c t = Some d"
  proof -
    have "\<exists>b. d = cpu_set_f c b"
      using that unfolding l_sf_def l_sfi_def
      by (elim disjE; elim if_SomeE) (auto simp: unimpl_def inst_defs)
    then show ?thesis using guarded_f by blast
  qed
  moreover have "guarded c d" if "mac_msb c t = Some d \<or> ro_shift_i c t = Some d"
    using that unfolding mac_msb_def ro_shift_i_def
    by (elim disjE; elim if_SomeE) (auto simp: unimpl_def guarded_sr sr_same)
  moreover have "guarded c d" if "sys_trap_sync c t = Some d"
    using that unfolding sys_trap_sync_def
    by (elim if_SomeE) (auto simp: unimpl_def guarded_def entered_exceptions)
  ultimately show ?thesis using assms(3,4) guarded_alu [OF assms(1,2)] by (auto simp: cpu_dispatchers_def)
qed

lemma guarded_machine_handlers:
  assumes "h \<in> reading_handlers \<union> store_handlers"
  shows "guarded (cpu m) (cpu (h m t))"
  using assms load_outcome [of h m t] store_outcome [of h m t]
  by (auto simp: reading_handlers_def store_handlers_def or32_nop_def or32_mfspr_def guarded_access
      guarded_sr)

lemma guarded_execute_switch:
  assumes "execute_switch op m (decode i) = Some m'" "wf_cpu (cpu m)" "op \<noteq> OP_MTSPR" "op \<noteq> OP_RFE"
  shows "guarded (cpu m) (cpu m')"
  using assms(1)
proof (cases rule: execute_switch_cases)
  case (handler f)
  then show ?thesis using guarded_handlers [OF assms(2)] by simp
next
  case (dispatch g c)
  then show ?thesis using guarded_dispatchers [OF assms(2) wf_control_decode] by simp
qed (use assms(3,4) guarded_machine_handlers in auto)

section \<open>Which instructions are implemented\<close>

definition implemented :: "u32 \<Rightarrow> bool" where
  "implemented i \<longleftrightarrow> can_execute i \<and>
     (OPCODE i = OP_ALU \<longrightarrow> alu_op (decode i) \<in> {ADD_ALU_OP, ADDC_ALU_OP, EXTWS_ALU_OP, EXTWZ_ALU_OP,
        EXTHS_ALU_OP, EXTBS_ALU_OP, EXTBZ_ALU_OP, EXTHZ_ALU_OP, DIVU_ALU_OP, DIV_ALU_OP, FF1_ALU_OP,
        FL1_ALU_OP, MUL_ALU_OP, MULU_ALU_OP, SUB_ALU_OP, AND_ALU_OP, XOR_ALU_OP, SLL_ALU_OP, SRL_ALU_OP,
        SRA_ALU_OP, ROR_ALU_OP, OR_ALU_OP, CMOV_ALU_OP}) \<and>
     (OPCODE i = OP_SF \<or> OPCODE i = OP_SFI \<longrightarrow>
        SF_OP i \<in> {SFEQ_OP, SFNE_OP, SFGTU_OP, SFGEU_OP, SFLTU_OP, SFLEU_OP, SFGTS_OP, SFGES_OP, SFLTS_OP, SFLES_OP}) \<and>
     (OPCODE i = OP_MAC \<longrightarrow> i AND 0xf = 1 \<or> i AND 0xf = 2) \<and>
     (OPCODE i = OP_SYS_TRAP_SYNC \<longrightarrow> i AND 0xffff0000 = 0x20000000 \<or> i AND 0xffff0000 = 0x21000000)"

lemma ro_shift_i_total: "ro_shift_i c (decode i) \<noteq> None"
proof -
  have "unat (RO_SHIFT_I_OP i) < 4"
    using unat_GET_BITS_less [of i 6 2] by (simp add: RO_SHIFT_I_OP_def)
  then consider "unat (RO_SHIFT_I_OP i) = 0" | "unat (RO_SHIFT_I_OP i) = 1" | "unat (RO_SHIFT_I_OP i) = 2"
    | "unat (RO_SHIFT_I_OP i) = 3" by linarith
  moreover have "RO_SHIFT_I_OP i = of_nat (unat (RO_SHIFT_I_OP i))" by simp
  ultimately have "RO_SHIFT_I_OP i \<in> {0, 1, 2, 3}" by cases simp_all
  then show ?thesis by (auto simp: ro_shift_i_def decode_fields op_defs)
qed

lemma execute_switch_simps:
  "execute_switch OP_J m t = on_cpu l_j m t"
  "execute_switch OP_JAL m t = on_cpu l_jal m t"
  "execute_switch OP_JALR m t = on_cpu l_jalr m t"
  "execute_switch OP_BF m t = on_cpu l_bf m t"
  "execute_switch OP_BNF m t = on_cpu l_bnf m t"
  "execute_switch OP_JR m t = on_cpu l_jr m t"
  "execute_switch OP_NOP m t = Some (or32_nop m t)"
  "execute_switch OP_LBZ m t = Some (l_lbz m t)"
  "execute_switch OP_LHZ m t = Some (l_lhz m t)"
  "execute_switch OP_LBS m t = Some (l_lbs m t)"
  "execute_switch OP_LHS m t = Some (l_lhs m t)"
  "execute_switch OP_LWZ m t = Some (l_lwz m t)"
  "execute_switch OP_LWS m t = Some (l_lwz m t)"
  "execute_switch OP_ADDI m t = on_cpu l_addi m t"
  "execute_switch OP_ADDIC m t = on_cpu l_addic m t"
  "execute_switch OP_ORI m t = on_cpu l_ori m t"
  "execute_switch OP_SFI m t = on_cpu_opt l_sfi m t"
  "execute_switch OP_SW m t = Some (l_sw m t)"
  "execute_switch OP_SB m t = Some (l_sb m t)"
  "execute_switch OP_SH m t = Some (l_sh m t)"
  "execute_switch OP_ALU m t = on_cpu_opt alu m t"
  "execute_switch OP_MAC m t = on_cpu_opt mac_msb m t"
  "execute_switch OP_MACI m t = on_cpu l_maci m t"
  "execute_switch OP_MACRC_MOVHI m t = on_cpu macrc_movhi m t"
  "execute_switch OP_MULI m t = on_cpu l_muli m t"
  "execute_switch OP_ANDI m t = on_cpu l_andi m t"
  "execute_switch OP_XORI m t = on_cpu l_xori m t"
  "execute_switch OP_SF m t = on_cpu_opt l_sf m t"
  "execute_switch OP_RO_SHIFT_I m t = on_cpu_opt ro_shift_i m t"
  "execute_switch OP_MTSPR m t = Some (or32_mtspr m t)"
  "execute_switch OP_MFSPR m t = Some (or32_mfspr m t)"
  "execute_switch OP_SYS_TRAP_SYNC m t = on_cpu_opt sys_trap_sync m t"
  "execute_switch OP_RFE m t = on_cpu (\<lambda>c _. l_rfe c) m t"
  by (simp_all add: execute_switch_def op_defs)

lemma if_Some_None: "(if b then Some x else y) = None \<longleftrightarrow> \<not> b \<and> y = None"
  by simp

lemma dispatch_None:
  "alu c t = None \<longleftrightarrow> alu_op t \<notin> {ADD_ALU_OP, ADDC_ALU_OP, EXTWS_ALU_OP, EXTWZ_ALU_OP,
        EXTHS_ALU_OP, EXTBS_ALU_OP, EXTBZ_ALU_OP, EXTHZ_ALU_OP, DIVU_ALU_OP, DIV_ALU_OP, FF1_ALU_OP,
        FL1_ALU_OP, MUL_ALU_OP, MULU_ALU_OP, SUB_ALU_OP, AND_ALU_OP, XOR_ALU_OP, SLL_ALU_OP, SRL_ALU_OP,
        SRA_ALU_OP, ROR_ALU_OP, OR_ALU_OP, CMOV_ALU_OP}"
  "l_sf c t = None \<longleftrightarrow> sf_op t \<notin> {SFEQ_OP, SFNE_OP, SFGTU_OP, SFGEU_OP, SFLTU_OP, SFLEU_OP, SFGTS_OP, SFGES_OP, SFLTS_OP, SFLES_OP}"
  "l_sfi c t = None \<longleftrightarrow> sf_op t \<notin> {SFEQ_OP, SFNE_OP, SFGTU_OP, SFGEU_OP, SFLTU_OP, SFLEU_OP, SFGTS_OP, SFGES_OP, SFLTS_OP, SFLES_OP}"
  "mac_msb c t = None \<longleftrightarrow> \<not> (inst t AND 0xf = 1 \<or> inst t AND 0xf = 2)"
  "sys_trap_sync c t = None \<longleftrightarrow> \<not> (inst t AND 0xffff0000 = 0x20000000 \<or> inst t AND 0xffff0000 = 0x21000000)"
  unfolding alu_def l_sf_def l_sfi_def mac_msb_def sys_trap_sync_def unimpl_def if_Some_None insert_iff empty_iff
  by blast+

lemma execute_switch_None:
  "execute_switch (OPCODE i) m (decode i) = None \<longleftrightarrow> \<not> implemented i"
proof (cases "can_execute i")
  case False
  then show ?thesis by (simp add: can_execute_def execute_switch_def unimpl_def implemented_def)
next
  case True
  then show ?thesis
    unfolding can_execute_def implemented_def
    by (elim insertE emptyE)
      (simp_all only: execute_switch_simps on_cpu_def on_cpu_opt_def dispatch_None ro_shift_i_total
        decode_fields option.map_disc_iff option.distinct simp_thms,
       simp_all add: op_defs)
qed

section \<open>Properties of one instruction\<close>

lemma fetch_ok: "fst (fetch m) \<noteq> 0xdeadbeef \<Longrightarrow> snd (fetch m) = m"
  by (auto simp: fetch_def Let_def guestLoadI_def split: if_splits)

lemma fetch_fault:
  "cpu (snd (fetch m)) \<noteq> cpu m \<Longrightarrow> entered (cpu m) (cpu (snd (fetch m)))"
  using fetch_cpu(1) [of m] entered_exceptions by auto

lemma branch_pc_advance [simp]: "branch_pc (cpu_advance_pc c) = 0xffffffff"
  by (simp add: cpu_advance_pc_def Let_def)

lemma sm_advance [simp]: "cpu_get_sm (cpu_advance_pc c) = cpu_get_sm c"
  by (simp add: cpu_get_sm_def advance_flags)

lemma pc_advance [simp]: "pc (cpu_advance_pc c) = npc c"
  by (simp add: cpu_advance_pc_def Let_def)

text \<open>A machine for the witnesses with one instruction at its program counter.\<close>

definition with_code :: "u32 \<Rightarrow> u32 \<Rightarrow> machine \<Rightarrow> machine" where
  "with_code a i m = m\<lparr>mem := store_word (mem m) a i, cpu := (cpu m)\<lparr>pc := a, npc := a + 4\<rparr>\<rparr>"

lemma fetch_with_code:
  "a > 2 \<Longrightarrow> fetch (with_code a i (sample_machine x y)) = (i, with_code a i (sample_machine x y))"
proof -
  assume "a > 2"
  moreover have "virtualToPhysicalI (with_code a i (sample_machine x y)) b = b" for b
    by (simp add: virtualToPhysicalI_def with_code_def sample_machine_def sample_cpu_def
      cpu_init0_def cpu_initvars_def cpu_zero_def cpu_defs cpu_is_set_sr_flag_def)
  ultimately show ?thesis
    by (simp add: fetch_def guestLoadI_def)
       (simp add: with_code_def guestLoad_def load_store_word_same)
qed

text \<open>
  C7. Every simulated instruction keeps the register file well-formed (32 registers, r0 reads zero)
  and leaves no branch pending that the program counters do not show: \<^verbatim>\<open>branch_pc\<close> is idle again.
\<close>

theorem registers_invariant:
  assumes "wf_cpu (cpu m)" "cpu_exec_inst m = Some m'"
  shows "wf_cpu (cpu m') \<and> cpu_get_gpr (cpu m') 0 = 0 \<and> branch_pc (cpu m') = 0xffffffff"
proof -
  have "wf_cpu (cpu m')" by (rule wf_cpu_exec_inst [OF assms])
  moreover have "branch_pc (cpu m') = 0xffffffff"
    using assms(2) by (cases rule: cpu_exec_inst_cases) simp_all
  ultimately show ?thesis by (simp add: wf_cpu_def cpu_get_gpr_def)
qed

lemma exec_sample_nop:
  "cpu_exec_inst (with_code 0x100 0x15000000 (sample_machine x y)) =
     Some (advance (with_code 0x100 0x15000000 (sample_machine x y)))"
  by (simp add: cpu_exec_inst_def fetch_with_code execute_def OPCODE_def GET_BITS_def)
    (simp add: execute_switch_def op_defs or32_nop_def)

theorem registers_invariant_witness:
  "wf_cpu (cpu (advance (with_code 0x100 0x15000000 (sample_machine 1 2))))"
  using registers_invariant [OF _ exec_sample_nop, of 1 2] by (simp add: with_code_def)

text \<open>
  C6. One simulated instruction returns exactly when the word fetched is an implemented instruction
  (its opcode is one \<^verbatim>\<open>can_execute\<close> lists and its function code is one the dispatchers know) or the
  fetch delivered the marker \<^verbatim>\<open>0xdeadbeef\<close>; otherwise the firmware spins in \<^verbatim>\<open>unimpl\<close>.
\<close>

theorem returns_iff_implemented:
  "cpu_exec_inst m = None \<longleftrightarrow> fst (fetch m) \<noteq> 0xdeadbeef \<and> \<not> implemented (fst (fetch m))"
  using execute_switch_None [of "fst (fetch m)" "snd (fetch m)"]
  by (simp add: cpu_exec_inst_def Let_def case_prod_unfold execute_def)

text \<open>
  Only the store instructions change memory, and only they and \<^verbatim>\<open>l.mtspr\<close> change a register of
  the hardware.
\<close>

lemma memory_frame:
  assumes "cpu_exec_inst m = Some m'" "OPCODE (fst (fetch m)) \<notin> {OP_SW, OP_SB, OP_SH}"
  shows "mem m' = mem m \<and> (OPCODE (fst (fetch m)) \<noteq> OP_MTSPR \<longrightarrow> hspr m' = hspr m)"
  using assms(1)
proof (cases rule: cpu_exec_inst_cases)
  case 1
  then show ?thesis by (simp add: fetch_cpu)
next
  case (2 m1)
  from mem_execute_switch [OF 2(3) assms(2)] 2 show ?thesis by (simp add: fetch_cpu)
qed

lemma memory_frame_witness:
  "mem (advance (with_code 0x100 0x15000000 (sample_machine 1 2))) = store_word (\<lambda>_. 0) 0x100 0x15000000"
  using memory_frame [OF exec_sample_nop, of 1 2]
  by (simp add: fetch_with_code OPCODE_def GET_BITS_def op_defs with_code_def)

text \<open>
  C20. A program in user mode gains supervisor mode in one instruction only by entering an exception
  (the next instruction is then the first of an exception vector, outside a delay slot when no
  branch was pending), or by \<^verbatim>\<open>l.rfe\<close> or \<^verbatim>\<open>l.mtspr\<close>.
\<close>

theorem privilege_gain:
  assumes "wf_cpu (cpu m)" "\<not> cpu_get_sm (cpu m)" "branch_pc (cpu m) = 0xffffffff"
    and "cpu_exec_inst m = Some m'" "cpu_get_sm (cpu m')"
    and "OPCODE (fst (fetch m)) \<noteq> OP_MTSPR" "OPCODE (fst (fetch m)) \<noteq> OP_RFE"
  shows "pc (cpu m') \<in> set vectors \<and> \<not> is_in_delay_slot (cpu m')"
proof -
  obtain d where d: "entered (cpu m) d" "cpu m' = cpu_advance_pc d"
    using assms(4)
  proof (cases rule: cpu_exec_inst_cases)
    case 1
    then have "cpu (snd (fetch m)) \<noteq> cpu m" using assms(2,5) by auto
    from fetch_fault [OF this] 1 show ?thesis using that by simp
  next
    case (2 m1)
    note ok = fetch_ok [OF 2(1)]
    have "guarded (cpu m) (cpu m1)"
      using guarded_execute_switch [OF 2(3)] assms(1,6,7) by (simp add: ok)
    then show ?thesis using 2 that assms(2,5) by (auto simp: guarded_def)
  qed
  then show ?thesis
    using assms(3) by (simp add: entered_def is_in_delay_slot_def cpu_advance_pc_def)
qed

lemma sample_user [simp]: "\<not> cpu_get_sm (cpu (with_code a i (sample_machine x y)))"
  "branch_pc (cpu (with_code a i (sample_machine x y))) = 0xffffffff"
  "wf_cpu (cpu (with_code a i (sample_machine x y)))"
  by (simp_all add: with_code_def sample_machine_def sample_cpu_def cpu_init0_def cpu_initvars_def
      cpu_zero_def cpu_defs cpu_is_set_sr_flag_def wf_cpu_def cpu_set_gpr_def NUM_REGS_def)

lemma exec_sample_sys:
  fixes x y
  defines "m \<equiv> with_code 0x100 0x20000000 (sample_machine x y)"
  shows "cpu_exec_inst m = Some (advance (m\<lparr>cpu := l_sys (cpu m)\<rparr>))"
  unfolding m_def
  by (simp add: cpu_exec_inst_def fetch_with_code execute_def OPCODE_def GET_BITS_def)
    (simp add: execute_switch_def op_defs on_cpu_opt_def sys_trap_sync_def decode_fields)

theorem privilege_gain_witness:
  "pc (cpu (advance (with_code 0x100 0x20000000 (sample_machine 1 2)
     \<lparr>cpu := l_sys (cpu (with_code 0x100 0x20000000 (sample_machine 1 2)))\<rparr>))) \<in> set vectors"
  using privilege_gain [OF _ _ _ exec_sample_sys, of 1 2] sys.supervisor
  by (simp add: fetch_with_code OPCODE_def GET_BITS_def op_defs)

text \<open>
  \<^verbatim>\<open>l.mtspr\<close> and \<^verbatim>\<open>l.rfe\<close> do not look at the mode: a move to SR installs the mode bit of the value
  moved and a return from exception the one of ESR, also for a program in user mode; the mode check
  of \<^verbatim>\<open>cpu_set_spr\<close> is compiled in only for the hosted builds, where it stops the program.
\<close>

lemma mode_not_checked:
  assumes "cpu_get_gpr (cpu m) (rA t) OR imm_K t = SPR_SR"
  defines "v \<equiv> cpu_get_gpr (cpu m) (rB t)"
  shows "cpu_get_sm (cpu (or32_mtspr m t)) = bit v 0 \<and>
    cpu_get_sm (l_rfe (cpu m)) = bit (esr (cpu m)) 0 \<and>
    (\<not> cpu_get_sm (cpu m) \<longrightarrow> cpu_set_spr_hosted (cpu m) SPR_SR v = AssertFails)"
proof -
  have one: "x AND 1 \<noteq> 0 \<longleftrightarrow> bit x 0" for x :: u32 by (simp add: and_one_eq bit_0 odd_iff_mod_2_eq_one)
  have "((v AND 0xf001ffff) OR 0x8000) AND 1 = v AND 1"
    by (simp add: bit.conj_disj_distrib2 and.assoc)
  then have "cpu_get_sm (cpu (or32_mtspr m t)) = bit v 0"
    using assms(1) one [of v]
    by (simp add: or32_mtspr_def cpu_set_spr_def cpu_set_spr_case_def v_def cpu_get_sm_def
        cpu_is_set_sr_flag_def spr_defs)
  then show ?thesis
    using one [of "esr (cpu m)"]
    by (simp add: l_rfe_def cpu_get_sm_def cpu_is_set_sr_flag_def cpu_set_spr_hosted_def SPR_SR_SM_def)
qed

lemma mode_not_checked_witness:
  "\<not> cpu_get_sm (cpu (sample_machine 0 1)) \<and> cpu_get_sm (cpu (or32_mtspr (sample_machine 0 1) (decode 0xC0042811)))"
proof -
  have "\<not> cpu_get_sm (cpu (sample_machine 0 1))"
    using sample_user(1) [of 0 0 0 1]
    by (simp add: with_code_def cpu_get_sm_def cpu_is_set_sr_flag_def)
  then show ?thesis
    using mode_not_checked [of "sample_machine 0 1" "decode 0xC0042811"]
    by (simp add: decode_eval SPR_SR_def SPRGROUP_SYS_def)
qed

text \<open>
  A guest word equal to the marker \<^verbatim>\<open>0xdeadbeef\<close>, which encodes a half-word store, is skipped as
  if the fetch had failed, and so is every instruction at physical address 0.
\<close>

lemma marker_is_skipped:
  assumes "guestLoadI m (pc (cpu m)) = (0, v)" "v = Some 0xdeadbeef \<or> v = None"
  shows "cpu_exec_inst m = Some (advance m) \<and> OPCODE 0xdeadbeef = OP_SH \<and> implemented 0xdeadbeef"
  using assms
  by (auto simp: cpu_exec_inst_def fetch_def Let_def implemented_def can_execute_def OPCODE_def
      GET_BITS_def op_defs)

lemma marker_is_skipped_witness:
  "cpu_exec_inst (with_code 0x100 0xdeadbeef (sample_machine 1 2)) =
     Some (advance (with_code 0x100 0xdeadbeef (sample_machine 1 2)))"
proof -
  have "virtualToPhysicalI (with_code a i (sample_machine x y)) b = b" for a i x y b
    by (simp add: virtualToPhysicalI_def with_code_def sample_machine_def sample_cpu_def
      cpu_init0_def cpu_initvars_def cpu_zero_def cpu_defs cpu_is_set_sr_flag_def)
  then have "guestLoadI (with_code 0x100 0xdeadbeef (sample_machine 1 2)) 0x100 = (0, Some 0xdeadbeef)"
    by (simp add: guestLoadI_def) (simp add: with_code_def guestLoad_def load_store_word_same)
  then show ?thesis
    using marker_is_skipped [of "with_code 0x100 0xdeadbeef (sample_machine 1 2)" "Some 0xdeadbeef"]
    by (simp add: with_code_def)
qed

section \<open>Branches and the delay slot\<close>

text \<open>
  \<open>continues c d T\<close>: \<open>d\<close> follows \<open>c\<close> through a delay slot and then \<open>T\<close>; \<open>falls_through c d\<close>: \<open>d\<close>
  is at the next instruction.
\<close>

definition continues :: "CPU \<Rightarrow> CPU \<Rightarrow> u32 \<Rightarrow> bool" where
  "continues c d target \<longleftrightarrow> pc d = npc c \<and> npc d = target \<and> branch_pc d = 0xffffffff"

abbreviation falls_through :: "CPU \<Rightarrow> CPU \<Rightarrow> bool" where
  "falls_through c d \<equiv> continues c d (npc c + 4)"

lemma continues_branch:
  "target \<noteq> 0xffffffff \<Longrightarrow> continues c (cpu_advance_pc (c\<lparr>branch_pc := target\<rparr>)) target"
  "branch_pc c = 0xffffffff \<Longrightarrow> continues c (cpu_advance_pc c) (npc c + 4)"
  by (simp_all add: continues_def cpu_advance_pc_def Let_def)

lemma continues_link:
  "target \<noteq> 0xffffffff \<Longrightarrow> continues c (cpu_advance_pc (cpu_set_lr (c\<lparr>branch_pc := target\<rparr>) v)) target"
  by (simp add: continues_def cpu_advance_pc_def Let_def cpu_set_lr_def)

text \<open>The displacement of a PC-relative branch: a signed 26-bit number of instructions.\<close>

lemma jump_target_eq:
  assumes "wf_control t"
  shows "jump_target c t = pc c + signed_take_bit 27 (push_bit 2 (imm_N t))"
proof -
  have "take_bit 26 (imm_N t) = imm_N t" by (rule take_bit_imp_fits) (rule wf_controlD [OF assms])
  then have "take_bit (Suc (unat (27 :: u32))) (push_bit 2 (imm_N t)) = push_bit 2 (imm_N t)"
    by (simp add: take_bit_push_bit)
  from sign_extend_signed_take_bit [OF _ this] show ?thesis by (simp add: jump_target_def)
qed

text \<open>
  The branches execute the delay slot at \<^verbatim>\<open>npc\<close> next and then the target: the PC plus the signed
  26-bit word displacement for \<^verbatim>\<open>l.j\<close>, \<^verbatim>\<open>l.jal\<close>, \<^verbatim>\<open>l.bf\<close> and \<^verbatim>\<open>l.bnf\<close>, taken exactly when SR[F] says
  so, and the register for \<^verbatim>\<open>l.jr\<close> and \<^verbatim>\<open>l.jalr\<close>; an untaken branch falls through, and the linking
  forms put the address behind the delay slot in r9.
\<close>

lemma branches:
  fixes m t
  defines "c \<equiv> cpu m"
  defines "target \<equiv> pc c + signed_take_bit 27 (push_bit 2 (imm_N t))" and "reg \<equiv> cpu_get_gpr c (rB t)"
    and "run \<equiv> (\<lambda>op. cpu (the (execute op m t)))"
  assumes "wf_cpu c" "wf_control t" "branch_pc c = 0xffffffff"
    and "target \<noteq> 0xffffffff" "reg AND 3 = 0"
  shows "continues c (run OP_J) target \<and> continues c (run OP_JAL) target \<and>
    continues c (run OP_BF) (if cpu_get_f c then target else npc c + 4) \<and>
    continues c (run OP_BNF) (if cpu_get_f c then npc c + 4 else target) \<and>
    continues c (run OP_JR) reg \<and> continues c (run OP_JALR) reg \<and>
    cpu_get_gpr (run OP_JAL) 9 = pc c + 8 \<and> cpu_get_gpr (run OP_JALR) 9 = pc c + 8"
proof -
  have t: "jump_target c t = target" using jump_target_eq [OF assms(6)] by (simp add: target_def)
  have r: "reg \<noteq> 0xffffffff" using assms(9) by auto
  have lr: "cpu_get_gpr (cpu_advance_pc (cpu_set_lr (c\<lparr>branch_pc := x\<rparr>) (pc c + 8))) 9 = pc c + 8" for x
    using assms(5) by (simp add: cpu_get_gpr_def advance_flags cpu_set_lr_def wf_cpu_def NUM_REGS_def)
  show ?thesis
    unfolding run_def execute_def execute_switch_simps
    by (simp add: on_cpu_def l_j_def l_jal_def l_bf_def l_bnf_def l_jr_def l_jalr_def t lr r
        continues_branch continues_link assms(7-9) flip: c_def reg_def)
qed

lemma branches_witness:
  "continues (cpu (with_code 0x100 0x03fffffe (sample_machine 0x2000 0)))
     (cpu (the (execute OP_J (with_code 0x100 0x03fffffe (sample_machine 0x2000 0)) (decode 0x03fffffe)))) 0xf8"
proof -
  let ?m = "with_code 0x100 0x03fffffe (sample_machine 0x2000 0)"
  have "signed_take_bit 27 (push_bit 2 (0x3fffffe :: u32)) = - 8" by code_simp
  moreover have "rB (decode 0x03fffffe) = 31" "imm_N (decode 0x03fffffe) = 0x3fffffe"
    by (simp_all add: decode_fields GET_BITS_def)
  moreover have "cpu_get_gpr (cpu ?m) 31 = 0"
    by (simp add: with_code_def sample_cpu_def cpu_init0_def cpu_initvars_def cpu_zero_def
        cpu_set_gpr_def cpu_get_gpr_def NUM_REGS_def)
  moreover have "pc (cpu ?m) = 0x100" by (simp add: with_code_def)
  ultimately show ?thesis
    using branches [of ?m "decode 0x03fffffe"] by simp
qed

text \<open>
  After any simulated instruction the simulated processor is in a delay slot exactly when the
  handler left a branch to an address other than the one after the slot: a branch to the address
  behind its own delay slot is not seen as one.
\<close>

lemma delay_slot_detection:
  assumes "execute op m t = Some m'" "execute_switch op m t = Some m1"
  shows "is_in_delay_slot (cpu m') \<longleftrightarrow>
    branch_pc (cpu m1) \<noteq> 0xffffffff \<and> branch_pc (cpu m1) \<noteq> npc (cpu m1) + 4"
proof -
  have "cpu m' = cpu_advance_pc (cpu m1)" using assms by (auto simp: execute_def)
  then show ?thesis
    by (cases "branch_pc (cpu m1) = 0xffffffff")
      (simp_all add: is_in_delay_slot_def cpu_advance_pc_def Let_def)
qed

lemma execute_sample_nop:
  "execute OP_NOP m t = Some (advance m)" "execute_switch OP_NOP m t = Some m"
  by (simp_all add: execute_def execute_switch_simps or32_nop_def)

lemma delay_slot_detection_witness:
  "\<not> is_in_delay_slot (cpu (advance (sample_machine 1 2)))"
  using delay_slot_detection [OF execute_sample_nop, of "sample_machine 1 2"] sample_user(2) [of 0 0 1 2]
  by (simp add: with_code_def)

end
