(* ===== verification/Recovery_Spec.thy ===== *)
theory Recovery_Spec
  imports Recovery Execute_Spec
begin

unbundle bit_operations_syntax

text \<open>
  Properties of the recovery routine: which instruction it restarts from, what its three outcomes
  change, that its helpers put the program counter back, and that the loop returns exactly when the
  simulated processor first leaves a delay slot, after at least two instructions.
\<close>

section \<open>The loop\<close>

fun exec_n :: "nat \<Rightarrow> machine \<Rightarrow> machine option" where
  "exec_n 0 m = Some m"
| "exec_n (Suc n) m = (case cpu_exec_inst m of None \<Rightarrow> None | Some m' \<Rightarrow> exec_n n m')"

text \<open>\<open>n\<close> instructions lead from \<open>m\<close> to \<open>m'\<close>, the first time outside a delay slot.\<close>

definition first_outside :: "nat \<Rightarrow> machine \<Rightarrow> machine \<Rightarrow> bool" where
  "first_outside n m m' \<longleftrightarrow> exec_n n m = Some m' \<and> \<not> is_in_delay_slot (cpu m') \<and>
     (\<forall>k. 0 < k \<and> k < n \<longrightarrow> (\<exists>x. exec_n k m = Some x \<and> is_in_delay_slot (cpu x)))"

lemma exec_slots_first: "exec_slots m = Some m' \<Longrightarrow> \<exists>n>0. first_outside n m m'"
proof (induction rule: exec_slots.raw_induct [rotated, consumes 1])
  case (1 exec_slots m m')
  show ?case
  proof (cases "cpu_exec_inst m")
    case None
    then show ?thesis using 1 by simp
  next
    case (Some x)
    show ?thesis
    proof (cases "is_in_delay_slot (cpu x)")
      case True
      with 1 Some obtain n where n: "first_outside n x m'" by auto
      have "first_outside (Suc n) m m'"
        unfolding first_outside_def
      proof (intro conjI allI impI)
        show "exec_n (Suc n) m = Some m'" "\<not> is_in_delay_slot (cpu m')"
          using n Some by (simp_all add: first_outside_def)
      next
        fix k assume "0 < k \<and> k < Suc n"
        then show "\<exists>y. exec_n k m = Some y \<and> is_in_delay_slot (cpu y)"
          using n Some True by (cases k; cases "k = 1") (auto simp: first_outside_def)
      qed
      then show ?thesis by blast
    next
      case False
      then have "first_outside 1 m m'" using 1 Some by (simp add: first_outside_def)
      then show ?thesis by blast
    qed
  qed
qed

lemma first_exec_slots: "first_outside n m m' \<Longrightarrow> 0 < n \<Longrightarrow> exec_slots m = Some m'"
proof (induction n arbitrary: m)
  case 0
  then show ?case by simp
next
  case (Suc n)
  from Suc.prems obtain x where x: "cpu_exec_inst m = Some x" "exec_n n x = Some m'"
    by (auto simp: first_outside_def split: option.splits)
  show ?case
  proof (cases "n = 0")
    case True
    then show ?thesis using x Suc.prems by (simp add: first_outside_def exec_slots.simps [of m])
  next
    case False
    have "is_in_delay_slot (cpu x)"
      using Suc.prems(1) False x(1) unfolding first_outside_def
      by (auto dest: spec [of _ "Suc 0"])
    moreover have "first_outside n x m'"
      unfolding first_outside_def
    proof (intro conjI allI impI)
      show "exec_n n x = Some m'" by (rule x)
      show "\<not> is_in_delay_slot (cpu m')" using Suc.prems(1) by (simp add: first_outside_def)
      fix k assume "0 < k \<and> k < n"
      then show "\<exists>y. exec_n k x = Some y \<and> is_in_delay_slot (cpu y)"
        using Suc.prems(1) x(1) unfolding first_outside_def by (auto dest: spec [of _ "Suc k"])
    qed
    ultimately show ?thesis
      using Suc.IH [of x] False x(1) by (simp add: exec_slots.simps [of m])
  qed
qed

lemma exec_slots_iff: "exec_slots m = Some m' \<longleftrightarrow> (\<exists>n>0. first_outside n m m')"
  using exec_slots_first first_exec_slots by blast

lemma wf_exec_n: "wf_cpu (cpu m) \<Longrightarrow> exec_n n m = Some m' \<Longrightarrow> wf_cpu (cpu m')"
  by (induction n arbitrary: m) (auto split: option.splits dest: wf_cpu_exec_inst)

lemma exec_n_last:
  "exec_n n m = Some m' \<Longrightarrow> 0 < n \<Longrightarrow> \<exists>k x. exec_n k m = Some x \<and> cpu_exec_inst x = Some m'"
proof (induction n arbitrary: m)
  case (Suc n)
  then obtain y where y: "cpu_exec_inst m = Some y" "exec_n n y = Some m'"
    by (auto split: option.splits)
  show ?case
  proof (cases "n = 0")
    case True
    then show ?thesis using y by (intro exI [of _ 0] exI [of _ m]) simp
  next
    case False
    then obtain k x where "exec_n k y = Some x" "cpu_exec_inst x = Some m'" using Suc.IH [OF y(2)] by auto
    then show ?thesis using y(1) by (intro exI [of _ "Suc k"] exI [of _ x]) simp
  qed
qed simp

section \<open>The state the simulation starts from\<close>

definition drop_mode :: "machine \<Rightarrow> machine" where
  "drop_mode m = (if getAssertionReg m AND 0x308 \<noteq> 0 then m\<lparr>cpu := cpu_set_sm (cpu m) False\<rparr> else m)"

definition prepared :: "machine \<Rightarrow> machine" where
  "prepared m =
     (let m1 = set_pcs (restart_pc (getEPPCReg m) (getEPCRReg m)) (drop_mode m)
      in if getAssertionReg m AND 0x8 \<noteq> 0 then repair_exception (getAssertionReg m) m1 else m1)"

definition returns_early :: "u32 \<Rightarrow> bool" where
  "returns_early v \<longleftrightarrow> v AND 0x308 \<noteq> 0 \<and> v AND 0x8 = 0 \<or> v AND 0x8000 \<noteq> 0"

lemma clear_sm: "cpu_set_sm c False = c\<lparr>sr := sr c AND 0xFFFFFFFE\<rparr>"
proof -
  have "(0xFFFFFFFE :: u32) = - 2" by simp
  then show ?thesis by (simp only: cpu_set_sm_def cpu_set_sr_flag_def SPR_SR_SM_def) simp
qed

lemma runSim_drop_mode:
  "runSim m =
     (if getAssertionReg m AND 0x308 \<noteq> 0 \<and> getAssertionReg m AND 0x8 = 0 then Some (drop_mode m)
      else if getAssertionReg m AND 0x8000 \<noteq> 0 then
        Some ((drop_mode m)\<lparr>cpu := (cpu (drop_mode m))\<lparr>sr := esr (cpu (drop_mode m)), pc := epcr (cpu (drop_mode m))\<rparr>\<rparr>)
      else
        let m1 = set_pcs (restart_pc (getEPPCReg (drop_mode m)) (getEPCRReg (drop_mode m))) (drop_mode m)
        in case cpu_exec_inst (if getAssertionReg m AND 0x8 \<noteq> 0 then repair_exception (getAssertionReg m) m1 else m1) of
             None \<Rightarrow> None | Some m' \<Rightarrow> exec_slots m')"
  by (simp only: runSim_def Let_def drop_mode_def clear_sm)

lemma runSim_prepared:
  assumes "\<not> returns_early (getAssertionReg m)"
  shows "runSim m = (case cpu_exec_inst (prepared m) of None \<Rightarrow> None | Some x \<Rightarrow> exec_slots x)"
proof -
  have "getEPPCReg (drop_mode m) = getEPPCReg m" "getEPCRReg (drop_mode m) = getEPCRReg m"
    by (simp_all add: drop_mode_def getEPPCReg_def getEPCRReg_def getSPR_def)
  then show ?thesis
    using assms by (auto simp: runSim_drop_mode prepared_def returns_early_def Let_def)
qed

lemma wf_set_pcs [simp]: "wf_cpu (cpu (set_pcs a m)) = wf_cpu (cpu m)"
  by (simp add: set_pcs_def)

text \<open>Moving the program counter away, fetching and moving it back.\<close>

definition detour :: "u32 \<Rightarrow> machine \<Rightarrow> machine" where
  "detour a m = set_pcs (pc (cpu m)) (snd (fetch (set_pcs a m)))"

lemma snd_helpers:
  "snd (recalc_ea m a) = detour a m" "snd (calc_jump_target m a) = detour a m"
  by (simp_all add: recalc_ea_def calc_jump_target_def detour_def Let_def case_prod_unfold)

lemma wf_detour [simp]: "wf_cpu (cpu (detour a m)) = wf_cpu (cpu m)"
  by (simp add: detour_def wf_fetch)

lemma wf_eear_for [simp]: "wf_cpu (cpu (snd (eear_for m a))) = wf_cpu (cpu m)"
  by (simp add: eear_for_def snd_helpers)

lemma wf_repair [simp]: "wf_cpu (cpu (repair_exception v m)) = wf_cpu (cpu m)"
  by (simp add: repair_exception_def Let_def case_prod_unfold snd_helpers)

lemma wf_prepared [simp]: "wf_cpu (cpu (prepared m)) = wf_cpu (cpu m)"
  by (simp add: prepared_def Let_def drop_mode_def cpu_set_sm_def)

section \<open>Properties\<close>

text \<open>
  C19. The restart address: the C test of the distance between the two saved addresses wraps around
  and holds whenever they differ, so the simulation restarts one instruction before EPPC in every
  case but the one in which both registers are equal; in particular when EPCR is the instruction
  after EPPC, the case the comment calls normal.
\<close>

theorem restart_address:
  "restart_pc eppc e = (if e = eppc then eppc else eppc - 4) \<and> restart_pc eppc (eppc + 4) = eppc - 4"
proof -
  have "d > 4 \<or> - d > 4" if "d \<noteq> 0" for d :: u32
  proof (rule ccontr)
    assume "\<not> (d > 4 \<or> - d > 4)"
    then have "unat d \<le> 4" "unat (- d) \<le> 4" by (simp_all add: word_less_nat_alt not_less)
    moreover have "unat (- d) = 2 ^ 32 - unat d" using that unat_sub_if' [of 0 d] by (simp add: unat_eq_0)
    ultimately show False by simp
  qed
  from this [of "e - eppc"] show ?thesis by (auto simp: restart_pc_def)
qed

text \<open>
  The two repairs that do not simulate: for a mode violation the routine clears the mode bit of
  the saved SR and changes nothing else; for a violation at a return from exception it performs the
  return, SR from ESR and the PC from EPCR, and changes nothing else.
\<close>

lemma recovery_without_simulation:
  fixes m
  defines "v \<equiv> getAssertionReg m"
  shows "(v AND 0x308 \<noteq> 0 \<and> v AND 0x8 = 0 \<longrightarrow>
      runSim m = Some (m\<lparr>cpu := cpu_set_sm (cpu m) False\<rparr>) \<and> \<not> cpu_get_sm (cpu_set_sm (cpu m) False)) \<and>
    (v AND 0x308 = 0 \<and> v AND 0x8000 \<noteq> 0 \<longrightarrow>
      runSim m = Some (m\<lparr>cpu := (cpu m)\<lparr>sr := sr (l_rfe (cpu m)), pc := npc (l_rfe (cpu m))\<rparr>\<rparr>))"
  unfolding v_def
  by (auto simp: runSim_drop_mode drop_mode_def l_rfe_def cpu_get_sm_def cpu_set_sm_def SPR_SR_SM_def)

definition sample_violation :: "u32 \<Rightarrow> machine" where
  "sample_violation v = (sample_machine 1 2)\<lparr>hspr := (\<lambda>_. 0)(ASSERTION_REG := v)\<rparr>"

lemma recovery_without_simulation_witness:
  "runSim (sample_violation 0x300) = Some ((sample_violation 0x300)\<lparr>cpu := cpu_set_sm (sample_cpu 1 2 0) False\<rparr>)"
  using recovery_without_simulation [of "sample_violation 0x300"]
  by (simp add: sample_violation_def getAssertionReg_def getSPR_def)

text \<open>
  C18. Otherwise the routine simulates from the prepared state: it returns \<open>m'\<close> exactly when one
  instruction returns and then some positive number of further ones leads to \<open>m'\<close>, which is the
  first state of those outside a delay slot. So it never returns in a delay slot, executes at least
  two instructions, and returns whenever the program leaves its delay slots.
\<close>

theorem recovery_simulates:
  assumes "\<not> returns_early (getAssertionReg m)"
  shows "runSim m = Some m' \<longleftrightarrow>
    (\<exists>x n. cpu_exec_inst (prepared m) = Some x \<and> 0 < n \<and> first_outside n x m')"
  using runSim_prepared [OF assms] exec_slots_iff by (auto split: option.split)

text \<open>A memory of \<^verbatim>\<open>l.nop\<close> instructions.\<close>

lemma exec_nop:
  assumes "mem m = (\<lambda>_. 0x15)" "\<not> cpu_get_ime (cpu m)" "pc (cpu m) > 2"
  shows "cpu_exec_inst m = Some (advance m)"
proof -
  have "load_word (\<lambda>_. 0x15) a = 0x15151515" for a by (simp add: load_word_def)
  then have "fetch m = (0x15151515, m)"
    using assms by (simp add: fetch_def guestLoadI_def virtualToPhysicalI_def guestLoad_def)
  then show ?thesis
    by (simp add: cpu_exec_inst_def execute_def OPCODE_def GET_BITS_def)
      (simp add: execute_switch_def op_defs or32_nop_def)
qed

definition sample_nops :: machine where
  "sample_nops = (sample_machine 1 2)\<lparr>mem := (\<lambda>_. 0x15),
     hspr := (\<lambda>_. 0)(EPPC_REG := 0x100, SPR_EPCR_BASE := 0x100)\<rparr>"

lemma sample_nops_facts:
  "getAssertionReg sample_nops = 0" "getEPPCReg sample_nops = 0x100" "getEPCRReg sample_nops = 0x100"
  "mem sample_nops = (\<lambda>_. 0x15)" "cpu sample_nops = sample_cpu 1 2 0"
  by (simp_all add: sample_nops_def getAssertionReg_def getEPPCReg_def getEPCRReg_def getSPR_def spr_defs)

lemma prepared_nops: "prepared sample_nops = set_pcs 0x100 sample_nops"
  by (simp add: prepared_def sample_nops_facts drop_mode_def restart_pc_def)

lemma ime_nops: "\<not> cpu_get_ime (sample_cpu 1 2 0\<lparr>pc := a, npc := b\<rparr>)"
  "branch_pc (sample_cpu 1 2 0) = 0xffffffff"
  by (simp_all add: sample_cpu_def cpu_init0_def cpu_initvars_def cpu_zero_def cpu_defs
      cpu_is_set_sr_flag_def)

lemma exec_nops:
  "cpu_exec_inst (prepared sample_nops) = Some (set_pcs 0x104 sample_nops)"
  "first_outside 1 (set_pcs 0x104 sample_nops) (set_pcs 0x108 sample_nops)"
proof -
  have a: "advance (set_pcs x sample_nops) = set_pcs (x + 4) sample_nops" for x
    using ime_nops(2) by (simp add: advance_def set_pcs_def cpu_advance_pc_def Let_def sample_nops_facts)
  have e: "cpu_exec_inst (set_pcs x sample_nops) = Some (set_pcs (x + 4) sample_nops)" if "x > 2" for x
  proof -
    have "cpu_exec_inst (set_pcs x sample_nops) = Some (advance (set_pcs x sample_nops))"
      by (rule exec_nop) (use that ime_nops(1) in \<open>simp_all add: set_pcs_def sample_nops_facts\<close>)
    then show ?thesis unfolding a .
  qed
  show "cpu_exec_inst (prepared sample_nops) = Some (set_pcs 0x104 sample_nops)"
    using e [of "0x100"] by (simp add: prepared_nops)
  show "first_outside 1 (set_pcs 0x104 sample_nops) (set_pcs 0x108 sample_nops)"
    using e [of "0x104"] by (simp add: first_outside_def) (simp add: set_pcs_def is_in_delay_slot_def)
qed

theorem recovery_simulates_witness:
  "runSim sample_nops = Some (set_pcs 0x108 sample_nops)"
proof -
  have "\<not> returns_early (getAssertionReg sample_nops)"
    by (simp add: sample_nops_facts returns_early_def)
  from recovery_simulates [OF this] exec_nops show ?thesis by blast
qed

text \<open>
  Recovery keeps the register file well-formed, whatever was violated, and every outcome that
  simulates ends outside a delay slot with no branch pending.
\<close>

lemma recovery_invariant:
  assumes "wf_cpu (cpu m)" "runSim m = Some m'"
  shows "wf_cpu (cpu m') \<and>
    (returns_early (getAssertionReg m) \<or> npc (cpu m') = pc (cpu m') + 4 \<and> branch_pc (cpu m') = 0xffffffff)"
proof (cases "returns_early (getAssertionReg m)")
  case True
  then show ?thesis
    using assms by (auto simp: runSim_drop_mode drop_mode_def returns_early_def cpu_set_sm_def split: if_splits)
next
  case False
  then obtain x where x: "cpu_exec_inst (prepared m) = Some x" "exec_slots x = Some m'"
    using assms(2) by (auto simp: runSim_prepared split: option.splits)
  have "wf_cpu (cpu (prepared m))" using assms(1) by simp
  from wf_cpu_exec_inst [OF this x(1)] have wx: "wf_cpu (cpu x)" .
  from x(2) obtain n where n: "0 < n" "first_outside n x m'" by (auto simp: exec_slots_iff)
  from n obtain k y where "exec_n k x = Some y" "cpu_exec_inst y = Some m'"
    using exec_n_last [of n x m'] by (auto simp: first_outside_def)
  then have "branch_pc (cpu m') = 0xffffffff" by (auto elim: cpu_exec_inst_cases)
  then show ?thesis
    using n wf_exec_n [OF wx] by (auto simp: first_outside_def is_in_delay_slot_def)
qed

lemma recovery_invariant_witness:
  "wf_cpu (cpu (set_pcs 0x108 sample_nops))"
proof -
  have e: "\<not> returns_early (getAssertionReg sample_nops)"
    by (simp add: sample_nops_facts returns_early_def)
  have "runSim sample_nops = Some (set_pcs 0x108 sample_nops)"
    using exec_nops by (auto simp: runSim_prepared [OF e] exec_slots_iff)
  from recovery_invariant [OF _ this] show ?thesis by (simp add: sample_nops_facts)
qed

lemma fetch_set_pcs:
  assumes "guestLoadI m a = (0, Some i)"
  shows "fetch (set_pcs a m) = (i, set_pcs a m)"
proof -
  have "virtualToPhysicalI (set_pcs a m) b = virtualToPhysicalI m b" for b
  proof -
    have "tlb_walk (set_pcs a m) mr tr b ws = tlb_walk m mr tr b ws" for mr tr ws
      by (induction ws) (simp_all add: getSPR_def set_pcs_def Let_def)
    then show ?thesis
      by (simp add: virtualToPhysicalI_def set_pcs_def cpu_get_ime_def cpu_is_set_sr_flag_def)
  qed
  moreover have "guestLoad (set_pcs a m) b = guestLoad m b" for b
    by (simp add: guestLoad_def set_pcs_def)
  ultimately have "guestLoadI (set_pcs a m) a = (0, Some i)" using assms by (auto simp: guestLoadI_def Let_def split: if_splits)
  then show ?thesis by (simp add: fetch_def Let_def) (simp add: set_pcs_def)
qed

lemma set_pcs_twice [simp]: "set_pcs a (set_pcs b m) = set_pcs a m"
  by (simp add: set_pcs_def)

lemma calc_ea_set_pcs [simp]: "calc_ea (cpu (set_pcs a m)) t = calc_ea (cpu m) t"
  by (simp add: set_pcs_def calc_ea_def cpu_get_gpr_def)

text \<open>
  The two helpers of the exception repair look at the instruction at an address without lasting
  effect: for a mapped address they leave the machine as it was but for the next PC, which becomes
  the one after the PC. \<^verbatim>\<open>recalc_ea\<close> returns the effective address of that instruction and
  \<^verbatim>\<open>calc_jump_target\<close> the address a branch there continues at, EPCR for \<^verbatim>\<open>l.rfe\<close>, the system-call
  vector for opcode 8, and 0 for any other instruction.
\<close>

lemma repair_helpers:
  fixes m a i
  defines "t \<equiv> decode i"
  defines "target \<equiv>
    (if OPCODE i \<in> {OP_J, OP_JAL, OP_BF, OP_BNF} then a + signed_take_bit 27 (push_bit 2 (imm_N t))
     else if OPCODE i \<in> {OP_JR, OP_JALR} then cpu_get_gpr (cpu m) (rB t)
     else if OPCODE i = OP_RFE then epcr (cpu m)
     else if OPCODE i = OP_SYS_TRAP_SYNC then 0xC00 else 0)"
  assumes "guestLoadI m a = (0, Some i)"
  shows "recalc_ea m a = (calc_ea (cpu m) t, set_pcs (pc (cpu m)) m) \<and>
    calc_jump_target m a = (target, set_pcs (pc (cpu m)) m)"
proof -
  have d: "OP_RFE \<notin> {OP_J, OP_JAL, OP_BF, OP_BNF, OP_JR, OP_JALR}" by (simp add: op_defs)
  have "jump_target (cpu (set_pcs a m)) t = a + signed_take_bit 27 (push_bit 2 (imm_N t))"
    unfolding t_def by (subst jump_target_eq) (simp_all add: set_pcs_def)
  then show ?thesis
    using d unfolding recalc_ea_def calc_jump_target_def Let_def fetch_set_pcs [OF assms(3)] target_def t_def
    by (auto simp: decode_fields) (simp_all add: set_pcs_def cpu_get_gpr_def)
qed

lemma repair_helpers_witness:
  "recalc_ea (sample_machine 0x1000 2) 0x200 =
     (calc_ea (sample_cpu 0x1000 2 0) (decode 0), set_pcs 0 (sample_machine 0x1000 2))"
proof -
  have "guestLoadI (sample_machine 0x1000 2) 0x200 = (0, Some 0)"
    by (simp add: guestLoadI_def guestLoad_def load_word_def)
  moreover have "pc (sample_cpu 0x1000 2 0) = 0"
    by (simp add: sample_cpu_def cpu_init0_def cpu_initvars_def cpu_zero_def)
  ultimately show ?thesis using repair_helpers [of "sample_machine 0x1000 2" "0x200" 0] by simp
qed

end
