(* ===== verification/Sim_Main.thy ===== *)
theory Sim_Main
  imports Machine
begin

unbundle bit_operations_syntax

text \<open>
  The hosted simulator \<^verbatim>\<open>src/system/software/sim_module/sim_main.c\<close>: its RAM accesses, the loading
  of a memory image and the state execution starts from. All accesses to the RAM array are aligned
  32-bit words, so the model keeps one word per aligned address and the byte order of the host does
  not appear. \<^verbatim>\<open>assert\<close> is active in this build.
\<close>

section \<open>Definitions\<close>

definition RAM_SIZE :: u32 where
  "RAM_SIZE = 1024 * 1024"

type_synonym ram = "u32 \<Rightarrow> u32"

definition sim_guestLoad :: "ram \<Rightarrow> u32 \<Rightarrow> u32 option hosted" where
  "sim_guestLoad ram guestAddr =
     (if guestAddr AND 0x3 \<noteq> 0 then AssertFails
      else if guestAddr > RAM_SIZE - 4 then Returns None
      else Returns (Some (ram guestAddr)))"

definition sim_guestStore :: "ram \<Rightarrow> u32 \<Rightarrow> u32 \<Rightarrow> (bool \<times> ram) hosted" where
  "sim_guestStore ram guestAddr val =
     (if guestAddr AND 0x3 \<noteq> 0 then AssertFails
      else if guestAddr > RAM_SIZE - 4 then Returns (False, ram)
      else Returns (True, ram(guestAddr := val)))"

text \<open>One word of the image, most significant byte first.\<close>

definition image_word :: "u8 \<Rightarrow> u8 \<Rightarrow> u8 \<Rightarrow> u8 \<Rightarrow> u32" where
  "image_word b0 b1 b2 b3 =
     push_bit 24 (ucast b0) OR push_bit 16 (ucast b1) OR push_bit 8 (ucast b2) OR ucast b3"

text \<open>The loop of \<^verbatim>\<open>fillState\<close>: \<^verbatim>\<open>fread\<close> delivers whole groups of four bytes.\<close>

fun fill_loop :: "u32 \<Rightarrow> u32 \<Rightarrow> ram \<Rightarrow> u8 list \<Rightarrow> ram hosted" where
  "fill_loop ram_size address ram (b0 # b1 # b2 # b3 # rest) =
     (case sim_guestStore ram address (image_word b0 b1 b2 b3) of
        AssertFails \<Rightarrow> AssertFails
      | Returns (ok, ram) \<Rightarrow>
          let address = address + 4
          in if address < ram_size then fill_loop ram_size address ram rest else AssertFails)"
| "fill_loop ram_size address ram _ = Returns ram"

definition fillState :: "ram \<Rightarrow> u8 list option \<Rightarrow> u32 \<Rightarrow> ram hosted" where
  "fillState ram file ram_size =
     (if \<not> ram_size > 0 then AssertFails
      else case file of None \<Rightarrow> AssertFails | Some bytes \<Rightarrow> fill_loop ram_size 0 ram bytes)"

text \<open>
  \<^verbatim>\<open>main\<close> up to its endless loop: \<open>c\<close> and \<open>ram\<close> are what the automatic \<^verbatim>\<open>struct CPU\<close> and the fresh
  allocation hold; the result is \<open>None\<close> for a wrong number of arguments.
\<close>

definition main_setup :: "CPU \<Rightarrow> ram \<Rightarrow> nat \<Rightarrow> u8 list option \<Rightarrow> (CPU \<times> ram) hosted option" where
  "main_setup c ram argc file =
     (if argc \<noteq> 2 then None
      else
        let c = cpu_init0 c;
            c = cpu_reset c;
            c = cpu_set_sp c (RAM_SIZE - 4)
        in Some (case fillState ram file RAM_SIZE of
             AssertFails \<Rightarrow> AssertFails
           | Returns ram \<Rightarrow> Returns (c, ram)))"

section \<open>The RAM provides word memory\<close>

definition ram_load :: "ram \<Rightarrow> u32 \<Rightarrow> u32" where
  "ram_load ram a = (case sim_guestLoad ram a of Returns (Some v) \<Rightarrow> v | _ \<Rightarrow> 0)"

definition ram_store :: "ram \<Rightarrow> u32 \<Rightarrow> u32 \<Rightarrow> ram" where
  "ram_store ram a v = (case sim_guestStore ram a v of Returns (_, r) \<Rightarrow> r | AssertFails \<Rightarrow> ram)"

interpretation sim_ram: word_memory ram_load ram_store "\<lambda>a. a AND 3 = 0 \<and> a \<le> RAM_SIZE - 4"
  by unfold_locales
    (auto simp: ram_load_def ram_store_def sim_guestLoad_def sim_guestStore_def dest: leD)

section \<open>Loading an image\<close>

text \<open>The words of an image; up to three bytes at the end are dropped.\<close>

fun words_of :: "u8 list \<Rightarrow> u32 list" where
  "words_of (b0 # b1 # b2 # b3 # rest) = image_word b0 b1 b2 b3 # words_of rest"
| "words_of _ = []"

lemma words_of_short: "length bs < 4 \<Longrightarrow> words_of bs = []"
  by (cases bs rule: words_of.cases) auto

lemma length_words_of: "length (words_of bs) = length bs div 4"
  by (induction bs rule: words_of.induct) auto

text \<open>\<open>put_words ram a ws\<close>: consecutive words from address \<open>a\<close> on.\<close>

fun put_words :: "ram \<Rightarrow> nat \<Rightarrow> u32 list \<Rightarrow> ram" where
  "put_words ram k [] = ram"
| "put_words ram k (w # ws) = put_words (ram(of_nat (4 * k) := w)) (Suc k) ws"

lemma unat_4: "k < 2 ^ 18 \<Longrightarrow> unat (of_nat (4 * k) :: u32) = 4 * k"
  by (simp only: unat_of_nat) (simp add: take_bit_nat_eq_self)

lemma fill_loop_spec:
  assumes "k < 2 ^ 18"
  shows "fill_loop RAM_SIZE (of_nat (4 * k)) ram bs =
    (if k + length bs div 4 < 2 ^ 18 then Returns (put_words ram k (words_of bs)) else AssertFails)"
  using assms
proof (induction bs arbitrary: k ram rule: length_induct)
  case (1 bs)
  show ?case
  proof (cases "length bs < 4")
    case True
    then have "fill_loop RAM_SIZE (of_nat (4 * k)) ram bs = Returns ram"
      by (cases "(RAM_SIZE, of_nat (4 * k) :: u32, ram, bs)" rule: fill_loop.cases) auto
    then show ?thesis using True 1 by (simp add: words_of_short)
  next
    case False
    then obtain b0 b1 b2 b3 rest where bs: "bs = b0 # b1 # b2 # b3 # rest"
      by (cases bs rule: words_of.cases) auto
    note u = unat_4 [OF 1(2)]
    have len: "length bs div 4 = Suc (length rest div 4)" by (simp add: bs)
    have "unat ((of_nat (4 * k) :: u32) AND 3) = 0" unfolding word_and_3_eq u by simp
    then have al: "(of_nat (4 * k) :: u32) AND 3 = 0" by (simp only: unat_eq_0)
    have le: "\<not> (of_nat (4 * k) :: u32) > RAM_SIZE - 4"
      using 1(2) by (simp only: word_less_nat_alt u) (simp add: RAM_SIZE_def)
    have nxt: "(of_nat (4 * k) :: u32) + 4 = of_nat (4 * Suc k)" by simp
    show ?thesis
    proof (cases "Suc k < 2 ^ 18")
      case True
      have "(of_nat (4 * Suc k) :: u32) < RAM_SIZE"
        using True by (simp only: word_less_nat_alt unat_4 [OF True]) (simp add: RAM_SIZE_def)
      then show ?thesis
        using 1(1) [rule_format, of rest "Suc k"] True al le
        unfolding len unfolding bs fill_loop.simps sim_guestStore_def Let_def nxt
        by (simp del: of_nat_Suc of_nat_mult of_nat_add)
    next
      case False
      then have "Suc k = 2 ^ 18" using 1(2) by simp
      then have "\<not> (of_nat (4 * Suc k) :: u32) < RAM_SIZE" by (simp only:) (simp add: RAM_SIZE_def)
      then show ?thesis
        using False al le unfolding len unfolding bs fill_loop.simps sim_guestStore_def Let_def nxt
        by (simp del: of_nat_Suc of_nat_mult of_nat_add)
    qed
  qed
qed

lemma put_words_at:
  "k + length ws \<le> 2 ^ 18 \<Longrightarrow>
   put_words ram k ws a =
     (if unat a mod 4 = 0 \<and> k \<le> unat a div 4 \<and> unat a div 4 < k + length ws
      then ws ! (unat a div 4 - k) else ram a)"
proof (induction ws arbitrary: k ram)
  case (Cons w ws)
  then have k: "k < 2 ^ 18" by simp
  have eq: "a = of_nat (4 * k) \<longleftrightarrow> unat a mod 4 = 0 \<and> unat a div 4 = k"
    unfolding word_unat_eq_iff unat_4 [OF k] by auto
  have "put_words ram k (w # ws) a = put_words (ram(of_nat (4 * k) := w)) (Suc k) ws a"
    by simp
  also have "\<dots> = (if unat a mod 4 = 0 \<and> Suc k \<le> unat a div 4 \<and> unat a div 4 < Suc k + length ws
      then ws ! (unat a div 4 - Suc k) else (ram(of_nat (4 * k) := w)) a)"
    using Cons by simp
  also have "\<dots> = (if unat a mod 4 = 0 \<and> k \<le> unat a div 4 \<and> unat a div 4 < k + length (w # ws)
      then (w # ws) ! (unat a div 4 - k) else ram a)"
    unfolding fun_upd_apply eq by (auto simp: nth_Cons' not_less_eq_eq)
  finally show ?case .
qed auto

section \<open>Properties\<close>

text \<open>
  The hosted simulator starts with a reset processor whose stack pointer is the last RAM word
  and with the image in RAM from address 0, one big-endian word per four bytes, the rest of RAM as
  allocated, provided the image has fewer words than RAM; an image of exactly the size of RAM, or a
  missing file, fails an assertion.
\<close>

lemma image_loaded:
  fixes c ram bs
  assumes "length (gpr c) = NUM_REGS"
  defines "n \<equiv> length bs div 4"
  shows "(n < 2 ^ 18 \<longrightarrow>
      (\<exists>d r. main_setup c ram 2 (Some bs) = Some (Returns (d, r)) \<and>
        wf_cpu d \<and> pc d = 0x100 \<and> npc d = 0x104 \<and> branch_pc d = 0xffffffff \<and> cpu_get_sm d \<and> cpu_get_gpr d 1 = 0xffffc \<and>
        (\<forall>a. r a = (if a AND 3 = 0 \<and> unat a < 4 * n then words_of bs ! (unat a div 4) else ram a)))) \<and>
    (2 ^ 18 \<le> n \<longrightarrow> main_setup c ram 2 (Some bs) = Some AssertFails) \<and>
    main_setup c ram 2 None = Some AssertFails"
proof -
  have f: "fillState ram (Some bs) RAM_SIZE =
      (if n < 2 ^ 18 then Returns (put_words ram 0 (words_of bs)) else AssertFails)"
    using fill_loop_spec [of 0 ram bs] by (simp add: fillState_def RAM_SIZE_def n_def)
  have r: "put_words ram 0 (words_of bs) a =
      (if a AND 3 = 0 \<and> unat a < 4 * n then words_of bs ! (unat a div 4) else ram a)" if "n < 2 ^ 18" for a
  proof -
    have "a AND 3 = 0 \<longleftrightarrow> unat a mod 4 = 0" by (simp add: word_unat_eq_iff word_and_3_eq)
    then show ?thesis
      using that put_words_at [of 0 "words_of bs" ram a] by (auto simp: length_words_of n_def)
  qed
  define d where "d = cpu_set_sp (cpu_reset (cpu_init0 c)) (RAM_SIZE - 4)"
  have l: "length (gpr (cpu_init0 c)) = NUM_REGS"
    by (simp add: cpu_init0_def cpu_initvars_def cpu_zero_def)
  have b: "branch_pc (cpu_reset_gprs i e) = branch_pc e" for i e
    by (induction i e rule: cpu_reset_gprs.induct) (subst cpu_reset_gprs.simps, simp)
  have "wf_cpu d \<and> pc d = 0x100 \<and> npc d = 0x104 \<and> branch_pc d = 0xffffffff \<and> cpu_get_sm d \<and> cpu_get_gpr d 1 = 0xffffc"
    using cpu_reset_gprs_gpr [OF l, of 0]
    by (simp add: d_def cpu_reset_def Let_def cpu_set_sp_def wf_cpu_def NUM_REGS_def cpu_get_sm_def
        cpu_is_set_sr_flag_def SPR_SR_SM_def cpu_get_gpr_def RAM_SIZE_def b)
      (simp add: cpu_init0_def cpu_initvars_def)
  then show ?thesis
    using f r by (auto simp: main_setup_def Let_def fillState_def simp flip: d_def)
qed

lemma image_loaded_witness:
  "\<exists>d r. main_setup cpu_zero (\<lambda>_. 7) 2 (Some [0, 0, 1, 5, 9]) = Some (Returns (d, r)) \<and> r 0 = 0x105 \<and> r 4 = 7"
proof -
  obtain d r where "main_setup cpu_zero (\<lambda>_. 7) 2 (Some [0, 0, 1, 5, 9]) = Some (Returns (d, r))"
    "\<And>a. r a = (if a AND 3 = 0 \<and> unat a < 4 then words_of [0, 0, 1, 5, 9] ! (unat a div 4) else 7)"
    using image_loaded [of cpu_zero "[0, 0, 1, 5, 9]" "\<lambda>_. 7"] by (auto simp: cpu_zero_def)
  then show ?thesis by (intro exI [of _ d] exI [of _ r]) (simp add: image_word_def)
qed

end
