(* ===== verification/Bin_Utils.thy ===== *)
theory Bin_Utils
  imports Prelude
begin

unbundle bit_operations_syntax

text \<open>
  The image converters \<^verbatim>\<open>src/system/software/utils/bin2*.c\<close>: from the bytes of a binary to the text
  formats the simulators and the flash model read. A file is the list of its bytes, the standard
  output a string; messages on standard error are left out. The host's \<^verbatim>\<open>unsigned long\<close> has 64 bits.
\<close>

section \<open>Hexadecimal output\<close>

definition hex_digit :: "nat \<Rightarrow> char" where
  "hex_digit n = ''0123456789abcdef'' ! n"

fun hex_digits :: "nat \<Rightarrow> string" where
  "hex_digits n = (if n < 16 then [hex_digit n] else hex_digits (n div 16) @ [hex_digit (n mod 16)])"

declare hex_digits.simps [simp del]

text \<open>\<^verbatim>\<open>printf\<close> with a conversion \<^verbatim>\<open>%.px\<close>: at least \<open>p\<close> digits (\<open>0 < p\<close> at every use).\<close>

definition printf_hex :: "nat \<Rightarrow> nat \<Rightarrow> string" where
  "printf_hex p n = replicate (p - length (hex_digits n)) (CHR ''0'') @ hex_digits n"

definition hex_byte :: "u8 \<Rightarrow> string" where
  "hex_byte c = printf_hex 2 (unat c)"

definition newline :: string where
  "newline = [CHR 0x0A]"

section \<open>\<^verbatim>\<open>bin2hex\<close>\<close>

text \<open>\<^verbatim>\<open>atoi\<close> of the C library: blanks, an optional sign, digits; anything else ends the number.\<close>

fun atoi_digits :: "int \<Rightarrow> string \<Rightarrow> int" where
  "atoi_digits v [] = v"
| "atoi_digits v (c # cs) =
     (if 48 \<le> (of_char c :: nat) \<and> (of_char c :: nat) \<le> 57
      then atoi_digits (10 * v + int (of_char c) - 48) cs else v)"

fun atoi :: "string \<Rightarrow> int" where
  "atoi [] = 0"
| "atoi (c # cs) =
     (if c \<in> {CHR '' '', CHR 0x09, CHR 0x0A, CHR 0x0B, CHR 0x0C, CHR 0x0D} then atoi cs
      else if c = CHR ''-'' then - atoi_digits 0 cs
      else if c = CHR ''+'' then atoi_digits 0 cs
      else atoi_digits 0 (c # cs))"

text \<open>The output loop: \<open>i\<close> bytes are already on the line.\<close>

fun emit_bytes :: "int \<Rightarrow> int \<Rightarrow> u8 list \<Rightarrow> string" where
  "emit_bytes bytes_per_line i [] = []"
| "emit_bytes bytes_per_line i (c # cs) =
     hex_byte c @
     (if i + 1 = bytes_per_line then newline @ emit_bytes bytes_per_line 0 cs
      else emit_bytes bytes_per_line (i + 1) cs)"

definition image_size_word :: "nat \<Rightarrow> u32" where
  "image_size_word len = (of_nat len + 3) AND 0xfffffffc"

definition size_bytes :: "u32 \<Rightarrow> u8 list" where
  "size_bytes image_size =
     [ucast (drop_bit 24 image_size), ucast (drop_bit 16 image_size), ucast (drop_bit 8 image_size),
      ucast image_size]"

text \<open>\<^verbatim>\<open>main\<close>: the arguments with the program name first; the exit status and the output.\<close>

definition bin2hex_main :: "(string \<Rightarrow> u8 list option) \<Rightarrow> string list \<Rightarrow> int \<times> string" where
  "bin2hex_main fopen argv =
     (if length argv < 3 then (1, [])
      else
        let write_size_word = (length argv = 4 \<and> argv ! 3 = ''-size_word'');
            fd = fopen (argv ! 1);
            bytes_per_line = atoi (argv ! 2)
        in if bytes_per_line = 0 \<or> bytes_per_line > 8 then (1, [])
           else case fd of
             None \<Rightarrow> (1, [])
           | Some bytes \<Rightarrow>
               if write_size_word \<and> image_size_word (length bytes) < 8 then (1, [])
               else (0, (if write_size_word
                         then emit_bytes bytes_per_line 0 (size_bytes (image_size_word (length bytes)))
                         else []) @
                        emit_bytes bytes_per_line 0 (drop 4 bytes)))"

section \<open>\<^verbatim>\<open>bin2srec\<close>\<close>

definition SCHKSUM :: u8 where
  "SCHKSUM = 0xff"

definition INIT_ADDR :: u64 where
  "INIT_ADDR = 0x100100"

text \<open>The inner loop: the data bytes and the running checksum.\<close>

fun srec_bytes :: "u8 \<Rightarrow> u8 list \<Rightarrow> string \<times> u8" where
  "srec_bytes chksum [] = ([], chksum)"
| "srec_bytes chksum (c # cs) =
     (case srec_bytes (chksum - c) cs of (out, k) \<Rightarrow> (hex_byte c @ out, k))"

definition srec_record :: "u64 \<Rightarrow> u8 list \<Rightarrow> string" where
  "srec_record addr ds =
     (let (out, chksum) = srec_bytes SCHKSUM ds;
          chksum = chksum - ucast (addr AND 0xff);
          chksum = chksum - ucast (drop_bit 8 addr AND 0xff);
          chksum = chksum - ucast (drop_bit 16 addr AND 0xff);
          chksum = chksum - 0x14
      in ''S214'' @ printf_hex 6 (unat addr) @ out @ hex_byte chksum @ [CHR 0x0D, CHR 0x0A])"

text \<open>
  \<^verbatim>\<open>while (!feof(fd))\<close>: end of file is noticed by the read that fails, so the loop ends with the
  first record that had to be padded.
\<close>

function srec_loop :: "u64 \<Rightarrow> u8 list \<Rightarrow> string" where
  "srec_loop addr bs =
     srec_record addr (take 16 (bs @ replicate 16 0)) @
     (if length bs < 16 then [] else srec_loop (addr + 16) (drop 16 bs))"
  by pat_completeness auto
termination
  by (relation "measure (\<lambda>(addr, bs). length bs)") auto

declare srec_loop.simps [simp del]

definition bin2srec_main :: "(string \<Rightarrow> u8 list option) \<Rightarrow> string list \<Rightarrow> int \<times> string" where
  "bin2srec_main fopen argv =
     (if length argv < 2 then (1, [])
      else if length argv > 2 then (1, [])
      else case fopen (argv ! 1) of
        None \<Rightarrow> (1, [])
      | Some bytes \<Rightarrow> (0, srec_loop INIT_ADDR bytes))"

section \<open>\<^verbatim>\<open>bin2vmem\<close>\<close>

definition WORDS_PER_LINE :: nat where
  "WORDS_PER_LINE = 4"

definition BYTES_PER_WORD :: nat where
  "BYTES_PER_WORD = 4"

text \<open>The output loop with its counters; \<^verbatim>\<open>write_size_word\<close> is 0 in this program.\<close>

fun vmem_loop :: "u32 \<Rightarrow> nat \<Rightarrow> nat \<Rightarrow> bool \<Rightarrow> u8 list \<Rightarrow> string" where
  "vmem_loop current_addr word_counter byte_counter starting_new_line [] = []"
| "vmem_loop current_addr word_counter byte_counter starting_new_line (c # cs) =
     (let out = (if starting_new_line then CHR ''@'' # printf_hex 8 (unat current_addr) else []);
          current_addr = (if starting_new_line then current_addr + of_nat WORDS_PER_LINE else current_addr);
          starting_new_line = False;
          out = out @ (if byte_counter = 0 then '' '' else []) @ hex_byte c;
          byte_counter = byte_counter + 1;
          (word_counter, byte_counter) =
            (if byte_counter = BYTES_PER_WORD then (word_counter + 1, 0) else (word_counter, byte_counter));
          (out, word_counter, starting_new_line) =
            (if word_counter = WORDS_PER_LINE then (out @ newline, 0, True)
             else (out, word_counter, starting_new_line))
      in out @ vmem_loop current_addr word_counter byte_counter starting_new_line cs)"

definition bin2vmem_main :: "(string \<Rightarrow> u8 list option) \<Rightarrow> string list \<Rightarrow> int \<times> string" where
  "bin2vmem_main fopen argv =
     (if length argv < 2 then (1, [])
      else case fopen (argv ! 1) of
        None \<Rightarrow> (1, [])
      | Some bytes \<Rightarrow> (0, vmem_loop 0 0 0 True bytes))"

section \<open>\<^verbatim>\<open>bin2flimg\<close>\<close>

definition flimg_word :: "nat \<Rightarrow> u8 list \<Rightarrow> u64" where
  "flimg_word width bs =
     foldl (\<lambda>word c. push_bit 8 word + ucast c) 0 (take width (bs @ replicate width 0))"

definition flimg_line :: "nat \<Rightarrow> u64 \<Rightarrow> string" where
  "flimg_line width word =
     (if width = 1 then printf_hex 2 (unat word)
      else if width = 2 then printf_hex 4 (unat word)
      else printf_hex 8 (unat word)) @ newline"

text \<open>A width of zero or less reads nothing, so end of file is never seen: the loop does not end.\<close>

function flimg_loop :: "nat \<Rightarrow> u8 list \<Rightarrow> string option" where
  "flimg_loop width bs =
     (if width = 0 then None
      else if length bs < width then Some (flimg_line width (flimg_word width bs))
      else map_option (\<lambda>out. flimg_line width (flimg_word width bs) @ out)
             (flimg_loop width (drop width bs)))"
  by pat_completeness auto
termination
  by (relation "measure (\<lambda>(width, bs). length bs)") auto

declare flimg_loop.simps [simp del]

definition bin2flimg_main :: "(string \<Rightarrow> u8 list option) \<Rightarrow> string list \<Rightarrow> (int \<times> string) option" where
  "bin2flimg_main fopen argv =
     (if length argv < 3 then Some (1, [])
      else if length argv > 3 then Some (1, [])
      else
        let width = atoi (argv ! 1)
        in case fopen (argv ! 2) of
             None \<Rightarrow> Some (1, [])
           | Some bytes \<Rightarrow> map_option (\<lambda>out. (0, out)) (flimg_loop (nat width) bytes))"

section \<open>\<^verbatim>\<open>bin2c\<close>\<close>

fun c_array :: "nat \<Rightarrow> u8 list \<Rightarrow> string" where
  "c_array i [] = []"
| "c_array i (c # cs) =
     ''0x'' @ hex_byte c @ '', '' @ (if i mod 32 = 0 then newline else []) @ c_array (i + 1) cs"

definition bin2c_main :: "u8 list \<Rightarrow> int \<times> string" where
  "bin2c_main stdin =
     (0, ''#ifdef HAVE_CONFIG_H'' @ newline @
         ''# include '' @ [CHR 0x22] @ ''config.h'' @ [CHR 0x22] @ newline @
         ''#endif'' @ newline @ newline @
         ''#ifdef EMBED'' @ newline @
         ''unsigned char flash_data[] = {'' @ newline @
         c_array 0 stdin @
         '' };'' @ newline @
         ''#endif'' @ newline)"

section \<open>The interface: two-digit bytes\<close>

text \<open>Reading back a sequence of bytes of two characters each.\<close>

fun decode_bytes :: "(string \<Rightarrow> u8 option) \<Rightarrow> string \<Rightarrow> u8 list option" where
  "decode_bytes dec [] = Some []"
| "decode_bytes dec [x] = None"
| "decode_bytes dec (x # y # rest) =
     (case dec [x, y] of None \<Rightarrow> None | Some b \<Rightarrow> map_option ((#) b) (decode_bytes dec rest))"

locale byte_codec =
  fixes enc :: "u8 \<Rightarrow> string" and dec :: "string \<Rightarrow> u8 option" and digits :: "char set"
  assumes two: "length (enc b) = 2" and dec_enc: "dec (enc b) = Some b" and in_digits: "set (enc b) \<subseteq> digits"
begin

lemma decode_encode: "decode_bytes dec (concat (map enc bs)) = Some bs"
proof (induction bs)
  case (Cons b bs)
  obtain x y where "enc b = [x, y]" using two [of b] by (auto simp: length_Suc_conv numeral_2_eq_2)
  then show ?case using Cons dec_enc [of b] by simp
qed simp

lemma length_encode: "length (concat (map enc bs)) = 2 * length bs"
  by (induction bs) (simp_all add: two)

lemma filter_separators:
  "(\<And>c. c \<in> digits \<Longrightarrow> P c) \<Longrightarrow> filter P (concat (map enc bs)) = concat (map enc bs)"
  using in_digits by (auto simp: filter_id_conv)

lemma encode_inject: "concat (map enc bs) = concat (map enc cs) \<longleftrightarrow> bs = cs"
  by (metis decode_encode option.inject)

end

text \<open>The reader of two lower-case hexadecimal digits.\<close>

definition hex_value :: "char \<Rightarrow> nat option" where
  "hex_value c = map_of (zip ''0123456789abcdef'' [0..<16]) c"

definition hex_read :: "string \<Rightarrow> u8 option" where
  "hex_read s = (case s of [x, y] \<Rightarrow>
     (case (hex_value x, hex_value y) of (Some a, Some b) \<Rightarrow> Some (of_nat (16 * a + b)) | _ \<Rightarrow> None)
   | _ \<Rightarrow> None)"

lemma hex_value_digit: "n < 16 \<Longrightarrow> hex_value (hex_digit n) = Some n"
proof -
  assume "n < 16"
  then have "n \<in> set [0..<16]" by simp
  moreover have "\<forall>n\<in>set [0..<16]. hex_value (hex_digit n) = Some n" by code_simp
  ultimately show ?thesis by blast
qed

lemma printf_hex_Suc:
  "0 < p \<Longrightarrow> printf_hex (Suc p) n = printf_hex p (n div 16) @ [hex_digit (n mod 16)]"
proof (cases "n < 16")
  case True
  assume "0 < p"
  then obtain q where "p = Suc q" by (cases p) auto
  moreover have "hex_digits n = [hex_digit n]" "hex_digits (n div 16) = [CHR ''0'']"
    using True by (simp_all add: hex_digits.simps [of n] hex_digits.simps [of 0] hex_digit_def)
  ultimately show ?thesis using True by (simp add: printf_hex_def replicate_append_same)
next
  case False
  then show ?thesis by (simp add: printf_hex_def hex_digits.simps [of n])
qed

lemma printf_hex_1: "n < 16 \<Longrightarrow> printf_hex 1 n = [hex_digit n]"
  by (simp add: printf_hex_def hex_digits.simps [of n])

lemma printf_hex_2: "n < 256 \<Longrightarrow> printf_hex 2 n = [hex_digit (n div 16), hex_digit (n mod 16)]"
  using printf_hex_Suc [of 1 n] printf_hex_1 [of "n div 16"] by (simp add: numeral_2_eq_2)

lemma unat_u8_less: "unat (b :: u8) < 256"
  using unsigned_less [of b] by simp

lemma hex_byte_eq: "hex_byte b = [hex_digit (unat b div 16), hex_digit (unat b mod 16)]"
  unfolding hex_byte_def by (rule printf_hex_2) (rule unat_u8_less)

definition hex_chars :: "char set" where
  "hex_chars = set ''0123456789abcdef''"

lemma hex_digit_chars: "n < 16 \<Longrightarrow> hex_digit n \<in> hex_chars"
  unfolding hex_digit_def hex_chars_def by (rule nth_mem) simp

interpretation hexb: byte_codec hex_byte hex_read hex_chars
proof
  fix b :: u8
  have l: "unat b div 16 < 16" "unat b mod 16 < 16" using unat_u8_less [of b] by simp_all
  show "length (hex_byte b) = 2" by (simp add: hex_byte_eq)
  show "hex_read (hex_byte b) = Some b"
    by (simp add: hex_byte_eq hex_read_def hex_value_digit l)
  show "set (hex_byte b) \<subseteq> hex_chars"
    by (simp add: hex_byte_eq hex_digit_chars l)
qed

section \<open>S-records\<close>

text \<open>The three low bytes of an address.\<close>

definition addr_bytes :: "u64 \<Rightarrow> u8 list" where
  "addr_bytes addr = [ucast (drop_bit 16 addr), ucast (drop_bit 8 addr), ucast addr]"

lemma ucast_low_byte: "(ucast (x AND 0xff :: u64) :: u8) = ucast x"
proof -
  have m: "(0xff :: u64) = mask 8" by (simp add: mask_eq_exp_minus_1)
  show ?thesis unfolding m by (rule bit_word_eqI) (auto simp: bit_simps)
qed

lemma unat_addr_byte: "unat (ucast (drop_bit k (addr :: u64)) :: u8) = unat addr div 2 ^ k mod 256"
proof -
  have "unat (ucast (drop_bit k addr) :: u8) = take_bit 8 (drop_bit k (unat addr))"
    by (simp only: unsigned_ucast_eq unat_drop_bit_eq) simp
  then show ?thesis by (simp add: drop_bit_eq_div take_bit_eq_mod)
qed

lemma byte_high_digit: "x mod 256 div 16 = x div 16 mod (16 :: nat)"
  using mod_mult2_eq [of x 16 16] by simp

lemma printf_address:
  assumes "unat addr < 2 ^ 24"
  shows "printf_hex 6 (unat addr) = concat (map hex_byte (addr_bytes addr))"
proof -
  define n where "n = unat addr"
  have n: "n < 2 ^ 24" using assms by (simp add: n_def)
  have six: "printf_hex 6 n = [hex_digit (n div 16 ^ 5), hex_digit (n div 16 ^ 4 mod 16),
      hex_digit (n div 16 ^ 3 mod 16), hex_digit (n div 16 ^ 2 mod 16), hex_digit (n div 16 mod 16),
      hex_digit (n mod 16)]"
  proof -
    have "n div 16 ^ 4 < 256" using n by simp
    then show ?thesis
      using printf_hex_Suc [of 5 n] printf_hex_Suc [of 4 "n div 16"] printf_hex_Suc [of 3 "n div 16 ^ 2"]
        printf_hex_Suc [of 2 "n div 16 ^ 3"] printf_hex_2 [of "n div 16 ^ 4"]
      by (simp add: div_mult2_eq [symmetric])
  qed
  have b: "unat (ucast (drop_bit 16 addr) :: u8) = n div 2 ^ 16 mod 256"
    "unat (ucast (drop_bit 8 addr) :: u8) = n div 2 ^ 8 mod 256" "unat (ucast addr :: u8) = n mod 256"
    using unat_addr_byte [of 16 addr] unat_addr_byte [of 8 addr] unat_addr_byte [of 0 addr]
    by (simp_all add: n_def)
  have h: "hex_digit (x mod 256 mod 16) = hex_digit (x mod 16)"
    "hex_digit (x mod 256 div 16) = hex_digit (x div 16 mod 16)" for x :: nat
    by (simp_all add: byte_high_digit mod_mod_cancel)
  have "n div 16 ^ 5 mod 16 = n div 16 ^ 5" using n by simp
  then show ?thesis unfolding n_def [symmetric] six
    by (simp add: addr_bytes_def hex_byte_eq b h div_mult2_eq [symmetric])
qed

lemma srec_bytes_eq: "srec_bytes k ds = (concat (map hex_byte ds), k - sum_list ds)"
  by (induction ds arbitrary: k) (simp_all add: diff_diff_eq)

definition srec_checksum :: "u64 \<Rightarrow> u8 list \<Rightarrow> u8" where
  "srec_checksum addr ds = 0xff - (0x14 + sum_list (addr_bytes addr) + sum_list ds)"

lemma srec_record_eq:
  assumes "unat addr < 2 ^ 24"
  shows "srec_record addr ds =
    ''S214'' @ concat (map hex_byte (addr_bytes addr @ ds @ [srec_checksum addr ds])) @ [CHR 0x0D, CHR 0x0A]"
proof -
  have "SCHKSUM - sum_list ds - ucast addr - ucast (drop_bit 8 addr) - ucast (drop_bit 16 addr) - 0x14 =
      srec_checksum addr ds"
    by (simp add: srec_checksum_def addr_bytes_def SCHKSUM_def)
  then show ?thesis
    by (simp add: srec_record_def Let_def srec_bytes_eq ucast_low_byte printf_address [OF assms])
qed

definition srec_block :: "nat \<Rightarrow> u8 list \<Rightarrow> u8 list" where
  "srec_block k bs = take 16 (drop (16 * k) (bs @ replicate 16 0))"

lemma srec_loop_eq:
  "srec_loop addr bs =
     concat (map (\<lambda>k. srec_record (addr + 16 * of_nat k) (srec_block k bs)) [0..<length bs div 16 + 1])"
proof (induction addr bs rule: srec_loop.induct)
  case (1 addr bs)
  show ?case
  proof (cases "length bs < 16")
    case True
    then show ?thesis by (simp add: srec_loop.simps [of addr bs] srec_block_def)
  next
    case False
    then have d: "length bs div 16 = Suc (length (drop 16 bs) div 16)" by (simp add: le_div_geq)
    have u: "[0..<Suc n + 1] = 0 # map Suc [0..<n + 1]" for n
      using upt_conv_Cons [of 0 "Suc (n + 1)"] by (simp only: map_Suc_upt) simp
    have b: "srec_block (Suc k) bs = srec_block k (drop 16 bs)" for k
      using False by (simp add: srec_block_def drop_drop add.commute)
    show ?thesis
      unfolding srec_loop.simps [of addr bs] d u
      using 1 [OF False] False b by (simp add: srec_block_def o_def algebra_simps del: upt_Suc)
  qed
qed

text \<open>The records carry the whole file, padded with zero bytes.\<close>

lemma srec_blocks_upto:
  "n \<le> length bs div 16 + 1 \<Longrightarrow>
   concat (map (\<lambda>k. srec_block k bs) [0..<n]) = take (16 * n) (bs @ replicate 16 0)"
proof (induction n)
  case (Suc n)
  have "take (16 * Suc n) ys = take (16 * n) ys @ take 16 (drop (16 * n) ys)" for ys :: "u8 list"
    using take_add [of "16 * n" 16 ys] by (simp add: add.commute)
  then show ?case using Suc by (simp add: srec_block_def)
qed simp

lemma srec_blocks:
  "concat (map (\<lambda>k. srec_block k bs) [0..<length bs div 16 + 1]) =
   bs @ replicate (16 - length bs mod 16) 0"
proof -
  define q r where "q = length bs div 16" and "r = length bs mod 16"
  have l: "length bs = 16 * q + r" and r: "r < 16" by (simp_all add: q_def r_def)
  have "16 * (length bs div 16 + 1) - length bs = 16 - length bs mod 16"
    "length bs \<le> 16 * (length bs div 16 + 1)"
    unfolding q_def [symmetric] r_def [symmetric] using l r by simp_all
  then show ?thesis
    using srec_blocks_upto [of "length bs div 16 + 1" bs] by (simp add: min_def)
qed

lemma srec_address:
  assumes "unat INIT_ADDR + length bs < 2 ^ 24" and "k \<le> length bs div 16"
  shows "unat (INIT_ADDR + 16 * of_nat k) < 2 ^ 24"
proof -
  have "16 * k \<le> length bs" using assms(2) by linarith
  then have k: "0x100100 + 16 * k < 2 ^ 24" using assms(1) by (simp add: INIT_ADDR_def)
  have "INIT_ADDR + 16 * of_nat k = of_nat (0x100100 + 16 * k)" by (simp add: INIT_ADDR_def)
  then show ?thesis using k by (simp only: unat_of_nat) (simp add: take_bit_eq_mod)
qed

lemma srec_sum: "0x14 + sum_list (addr_bytes addr @ ds @ [srec_checksum addr ds]) = 0xff"
  by (simp add: srec_checksum_def)

section \<open>Lines of hexadecimal bytes\<close>

lemma emit_rest:
  "length cs < w - i \<Longrightarrow> emit_bytes (int w) (int i) cs = concat (map hex_byte cs)"
proof (induction cs arbitrary: i)
  case (Cons c cs)
  then have "length cs < w - Suc i" and "Suc i \<noteq> w" by auto
  then show ?case using Cons.IH [of "Suc i"] by (simp add: add.commute)
qed simp

lemma emit_line:
  "i < w \<Longrightarrow> w - i \<le> length cs \<Longrightarrow>
   emit_bytes (int w) (int i) cs =
     concat (map hex_byte (take (w - i) cs)) @ newline @ emit_bytes (int w) 0 (drop (w - i) cs)"
proof (induction cs arbitrary: i)
  case (Cons c cs)
  show ?case
  proof (cases "Suc i = w")
    case True
    then have "w - i = Suc 0" "int i + 1 = int w" by auto
    then show ?thesis by simp
  next
    case False
    then have "w - i = Suc (w - Suc i)" "int i + 1 = int (Suc i)" "Suc i < w" using Cons.prems by auto
    then show ?thesis using Cons.IH [of "Suc i"] Cons.prems False by (simp add: add.commute)
  qed
qed simp

text \<open>The full lines of \<open>w\<close> bytes and the bytes left over.\<close>

definition hex_lines :: "nat \<Rightarrow> u8 list \<Rightarrow> u8 list list" where
  "hex_lines w bs = map (\<lambda>k. take w (drop (w * k) bs)) [0..<length bs div w]"

lemma hex_lines_step:
  assumes "0 < w" and "w \<le> length bs"
  shows "hex_lines w bs = take w bs # hex_lines w (drop w bs)"
proof -
  have d: "length bs div w = Suc (length (drop w bs) div w)" using assms by (simp add: le_div_geq)
  have u: "[0..<Suc n] = 0 # map Suc [0..<n]" for n
    using upt_conv_Cons [of 0 "Suc n"] by (simp add: map_Suc_upt del: upt_Suc)
  show ?thesis unfolding hex_lines_def d u by (simp add: drop_drop add.commute del: upt_Suc)
qed

lemma emit_lines:
  assumes "0 < w"
  shows "emit_bytes (int w) 0 bs =
    concat (map (\<lambda>l. concat (map hex_byte l) @ newline) (hex_lines w bs)) @
    concat (map hex_byte (drop (w * (length bs div w)) bs))"
proof (induction "length bs" arbitrary: bs rule: less_induct)
  case less
  show ?case
  proof (cases "length bs < w")
    case True
    then show ?thesis using emit_rest [of bs w 0] by (simp add: hex_lines_def)
  next
    case False
    then have d: "length bs div w = Suc (length (drop w bs) div w)" and l: "w \<le> length bs"
      using assms by (simp_all add: le_div_geq)
    have "emit_bytes (int w) 0 bs =
        concat (map hex_byte (take w bs)) @ newline @ emit_bytes (int w) 0 (drop w bs)"
      using emit_line [of 0 w bs] assms l by simp
    then show ?thesis
      using less [of "drop w bs"] assms l
      by (simp add: hex_lines_step [OF assms l] d drop_drop add.commute)
  qed
qed

lemma emit_filter: "filter (\<lambda>c. c \<noteq> CHR 0x0A) (emit_bytes w i bs) = concat (map hex_byte bs)"
proof (induction bs arbitrary: i)
  case (Cons b bs)
  have "filter (\<lambda>c. c \<noteq> CHR 0x0A) (hex_byte b) = hex_byte b"
    using hexb.filter_separators [of "\<lambda>c. c \<noteq> CHR 0x0A" "[b]"] by (auto simp: hex_chars_def)
  then show ?case using Cons by (simp add: newline_def)
qed simp

lemma unat_image_size_word:
  assumes "len + 3 < 2 ^ 32"
  shows "unat (image_size_word len) = 4 * ((len + 3) div 4)"
proof -
  have n2: "Suc (Suc (n - 2)) = n" if "2 \<le> n" for n :: nat using that by simp
  have m: "(0xfffffffc :: u32) = NOT (mask 2)" by (simp add: mask_eq_exp_minus_1)
  have "image_size_word len = push_bit 2 (drop_bit 2 (of_nat (len + 3)))"
    unfolding image_size_word_def m of_nat_add of_nat_numeral
    by (rule bit_word_eqI) (auto simp: bit_simps not_less n2)
  moreover have "take_bit 32 (len + 3) = len + 3" using assms by (simp add: take_bit_nat_eq_self)
  ultimately have "unat (image_size_word len) = take_bit 32 (push_bit 2 (drop_bit 2 (len + 3)))"
    by (simp add: unsigned_push_bit_eq unat_drop_bit_eq unat_of_nat take_bit_eq_mod del: of_nat_add)
  moreover have "push_bit 2 (drop_bit 2 (len + 3)) = 4 * ((len + 3) div 4)"
    by (simp add: push_bit_eq_mult drop_bit_eq_div)
  moreover have "4 * ((len + 3) div 4) < 2 ^ 32" using assms by linarith
  ultimately show ?thesis by (simp add: take_bit_nat_eq_self)
qed

section \<open>The theorems\<close>

text \<open>
  bin2srec writes one S2 record for every sixteen bytes of the file and one more, which holds the
  last bytes padded with zeros (nothing but zeros when the length is a multiple of 16, as end of file is
  only noticed by a read that fails). For a file whose addresses fit the three address bytes, each record
  reads back as its address, its sixteen bytes and a checksum that makes all its bytes, count included,
  add up to 0xff, and the data of the records is the file with its padding.
\<close>

lemma srec_records:
  assumes "fopen src = Some bs" and "unat INIT_ADDR + length bs < 2 ^ 24"
  shows "\<exists>payload check.
    bin2srec_main fopen [prog, src] =
      (0, concat (map (\<lambda>k. ''S214'' @ payload k @ [CHR 0x0D, CHR 0x0A]) [0..<length bs div 16 + 1])) \<and>
    (\<forall>k \<le> length bs div 16.
      decode_bytes hex_read (payload k) =
        Some (addr_bytes (INIT_ADDR + 16 * of_nat k) @ srec_block k bs @ [check k]) \<and>
      0x14 + sum_list (addr_bytes (INIT_ADDR + 16 * of_nat k) @ srec_block k bs @ [check k]) = 0xff) \<and>
    concat (map (\<lambda>k. srec_block k bs) [0..<length bs div 16 + 1]) = bs @ replicate (16 - length bs mod 16) 0"
proof -
  define check where "check k = srec_checksum (INIT_ADDR + 16 * of_nat k) (srec_block k bs)" for k
  define payload where "payload k =
    concat (map hex_byte (addr_bytes (INIT_ADDR + 16 * of_nat k) @ srec_block k bs @ [check k]))" for k
  have "srec_record (INIT_ADDR + 16 * of_nat k) (srec_block k bs) = ''S214'' @ payload k @ [CHR 0x0D, CHR 0x0A]"
    if "k \<le> length bs div 16" for k
    using srec_record_eq [OF srec_address [OF assms(2) that]] by (simp only: payload_def check_def)
  then have mp: "map (\<lambda>k. srec_record (INIT_ADDR + 16 * of_nat k) (srec_block k bs)) [0..<length bs div 16 + 1] =
      map (\<lambda>k. ''S214'' @ payload k @ [CHR 0x0D, CHR 0x0A]) [0..<length bs div 16 + 1]"
    by (intro map_cong refl) auto
  then have main: "bin2srec_main fopen [prog, src] =
      (0, concat (map (\<lambda>k. ''S214'' @ payload k @ [CHR 0x0D, CHR 0x0A]) [0..<length bs div 16 + 1]))"
    unfolding mp [symmetric] srec_loop_eq [symmetric] using assms(1) by (simp add: bin2srec_main_def)
  show ?thesis
  proof (intro exI conjI allI impI)
    show "bin2srec_main fopen [prog, src] =
      (0, concat (map (\<lambda>k. ''S214'' @ payload k @ [CHR 0x0D, CHR 0x0A]) [0..<length bs div 16 + 1]))"
      by (rule main)
    show "decode_bytes hex_read (payload k) =
        Some (addr_bytes (INIT_ADDR + 16 * of_nat k) @ srec_block k bs @ [check k])" for k
      unfolding payload_def by (rule hexb.decode_encode)
    show "0x14 + sum_list (addr_bytes (INIT_ADDR + 16 * of_nat k) @ srec_block k bs @ [check k]) = 0xff" for k
      unfolding check_def by (rule srec_sum)
  qed (rule srec_blocks)
qed

lemma srec_records_witness:
  "\<exists>payload c. bin2srec_main (\<lambda>_. Some [1, 2]) [[], []] = (0, ''S214'' @ payload @ [CHR 0x0D, CHR 0x0A]) \<and>
     decode_bytes hex_read payload = Some ([0x10, 0x01, 0x00, 1, 2] @ replicate 14 0 @ [c])"
proof -
  have l: "unat INIT_ADDR + length [1 :: u8, 2] < 2 ^ 24" by (simp add: INIT_ADDR_def)
  have b: "addr_bytes (INIT_ADDR + 16 * of_nat 0) = [0x10, 0x01, 0x00]"
    "srec_block 0 [1, 2] = [1, 2] @ replicate 14 0"
    by (code_simp, code_simp)
  obtain payload check where
    m: "bin2srec_main (\<lambda>_. Some [1, 2]) [[], []] =
      (0, concat (map (\<lambda>k. ''S214'' @ payload k @ [CHR 0x0D, CHR 0x0A]) [0..<length [1 :: u8, 2] div 16 + 1]))"
    and d: "\<forall>k \<le> length [1 :: u8, 2] div 16.
      decode_bytes hex_read (payload k) =
        Some (addr_bytes (INIT_ADDR + 16 * of_nat k) @ srec_block k [1, 2] @ [check k]) \<and>
      0x14 + sum_list (addr_bytes (INIT_ADDR + 16 * of_nat k) @ srec_block k [1, 2] @ [check k]) = 0xff"
    using srec_records [of "\<lambda>_. Some [1, 2]" "[]" "[1, 2]" "[]", OF refl l] by blast
  have "decode_bytes hex_read (payload 0) = Some ([0x10, 0x01, 0x00, 1, 2] @ replicate 14 0 @ [check 0])"
    using d [rule_format, of 0] unfolding b by simp
  then show ?thesis using m by (intro exI [of _ "payload 0"] exI [of _ "check 0"]) simp
qed

lemma bin2hex_plain:
  assumes "fopen src = Some bs" and "atoi width \<noteq> 0" and "atoi width \<le> 8"
  shows "bin2hex_main fopen [prog, src, width] = (0, emit_bytes (atoi width) 0 (drop 4 bs))"
  using assms by (simp add: bin2hex_main_def Let_def)

lemma bin2hex_sized:
  assumes "fopen src = Some bs" and "atoi width \<noteq> 0" and "atoi width \<le> 8"
    and "5 \<le> length bs" and "length bs + 3 < 2 ^ 32"
  shows "bin2hex_main fopen [prog, src, width, ''-size_word''] =
    (0, emit_bytes (atoi width) 0 (size_bytes (image_size_word (length bs))) @
        emit_bytes (atoi width) 0 (drop 4 bs))"
proof -
  have "8 div 4 \<le> (length bs + 3) div 4" using assms(4) by (intro div_le_mono) simp
  then have "8 \<le> unat (image_size_word (length bs))"
    unfolding unat_image_size_word [OF assms(5)] by simp
  then have "\<not> image_size_word (length bs) < 8" by (simp add: word_less_nat_alt)
  then show ?thesis using assms by (simp add: bin2hex_main_def Let_def)
qed

text \<open>
  bin2hex with a line width from 1 to 8: the output is the file less its first four bytes, two digits
  a byte, in full lines of that many bytes and an unfinished last line; with -size_word (and at least five
  bytes) the length rounded up to a multiple of four comes first, in four bytes. Reading the digits back,
  line breaks left out, gives these bytes. A width of 0 or above 8 is an error.
\<close>

lemma hex_image:
  assumes "fopen src = Some bs" and "atoi width = int w" and "1 \<le> w" and "w \<le> 8"
    and "5 \<le> length bs" and "length bs + 3 < 2 ^ 32" and "atoi bad = 0 \<or> 8 < atoi bad"
  shows "(\<exists>text. bin2hex_main fopen [prog, src, width] = (0, text) \<and>
      text = concat (map (\<lambda>l. concat (map hex_byte l) @ newline) (hex_lines w (drop 4 bs))) @
             concat (map hex_byte (drop (w * ((length bs - 4) div w)) (drop 4 bs))) \<and>
      decode_bytes hex_read (filter (\<lambda>c. c \<noteq> CHR 0x0A) text) = Some (drop 4 bs)) \<and>
    (\<exists>text size. bin2hex_main fopen [prog, src, width, ''-size_word''] = (0, text) \<and>
      unat size = 4 * ((length bs + 3) div 4) \<and>
      decode_bytes hex_read (filter (\<lambda>c. c \<noteq> CHR 0x0A) text) = Some (size_bytes size @ drop 4 bs)) \<and>
    bin2hex_main fopen [prog, src, bad] = (1, [])"
proof (intro conjI)
  have w: "atoi width \<noteq> 0" "atoi width \<le> 8" "0 < w" using assms by simp_all
  show "\<exists>text. bin2hex_main fopen [prog, src, width] = (0, text) \<and>
      text = concat (map (\<lambda>l. concat (map hex_byte l) @ newline) (hex_lines w (drop 4 bs))) @
             concat (map hex_byte (drop (w * ((length bs - 4) div w)) (drop 4 bs))) \<and>
      decode_bytes hex_read (filter (\<lambda>c. c \<noteq> CHR 0x0A) text) = Some (drop 4 bs)"
    using emit_lines [OF w(3), of "drop 4 bs"] emit_filter [of "int w" 0 "drop 4 bs"]
    unfolding bin2hex_plain [where fopen = fopen and src = src, OF assms(1) w(1,2)] assms(2)
    by (intro exI [of _ "emit_bytes (int w) 0 (drop 4 bs)"]) (simp add: hexb.decode_encode)
  have f: "filter (\<lambda>c. c \<noteq> CHR 0x0A)
      (emit_bytes (int w) 0 (size_bytes size) @ emit_bytes (int w) 0 (drop 4 bs)) =
      concat (map hex_byte (size_bytes size @ drop 4 bs))" for size
    by (simp only: filter_append emit_filter map_append concat_append)
  show "\<exists>text size. bin2hex_main fopen [prog, src, width, ''-size_word''] = (0, text) \<and>
      unat size = 4 * ((length bs + 3) div 4) \<and>
      decode_bytes hex_read (filter (\<lambda>c. c \<noteq> CHR 0x0A) text) = Some (size_bytes size @ drop 4 bs)"
    unfolding bin2hex_sized [where fopen = fopen and src = src, OF assms(1) w(1,2) assms(5,6)] assms(2)
    using f hexb.decode_encode unat_image_size_word [OF assms(6)]
    by (intro exI conjI) (rule refl, assumption, simp only: )
  show "bin2hex_main fopen [prog, src, bad] = (1, [])"
    using assms(7) by (auto simp: bin2hex_main_def Let_def)
qed

lemma hex_image_witness:
  "\<exists>text. bin2hex_main (\<lambda>_. Some [1, 2, 3, 4, 0xab, 0xcd, 0xef]) [[], [], ''2''] = (0, text) \<and>
    decode_bytes hex_read (filter (\<lambda>c. c \<noteq> CHR 0x0A) text) = Some [0xab, 0xcd, 0xef]"
proof -
  have "atoi ''2'' = int 2" "atoi ''9'' = 9" by code_simp+
  then show ?thesis
    using hex_image [of "\<lambda>_. Some [1, 2, 3, 4, 0xab, 0xcd, 0xef]" "[]" "[1, 2, 3, 4, 0xab, 0xcd, 0xef]" "''2''" 2
      "''9''" "[]"] by auto
qed

end
