(* ===== verification/Rsp_Packet.thy ===== *)
theory Rsp_Packet
  imports Bin_Utils
begin

unbundle bit_operations_syntax

text \<open>
  The packet layer of the GDB remote serial protocol, as the two servers of the JTAG bridge have it
  (\<^verbatim>\<open>rsp-server.c\<close> and \<^verbatim>\<open>hwp_server.c\<close> in
  \<^verbatim>\<open>src/system/hardware/cores/adv_debug_sys/Software/adv_jtag_bridge\<close>): the character functions on the
  client socket, sending with escapes, checksum and retransmission, receiving with validation, and the
  conversions between registers, bytes and hexadecimal digits. Both servers contain the same code; what
  differs is a parameter here (the buffer size, the out-of-band break).
\<close>

section \<open>Characters and bytes\<close>

definition byte :: "char \<Rightarrow> u8" where
  "byte c = of_nat (of_char c)"

definition byte_char :: "u8 \<Rightarrow> char" where
  "byte_char b = char_of (unat b)"

lemma byte_char_byte [simp]: "byte_char (byte c) = c"
  by (simp add: byte_def byte_char_def unat_of_nat)

lemma byte_byte_char [simp]: "byte (byte_char b) = b"
  using unat_u8_less [of b] by (simp add: byte_def byte_char_def of_char_of)

lemma byte_inject [simp]: "byte c = byte d \<longleftrightarrow> c = d"
  by (metis byte_char_byte)

section \<open>The client socket\<close>

text \<open>
  \<open>incoming\<close> holds the characters the peer will still send (its end is the end of file),
  \<open>outgoing\<close> what has been written, and \<open>writes_left\<close> how many writes succeed before one fails for good
  (\<open>None\<close>: all do). Interrupted and would-block calls are retried by the code and do not appear.
\<close>

record link =
  link_open :: bool
  incoming :: string
  outgoing :: string
  writes_left :: "nat option"

definition link_putc :: "char \<Rightarrow> link \<Rightarrow> link" where
  "link_putc c l =
     (if \<not> link_open l then l
      else if writes_left l = Some 0 then l\<lparr>link_open := False\<rparr>
      else l\<lparr>outgoing := outgoing l @ [c], writes_left := map_option (\<lambda>n. n - 1) (writes_left l)\<rparr>)"

definition link_getc :: "link \<Rightarrow> char option \<times> link" where
  "link_getc l =
     (if \<not> link_open l then (None, l)
      else case incoming l of
        [] \<Rightarrow> (None, l\<lparr>link_open := False\<rparr>)
      | c # cs \<Rightarrow> (Some c, l\<lparr>incoming := cs\<rparr>))"

section \<open>Hexadecimal digits\<close>

text \<open>\<^verbatim>\<open>hex\<close>: the value of a digit, \<open>-1\<close> for any other character. \<^verbatim>\<open>hexchars[n]\<close> is \<^term>\<open>hex_digit n\<close>.\<close>

definition hex :: "char \<Rightarrow> int" where
  "hex c =
     (let n = of_char c :: int
      in if 97 \<le> n \<and> n \<le> 102 then n - 97 + 10
         else if 48 \<le> n \<and> n \<le> 57 then n - 48
         else if 65 \<le> n \<and> n \<le> 70 then n - 65 + 10
         else - 1)"

text \<open>
  \<^verbatim>\<open>reg2hex\<close> writes eight digits and a terminator; \<^verbatim>\<open>hex2reg\<close> reads eight characters. The digit is an
  \<^verbatim>\<open>int\<close> shifted left, then widened to the 64 bits of \<^verbatim>\<open>unsigned long\<close>.
\<close>

definition reg2hex :: "u64 \<Rightarrow> string" where
  "reg2hex val = map (\<lambda>n. hex_digit (unat (drop_bit (28 - n * 4) val AND 0xf))) [0..<8]"

definition hex2reg :: "(nat \<Rightarrow> char) \<Rightarrow> u64" where
  "hex2reg buf =
     foldl (\<lambda>val n. val OR scast (push_bit (28 - n * 4) (of_int (hex (buf n)) :: u32))) 0 [0..<8]"

definition ascii2hex :: "string \<Rightarrow> string" where
  "ascii2hex src = concat (map (\<lambda>ch. let ch = byte ch
     in [hex_digit (unat (drop_bit 4 ch AND 0xf)), hex_digit (unat (ch AND 0xf))]) src)"

fun hex2ascii :: "string \<Rightarrow> string" where
  "hex2ascii (a # b # src) =
     byte_char (push_bit 4 (of_int (hex a) AND 0xf :: u8) OR (of_int (hex b) AND 0xf)) # hex2ascii src"
| "hex2ascii _ = []"

text \<open>Characters stored in a buffer from an offset on.\<close>

definition put_chars :: "(nat \<Rightarrow> char) \<Rightarrow> nat \<Rightarrow> string \<Rightarrow> nat \<Rightarrow> char" where
  "put_chars buf off cs = (\<lambda>i. if off \<le> i \<and> i < off + length cs then cs ! (i - off) else buf i)"

lemma hex_digit_value: "n < 16 \<Longrightarrow> hex (hex_digit n) = int n"
proof -
  assume "n < 16"
  then have "n \<in> set [0..<16]" by simp
  moreover have "\<forall>n\<in>set [0..<16]. hex (hex_digit n) = int n" by code_simp
  ultimately show ?thesis by blast
qed

section \<open>Sending\<close>

definition needs_escape :: "char \<Rightarrow> bool" where
  "needs_escape ch \<longleftrightarrow> ch = CHR ''$'' \<or> ch = CHR ''#'' \<or> ch = CHR ''*'' \<or> ch = CHR ''}''"

definition flip_0x20 :: "char \<Rightarrow> char" where
  "flip_0x20 ch = byte_char (byte ch XOR 0x20)"

fun put_body :: "u8 \<Rightarrow> string \<Rightarrow> link \<Rightarrow> u8 \<times> link" where
  "put_body checksum [] l = (checksum, l)"
| "put_body checksum (ch # data) l =
     (let (ch, checksum, l) =
            (if needs_escape ch
             then (flip_0x20 ch, checksum + byte CHR ''}'', link_putc CHR ''}'' l)
             else (ch, checksum, l));
          checksum = checksum + byte ch
      in put_body checksum data (link_putc ch l))"

definition put_frame :: "string \<Rightarrow> link \<Rightarrow> link" where
  "put_frame data l =
     (let l = link_putc CHR ''$'' l;
          (checksum, l) = put_body 0 data l;
          l = link_putc CHR ''#'' l;
          l = link_putc (hex_digit (unat (drop_bit 4 checksum))) l
      in link_putc (hex_digit (unat (checksum mod 16))) l)"

lemma incoming_putc [simp]: "incoming (link_putc c l) = incoming l"
  by (simp add: link_putc_def)

lemma incoming_put_body: "put_body k data l = (k', l') \<Longrightarrow> incoming l' = incoming l"
  by (induction k data l rule: put_body.induct) (auto simp: Let_def split: if_splits)

lemma incoming_put_frame [simp]: "incoming (put_frame data l) = incoming l"
  by (auto simp: put_frame_def Let_def split: prod.splits dest: incoming_put_body)

lemma link_getc_length:
  "link_getc l = (Some c, l') \<Longrightarrow> length (incoming l') < length (incoming l)"
  by (auto simp: link_getc_def split: if_splits list.splits)

text \<open>\<^verbatim>\<open>put_packet\<close>: the frame again and again until the client acknowledges it or the connection fails.\<close>

function put_packet :: "string \<Rightarrow> link \<Rightarrow> link" where
  "put_packet data l =
     (let l = put_frame data l
      in case link_getc l of
           (None, l) \<Rightarrow> l
         | (Some ch, l) \<Rightarrow> if ch = CHR ''+'' then l else put_packet data l)"
  by pat_completeness auto
termination
  by (relation "measure (\<lambda>(data, l). length (incoming l))") (auto dest!: link_getc_length [OF sym])

declare put_packet.simps [simp del]

section \<open>Receiving\<close>

text \<open>Waiting for the start character; \<open>Some True\<close> is the break, which only \<^verbatim>\<open>rsp-server.c\<close> looks for.\<close>

function skip_to_start :: "bool \<Rightarrow> link \<Rightarrow> bool option \<times> link" where
  "skip_to_start brk l =
     (case link_getc l of
        (None, l) \<Rightarrow> (None, l)
      | (Some ch, l) \<Rightarrow>
          if ch = CHR ''$'' then (Some False, l)
          else if brk \<and> ch = CHR 0x03 then (Some True, l)
          else skip_to_start brk l)"
  by pat_completeness auto
termination
  by (relation "measure (\<lambda>(brk, l). length (incoming l))") (auto dest!: link_getc_length [OF sym])

declare skip_to_start.simps [simp del]

text \<open>The characters up to \<^verbatim>\<open>#\<close> or the end of the buffer; the result says whether \<^verbatim>\<open>#\<close> was found.\<close>

function read_body ::
    "nat \<Rightarrow> (nat \<Rightarrow> char) \<Rightarrow> u8 \<Rightarrow> nat \<Rightarrow> link \<Rightarrow> (bool \<times> u8 \<times> nat) option \<times> (nat \<Rightarrow> char) \<times> link" where
  "read_body buf_max buf checksum count l =
     (if count < buf_max - 1 then
        case link_getc l of
          (None, l) \<Rightarrow> (None, buf, l)
        | (Some ch, l) \<Rightarrow>
            if ch = CHR ''$'' then read_body buf_max buf 0 0 l
            else if ch = CHR ''#'' then (Some (True, checksum, count), buf, l)
            else read_body buf_max (buf(count := ch)) (checksum + byte ch) (count + 1) l
      else (Some (False, checksum, count), buf, l))"
  by pat_completeness auto
termination
  by (relation "measure (\<lambda>(n, b, k, c, l). length (incoming l))") (auto dest!: link_getc_length [OF sym])

declare read_body.simps [simp del]

lemma skip_length: "skip_to_start brk l = (Some b, l') \<Longrightarrow> length (incoming l') < length (incoming l)"
proof (induction brk l rule: skip_to_start.induct)
  case (1 brk l)
  then show ?case
    unfolding skip_to_start.simps [of brk l]
    by (force split: prod.splits option.splits if_splits dest: link_getc_length)
qed

lemma link_getc_None: "link_getc l = (None, l') \<Longrightarrow> incoming l' = incoming l"
  by (auto simp: link_getc_def split: if_splits list.splits)

lemma read_body_length:
  "read_body n buf k c l = (r, buf', l') \<Longrightarrow> length (incoming l') \<le> length (incoming l)"
proof (induction n buf k c l rule: read_body.induct)
  case (1 n buf k c l)
  obtain x m where g: "link_getc l = (x, m)" by fastforce
  show ?case
  proof (cases x)
    case None
    with g 1(3) show ?thesis
      unfolding read_body.simps [of n buf k c l] by (auto split: if_splits dest: link_getc_None)
  next
    case (Some ch)
    with g have m: "length (incoming m) < length (incoming l)" by (simp add: link_getc_length)
    consider "\<not> c < n - 1" | "c < n - 1" "ch = CHR ''$''" | "c < n - 1" "ch = CHR ''#''"
      | "c < n - 1" "ch \<noteq> CHR ''$''" "ch \<noteq> CHR ''#''" by blast
    then show ?thesis
    proof cases
      case 2
      then have "length (incoming l') \<le> length (incoming m)"
        using 1(1) [OF 2(1) g [symmetric] Some 2(2)] 1(3) g Some
        unfolding read_body.simps [of n buf k c l] by simp
      then show ?thesis using m by simp
    next
      case 4
      then have "length (incoming l') \<le> length (incoming m)"
        using 1(2) [OF 4(1) g [symmetric] Some 4(2,3)] 1(3) g Some
        unfolding read_body.simps [of n buf k c l] by (simp add: fun_upd_def)
      then show ?thesis using m by simp
    qed (use 1(3) g Some m in \<open>auto simp: read_body.simps [of n buf k c l]\<close>)
  qed
qed

text \<open>
  \<^verbatim>\<open>get_packet\<close>: packets until one has a valid checksum, each answered with \<^verbatim>\<open>+\<close> or \<^verbatim>\<open>-\<close>. The buffer is
  static, so what an earlier packet left behind the end of this one is still there. The result is the
  length of the packet, \<open>None\<close> for the null pointer.
\<close>

function get_packet :: "nat \<Rightarrow> bool \<Rightarrow> (nat \<Rightarrow> char) \<Rightarrow> link \<Rightarrow> nat option \<times> (nat \<Rightarrow> char) \<times> link" where
  "get_packet buf_max brk buf l =
     (case skip_to_start brk l of
        (None, l) \<Rightarrow> (None, buf, l)
      | (Some True, l) \<Rightarrow> (Some 1, buf(0 := CHR 0x03), l)
      | (Some False, l) \<Rightarrow>
          (case read_body buf_max buf 0 0 l of
             (None, buf, l) \<Rightarrow> (None, buf, l)
           | (Some (found, checksum, count), buf, l) \<Rightarrow>
               let buf = buf(count := CHR 0x00)
               in if found then
                    case link_getc l of
                      (None, l) \<Rightarrow> (None, buf, l)
                    | (Some c1, l) \<Rightarrow>
                        (case link_getc l of
                           (None, l) \<Rightarrow> (None, buf, l)
                         | (Some c2, l) \<Rightarrow>
                             let xmitcsum = push_bit 4 (of_int (hex c1)) + of_int (hex c2)
                             in if checksum \<noteq> xmitcsum
                                then get_packet buf_max brk buf (link_putc CHR ''-'' l)
                                else (Some count, buf, link_putc CHR ''+'' l))
                  else get_packet buf_max brk buf l))"
  by pat_completeness auto
termination
proof (relation "measure (\<lambda>(n, brk, buf, l). length (incoming l))", goal_cases)
  case 1
  then show ?case by simp
next
  case 2
  then show ?case
    by (auto dest!: skip_length [OF sym] read_body_length [OF sym] link_getc_length [OF sym])
next
  case 3
  then show ?case
    by (auto dest!: skip_length [OF sym] read_body_length [OF sym] link_getc_length [OF sym])
qed

declare get_packet.simps [simp del]

text \<open>\<^verbatim>\<open>rsp_unescape\<close>, in place; a trailing \<^verbatim>\<open>}\<close> takes the character behind the data.\<close>

function unescape_loop :: "(nat \<Rightarrow> char) \<Rightarrow> nat \<Rightarrow> nat \<Rightarrow> nat \<Rightarrow> (nat \<Rightarrow> char) \<times> nat" where
  "unescape_loop data len from_off to_off =
     (if from_off < len then
        if data from_off = CHR ''}''
        then unescape_loop (data(to_off := flip_0x20 (data (from_off + 1)))) len (from_off + 2) (to_off + 1)
        else unescape_loop (data(to_off := data from_off)) len (from_off + 1) (to_off + 1)
      else (data, to_off))"
  by pat_completeness auto
termination
  by (relation "measure (\<lambda>(d, len, from_off, to_off). len - from_off)") auto

declare unescape_loop.simps [simp del]

definition rsp_unescape :: "(nat \<Rightarrow> char) \<Rightarrow> nat \<Rightarrow> (nat \<Rightarrow> char) \<times> nat" where
  "rsp_unescape data len = unescape_loop data len 0 0"

end
