(* ===== verification/C_Scan.thy ===== *)
theory C_Scan
  imports Rsp_Packet
begin

unbundle bit_operations_syntax

text \<open>
  The C library as the servers of the JTAG bridge use it: strings in a character buffer, \<^verbatim>\<open>strncmp\<close> with a
  literal prefix, \<^verbatim>\<open>memchr\<close>, and \<^verbatim>\<open>sscanf\<close> with the conversions that occur in their formats
  (\<^verbatim>\<open>%x\<close>, \<^verbatim>\<open>%lx\<close>, \<^verbatim>\<open>%1d\<close>, \<^verbatim>\<open>%4x\<close>, \<^verbatim>\<open>%8lx\<close>, \<^verbatim>\<open>%8s\<close>, literal characters and white space).
\<close>

section \<open>Strings in a buffer\<close>

text \<open>The string that starts at offset \<open>p\<close>; a buffer of \<open>n\<close> more characters bounds the search for its end.\<close>

fun c_string :: "nat \<Rightarrow> (nat \<Rightarrow> char) \<Rightarrow> nat \<Rightarrow> string" where
  "c_string 0 buf p = []"
| "c_string (Suc n) buf p = (if buf p = CHR 0x00 then [] else buf p # c_string n buf (Suc p))"

definition starts_with :: "string \<Rightarrow> string \<Rightarrow> bool" where
  "starts_with prefix s \<longleftrightarrow> take (length prefix) s = prefix"

text \<open>The offset of the first occurrence among the first \<open>n\<close> characters from offset \<open>p\<close> on.\<close>

fun c_memchr :: "nat \<Rightarrow> (nat \<Rightarrow> char) \<Rightarrow> nat \<Rightarrow> char \<Rightarrow> nat option" where
  "c_memchr 0 buf p c = None"
| "c_memchr (Suc n) buf p c = (if buf p = c then Some p else c_memchr n buf (Suc p) c)"

lemma map_upt_Cons:
  assumes "map buf [p..<p + length (c # s)] = c # s"
  shows "buf p = c" "map buf [Suc p..<Suc p + length s] = s"
proof -
  have "map buf [p..<p + length (c # s)] = buf p # map buf [Suc p..<Suc p + length s]"
    by (simp add: upt_conv_Cons del: upt_Suc)
  then show "buf p = c" "map buf [Suc p..<Suc p + length s] = s" using assms by simp_all
qed

lemma c_string_text:
  "map buf [p..<p + length s] = s \<Longrightarrow> buf (p + length s) = CHR 0x00 \<Longrightarrow> CHR 0x00 \<notin> set s \<Longrightarrow> length s \<le> n \<Longrightarrow>
   c_string n buf p = s"
proof (induction s arbitrary: p n)
  case Nil
  then show ?case by (cases n) auto
next
  case (Cons c s)
  then obtain m where n: "n = Suc m" by (cases n) auto
  note b = map_upt_Cons [OF Cons.prems(1)]
  then show ?case using Cons.IH [of "Suc p" m] Cons.prems(2-) n by auto
qed

lemma c_string_takeWhile:
  "map buf [p..<p + length s] = s \<Longrightarrow> buf (p + length s) = CHR 0x00 \<Longrightarrow> length s \<le> n \<Longrightarrow>
   c_string n buf p = takeWhile (\<lambda>c. c \<noteq> CHR 0x00) s"
proof (induction s arbitrary: p n)
  case Nil
  then show ?case by (cases n) auto
next
  case (Cons c s)
  then obtain m where n: "n = Suc m" by (cases n) auto
  note b = map_upt_Cons [OF Cons.prems(1)]
  then show ?case using Cons.IH [of "Suc p" m] Cons.prems(2-) n by auto
qed

lemma c_memchr_text:
  "map buf [p..<p + length s] = s \<Longrightarrow> buf (p + length s) = c \<Longrightarrow> c \<notin> set s \<Longrightarrow> length s < n \<Longrightarrow>
   c_memchr n buf p c = Some (p + length s)"
proof (induction s arbitrary: p n)
  case Nil
  then show ?case by (cases n) auto
next
  case (Cons d s)
  then obtain m where n: "n = Suc m" by (cases n) auto
  note b = map_upt_Cons [OF Cons.prems(1)]
  then show ?case using Cons.IH [of "Suc p" m] Cons.prems(2-) n by auto
qed

section \<open>\<^verbatim>\<open>sscanf\<close>\<close>

text \<open>
  A format is a list of directives; a width of \<open>None\<close> means no limit. A conversion that cannot match ends
  the scan, so the length of the result is the number \<^verbatim>\<open>sscanf\<close> returns. Numbers are kept with the 64
  bits of \<^verbatim>\<open>strtoul\<close>, saturated when they do not fit; the caller's variable takes the low part.
\<close>

datatype directive = Lit char | Space | Hex "nat option" | Dec "nat option" | Word "nat option"

datatype scanned = Num u64 | Str string

definition is_space :: "char \<Rightarrow> bool" where
  "is_space c \<longleftrightarrow> c \<in> {CHR '' '', CHR 0x09, CHR 0x0A, CHR 0x0B, CHR 0x0C, CHR 0x0D}"

definition within :: "nat option \<Rightarrow> nat \<Rightarrow> nat" where
  "within w n = (case w of None \<Rightarrow> n | Some k \<Rightarrow> min k n)"

definition digits_of :: "int \<Rightarrow> string \<Rightarrow> string" where
  "digits_of base s = takeWhile (\<lambda>c. 0 \<le> hex c \<and> hex c < base) s"

definition digits_value :: "int \<Rightarrow> string \<Rightarrow> int" where
  "digits_value base ds = foldl (\<lambda>v c. base * v + hex c) 0 ds"

text \<open>Sign and, for base 16, the prefix \<^verbatim>\<open>0x\<close> count towards the width; at least one digit must follow.\<close>

definition scan_number :: "int \<Rightarrow> nat option \<Rightarrow> string \<Rightarrow> (u64 \<times> string) option" where
  "scan_number base w s =
     (let s = dropWhile is_space s;
          n = within w (length s);
          item = take n s;
          sign = (if item \<noteq> [] \<and> (hd item = CHR ''-'' \<or> hd item = CHR ''+'') then take 1 item else []);
          item = drop (length sign) item;
          prefix = (if base = 16 \<and> (starts_with ''0x'' item \<or> starts_with ''0X'' item) then take 2 item else []);
          ds = digits_of base (drop (length prefix) item);
          v = min (digits_value base ds) (2 ^ 64 - 1)
      in if ds = [] then None
         else Some (of_int (if sign = ''-'' then - v else v),
                    drop (length sign + length prefix + length ds) s))"

definition scan_word :: "nat option \<Rightarrow> string \<Rightarrow> (string \<times> string) option" where
  "scan_word w s =
     (let s = dropWhile is_space s;
          item = takeWhile (\<lambda>c. \<not> is_space c) (take (within w (length s)) s)
      in if item = [] then None else Some (item, drop (length item) s))"

fun sscanf :: "directive list \<Rightarrow> string \<Rightarrow> scanned list" where
  "sscanf [] s = []"
| "sscanf (Lit c # fmt) s = (case s of d # s' \<Rightarrow> if d = c then sscanf fmt s' else [] | [] \<Rightarrow> [])"
| "sscanf (Space # fmt) s = sscanf fmt (dropWhile is_space s)"
| "sscanf (Hex w # fmt) s =
     (case scan_number 16 w s of None \<Rightarrow> [] | Some (v, s) \<Rightarrow> Num v # sscanf fmt s)"
| "sscanf (Dec w # fmt) s =
     (case scan_number 10 w s of None \<Rightarrow> [] | Some (v, s) \<Rightarrow> Num v # sscanf fmt s)"
| "sscanf (Word w # fmt) s =
     (case scan_word w s of None \<Rightarrow> [] | Some (v, s) \<Rightarrow> Str v # sscanf fmt s)"

section \<open>Reading back what \<^verbatim>\<open>%x\<close> prints\<close>

lemma hex_digit_range: "n < 16 \<Longrightarrow> 0 \<le> hex (hex_digit n) \<and> hex (hex_digit n) < 16"
proof -
  assume "n < 16"
  then have "n \<in> set [0..<16]" by simp
  moreover have "\<forall>n\<in>set [0..<16]. 0 \<le> hex (hex_digit n) \<and> hex (hex_digit n) < 16" by code_simp
  ultimately show ?thesis by blast
qed

lemma hex_digits_are_digits: "c \<in> set (hex_digits n) \<Longrightarrow> \<exists>k<16. c = hex_digit k"
proof (induction n rule: hex_digits.induct)
  case (1 n)
  show ?case
  proof (cases "n < 16")
    case True
    then show ?thesis using 1(2) by (auto simp: hex_digits.simps [of n])
  next
    case False
    then have "c \<in> set (hex_digits (n div 16)) \<or> c = hex_digit (n mod 16)"
      using 1(2) by (auto simp: hex_digits.simps [of n])
    then show ?thesis using 1(1) [OF False] by (metis mod_less_divisor zero_less_numeral)
  qed
qed

lemma hex_digits_value: "digits_value 16 (hex_digits n) = int n"
proof (induction n rule: hex_digits.induct)
  case (1 n)
  show ?case
  proof (cases "n < 16")
    case True
    then show ?thesis by (simp add: hex_digits.simps [of n] digits_value_def hex_digit_value)
  next
    case False
    then have "digits_value 16 (hex_digits n) = 16 * digits_value 16 (hex_digits (n div 16)) + int (n mod 16)"
      by (simp add: hex_digits.simps [of n] digits_value_def hex_digit_value)
    also have "\<dots> = int (16 * (n div 16) + n mod 16)" using 1 [OF False] by (simp only: of_nat_add of_nat_mult of_nat_numeral)
    finally show ?thesis by simp
  qed
qed

lemma hex_digits_nonempty [simp]: "hex_digits n \<noteq> []"
  by (subst hex_digits.simps) simp

text \<open>A number with more than one digit does not start with a zero.\<close>

lemma hex_digits_no_prefix:
  "hex_digits n = CHR ''0'' # ds \<Longrightarrow> ds = []"
proof (induction n arbitrary: ds rule: hex_digits.induct)
  case (1 n)
  show ?case
  proof (cases "n < 16")
    case True
    then show ?thesis using 1(2) by (simp add: hex_digits.simps [of n])
  next
    case False
    then obtain es where e: "hex_digits (n div 16) = CHR ''0'' # es"
      using 1(2) by (cases "hex_digits (n div 16)") (auto simp: hex_digits.simps [of n])
    then have "hex_digits (n div 16) = ''0''" using 1(1) [OF False] by auto
    then have "int (n div 16) = 0"
      using hex_digits_value [of "n div 16"] by (simp add: digits_value_def hex_def)
    then show ?thesis using False by simp
  qed
qed

lemma digit_not_space: "n < 16 \<Longrightarrow> \<not> is_space (hex_digit n) \<and> hex_digit n \<notin> set ''-+xX''"
proof -
  assume "n < 16"
  then have "n \<in> set [0..<16]" by simp
  moreover have "\<forall>n\<in>set [0..<16]. \<not> is_space (hex_digit n) \<and> hex_digit n \<notin> set ''-+xX''" by code_simp
  ultimately show ?thesis by blast
qed

text \<open>What stops a number: the end of the string or a character that is no digit and no \<^verbatim>\<open>x\<close>.\<close>

definition ends_number :: "string \<Rightarrow> bool" where
  "ends_number s \<longleftrightarrow> (case s of [] \<Rightarrow> True | c # _ \<Rightarrow> hex c = - 1 \<and> c \<noteq> CHR ''x'' \<and> c \<noteq> CHR ''X'')"

lemma ends_number_simps [simp]:
  "ends_number []" "ends_number (c # s) \<longleftrightarrow> hex c = - 1 \<and> c \<noteq> CHR ''x'' \<and> c \<noteq> CHR ''X''"
  by (simp_all add: ends_number_def)

lemma hex_separators [simp]: "hex CHR '','' = - 1" "hex CHR '':'' = - 1" "hex CHR ''='' = - 1" "hex CHR '';'' = - 1"
  by code_simp+

lemma scan_hex_digits:
  assumes "n < 2 ^ 64" and "ends_number rest"
  shows "scan_number 16 None (hex_digits n @ rest) = Some (of_nat n, rest)"
proof -
  let ?ds = "hex_digits n"
  obtain d ds where d: "?ds = d # ds" by (cases ?ds) auto
  then obtain k where k: "d = hex_digit k" "k < 16" using hex_digits_are_digits [of d n] by auto
  note nd = digit_not_space [OF k(2), folded k(1)]
  have sp: "dropWhile is_space (?ds @ rest) = ?ds @ rest" using nd by (simp add: d)
  have sg: "\<not> (?ds @ rest \<noteq> [] \<and> (hd (?ds @ rest) = CHR ''-'' \<or> hd (?ds @ rest) = CHR ''+''))"
    using nd by (simp add: d)
  have digit: "\<forall>c\<in>set ?ds. 0 \<le> hex c \<and> hex c < 16 \<and> c \<noteq> CHR ''x'' \<and> c \<noteq> CHR ''X''"
  proof
    fix c assume "c \<in> set ?ds"
    then obtain j where "j < 16" "c = hex_digit j" using hex_digits_are_digits by blast
    then show "0 \<le> hex c \<and> hex c < 16 \<and> c \<noteq> CHR ''x'' \<and> c \<noteq> CHR ''X''"
      using digit_not_space [of j] hex_digit_range [of j] by auto
  qed
  have px: "\<not> (starts_with ''0x'' (?ds @ rest) \<or> starts_with ''0X'' (?ds @ rest))"
  proof (cases "d = CHR ''0''")
    case True
    then have "ds = []" using hex_digits_no_prefix d by auto
    then show ?thesis using assms(2) by (cases rest) (auto simp: d starts_with_def)
  next
    case False
    then show ?thesis by (auto simp: d starts_with_def)
  qed
  have "takeWhile (\<lambda>c. 0 \<le> hex c \<and> hex c < 16) (?ds @ rest) =
      ?ds @ takeWhile (\<lambda>c. 0 \<le> hex c \<and> hex c < 16) rest"
    using digit by (intro takeWhile_append2) auto
  moreover have "takeWhile (\<lambda>c. 0 \<le> hex c \<and> hex c < 16) rest = []"
    using assms(2) by (cases rest) auto
  ultimately have tw: "digits_of 16 (?ds @ rest) = ?ds" by (simp add: digits_of_def)
  have "int n \<le> 2 ^ 64 - 1" using assms(1) by simp
  then show ?thesis
    unfolding scan_number_def Let_def sp using sg px tw
    by (simp add: within_def hex_digits_value min_def)
qed

end
