(* ===== verification/Matchpoints.thy ===== *)
theory Matchpoints
  imports Prelude
begin

text \<open>
  The two tables behind the breakpoints of the JTAG bridge: the matchpoint hash table of
  \<^verbatim>\<open>rsp-server.c\<close>, and the pool of hardware watchpoints in \<^verbatim>\<open>hwp_server.c\<close> from which the first takes
  what it needs. Each is shown to implement an abstract object: a finite map, and a set of free numbers.
\<close>

section \<open>The hash table\<close>

datatype mp_type = BP_MEMORY | BP_HARDWARE | WP_WRITE | WP_READ | WP_ACCESS

record mp_entry =
  mp_type :: mp_type
  mp_addr :: u64
  mp_instr :: u64

text \<open>An open hash table: bucket \<open>h\<close> holds a chain of entries, newest first.\<close>

type_synonym mp_table = "nat \<Rightarrow> mp_entry list"

definition MP_HASH_SIZE :: nat where
  "MP_HASH_SIZE = 1021"

definition mp_hv :: "u64 \<Rightarrow> nat" where
  "mp_hv addr = unat addr mod MP_HASH_SIZE"

definition mp_hash_init :: mp_table where
  "mp_hash_init = (\<lambda>i. [])"

fun chain_find :: "mp_type \<Rightarrow> u64 \<Rightarrow> mp_entry list \<Rightarrow> mp_entry option" where
  "chain_find type addr [] = None"
| "chain_find type addr (e # rest) =
     (if type = mp_type e \<and> addr = mp_addr e then Some e else chain_find type addr rest)"

definition mp_hash_add :: "mp_type \<Rightarrow> u64 \<Rightarrow> u64 \<Rightarrow> mp_table \<Rightarrow> mp_table" where
  "mp_hash_add type addr instr t =
     (let hv = mp_hv addr
      in case chain_find type addr (t hv) of
           Some _ \<Rightarrow> t
         | None \<Rightarrow> t(hv := \<lparr>mp_type = type, mp_addr = addr, mp_instr = instr\<rparr> # t hv))"

definition mp_hash_lookup :: "mp_type \<Rightarrow> u64 \<Rightarrow> mp_table \<Rightarrow> mp_entry option" where
  "mp_hash_lookup type addr t = chain_find type addr (t (mp_hv addr))"

text \<open>The first entry that matches is unlinked from its chain.\<close>

fun chain_delete :: "mp_type \<Rightarrow> u64 \<Rightarrow> mp_entry list \<Rightarrow> mp_entry option \<times> mp_entry list" where
  "chain_delete type addr [] = (None, [])"
| "chain_delete type addr (e # rest) =
     (if type = mp_type e \<and> addr = mp_addr e then (Some e, rest)
      else case chain_delete type addr rest of (found, rest) \<Rightarrow> (found, e # rest))"

definition mp_hash_delete :: "mp_type \<Rightarrow> u64 \<Rightarrow> mp_table \<Rightarrow> mp_entry option \<times> mp_table" where
  "mp_hash_delete type addr t =
     (case chain_delete type addr (t (mp_hv addr)) of (found, chain) \<Rightarrow> (found, t(mp_hv addr := chain)))"

section \<open>The hash table as a map\<close>

text \<open>
  What a user of the table relies on: an insertion is seen by lookups unless the key was there before,
  when nothing changes; a deletion returns the entry it removes; other keys are left alone.
\<close>

locale matchpoint_map =
  fixes lookup :: "'t \<Rightarrow> mp_type \<times> u64 \<Rightarrow> u64 option"
    and add :: "mp_type \<times> u64 \<Rightarrow> u64 \<Rightarrow> 't \<Rightarrow> 't"
    and delete :: "mp_type \<times> u64 \<Rightarrow> 't \<Rightarrow> u64 option \<times> 't"
    and invar :: "'t \<Rightarrow> bool"
  assumes lookup_add:
      "invar t \<Longrightarrow> lookup (add k v t) = (if lookup t k = None then (lookup t)(k \<mapsto> v) else lookup t)"
    and lookup_delete: "invar t \<Longrightarrow> lookup (snd (delete k t)) = (lookup t)(k := None)"
    and deleted: "invar t \<Longrightarrow> fst (delete k t) = lookup t k"
    and invar_add: "invar t \<Longrightarrow> invar (add k v t)"
    and invar_delete: "invar t \<Longrightarrow> invar (snd (delete k t))"
begin

lemma add_delete_new:
  assumes "invar t" "lookup t k = None"
  shows "fst (delete k (add k v t)) = Some v" "lookup (snd (delete k (add k v t))) = lookup t"
  using assms by (auto simp: deleted invar_add lookup_add lookup_delete)

lemma add_twice_delete:
  assumes "invar t" "lookup t k = None"
  shows "fst (delete k (add k w (add k v t))) = Some v"
    "lookup (snd (delete k (add k w (add k v t)))) = lookup t"
  using assms by (auto simp: deleted invar_add lookup_add lookup_delete)

lemma delete_other:
  "invar t \<Longrightarrow> k \<noteq> k' \<Longrightarrow> fst (delete k' (snd (delete k t))) = lookup t k'"
  by (simp add: deleted invar_delete lookup_delete)

lemma delete_absent: "invar t \<Longrightarrow> lookup t k = None \<Longrightarrow> lookup (snd (delete k t)) = lookup t"
  by (simp add: lookup_delete fun_upd_idem)

end

text \<open>Every entry is in the bucket of its address, and no bucket has two entries for a key.\<close>

definition entry_key :: "mp_entry \<Rightarrow> mp_type \<times> u64" where
  "entry_key e = (mp_type e, mp_addr e)"

definition mp_invar :: "mp_table \<Rightarrow> bool" where
  "mp_invar t \<longleftrightarrow> (\<forall>h. distinct (map entry_key (t h)) \<and> (\<forall>e\<in>set (t h). mp_hv (mp_addr e) = h))"

definition mp_lookup :: "mp_table \<Rightarrow> mp_type \<times> u64 \<Rightarrow> u64 option" where
  "mp_lookup t k = map_option mp_instr (mp_hash_lookup (fst k) (snd k) t)"

definition mp_add :: "mp_type \<times> u64 \<Rightarrow> u64 \<Rightarrow> mp_table \<Rightarrow> mp_table" where
  "mp_add k v t = mp_hash_add (fst k) (snd k) v t"

definition mp_delete :: "mp_type \<times> u64 \<Rightarrow> mp_table \<Rightarrow> u64 option \<times> mp_table" where
  "mp_delete k t = map_prod (map_option mp_instr) id (mp_hash_delete (fst k) (snd k) t)"

lemma chain_find_key: "chain_find ty a ch = Some e \<Longrightarrow> e \<in> set ch \<and> entry_key e = (ty, a)"
  by (induction ch) (auto simp: entry_key_def split: if_splits)

lemma chain_find_None: "chain_find ty a ch = None \<longleftrightarrow> (ty, a) \<notin> entry_key ` set ch"
  by (induction ch) (auto simp: entry_key_def)

lemma chain_delete_found: "fst (chain_delete ty a ch) = chain_find ty a ch"
  by (induction ch) (auto split: prod.splits)

lemma chain_delete_set: "set (snd (chain_delete ty a ch)) \<subseteq> set ch"
  by (induction ch) (auto split: prod.splits)

lemma chain_delete_distinct:
  "distinct (map entry_key ch) \<Longrightarrow> distinct (map entry_key (snd (chain_delete ty a ch)))"
proof (induction ch)
  case (Cons e ch)
  then show ?case using chain_delete_set [of ty a ch] by (auto split: prod.splits)
qed simp

lemma chain_find_delete:
  "distinct (map entry_key ch) \<Longrightarrow>
   chain_find ty' a' (snd (chain_delete ty a ch)) =
     (if ty' = ty \<and> a' = a then None else chain_find ty' a' ch)"
proof (induction ch)
  case (Cons e ch)
  then show ?case
    by (auto simp: entry_key_def image_iff split: prod.splits)
       (auto simp: chain_find_None entry_key_def)
qed simp

interpretation mp: matchpoint_map mp_lookup mp_add mp_delete mp_invar
proof
  fix t :: mp_table and k :: "mp_type \<times> u64" and v :: u64
  obtain ty a where k: "k = (ty, a)" by (cases k)
  assume t: "mp_invar t"
  then have d: "distinct (map entry_key (t h))" and b: "e \<in> set (t h) \<Longrightarrow> mp_hv (mp_addr e) = h" for h e
    by (auto simp: mp_invar_def)
  show "mp_lookup (mp_add k v t) = (if mp_lookup t k = None then (mp_lookup t)(k \<mapsto> v) else mp_lookup t)"
    by (auto simp: mp_lookup_def mp_add_def mp_hash_add_def mp_hash_lookup_def Let_def k fun_eq_iff split: option.splits)
  show "mp_lookup (snd (mp_delete k t)) = (mp_lookup t)(k := None)"
    by (auto simp: mp_lookup_def mp_delete_def mp_hash_delete_def mp_hash_lookup_def k fun_eq_iff
        case_prod_unfold chain_find_delete [OF d])
  show "fst (mp_delete k t) = mp_lookup t k"
    by (simp add: mp_lookup_def mp_delete_def mp_hash_delete_def mp_hash_lookup_def k case_prod_unfold
        chain_delete_found)
  show "mp_invar (mp_add k v t)"
    using t by (auto simp: mp_invar_def mp_add_def mp_hash_add_def Let_def k chain_find_None entry_key_def
        split: option.splits)
  show "mp_invar (snd (mp_delete k t))"
    using t chain_delete_set chain_delete_distinct
    by (fastforce simp: mp_invar_def mp_delete_def mp_hash_delete_def k case_prod_unfold)
qed

lemma mp_invar_init: "mp_invar mp_hash_init" "mp_lookup mp_hash_init k = None"
  by (simp_all add: mp_invar_def mp_hash_init_def mp_lookup_def mp_hash_lookup_def)

section \<open>The watchpoint pool\<close>

definition HWP_MAX_WP :: nat where
  "HWP_MAX_WP = 8"

definition hwp_set_in_use :: "u32 \<Rightarrow> bool \<Rightarrow> bool list \<Rightarrow> bool list" where
  "hwp_set_in_use wp inuse pool = (if unat wp < HWP_MAX_WP then pool[unat wp := inuse] else pool)"

text \<open>The loop over the watchpoints from \<open>i\<close> on; the result is \<open>-1\<close> when none is free.\<close>

function hwp_get_loop :: "nat \<Rightarrow> bool list \<Rightarrow> int \<times> bool list" where
  "hwp_get_loop i pool =
     (if i < HWP_MAX_WP
      then if \<not> pool ! i then (int i, pool[i := True]) else hwp_get_loop (i + 1) pool
      else (- 1, pool))"
  by pat_completeness auto
termination
  by (relation "measure (\<lambda>(i, pool). HWP_MAX_WP - i)") auto

declare hwp_get_loop.simps [simp del]

definition hwp_get_available_watchpoint :: "bool list \<Rightarrow> int \<times> bool list" where
  "hwp_get_available_watchpoint pool = hwp_get_loop 0 pool"

text \<open>A negative number would index in front of the array; callers pass what the pool handed out.\<close>

definition hwp_return_watchpoint :: "int \<Rightarrow> bool list \<Rightarrow> bool list" where
  "hwp_return_watchpoint wp pool =
     (if wp \<ge> int HWP_MAX_WP then pool
      else if pool ! nat wp then pool[nat wp := False] else pool)"

definition free_watchpoints :: "bool list \<Rightarrow> nat set" where
  "free_watchpoints pool = {i. i < HWP_MAX_WP \<and> \<not> pool ! i}"

lemma hwp_get_loop_spec:
  "hwp_get_loop i pool =
     (if \<exists>j\<ge>i. j \<in> free_watchpoints pool
      then let j = (LEAST j. i \<le> j \<and> j \<in> free_watchpoints pool) in (int j, pool[j := True])
      else (- 1, pool))"
proof (induction i pool rule: hwp_get_loop.induct)
  case (1 i pool)
  show ?case
  proof (cases "i < HWP_MAX_WP \<and> pool ! i")
    case True
    then have "i \<le> j \<and> j \<in> free_watchpoints pool \<longleftrightarrow> i + 1 \<le> j \<and> j \<in> free_watchpoints pool" for j
      by (cases "j = i") (auto simp: free_watchpoints_def)
    then show ?thesis using 1 True by (auto simp: hwp_get_loop.simps [of i pool])
  next
    case False
    show ?thesis
    proof (cases "i < HWP_MAX_WP")
      case True
      with False have i: "i \<in> free_watchpoints pool" by (simp add: free_watchpoints_def)
      then have "(LEAST j. i \<le> j \<and> j \<in> free_watchpoints pool) = i" by (intro Least_equality) auto
      then show ?thesis using i True False by (auto simp: hwp_get_loop.simps [of i pool] Let_def)
    next
      case False
      then show ?thesis by (auto simp: hwp_get_loop.simps [of i pool] free_watchpoints_def)
    qed
  qed
qed

lemma get_watchpoint_spec:
  "hwp_get_available_watchpoint pool =
     (if free_watchpoints pool = {} then (- 1, pool)
      else let j = Min (free_watchpoints pool) in (int j, pool[j := True]))"
proof -
  have "finite (free_watchpoints pool)" by (simp add: free_watchpoints_def)
  moreover from this have "free_watchpoints pool \<noteq> {} \<Longrightarrow>
      (LEAST j. j \<in> free_watchpoints pool) = Min (free_watchpoints pool)"
    by (intro Least_equality) auto
  ultimately show ?thesis
    by (auto simp: hwp_get_available_watchpoint_def hwp_get_loop_spec [of 0])
qed

lemma free_after_get:
  "length pool = HWP_MAX_WP \<Longrightarrow> hwp_get_available_watchpoint pool = (int j, pool') \<Longrightarrow>
   j \<in> free_watchpoints pool \<and> free_watchpoints pool' = free_watchpoints pool - {j} \<and> length pool' = HWP_MAX_WP"
  using Min_in [of "free_watchpoints pool"]
  by (auto simp: get_watchpoint_spec Let_def free_watchpoints_def nth_list_update split: if_splits)

lemma free_after_return:
  "length pool = HWP_MAX_WP \<Longrightarrow> j < HWP_MAX_WP \<Longrightarrow>
   free_watchpoints (hwp_return_watchpoint (int j) pool) = insert j (free_watchpoints pool)"
  by (auto simp: hwp_return_watchpoint_def free_watchpoints_def nth_list_update)

lemma return_get:
  assumes "length pool = HWP_MAX_WP" and "hwp_get_available_watchpoint pool = (int j, pool')"
  shows "hwp_return_watchpoint (int j) pool' = pool"
proof -
  have "j \<in> free_watchpoints pool" "pool' = pool[j := True]"
    using free_after_get [OF assms] assms(2) by (auto simp: get_watchpoint_spec Let_def split: if_splits)
  then show ?thesis
    using assms(1) by (auto simp: free_watchpoints_def hwp_return_watchpoint_def nth_list_update intro!: nth_equalityI split: if_splits)
qed

end
