(* ===== verification/Errcodes.thy ===== *)
theory Errcodes
  imports Prelude
begin

unbundle bit_operations_syntax

text \<open>
  Error codes of the JTAG bridge (\<^verbatim>\<open>errcodes.h\<close>, \<^verbatim>\<open>errcodes.c\<close>): one bit per kind of error, so that the
  layers or the codes of their calls together, and their translation into a message.
\<close>

definition APP_ERR_NONE :: u32 where [spr_defs]: "APP_ERR_NONE = 0x0"
definition APP_ERR_COMM :: u32 where [err_defs]: "APP_ERR_COMM = 0x1"
definition APP_ERR_MALLOC :: u32 where [err_defs]: "APP_ERR_MALLOC = 0x2"
definition APP_ERR_MAX_RETRY :: u32 where [err_defs]: "APP_ERR_MAX_RETRY = 0x4"
definition APP_ERR_CRC :: u32 where [err_defs]: "APP_ERR_CRC = 0x08"
definition APP_ERR_MAX_BUS_ERR :: u32 where [err_defs]: "APP_ERR_MAX_BUS_ERR = 0x10"
definition APP_ERR_CABLE_INVALID :: u32 where [err_defs]: "APP_ERR_CABLE_INVALID = 0x20"
definition APP_ERR_INIT_FAILED :: u32 where [err_defs]: "APP_ERR_INIT_FAILED = 0x40"
definition APP_ERR_BAD_PARAM :: u32 where [err_defs]: "APP_ERR_BAD_PARAM = 0x080"
definition APP_ERR_CONNECT :: u32 where [err_defs]: "APP_ERR_CONNECT = 0x100"
definition APP_ERR_USB :: u32 where [err_defs]: "APP_ERR_USB = 0x200"
definition APP_ERR_CABLENOTFOUND :: u32 where [err_defs]: "APP_ERR_CABLENOTFOUND = 0x400"
definition APP_ERR_TEST_FAIL :: u32 where [err_defs]: "APP_ERR_TEST_FAIL = 0x0800"

definition get_err_string :: "u32 \<Rightarrow> string" where
  "get_err_string err =
     (if err AND APP_ERR_COMM \<noteq> 0 then [CHR 0x27] @ ''JTAG comm error'' @ [CHR 0x27, CHR '' ''] else []) @
     (if err AND APP_ERR_MALLOC \<noteq> 0 then [CHR 0x27] @ ''malloc failed'' @ [CHR 0x27, CHR '' ''] else []) @
     (if err AND APP_ERR_MAX_RETRY \<noteq> 0 then [CHR 0x27] @ ''max retries'' @ [CHR 0x27, CHR '' ''] else []) @
     (if err AND APP_ERR_CRC \<noteq> 0 then [CHR 0x27] @ ''CRC mismatch'' @ [CHR 0x27, CHR '' ''] else []) @
     (if err AND APP_ERR_MAX_BUS_ERR \<noteq> 0 then [CHR 0x27] @ ''max WishBone bus errors'' @ [CHR 0x27, CHR '' ''] else []) @
     (if err AND APP_ERR_CABLE_INVALID \<noteq> 0 then [CHR 0x27] @ ''Invalid cable'' @ [CHR 0x27, CHR '' ''] else []) @
     (if err AND APP_ERR_INIT_FAILED \<noteq> 0 then [CHR 0x27] @ ''init failed'' @ [CHR 0x27, CHR '' ''] else []) @
     (if err AND APP_ERR_BAD_PARAM \<noteq> 0 then [CHR 0x27] @ ''bad command line parameter'' @ [CHR 0x27, CHR '' ''] else []) @
     (if err AND APP_ERR_CONNECT \<noteq> 0 then [CHR 0x27] @ ''connection failed'' @ [CHR 0x27, CHR '' ''] else []) @
     (if err AND APP_ERR_USB \<noteq> 0 then [CHR 0x27] @ ''USB'' @ [CHR 0x27, CHR '' ''] else []) @
     (if err AND APP_ERR_CABLENOTFOUND \<noteq> 0 then [CHR 0x27] @ ''cable not found'' @ [CHR 0x27, CHR '' ''] else [])"

text \<open>The message always fits, with its terminator, into the 256 characters of \<^verbatim>\<open>errstr\<close>.\<close>

lemma err_string_fits: "length (get_err_string err) < 256"
  unfolding get_err_string_def by simp

section \<open>Sequences of calls\<close>

text \<open>
  The layers below the servers call one another in sequence and collect the error codes with \<^verbatim>\<open>err |= ...\<close>; no call is
  left out because an earlier one failed.
\<close>

fun err_seq :: "('s \<Rightarrow> u32 \<times> 's) list \<Rightarrow> 's \<Rightarrow> u32 \<times> 's" where
  "err_seq [] s = (APP_ERR_NONE, s)"
| "err_seq (f # fs) s = (let (e, s) = f s; (e', s) = err_seq fs s in (e OR e', s))"

lemma err_seq_append:
  "err_seq (fs @ gs) s = (let (e, s) = err_seq fs s; (e', s) = err_seq gs s in (e OR e', s))"
  by (induction fs arbitrary: s) (auto simp: APP_ERR_NONE_def Let_def or.assoc split: prod.splits)

text \<open>A sequence of calls that all succeed succeeds, and its effect is the composition of theirs.\<close>

lemma err_seq_ok:
  "fst (f s) = APP_ERR_NONE \<Longrightarrow> err_seq (f # fs) s = err_seq fs (snd (f s))"
  by (auto simp: APP_ERR_NONE_def Let_def split: prod.splits)

end
