(* ===== verification/Rsp_State.thy ===== *)
theory Rsp_State
  imports C_Scan Matchpoints Errcodes "HOL-Library.Monad_Syntax"
begin

unbundle bit_operations_syntax

text \<open>
  The state of the RSP server of the JTAG bridge (\<^verbatim>\<open>rsp-server.c\<close>), the debug operations it calls
  (\<^verbatim>\<open>dbg_api.c\<close>), and the parts every request handler is made of: characters and packets on the client
  connection, the stall commands to the monitor thread, closing the client.
\<close>

section \<open>Constants\<close>

text \<open>Special-purpose registers of the debug unit and of the system group (\<^verbatim>\<open>spr-defs.h\<close> of the bridge).\<close>

definition DSPR_NPC :: u32 where [spr_defs]: "DSPR_NPC = 16"
definition DSPR_SR :: u32 where [spr_defs]: "DSPR_SR = 17"
definition DSPR_SR_SM :: u32 where [spr_defs]: "DSPR_SR_SM = 1"
definition DSPR_PPC :: u32 where [spr_defs]: "DSPR_PPC = 18"
definition DSPR_GPR_BASE :: u32 where [spr_defs]: "DSPR_GPR_BASE = 1024"
definition DSPRGROUP_D :: u32 where [spr_defs]: "DSPRGROUP_D = push_bit 11 6"
definition SPR_DVR :: "u32 \<Rightarrow> u32" where [spr_defs]: "SPR_DVR n = DSPRGROUP_D + n"
definition SPR_DCR :: "u32 \<Rightarrow> u32" where [spr_defs]: "SPR_DCR n = DSPRGROUP_D + 8 + n"
definition SPR_DMR1 :: u32 where [spr_defs]: "SPR_DMR1 = DSPRGROUP_D + 16"
definition SPR_DMR2 :: u32 where [spr_defs]: "SPR_DMR2 = DSPRGROUP_D + 17"
definition DSPR_DSR :: u32 where [spr_defs]: "DSPR_DSR = DSPRGROUP_D + 20"
definition SPR_DRR :: u32 where [spr_defs]: "SPR_DRR = DSPRGROUP_D + 21"
definition SPR_DMR1_ST :: u32 where [spr_defs]: "SPR_DMR1_ST = 0x00400000"
definition SPR_DMR1_BT :: u32 where [spr_defs]: "SPR_DMR1_BT = 0x00800000"
definition SPR_DMR2_WBS :: u32 where [spr_defs]: "SPR_DMR2_WBS = 0xffc00000"
definition SPR_DSR_TE :: u32 where [spr_defs]: "SPR_DSR_TE = 0x2000"
definition SPR_DSR_FPE :: u32 where [spr_defs]: "SPR_DSR_FPE = 0x1000"
definition SPR_DSR_RE :: u32 where [spr_defs]: "SPR_DSR_RE = 0x400"
definition SPR_DSR_IIE :: u32 where [spr_defs]: "SPR_DSR_IIE = 0x40"
definition SPR_DSR_AE :: u32 where [spr_defs]: "SPR_DSR_AE = 0x20"
definition SPR_DSR_BUSEE :: u32 where [spr_defs]: "SPR_DSR_BUSEE = 0x2"
definition MAX_GPRS :: nat where "MAX_GPRS = 32"
definition MAX_SPRS :: u32 where [spr_defs]: "MAX_SPRS = 0x10000"
definition EXCEPT_RESET :: u64 where "EXCEPT_RESET = 0x100"
definition PPC_REGNUM :: u32 where [spr_defs]: "PPC_REGNUM = 32"
definition NPC_REGNUM :: u32 where [spr_defs]: "NPC_REGNUM = 33"
definition SR_REGNUM :: u32 where [spr_defs]: "SR_REGNUM = 34"
definition OR1K_TRAP_INSTR :: u32 where "OR1K_TRAP_INSTR = 0x21000001"
definition GDB_BUF_MAX :: nat where "GDB_BUF_MAX = 16384"

section \<open>The debug operations\<close>

text \<open>
  The functions of \<^verbatim>\<open>dbg_api.c\<close> the servers call, over the state \<open>'h\<close> of everything behind them.
  Each returns the error code (and the data read); \<open>None\<close> is a call that does not return, as a failed
  burst write ends the process. A block length is a signed \<^verbatim>\<open>int\<close>.
\<close>

record 'h debug_port =
  cpu0_read :: "u32 \<Rightarrow> 'h \<Rightarrow> (u32 \<times> u32 \<times> 'h) option"
  cpu0_write :: "u32 \<Rightarrow> u32 \<Rightarrow> 'h \<Rightarrow> (u32 \<times> 'h) option"
  cpu0_read_block :: "u32 \<Rightarrow> nat \<Rightarrow> 'h \<Rightarrow> (u32 \<times> u32 list \<times> 'h) option"
  cpu0_write_block :: "u32 \<Rightarrow> u32 list \<Rightarrow> 'h \<Rightarrow> (u32 \<times> 'h) option"
  wb_read_block8 :: "u32 \<Rightarrow> int \<Rightarrow> 'h \<Rightarrow> (u32 \<times> u8 list \<times> 'h) option"
  wb_write_block8 :: "u32 \<Rightarrow> u8 list \<Rightarrow> int \<Rightarrow> 'h \<Rightarrow> (u32 \<times> 'h) option"
  wb_read_block32 :: "u32 \<Rightarrow> int \<Rightarrow> 'h \<Rightarrow> (u32 \<times> u32 list \<times> 'h) option"
  wb_write_block32 :: "u32 \<Rightarrow> u32 list \<Rightarrow> int \<Rightarrow> 'h \<Rightarrow> (u32 \<times> 'h) option"

section \<open>The server's state\<close>

text \<open>
  The structure \<^verbatim>\<open>rsp\<close> and the globals around it: \<open>link\<close> is the client connection (closed when
  \<^verbatim>\<open>client_fd\<close> is \<open>-1\<close>), \<open>rsp_data\<close> and \<open>rsp_len\<close> the static packet buffer, \<open>pipe_open\<close> says that the pipe pair to
  the monitor thread is registered and \<open>monitor_cmds\<close> collects what was written to it, \<open>hwp_in_use\<close> is the
  pool of \<^verbatim>\<open>hwp_server.c\<close>. \<open>stack_junk\<close> is the indeterminate content of automatic character arrays;
  no theorem assumes anything about it.
\<close>

record 'h bridge =
  link :: link
  server_open :: bool
  client_waiting :: bool
  target_running :: bool
  single_step_mode :: bool
  sigval :: nat
  start_addr :: u64
  mp_hash :: mp_table
  use_cached_npc :: bool
  cached_npc :: u32
  pipe_open :: bool
  monitor_cmds :: string
  rsp_data :: "nat \<Rightarrow> char"
  rsp_len :: nat
  hwp_in_use :: "bool list"
  stack_junk :: "nat \<Rightarrow> char"
  hw :: 'h

definition spr_read :: "'h debug_port \<Rightarrow> u32 \<Rightarrow> 'h bridge \<Rightarrow> (u32 \<times> u32 \<times> 'h bridge) option" where
  "spr_read p adr s = do { (err, data, h) \<leftarrow> cpu0_read p adr (hw s); Some (err, data, s\<lparr>hw := h\<rparr>) }"

definition spr_write :: "'h debug_port \<Rightarrow> u32 \<Rightarrow> u32 \<Rightarrow> 'h bridge \<Rightarrow> (u32 \<times> 'h bridge) option" where
  "spr_write p adr data s = do { (err, h) \<leftarrow> cpu0_write p adr data (hw s); Some (err, s\<lparr>hw := h\<rparr>) }"

text \<open>Writing to a pipe that is no longer registered fails with a message and has no effect.\<close>

definition set_stall_state :: "bool \<Rightarrow> 'h bridge \<Rightarrow> 'h bridge" where
  "set_stall_state stall s =
     (let s = (if \<not> stall then s\<lparr>use_cached_npc := False\<rparr> else s)
      in if pipe_open s
         then s\<lparr>monitor_cmds := monitor_cmds s @ (if stall then ''S'' else ''U'')\<rparr>
         else s)"

definition rsp_client_close :: "'h debug_port \<Rightarrow> 'h bridge \<Rightarrow> 'h bridge option" where
  "rsp_client_close p s = do {
     let s = (if target_running s then set_stall_state True s else s);
     (_, s) \<leftarrow> spr_write p DSPR_DSR 0 s;
     let s = (if target_running s then set_stall_state False s else s);
     let s = s\<lparr>pipe_open := False\<rparr>;
     Some (s\<lparr>link := (link s)\<lparr>link_open := False\<rparr>\<rparr>)
   }"

definition rsp_server_close :: "'h bridge \<Rightarrow> 'h bridge" where
  "rsp_server_close s = s\<lparr>server_open := False\<rparr>"

text \<open>
  \<^verbatim>\<open>get_rsp_char\<close> and \<^verbatim>\<open>put_rsp_char\<close> close the client on the failure that closes the connection; the
  rest of the packet functions only touches the connection, so the closing can be done at its end.
\<close>

definition with_link :: "'h debug_port \<Rightarrow> (link \<Rightarrow> 'a \<times> link) \<Rightarrow> 'h bridge \<Rightarrow> ('a \<times> 'h bridge) option" where
  "with_link p f s =
     (let (r, l) = f (link s); s' = s\<lparr>link := l\<rparr>
      in if link_open (link s) \<and> \<not> link_open l
         then do { s' \<leftarrow> rsp_client_close p s'; Some (r, s') }
         else Some (r, s'))"

definition rsp_put_packet :: "'h debug_port \<Rightarrow> string \<Rightarrow> 'h bridge \<Rightarrow> 'h bridge option" where
  "rsp_put_packet p data s = do { (_, s) \<leftarrow> with_link p (\<lambda>l. ((), put_packet data l)) s; Some s }"

definition put_str_packet :: "'h debug_port \<Rightarrow> string \<Rightarrow> 'h bridge \<Rightarrow> 'h bridge option" where
  "put_str_packet p str s = rsp_put_packet p (take (GDB_BUF_MAX - 1) str) s"

definition rsp_get_packet :: "'h debug_port \<Rightarrow> 'h bridge \<Rightarrow> (nat option \<times> 'h bridge) option" where
  "rsp_get_packet p s = do {
     ((len, buf), s) \<leftarrow> with_link p (\<lambda>l. case get_packet GDB_BUF_MAX True (rsp_data s) l of
                                       (len, buf, l) \<Rightarrow> ((len, buf), l)) s;
     Some (len, s\<lparr>rsp_data := buf, rsp_len := (case len of Some n \<Rightarrow> n | None \<Rightarrow> rsp_len s)\<rparr>)
   }"

text \<open>The packet as a C string, and the reply a handler builds in the packet buffer.\<close>

definition packet_string :: "'h bridge \<Rightarrow> string" where
  "packet_string s = c_string GDB_BUF_MAX (rsp_data s) 0"

definition put_string :: "string \<Rightarrow> (nat \<Rightarrow> char) \<Rightarrow> nat \<Rightarrow> char" where
  "put_string cs buf = (put_chars buf 0 cs)(length cs := CHR 0x00)"

definition reply_in_buffer :: "'h debug_port \<Rightarrow> string \<Rightarrow> 'h bridge \<Rightarrow> 'h bridge option" where
  "reply_in_buffer p str s = rsp_put_packet p str (s\<lparr>rsp_data := put_string str (rsp_data s), rsp_len := length str\<rparr>)"

section \<open>Exceptions of the target\<close>

text \<open>\<^verbatim>\<open>rsp_exception\<close>: the GDB signal for a debug reason; an unknown reason is ignored.\<close>

definition signal_of :: "u32 \<Rightarrow> nat option" where
  "signal_of except =
     (if except = 0x1 then Some 32
      else if except = 0x2 then Some 10
      else if except = 0x4 then Some 11
      else if except = 0x8 then Some 11
      else if except = 0x10 then Some 14
      else if except = 0x20 then Some 10
      else if except = 0x40 then Some 4
      else if except = 0x80 then Some 2
      else if except = 0x100 then Some 11
      else if except = 0x200 then Some 11
      else if except = 0x400 then Some 8
      else if except = 0x800 then Some 31
      else if except = 0x1000 then Some 8
      else if except = 0x2000 then Some 5
      else if except = 0 then Some 5
      else None)"

definition TARGET_SIGNAL_TRAP :: nat where
  "TARGET_SIGNAL_TRAP = 5"

definition rsp_exception :: "u32 \<Rightarrow> 'h bridge \<Rightarrow> 'h bridge" where
  "rsp_exception except s =
     (case signal_of except of None \<Rightarrow> s | Some sig \<Rightarrow> s\<lparr>sigval := sig\<rparr>)"

definition rsp_report_exception :: "'h debug_port \<Rightarrow> 'h bridge \<Rightarrow> 'h bridge option" where
  "rsp_report_exception p s =
     rsp_put_packet p [CHR ''S'', hex_digit (sigval s div 16), hex_digit (sigval s mod 16)] s"

definition set_npc :: "'h debug_port \<Rightarrow> u64 \<Rightarrow> 'h bridge \<Rightarrow> (u32 \<times> 'h bridge) option" where
  "set_npc p addr s = do {
     (err, s) \<leftarrow> spr_write p DSPR_NPC (ucast addr) s;
     Some (err, s\<lparr>cached_npc := ucast addr, use_cached_npc := True\<rparr>)
   }"

text \<open>
  The state \<^verbatim>\<open>rsp_init\<close> leaves behind. \<open>set_up\<close> says that every system call from \<^verbatim>\<open>getprotobyname\<close> to
  \<^verbatim>\<open>listen\<close> succeeded; each failure leaves or makes the server socket \<open>-1\<close>.
\<close>

definition rsp_init :: "bool \<Rightarrow> 'h bridge \<Rightarrow> 'h bridge" where
  "rsp_init set_up s =
     s\<lparr>client_waiting := False, server_open := set_up, link := (link s)\<lparr>link_open := False\<rparr>,
       sigval := 0, start_addr := EXCEPT_RESET, mp_hash := mp_hash_init\<rparr>"

end
