(* ===== verification/Rsp_Server.thy ===== *)
theory Rsp_Server
  imports Rsp_State
begin

unbundle bit_operations_syntax

text \<open>
  The request handlers of \<^verbatim>\<open>rsp-server.c\<close>, one definition per C function, and their dispatch. A handler
  takes the debug operations and the state and returns the new state; \<open>None\<close> is a run that does not get
  back to the server: a debug operation that ended the process, or an access outside the packet buffer.
  Messages on standard error are left out.
\<close>

section \<open>Running and stepping\<close>

definition clear_watchpoint_status :: "'h debug_port \<Rightarrow> 'h bridge \<Rightarrow> 'h bridge option" where
  "clear_watchpoint_status p s = do {
     (_, s) \<leftarrow> spr_write p SPR_DRR 0 s;
     (_, tmp, s) \<leftarrow> spr_read p SPR_DMR2 s;
     (if tmp AND SPR_DMR2_WBS \<noteq> 0
     then do { (_, s) \<leftarrow> spr_write p SPR_DMR2 tmp s; Some s }
     else Some s)
   }"

definition rsp_continue_generic :: "'h debug_port \<Rightarrow> 'h bridge \<Rightarrow> 'h bridge option" where
  "rsp_continue_generic p s = do {
     s \<leftarrow> clear_watchpoint_status p s;
     (_, tmp, s) \<leftarrow> spr_read p SPR_DMR1 s;
     (_, s) \<leftarrow> spr_write p SPR_DMR1 (tmp AND NOT (SPR_DMR1_ST OR SPR_DMR1_BT)) s;
     let s = set_stall_state False s;
     Some (s\<lparr>client_waiting := True, single_step_mode := False\<rparr>)
   }"

definition rsp_continue :: "'h debug_port \<Rightarrow> 'h bridge \<Rightarrow> 'h bridge option" where
  "rsp_continue p s =
     (if packet_string s = ''c'' then rsp_continue_generic p s
      else case sscanf [Lit CHR ''c'', Hex None] (packet_string s) of
        [Num addr] \<Rightarrow> do { (_, s) \<leftarrow> set_npc p addr s; rsp_continue_generic p s }
      | _ \<Rightarrow> rsp_continue_generic p s)"

definition rsp_step_generic :: "'h debug_port \<Rightarrow> 'h bridge \<Rightarrow> 'h bridge option" where
  "rsp_step_generic p s = do {
     s \<leftarrow> clear_watchpoint_status p s;
     s \<leftarrow> (if \<not> single_step_mode s then do {
             (_, tmp, s) \<leftarrow> spr_read p SPR_DMR1 s;
             (_, s) \<leftarrow> spr_write p SPR_DMR1 (tmp OR (SPR_DMR1_ST OR SPR_DMR1_BT)) s;
             (_, tmp, s) \<leftarrow> spr_read p DSPR_DSR s;
             s \<leftarrow> (if tmp AND SPR_DSR_TE = 0
                   then do { (_, s) \<leftarrow> spr_write p DSPR_DSR (tmp OR SPR_DSR_TE) s; Some s }
                   else Some s);
             Some (s\<lparr>single_step_mode := True\<rparr>)
           } else Some s);
     let s = set_stall_state False s;
     Some (s\<lparr>client_waiting := True\<rparr>)
   }"

text \<open>The address of a step request is parsed and dropped; a signal number is ignored.\<close>

definition rsp_step :: "'h debug_port \<Rightarrow> 'h bridge \<Rightarrow> 'h bridge option" where
  "rsp_step p s = rsp_step_generic p s"

definition rsp_step_with_signal :: "'h debug_port \<Rightarrow> 'h bridge \<Rightarrow> 'h bridge option" where
  "rsp_step_with_signal p s = rsp_step_generic p s"

definition rsp_continue_with_signal :: "'h bridge \<Rightarrow> 'h bridge" where
  "rsp_continue_with_signal s = s"

definition rsp_restart :: "'h debug_port \<Rightarrow> 'h bridge \<Rightarrow> 'h bridge option" where
  "rsp_restart p s = do { (_, s) \<leftarrow> set_npc p (start_addr s) s; Some s }"

section \<open>Registers\<close>

definition rsp_read_all_regs :: "'h debug_port \<Rightarrow> 'h bridge \<Rightarrow> 'h bridge option" where
  "rsp_read_all_regs p s = do {
     (errcode, regbuf, h) \<leftarrow> cpu0_read_block p DSPR_GPR_BASE MAX_GPRS (hw s);
     let s = s\<lparr>hw := h\<rparr>;
     let gprs = concat (map (\<lambda>r. reg2hex (ucast (regbuf ! r))) [0..<MAX_GPRS]);
     (errcode', regbuf, h) \<leftarrow> cpu0_read_block p DSPR_NPC 3 (hw s);
     let s = s\<lparr>hw := h\<rparr>;
     let npc = (if use_cached_npc s then cached_npc s else regbuf ! 0);
     (if errcode OR errcode' = APP_ERR_NONE
     then rsp_put_packet p (gprs @ reg2hex (ucast (regbuf ! 2)) @ reg2hex (ucast npc) @ reg2hex (ucast (regbuf ! 1))) s
     else put_str_packet p ''E01'' s)
   }"

text \<open>The registers are read from the start of the packet, where the letter \<^verbatim>\<open>G\<close> is.\<close>

definition rsp_write_all_regs :: "'h debug_port \<Rightarrow> 'h bridge \<Rightarrow> 'h bridge option" where
  "rsp_write_all_regs p s = do {
     let reg = (\<lambda>r. (ucast (hex2reg (\<lambda>i. rsp_data s (r * 8 + i))) :: u32));
     (errcode, h) \<leftarrow> cpu0_write_block p DSPR_GPR_BASE (map reg [0..<MAX_GPRS]) (hw s);
     let s = s\<lparr>hw := h\<rparr>;
     (errcode', h) \<leftarrow> cpu0_write_block p DSPR_NPC
        [reg (unat NPC_REGNUM), reg (unat SR_REGNUM), reg (unat PPC_REGNUM)] (hw s);
     let s = s\<lparr>hw := h\<rparr>;
     (if errcode OR errcode' = APP_ERR_NONE then put_str_packet p ''OK'' s else put_str_packet p ''E01'' s)
   }"

definition rsp_read_reg :: "'h debug_port \<Rightarrow> 'h bridge \<Rightarrow> 'h bridge option" where
  "rsp_read_reg p s =
     (case sscanf [Lit CHR ''p'', Hex None] (packet_string s) of
        [Num n] \<Rightarrow>
          (let regnum = ucast n :: u32;
               reply = (\<lambda>(errcode, tmp, s).
                          if errcode = APP_ERR_NONE then reply_in_buffer p (reg2hex (ucast tmp)) s
                          else put_str_packet p ''E01'' s)
           in if unat regnum < MAX_GPRS then spr_read p (DSPR_GPR_BASE + regnum) s \<bind> reply
              else if regnum = PPC_REGNUM then spr_read p DSPR_PPC s \<bind> reply
              else if regnum = NPC_REGNUM then
                if use_cached_npc s then reply (APP_ERR_NONE, cached_npc s, s)
                else spr_read p DSPR_NPC s \<bind> reply
              else if regnum = SR_REGNUM then spr_read p DSPR_SR s \<bind> reply
              else put_str_packet p ''E01'' s)
      | _ \<Rightarrow> put_str_packet p ''E01'' s)"

text \<open>The value is an array of nine characters, the string with its terminator in front of what was there.\<close>

definition rsp_write_reg :: "'h debug_port \<Rightarrow> 'h bridge \<Rightarrow> 'h bridge option" where
  "rsp_write_reg p s =
     (case sscanf [Lit CHR ''P'', Hex None, Lit CHR ''='', Word (Some 8)] (packet_string s) of
        [Num n, Str v] \<Rightarrow>
          (let regnum = ucast n :: u32;
               val = hex2reg (put_string v (stack_junk s));
               reply = (\<lambda>(errcode, s).
                          if errcode = APP_ERR_NONE then put_str_packet p ''OK'' s
                          else put_str_packet p ''E01'' s)
           in if unat regnum < MAX_GPRS then spr_write p (DSPR_GPR_BASE + regnum) (ucast val) s \<bind> reply
              else if regnum = PPC_REGNUM then spr_write p DSPR_PPC (ucast val) s \<bind> reply
              else if regnum = NPC_REGNUM then set_npc p val s \<bind> reply
              else if regnum = SR_REGNUM then spr_write p DSPR_SR (ucast val) s \<bind> reply
              else put_str_packet p ''E01'' s)
      | _ \<Rightarrow> put_str_packet p ''E01'' s)"

section \<open>Memory\<close>

text \<open>
  The length is an \<^verbatim>\<open>int\<close>, twice the length is computed in 32 bits. A reply longer than the buffer is
  written past its end.
\<close>

definition rsp_read_mem :: "'h debug_port \<Rightarrow> 'h bridge \<Rightarrow> 'h bridge option" where
  "rsp_read_mem p s =
     (case sscanf [Lit CHR ''m'', Hex None, Lit CHR '','', Hex None, Lit CHR '':''] (packet_string s) of
        [Num a, Num n] \<Rightarrow>
          (let len = ucast n :: u32;
               len = (if int GDB_BUF_MAX \<le> sint (len * 2) then of_nat ((GDB_BUF_MAX - 1) div 2) else len)
           in do {
             (errcode, tmpbuf, h) \<leftarrow> wb_read_block8 p (ucast a) (sint len) (hw s);
             let s = s\<lparr>hw := h\<rparr>;
             let digits = concat (map (\<lambda>off. hex_byte (tmpbuf ! off)) [0..<nat (sint len)]);
             (if GDB_BUF_MAX \<le> length digits then None
             else if errcode = APP_ERR_NONE then reply_in_buffer p digits s
             else put_str_packet p ''E01'' (s\<lparr>rsp_data := put_chars (rsp_data s) 0 digits\<rparr>))
           })
      | _ \<Rightarrow> put_str_packet p ''E01'' s)"

text \<open>
  The data starts behind the first colon in the whole buffer, which \<^verbatim>\<open>sscanf\<close> does not ask for: without
  one the pointer is \<^verbatim>\<open>NULL + 1\<close>.
\<close>

definition rsp_write_mem :: "'h debug_port \<Rightarrow> 'h bridge \<Rightarrow> 'h bridge option" where
  "rsp_write_mem p s =
     (case sscanf [Lit CHR ''M'', Hex None, Lit CHR '','', Hex None, Lit CHR '':''] (packet_string s) of
        [Num a, Num n] \<Rightarrow> do {
          colon \<leftarrow> c_memchr GDB_BUF_MAX (rsp_data s) 0 CHR '':'';
          let len = (ucast n :: u32);
          let symdat = colon + 1;
          (if len * 2 \<noteq> of_int (int (rsp_len s) - int symdat) then put_str_packet p ''E01'' s
          else do {
            let nyb = (\<lambda>i. (of_int (hex (rsp_data s (symdat + i))) :: u8));
            let tmpbuf = map (\<lambda>off. push_bit 4 (nyb (off * 2)) OR nyb (off * 2 + 1)) [0..<nat (sint len)];
            (errcode, h) \<leftarrow> wb_write_block8 p (ucast a) tmpbuf (sint len) (hw s);
            let s = s\<lparr>hw := h\<rparr>;
            if errcode = APP_ERR_NONE then put_str_packet p ''OK'' s else put_str_packet p ''E01'' s
          })
        }
      | _ \<Rightarrow> put_str_packet p ''E01'' s)"

definition rsp_write_mem_bin :: "'h debug_port \<Rightarrow> 'h bridge \<Rightarrow> 'h bridge option" where
  "rsp_write_mem_bin p s =
     (case sscanf [Lit CHR ''X'', Hex None, Lit CHR '','', Hex None, Lit CHR '':''] (packet_string s) of
        [Num a, Num n] \<Rightarrow> do {
          colon \<leftarrow> c_memchr GDB_BUF_MAX (rsp_data s) 0 CHR '':'';
          let len = sint (ucast n :: u32);
          let off = colon + 1;
          let (bindat, newlen) = rsp_unescape (\<lambda>i. rsp_data s (off + i)) (rsp_len s - off);
          let len = (if int newlen \<noteq> len then (if len < int newlen then len else int newlen) else len);
          let s = s\<lparr>rsp_data := (\<lambda>i. if off \<le> i then bindat (i - off) else rsp_data s i)\<rparr>;
          (errcode, h) \<leftarrow> wb_write_block8 p (ucast a) (map (\<lambda>i. byte (bindat i)) [0..<nat len]) len (hw s);
          let s = s\<lparr>hw := h\<rparr>;
          (if errcode = APP_ERR_NONE then put_str_packet p ''OK'' s else put_str_packet p ''E01'' s)
        }
      | _ \<Rightarrow> put_str_packet p ''E01'' s)"

section \<open>Queries\<close>

text \<open>A command that is neither \<^verbatim>\<open>readspr\<close> nor \<^verbatim>\<open>writespr\<close> gets no reply.\<close>

definition rsp_command :: "'h debug_port \<Rightarrow> 'h bridge \<Rightarrow> 'h bridge option" where
  "rsp_command p s =
     (let cmd = takeWhile (\<lambda>c. c \<noteq> CHR 0x00) (hex2ascii (c_string GDB_BUF_MAX (rsp_data s) 6))
      in if starts_with ''readspr'' cmd then
           (case sscanf (map Lit ''readspr'' @ [Space, Hex (Some 4)]) cmd of
              [Num n] \<Rightarrow>
                (let regno = ucast n :: u32
                 in if regno > MAX_SPRS then put_str_packet p ''E01'' s
                    else do {
                      (_, tmp, s) \<leftarrow> spr_read p regno s;
                      let cmd = replicate (8 - length (hex_digits (unat tmp))) CHR '' '' @ hex_digits (unat tmp);
                      reply_in_buffer p (ascii2hex cmd) s
                    })
            | _ \<Rightarrow> put_str_packet p ''E01'' s)
         else if starts_with ''writespr'' cmd then
           (case sscanf (map Lit ''writespr'' @ [Space, Hex (Some 4), Space, Hex (Some 8)]) cmd of
              [Num n, Num val] \<Rightarrow>
                (let regno = ucast n :: u32
                 in if regno > MAX_SPRS then put_str_packet p ''E01'' s
                    else do { (_, s) \<leftarrow> spr_write p regno (ucast val) s; put_str_packet p ''OK'' s })
            | _ \<Rightarrow> put_str_packet p ''E01'' s)
         else Some s)"

definition rsp_query :: "'h debug_port \<Rightarrow> 'h bridge \<Rightarrow> 'h bridge option" where
  "rsp_query p s =
     (let q = packet_string s
      in if q = ''qC'' then put_str_packet p [] s
         else if starts_with ''qCRC'' q then put_str_packet p ''E01'' s
         else if q = ''qfThreadInfo'' then put_str_packet p ''m-1'' s
         else if q = ''qsThreadInfo'' then put_str_packet p ''l'' s
         else if starts_with ''qGetTLSAddr:'' q then put_str_packet p [] s
         else if starts_with ''qL'' q then put_str_packet p ''qM001'' s
         else if q = ''qOffsets'' then put_str_packet p ''Text=0;Data=0;Bss=0'' s
         else if starts_with ''qP'' q then put_str_packet p [] s
         else if starts_with ''qRcmd,'' q then rsp_command p s
         else if starts_with ''qSupported'' q then put_str_packet p (''PacketSize='' @ hex_digits GDB_BUF_MAX) s
         else if starts_with ''qSymbol:'' q then put_str_packet p ''OK'' s
         else if starts_with ''qThreadExtraInfo,'' q then
           reply_in_buffer p (concat (map (\<lambda>c. hex_byte (byte c)) (''Runnable'' @ [CHR 0x00]))) s
         else if starts_with ''qXfer:'' q then put_str_packet p [] s
         else if starts_with ''qAttached'' q then put_str_packet p [] s
         else if q = ''qTStatus'' then put_str_packet p [] s
         else Some s)"

definition rsp_set :: "'h debug_port \<Rightarrow> 'h bridge \<Rightarrow> 'h bridge option" where
  "rsp_set p s =
     (let q = packet_string s
      in if starts_with ''QPassSignals:'' q then put_str_packet p [] s
         else if starts_with ''QTDP'' q \<or> starts_with ''QFrame'' q \<or> q = ''QTStart'' \<or> q = ''QTStop'' \<or>
                 q = ''QTinit'' \<or> starts_with ''QTro'' q then put_str_packet p [] s
         else Some s)"

definition rsp_vpkt :: "'h debug_port \<Rightarrow> 'h bridge \<Rightarrow> 'h bridge option" where
  "rsp_vpkt p s =
     (let q = packet_string s
      in if starts_with ''vAttach;'' q then put_str_packet p ''S05'' s
         else if q = ''vCont?'' then put_str_packet p [] s
         else if starts_with ''vCont'' q then Some s
         else if starts_with ''vFile:'' q then put_str_packet p [] s
         else if starts_with ''vFlashErase:'' q then put_str_packet p ''E01'' s
         else if starts_with ''vFlashWrite:'' q then put_str_packet p ''E01'' s
         else if q = ''vFlashDone'' then put_str_packet p ''E01'' s
         else if starts_with ''vRun;'' q then do { s \<leftarrow> rsp_restart p s; put_str_packet p ''S05'' s }
         else put_str_packet p ''E01'' s)"

section \<open>Breakpoints and watchpoints\<close>

text \<open>The type of a matchpoint is read into the enumeration; other values reach the default case.\<close>

definition mp_type_of :: "u32 \<Rightarrow> mp_type option" where
  "mp_type_of n =
     (if n = 0 then Some BP_MEMORY
      else if n = 1 then Some BP_HARDWARE
      else if n = 2 then Some WP_WRITE
      else if n = 3 then Some WP_READ
      else if n = 4 then Some WP_ACCESS
      else None)"

text \<open>What a watchpoint compares: the last byte of its control register.\<close>

definition dcr_compare :: "mp_type \<Rightarrow> u32" where
  "dcr_compare type =
     (case type of
        BP_HARDWARE \<Rightarrow> 0x23
      | WP_WRITE \<Rightarrow> 0x63
      | WP_READ \<Rightarrow> 0x43
      | WP_ACCESS \<Rightarrow> 0xC3
      | BP_MEMORY \<Rightarrow> 0)"

text \<open>
  The registers of watchpoint \<open>hwp\<close>: value, control, the enable bit in \<^verbatim>\<open>DMR2\<close>, the chaining bits in
  \<^verbatim>\<open>DMR1\<close>. The error codes are not looked at.
\<close>

definition program_watchpoint :: "'h debug_port \<Rightarrow> nat \<Rightarrow> u32 \<Rightarrow> u32 \<Rightarrow> 'h bridge \<Rightarrow> 'h bridge option" where
  "program_watchpoint p hwp addr compare s = do {
     (_, s) \<leftarrow> spr_write p (SPR_DVR (of_nat hwp)) addr s;
     (_, s) \<leftarrow> spr_write p (SPR_DCR (of_nat hwp)) compare s;
     (_, regdata, s) \<leftarrow> spr_read p SPR_DMR2 s;
     (_, s) \<leftarrow> spr_write p SPR_DMR2 (regdata OR push_bit 12 (push_bit hwp 1)) s;
     (_, regdata, s) \<leftarrow> spr_read p SPR_DMR1 s;
     (_, s) \<leftarrow> spr_write p SPR_DMR1 (regdata AND NOT (push_bit (2 * hwp) 3)) s;
     Some s
   }"

definition insert_watchpoint :: "'h debug_port \<Rightarrow> mp_type \<Rightarrow> u32 \<Rightarrow> 'h bridge \<Rightarrow> 'h bridge option" where
  "insert_watchpoint p type addr s =
     (let (hwp, pool) = hwp_get_available_watchpoint (hwp_in_use s);
          s = s\<lparr>hwp_in_use := pool\<rparr>
      in if hwp = - 1 then put_str_packet p [] s
         else do {
           let s = s\<lparr>mp_hash := mp_hash_add type (ucast addr) (of_int hwp) (mp_hash s)\<rparr>;
           s \<leftarrow> program_watchpoint p (nat hwp) addr (dcr_compare type) s;
           put_str_packet p ''OK'' s
         })"

definition rsp_insert_matchpoint :: "'h debug_port \<Rightarrow> 'h bridge \<Rightarrow> 'h bridge option" where
  "rsp_insert_matchpoint p s =
     (case sscanf [Lit CHR ''Z'', Dec (Some 1), Lit CHR '','', Hex None, Lit CHR '','', Dec (Some 1)]
             (packet_string s) of
        [Num t, Num a, Num l] \<Rightarrow>
          (let addr = (ucast a :: u32)
           in case mp_type_of (ucast t) of
                None \<Rightarrow> put_str_packet p ''E01'' s
              | Some BP_MEMORY \<Rightarrow> do {
                  (_, instbuf, h) \<leftarrow> wb_read_block32 p addr 1 (hw s);
                  let s = s\<lparr>hw := h, mp_hash := mp_hash_add BP_MEMORY (ucast addr) (ucast (instbuf ! 0)) (mp_hash s)\<rparr>;
                  (_, h) \<leftarrow> wb_write_block32 p addr [OR1K_TRAP_INSTR] 1 (hw s);
                  put_str_packet p ''OK'' (s\<lparr>hw := h\<rparr>)
                }
              | Some type \<Rightarrow> insert_watchpoint p type addr s)
      | _ \<Rightarrow> put_str_packet p ''E01'' s)"

definition remove_watchpoint :: "'h debug_port \<Rightarrow> mp_type \<Rightarrow> u32 \<Rightarrow> 'h bridge \<Rightarrow> 'h bridge option" where
  "remove_watchpoint p type addr s =
     (let (mpe, t) = mp_hash_delete type (ucast addr) (mp_hash s);
          s = s\<lparr>mp_hash := t\<rparr>
      in case mpe of
           None \<Rightarrow> put_str_packet p ''OK'' s
         | Some e \<Rightarrow> do {
             let hwp = (ucast (mp_instr e) :: u32);
             (_, regdata, s) \<leftarrow> spr_read p SPR_DMR2 s;
             (_, s) \<leftarrow> spr_write p SPR_DMR2 (regdata AND NOT (push_bit 12 (push_bit (unat hwp) 1))) s;
             (_, s) \<leftarrow> spr_write p (SPR_DCR hwp) 1 s;
             let s = s\<lparr>hwp_in_use := hwp_return_watchpoint (sint hwp) (hwp_in_use s)\<rparr>;
             put_str_packet p ''OK'' s
           })"

definition rsp_remove_matchpoint :: "'h debug_port \<Rightarrow> 'h bridge \<Rightarrow> 'h bridge option" where
  "rsp_remove_matchpoint p s =
     (case sscanf [Lit CHR ''z'', Dec (Some 1), Lit CHR '','', Hex None, Lit CHR '','', Dec (Some 1)]
             (packet_string s) of
        [Num t, Num a, Num l] \<Rightarrow>
          (let addr = (ucast a :: u32)
           in case mp_type_of (ucast t) of
                None \<Rightarrow> put_str_packet p ''E01'' s
              | Some BP_MEMORY \<Rightarrow>
                  (let (mpe, t) = mp_hash_delete BP_MEMORY (ucast addr) (mp_hash s);
                       s = s\<lparr>mp_hash := t\<rparr>
                   in case mpe of
                        None \<Rightarrow> put_str_packet p ''OK'' s
                      | Some e \<Rightarrow> do {
                          (_, h) \<leftarrow> wb_write_block32 p addr [ucast (mp_instr e)] 1 (hw s);
                          put_str_packet p ''OK'' (s\<lparr>hw := h\<rparr>)
                        })
              | Some type \<Rightarrow> remove_watchpoint p type addr s)
      | _ \<Rightarrow> put_str_packet p ''E01'' s)"

end
