(* ===== verification/Rsp_Events.thy ===== *)
theory Rsp_Events
  imports Rsp_Server
begin

unbundle bit_operations_syntax

text \<open>
  The event loop of the RSP server (\<^verbatim>\<open>handle_rsp\<close>, \<^verbatim>\<open>rsp_server_request\<close>, \<^verbatim>\<open>rsp_client_request\<close> in
  \<^verbatim>\<open>rsp-server.c\<close>): dispatch of a client's packet, a new client, a message from the monitor thread, and
  the errors of the sockets. What the operating system reports is an explicit argument.
\<close>

section \<open>A request of the client\<close>

text \<open>The \<^verbatim>\<open>switch\<close> on the first character, for a stopped target.\<close>

definition rsp_dispatch :: "'h debug_port \<Rightarrow> char \<Rightarrow> 'h bridge \<Rightarrow> 'h bridge option" where
  "rsp_dispatch p c s =
     (if c = CHR ''!'' then put_str_packet p ''OK'' s
      else if c = CHR ''?'' then rsp_report_exception p s
      else if c = CHR ''A'' then put_str_packet p ''E01'' s
      else if c = CHR ''c'' then rsp_continue p s
      else if c = CHR ''C'' then Some (rsp_continue_with_signal s)
      else if c = CHR ''D'' then do {
        s \<leftarrow> put_str_packet p ''OK'' s;
        s \<leftarrow> rsp_client_close p s;
        Some (set_stall_state False s)
      }
      else if c = CHR ''g'' then rsp_read_all_regs p s
      else if c = CHR ''G'' then rsp_write_all_regs p s
      else if c = CHR ''H'' then put_str_packet p ''OK'' s
      else if c = CHR ''i'' then rsp_step p s
      else if c = CHR ''I'' then rsp_step_with_signal p s
      else if c = CHR ''m'' then rsp_read_mem p s
      else if c = CHR ''M'' then rsp_write_mem p s
      else if c = CHR ''p'' then rsp_read_reg p s
      else if c = CHR ''P'' then rsp_write_reg p s
      else if c = CHR ''q'' then rsp_query p s
      else if c = CHR ''Q'' then rsp_set p s
      else if c = CHR ''R'' then rsp_restart p s
      else if c = CHR ''s'' then rsp_step p s
      else if c = CHR ''S'' then rsp_step_with_signal p s
      else if c = CHR ''T'' then put_str_packet p ''OK'' s
      else if c = CHR ''v'' then rsp_vpkt p s
      else if c = CHR ''X'' then rsp_write_mem_bin p s
      else if c = CHR ''z'' then rsp_remove_matchpoint p s
      else if c = CHR ''Z'' then rsp_insert_matchpoint p s
      else Some s)"

text \<open>While the target runs only the break is obeyed; anything else is answered with a console message.\<close>

definition not_stopped :: string where
  "not_stopped = ''O6154677274656e20746f73206f74707064650a0d''"

definition rsp_client_request :: "'h debug_port \<Rightarrow> 'h bridge \<Rightarrow> 'h bridge option" where
  "rsp_client_request p s = do {
     (len, s) \<leftarrow> rsp_get_packet p s;
     (case len of
        None \<Rightarrow> rsp_client_close p s
      | Some _ \<Rightarrow>
          if target_running s then
            if rsp_data s 0 = CHR 0x03 then Some (set_stall_state True s)
            else put_str_packet p not_stopped s
          else rsp_dispatch p (rsp_data s 0) s)
   }"

section \<open>A new client\<close>

text \<open>
  What \<^verbatim>\<open>accept\<close> and the calls that configure the new socket do: nothing to accept yet, a failure, or a
  connection with its future traffic, whose configuration may fail. Registration with the monitor returns
  0 or 1, of which the test \<^verbatim>\<open>0 > ...\<close> takes neither for a failure.
\<close>

datatype accepted_client = Accept_Again | Accept_Failed | Accepted bool link

definition rsp_server_request :: "'h debug_port \<Rightarrow> accepted_client \<Rightarrow> bool \<Rightarrow> 'h bridge \<Rightarrow> 'h bridge option" where
  "rsp_server_request p acc registered s =
     (case acc of
        Accept_Again \<Rightarrow> Some s
      | Accept_Failed \<Rightarrow> do { s \<leftarrow> rsp_client_close p s; Some (rsp_server_close s) }
      | Accepted configured l \<Rightarrow>
          if link_open (link s) \<or> \<not> configured then Some s
          else do {
            let s = s\<lparr>pipe_open := registered, link := l\<lparr>link_open := True\<rparr>\<rparr>;
            let s = set_stall_state True s;
            let s = s\<lparr>target_running := False, single_step_mode := False\<rparr>;
            (_, tmp, s) \<leftarrow> spr_read p DSPR_DSR s;
            (_, s) \<leftarrow> spr_write p DSPR_DSR
               (tmp OR SPR_DSR_TE OR SPR_DSR_FPE OR SPR_DSR_RE OR SPR_DSR_IIE OR SPR_DSR_AE OR SPR_DSR_BUSEE) s;
            (_, tmp, s) \<leftarrow> spr_read p DSPR_SR s;
            (_, s) \<leftarrow> spr_write p DSPR_SR (tmp OR DSPR_SR_SM) s;
            Some s
          })"

section \<open>A message from the monitor\<close>

text \<open>
  The target has stopped: the reason becomes a signal; if the client waits, it is told, after the program
  counter was set back when the trap is one of the server's breakpoints.
\<close>

definition reset_npc_after_trap :: "'h debug_port \<Rightarrow> u32 \<Rightarrow> 'h bridge \<Rightarrow> 'h bridge option" where
  "reset_npc_after_trap p ppcval s =
     (if TARGET_SIGNAL_TRAP = sigval s then
        if mp_hash_lookup BP_MEMORY (ucast ppcval) (mp_hash s) \<noteq> None
        then do { (_, s) \<leftarrow> set_npc p (ucast ppcval) s; Some s }
        else do {
          (_, dmr2val, s) \<leftarrow> spr_read p SPR_DMR2 s;
          (if dmr2val AND SPR_DMR2_WBS \<noteq> 0
           then do { (_, s) \<leftarrow> set_npc p (ucast ppcval) s; Some s }
           else Some s)
        }
      else Some s)"

definition target_stopped :: "'h debug_port \<Rightarrow> 'h bridge \<Rightarrow> 'h bridge option" where
  "target_stopped p s =
     (if target_running s then do {
        let s = s\<lparr>target_running := False\<rparr>;
        (_, drrval, s) \<leftarrow> spr_read p SPR_DRR s;
        let s = rsp_exception drrval s;
        (if client_waiting s then do {
           (_, ppcval, s) \<leftarrow> spr_read p DSPR_PPC s;
           s \<leftarrow> reset_npc_after_trap p ppcval s;
           s \<leftarrow> rsp_report_exception p s;
           Some (s\<lparr>client_waiting := False\<rparr>)
         } else Some s)
      } else Some s)"

definition monitor_event :: "'h debug_port \<Rightarrow> char \<Rightarrow> 'h bridge \<Rightarrow> 'h bridge option" where
  "monitor_event p status s =
     (if status = CHR ''H'' then target_stopped p s
      else if status = CHR ''R'' then Some (s\<lparr>target_running := True\<rparr>)
      else Some s)"

section \<open>One call of \<^verbatim>\<open>handle_rsp\<close>\<close>

text \<open>
  The results of \<^verbatim>\<open>poll\<close> on the listening socket and on the client. The wait for a client takes results
  from a list; if they are used up, or the listening socket has been closed, \<^verbatim>\<open>poll\<close> blocks for ever.
\<close>

datatype server_poll = Server_Interrupted | Server_Error | Server_Timeout | Server_Flags | Server_Input accepted_client bool

datatype client_poll = Client_Interrupted | Client_Error | Client_Timeout | Client_Input | Monitor_Input char | Client_Flags

definition rsp_close_all :: "'h debug_port \<Rightarrow> 'h bridge \<Rightarrow> 'h bridge option" where
  "rsp_close_all p s = do { s \<leftarrow> rsp_client_close p s; Some (rsp_server_close s) }"

fun await_client :: "'h debug_port \<Rightarrow> server_poll list \<Rightarrow> 'h bridge \<Rightarrow> (bool \<times> 'h bridge) option" where
  "await_client p polls s =
     (if link_open (link s) then Some (True, s)
      else if \<not> server_open s then None
      else case polls of
        [] \<Rightarrow> None
      | Server_Error # _ \<Rightarrow> do { s \<leftarrow> rsp_close_all p s; Some (False, s) }
      | Server_Flags # _ \<Rightarrow> do { s \<leftarrow> rsp_close_all p s; Some (False, s) }
      | Server_Input acc registered # polls \<Rightarrow> do {
          s \<leftarrow> rsp_server_request p acc registered s;
          await_client p polls (s\<lparr>client_waiting := False\<rparr>)
        }
      | _ # polls \<Rightarrow> await_client p polls s)"

declare await_client.simps [simp del]

definition client_event :: "'h debug_port \<Rightarrow> client_poll \<Rightarrow> 'h bridge \<Rightarrow> (bool \<times> 'h bridge) option" where
  "client_event p ev s =
     (case ev of
        Client_Error \<Rightarrow> do { s \<leftarrow> rsp_close_all p s; Some (False, s) }
      | Client_Interrupted \<Rightarrow> Some (True, s)
      | Client_Timeout \<Rightarrow> Some (True, s)
      | Client_Input \<Rightarrow> do { s \<leftarrow> rsp_client_request p s; Some (True, s) }
      | Monitor_Input status \<Rightarrow> do { s \<leftarrow> monitor_event p status s; Some (True, s) }
      | Client_Flags \<Rightarrow> do { s \<leftarrow> rsp_client_close p s; Some (True, s) })"

definition handle_rsp :: "'h debug_port \<Rightarrow> server_poll list \<Rightarrow> client_poll \<Rightarrow> 'h bridge \<Rightarrow> (bool \<times> 'h bridge) option" where
  "handle_rsp p polls ev s =
     (if \<not> server_open s then Some (False, s)
      else do {
        (connected, s) \<leftarrow> await_client p polls s;
        (if connected then client_event p ev s else Some (False, s))
      })"

end
