(* ===== verification/Rsp_Packet_Spec.thy ===== *)
theory Rsp_Packet_Spec
  imports Rsp_Packet
begin

unbundle bit_operations_syntax

text \<open>
  What the packet layer promises: the text a packet is sent as, that receiving it and undoing the escapes
  gives the data back, that nothing is accepted whose checksum does not fit, and how often a packet is sent.
\<close>

section \<open>The text of a packet\<close>

definition escape :: "string \<Rightarrow> string" where
  "escape data = concat (map (\<lambda>c. if needs_escape c then [CHR ''}'', flip_0x20 c] else [c]) data)"

definition checksum_of :: "string \<Rightarrow> u8" where
  "checksum_of text = sum_list (map byte text)"

definition frame_text :: "string \<Rightarrow> string" where
  "frame_text data =
     CHR ''$'' # escape data @ CHR ''#'' # hex_byte (checksum_of (escape data))"

lemma escape_Nil [simp]: "escape [] = []"
  by (simp add: escape_def)

lemma escape_Cons:
  "escape (c # cs) = (if needs_escape c then [CHR ''}'', flip_0x20 c] else [c]) @ escape cs"
  by (simp add: escape_def)

lemma checksum_simps [simp]:
  "checksum_of [] = 0" "checksum_of (c # cs) = byte c + checksum_of cs"
  "checksum_of (xs @ ys) = checksum_of xs + checksum_of ys"
  by (simp_all add: checksum_of_def)

lemma flip_flip [simp]: "flip_0x20 (flip_0x20 c) = c"
  by (simp add: flip_0x20_def xor.assoc)

lemma flip_table:
  "flip_0x20 CHR ''$'' = CHR 0x04" "flip_0x20 CHR ''#'' = CHR 0x03"
  "flip_0x20 CHR ''*'' = CHR 0x0A" "flip_0x20 CHR ''}'' = CHR '']''"
  by code_simp+

lemma flip_escaped: "needs_escape c \<Longrightarrow> \<not> needs_escape (flip_0x20 c)"
  by (auto simp: needs_escape_def flip_table)

lemma escape_clean: "c \<in> set (escape data) \<Longrightarrow> c \<noteq> CHR ''$'' \<and> c \<noteq> CHR ''#'' \<and> c \<noteq> CHR ''*''"
  by (induction data) (auto simp: escape_Cons needs_escape_def flip_table split: if_splits)

section \<open>Sending\<close>

text \<open>A link on which every write succeeds.\<close>

definition writable :: "link \<Rightarrow> bool" where
  "writable l \<longleftrightarrow> link_open l \<and> writes_left l = None"

lemma putc_writable [simp]:
  "writable l \<Longrightarrow> link_putc c l = l\<lparr>outgoing := outgoing l @ [c]\<rparr>"
  by (simp add: writable_def link_putc_def)

lemma writable_update [simp]:
  "writable (l\<lparr>outgoing := x\<rparr>) = writable l" "writable (l\<lparr>incoming := y\<rparr>) = writable l"
  by (simp_all add: writable_def)

lemma put_body_writable:
  "writable l \<Longrightarrow>
   put_body k data l = (k + checksum_of (escape data), l\<lparr>outgoing := outgoing l @ escape data\<rparr>)"
  by (induction data arbitrary: k l) (simp_all add: escape_Cons add.assoc)

lemma hex_byte_digits:
  "hex_byte b = [hex_digit (unat (drop_bit 4 b)), hex_digit (unat (b mod 16))]"
proof -
  have "unat (drop_bit 4 b) = unat b div 16" by (simp only: unat_drop_bit_eq) (simp add: drop_bit_eq_div)
  then show ?thesis by (simp add: hex_byte_eq unat_mod)
qed

lemma put_frame_writable:
  "writable l \<Longrightarrow> put_frame data l = l\<lparr>outgoing := outgoing l @ frame_text data\<rparr>"
  by (simp add: put_frame_def put_body_writable frame_text_def hex_byte_digits)

text \<open>The frame is sent once for every answer up to the acknowledgement.\<close>

lemma put_packet_acknowledged:
  "writable l \<Longrightarrow> incoming l = answers @ CHR ''+'' # rest \<Longrightarrow> CHR ''+'' \<notin> set answers \<Longrightarrow>
   put_packet data l =
     l\<lparr>incoming := rest,
       outgoing := outgoing l @ concat (replicate (length answers + 1) (frame_text data))\<rparr>"
proof (induction answers arbitrary: l)
  case Nil
  then show ?case
    by (simp add: put_packet.simps [of data l] put_frame_writable link_getc_def writable_def)
next
  case (Cons a answers)
  let ?l = "l\<lparr>outgoing := outgoing l @ frame_text data, incoming := answers @ CHR ''+'' # rest\<rparr>"
  have "put_packet data l = put_packet data ?l"
    using Cons.prems
    by (subst put_packet.simps) (auto simp: put_frame_writable link_getc_def writable_def)
  then show ?case using Cons.IH [of ?l] Cons.prems by simp
qed

lemma put_packet_unacknowledged:
  "writable l \<Longrightarrow> CHR ''+'' \<notin> set (incoming l) \<Longrightarrow>
   put_packet data l =
     l\<lparr>link_open := False, incoming := [],
       outgoing := outgoing l @ concat (replicate (length (incoming l) + 1) (frame_text data))\<rparr>"
proof (induction "incoming l" arbitrary: l)
  case Nil
  then show ?case
    by (subst put_packet.simps) (simp add: put_frame_writable link_getc_def writable_def)
next
  case (Cons a answers)
  let ?l = "l\<lparr>outgoing := outgoing l @ frame_text data, incoming := answers\<rparr>"
  have "put_packet data l = put_packet data ?l"
    using Cons.prems Cons.hyps(2) [symmetric]
    by (subst put_packet.simps) (auto simp: put_frame_writable link_getc_def writable_def)
  then show ?case
    using Cons.hyps(1) [of ?l] Cons.prems Cons.hyps(2) [symmetric] by simp
qed

section \<open>Receiving\<close>

lemma put_chars_Nil [simp]: "put_chars buf off [] = buf"
  by (auto simp: put_chars_def fun_eq_iff)

lemma put_chars_Cons:
  "put_chars buf off (c # cs) = put_chars (buf(off := c)) (Suc off) cs"
  by (auto simp: put_chars_def fun_eq_iff nth_Cons')

lemma map_put_chars: "map (put_chars buf off cs) [off..<off + length cs] = cs"
  by (rule nth_equalityI) (auto simp: put_chars_def)

lemma getc_Cons [simp]:
  "link_open l \<Longrightarrow> incoming l = c # cs \<Longrightarrow> link_getc l = (Some c, l\<lparr>incoming := cs\<rparr>)"
  by (simp add: link_getc_def)

lemma skip_to_start_junk:
  "link_open l \<Longrightarrow> incoming l = junk @ CHR ''$'' # cs \<Longrightarrow> CHR ''$'' \<notin> set junk \<Longrightarrow>
   CHR 0x03 \<notin> set junk \<Longrightarrow> skip_to_start brk l = (Some False, l\<lparr>incoming := cs\<rparr>)"
proof (induction junk arbitrary: l)
  case (Cons a junk)
  then show ?case
    using Cons.IH [of "l\<lparr>incoming := junk @ CHR ''$'' # cs\<rparr>"]
    by (subst skip_to_start.simps) auto
qed (subst skip_to_start.simps, simp)

lemma read_body_text:
  "link_open l \<Longrightarrow> incoming l = ds @ CHR ''#'' # rest \<Longrightarrow>
   CHR ''$'' \<notin> set ds \<Longrightarrow> CHR ''#'' \<notin> set ds \<Longrightarrow> c + length ds < n - 1 \<Longrightarrow>
   read_body n buf k c l =
     (Some (True, k + checksum_of ds, c + length ds), put_chars buf c ds, l\<lparr>incoming := rest\<rparr>)"
proof (induction ds arbitrary: l k c buf)
  case (Cons a ds)
  then show ?case
    using Cons.IH [of "l\<lparr>incoming := ds @ CHR ''#'' # rest\<rparr>" "Suc c" "buf(c := a)" "k + byte a"]
    by (subst read_body.simps) (auto simp: put_chars_Cons add.assoc)
qed (subst read_body.simps, simp)

lemma checksum_digits:
  "push_bit 4 (of_int (hex (hex_digit (unat b div 16)))) + of_int (hex (hex_digit (unat b mod 16))) = (b :: u8)"
proof -
  have l: "unat b div 16 < 16" "unat b mod 16 < 16" using unat_u8_less [of b] by simp_all
  have "b = of_nat (16 * (unat b div 16) + unat b mod 16)" by (simp only: mult_div_mod_eq) simp
  also have "\<dots> = of_nat (unat b div 16) * 16 + of_nat (unat b mod 16)"
    by (simp only: of_nat_add of_nat_mult of_nat_numeral) (simp add: mult.commute)
  finally show ?thesis
    by (simp add: hex_digit_value [OF l(1)] hex_digit_value [OF l(2)] push_bit_eq_mult)
qed

text \<open>A received frame: what a well-formed packet with its checksum leaves in the buffer.\<close>

definition received :: "(nat \<Rightarrow> char) \<Rightarrow> string \<Rightarrow> nat \<Rightarrow> char" where
  "received buf body = (put_chars buf 0 body)(length body := CHR 0x00)"

lemma received_body [simp]: "map (received buf body) [0..<length body] = body"
  by (rule nth_equalityI) (auto simp: received_def put_chars_def)

lemma received_nth [simp]: "i < length body \<Longrightarrow> received buf body i = body ! i"
  by (simp add: received_def put_chars_def)

lemma received_end [simp]: "received buf body (length body) = CHR 0x00"
  by (simp add: received_def)

lemma get_packet_frame:
  assumes "writable l" and "incoming l = junk @ CHR ''$'' # body @ CHR ''#'' # hex_byte (checksum_of body) @ rest"
    and "CHR ''$'' \<notin> set junk" "CHR 0x03 \<notin> set junk" "CHR ''$'' \<notin> set body" "CHR ''#'' \<notin> set body"
    and "length body < buf_max - 1"
  shows "get_packet buf_max brk buf l =
    (Some (length body), received buf body, l\<lparr>incoming := rest, outgoing := outgoing l @ ''+''\<rparr>)"
proof -
  have o: "link_open l" using assms(1) by (simp add: writable_def)
  let ?tail = "hex_byte (checksum_of body) @ rest"
  have s: "skip_to_start brk l = (Some False, l\<lparr>incoming := body @ CHR ''#'' # ?tail\<rparr>)"
    using skip_to_start_junk [OF o assms(2-4)] by simp
  have b: "read_body buf_max buf 0 0 (l\<lparr>incoming := body @ CHR ''#'' # ?tail\<rparr>) =
      (Some (True, checksum_of body, length body), put_chars buf 0 body, l\<lparr>incoming := ?tail\<rparr>)"
    using read_body_text [of "l\<lparr>incoming := body @ CHR ''#'' # ?tail\<rparr>" body ?tail 0 buf_max buf 0] o assms(5-7)
    by simp
  show ?thesis
    using o assms(1) s b unfolding hex_byte_eq
    by (simp add: get_packet.simps [of buf_max brk buf l] checksum_digits received_def Let_def)
qed

section \<open>Undoing the escapes\<close>

lemma unescape_loop_escape:
  "map data [from_off..<len] = escape body \<Longrightarrow> from_off \<le> len \<Longrightarrow> to_off \<le> from_off \<Longrightarrow>
   unescape_loop data len from_off to_off = (put_chars data to_off body, to_off + length body)"
proof (induction body arbitrary: data from_off to_off)
  case Nil
  then have "\<not> from_off < len" by auto
  then show ?case by (simp add: unescape_loop.simps [of data len from_off to_off])
next
  case (Cons c body)
  have lt: "from_off < len" using Cons.prems(1) by (auto simp: escape_Cons intro: ccontr split: if_splits)
  have step: "map (data(to_off := x)) [m..<len] = map data [m..<len]" if "from_off < m" for x m
    using Cons.prems(3) that by (intro map_cong) auto
  show ?case
  proof (cases "needs_escape c")
    case True
    then have e: "map data [from_off..<len] = CHR ''}'' # flip_0x20 c # escape body"
      using Cons.prems(1) by (simp add: escape_Cons)
    have "map data [from_off..<len] = data from_off # map data [Suc from_off..<len]"
      using lt by (simp add: upt_conv_Cons)
    then have e1: "data from_off = CHR ''}''" "map data [Suc from_off..<len] = flip_0x20 c # escape body"
      using e by simp_all
    then have lt1: "Suc from_off < len" by (intro ccontr [of "Suc from_off < len"]) simp
    then have "map data [Suc from_off..<len] = data (Suc from_off) # map data [Suc (Suc from_off)..<len]"
      by (simp add: upt_conv_Cons)
    then have e2: "data (Suc from_off) = flip_0x20 c" "map data [Suc (Suc from_off)..<len] = escape body"
      using e1 by simp_all
    have "unescape_loop (data(to_off := c)) len (Suc (Suc from_off)) (Suc to_off) =
        (put_chars (data(to_off := c)) (Suc to_off) body, Suc to_off + length body)"
      by (rule Cons.IH, rule trans [OF step e2(2)]) (use Cons.prems(3) lt1 in simp_all)
    then show ?thesis
      using e1 e2 lt by (simp add: unescape_loop.simps [of data len from_off to_off] put_chars_Cons)
  next
    case False
    then have "c \<noteq> CHR ''}''" by (auto simp: needs_escape_def)
    moreover have "map data [from_off..<len] = data from_off # map data [Suc from_off..<len]"
      using lt by (simp add: upt_conv_Cons)
    then have e: "data from_off = c" "map data [Suc from_off..<len] = escape body"
      using Cons.prems(1) False by (simp_all add: escape_Cons)
    have "unescape_loop (data(to_off := c)) len (Suc from_off) (Suc to_off) =
        (put_chars (data(to_off := c)) (Suc to_off) body, Suc to_off + length body)"
      by (rule Cons.IH, rule trans [OF step e(2)]) (use Cons.prems(3) lt in simp_all)
    ultimately show ?thesis
      using e lt by (simp add: unescape_loop.simps [of data len from_off to_off] put_chars_Cons)
  qed
qed

lemma rsp_unescape_escape:
  "map data [0..<len] = escape body \<Longrightarrow>
   rsp_unescape data len = (put_chars data 0 body, length body)"
  unfolding rsp_unescape_def using unescape_loop_escape [of data 0 len body 0] by simp

section \<open>Only valid packets are accepted\<close>

lemma getc_Some: "link_getc l = (Some c, l') \<Longrightarrow> incoming l = c # incoming l'"
  by (auto simp: link_getc_def split: if_splits list.splits)

lemma skip_to_start_consumes:
  "skip_to_start brk l = (Some b, l') \<Longrightarrow>
   \<exists>pre. incoming l = pre @ (if b then [CHR 0x03] else ''$'') @ incoming l' \<and> (b \<longrightarrow> brk)"
proof (induction brk l rule: skip_to_start.induct)
  case (1 brk l)
  obtain x m where g: "link_getc l = (x, m)" by fastforce
  with 1(2) obtain c where x: "x = Some c"
    unfolding skip_to_start.simps [of brk l] by (cases x) auto
  have i: "incoming l = c # incoming m" using getc_Some g x by blast
  show ?case
  proof (cases "c = CHR ''$'' \<or> brk \<and> c = CHR 0x03")
    case True
    then show ?thesis
      using 1(2) g x i unfolding skip_to_start.simps [of brk l] by (auto intro: exI [of _ "[]"])
  next
    case False
    then have "skip_to_start brk m = (Some b, l')"
      using 1(2) g x unfolding skip_to_start.simps [of brk l] by auto
    from 1(1) [OF g [symmetric] x _ _ this] False obtain pre
      where "incoming m = pre @ (if b then [CHR 0x03] else ''$'') @ incoming l'" "b \<longrightarrow> brk" by blast
    then show ?thesis using i by (intro exI [of _ "c # pre"]) simp
  qed
qed

text \<open>\<open>partial pre ds\<close>: after a start character, \<open>ds\<close> has been stored and counted.\<close>

definition stored_in :: "string \<Rightarrow> (nat \<Rightarrow> char) \<Rightarrow> u8 \<Rightarrow> nat \<Rightarrow> bool" where
  "stored_in ds buf k c \<longleftrightarrow> map buf [0..<c] = ds \<and> k = checksum_of ds \<and>
     CHR ''$'' \<notin> set ds \<and> CHR ''#'' \<notin> set ds"

lemma stored_in_Nil [simp]: "stored_in [] buf 0 0"
  by (simp add: stored_in_def)

lemma stored_in_snoc:
  "stored_in ds buf k c \<Longrightarrow> ch \<noteq> CHR ''$'' \<Longrightarrow> ch \<noteq> CHR ''#'' \<Longrightarrow>
   stored_in (ds @ [ch]) (buf(c := ch)) (k + byte ch) (c + 1)"
  by (auto simp: stored_in_def)

lemma read_body_consumes:
  "read_body n buf k c l = (Some (found, k', c'), buf', l') \<Longrightarrow> stored_in ds buf k c \<Longrightarrow>
   \<exists>pre' ds'. pre @ CHR ''$'' # ds @ incoming l = pre' @ CHR ''$'' # ds' @ (if found then ''#'' else []) @ incoming l' \<and>
     stored_in ds' buf' k' c' \<and> (found \<longrightarrow> c' < n - 1)"
proof (induction n buf k c l arbitrary: pre ds rule: read_body.induct)
  case (1 n buf k c l)
  obtain x m where g: "link_getc l = (x, m)" by fastforce
  show ?case
  proof (cases "c < n - 1")
    case False
    then show ?thesis
      using 1(3,4) unfolding read_body.simps [of n buf k c l] by auto
  next
    case lt: True
    with 1(3) g obtain ch where x: "x = Some ch"
      unfolding read_body.simps [of n buf k c l] by (cases x) auto
    have i: "incoming l = ch # incoming m" using getc_Some g x by blast
    consider "ch = CHR ''$''" | "ch = CHR ''#''" | "ch \<noteq> CHR ''$''" "ch \<noteq> CHR ''#''" by blast
    then show ?thesis
    proof cases
      case 1
      then have "read_body n buf 0 0 m = (Some (found, k', c'), buf', l')"
        using "1.prems"(1) g x lt unfolding read_body.simps [of n buf k c l] by simp
      from "1.IH"(1) [OF lt g [symmetric] x 1 this stored_in_Nil, of "pre @ CHR ''$'' # ds"] show ?thesis
        using i 1 by simp
    next
      case 2
      then show ?thesis
        using "1.prems" g x lt i unfolding read_body.simps [of n buf k c l]
        by (intro exI [of _ pre] exI [of _ ds]) auto
    next
      case 3
      then have "read_body n (buf(c := ch)) (k + byte ch) (c + 1) m = (Some (found, k', c'), buf', l')"
        using "1.prems"(1) g x lt unfolding read_body.simps [of n buf k c l] by simp
      from "1.IH"(2) [OF lt g [symmetric] x 3 this stored_in_snoc [OF "1.prems"(2) 3], of pre]
      show ?thesis using i by simp
    qed
  qed
qed

text \<open>One accepted packet: its frame ends the consumed input and its checksum fits.\<close>

definition accepted :: "nat \<Rightarrow> link \<Rightarrow> link \<Rightarrow> nat \<Rightarrow> (nat \<Rightarrow> char) \<Rightarrow> bool" where
  "accepted buf_max l l' len buf \<longleftrightarrow>
     (\<exists>pre body c1 c2.
        incoming l = pre @ CHR ''$'' # body @ CHR ''#'' # c1 # c2 # incoming l' \<and>
        CHR ''$'' \<notin> set body \<and> CHR ''#'' \<notin> set body \<and>
        map buf [0..<len] = body \<and> buf len = CHR 0x00 \<and> len < buf_max - 1 \<and>
        checksum_of body = push_bit 4 (of_int (hex c1)) + of_int (hex c2))"

lemma accepted_extend:
  "accepted buf_max m l' len buf \<Longrightarrow> incoming l = xs @ incoming m \<Longrightarrow> accepted buf_max l l' len buf"
  unfolding accepted_def by (metis append.assoc)

lemma stored_in_end: "stored_in ds buf k c \<Longrightarrow> map (buf(c := x)) [0..<c] = ds"
  unfolding stored_in_def by (auto intro!: map_cong)

lemma get_packet_accepted:
  "get_packet n brk buf l = (Some len, buf', l') \<Longrightarrow>
   (brk \<and> len = 1 \<and> buf' 0 = CHR 0x03) \<or> accepted n l l' len buf'"
proof (induction n brk buf l rule: get_packet.induct)
  case (1 n brk buf l)
  note eq = get_packet.simps [of n brk buf l]
  obtain b m where s: "skip_to_start brk l = (Some b, m)"
    using 1(3) unfolding eq by (cases "skip_to_start brk l"; cases "fst (skip_to_start brk l)") auto
  from skip_to_start_consumes [OF s] obtain pre where
    i: "incoming l = pre @ (if b then [CHR 0x03] else ''$'') @ incoming m" "b \<longrightarrow> brk" by blast
  show ?case
  proof (cases b)
    case True
    then show ?thesis using 1(3) s i unfolding eq by auto
  next
    case False
    then have nb: "b = False" by simp
    obtain found k c buf1 m1 where r: "read_body n buf 0 0 m = (Some (found, k, c), buf1, m1)"
      using 1(3) s nb unfolding eq by (auto split: prod.splits option.splits)
    from read_body_consumes [OF r stored_in_Nil, of pre] obtain pre1 ds where
      d: "incoming l = pre1 @ CHR ''$'' # ds @ (if found then ''#'' else []) @ incoming m1"
      "stored_in ds buf1 k c" "found \<longrightarrow> c < n - 1" using i False by auto
    show ?thesis
    proof (cases found)
      case False
      then have "get_packet n brk (buf1(c := CHR 0x00)) m1 = (Some len, buf', l')"
        using 1(3) s r \<open>\<not> b\<close> unfolding eq by simp
      from 1(2) [OF s [symmetric] refl nb r [symmetric] refl refl refl refl refl False this] \<open>\<not> b\<close>
      have "(brk \<and> len = 1 \<and> buf' 0 = CHR 0x03) \<or> accepted n m1 l' len buf'" by simp
      then show ?thesis using accepted_extend [of n m1 l' len buf' l "pre1 @ CHR ''$'' # ds"] d False by auto
    next
      case True
      obtain c1 m2 where g1: "link_getc m1 = (Some c1, m2)"
        using 1(3) s r \<open>\<not> b\<close> True unfolding eq
        by (cases "link_getc m1"; cases "fst (link_getc m1)") (auto simp: Let_def)
      obtain c2 m3 where g2: "link_getc m2 = (Some c2, m3)"
        using 1(3) s r \<open>\<not> b\<close> True g1 unfolding eq
        by (cases "link_getc m2"; cases "fst (link_getc m2)") (auto simp: Let_def)
      have j: "incoming l = pre1 @ CHR ''$'' # ds @ CHR ''#'' # c1 # c2 # incoming m3"
        using d(1) True getc_Some [OF g1] getc_Some [OF g2] by simp
      let ?x = "push_bit 4 (of_int (hex c1)) + of_int (hex c2) :: u8"
      show ?thesis
      proof (cases "k = ?x")
        case eqx: True
        then have "len = c" "buf' = buf1(c := CHR 0x00)" "incoming l' = incoming m3"
          using 1(3) s r \<open>\<not> b\<close> True g1 g2 unfolding eq by (auto simp: Let_def)
        then have "accepted n l l' len buf'"
          using j d(2,3) True eqx stored_in_end [OF d(2)] unfolding accepted_def
          by (intro exI [of _ pre1] exI [of _ ds] exI [of _ c1] exI [of _ c2])
             (simp add: stored_in_def)
        then show ?thesis ..
      next
        case ne: False
        then have g: "get_packet n brk (buf1(c := CHR 0x00)) (link_putc CHR ''-'' m3) = (Some len, buf', l')"
          using 1(3) s r \<open>\<not> b\<close> True g1 g2 unfolding eq by (simp add: Let_def)
        have "(brk \<and> len = 1 \<and> buf' 0 = CHR 0x03) \<or> accepted n (link_putc CHR ''-'' m3) l' len buf'"
          using 1(1) [OF s [symmetric] refl nb r [symmetric] refl refl refl refl refl True g1 [symmetric] refl
              g2 [symmetric] refl refl ne g] \<open>\<not> b\<close> by simp
        then show ?thesis
          using accepted_extend [of n "link_putc CHR ''-'' m3" l' len buf' l "pre1 @ CHR ''$'' # ds @ CHR ''#'' # c1 # c2 # []"] j
          by auto
      qed
    qed
  qed
qed

section \<open>The theorems\<close>

text \<open>
  C9. Round trip of a packet. Sending data over a working connection writes one frame for every answer up
  to the acknowledgement; a receiver that reads such a frame, after anything that contains neither a start
  character nor a break, takes exactly the frame, acknowledges it and has the escaped data in its buffer,
  terminated; undoing the escapes gives back the data. It holds for every byte, the escaped ones included,
  as long as the escaped data leave room in the buffer.
\<close>

theorem packet_round_trip:
  assumes "writable s" "incoming s = answers @ CHR ''+'' # later" "CHR ''+'' \<notin> set answers"
    and "writable r" "incoming r = junk @ frame_text data @ rest"
    and "CHR ''$'' \<notin> set junk" "CHR 0x03 \<notin> set junk"
    and "length (escape data) < buf_max - 1"
  shows "\<exists>buf' buf''.
    put_packet data s =
      s\<lparr>incoming := later, outgoing := outgoing s @ concat (replicate (length answers + 1) (frame_text data))\<rparr> \<and>
    get_packet buf_max brk buf r =
      (Some (length (escape data)), buf', r\<lparr>incoming := rest, outgoing := outgoing r @ ''+''\<rparr>) \<and>
    map buf' [0..<length (escape data)] = escape data \<and> buf' (length (escape data)) = CHR 0x00 \<and>
    rsp_unescape buf' (length (escape data)) = (buf'', length data) \<and>
    map buf'' [0..<length data] = data"
proof -
  have "CHR ''$'' \<notin> set (escape data)" "CHR ''#'' \<notin> set (escape data)" using escape_clean by blast+
  from get_packet_frame [OF assms(4) _ assms(6,7) this assms(8), of rest brk buf] assms(5)
  have "get_packet buf_max brk buf r = (Some (length (escape data)), received buf (escape data),
      r\<lparr>incoming := rest, outgoing := outgoing r @ ''+''\<rparr>)" by (simp add: frame_text_def)
  moreover have "rsp_unescape (received buf (escape data)) (length (escape data)) =
      (put_chars (received buf (escape data)) 0 data, length data)"
    by (rule rsp_unescape_escape) simp
  moreover have "map (put_chars (received buf (escape data)) 0 data) [0..<length data] = data"
    using map_put_chars [of _ 0 data] by simp
  ultimately show ?thesis
    using put_packet_acknowledged [OF assms(1-3), of data] by auto
qed

theorem packet_round_trip_witness:
  "\<exists>buf'. get_packet 16384 True (\<lambda>_. CHR 0x00)
      \<lparr>link_open = True, incoming = frame_text ''a$'', outgoing = [], writes_left = None\<rparr> =
    (Some 3, buf', \<lparr>link_open = True, incoming = [], outgoing = ''+'', writes_left = None\<rparr>)"
proof -
  have e: "length (escape ''a$'') = 3" by (simp add: escape_Cons needs_escape_def)
  show ?thesis
    using packet_round_trip [of "\<lparr>link_open = True, incoming = ''+'', outgoing = [], writes_left = None\<rparr>" "[]" "[]"
      "\<lparr>link_open = True, incoming = frame_text ''a$'', outgoing = [], writes_left = None\<rparr>" "[]" "''a$''" "[]" 16384 True "\<lambda>_. CHR 0x00"]
    by (auto simp: e writable_def)
qed

text \<open>
  C31. Whatever the peer sends, receiving ends, and a packet is handed on only when it is the break, which
  the buffer then starts with, or when it is the last frame of the input consumed: it contains no start or
  end character, its length is below the buffer size, the buffer holds it with a terminator behind it, and
  the two digits after it are its checksum.
\<close>

theorem packets_validated:
  assumes "get_packet buf_max brk buf l = (Some len, buf', l')"
  shows "(brk \<and> len = 1 \<and> buf' 0 = CHR 0x03) \<or>
    (\<exists>pre body c1 c2.
      incoming l = pre @ CHR ''$'' # body @ CHR ''#'' # c1 # c2 # incoming l' \<and>
      CHR ''$'' \<notin> set body \<and> CHR ''#'' \<notin> set body \<and>
      map buf' [0..<len] = body \<and> buf' len = CHR 0x00 \<and> len < buf_max - 1 \<and>
      checksum_of body = push_bit 4 (of_int (hex c1)) + of_int (hex c2))"
  using get_packet_accepted [OF assms] unfolding accepted_def .

theorem packets_validated_witness:
  "\<exists>len buf' l'. get_packet 256 False (\<lambda>_. CHR 0x00)
      \<lparr>link_open = True, incoming = ''$?#3f'', outgoing = [], writes_left = None\<rparr> = (Some len, buf', l') \<and>
    len < 255 \<and> buf' len = CHR 0x00"
proof -
  have f: "''$?#3f'' = [] @ CHR ''$'' # ''?'' @ CHR ''#'' # hex_byte (checksum_of ''?'') @ []" by code_simp
  obtain buf' l' where g: "get_packet 256 False (\<lambda>_. CHR 0x00)
      \<lparr>link_open = True, incoming = ''$?#3f'', outgoing = [], writes_left = None\<rparr> = (Some 1, buf', l')"
    using get_packet_frame [OF _ _ _ _ _ _ _, of "\<lparr>link_open = True, incoming = ''$?#3f'', outgoing = [], writes_left = None\<rparr>"
      "[]" "''?''" "[]" 256 False "\<lambda>_. CHR 0x00"] f by (simp add: writable_def)
  then show ?thesis using packets_validated [OF g] by auto
qed

end
