(* ===== verification/Rsp_Server_Spec.thy ===== *)
theory Rsp_Server_Spec
  imports Rsp_Events Rsp_Packet_Spec
begin

unbundle bit_operations_syntax

text \<open>
  What the RSP server of the JTAG bridge does with a client's packets.
\<close>

section \<open>Register values as text\<close>

lemma length_reg2hex [simp]: "length (reg2hex v) = 8"
  by (simp add: reg2hex_def)

lemma reg2hex_nth: "n < 8 \<Longrightarrow> reg2hex v ! n = hex_digit (unat (drop_bit (28 - n * 4) v AND 0xf))"
  by (simp add: reg2hex_def)

lemma hex_reg2hex:
  fixes v :: u32
  assumes "n < 8"
  shows "(of_int (hex (reg2hex (ucast v) ! n)) :: u32) = drop_bit (28 - n * 4) v AND 0xf"
proof -
  let ?d = "drop_bit (28 - n * 4) (ucast v :: u64) AND 0xf"
  have "unat ?d \<le> unat (0xf :: u64)" by (rule word_le_nat_alt [THEN iffD1, OF word_and_le1])
  then have d: "unat ?d < 16" by simp
  have "(of_int (hex (reg2hex (ucast v) ! n)) :: u32) = ucast ?d"
    using assms d by (simp add: reg2hex_nth hex_digit_value of_nat_unat)
  also have "\<dots> = drop_bit (28 - n * 4) v AND 0xf"
    by (rule bit_word_eqI) (auto simp: bit_simps)
  finally show ?thesis .
qed

lemma nibbles_join:
  fixes v :: u32
  shows "foldl (\<lambda>x n. x OR push_bit (28 - n * 4) (drop_bit (28 - n * 4) v AND 0xf)) 0 [0..<8] = v"
proof (rule bit_word_eqI)
  fix i assume "i < LENGTH(32)"
  then have "i \<in> set [0..<32]" by simp
  moreover have "\<forall>i\<in>set [0..<32]. bit (foldl (\<lambda>x n. x OR push_bit (28 - n * 4) (drop_bit (28 - n * 4) v AND 0xf)) 0 [0..<8]) i = bit v i"
    by (simp add: upt_rec bit_simps) (simp add: numeral_eq_Suc)
  ultimately show "bit (foldl (\<lambda>x n. x OR push_bit (28 - n * 4) (drop_bit (28 - n * 4) v AND 0xf)) 0 [0..<8]) i = bit v i"
    by blast
qed

lemma ucast_foldl_or:
  "(ucast (foldl (\<lambda>x n. x OR f n) (a :: u64) ns) :: u32) = foldl (\<lambda>x n. x OR ucast (f n)) (ucast a) ns"
  by (induction ns arbitrary: a) (simp_all add: unsigned_or_eq)

lemma ucast_scast_id: "(ucast (scast (x :: u32) :: u64) :: u32) = x"
  by (rule bit_word_eqI) (auto simp: bit_simps)

lemma hex2reg_reg2hex:
  assumes "\<And>n. n < 8 \<Longrightarrow> buf n = reg2hex (ucast v) ! n"
  shows "ucast (hex2reg buf) = (v :: u32)"
proof -
  have "ucast (hex2reg buf) = foldl (\<lambda>x n. x OR push_bit (28 - n * 4) (of_int (hex (buf n)) :: u32)) 0 [0..<8]"
    by (simp add: hex2reg_def ucast_foldl_or ucast_scast_id)
  also have "\<dots> = foldl (\<lambda>x n. x OR push_bit (28 - n * 4) (drop_bit (28 - n * 4) v AND 0xf)) 0 [0..<8]"
    by (rule foldl_cong) (use assms hex_reg2hex in auto)
  finally show ?thesis using nibbles_join by simp
qed

section \<open>A request and its reply\<close>

text \<open>
  The client sends a frame and acknowledges the one reply. \<open>requested\<close> is the state in which the
  request is dispatched, \<open>replied\<close> the state after a reply went out and was acknowledged.
\<close>

definition raw_frame :: "string \<Rightarrow> string" where
  "raw_frame body = CHR ''$'' # body @ CHR ''#'' # hex_byte (checksum_of body)"

definition client_sends :: "string \<Rightarrow> string \<Rightarrow> 'h bridge \<Rightarrow> bool" where
  "client_sends body rest s \<longleftrightarrow>
     writable (link s) \<and> incoming (link s) = raw_frame body @ CHR ''+'' # rest \<and>
     CHR ''$'' \<notin> set body \<and> CHR ''#'' \<notin> set body \<and> length body < GDB_BUF_MAX - 1"

definition requested :: "string \<Rightarrow> string \<Rightarrow> 'h bridge \<Rightarrow> 'h bridge" where
  "requested body rest s =
     s\<lparr>rsp_data := received (rsp_data s) body, rsp_len := length body,
       link := (link s)\<lparr>incoming := CHR ''+'' # rest, outgoing := outgoing (link s) @ ''+''\<rparr>\<rparr>"

definition awaiting_ack :: "string \<Rightarrow> 'h bridge \<Rightarrow> bool" where
  "awaiting_ack rest s \<longleftrightarrow> writable (link s) \<and> incoming (link s) = CHR ''+'' # rest"

definition replied :: "string \<Rightarrow> string \<Rightarrow> 'h bridge \<Rightarrow> 'h bridge" where
  "replied text rest s =
     s\<lparr>link := (link s)\<lparr>incoming := rest, outgoing := outgoing (link s) @ frame_text text\<rparr>\<rparr>"

lemma writable_open: "writable l \<Longrightarrow> link_open l"
  by (simp add: writable_def)

lemma put_reply:
  assumes "awaiting_ack rest s"
  shows "rsp_put_packet p data s = Some (replied data rest s)"
proof -
  have w: "writable (link s)" "incoming (link s) = [] @ CHR ''+'' # rest"
    using assms by (simp_all add: awaiting_ack_def)
  show ?thesis
    using w(1) put_packet_acknowledged [OF w] 
    by (simp add: rsp_put_packet_def with_link_def replied_def writable_open)
qed

lemma put_str_reply:
  "awaiting_ack rest s \<Longrightarrow> length str < GDB_BUF_MAX \<Longrightarrow> put_str_packet p str s = Some (replied str rest s)"
  by (simp add: put_str_packet_def put_reply)

lemma awaiting_ack_update [simp]:
  "awaiting_ack rest (s\<lparr>hw := h\<rparr>) = awaiting_ack rest s"
  "awaiting_ack rest (s\<lparr>mp_hash := t\<rparr>) = awaiting_ack rest s"
  "awaiting_ack rest (s\<lparr>hwp_in_use := w\<rparr>) = awaiting_ack rest s"
  "awaiting_ack rest (s\<lparr>cached_npc := n\<rparr>) = awaiting_ack rest s"
  "awaiting_ack rest (s\<lparr>use_cached_npc := c\<rparr>) = awaiting_ack rest s"
  "awaiting_ack rest (s\<lparr>rsp_data := d\<rparr>) = awaiting_ack rest s"
  "awaiting_ack rest (s\<lparr>rsp_len := l\<rparr>) = awaiting_ack rest s"
  "awaiting_ack rest (s\<lparr>target_running := b\<rparr>) = awaiting_ack rest s"
  "awaiting_ack rest (s\<lparr>sigval := g\<rparr>) = awaiting_ack rest s"
  by (simp_all add: awaiting_ack_def)

lemma reply_from_buffer:
  "awaiting_ack rest s \<Longrightarrow>
   reply_in_buffer p str s =
     Some (replied str rest (s\<lparr>rsp_data := put_string str (rsp_data s), rsp_len := length str\<rparr>))"
  by (simp add: reply_in_buffer_def put_reply)

lemma request_received:
  assumes "client_sends body rest s"
  shows "rsp_get_packet p s = Some (Some (length body), requested body rest s)"
proof -
  have "get_packet GDB_BUF_MAX True (rsp_data s) (link s) =
      (Some (length body), received (rsp_data s) body,
       (link s)\<lparr>incoming := CHR ''+'' # rest, outgoing := outgoing (link s) @ ''+''\<rparr>)"
    using assms by (intro get_packet_frame [where junk = "[]"]) (auto simp: client_sends_def raw_frame_def)
  then show ?thesis
    using assms by (simp add: rsp_get_packet_def with_link_def requested_def client_sends_def writable_open)
qed

lemma requested_awaits [simp]: "client_sends body rest s \<Longrightarrow> awaiting_ack rest (requested body rest s)"
  by (simp add: client_sends_def awaiting_ack_def requested_def)

lemma requested_string:
  "client_sends body rest s \<Longrightarrow> CHR 0x00 \<notin> set body \<Longrightarrow> packet_string (requested body rest s) = body"
  using c_string_text [of "received (rsp_data s) body" 0 body GDB_BUF_MAX]
  by (auto simp: packet_string_def requested_def client_sends_def)

lemma requested_fields [simp]:
  "hw (requested body rest s) = hw s" "mp_hash (requested body rest s) = mp_hash s"
  "hwp_in_use (requested body rest s) = hwp_in_use s" "use_cached_npc (requested body rest s) = use_cached_npc s"
  "cached_npc (requested body rest s) = cached_npc s" "rsp_len (requested body rest s) = length body"
  "stack_junk (requested body rest s) = stack_junk s" "target_running (requested body rest s) = target_running s"
  "rsp_data (requested body rest s) = received (rsp_data s) body"
  "monitor_cmds (requested body rest s) = monitor_cmds s" "pipe_open (requested body rest s) = pipe_open s"
  "single_step_mode (requested body rest s) = single_step_mode s"
  by (simp_all add: requested_def)

lemma request_dispatched:
  assumes "client_sends (c # body) rest s" "\<not> target_running s"
  shows "rsp_client_request p s = rsp_dispatch p c (requested (c # body) rest s)"
  using assms received_nth [of 0 "c # body" "rsp_data s"]
  by (simp add: rsp_client_request_def request_received)

section \<open>Registers\<close>

text \<open>GDB's register numbers and the special-purpose registers they stand for.\<close>

definition spr_of_register :: "nat \<Rightarrow> u32 option" where
  "spr_of_register n =
     (if n < 32 then Some (1024 + of_nat n)
      else if n = 32 then Some 18
      else if n = 33 then Some 16
      else if n = 34 then Some 17
      else None)"

lemma spr_of_register_cases:
  assumes "spr_of_register n = Some adr"
  obtains "n < 32" "adr = DSPR_GPR_BASE + of_nat n" | "n = 32" "adr = DSPR_PPC"
    | "n = 33" "adr = DSPR_NPC" | "n = 34" "adr = DSPR_SR"
  using assms by (auto simp: spr_of_register_def spr_defs split: if_splits)

lemma scan_p: "n < 2 ^ 32 \<Longrightarrow> sscanf [Lit CHR ''p'', Hex None] (CHR ''p'' # hex_digits n) = [Num (of_nat n)]"
  using scan_hex_digits [of n "[]"] by simp

text \<open>Texts made of hexadecimal digits need no escape and contain no separator.\<close>

definition digits_only :: "string \<Rightarrow> bool" where
  "digits_only t \<longleftrightarrow> (\<forall>c\<in>set t. \<exists>k<16. c = hex_digit k)"

lemma digits_only_simps [simp]:
  "digits_only []" "digits_only (c # t) \<longleftrightarrow> (\<exists>k<16. c = hex_digit k) \<and> digits_only t"
  "digits_only (t @ u) \<longleftrightarrow> digits_only t \<and> digits_only u"
  by (auto simp: digits_only_def)

lemma digits_only_concat: "(\<And>t. t \<in> set ts \<Longrightarrow> digits_only t) \<Longrightarrow> digits_only (concat ts)"
  by (auto simp: digits_only_def)

lemma digits_only_hex_digits [simp]: "digits_only (hex_digits n)"
  using hex_digits_are_digits by (auto simp: digits_only_def)

lemma nibble_less: "unat (v AND 0xf :: u64) < 16"
proof -
  have "unat (v AND 0xf) \<le> unat (0xf :: u64)" by (rule word_le_nat_alt [THEN iffD1, OF word_and_le1])
  then show ?thesis by simp
qed

lemma digits_only_reg2hex [simp]: "digits_only (reg2hex v)"
  using nibble_less by (auto simp: digits_only_def reg2hex_def)

lemma digits_only_hex_byte [simp]: "digits_only (hex_byte b)"
proof -
  have "unat b div 16 < 16" "unat b mod 16 < 16" using unat_u8_less [of b] by auto
  then show ?thesis unfolding hex_byte_eq digits_only_simps(2) using digits_only_simps(1) by blast
qed

lemma digit_plain:
  "k < 16 \<Longrightarrow> hex_digit k \<notin> {CHR 0x00, CHR ''$'', CHR ''#'', CHR ''*'', CHR ''}'', CHR '':'', CHR '','', CHR ''=''}"
proof -
  assume "k < 16"
  then have "k \<in> set [0..<16]" by simp
  moreover have "\<forall>k\<in>set [0..<16]. hex_digit k \<notin>
      set [CHR 0x00, CHR ''$'', CHR ''#'', CHR ''*'', CHR ''}'', CHR '':'', CHR '','', CHR ''='']" by code_simp
  ultimately show ?thesis by auto
qed

lemma digits_only_plain:
  assumes "digits_only t" "c \<in> {CHR 0x00, CHR ''$'', CHR ''#'', CHR ''*'', CHR ''}'', CHR '':'', CHR '','', CHR ''=''}"
  shows "c \<notin> set t"
proof
  assume "c \<in> set t"
  then obtain k where "k < 16" "c = hex_digit k" using assms(1) by (auto simp: digits_only_def)
  then show False using digit_plain [of k] assms(2) by simp
qed

lemma digits_only_space: "digits_only t \<Longrightarrow> c \<in> set t \<Longrightarrow> \<not> is_space c"
  using digit_not_space by (auto simp: digits_only_def)

lemma escape_digits: "digits_only t \<Longrightarrow> escape t = t"
  using digit_plain by (induction t) (auto simp: escape_Cons needs_escape_def)

lemma scan_digits_word:
  assumes "digits_only t" "t \<noteq> []" "length t \<le> n"
  shows "scan_word (Some n) t = Some (t, [])"
proof -
  note sp = digits_only_space [OF assms(1)]
  have "\<not> is_space (hd t)" using sp assms(2) by simp
  then have dw: "dropWhile is_space t = t" using assms(2) by (metis dropWhile_eq_self_iff)
  have tw: "takeWhile (\<lambda>c. \<not> is_space c) t = t" using sp by (simp add: takeWhile_eq_all_conv)
  show ?thesis using assms(2,3) by (simp add: scan_word_def within_def dw tw Let_def)
qed

lemma scan_reg2hex: "scan_word (Some 8) (reg2hex v) = Some (reg2hex v, [])"
  by (rule scan_digits_word) (auto simp flip: length_greater_0_conv)

lemma scan_P:
  "n < 2 ^ 32 \<Longrightarrow>
   sscanf [Lit CHR ''P'', Hex None, Lit CHR ''='', Word (Some 8)] (CHR ''P'' # hex_digits n @ CHR ''='' # reg2hex v) =
     [Num (of_nat n), Str (reg2hex v)]"
  using scan_hex_digits [of n "CHR ''='' # reg2hex v"] by (simp add: scan_reg2hex)

lemma hex2reg_put_string: "ucast (hex2reg (put_string (reg2hex (ucast v)) junk)) = (v :: u32)"
  by (rule hex2reg_reg2hex) (simp add: put_string_def put_chars_def)

text \<open>The buffer after a register packet: the request, or the value that was sent back.\<close>

lemma read_register:
  assumes "client_sends (CHR ''p'' # hex_digits n) rest s" "\<not> target_running s"
    and "spr_of_register n = Some adr"
  shows "rsp_client_request p s =
    (let s = requested (CHR ''p'' # hex_digits n) rest s;
         answer = (\<lambda>v s. Some (replied (reg2hex (ucast v)) rest
             (s\<lparr>rsp_data := put_string (reg2hex (ucast v)) (rsp_data s), rsp_len := 8\<rparr>)))
     in if n = 33 \<and> use_cached_npc s then answer (cached_npc s) s
        else do {
          (err, v, h) \<leftarrow> cpu0_read p adr (hw s);
          if err = APP_ERR_NONE then answer v (s\<lparr>hw := h\<rparr>)
          else Some (replied ''E01'' rest (s\<lparr>hw := h\<rparr>))
        })"
proof -
  let ?s = "requested (CHR ''p'' # hex_digits n) rest s"
  have n: "n < 2 ^ 32" using assms(3) by (auto simp: spr_of_register_def split: if_splits)
  have "packet_string ?s = CHR ''p'' # hex_digits n"
    using assms(1) digits_only_plain [of "hex_digits n" "CHR 0x00"] by (intro requested_string) auto
  then have scan: "sscanf [Lit CHR ''p'', Hex None] (packet_string ?s) = [Num (of_nat n)]"
    using scan_p [OF n] by simp
  have d: "rsp_client_request p s = rsp_read_reg p ?s"
    by (simp add: request_dispatched [OF assms(1,2)] rsp_dispatch_def)
  have a: "awaiting_ack rest ?s" using assms(1) by simp
  from assms(3) show ?thesis
    using a unfolding d rsp_read_reg_def scan
    by (cases rule: spr_of_register_cases)
      (auto simp: Let_def spr_read_def reply_from_buffer put_str_reply GDB_BUF_MAX_def MAX_GPRS_def spr_defs
        unsigned_of_nat take_bit_nat_eq_self split: option.splits Option.bind_split)
qed

lemma write_register:
  fixes v :: u32
  assumes "client_sends (CHR ''P'' # hex_digits n @ CHR ''='' # reg2hex (ucast v)) rest s" "\<not> target_running s"
    and "spr_of_register n = Some adr"
  shows "rsp_client_request p s =
    (let s = requested (CHR ''P'' # hex_digits n @ CHR ''='' # reg2hex (ucast v)) rest s
     in do {
       (err, h) \<leftarrow> cpu0_write p adr v (hw s);
       let s = s\<lparr>hw := h\<rparr>;
       let s = (if n = 33 then s\<lparr>cached_npc := v, use_cached_npc := True\<rparr> else s);
       Some (replied (if err = APP_ERR_NONE then ''OK'' else ''E01'') rest s)
     })"
proof -
  let ?body = "CHR ''P'' # hex_digits n @ CHR ''='' # reg2hex (ucast v)"
  let ?s = "requested ?body rest s"
  have n: "n < 2 ^ 32" using assms(3) by (auto simp: spr_of_register_def split: if_splits)
  have "packet_string ?s = ?body"
    using assms(1) digits_only_plain [of "hex_digits n" "CHR 0x00"] digits_only_plain [of "reg2hex (ucast v)" "CHR 0x00"]
    by (intro requested_string) auto
  then have scan: "sscanf [Lit CHR ''P'', Hex None, Lit CHR ''='', Word (Some 8)] (packet_string ?s) =
      [Num (of_nat n), Str (reg2hex (ucast v))]"
    using scan_P [OF n] by simp
  have d: "rsp_client_request p s = rsp_write_reg p ?s"
    by (simp add: request_dispatched [OF assms(1,2)] rsp_dispatch_def)
  have a: "awaiting_ack rest ?s" using assms(1) by simp
  from assms(3) show ?thesis
    using a unfolding d rsp_write_reg_def scan
    by (cases rule: spr_of_register_cases)
      (auto simp: Let_def spr_write_def set_npc_def put_str_reply GDB_BUF_MAX_def MAX_GPRS_def spr_defs
        hex2reg_put_string unsigned_of_nat take_bit_nat_eq_self split: option.splits Option.bind_split)
qed

text \<open>What is left to send after a reply is again a client's traffic.\<close>

lemma client_sends_next:
  assumes "client_sends body (raw_frame body' @ CHR ''+'' # rest) s"
    and "CHR ''$'' \<notin> set body'" "CHR ''#'' \<notin> set body'" "length body' < GDB_BUF_MAX - 1"
    and "link s' = link (replied text (raw_frame body' @ CHR ''+'' # rest) (requested body rest' s))"
  shows "client_sends body' rest s'"
  using assms by (auto simp: client_sends_def replied_def requested_def)

lemma hex_digits_length: "length (hex_digits n) \<le> n + 1"
proof (induction n rule: hex_digits.induct)
  case (1 n)
  show ?case
    by (cases "n < 16") (use 1 in \<open>auto simp: hex_digits.simps [of n]\<close>)
qed

text \<open>
  A target for the examples: special-purpose registers and bytes of memory that hold what was written.
\<close>

definition word_at :: "(u32 \<Rightarrow> u8) \<Rightarrow> u32 \<Rightarrow> u32" where
  "word_at m a = push_bit 24 (ucast (m a)) OR push_bit 16 (ucast (m (a + 1))) OR
     push_bit 8 (ucast (m (a + 2))) OR ucast (m (a + 3))"

fun write_words :: "u32 \<Rightarrow> u32 list \<Rightarrow> (u32 \<Rightarrow> u8) \<Rightarrow> u32 \<Rightarrow> u8" where
  "write_words a [] m = m"
| "write_words a (w # ws) m =
     write_words (a + 4) ws
       (m(a := ucast (drop_bit 24 w), a + 1 := ucast (drop_bit 16 w), a + 2 := ucast (drop_bit 8 w), a + 3 := ucast w))"

fun put_bytes :: "u32 \<Rightarrow> u8 list \<Rightarrow> (u32 \<Rightarrow> u8) \<Rightarrow> u32 \<Rightarrow> u8" where
  "put_bytes a [] m = m"
| "put_bytes a (b # bs) m = put_bytes (a + 1) bs (m(a := b))"

definition storing_target :: "((u32 \<Rightarrow> u32) \<times> (u32 \<Rightarrow> u8)) debug_port" where
  "storing_target =
     \<lparr>cpu0_read = (\<lambda>a (r, m). Some (0, r a, (r, m))),
      cpu0_write = (\<lambda>a v (r, m). Some (0, (r(a := v), m))),
      cpu0_read_block = (\<lambda>a n (r, m). Some (0, map (\<lambda>i. r (a + of_nat i)) [0..<n], (r, m))),
      cpu0_write_block = (\<lambda>a vs (r, m). Some (0, (\<lambda>i. if unat (i - a) < length vs then vs ! unat (i - a) else r i, m))),
      wb_read_block8 = (\<lambda>a n (r, m). Some (0, map (\<lambda>i. m (a + of_nat i)) [0..<nat n], (r, m))),
      wb_write_block8 = (\<lambda>a bs n (r, m). Some (0, (r, put_bytes a (take (nat n) bs) m))),
      wb_read_block32 = (\<lambda>a n (r, m). Some (0, map (\<lambda>i. word_at m (a + 4 * of_nat i)) [0..<nat n], (r, m))),
      wb_write_block32 = (\<lambda>a ws n (r, m). Some (0, (r, write_words a (take (nat n) ws) m)))\<rparr>"

definition stopped_bridge :: "string \<Rightarrow> 'h \<Rightarrow> 'h bridge" where
  "stopped_bridge traffic h =
     \<lparr>link = \<lparr>link_open = True, incoming = traffic, outgoing = [], writes_left = None\<rparr>, server_open = True,
      client_waiting = False, target_running = False, single_step_mode = False, sigval = 0, start_addr = EXCEPT_RESET,
      mp_hash = mp_hash_init, use_cached_npc = False, cached_npc = 0, pipe_open = True, monitor_cmds = [],
      rsp_data = (\<lambda>_. CHR 0x00), rsp_len = 0, hwp_in_use = replicate 8 False, stack_junk = (\<lambda>_. CHR 0x00), hw = h\<rparr>"

lemma storing_target_simps [simp]:
  "cpu0_read storing_target x (r, m) = Some (0, r x, (r, m))"
  "cpu0_write storing_target x v (r, m) = Some (0, (r(x := v), m))"
  "wb_read_block8 storing_target x k (r, m) = Some (0, map (\<lambda>i. m (x + of_nat i)) [0..<nat k], (r, m))"
  "wb_write_block8 storing_target x bs k (r, m) = Some (0, (r, put_bytes x (take (nat k) bs) m))"
  "wb_read_block32 storing_target x k (r, m) = Some (0, map (\<lambda>i. word_at m (x + 4 * of_nat i)) [0..<nat k], (r, m))"
  "wb_write_block32 storing_target x ws k (r, m) = Some (0, (r, write_words x (take (nat k) ws) m))"
  by (simp_all add: storing_target_def)

lemma stopped_bridge_simps [simp]:
  "writable (link (stopped_bridge t h))" "incoming (link (stopped_bridge t h)) = t"
  "outgoing (link (stopped_bridge t h)) = []" "\<not> target_running (stopped_bridge t h)"
  "hw (stopped_bridge t h) = h" "mp_hash (stopped_bridge t h) = mp_hash_init"
  "hwp_in_use (stopped_bridge t h) = replicate 8 False"
  by (simp_all add: stopped_bridge_def writable_def)

text \<open>
  C24. Registers through the debugger: for each of GDB's 35 register numbers, a \<^verbatim>\<open>P\<close> packet with a value and
  a \<^verbatim>\<open>p\<close> packet for the same register, against a target that stores the register, are answered with
  \<^verbatim>\<open>OK\<close> and the value's eight digits. For the program counter it does not matter what the target reads
  back: the server keeps the value it wrote.
\<close>

theorem register_round_trip:
  assumes "writable (link s)" "\<not> target_running s"
    and "incoming (link s) = raw_frame (CHR ''P'' # hex_digits n @ CHR ''='' # reg2hex (ucast v)) @ ''+'' @
           raw_frame (CHR ''p'' # hex_digits n) @ ''+'' @ rest"
    and "spr_of_register n = Some adr"
    and "cpu0_write p adr v (hw s) = Some (APP_ERR_NONE, h)"
    and "n \<noteq> 33 \<longrightarrow> cpu0_read p adr h = Some (APP_ERR_NONE, v, h)"
  shows "\<exists>s1 s2. rsp_client_request p s = Some s1 \<and> rsp_client_request p s1 = Some s2 \<and>
    outgoing (link s2) = outgoing (link s) @ ''+'' @ frame_text ''OK'' @ ''+'' @ frame_text (reg2hex (ucast v)) \<and>
    incoming (link s2) = rest \<and> hw s2 = h"
proof -
  let ?w = "CHR ''P'' # hex_digits n @ CHR ''='' # reg2hex (ucast v)" and ?r = "CHR ''p'' # hex_digits n"
  let ?tail = "raw_frame ?r @ CHR ''+'' # rest"
  let ?v = "(if n = 33 then v else cached_npc s)"
  let ?c = "(if n = 33 then True else use_cached_npc s)"
  let ?s1 = "replied ''OK'' ?tail ((requested ?w ?tail s)\<lparr>hw := h, cached_npc := ?v, use_cached_npc := ?c\<rparr>)"
  have n: "n < 35" using assms(4) by (auto simp: spr_of_register_def split: if_splits)
  have len: "length ?w < GDB_BUF_MAX - 1" "length ?r < GDB_BUF_MAX - 1"
    using hex_digits_length [of n] n by (auto simp: GDB_BUF_MAX_def)
  have plain: "CHR ''$'' \<notin> set ?w" "CHR ''#'' \<notin> set ?w" "CHR ''$'' \<notin> set ?r" "CHR ''#'' \<notin> set ?r"
    using digits_only_plain [of "hex_digits n"] digits_only_plain [of "reg2hex (ucast v)"] by auto
  have c: "client_sends ?w ?tail s" using assms(1,3) len plain by (simp add: client_sends_def)
  have w: "rsp_client_request p s = Some ?s1"
    unfolding write_register [OF c assms(2,4)] using assms(5) by (simp add: Let_def replied_def)
  have "client_sends ?r rest ?s1"
    by (rule client_sends_next [OF c, where rest' = ?tail]) (use plain len in \<open>auto simp: replied_def requested_def\<close>)
  moreover have "\<not> target_running ?s1" using assms(2) by (simp add: replied_def)
  ultimately have "rsp_client_request p ?s1 =
      Some (replied (reg2hex (ucast v)) rest
        ((requested ?r rest ?s1)\<lparr>rsp_data := put_string (reg2hex (ucast v)) (rsp_data (requested ?r rest ?s1)), rsp_len := 8\<rparr>))"
    using read_register [of n rest ?s1 adr p] assms(4,6)
    by (cases "n = 33") (auto simp: Let_def replied_def requested_def)
  with w show ?thesis by (auto simp: replied_def requested_def)
qed

theorem register_round_trip_witness:
  "\<exists>s1 s2 h. let s = stopped_bridge (raw_frame (CHR ''P'' # hex_digits 3 @ CHR ''='' # reg2hex (ucast (0xdeadbeef :: u32))) @
      ''+'' @ raw_frame (CHR ''p'' # hex_digits 3) @ ''+'') (\<lambda>_. 0, \<lambda>_. 0)
    in rsp_client_request storing_target s = Some s1 \<and> rsp_client_request storing_target s1 = Some s2 \<and>
       outgoing (link s2) = ''+'' @ frame_text ''OK'' @ ''+'' @ frame_text ''deadbeef'' \<and> fst (hw s2) 0x403 = 0xdeadbeef"
proof -
  have t: "reg2hex (ucast (0xdeadbeef :: u32)) = ''deadbeef''" by code_simp
  show ?thesis
    using register_round_trip [of "stopped_bridge (raw_frame (CHR ''P'' # hex_digits 3 @ CHR ''='' # reg2hex (ucast (0xdeadbeef :: u32))) @
        ''+'' @ raw_frame (CHR ''p'' # hex_digits 3) @ ''+'') (\<lambda>_. 0, \<lambda>_. 0)" 3 "0xdeadbeef" "[]" "0x403" storing_target
        "((\<lambda>_. 0)(0x403 := 0xdeadbeef), \<lambda>_. 0)"] t
    by (auto simp: Let_def spr_of_register_def APP_ERR_NONE_def)
qed

section \<open>Memory\<close>

text \<open>The text of a memory request: command, address, length and data.\<close>

definition mem_head :: "char \<Rightarrow> u32 \<Rightarrow> nat \<Rightarrow> string" where
  "mem_head c a n = c # hex_digits (unat a) @ CHR '','' # hex_digits n"

lemma scan_mem_head:
  fixes a :: u32
  assumes "n < 2 ^ 32"
  shows "sscanf [Lit c, Hex None, Lit CHR '','', Hex None, Lit CHR '':''] (mem_head c a n @ CHR '':'' # data) =
    [Num (ucast a), Num (of_nat n)]"
proof -
  have "unat a < 2 ^ 32" using unsigned_less [of a, where ?'a = nat] by simp
  then have "unat a < 2 ^ 64" by simp
  then show ?thesis
    using assms scan_hex_digits [of "unat a" "CHR '','' # hex_digits n @ CHR '':'' # data"]
      scan_hex_digits [of n "CHR '':'' # data"]
    by (simp add: mem_head_def of_nat_unat)
qed

lemma mem_head_plain:
  "c \<notin> {CHR 0x00, CHR ''$'', CHR ''#'', CHR '':''} \<Longrightarrow> d \<in> {CHR 0x00, CHR ''$'', CHR ''#'', CHR '':''} \<Longrightarrow>
   d \<notin> set (mem_head c a n)"
  using digits_only_plain [of "hex_digits (unat a)" d] digits_only_plain [of "hex_digits n" d]
  by (auto simp: mem_head_def)

lemma packet_string_requested:
  assumes "client_sends body rest s"
  shows "packet_string (requested body rest s) = takeWhile (\<lambda>c. c \<noteq> CHR 0x00) body"
  using assms c_string_takeWhile [of "received (rsp_data s) body" 0 body GDB_BUF_MAX]
  by (auto simp: packet_string_def requested_def client_sends_def)

lemma mem_request:
  fixes a :: u32
  assumes "client_sends (mem_head c a n @ CHR '':'' # data) rest s"
    and "n < 2 ^ 32" "c \<in> set ''mMX''"
  shows "sscanf [Lit c, Hex None, Lit CHR '','', Hex None, Lit CHR '':'']
      (packet_string (requested (mem_head c a n @ CHR '':'' # data) rest s)) = [Num (ucast a), Num (of_nat n)]"
    and "c_memchr GDB_BUF_MAX (received buf (mem_head c a n @ CHR '':'' # data)) 0 CHR '':'' = Some (length (mem_head c a n))"
proof -
  let ?h = "mem_head c a n" and ?b = "mem_head c a n @ CHR '':'' # data"
  have plain: "CHR 0x00 \<notin> set ?h" "CHR '':'' \<notin> set ?h" using mem_head_plain [of c _ a n] assms(3) by auto
  then have "takeWhile (\<lambda>c. c \<noteq> CHR 0x00) ?b = ?h @ CHR '':'' # takeWhile (\<lambda>c. c \<noteq> CHR 0x00) data"
    by (subst takeWhile_append2) auto
  then show "sscanf [Lit c, Hex None, Lit CHR '','', Hex None, Lit CHR '':'']
      (packet_string (requested ?b rest s)) = [Num (ucast a), Num (of_nat n)]"
    using scan_mem_head [OF assms(2)] by (simp add: packet_string_requested [OF assms(1)])
  have "map (received buf ?b) [0..<0 + length ?h] = ?h"
    by (rule nth_equalityI) (simp_all add: nth_append)
  moreover have "received buf ?b (0 + length ?h) = CHR '':''" by simp
  moreover have "length ?h < GDB_BUF_MAX" using assms(1) by (auto simp: client_sends_def)
  ultimately show "c_memchr GDB_BUF_MAX (received buf ?b) 0 CHR '':'' = Some (length ?h)"
    using c_memchr_text [of "received buf ?b" 0 ?h "CHR '':''" GDB_BUF_MAX] plain by simp
qed

lemma received_data:
  "i < length data \<Longrightarrow> received buf (h @ c # data) (Suc (length h + i)) = data ! i"
  by (simp add: received_nth nth_append)

text \<open>The data of an \<^verbatim>\<open>M\<close> packet are digits, those of an \<^verbatim>\<open>X\<close> packet escaped bytes.\<close>

definition write_body :: "bool \<Rightarrow> u32 \<Rightarrow> u8 list \<Rightarrow> string" where
  "write_body binary a bs =
     mem_head (if binary then CHR ''X'' else CHR ''M'') a (length bs) @ CHR '':'' #
       (if binary then escape (map byte_char bs) else concat (map hex_byte bs))"

lemma nibbles_of_byte:
  "push_bit 4 (of_int (hex (hex_digit (unat b div 16))) :: u8) OR of_int (hex (hex_digit (unat b mod 16))) = b"
proof -
  have l: "unat b div 16 < 16" "unat b mod 16 < 16" using unat_u8_less [of b] by auto
  have "(of_nat (unat b div 16) :: u8) = drop_bit 4 b" "(of_nat (unat b mod 16) :: u8) = take_bit 4 b"
    using l by (simp_all add: word_unat_eq_iff unat_drop_bit_eq drop_bit_eq_div unat_of_nat unsigned_take_bit_eq take_bit_eq_mod unat_div unat_mod)
  moreover have "push_bit 4 (drop_bit 4 b) OR take_bit 4 b = b"
    by (rule bit_word_eqI) (auto simp: bit_simps)
  ultimately show ?thesis using l by (simp add: hex_digit_value)
qed

lemma concat_hex_byte_nth:
  "i < length bs \<Longrightarrow>
   concat (map hex_byte bs) ! (2 * i) = hex_digit (unat (bs ! i) div 16) \<and>
   concat (map hex_byte bs) ! (Suc (2 * i)) = hex_digit (unat (bs ! i) mod 16)"
proof (induction bs arbitrary: i)
  case (Cons b bs)
  then show ?case by (cases i) (auto simp: hex_byte_eq)
qed simp

lemma concat_hex_byte_length [simp]: "length (concat (map hex_byte bs)) = 2 * length bs"
  by (induction bs) (auto simp: hex_byte_eq)

lemma small_length:
  assumes "n < 2 ^ 31"
  shows "ucast (of_nat n :: u64) = (of_nat n :: u32)" "sint (of_nat n :: u32) = int n"
proof -
  show "ucast (of_nat n :: u64) = (of_nat n :: u32)"
    using assms by (simp add: word_unat_eq_iff unsigned_ucast_eq unat_of_nat take_bit_nat_eq_self)
  show "sint (of_nat n :: u32) = int n"
    using assms by (simp add: signed_of_nat signed_take_bit_eq_if_positive take_bit_int_eq_self_iff
        bit_iff_odd drop_bit_eq_div flip: drop_bit_eq_div)
qed

lemma ucast_up_down [simp]: "(ucast (ucast (a :: u32) :: u64) :: u32) = a"
  by (rule bit_word_eqI) (auto simp: bit_simps)

lemma decode_bytes:
  assumes "\<And>i. i < 2 * length bs \<Longrightarrow> f (k + i) = concat (map hex_byte bs) ! i"
  shows "map (\<lambda>off. push_bit 4 (of_int (hex (f (k + off * 2))) :: u8) OR of_int (hex (f (k + (off * 2 + 1))))) [0..<length bs] = bs"
proof (rule nth_equalityI)
  fix i assume "i < length (map (\<lambda>off. push_bit 4 (of_int (hex (f (k + off * 2))) :: u8) OR of_int (hex (f (k + (off * 2 + 1))))) [0..<length bs])"
  then have i: "i < length bs" by simp
  then have "f (k + i * 2) = hex_digit (unat (bs ! i) div 16)" "f (k + (i * 2 + 1)) = hex_digit (unat (bs ! i) mod 16)"
    using assms [of "i * 2"] assms [of "i * 2 + 1"] concat_hex_byte_nth [OF i] by (simp_all add: mult.commute)
  then show "map (\<lambda>off. push_bit 4 (of_int (hex (f (k + off * 2))) :: u8) OR of_int (hex (f (k + (off * 2 + 1))))) [0..<length bs] ! i = bs ! i"
    using i nibbles_of_byte by simp
qed simp

lemma write_memory_text:
  assumes "client_sends (write_body False a bs) rest s" "\<not> target_running s"
  shows "rsp_client_request p s =
    (let s = requested (write_body False a bs) rest s
     in do {
       (err, h) \<leftarrow> wb_write_block8 p a bs (int (length bs)) (hw s);
       Some (replied (if err = APP_ERR_NONE then ''OK'' else ''E01'') rest (s\<lparr>hw := h\<rparr>))
     })"
proof -
  let ?d = "concat (map hex_byte bs)" and ?h = "mem_head CHR ''M'' a (length bs)"
  let ?s = "requested (?h @ CHR '':'' # ?d) rest s"
  have c: "client_sends (?h @ CHR '':'' # ?d) rest s" using assms(1) by (simp add: write_body_def)
  then have small: "length bs < 2 ^ 31" by (auto simp: client_sends_def GDB_BUF_MAX_def)
  have m: "sscanf [Lit CHR ''M'', Hex None, Lit CHR '','', Hex None, Lit CHR '':''] (packet_string ?s) =
      [Num (ucast a), Num (of_nat (length bs))]"
    "c_memchr GDB_BUF_MAX (rsp_data ?s) 0 CHR '':'' = Some (length ?h)"
    using mem_request [OF c] small by auto
  have d: "rsp_client_request p s = rsp_write_mem p ?s"
    using c assms(2) by (simp add: mem_head_def request_dispatched rsp_dispatch_def)
  have f: "rsp_data ?s (length ?h + 1 + i) = ?d ! i" if "i < 2 * length bs" for i
    using that received_data [of i ?d "rsp_data s" ?h "CHR '':''"] by simp
  have l: "rsp_len ?s = length ?h + 1 + 2 * length bs" by (simp add: ac_simps)
  have len: "(of_nat (length bs) :: u32) * 2 = of_int (int (rsp_len ?s) - int (length ?h + 1))"
    unfolding l by (simp add: mult.commute)
  show ?thesis
    unfolding d write_body_def if_False rsp_write_mem_def m
    using requested_awaits [OF c]
    by (simp add: Let_def mult.commute [of _ "2 :: u32"] decode_bytes [OF f, simplified] small_length [OF small]
        put_str_reply GDB_BUF_MAX_def split: Option.bind_split)
qed

lemma escape_length: "length t \<le> length (escape t)"
  by (induction t) (auto simp: escape_Cons)

text \<open>An \<^verbatim>\<open>X\<close> packet leaves its data unescaped in the buffer.\<close>

lemma write_memory_binary:
  assumes "client_sends (write_body True a bs) rest s" "\<not> target_running s"
  shows "\<exists>buf. rsp_client_request p s =
    (let s = (requested (write_body True a bs) rest s)\<lparr>rsp_data := buf\<rparr>
     in do {
       (err, h) \<leftarrow> wb_write_block8 p a bs (int (length bs)) (hw s);
       Some (replied (if err = APP_ERR_NONE then ''OK'' else ''E01'') rest (s\<lparr>hw := h\<rparr>))
     })"
proof -
  let ?t = "map byte_char bs" and ?h = "mem_head CHR ''X'' a (length bs)"
  let ?d = "escape ?t"
  let ?s = "requested (?h @ CHR '':'' # ?d) rest s"
  have c: "client_sends (?h @ CHR '':'' # ?d) rest s" using assms(1) by (simp add: write_body_def)
  have small: "length bs < 2 ^ 31" using c escape_length [of ?t] by (auto simp: client_sends_def GDB_BUF_MAX_def)
  have m: "sscanf [Lit CHR ''X'', Hex None, Lit CHR '','', Hex None, Lit CHR '':''] (packet_string ?s) =
      [Num (ucast a), Num (of_nat (length bs))]"
    "c_memchr GDB_BUF_MAX (rsp_data ?s) 0 CHR '':'' = Some (length ?h)"
    using mem_request [OF c] small by auto
  have d: "rsp_client_request p s = rsp_write_mem_bin p ?s"
    using c assms(2) by (simp add: mem_head_def request_dispatched rsp_dispatch_def)
  let ?f = "\<lambda>i. rsp_data ?s (length ?h + 1 + i)"
  have "map ?f [0..<length ?d] = ?d"
    using received_data [of _ ?d "rsp_data s" ?h "CHR '':''"] by (intro nth_equalityI) simp_all
  then have u: "rsp_unescape ?f (length ?d) = (put_chars ?f 0 ?t, length bs)"
    using rsp_unescape_escape [of ?f "length ?d" ?t] by simp
  have l: "rsp_len ?s - (length ?h + 1) = length ?d" by simp
  have b: "map (\<lambda>i. byte (put_chars ?f 0 ?t i)) [0..<length bs] = bs"
    by (rule nth_equalityI) (simp_all add: put_chars_def)
  show ?thesis
    unfolding d write_body_def if_True rsp_write_mem_bin_def m
    apply (rule exI [of _ "\<lambda>i. if length ?h + 1 \<le> i then put_chars ?f 0 ?t (i - (length ?h + 1)) else rsp_data ?s i"])
    using requested_awaits [OF c]
    by (simp add: Let_def l [simplified] u [simplified] b [simplified] small_length [OF small]
        put_str_reply GDB_BUF_MAX_def cong: if_cong split: Option.bind_split)
qed

lemma scan_read:
  assumes "n < 2 ^ 32"
  shows "sscanf [Lit CHR ''m'', Hex None, Lit CHR '','', Hex None, Lit CHR '':''] (mem_head CHR ''m'' a n) =
    [Num (ucast a), Num (of_nat n)]"
proof -
  have "unat a < 2 ^ 32" using unsigned_less [of a, where ?'a = nat] by simp
  then have "unat a < 2 ^ 64" by simp
  then show ?thesis
    using assms scan_hex_digits [of "unat a" "CHR '','' # hex_digits n"] scan_hex_digits [of n "[]"]
    by (simp add: mem_head_def of_nat_unat)
qed

lemma read_memory:
  assumes "client_sends (mem_head CHR ''m'' a n) rest s" "\<not> target_running s" "2 * n < GDB_BUF_MAX"
    and "wb_read_block8 p a (int n) (hw s) = Some (err, bs, h)" "length bs = n"
  shows "\<exists>s'. rsp_client_request p s =
      Some (replied (if err = APP_ERR_NONE then concat (map hex_byte bs) else ''E01'') rest s') \<and>
    link s' = link (requested (mem_head CHR ''m'' a n) rest s) \<and> hw s' = h"
proof -
  let ?h = "mem_head CHR ''m'' a n"
  let ?s = "requested ?h rest s"
  have small: "n < 2 ^ 31" using assms(3) by (auto simp: GDB_BUF_MAX_def)
  have "packet_string ?s = ?h"
    using assms(1) mem_head_plain [of "CHR ''m''" "CHR 0x00" a n] by (intro requested_string) auto
  then have m: "sscanf [Lit CHR ''m'', Hex None, Lit CHR '','', Hex None, Lit CHR '':''] (packet_string ?s) =
      [Num (ucast a), Num (of_nat n)]"
    using scan_read [of n a] small by simp
  have d: "rsp_client_request p s = rsp_read_mem p ?s"
    using assms(1,2) by (simp add: mem_head_def request_dispatched rsp_dispatch_def)
  have "(of_nat n :: u32) * 2 = of_nat (2 * n)" by simp
  then have l: "sint ((of_nat n :: u32) * 2) = int (2 * n)"
    using small_length(2) [of "2 * n"] assms(3) by (simp add: GDB_BUF_MAX_def mult.commute)
  have b: "concat (map (\<lambda>off. hex_byte (bs ! off)) [0..<n]) = concat (map hex_byte bs)"
    using arg_cong [OF map_nth [of bs], of "\<lambda>l. concat (map hex_byte l)"] assms(5) by (simp add: comp_def)
  have g: "\<not> int GDB_BUF_MAX \<le> int (2 * n)" "\<not> GDB_BUF_MAX \<le> 2 * n" using assms(3) by auto
  have r: "rsp_read_mem p ?s =
      (if err = APP_ERR_NONE then reply_in_buffer p (concat (map hex_byte bs)) (?s\<lparr>hw := h\<rparr>)
       else put_str_packet p ''E01'' (?s\<lparr>hw := h, rsp_data := put_chars (rsp_data ?s) 0 (concat (map hex_byte bs))\<rparr>))"
    unfolding rsp_read_mem_def m using assms(4,5) g(2)
    by (simp add: Let_def l g(1) small_length [OF small] b del: int_ops)
  show ?thesis
  proof (cases "err = APP_ERR_NONE")
    case True
    then show ?thesis
      unfolding d r using requested_awaits [OF assms(1)] assms(5) by (auto simp: reply_from_buffer)
  next
    case False
    then show ?thesis
      unfolding d r using requested_awaits [OF assms(1)]
      by (intro exI [of _ "?s\<lparr>hw := h, rsp_data := put_chars (rsp_data ?s) 0 (concat (map hex_byte bs))\<rparr>"])
        (simp add: put_str_reply awaiting_ack_def GDB_BUF_MAX_def)
  qed
qed

lemma write_memory:
  assumes "client_sends (write_body binary a bs) rest s" "\<not> target_running s"
    and "wb_write_block8 p a bs (int (length bs)) (hw s) = Some (err, h)"
  shows "\<exists>buf. rsp_client_request p s =
    Some (replied (if err = APP_ERR_NONE then ''OK'' else ''E01'') rest
      ((requested (write_body binary a bs) rest s)\<lparr>rsp_data := buf, hw := h\<rparr>))"
proof (cases binary)
  case True
  with assms write_memory_binary [of a bs rest s p] show ?thesis by (auto simp: Let_def)
next
  case False
  with assms have "rsp_client_request p s =
    Some (replied (if err = APP_ERR_NONE then ''OK'' else ''E01'') rest
      ((requested (write_body binary a bs) rest s)\<lparr>rsp_data := rsp_data (requested (write_body binary a bs) rest s), hw := h\<rparr>))"
    using write_memory_text [of a bs rest s p] by (simp add: Let_def del: requested_fields(9))
  then show ?thesis by (rule exI [of _ "rsp_data (requested (write_body binary a bs) rest s)"])
qed

lemma write_memory_exits:
  assumes "client_sends (write_body binary a bs) rest s" "\<not> target_running s" "wb_write_block8 p a bs (int (length bs)) (hw s) = None"
  shows "rsp_client_request p s = None"
  using assms write_memory_binary [of a bs rest s p] write_memory_text [of a bs rest s p] by (cases binary) (auto simp: Let_def)

lemma write_body_plain: "d \<in> {CHR ''$'', CHR ''#''} \<Longrightarrow> d \<notin> set (write_body binary a bs)"
proof -
  assume "d \<in> {CHR ''$'', CHR ''#''}"
  moreover have "digits_only (concat (map hex_byte bs))" by (rule digits_only_concat) auto
  ultimately show ?thesis
    using mem_head_plain [of "CHR ''X''" d a "length bs"] mem_head_plain [of "CHR ''M''" d a "length bs"]
      escape_clean [of d "map byte_char bs"] digits_only_plain [of "concat (map hex_byte bs)" d]
    unfolding write_body_def by (auto simp del: set_concat)
qed

text \<open>
  C23. Memory through the debugger: any bytes that fit into the buffer, written with an \<^verbatim>\<open>M\<close> packet (digits)
  or an \<^verbatim>\<open>X\<close> packet (escaped binary, zero bytes included) and read with an \<^verbatim>\<open>m\<close> packet from a target that
  stores them, come back digit by digit; both requests are acknowledged and answered once.
\<close>

theorem memory_round_trip:
  assumes "writable (link s)" "\<not> target_running s"
    and "incoming (link s) = raw_frame (write_body binary a bs) @ ''+'' @
           raw_frame (mem_head CHR ''m'' a (length bs)) @ ''+'' @ rest"
    and "length (write_body binary a bs) < GDB_BUF_MAX - 1" "2 * length bs < GDB_BUF_MAX"
    and "wb_write_block8 p a bs (int (length bs)) (hw s) = Some (APP_ERR_NONE, h)"
    and "wb_read_block8 p a (int (length bs)) h = Some (APP_ERR_NONE, bs, h)"
  shows "\<exists>s1 s2. rsp_client_request p s = Some s1 \<and> rsp_client_request p s1 = Some s2 \<and>
    outgoing (link s2) = outgoing (link s) @ ''+'' @ frame_text ''OK'' @ ''+'' @ frame_text (concat (map hex_byte bs)) \<and>
    incoming (link s2) = rest \<and> hw s2 = h"
proof -
  let ?w = "write_body binary a bs" and ?r = "mem_head CHR ''m'' a (length bs)"
  let ?tail = "raw_frame ?r @ CHR ''+'' # rest"
  have lr: "length ?r < GDB_BUF_MAX - 1" using assms(4) by (auto simp: write_body_def mem_head_def split: if_splits)
  have pr: "CHR ''$'' \<notin> set ?r" "CHR ''#'' \<notin> set ?r"
    using mem_head_plain [of "CHR ''m''"] by auto
  have c: "client_sends ?w ?tail s" using assms(1,3,4) write_body_plain by (simp add: client_sends_def)
  obtain buf where w: "rsp_client_request p s =
      Some (replied ''OK'' ?tail ((requested ?w ?tail s)\<lparr>rsp_data := buf, hw := h\<rparr>))" (is "_ = Some ?s1")
    using write_memory [OF c assms(2,6)] by auto
  have "client_sends ?r rest ?s1"
    by (rule client_sends_next [OF c, where rest' = ?tail]) (use pr lr in \<open>auto simp: replied_def requested_def\<close>)
  moreover have "\<not> target_running ?s1" "hw ?s1 = h" using assms(2) by (simp_all add: replied_def)
  ultimately obtain s' where "rsp_client_request p ?s1 = Some (replied (concat (map hex_byte bs)) rest s')"
      "link s' = link (requested ?r rest ?s1)" "hw s' = h"
    using read_memory [of a "length bs" rest ?s1 p APP_ERR_NONE bs h] assms(5,7) by auto
  with w show ?thesis by (auto simp: replied_def requested_def)
qed

theorem memory_round_trip_witness:
  "\<exists>s1 s2. let bs = [0x24, 0, 0x7d]; s = stopped_bridge (raw_frame (write_body True 0x100 bs) @ ''+'' @
      raw_frame (mem_head CHR ''m'' 0x100 (length bs)) @ ''+'') (\<lambda>_. 0, \<lambda>_. 0)
    in rsp_client_request storing_target s = Some s1 \<and> rsp_client_request storing_target s1 = Some s2 \<and>
       outgoing (link s2) = ''+'' @ frame_text ''OK'' @ ''+'' @ frame_text ''24007d''"
proof -
  let ?bs = "[0x24, 0, 0x7d] :: u8 list"
  have t: "concat (map hex_byte ?bs) = ''24007d''" by code_simp
  have l: "length (write_body True 0x100 ?bs) = 12" by code_simp
  have m: "map (\<lambda>i. put_bytes 0x100 ?bs (\<lambda>_. 0) (0x100 + of_nat i)) [0..<3] = ?bs" by code_simp
  show ?thesis
    using memory_round_trip [of "stopped_bridge (raw_frame (write_body True 0x100 ?bs) @ ''+'' @
        raw_frame (mem_head CHR ''m'' 0x100 (length ?bs)) @ ''+'') (\<lambda>_. 0, \<lambda>_. 0)" True "0x100" ?bs "[]" storing_target
        "(\<lambda>_. 0, put_bytes 0x100 ?bs (\<lambda>_. 0))"] l m
    unfolding t Let_def
    by (auto simp add: APP_ERR_NONE_def GDB_BUF_MAX_def numeral_3_eq_3 simp del: put_bytes.simps)
qed

end
