(* ===== verification/Rsp_Break_Spec.thy ===== *)
theory Rsp_Break_Spec
  imports Rsp_Server_Spec
begin

unbundle bit_operations_syntax

text \<open>
  Breakpoints and watchpoints set through the RSP server: what the packets leave in the target's memory
  and debug unit, in the matchpoint table and in the watchpoint pool.
\<close>

section \<open>The packets\<close>

definition match_body :: "char \<Rightarrow> nat \<Rightarrow> u32 \<Rightarrow> string" where
  "match_body c t a = c # hex_digit t # CHR '','' # hex_digits (unat a) @ '',4''"

lemma scan_digit:
  assumes "t < 10"
  shows "scan_number 10 (Some 1) (hex_digit t # rest) = Some (of_nat t, rest)"
proof -
  let ?d = "hex_digit t"
  have d: "\<not> is_space ?d" "?d \<noteq> CHR ''-''" "?d \<noteq> CHR ''+''" "hex ?d = int t"
    using digit_not_space [of t] hex_digit_value [of t] assms by auto
  then have "digits_of 10 [?d] = [?d]" "digits_value 10 [?d] = int t" "min (int t) (2 ^ 64 - 1) = int t"
    using assms by (simp_all add: digits_of_def digits_value_def)
  with d show ?thesis by (simp add: scan_number_def Let_def within_def)
qed

lemma unat_u32: "unat (a :: u32) < 2 ^ 32"
  using unsigned_less [of a, where ?'a = nat] by simp

lemma scan_match:
  assumes "t < 10"
  shows "sscanf [Lit c, Dec (Some 1), Lit CHR '','', Hex None, Lit CHR '','', Dec (Some 1)] (match_body c t a) =
    [Num (of_nat t), Num (ucast a), Num 4]"
proof -
  have "unat a < 2 ^ 64" using unat_u32 [of a] by simp
  moreover have "hex_digit 4 = CHR ''4''" by code_simp
  ultimately show ?thesis
    using assms scan_digit [of 4 "[]"] scan_hex_digits [of "unat a" "'',4''"]
    by (simp add: match_body_def scan_digit [simplified] of_nat_unat)
qed

lemma match_body_plain:
  "t < 10 \<Longrightarrow> c \<notin> {CHR 0x00, CHR ''$'', CHR ''#''} \<Longrightarrow> d \<in> {CHR 0x00, CHR ''$'', CHR ''#''} \<Longrightarrow>
   d \<notin> set (match_body c t a)"
  using digits_only_plain [of "hex_digits (unat a)" d] digit_plain [of t] by (auto simp: match_body_def)

lemma hex_digits_short: "n < 16 ^ k \<Longrightarrow> 0 < k \<Longrightarrow> length (hex_digits n) \<le> k"
proof (induction k arbitrary: n)
  case (Suc k)
  show ?case
  proof (cases "n < 16")
    case False
    then have "k \<noteq> 0" using Suc.prems(1) by (cases k) auto
    moreover have "n div 16 < 16 ^ k" using Suc.prems(1) by (simp add: div_less_iff_less_mult mult.commute)
    ultimately show ?thesis using Suc.IH [of "n div 16"] False by (simp add: hex_digits.simps [of n])
  qed (simp add: hex_digits.simps [of n])
qed simp

lemma match_body_length: "length (match_body c t a) < GDB_BUF_MAX - 1"
proof -
  have "unat a < 16 ^ 8" using unat_u32 [of a] by simp
  then have "length (hex_digits (unat a)) \<le> 8" by (rule hex_digits_short) simp
  then show ?thesis by (simp add: match_body_def GDB_BUF_MAX_def)
qed

lemma match_request:
  assumes "client_sends (match_body c t a) rest s" "t < 10" "c = CHR ''z'' \<or> c = CHR ''Z''"
  shows "sscanf [Lit c, Dec (Some 1), Lit CHR '','', Hex None, Lit CHR '','', Dec (Some 1)]
      (packet_string (requested (match_body c t a) rest s)) = [Num (of_nat t), Num (ucast a), Num 4]"
proof -
  have "packet_string (requested (match_body c t a) rest s) = match_body c t a"
    using assms match_body_plain [of t c "CHR 0x00" a] by (intro requested_string) auto
  then show ?thesis using scan_match [OF assms(2)] by simp
qed

text \<open>A client's further packets after a reply.\<close>

lemma match_traffic_next:
  assumes "client_sends body (raw_frame (match_body c t a) @ CHR ''+'' # rest) s" "t < 10" "c = CHR ''z'' \<or> c = CHR ''Z''"
    and "link s' = link (replied text (raw_frame (match_body c t a) @ CHR ''+'' # rest)
      (requested body (raw_frame (match_body c t a) @ CHR ''+'' # rest) s))"
  shows "client_sends (match_body c t a) rest s'"
  using match_body_plain [OF assms(2), of c _ a] match_body_length [of c t a] assms(3)
  by (intro client_sends_next [OF assms(1) _ _ _ assms(4)]) auto

section \<open>Memory breakpoints\<close>

lemma word_at_put: "word_at (write_words a [w] m) a = w"
proof (rule bit_word_eqI)
  fix i assume "i < LENGTH(32)"
  then consider "i < 8" | "8 \<le> i" "i < 16" | "16 \<le> i" "i < 24" | "24 \<le> i" "i < 32" by fastforce
  then show "bit (word_at (write_words a [w] m) a) i = bit w i"
    by cases (auto simp: word_at_def bit_simps)
qed

lemma bytes_of_word_at:
  "ucast (drop_bit 24 (word_at m a)) = m a" "ucast (drop_bit 16 (word_at m a)) = m (a + 1)"
  "ucast (drop_bit 8 (word_at m a)) = m (a + 2)" "ucast (word_at m a) = m (a + 3)"
  by (rule bit_word_eqI; auto simp: word_at_def bit_simps dest: bit_imp_le_length)+

lemma put_back: "write_words a [word_at m a] (write_words a [w] m) = m"
  by (auto simp: bytes_of_word_at fun_eq_iff)

lemma put_same: "write_words a [w] (write_words a [v] m) = write_words a [w] m"
  by (auto simp: fun_eq_iff)

text \<open>A target whose memory can be read and written by aligned words.\<close>

definition ram_target :: "'h debug_port \<Rightarrow> ('h \<Rightarrow> u32 \<Rightarrow> u8) \<Rightarrow> bool" where
  "ram_target p mem \<longleftrightarrow>
     (\<forall>h a. 4 dvd unat a \<longrightarrow> wb_read_block32 p a 1 h = Some (APP_ERR_NONE, [word_at (mem h) a], h)) \<and>
     (\<forall>h a w. 4 dvd unat a \<longrightarrow>
        (\<exists>h'. wb_write_block32 p a [w] 1 h = Some (APP_ERR_NONE, h') \<and> mem h' = write_words a [w] (mem h)))"

lemma mp_add_lookup: "mp_hash_add type addr instr t = mp_add (type, addr) instr t"
  by (simp add: mp_add_def)

lemma insert_breakpoint:
  assumes "client_sends (match_body CHR ''Z'' 0 a) rest s" "\<not> target_running s"
    and "ram_target p mem" "4 dvd unat a"
  obtains h where "rsp_client_request p s =
      Some (replied ''OK'' rest ((requested (match_body CHR ''Z'' 0 a) rest s)
        \<lparr>mp_hash := mp_add (BP_MEMORY, ucast a) (ucast (word_at (mem (hw s)) a)) (mp_hash s), hw := h\<rparr>))"
    "mem h = write_words a [OR1K_TRAP_INSTR] (mem (hw s))"
proof -
  let ?s = "requested (match_body CHR ''Z'' 0 a) rest s"
  have d: "rsp_client_request p s = rsp_insert_matchpoint p ?s"
    using assms(1,2) by (simp add: match_body_def request_dispatched rsp_dispatch_def)
  obtain h where h: "wb_write_block32 p a [OR1K_TRAP_INSTR] 1 (hw s) = Some (APP_ERR_NONE, h)"
      "mem h = write_words a [OR1K_TRAP_INSTR] (mem (hw s))"
    using assms(3,4) unfolding ram_target_def by blast
  moreover have "wb_read_block32 p a 1 (hw s) = Some (APP_ERR_NONE, [word_at (mem (hw s)) a], hw s)"
    using assms(3,4) by (simp add: ram_target_def)
  ultimately have "rsp_client_request p s =
      Some (replied ''OK'' rest (?s
        \<lparr>mp_hash := mp_add (BP_MEMORY, ucast a) (ucast (word_at (mem (hw s)) a)) (mp_hash s), hw := h\<rparr>))"
    unfolding d rsp_insert_matchpoint_def
    using match_request [OF assms(1)] requested_awaits [OF assms(1)]
    by (simp add: mp_type_of_def Let_def put_str_reply GDB_BUF_MAX_def mp_add_lookup)
  then show ?thesis using h(2) that by blast
qed

lemma remove_breakpoint:
  assumes "client_sends (match_body CHR ''z'' 0 a) rest s" "\<not> target_running s"
    and "ram_target p mem" "4 dvd unat a" and "fst (mp_delete (BP_MEMORY, ucast a) (mp_hash s)) = Some w"
  obtains h where "rsp_client_request p s =
      Some (replied ''OK'' rest ((requested (match_body CHR ''z'' 0 a) rest s)
        \<lparr>mp_hash := snd (mp_delete (BP_MEMORY, ucast a) (mp_hash s)), hw := h\<rparr>))"
    "mem h = write_words a [ucast w] (mem (hw s))"
proof -
  let ?s = "requested (match_body CHR ''z'' 0 a) rest s"
  have d: "rsp_client_request p s = rsp_remove_matchpoint p ?s"
    using assms(1,2) by (simp add: match_body_def request_dispatched rsp_dispatch_def)
  obtain e t where e: "mp_hash_delete BP_MEMORY (ucast a) (mp_hash s) = (Some e, t)" "mp_instr e = w"
      "t = snd (mp_delete (BP_MEMORY, ucast a) (mp_hash s))"
    using assms(5) by (cases "mp_hash_delete BP_MEMORY (ucast a) (mp_hash s)") (auto simp: mp_delete_def)
  obtain h where h: "wb_write_block32 p a [ucast w] 1 (hw s) = Some (APP_ERR_NONE, h)"
      "mem h = write_words a [ucast w] (mem (hw s))"
    using assms(3,4) unfolding ram_target_def by blast
  then have "rsp_client_request p s =
      Some (replied ''OK'' rest (?s\<lparr>mp_hash := snd (mp_delete (BP_MEMORY, ucast a) (mp_hash s)), hw := h\<rparr>))"
    unfolding d rsp_remove_matchpoint_def
    using match_request [OF assms(1)] requested_awaits [OF assms(1)] e
    by (simp add: mp_type_of_def Let_def put_str_reply GDB_BUF_MAX_def)
  then show ?thesis using h(2) that by blast
qed

lemma storing_ram: "ram_target storing_target snd"
  by (auto simp: ram_target_def APP_ERR_NONE_def)

text \<open>
  C4. Life of a memory breakpoint: two insertion packets for an aligned address (GDB may repeat itself) put
  the trap instruction into that word of the target's memory and change no other byte; one removal packet
  then restores the memory and the set of breakpoints. Each packet is answered \<^verbatim>\<open>OK\<close>.
\<close>

theorem breakpoint_life:
  assumes "writable (link s)" "\<not> target_running s"
    and "incoming (link s) = raw_frame (match_body CHR ''Z'' 0 a) @ ''+'' @ raw_frame (match_body CHR ''Z'' 0 a) @ ''+'' @
           raw_frame (match_body CHR ''z'' 0 a) @ ''+'' @ rest"
    and "ram_target p mem" "4 dvd unat a"
    and "mp_invar (mp_hash s)" "mp_lookup (mp_hash s) (BP_MEMORY, ucast a) = None"
  shows "\<exists>s1 s2 s3. rsp_client_request p s = Some s1 \<and> rsp_client_request p s1 = Some s2 \<and>
    rsp_client_request p s2 = Some s3 \<and>
    mem (hw s1) = write_words a [OR1K_TRAP_INSTR] (mem (hw s)) \<and> mem (hw s2) = mem (hw s1) \<and>
    mem (hw s3) = mem (hw s) \<and> mp_lookup (mp_hash s3) = mp_lookup (mp_hash s) \<and>
    outgoing (link s3) = outgoing (link s) @ ''+'' @ frame_text ''OK'' @ ''+'' @ frame_text ''OK'' @ ''+'' @ frame_text ''OK'' \<and>
    incoming (link s3) = rest"
proof -
  let ?Z = "match_body CHR ''Z'' 0 a" and ?z = "match_body CHR ''z'' 0 a"
  let ?k = "(BP_MEMORY, ucast a :: u64)" and ?trap = "write_words a [OR1K_TRAP_INSTR]"
  let ?r2 = "raw_frame ?z @ CHR ''+'' # rest"
  let ?r1 = "raw_frame ?Z @ CHR ''+'' # ?r2"
  have plain: "d \<notin> set ?Z" "d \<notin> set ?z" if "d \<in> {CHR ''$'', CHR ''#''}" for d
    using match_body_plain [of 0 "CHR ''Z''" d a] match_body_plain [of 0 "CHR ''z''" d a] that by auto
  have c0: "client_sends ?Z ?r1 s"
    using assms(1,3) plain match_body_length by (simp add: client_sends_def)
  obtain h1 where s1: "rsp_client_request p s = Some (replied ''OK'' ?r1 ((requested ?Z ?r1 s)
      \<lparr>mp_hash := mp_add ?k (ucast (word_at (mem (hw s)) a)) (mp_hash s), hw := h1\<rparr>))" (is "_ = Some ?s1")
    and m1: "mem h1 = ?trap (mem (hw s))"
    by (rule insert_breakpoint [OF c0 assms(2,4,5)])
  have c1: "client_sends ?Z ?r2 ?s1"
    by (rule match_traffic_next [OF c0]) (simp_all add: replied_def requested_def)
  have t1: "\<not> target_running ?s1" "hw ?s1 = h1" "mp_hash ?s1 = mp_add ?k (ucast (word_at (mem (hw s)) a)) (mp_hash s)"
    using assms(2) by (simp_all add: replied_def)
  obtain h2 where s2: "rsp_client_request p ?s1 = Some (replied ''OK'' ?r2 ((requested ?Z ?r2 ?s1)
      \<lparr>mp_hash := mp_add ?k (ucast (word_at (mem (hw ?s1)) a)) (mp_hash ?s1), hw := h2\<rparr>))" (is "_ = Some ?s2")
    and m2: "mem h2 = ?trap (mem (hw ?s1))"
    by (rule insert_breakpoint [OF c1 t1(1) assms(4,5)])
  have c2: "client_sends ?z rest ?s2"
    by (rule match_traffic_next [OF c1]) (simp_all add: replied_def requested_def)
  have t2: "\<not> target_running ?s2" "hw ?s2 = h2"
      "mp_hash ?s2 = mp_add ?k (ucast (word_at (mem h1) a)) (mp_add ?k (ucast (word_at (mem (hw s)) a)) (mp_hash s))"
    using t1 by (simp_all add: replied_def)
  have found: "fst (mp_delete ?k (mp_hash ?s2)) = Some (ucast (word_at (mem (hw s)) a))"
    unfolding t2(3) by (rule mp.add_twice_delete(1) [OF assms(6,7)])
  obtain h3 where s3: "rsp_client_request p ?s2 = Some (replied ''OK'' rest ((requested ?z rest ?s2)
      \<lparr>mp_hash := snd (mp_delete ?k (mp_hash ?s2)), hw := h3\<rparr>))" (is "_ = Some ?s3")
    and m3: "mem h3 = write_words a [ucast (ucast (word_at (mem (hw s)) a) :: u64)] (mem (hw ?s2))"
    by (rule remove_breakpoint [OF c2 t2(1) assms(4,5) found])
  have "mem h2 = mem h1" using m1 m2 t1(2) put_same by simp
  moreover have "mem h3 = mem (hw s)" using m3 t2(2) m1 \<open>mem h2 = mem h1\<close> put_back by simp
  moreover have "mp_lookup (mp_hash ?s3) = mp_lookup (mp_hash s)"
    using mp.add_twice_delete(2) [OF assms(6,7)] t2(3) by (simp add: replied_def)
  moreover have "hw ?s3 = h3" "incoming (link ?s3) = rest"
    "outgoing (link ?s3) = outgoing (link s) @ ''+'' @ frame_text ''OK'' @ ''+'' @ frame_text ''OK'' @ ''+'' @ frame_text ''OK''"
    by (simp_all add: replied_def requested_def)
  ultimately show ?thesis using s1 s2 s3 m1 t1(2) t2(2) by metis
qed

theorem breakpoint_life_witness:
  "\<exists>s3. let Z = raw_frame (match_body CHR ''Z'' 0 0x100) @ ''+'';
           s = stopped_bridge (Z @ Z @ raw_frame (match_body CHR ''z'' 0 0x100) @ ''+'') (\<lambda>_. 0, \<lambda>a. ucast a)
    in (\<exists>s1 s2. rsp_client_request storing_target s = Some s1 \<and> word_at (snd (hw s1)) 0x100 = 0x21000001 \<and>
          rsp_client_request storing_target s1 = Some s2 \<and> rsp_client_request storing_target s2 = Some s3) \<and>
       snd (hw s3) = (\<lambda>a. ucast a)"
proof -
  have "4 dvd unat (0x100 :: u32)" by simp
  then show ?thesis
    using breakpoint_life [of "stopped_bridge (raw_frame (match_body CHR ''Z'' 0 0x100) @ ''+'' @ raw_frame (match_body CHR ''Z'' 0 0x100) @
        ''+'' @ raw_frame (match_body CHR ''z'' 0 0x100) @ ''+'') (\<lambda>_. 0, \<lambda>a. ucast a)" "0x100" "[]" storing_target snd]
      storing_ram mp_invar_init word_at_put
    by (simp add: Let_def OR1K_TRAP_INSTR_def del: write_words.simps) metis
qed

section \<open>Hardware watchpoints\<close>

text \<open>
  The debug unit of the target as the architecture describes it: the eight value registers, the control
  registers without their read-only presence bit, the chaining and single-step bits of \<^verbatim>\<open>DMR1\<close>, the enable
  bits of \<^verbatim>\<open>DMR2\<close>, the stop and the reason register keep what is written; \<open>unit h r\<close> is the content of
  register \<open>r\<close> in these bits. Of the other bits and registers nothing is said.
\<close>

definition unit_bits :: "u32 \<Rightarrow> u32" where
  "unit_bits r =
     (let i = unat (r - 0x3000)
      in if i < 8 then NOT 0 else if i < 16 then 0xfe
         else if i = 16 then 0xcfffff else if i = 17 then 0x3ff000
         else if i = 20 \<or> i = 21 then 0x3fff else 0)"

definition unit_register :: "u32 \<Rightarrow> bool" where
  "unit_register r \<longleftrightarrow> unat (r - 0x3000) \<in> {0..17} \<union> {20, 21}"

definition debug_unit :: "'h debug_port \<Rightarrow> ('h \<Rightarrow> u32 \<Rightarrow> u32) \<Rightarrow> bool" where
  "debug_unit p unit \<longleftrightarrow>
     (\<forall>h r. unit_register r \<longrightarrow>
        (\<exists>v. cpu0_read p r h = Some (APP_ERR_NONE, v, h) \<and> v AND unit_bits r = unit h r)) \<and>
     (\<forall>h r v. unit_register r \<longrightarrow>
        (\<exists>h'. cpu0_write p r v h = Some (APP_ERR_NONE, h') \<and> unit h' = (unit h)(r := v AND unit_bits r)))"

definition armed :: "nat \<Rightarrow> u32 \<Rightarrow> u32 \<Rightarrow> (u32 \<Rightarrow> u32) \<Rightarrow> u32 \<Rightarrow> u32" where
  "armed w addr compare r =
     r(0x3000 + of_nat w := addr, 0x3008 + of_nat w := compare AND 0xfe,
       0x3011 := set_bit (12 + w) (r 0x3011),
       0x3010 := unset_bit (2 * w) (unset_bit (2 * w + 1) (r 0x3010)))"

definition disarmed :: "nat \<Rightarrow> (u32 \<Rightarrow> u32) \<Rightarrow> u32 \<Rightarrow> u32" where
  "disarmed w r = r(0x3011 := unset_bit (12 + w) (r 0x3011), 0x3008 + of_nat w := 0)"

lemma watch_registers:
  assumes "w < 8"
  shows "unat (SPR_DVR (of_nat w) - 0x3000) = w" "unat (SPR_DCR (of_nat w) - 0x3000) = 8 + w"
    "SPR_DVR (of_nat w) = 0x3000 + of_nat w" "SPR_DCR (of_nat w) = 0x3008 + of_nat w"
    "SPR_DMR2 = 0x3011" "SPR_DMR1 = 0x3010"
    "(0x3011 :: u32) \<noteq> 0x3000 + of_nat w" "(0x3011 :: u32) \<noteq> 0x3008 + of_nat w"
    "(0x3010 :: u32) \<noteq> 0x3000 + of_nat w" "(0x3010 :: u32) \<noteq> 0x3008 + of_nat w"
proof -
  from assms have w: "w \<in> set [0..<8]" by simp
  have "\<forall>w\<in>set [0..<8]. unat (SPR_DVR (of_nat w) - 0x3000) = w \<and> unat (SPR_DCR (of_nat w) - 0x3000) = 8 + w \<and>
    SPR_DVR (of_nat w) = 0x3000 + of_nat w \<and> SPR_DCR (of_nat w) = 0x3008 + of_nat w \<and>
    (0x3011 :: u32) \<noteq> 0x3000 + of_nat w \<and> (0x3011 :: u32) \<noteq> 0x3008 + of_nat w \<and>
    (0x3010 :: u32) \<noteq> 0x3000 + of_nat w \<and> (0x3010 :: u32) \<noteq> 0x3008 + of_nat w"
    by code_simp
  from bspec [OF this w]
  show "unat (SPR_DVR (of_nat w) - 0x3000) = w" "unat (SPR_DCR (of_nat w) - 0x3000) = 8 + w"
    "SPR_DVR (of_nat w) = 0x3000 + of_nat w" "SPR_DCR (of_nat w) = 0x3008 + of_nat w"
    "(0x3011 :: u32) \<noteq> 0x3000 + of_nat w" "(0x3011 :: u32) \<noteq> 0x3008 + of_nat w"
    "(0x3010 :: u32) \<noteq> 0x3000 + of_nat w" "(0x3010 :: u32) \<noteq> 0x3008 + of_nat w" by blast+
  show "SPR_DMR2 = 0x3011" "SPR_DMR1 = 0x3010" by code_simp+
qed

lemma enable_bit:
  assumes "w < 8"
  shows "(v OR push_bit 12 (push_bit w 1)) AND 0x3ff000 = set_bit (12 + w) (v AND (0x3ff000 :: u32))"
    "(v AND NOT (push_bit 12 (push_bit w 1))) AND 0x3ff000 = unset_bit (12 + w) (v AND (0x3ff000 :: u32))"
    "(v AND NOT (push_bit (2 * w) 3)) AND 0xcfffff = unset_bit (2 * w) (unset_bit (2 * w + 1) (v AND (0xcfffff :: u32)))"
proof -
  from assms have w: "w \<in> set [0..<8]" by simp
  have k: "\<forall>w\<in>set [0..<8]. bit (0x3ff000 :: u32) (12 + w)" by code_simp
  have b3: "bit (3 :: u32) i \<longleftrightarrow> i < 2" for i
  proof -
    have m: "(3 :: u32) = mask 2" by (simp add: mask_eq_exp_minus_1)
    show ?thesis unfolding m by (auto simp: bit_mask_iff)
  qed
  show "(v OR push_bit 12 (push_bit w 1)) AND 0x3ff000 = set_bit (12 + w) (v AND (0x3ff000 :: u32))"
    "(v AND NOT (push_bit 12 (push_bit w 1))) AND 0x3ff000 = unset_bit (12 + w) (v AND (0x3ff000 :: u32))"
    using bspec [OF k w] assms
    by (auto intro!: bit_word_eqI simp: bit_simps bit_1_iff simp del: bit_numeral_iff)
  show "(v AND NOT (push_bit (2 * w) 3)) AND 0xcfffff = unset_bit (2 * w) (unset_bit (2 * w + 1) (v AND (0xcfffff :: u32)))"
    by (rule bit_word_eqI) (use b3 in \<open>fastforce simp: bit_simps\<close>)
qed

lemma unit_reads:
  assumes "debug_unit p unit" "unit_register r"
  obtains v where "spr_read p r s = Some (APP_ERR_NONE, v, s)" "v AND unit_bits r = unit (hw s) r"
proof -
  from assms obtain v where "cpu0_read p r (hw s) = Some (APP_ERR_NONE, v, hw s)" "v AND unit_bits r = unit (hw s) r"
    unfolding debug_unit_def by blast
  then show ?thesis using that by (simp add: spr_read_def)
qed

lemma unit_writes:
  assumes "debug_unit p unit" "unit_register r"
  obtains h where "spr_write p r v s = Some (APP_ERR_NONE, s\<lparr>hw := h\<rparr>)" "unit h = (unit (hw s))(r := v AND unit_bits r)"
proof -
  from assms obtain h where "cpu0_write p r v (hw s) = Some (APP_ERR_NONE, h)" "unit h = (unit (hw s))(r := v AND unit_bits r)"
    unfolding debug_unit_def by blast
  then show ?thesis using that by (simp add: spr_write_def)
qed

lemma program_watchpoint_effect:
  assumes u: "debug_unit p unit" and w: "w < 8"
  obtains h where "program_watchpoint p w addr compare s = Some (s\<lparr>hw := h\<rparr>)"
    "unit h = armed w addr compare (unit (hw s))"
proof -
  note reg = watch_registers [OF w]
  have r: "unit_register (SPR_DVR (of_nat w))" "unit_register (SPR_DCR (of_nat w))"
    "unit_register SPR_DMR2" "unit_register SPR_DMR1"
    using reg(1,2) w by (simp_all add: unit_register_def reg(5,6))
  have b: "unit_bits (SPR_DVR (of_nat w)) = NOT 0" "unit_bits (SPR_DCR (of_nat w)) = 0xfe"
    "unit_bits SPR_DMR2 = 0x3ff000" "unit_bits SPR_DMR1 = 0xcfffff"
    using reg(1,2) w by (simp_all add: unit_bits_def Let_def reg(5,6))
  obtain h1 where s1: "spr_write p (SPR_DVR (of_nat w)) addr s = Some (APP_ERR_NONE, s\<lparr>hw := h1\<rparr>)"
      "unit h1 = (unit (hw s))(SPR_DVR (of_nat w) := addr AND unit_bits (SPR_DVR (of_nat w)))"
    by (rule unit_writes [OF u r(1)])
  obtain h2 where s2: "spr_write p (SPR_DCR (of_nat w)) compare (s\<lparr>hw := h1\<rparr>) = Some (APP_ERR_NONE, s\<lparr>hw := h2\<rparr>)"
      "unit h2 = (unit h1)(SPR_DCR (of_nat w) := compare AND unit_bits (SPR_DCR (of_nat w)))"
    by (rule unit_writes [OF u r(2), where s = "s\<lparr>hw := h1\<rparr>"]) simp
  obtain v3 where s3: "spr_read p SPR_DMR2 (s\<lparr>hw := h2\<rparr>) = Some (APP_ERR_NONE, v3, s\<lparr>hw := h2\<rparr>)"
      "v3 AND unit_bits SPR_DMR2 = unit h2 SPR_DMR2"
    by (rule unit_reads [OF u r(3), where s = "s\<lparr>hw := h2\<rparr>"]) simp
  obtain h4 where s4: "spr_write p SPR_DMR2 (v3 OR push_bit 12 (push_bit w 1)) (s\<lparr>hw := h2\<rparr>) = Some (APP_ERR_NONE, s\<lparr>hw := h4\<rparr>)"
      "unit h4 = (unit h2)(SPR_DMR2 := (v3 OR push_bit 12 (push_bit w 1)) AND unit_bits SPR_DMR2)"
    by (rule unit_writes [OF u r(3), where s = "s\<lparr>hw := h2\<rparr>"]) simp
  obtain v5 where s5: "spr_read p SPR_DMR1 (s\<lparr>hw := h4\<rparr>) = Some (APP_ERR_NONE, v5, s\<lparr>hw := h4\<rparr>)"
      "v5 AND unit_bits SPR_DMR1 = unit h4 SPR_DMR1"
    by (rule unit_reads [OF u r(4), where s = "s\<lparr>hw := h4\<rparr>"]) simp
  obtain h6 where s6: "spr_write p SPR_DMR1 (v5 AND NOT (push_bit (2 * w) 3)) (s\<lparr>hw := h4\<rparr>) = Some (APP_ERR_NONE, s\<lparr>hw := h6\<rparr>)"
      "unit h6 = (unit h4)(SPR_DMR1 := (v5 AND NOT (push_bit (2 * w) 3)) AND unit_bits SPR_DMR1)"
    by (rule unit_writes [OF u r(4), where s = "s\<lparr>hw := h4\<rparr>"]) simp
  have "program_watchpoint p w addr compare s = Some (s\<lparr>hw := h6\<rparr>)"
    by (simp add: program_watchpoint_def s1(1) s2(1) s3(1) s4(1) s5(1) s6(1) del: push_bit_of_1 push_bit_push_bit)
  moreover have "unit h6 = armed w addr compare (unit (hw s))"
    using reg(7-10) s3(2) s5(2)
    unfolding s6(2) s4(2) s2(2) s1(2) armed_def b enable_bit [OF w]
    unfolding reg(3-6) by simp
  ultimately show ?thesis using that by blast
qed

text \<open>The matchpoint types other than memory breakpoints, with GDB's numbers.\<close>

definition type_number :: "mp_type \<Rightarrow> nat" where
  "type_number type =
     (case type of BP_MEMORY \<Rightarrow> 0 | BP_HARDWARE \<Rightarrow> 1 | WP_WRITE \<Rightarrow> 2 | WP_READ \<Rightarrow> 3 | WP_ACCESS \<Rightarrow> 4)"

lemma type_numbers [simp]: "type_number type < 10" "mp_type_of (of_nat (type_number type)) = Some type"
  by (cases type; simp add: type_number_def mp_type_of_def)+

lemma type_number_cast [simp]: "ucast (of_nat (type_number type) :: u64) = (of_nat (type_number type) :: u32)"
  by (cases type; simp add: type_number_def)

lemma insert_hardware:
  assumes "client_sends (match_body CHR ''Z'' (type_number type) a) rest s" "\<not> target_running s"
    and "debug_unit p unit" "type \<noteq> BP_MEMORY" "length (hwp_in_use s) = HWP_MAX_WP"
    and "hwp_get_available_watchpoint (hwp_in_use s) = (int w, pool)"
  obtains h where "rsp_client_request p s =
      Some (replied ''OK'' rest ((requested (match_body CHR ''Z'' (type_number type) a) rest s)
        \<lparr>hwp_in_use := pool, mp_hash := mp_add (type, ucast a) (of_nat w) (mp_hash s), hw := h\<rparr>))"
    "unit h = armed w a (dcr_compare type) (unit (hw s))"
proof -
  let ?s = "requested (match_body CHR ''Z'' (type_number type) a) rest s"
  let ?s' = "?s\<lparr>hwp_in_use := pool, mp_hash := mp_add (type, ucast a) (of_nat w) (mp_hash s)\<rparr>"
  have w: "w < 8" using free_after_get [OF assms(5,6)] by (simp add: free_watchpoints_def HWP_MAX_WP_def)
  have d: "rsp_client_request p s = rsp_insert_matchpoint p ?s"
    using assms(1,2) by (simp add: match_body_def request_dispatched rsp_dispatch_def)
  have i: "rsp_insert_matchpoint p ?s = insert_watchpoint p type a ?s"
    unfolding rsp_insert_matchpoint_def using match_request [OF assms(1)] assms(4)
    by (cases type) (simp_all add: Let_def)
  obtain h where h: "program_watchpoint p w a (dcr_compare type) ?s' = Some (?s'\<lparr>hw := h\<rparr>)"
      "unit h = armed w a (dcr_compare type) (unit (hw ?s'))"
    by (rule program_watchpoint_effect [OF assms(3) w])
  have "rsp_client_request p s = Some (replied ''OK'' rest (?s'\<lparr>hw := h\<rparr>))"
    unfolding d i insert_watchpoint_def using assms(6) h(1) requested_awaits [OF assms(1)]
    by (simp add: put_str_reply GDB_BUF_MAX_def mp_add_lookup)
  then show ?thesis using h(2) that by simp
qed

lemma remove_hardware:
  assumes "client_sends (match_body CHR ''z'' (type_number type) a) rest s" "\<not> target_running s"
    and "debug_unit p unit" "type \<noteq> BP_MEMORY"
    and "fst (mp_delete (type, ucast a) (mp_hash s)) = Some (of_nat w)" "w < 8"
  obtains h where "rsp_client_request p s =
      Some (replied ''OK'' rest ((requested (match_body CHR ''z'' (type_number type) a) rest s)
        \<lparr>mp_hash := snd (mp_delete (type, ucast a) (mp_hash s)), hw := h,
         hwp_in_use := hwp_return_watchpoint (int w) (hwp_in_use s)\<rparr>))"
    "unit h = disarmed w (unit (hw s))"
proof -
  let ?s = "requested (match_body CHR ''z'' (type_number type) a) rest s"
  let ?t = "snd (mp_delete (type, ucast a) (mp_hash s))"
  have d: "rsp_client_request p s = rsp_remove_matchpoint p ?s"
    using assms(1,2) by (simp add: match_body_def request_dispatched rsp_dispatch_def)
  have i: "rsp_remove_matchpoint p ?s = remove_watchpoint p type a ?s"
    unfolding rsp_remove_matchpoint_def using match_request [OF assms(1)] assms(4)
    by (cases type) (simp_all add: Let_def)
  obtain e where e: "mp_hash_delete type (ucast a) (mp_hash s) = (Some e, ?t)" "mp_instr e = of_nat w"
    using assms(5) by (cases "mp_hash_delete type (ucast a) (mp_hash s)") (auto simp: mp_delete_def)
  have n: "ucast (of_nat w :: u64) = (of_nat w :: u32)" "unat (of_nat w :: u32) = w" "sint (of_nat w :: u32) = int w"
    using small_length [of w] assms(6) by (simp_all add: unat_of_nat)
  note reg = watch_registers [OF assms(6)]
  have r: "unit_register SPR_DMR2" "unit_register (SPR_DCR (of_nat w))"
    using reg(2) assms(6) by (simp_all add: unit_register_def reg(5))
  have b: "unit_bits (SPR_DCR (of_nat w)) = 0xfe" "unit_bits SPR_DMR2 = 0x3ff000"
    using reg(2) assms(6) by (simp_all add: unit_bits_def Let_def reg(5))
  let ?s0 = "?s\<lparr>mp_hash := ?t\<rparr>"
  obtain v where s1: "spr_read p SPR_DMR2 ?s0 = Some (APP_ERR_NONE, v, ?s0)"
      "v AND unit_bits SPR_DMR2 = unit (hw ?s0) SPR_DMR2"
    by (rule unit_reads [OF assms(3) r(1)])
  obtain h1 where s2: "spr_write p SPR_DMR2 (v AND NOT (push_bit 12 (push_bit w 1))) ?s0 = Some (APP_ERR_NONE, ?s0\<lparr>hw := h1\<rparr>)"
      "unit h1 = (unit (hw ?s0))(SPR_DMR2 := (v AND NOT (push_bit 12 (push_bit w 1))) AND unit_bits SPR_DMR2)"
    by (rule unit_writes [OF assms(3) r(1)])
  obtain h2 where s3: "spr_write p (SPR_DCR (of_nat w)) 1 (?s0\<lparr>hw := h1\<rparr>) = Some (APP_ERR_NONE, ?s0\<lparr>hw := h2\<rparr>)"
      "unit h2 = (unit h1)(SPR_DCR (of_nat w) := 1 AND unit_bits (SPR_DCR (of_nat w)))"
    by (rule unit_writes [OF assms(3) r(2), where s = "?s0\<lparr>hw := h1\<rparr>"]) simp
  have "rsp_client_request p s = Some (replied ''OK'' rest (?s0\<lparr>hw := h2, hwp_in_use := hwp_return_watchpoint (int w) (hwp_in_use s)\<rparr>))"
    unfolding d i remove_watchpoint_def using e s1(1) s2(1) s3(1) n requested_awaits [OF assms(1)]
    by (simp add: put_str_reply GDB_BUF_MAX_def del: push_bit_of_1 push_bit_push_bit)
  moreover have "unit h2 = disarmed w (unit (hw s))"
    using s1(2) unfolding s2(2) s3(2) disarmed_def b enable_bit [OF assms(6)]
    unfolding reg(4,5) by simp
  ultimately show ?thesis using that by simp
qed

lemma storing_unit: "debug_unit storing_target (\<lambda>h r. fst h r AND unit_bits r)"
  by (auto simp: debug_unit_def APP_ERR_NONE_def intro!: ext)

text \<open>
  C22. Life of a hardware breakpoint or watchpoint: an insertion packet takes the lowest free watchpoint,
  writes address and comparison (fetch, store, load or both) into its registers, enables it in \<^verbatim>\<open>DMR2\<close> and
  unchains it in \<^verbatim>\<open>DMR1\<close>, with every other watchpoint's registers and enable bit as they were; the removal
  packet disables it and gives it back, so that pool and table are as before.
\<close>

theorem watchpoint_life:
  assumes "writable (link s)" "\<not> target_running s"
    and "incoming (link s) = raw_frame (match_body CHR ''Z'' (type_number type) a) @ ''+'' @
           raw_frame (match_body CHR ''z'' (type_number type) a) @ ''+'' @ rest"
    and "debug_unit p unit" "type \<noteq> BP_MEMORY"
    and "length (hwp_in_use s) = HWP_MAX_WP" "free_watchpoints (hwp_in_use s) \<noteq> {}"
    and "mp_invar (mp_hash s)" "mp_lookup (mp_hash s) (type, ucast a) = None"
  shows "\<exists>s1 s2. let w = Min (free_watchpoints (hwp_in_use s)) in
    rsp_client_request p s = Some s1 \<and> rsp_client_request p s1 = Some s2 \<and>
    unit (hw s1) = armed w a (dcr_compare type) (unit (hw s)) \<and>
    free_watchpoints (hwp_in_use s1) = free_watchpoints (hwp_in_use s) - {w} \<and>
    mp_lookup (mp_hash s1) = (mp_lookup (mp_hash s))((type, ucast a) \<mapsto> of_nat w) \<and>
    unit (hw s2) = disarmed w (unit (hw s1)) \<and> hwp_in_use s2 = hwp_in_use s \<and>
    mp_lookup (mp_hash s2) = mp_lookup (mp_hash s) \<and>
    outgoing (link s2) = outgoing (link s) @ ''+'' @ frame_text ''OK'' @ ''+'' @ frame_text ''OK'' \<and>
    incoming (link s2) = rest"
proof -
  let ?Z = "match_body CHR ''Z'' (type_number type) a" and ?z = "match_body CHR ''z'' (type_number type) a"
  let ?k = "(type, ucast a :: u64)" and ?w = "Min (free_watchpoints (hwp_in_use s))"
  let ?r = "raw_frame ?z @ CHR ''+'' # rest"
  obtain pool where g: "hwp_get_available_watchpoint (hwp_in_use s) = (int ?w, pool)"
    using assms(7) by (simp add: get_watchpoint_spec Let_def)
  note f = free_after_get [OF assms(6) g]
  have w: "?w < 8" using f by (simp add: free_watchpoints_def HWP_MAX_WP_def)
  have plain: "d \<notin> set ?Z" if "d \<in> {CHR ''$'', CHR ''#''}" for d
    using match_body_plain [of "type_number type" "CHR ''Z''" d a] that by auto
  have c0: "client_sends ?Z ?r s"
    using assms(1,3) plain match_body_length by (simp add: client_sends_def)
  obtain h1 where s1: "rsp_client_request p s = Some (replied ''OK'' ?r ((requested ?Z ?r s)
      \<lparr>hwp_in_use := pool, mp_hash := mp_add ?k (of_nat ?w) (mp_hash s), hw := h1\<rparr>))" (is "_ = Some ?s1")
    and u1: "unit h1 = armed ?w a (dcr_compare type) (unit (hw s))"
    by (rule insert_hardware [OF c0 assms(2,4,5,6) g])
  have c1: "client_sends ?z rest ?s1"
    by (rule match_traffic_next [OF c0]) (simp_all add: replied_def requested_def)
  have t1: "\<not> target_running ?s1" "hw ?s1 = h1" "mp_hash ?s1 = mp_add ?k (of_nat ?w) (mp_hash s)" "hwp_in_use ?s1 = pool"
    using assms(2) by (simp_all add: replied_def)
  have found: "fst (mp_delete ?k (mp_hash ?s1)) = Some (of_nat ?w)"
    unfolding t1(3) by (rule mp.add_delete_new(1) [OF assms(8,9)])
  obtain h2 where s2: "rsp_client_request p ?s1 = Some (replied ''OK'' rest ((requested ?z rest ?s1)
      \<lparr>mp_hash := snd (mp_delete ?k (mp_hash ?s1)), hw := h2, hwp_in_use := hwp_return_watchpoint (int ?w) (hwp_in_use ?s1)\<rparr>))"
      (is "_ = Some ?s2")
    and u2: "unit h2 = disarmed ?w (unit (hw ?s1))"
    by (rule remove_hardware [OF c1 t1(1) assms(4,5) found w])
  have "mp_lookup (mp_hash ?s1) = (mp_lookup (mp_hash s))(?k \<mapsto> of_nat ?w)"
    unfolding t1(3) using mp.lookup_add [OF assms(8)] assms(9) by simp
  moreover have "mp_lookup (mp_hash ?s2) = mp_lookup (mp_hash s)"
    using mp.add_delete_new(2) [OF assms(8,9)] t1(3) by (simp add: replied_def)
  moreover have "hwp_in_use ?s2 = hwp_in_use s"
    using return_get [OF assms(6) g] t1(4) by (simp add: replied_def)
  moreover have "hw ?s2 = h2" "incoming (link ?s2) = rest"
    "outgoing (link ?s2) = outgoing (link s) @ ''+'' @ frame_text ''OK'' @ ''+'' @ frame_text ''OK''"
    by (simp_all add: replied_def requested_def)
  ultimately show ?thesis
    using s1 s2 u1 u2 f t1 by (intro exI [of _ ?s1] exI [of _ ?s2]) (simp add: Let_def)
qed

theorem watchpoint_life_witness:
  "\<exists>s1. let s = stopped_bridge (raw_frame (match_body CHR ''Z'' (type_number WP_WRITE) 0x2000) @ ''+'' @
        raw_frame (match_body CHR ''z'' (type_number WP_WRITE) 0x2000) @ ''+'') (\<lambda>_. 0, \<lambda>_. 0)
    in rsp_client_request storing_target s = Some s1 \<and> fst (hw s1) 0x3000 AND unit_bits 0x3000 = 0x2000 \<and>
       fst (hw s1) 0x3011 AND unit_bits 0x3011 = 0x1000 \<and> free_watchpoints (hwp_in_use s1) = {0..<8} - {0}"
proof -
  have f: "free_watchpoints (replicate 8 False) = {0..<8}" by (auto simp: free_watchpoints_def HWP_MAX_WP_def)
  have m: "Min {0..<8 :: nat} = 0" by (intro Min_eqI) auto
  have a: "armed 0 0x2000 0x63 (\<lambda>_. 0) 0x3000 = 0x2000" "armed 0 0x2000 0x63 (\<lambda>_. 0) 0x3011 = 0x1000" by code_simp+
  obtain s1 where "rsp_client_request storing_target (stopped_bridge (raw_frame (match_body CHR ''Z'' (type_number WP_WRITE) 0x2000) @ ''+'' @
        raw_frame (match_body CHR ''z'' (type_number WP_WRITE) 0x2000) @ ''+'') (\<lambda>_. 0, \<lambda>_. 0)) = Some s1"
    "(\<lambda>r. fst (hw s1) r AND unit_bits r) = armed 0 0x2000 0x63 (\<lambda>_. 0)"
    "free_watchpoints (hwp_in_use s1) = {0..<8} - {0}"
    using watchpoint_life [of "stopped_bridge (raw_frame (match_body CHR ''Z'' (type_number WP_WRITE) 0x2000) @ ''+'' @
        raw_frame (match_body CHR ''z'' (type_number WP_WRITE) 0x2000) @ ''+'') (\<lambda>_. 0, \<lambda>_. 0)" WP_WRITE "0x2000" "[]" storing_target
        "\<lambda>h r. fst h r AND unit_bits r"] storing_unit mp_invar_init
    by (auto simp: Let_def f m HWP_MAX_WP_def dcr_compare_def)
  then show ?thesis using a by (intro exI [of _ s1]) (simp add: Let_def fun_eq_iff)
qed

end
