(* ===== verification/Rsp_Invariant.thy ===== *)
theory Rsp_Invariant
  imports Rsp_Events Rsp_Packet_Spec
begin

text \<open>
  What holds of the RSP server whatever the client, the monitor and the operating system do: the
  matchpoint table and the watchpoint pool agree, and a running target is left alone.
\<close>

section \<open>Which handlers touch the matchpoints\<close>

definition points :: "'h bridge \<Rightarrow> mp_table \<times> bool list" where
  "points s = (mp_hash s, hwp_in_use s)"

lemma points_update [simp]:
  "points (s\<lparr>link := a\<rparr>) = points s" "points (s\<lparr>server_open := b\<rparr>) = points s"
  "points (s\<lparr>client_waiting := b\<rparr>) = points s" "points (s\<lparr>target_running := b\<rparr>) = points s"
  "points (s\<lparr>single_step_mode := b\<rparr>) = points s" "points (s\<lparr>sigval := n\<rparr>) = points s"
  "points (s\<lparr>use_cached_npc := b\<rparr>) = points s" "points (s\<lparr>cached_npc := v\<rparr>) = points s"
  "points (s\<lparr>pipe_open := b\<rparr>) = points s" "points (s\<lparr>monitor_cmds := t\<rparr>) = points s"
  "points (s\<lparr>rsp_data := d\<rparr>) = points s" "points (s\<lparr>rsp_len := n\<rparr>) = points s" "points (s\<lparr>hw := h\<rparr>) = points s"
  by (simp_all add: points_def)

text \<open>
  A small calculus for the handlers: \<^term>\<open>pred_option Q x\<close> says that \<open>x\<close>, if it returns, returns a state
  with \<open>Q\<close>. The rules \<open>kept\<close> follow the structure of a handler.
\<close>

named_theorems kept \<open>rules for operations that leave table and pool alone\<close>

abbreviation keeps :: "mp_table \<times> bool list \<Rightarrow> 'h bridge option \<Rightarrow> bool" where
  "keeps P x \<equiv> pred_option (\<lambda>s'. points s' = P) x"

lemma kept_control [kept]:
  "pred_option Q None"
  "Q s \<Longrightarrow> pred_option Q (Some s)"
  "(b \<Longrightarrow> pred_option Q x) \<Longrightarrow> (\<not> b \<Longrightarrow> pred_option Q y) \<Longrightarrow> pred_option Q (if b then x else y)"
  "pred_option Q x \<Longrightarrow> (\<And>a l. pred_option Q (f a l)) \<Longrightarrow> pred_option Q (case_list x f xs)"
  "(\<And>n. pred_option Q (g n)) \<Longrightarrow> (\<And>t. pred_option Q (h t)) \<Longrightarrow> pred_option Q (case_scanned g h v)"
  "pred_option Q x \<Longrightarrow> (\<And>a. pred_option Q (k a)) \<Longrightarrow> pred_option Q (case_option x k m)"
  "(\<And>a b. c = (a, b) \<Longrightarrow> pred_option Q (j a b)) \<Longrightarrow> pred_option Q (case_prod j c)"
  by (simp_all split: list.split scanned.split option.split prod.split)

lemma kept_bind:
  "pred_option R x \<Longrightarrow> (\<And>a. R a \<Longrightarrow> pred_option Q (f a)) \<Longrightarrow> pred_option Q (x \<bind> f)"
  by (cases x) auto

lemma kept_hardware [kept]:
  "(\<And>a. pred_option Q (f a)) \<Longrightarrow> pred_option Q (cpu0_read p r h \<bind> f)"
  "(\<And>a. pred_option Q (f2 a)) \<Longrightarrow> pred_option Q (cpu0_write p r d h \<bind> f2)"
  "(\<And>a. pred_option Q (f3 a)) \<Longrightarrow> pred_option Q (cpu0_read_block p r n h \<bind> f3)"
  "(\<And>a. pred_option Q (f2 a)) \<Longrightarrow> pred_option Q (cpu0_write_block p r ds h \<bind> f2)"
  "(\<And>a. pred_option Q (f4 a)) \<Longrightarrow> pred_option Q (wb_read_block8 p r i h \<bind> f4)"
  "(\<And>a. pred_option Q (f2 a)) \<Longrightarrow> pred_option Q (wb_write_block8 p r bs i h \<bind> f2)"
  "(\<And>a. pred_option Q (f3 a)) \<Longrightarrow> pred_option Q (wb_read_block32 p r i h \<bind> f3)"
  "(\<And>a. pred_option Q (f2 a)) \<Longrightarrow> pred_option Q (wb_write_block32 p r ds i h \<bind> f2)"
  "(\<And>a. pred_option Q (f5 a)) \<Longrightarrow> pred_option Q (c_memchr n bf k ch \<bind> f5)"
  by (auto intro: kept_bind [where R = "\<lambda>_. True"] simp: option.pred_True)

lemma kept_spr [kept]:
  "(\<And>e v s'. points s' = points s \<Longrightarrow> pred_option Q (f (e, v, s'))) \<Longrightarrow> pred_option Q (spr_read p r s \<bind> f)"
  "(\<And>e s'. points s' = points s \<Longrightarrow> pred_option Q (g (e, s'))) \<Longrightarrow> pred_option Q (spr_write p r d s \<bind> g)"
  by (auto simp: spr_read_def spr_write_def intro!: kept)

lemma stall_points [simp]: "points (set_stall_state b s) = points s"
  by (simp add: set_stall_state_def Let_def)

lemma exception_points [simp]: "points (rsp_exception e s) = points s"
  by (simp add: rsp_exception_def split: option.splits)

lemma close_points: "keeps (points s) (rsp_client_close p s)"
  by (auto simp: rsp_client_close_def Let_def intro!: kept)

lemma with_link_points: "pred_option (\<lambda>r. points (snd r) = points s) (with_link p f s)"
  unfolding with_link_def Let_def
  by (auto intro!: kept kept_bind [OF close_points])

lemma put_points: "keeps (points s) (rsp_put_packet p t s)"
  unfolding rsp_put_packet_def by (rule kept_bind [OF with_link_points]) (auto intro!: kept)

lemma put_str_points: "keeps (points s) (put_str_packet p t s)"
  by (simp add: put_str_packet_def put_points)

lemma reply_points: "keeps (points s) (reply_in_buffer p t s)"
  using put_points [where s = "s\<lparr>rsp_data := put_string t (rsp_data s), rsp_len := length t\<rparr>"]
  by (simp add: reply_in_buffer_def)

lemma get_points: "pred_option (\<lambda>r. points (snd r) = points s) (rsp_get_packet p s)"
  unfolding rsp_get_packet_def by (rule kept_bind [OF with_link_points]) (auto intro!: kept)

text \<open>An operation as the last step, or followed by others.\<close>

lemma keeps_steps:
  assumes "\<And>s. keeps (points s) (op s)"
  shows "points s = P \<Longrightarrow> keeps P (op s)"
    and "(\<And>s'. points s' = points s \<Longrightarrow> pred_option Q (f s')) \<Longrightarrow> pred_option Q (op s \<bind> f)"
  using assms [of s] by (auto intro: kept_bind)

lemmas close_kept [kept] = keeps_steps [where op = "rsp_client_close p" for p, OF close_points]
lemmas put_kept [kept] = keeps_steps [where op = "rsp_put_packet p t" for p t, OF put_points]
lemmas put_str_kept [kept] = keeps_steps [where op = "put_str_packet p t" for p t, OF put_str_points]
lemmas reply_kept [kept] = keeps_steps [where op = "reply_in_buffer p t" for p t, OF reply_points]

lemma set_npc_kept [kept]:
  "(\<And>e s'. points s' = points s \<Longrightarrow> pred_option Q (g (e, s'))) \<Longrightarrow> pred_option Q (set_npc p a s \<bind> g)"
proof -
  assume g: "\<And>e s'. points s' = points s \<Longrightarrow> pred_option Q (g (e, s'))"
  have "pred_option (\<lambda>r. points (snd r) = points s) (set_npc p a s)"
    by (auto simp: set_npc_def intro!: kept)
  then show ?thesis by (rule kept_bind) (use g in force)
qed

lemma clear_points: "keeps (points s) (clear_watchpoint_status p s)"
  by (auto simp: clear_watchpoint_status_def intro!: kept)

lemmas clear_kept [kept] = keeps_steps [where op = "clear_watchpoint_status p" for p, OF clear_points]

lemma continue_generic_points: "keeps (points s) (rsp_continue_generic p s)"
  by (auto simp: rsp_continue_generic_def Let_def intro!: kept)

lemma step_generic_points: "keeps (points s) (rsp_step_generic p s)"
  by (auto simp: rsp_step_generic_def Let_def intro!: kept kept_bind [where R = "\<lambda>s'. points s' = points s"])

lemmas continue_generic_kept [kept] = keeps_steps [where op = "rsp_continue_generic p" for p, OF continue_generic_points]

lemmas step_generic_kept [kept] = keeps_steps [where op = "rsp_step_generic p" for p, OF step_generic_points]

lemma restart_points: "keeps (points s) (rsp_restart p s)"
  by (auto simp: rsp_restart_def intro!: kept)

lemmas restart_kept [kept] = keeps_steps [where op = "rsp_restart p" for p, OF restart_points]

lemma run_points:
  "keeps (points s) (rsp_continue p s)" "keeps (points s) (rsp_step p s)" "keeps (points s) (rsp_step_with_signal p s)"
  by (auto simp: rsp_continue_def rsp_step_def rsp_step_with_signal_def simp del: sscanf.simps intro!: kept)

lemma register_points:
  "keeps (points s) (rsp_read_reg p s)" "keeps (points s) (rsp_write_reg p s)"
  "keeps (points s) (rsp_read_all_regs p s)" "keeps (points s) (rsp_write_all_regs p s)"
  by (auto simp: rsp_read_reg_def rsp_write_reg_def rsp_read_all_regs_def rsp_write_all_regs_def Let_def
      simp del: sscanf.simps intro!: kept)

lemma memory_points:
  "keeps (points s) (rsp_read_mem p s)" "keeps (points s) (rsp_write_mem p s)" "keeps (points s) (rsp_write_mem_bin p s)"
  by (auto simp: rsp_read_mem_def rsp_write_mem_def rsp_write_mem_bin_def Let_def simp del: sscanf.simps intro!: kept)

lemma query_points:
  "keeps (points s) (rsp_command p s)"
  by (auto simp: rsp_command_def Let_def simp del: sscanf.simps intro!: kept)

lemmas command_kept [kept] = keeps_steps [where op = "rsp_command p" for p, OF query_points]

lemma packet_points:
  "keeps (points s) (rsp_query p s)" "keeps (points s) (rsp_set p s)" "keeps (points s) (rsp_vpkt p s)"
  unfolding rsp_query_def rsp_set_def rsp_vpkt_def Let_def by (intro kept refl; assumption)+

lemma small_cast:
  fixes v :: u64
  assumes "unat v < 8"
  shows "sint (ucast v :: u32) = int (unat v)"
proof -
  have "v = of_nat (unat v)" by simp
  moreover have "unat v \<in> set [0..<8]" using assms by simp
  moreover have "\<forall>n\<in>set [0..<8]. sint (ucast (of_nat n :: u64) :: u32) = int n" by code_simp
  ultimately show ?thesis by metis
qed

section \<open>Table and pool agree\<close>

text \<open>
  Every hardware matchpoint in the table owns a watchpoint that is marked in use, and no two own the same.
\<close>

definition owns :: "mp_table \<Rightarrow> mp_type \<times> u64 \<Rightarrow> u64 \<Rightarrow> bool" where
  "owns t k v \<longleftrightarrow> fst k \<noteq> BP_MEMORY \<and> mp_lookup t k = Some v"

definition points_ok :: "mp_table \<times> bool list \<Rightarrow> bool" where
  "points_ok P \<longleftrightarrow>
     (case P of (t, pool) \<Rightarrow>
        length pool = HWP_MAX_WP \<and> mp_invar t \<and>
        (\<forall>k v. owns t k v \<longrightarrow> unat v < HWP_MAX_WP \<and> pool ! unat v) \<and>
        (\<forall>k k' v. owns t k v \<longrightarrow> owns t k' v \<longrightarrow> k = k'))"

abbreviation keeps_ok :: "'h bridge option \<Rightarrow> bool" where
  "keeps_ok x \<equiv> pred_option (\<lambda>s'. points_ok (points s')) x"

lemma keeps_ok: "points_ok (points s) \<Longrightarrow> keeps (points s) x \<Longrightarrow> keeps_ok x"
  by (rule option.pred_mono_strong) auto

lemma ok_add_memory: "points_ok (t, pool) \<Longrightarrow> points_ok (mp_hash_add BP_MEMORY a v t, pool)"
proof -
  assume ok: "points_ok (t, pool)"
  then have i: "mp_invar t" by (simp add: points_ok_def)
  have "owns (mp_hash_add BP_MEMORY a v t) k w = owns t k w" for k w
    using mp.lookup_add [OF i, of "(BP_MEMORY, a)" v] by (auto simp: owns_def mp_add_def)
  moreover have "mp_invar (mp_hash_add BP_MEMORY a v t)"
    using mp.invar_add [OF i, of "(BP_MEMORY, a)" v] by (simp add: mp_add_def)
  ultimately show ?thesis using ok by (simp add: points_ok_def)
qed

lemma ok_add_hardware:
  assumes ok: "points_ok (t, pool)" and g: "hwp_get_available_watchpoint pool = (j, pool')"
  shows "points_ok (if j = - 1 then t else mp_hash_add type a (of_int j) t, pool')"
proof (cases "free_watchpoints pool = {}")
  case True
  then show ?thesis using ok g by (simp add: get_watchpoint_spec)
next
  case False
  let ?n = "Min (free_watchpoints pool)"
  have j: "j = int ?n" "pool' = pool[?n := True]"
    using g False by (simp_all add: get_watchpoint_spec Let_def)
  have i: "mp_invar t" and l: "length pool = HWP_MAX_WP" using ok by (simp_all add: points_ok_def)
  have n: "?n < HWP_MAX_WP" "\<not> pool ! ?n"
    using Min_in [of "free_watchpoints pool"] False by (simp_all add: free_watchpoints_def)
  then have u: "unat (of_int j :: u64) = ?n" by (simp add: j HWP_MAX_WP_def unat_of_nat)
  have old: "unat v \<noteq> ?n \<and> unat v < HWP_MAX_WP \<and> pool ! unat v" if "owns t k v" for k v
    using ok that n unfolding points_ok_def prod.case by metis
  have o: "owns (mp_hash_add type a (of_int j) t) k v \<longleftrightarrow>
      owns t k v \<or> (k = (type, a) \<and> v = of_int j \<and> type \<noteq> BP_MEMORY \<and> mp_lookup t (type, a) = None)" for k v
    using mp.lookup_add [OF i, of "(type, a)" "of_int j"] by (auto simp: owns_def mp_add_def split: if_splits)
  have "mp_invar (mp_hash_add type a (of_int j) t)"
    using mp.invar_add [OF i, of "(type, a)" "of_int j"] by (simp add: mp_add_def)
  then show ?thesis
    using ok old u n l by (auto simp: points_ok_def j(2) o nth_list_update)
qed

lemma ok_delete:
  assumes ok: "points_ok (t, pool)" and d: "mp_hash_delete type a t = (found, t')"
  shows "points_ok (t', pool)"
    and "found = Some e \<Longrightarrow> type \<noteq> BP_MEMORY \<Longrightarrow>
      points_ok (t', hwp_return_watchpoint (sint (ucast (mp_instr e) :: u32)) pool)"
proof -
  have i: "mp_invar t" and l: "length pool = HWP_MAX_WP" using ok by (simp_all add: points_ok_def)
  have t': "t' = snd (mp_delete (type, a) t)" and f: "map_option mp_instr found = mp_lookup t (type, a)"
    using d mp.deleted [OF i, of "(type, a)"] by (simp_all add: mp_delete_def)
  have i': "mp_invar t'" unfolding t' by (rule mp.invar_delete [OF i])
  have o: "owns t' k v \<longleftrightarrow> owns t k v \<and> k \<noteq> (type, a)" for k v
    unfolding owns_def t' mp.lookup_delete [OF i] by auto
  show "points_ok (t', pool)"
    using ok i' by (auto simp: points_ok_def o)
  assume e: "found = Some e" "type \<noteq> BP_MEMORY"
  then have own: "owns t (type, a) (mp_instr e)" using f by (simp add: owns_def)
  then have v: "unat (mp_instr e) < HWP_MAX_WP" "pool ! unat (mp_instr e)" using ok by (auto simp: points_ok_def)
  then have s: "sint (ucast (mp_instr e) :: u32) = int (unat (mp_instr e))"
    by (intro small_cast) (simp add: HWP_MAX_WP_def)
  have "\<not> int (unat (mp_instr e)) \<ge> int HWP_MAX_WP" using v(1) by linarith
  then have p: "hwp_return_watchpoint (sint (ucast (mp_instr e) :: u32)) pool = pool[unat (mp_instr e) := False]"
    unfolding hwp_return_watchpoint_def s nat_int using v(2) by (simp only: if_True if_False)
  have ne: "unat v \<noteq> unat (mp_instr e)" if "owns t' k v" for k v
    using that own ok o [of k v] unfolding points_ok_def prod.case word_unat_eq_iff [symmetric] by metis
  have "unat v < HWP_MAX_WP \<and> pool[unat (mp_instr e) := False] ! unat v" if "owns t' k v" for k v
    using ok o [of k v] ne [OF that] that unfolding points_ok_def prod.case by (metis nth_list_update_neq)
  then show "points_ok (t', hwp_return_watchpoint (sint (ucast (mp_instr e) :: u32)) pool)"
    unfolding p using ok i' l o unfolding points_ok_def prod.case by (metis length_list_update)
qed

lemma insert_watchpoint_ok:
  assumes "points_ok (points s)"
  shows "keeps_ok (insert_watchpoint p type a s)"
proof -
  obtain j pool where g: "hwp_get_available_watchpoint (hwp_in_use s) = (j, pool)" by fastforce
  have ok: "points_ok (if j = - 1 then mp_hash s else mp_hash_add type (ucast a) (of_int j) (mp_hash s), pool)"
    using ok_add_hardware [OF _ g] assms by (simp add: points_def)
  let ?s = "s\<lparr>hwp_in_use := pool\<rparr>"
  show ?thesis
  proof (cases "j = - 1")
    case True
    have "keeps (points ?s) (put_str_packet p [] ?s)" by (rule put_str_points)
    then show ?thesis
      using ok True keeps_ok [of ?s "put_str_packet p [] ?s"] by (simp add: insert_watchpoint_def g points_def)
  next
    case False
    let ?s' = "?s\<lparr>mp_hash := mp_hash_add type (ucast a) (of_int j) (mp_hash s)\<rparr>"
    have "keeps (points ?s') (program_watchpoint p (nat j) a (dcr_compare type) ?s' \<bind> put_str_packet p ''OK'')"
      by (auto simp: program_watchpoint_def intro!: kept)
    then show ?thesis
      using ok False keeps_ok [of ?s' "program_watchpoint p (nat j) a (dcr_compare type) ?s' \<bind> put_str_packet p ''OK''"]
      by (simp add: insert_watchpoint_def g points_def)
  qed
qed

lemma remove_watchpoint_ok:
  assumes "points_ok (points s)" "type \<noteq> BP_MEMORY"
  shows "keeps_ok (remove_watchpoint p type a s)"
proof -
  obtain f t where d: "mp_hash_delete type (ucast a) (mp_hash s) = (f, t)" by fastforce
  note ok = ok_delete [OF assms(1) [unfolded points_def] d]
  let ?s = "s\<lparr>mp_hash := t\<rparr>"
  show ?thesis
  proof (cases f)
    case None
    have "keeps (points ?s) (put_str_packet p ''OK'' ?s)" by (rule put_str_points)
    then show ?thesis
      using ok(1) None keeps_ok [of ?s "put_str_packet p ''OK'' ?s"] by (simp add: remove_watchpoint_def d points_def)
  next
    case (Some e)
    let ?pool = "hwp_return_watchpoint (sint (ucast (mp_instr e) :: u32)) (hwp_in_use s)"
    have "keeps (t, ?pool) (remove_watchpoint p type a s)"
      by (auto simp: remove_watchpoint_def d Some Let_def intro!: kept) (simp add: points_def)
    then show ?thesis
      by (rule option.pred_mono_strong) (use ok(2) [OF Some assms(2)] in simp)
  qed
qed

lemma matchpoint_requests_ok:
  assumes "points_ok (points s)"
  shows "keeps_ok (rsp_insert_matchpoint p s)" "keeps_ok (rsp_remove_matchpoint p s)"
proof -
  have e: "keeps_ok (put_str_packet p t s)" for t
    by (rule keeps_ok [OF assms put_str_points])
  have m: "keeps_ok (put_str_packet p t (s\<lparr>mp_hash := mp_hash_add BP_MEMORY a v (mp_hash s), hw := h\<rparr>))" for t a v h
    by (rule keeps_ok [OF _ put_str_points]) (use ok_add_memory assms in \<open>simp add: points_def\<close>)
  have i: "keeps_ok (insert_watchpoint p type a s)" for type a
    by (rule insert_watchpoint_ok [OF assms])
  have m: "keeps_ok (rsp_insert_matchpoint p s)"
    unfolding rsp_insert_matchpoint_def Let_def
    by (auto split: list.split scanned.split option.split mp_type.split simp del: sscanf.simps intro!: e m i kept)
  then show "keeps_ok (rsp_insert_matchpoint p s)" .
  have d: "keeps_ok (put_str_packet p t (s\<lparr>mp_hash := tbl, hw := h\<rparr>))" "keeps_ok (put_str_packet p t (s\<lparr>mp_hash := tbl\<rparr>))"
    if "mp_hash_delete BP_MEMORY a (mp_hash s) = (f, tbl)" for t a f tbl h
    by (rule keeps_ok [OF _ put_str_points]; use ok_delete(1) [OF _ that] assms in \<open>simp add: points_def\<close>)+
  have r: "keeps_ok (remove_watchpoint p type a s)" if "type \<noteq> BP_MEMORY" for type a
    by (rule remove_watchpoint_ok [OF assms that])
  show "keeps_ok (rsp_remove_matchpoint p s)"
    unfolding rsp_remove_matchpoint_def Let_def
    by (auto split: list.split scanned.split option.split mp_type.split prod.split simp del: sscanf.simps intro!: e d r kept)
qed

lemma report_points: "keeps (points s) (rsp_report_exception p s)"
  by (simp add: rsp_report_exception_def put_points)

lemmas report_kept [kept] = keeps_steps [where op = "rsp_report_exception p" for p, OF report_points]

lemma dispatch_ok:
  assumes "points_ok (points s)"
  shows "keeps_ok (rsp_dispatch p c s)"
proof -
  have k: "keeps_ok x" if "keeps (points s) x" for x
    by (rule keeps_ok [OF assms that])
  have "keeps (points s) (do { s \<leftarrow> put_str_packet p ''OK'' s; s \<leftarrow> rsp_client_close p s; Some (set_stall_state False s) })"
    "keeps (points s) (Some s)" "keeps (points s) (Some (rsp_continue_with_signal s))"
    by (auto simp: rsp_continue_with_signal_def intro!: kept)
  note l = this [THEN k] put_str_points [THEN k] report_points [THEN k] run_points [THEN k] register_points [THEN k]
    memory_points [THEN k] packet_points [THEN k] restart_points [THEN k] matchpoint_requests_ok [OF assms]
  show ?thesis
    unfolding rsp_dispatch_def by (intro kept_control(3) l)
qed

lemma client_request_ok:
  assumes "points_ok (points s)"
  shows "keeps_ok (rsp_client_request p s)"
  unfolding rsp_client_request_def
proof (rule kept_bind [OF get_points])
  fix r :: "nat option \<times> 'a bridge"
  assume r: "points (snd r) = points s"
  then have ok: "points_ok (points (snd r))" using assms by simp
  have "keeps_ok (rsp_client_close p (snd r))" "keeps_ok (Some (set_stall_state True (snd r)))"
    "keeps_ok (put_str_packet p t (snd r))" for t
    using ok by (auto intro: keeps_ok [OF ok close_points] keeps_ok [OF ok put_str_points])
  then show "keeps_ok (case r of (len, s) \<Rightarrow> case len of None \<Rightarrow> rsp_client_close p s
      | Some _ \<Rightarrow> if target_running s then if rsp_data s 0 = CHR 0x03 then Some (set_stall_state True s)
          else put_str_packet p not_stopped s else rsp_dispatch p (rsp_data s 0) s)"
    using dispatch_ok [OF ok] by (auto split: prod.split option.split)
qed

lemma server_request_points: "keeps (points s) (rsp_server_request p acc registered s)"
  unfolding rsp_server_request_def
  by (cases acc) (auto simp: Let_def rsp_server_close_def intro!: kept)

lemma close_all_points: "keeps (points s) (rsp_close_all p s)"
  by (auto simp: rsp_close_all_def rsp_server_close_def intro!: kept)

lemma reset_npc_points: "keeps (points s) (reset_npc_after_trap p v s)"
  unfolding reset_npc_after_trap_def by (auto intro!: kept)

lemmas reset_npc_kept [kept] = keeps_steps [where op = "reset_npc_after_trap p v" for p v, OF reset_npc_points]

lemma monitor_points: "keeps (points s) (monitor_event p c s)"
  unfolding monitor_event_def target_stopped_def Let_def by (auto intro!: kept)

lemma await_points: "pred_option (\<lambda>r. points (snd r) = points s) (await_client p polls s)"
proof (induction polls arbitrary: s)
  case Nil
  show ?case by (simp add: await_client.simps [of p "[]" s])
next
  case (Cons ev polls)
  have c: "pred_option (\<lambda>r. points (snd r) = points s) (rsp_close_all p s \<bind> (\<lambda>s. Some (False, s)))"
    by (rule kept_bind [OF close_all_points]) simp
  have i: "pred_option (\<lambda>r. points (snd r) = points s)
      (rsp_server_request p acc registered s \<bind> (\<lambda>s. await_client p polls (s\<lparr>client_waiting := False\<rparr>)))" for acc registered
  proof (rule kept_bind [OF server_request_points])
    fix s' :: "'a bridge" assume "points s' = points s"
    then show "pred_option (\<lambda>r. points (snd r) = points s) (await_client p polls (s'\<lparr>client_waiting := False\<rparr>))"
      using Cons.IH [of "s'\<lparr>client_waiting := False\<rparr>"] by simp
  qed
  show ?case
    by (cases ev) (simp_all add: await_client.simps [of p "ev # polls" s] await_client.simps [of p "_ # polls" s] c i Cons.IH)
qed

lemma client_event_ok: "points_ok (points s) \<Longrightarrow> pred_option (\<lambda>r. points_ok (points (snd r))) (client_event p ev s)"
proof -
  assume ok: "points_ok (points s)"
  have b: "pred_option (\<lambda>r. points_ok (points (snd r))) (x \<bind> (\<lambda>s. Some (b, s)))" if "keeps_ok x" for x :: "'a bridge option" and b
    by (rule kept_bind [OF that]) simp
  show ?thesis
    using b [OF keeps_ok [OF ok close_all_points]] b [OF keeps_ok [OF ok close_points]]
      b [OF client_request_ok [OF ok]] b [OF keeps_ok [OF ok monitor_points]] ok
    by (cases ev) (simp_all add: client_event_def)
qed

lemma handle_rsp_ok:
  assumes "points_ok (points s)"
  shows "pred_option (\<lambda>r. points_ok (points (snd r))) (handle_rsp p polls ev s)"
proof (cases "server_open s")
  case True
  have "pred_option (\<lambda>r. points_ok (points (snd r)))
      (await_client p polls s \<bind> (\<lambda>(c, s). if c then client_event p ev s else Some (False, s)))"
  proof (rule kept_bind [OF await_points])
    fix r :: "bool \<times> 'a bridge"
    assume "points (snd r) = points s"
    then have "points_ok (points (snd r))" using assms by simp
    then show "pred_option (\<lambda>r. points_ok (points (snd r)))
        (case r of (c, s) \<Rightarrow> if c then client_event p ev s else Some (False, s))"
      using client_event_ok [of "snd r" p ev] by (auto split: prod.split)
  qed
  then show ?thesis using True by (simp add: handle_rsp_def)
qed (use assms in \<open>simp add: handle_rsp_def\<close>)

text \<open>The states of a running server: initialised, then any number of calls of \<^verbatim>\<open>handle_rsp\<close>.\<close>

inductive rsp_reaches :: "'h debug_port \<Rightarrow> 'h bridge \<Rightarrow> 'h bridge \<Rightarrow> bool" for p s0 where
  start: "rsp_reaches p s0 (rsp_init set_up s0)"
| step: "rsp_reaches p s0 s \<Longrightarrow> handle_rsp p polls ev s = Some (again, s') \<Longrightarrow> rsp_reaches p s0 s'"

lemma init_ok: "length (hwp_in_use s) = HWP_MAX_WP \<Longrightarrow> points_ok (points (rsp_init set_up s))"
  by (simp add: points_ok_def points_def rsp_init_def owns_def mp_invar_init)

lemma reached_ok: "rsp_reaches p s0 s \<Longrightarrow> length (hwp_in_use s0) = HWP_MAX_WP \<Longrightarrow> points_ok (points s)"
proof (induction rule: rsp_reaches.induct)
  case start
  then show ?case by (rule init_ok)
next
  case (step s polls ev again s')
  then show ?case using handle_rsp_ok [of s p polls ev] by simp
qed

end
