(* ===== verification/Rsp_Run_Spec.thy ===== *)
theory Rsp_Run_Spec
  imports Rsp_Break_Spec Rsp_Invariant
begin

unbundle bit_operations_syntax

text \<open>
  Running and stopping through the RSP server, and the properties of its reachable states.
\<close>

section \<open>Reachable states\<close>

text \<open>
  C5. Matchpoint table and watchpoint pool agree in every state the server reaches, whatever the client
  sends, the monitor reports and the debug operations return: the pool has eight flags, the hash table is
  well formed, every hardware matchpoint it holds owns a watchpoint that is marked in use, and no
  two matchpoints own the same one.
\<close>

theorem matchpoints_consistent:
  assumes "rsp_reaches p s0 s" "length (hwp_in_use s0) = HWP_MAX_WP"
  shows "length (hwp_in_use s) = HWP_MAX_WP \<and> mp_invar (mp_hash s) \<and>
    (\<forall>k v. fst k \<noteq> BP_MEMORY \<longrightarrow> mp_lookup (mp_hash s) k = Some v \<longrightarrow>
       unat v < HWP_MAX_WP \<and> hwp_in_use s ! unat v \<and>
       (\<forall>k'. fst k' \<noteq> BP_MEMORY \<longrightarrow> mp_lookup (mp_hash s) k' = Some v \<longrightarrow> k' = k))"
  using reached_ok [OF assms] unfolding points_ok_def points_def prod.case owns_def by metis

theorem matchpoints_consistent_witness:
  "let s = rsp_init True (stopped_bridge [] (\<lambda>_. 0, \<lambda>_. 0))
   in rsp_reaches storing_target (stopped_bridge [] (\<lambda>_. 0, \<lambda>_. 0)) s \<and> length (hwp_in_use s) = 8 \<and> mp_invar (mp_hash s)"
proof -
  let ?s0 = "stopped_bridge [] (\<lambda>_. 0, \<lambda>_. 0) :: ((u32 \<Rightarrow> u32) \<times> (u32 \<Rightarrow> u8)) bridge"
  have "length (hwp_in_use ?s0) = HWP_MAX_WP" by (simp add: HWP_MAX_WP_def)
  then show ?thesis
    using matchpoints_consistent [OF rsp_reaches.start [of storing_target ?s0]] rsp_reaches.start [of storing_target ?s0]
    unfolding Let_def HWP_MAX_WP_def by blast
qed

section \<open>A running target\<close>

lemma client_close_closes: "rsp_client_close p s = Some s' \<Longrightarrow> \<not> link_open (link s')"
  by (auto simp: rsp_client_close_def Let_def Option.bind_eq_Some_conv split: if_splits)

lemma with_link_open:
  "with_link p f s = Some (r, s') \<Longrightarrow> link_open (link s') \<Longrightarrow> r = fst (f (link s)) \<and> s' = s\<lparr>link := snd (f (link s))\<rparr>"
  by (auto simp: with_link_def Let_def Option.bind_eq_Some_conv dest: client_close_closes split: prod.splits if_splits)

lemma with_link_running:
  "with_link p f s = Some (r, s') \<Longrightarrow> target_running s' = target_running s"
  by (auto simp: with_link_def rsp_client_close_def set_stall_state_def spr_write_def Let_def
      Option.bind_eq_Some_conv split: prod.splits if_splits)

lemma put_str_open:
  "put_str_packet p t s = Some s' \<Longrightarrow> link_open (link s') \<Longrightarrow> \<exists>l. s' = s\<lparr>link := l\<rparr>"
  by (auto simp: put_str_packet_def rsp_put_packet_def Option.bind_eq_Some_conv dest: with_link_open)

lemma closed_putc: "\<not> link_open l \<Longrightarrow> link_putc c l = l"
  by (simp add: link_putc_def)

lemma closed_put_body: "\<not> link_open l \<Longrightarrow> snd (put_body k t l) = l"
  by (induction t arbitrary: k) (auto simp: Let_def closed_putc)

lemma closed_put_packet: "\<not> link_open l \<Longrightarrow> put_packet t l = l"
  using closed_put_body [of l 0 t]
  by (subst put_packet.simps) (auto simp: Let_def put_frame_def closed_putc link_getc_def split: prod.splits)

lemma closed_put_str: "\<not> link_open (link s) \<Longrightarrow> put_str_packet p t s = Some s' \<Longrightarrow> \<not> link_open (link s')"
  by (auto simp: put_str_packet_def rsp_put_packet_def with_link_def Option.bind_eq_Some_conv closed_put_packet)

text \<open>
  C8. A running target is left alone: whatever packet arrives while the target runs, as long as the
  connection stays open the request reads and writes nothing in the target, sets and removes no
  matchpoint, and starts nothing; the break alone has an effect, one stall command to the monitor.
\<close>

theorem running_target_protected:
  assumes "target_running s" "rsp_client_request p s = Some s'" "link_open (link s')"
  shows "hw s' = hw s \<and> mp_hash s' = mp_hash s \<and> hwp_in_use s' = hwp_in_use s \<and> target_running s' \<and>
    cached_npc s' = cached_npc s \<and> use_cached_npc s' = use_cached_npc s \<and> pipe_open s' = pipe_open s \<and>
    monitor_cmds s' = monitor_cmds s @ (if rsp_data s' 0 = CHR 0x03 \<and> pipe_open s then ''S'' else [])"
proof -
  from assms(2) obtain n m where g: "rsp_get_packet p s = Some (n, m)"
    and r: "(case n of None \<Rightarrow> rsp_client_close p m
      | Some _ \<Rightarrow> if target_running m then if rsp_data m 0 = CHR 0x03 then Some (set_stall_state True m)
          else put_str_packet p not_stopped m else rsp_dispatch p (rsp_data m 0) m) = Some s'"
    by (auto simp: rsp_client_request_def Option.bind_eq_Some_conv)
  from g obtain r0 m0 where w: "with_link p (\<lambda>l. case get_packet GDB_BUF_MAX True (rsp_data s) l of (len, buf, l) \<Rightarrow> ((len, buf), l)) s = Some (r0, m0)"
    and m: "n = fst r0" "m = m0\<lparr>rsp_data := snd r0, rsp_len := (case fst r0 of Some n \<Rightarrow> n | None \<Rightarrow> rsp_len m0)\<rparr>"
    by (auto simp: rsp_get_packet_def Option.bind_eq_Some_conv)
  have n: "n \<noteq> None" using r assms(3) client_close_closes by (cases n) auto
  show ?thesis
  proof (cases "link_open (link m0)")
    case True
    have m0: "m0 = s\<lparr>link := link m0\<rparr>" using with_link_open [OF w True] by simp
    then have f: "hw m = hw s" "mp_hash m = mp_hash s" "hwp_in_use m = hwp_in_use s" "target_running m"
      "cached_npc m = cached_npc s" "use_cached_npc m = use_cached_npc s" "pipe_open m = pipe_open s"
      "monitor_cmds m = monitor_cmds s"
      using assms(1) by (auto simp: m(2)) (metis bridge.surjective bridge.update_convs(1) bridge.select_convs)+
    show ?thesis
    proof (cases "rsp_data m 0 = CHR 0x03")
      case True
      then have "s' = set_stall_state True m" using r n f(4) by auto
      then show ?thesis using True f by (simp add: set_stall_state_def Let_def)
    next
      case False
      then have "put_str_packet p not_stopped m = Some s'" using r n f(4) by auto
      then obtain l where "s' = m\<lparr>link := l\<rparr>" using put_str_open assms(3) by blast
      then show ?thesis using False f by simp
    qed
  next
    case False
    then have c: "\<not> link_open (link m)" by (simp add: m(2))
    have "target_running m" using with_link_running [OF w] assms(1) by (simp add: m(2))
    then have "\<not> link_open (link s')"
      using r n c closed_put_str by (auto split: if_splits simp: set_stall_state_def Let_def)
    then show ?thesis using assms(3) by simp
  qed
qed

lemma not_stopped_length: "length not_stopped < GDB_BUF_MAX"
  by (simp add: not_stopped_def GDB_BUF_MAX_def)

theorem running_target_protected_witness:
  "\<exists>s'. let s = (stopped_bridge (raw_frame ''G00'' @ ''+'') (\<lambda>r. r, \<lambda>_. 0))\<lparr>target_running := True\<rparr>
    in rsp_client_request storing_target s = Some s' \<and> fst (hw s') = (\<lambda>r. r) \<and> outgoing (link s') = ''+'' @ frame_text not_stopped"
proof -
  let ?s = "(stopped_bridge (raw_frame ''G00'' @ ''+'') (\<lambda>r. r, \<lambda>_. 0))\<lparr>target_running := True\<rparr>"
  have c: "client_sends ''G00'' [] ?s" by (simp add: client_sends_def GDB_BUF_MAX_def)
  have "received (rsp_data ?s) ''G00'' 0 = CHR ''G''" by (subst received_nth) simp_all
  then have r: "rsp_client_request storing_target ?s = Some (replied not_stopped [] (requested ''G00'' [] ?s))"
    by (simp add: rsp_client_request_def request_received [OF c] put_str_reply [OF requested_awaits [OF c] not_stopped_length])
  moreover have o: "link_open (link (replied not_stopped [] (requested ''G00'' [] ?s)))"
    by (simp add: replied_def requested_def stopped_bridge_def)
  moreover have "outgoing (link (replied not_stopped [] (requested ''G00'' [] ?s))) = ''+'' @ frame_text not_stopped"
    by (simp add: replied_def requested_def)
  ultimately show ?thesis
    using running_target_protected [OF _ r o] unfolding Let_def by (intro exI conjI) simp_all
qed

section \<open>Continue and step\<close>

lemma run_registers:
  "unit_register SPR_DRR" "unit_register SPR_DMR1" "unit_register SPR_DMR2" "unit_register DSPR_DSR"
  "unit_bits SPR_DRR = 0x3fff" "unit_bits SPR_DMR1 = 0xcfffff" "unit_bits SPR_DMR2 = 0x3ff000" "unit_bits DSPR_DSR = 0x3fff"
  "SPR_DRR = 0x3015" "SPR_DMR1 = 0x3010" "SPR_DMR2 = 0x3011" "DSPR_DSR = 0x3014"
  by code_simp+

lemma status_cleared:
  assumes u: "debug_unit p unit"
  obtains h where "clear_watchpoint_status p s = Some (s\<lparr>hw := h\<rparr>)" "unit h = (unit (hw s))(SPR_DRR := 0)"
proof -
  obtain h1 where s1: "spr_write p SPR_DRR 0 s = Some (APP_ERR_NONE, s\<lparr>hw := h1\<rparr>)"
      "unit h1 = (unit (hw s))(SPR_DRR := 0 AND unit_bits SPR_DRR)"
    by (rule unit_writes [OF u run_registers(1)])
  obtain v where s2: "spr_read p SPR_DMR2 (s\<lparr>hw := h1\<rparr>) = Some (APP_ERR_NONE, v, s\<lparr>hw := h1\<rparr>)"
      "v AND unit_bits SPR_DMR2 = unit h1 SPR_DMR2"
    by (rule unit_reads [OF u run_registers(3), where s = "s\<lparr>hw := h1\<rparr>"]) simp
  obtain h2 where s3: "spr_write p SPR_DMR2 v (s\<lparr>hw := h1\<rparr>) = Some (APP_ERR_NONE, s\<lparr>hw := h2\<rparr>)"
      "unit h2 = (unit h1)(SPR_DMR2 := v AND unit_bits SPR_DMR2)"
    by (rule unit_writes [OF u run_registers(3), where s = "s\<lparr>hw := h1\<rparr>"]) simp
  have "unit h2 = unit h1" using s2(2) s3(2) by simp
  then show ?thesis
    using that [of "if v AND SPR_DMR2_WBS \<noteq> 0 then h2 else h1"] s1 s2(1) s3(1)
    by (simp add: clear_watchpoint_status_def split: if_splits)
qed

lemma trace_bits:
  "(v AND NOT (SPR_DMR1_ST OR SPR_DMR1_BT)) AND 0xcfffff = (v AND 0xcfffff) AND NOT 0xc00000"
  "(v OR (SPR_DMR1_ST OR SPR_DMR1_BT)) AND 0xcfffff = (v AND 0xcfffff) OR 0xc00000"
  "(v OR SPR_DSR_TE) AND 0x3fff = (v AND 0x3fff) OR 0x2000"
proof -
  have c: "SPR_DMR1_ST OR SPR_DMR1_BT = 0xc00000" "SPR_DSR_TE = 0x2000" "0xc00000 AND 0xcfffff = (0xc00000 :: u32)"
    "0x2000 AND 0x3fff = (0x2000 :: u32)" by code_simp+
  show "(v AND NOT (SPR_DMR1_ST OR SPR_DMR1_BT)) AND 0xcfffff = (v AND 0xcfffff) AND NOT 0xc00000"
    unfolding c by (simp only: ac_simps)
  show "(v OR (SPR_DMR1_ST OR SPR_DMR1_BT)) AND 0xcfffff = (v AND 0xcfffff) OR 0xc00000"
    "(v OR SPR_DSR_TE) AND 0x3fff = (v AND 0x3fff) OR 0x2000"
    unfolding c(1,2) by (simp_all only: bit.conj_disj_distrib2 c(3,4))
qed

definition resumed :: "'h bridge \<Rightarrow> 'h bridge \<Rightarrow> bool" where
  "resumed s s' \<longleftrightarrow>
     client_waiting s' \<and> \<not> use_cached_npc s' \<and>
     monitor_cmds s' = monitor_cmds s @ (if pipe_open s then ''U'' else []) \<and>
     mp_hash s' = mp_hash s \<and> hwp_in_use s' = hwp_in_use s"

lemma set_stall_running:
  "set_stall_state False s =
     s\<lparr>use_cached_npc := False, monitor_cmds := monitor_cmds s @ (if pipe_open s then ''U'' else [])\<rparr>"
  by (simp add: set_stall_state_def Let_def)

lemma continue_effect:
  assumes u: "debug_unit p unit"
  obtains s' where "rsp_continue_generic p s = Some s'" "resumed s s'" "\<not> single_step_mode s'"
    "unit (hw s') = (unit (hw s))(SPR_DRR := 0, SPR_DMR1 := unit (hw s) SPR_DMR1 AND NOT 0xc00000)" "link s' = link s"
proof -
  obtain h where c: "clear_watchpoint_status p s = Some (s\<lparr>hw := h\<rparr>)" "unit h = (unit (hw s))(SPR_DRR := 0)"
    by (rule status_cleared [OF u])
  obtain v where r: "spr_read p SPR_DMR1 (s\<lparr>hw := h\<rparr>) = Some (APP_ERR_NONE, v, s\<lparr>hw := h\<rparr>)"
      "v AND unit_bits SPR_DMR1 = unit h SPR_DMR1"
    by (rule unit_reads [OF u run_registers(2), where s = "s\<lparr>hw := h\<rparr>"]) simp
  obtain h' where w: "spr_write p SPR_DMR1 (v AND NOT (SPR_DMR1_ST OR SPR_DMR1_BT)) (s\<lparr>hw := h\<rparr>) = Some (APP_ERR_NONE, s\<lparr>hw := h'\<rparr>)"
      "unit h' = (unit h)(SPR_DMR1 := (v AND NOT (SPR_DMR1_ST OR SPR_DMR1_BT)) AND unit_bits SPR_DMR1)"
    by (rule unit_writes [OF u run_registers(2), where s = "s\<lparr>hw := h\<rparr>"]) simp
  let ?s' = "(set_stall_state False (s\<lparr>hw := h'\<rparr>))\<lparr>client_waiting := True, single_step_mode := False\<rparr>"
  have "rsp_continue_generic p s = Some ?s'"
    using w(1) by (simp add: rsp_continue_generic_def c(1) r(1))
  moreover have "resumed s ?s'" "\<not> single_step_mode ?s'" "hw ?s' = h'" "link ?s' = link s"
    by (simp_all add: resumed_def set_stall_running)
  moreover have "unit h' = (unit (hw s))(SPR_DRR := 0, SPR_DMR1 := unit (hw s) SPR_DMR1 AND NOT 0xc00000)"
    using r(2) unfolding w(2) c(2) run_registers(6) trace_bits unfolding run_registers(9,10) by simp
  ultimately show ?thesis using that by metis
qed

text \<open>In single-step mode already, a further step only clears the debug reason.\<close>

lemma step_again_effect:
  assumes u: "debug_unit p unit" and m: "single_step_mode s"
  obtains s' where "rsp_step_generic p s = Some s'" "resumed s s'" "single_step_mode s'"
    "unit (hw s') = (unit (hw s))(SPR_DRR := 0)" "link s' = link s"
proof -
  obtain h where c: "clear_watchpoint_status p s = Some (s\<lparr>hw := h\<rparr>)" "unit h = (unit (hw s))(SPR_DRR := 0)"
    by (rule status_cleared [OF u])
  let ?s' = "(set_stall_state False (s\<lparr>hw := h\<rparr>))\<lparr>client_waiting := True\<rparr>"
  have run: "rsp_step_generic p s = Some ?s'" using m by (simp add: rsp_step_generic_def c(1))
  have st: "resumed s ?s'" "single_step_mode ?s'" "hw ?s' = h" "link ?s' = link s"
    using m by (simp_all add: resumed_def set_stall_running)
  show ?thesis by (rule that [OF run st(1,2) _ st(4)]) (simp add: st(3) c(2))
qed

lemma step_effect:
  assumes u: "debug_unit p unit" and m: "\<not> single_step_mode s"
  obtains s' where "rsp_step_generic p s = Some s'" "resumed s s'" "single_step_mode s'"
    "unit (hw s') = (unit (hw s))(SPR_DRR := 0, SPR_DMR1 := unit (hw s) SPR_DMR1 OR 0xc00000,
       DSPR_DSR := unit (hw s) DSPR_DSR OR 0x2000)" "link s' = link s"
proof -
  obtain h where c: "clear_watchpoint_status p s = Some (s\<lparr>hw := h\<rparr>)" "unit h = (unit (hw s))(SPR_DRR := 0)"
    by (rule status_cleared [OF u])
  obtain v where r: "spr_read p SPR_DMR1 (s\<lparr>hw := h\<rparr>) = Some (APP_ERR_NONE, v, s\<lparr>hw := h\<rparr>)"
      "v AND unit_bits SPR_DMR1 = unit h SPR_DMR1"
    by (rule unit_reads [OF u run_registers(2), where s = "s\<lparr>hw := h\<rparr>"]) simp
  obtain h' where w: "spr_write p SPR_DMR1 (v OR (SPR_DMR1_ST OR SPR_DMR1_BT)) (s\<lparr>hw := h\<rparr>) = Some (APP_ERR_NONE, s\<lparr>hw := h'\<rparr>)"
      "unit h' = (unit h)(SPR_DMR1 := (v OR (SPR_DMR1_ST OR SPR_DMR1_BT)) AND unit_bits SPR_DMR1)"
    by (rule unit_writes [OF u run_registers(2), where s = "s\<lparr>hw := h\<rparr>"]) simp
  obtain d where r': "spr_read p DSPR_DSR (s\<lparr>hw := h'\<rparr>) = Some (APP_ERR_NONE, d, s\<lparr>hw := h'\<rparr>)"
      "d AND unit_bits DSPR_DSR = unit h' DSPR_DSR"
    by (rule unit_reads [OF u run_registers(4), where s = "s\<lparr>hw := h'\<rparr>"]) simp
  obtain h'' where w': "spr_write p DSPR_DSR (d OR SPR_DSR_TE) (s\<lparr>hw := h'\<rparr>) = Some (APP_ERR_NONE, s\<lparr>hw := h''\<rparr>)"
      "unit h'' = (unit h')(DSPR_DSR := (d OR SPR_DSR_TE) AND unit_bits DSPR_DSR)"
    by (rule unit_writes [OF u run_registers(4), where s = "s\<lparr>hw := h'\<rparr>"]) simp
  let ?h = "if d AND SPR_DSR_TE = 0 then h'' else h'"
  let ?s' = "(set_stall_state False (s\<lparr>hw := ?h, single_step_mode := True\<rparr>))\<lparr>client_waiting := True\<rparr>"
  have run: "rsp_step_generic p s = Some ?s'"
    using w(1) w'(1) m by (simp add: rsp_step_generic_def c(1) r(1) r'(1))
  have st: "resumed s ?s'" "single_step_mode ?s'" "hw ?s' = ?h" "link ?s' = link s"
    by (simp_all add: resumed_def set_stall_running)
  have "unit ?h = (unit h')(DSPR_DSR := unit h' DSPR_DSR OR 0x2000)"
  proof (cases "d AND SPR_DSR_TE = 0")
    case True
    then show ?thesis using r'(2) w'(2) by (simp add: run_registers(8) trace_bits(3))
  next
    case False
    moreover have te: "SPR_DSR_TE = push_bit 13 1" by code_simp
    ultimately have "bit d 13"
      unfolding te by (auto simp: bit_eq_iff [where ?'a = "32 word"] bit_simps bit_1_iff simp del: push_bit_of_1)
    then have "d OR SPR_DSR_TE = d"
      unfolding te by (auto intro!: bit_word_eqI simp: bit_simps bit_1_iff simp del: push_bit_of_1)
    then have "d AND 0x3fff = (d AND 0x3fff) OR 0x2000" using trace_bits(3) [of d] by simp
    then have "unit h' DSPR_DSR OR 0x2000 = unit h' DSPR_DSR" using r'(2) unfolding run_registers(8) by metis
    then show ?thesis using False by simp
  qed
  then have un: "unit (hw ?s') = (unit (hw s))(SPR_DRR := 0, SPR_DMR1 := unit (hw s) SPR_DMR1 OR 0xc00000,
       DSPR_DSR := unit (hw s) DSPR_DSR OR 0x2000)"
    using r(2) unfolding st(3) w(2) c(2) run_registers(6) trace_bits unfolding run_registers(9-12) by simp
  show ?thesis by (rule that [OF run st(1,2) un st(4)])
qed

text \<open>
  C26. Continue and step: for a stopped target, a \<^verbatim>\<open>c\<close> packet clears the debug reason and the single-step and
  branch-trace bits and leaves single-step mode, in whatever mode the server was; an \<^verbatim>\<open>s\<close> packet enters single-step mode and sets both
  bits and the trap bit of the stop register, and in single-step mode already it only clears the debug reason; watchpoints, breakpoints and the rest of the debug unit stay as they are. Each sends one unstall
  command to the monitor, drops the cached program counter, and leaves the client waiting, unanswered.
\<close>

theorem continue_and_step:
  assumes "client_sends body rest s" "\<not> target_running s" "debug_unit p unit"
    and "body = (if single then ''s'' else ''c'')"
  shows "\<exists>s'. rsp_client_request p s = Some s' \<and> resumed s s' \<and> single_step_mode s' = single \<and>
    unit (hw s') =
      (if single \<and> \<not> single_step_mode s
       then (unit (hw s))(0x3015 := 0, 0x3010 := unit (hw s) 0x3010 OR 0xc00000, 0x3014 := unit (hw s) 0x3014 OR 0x2000)
       else if single then (unit (hw s))(0x3015 := 0)
       else (unit (hw s))(0x3015 := 0, 0x3010 := unit (hw s) 0x3010 AND NOT 0xc00000)) \<and>
    outgoing (link s') = outgoing (link s) @ ''+''"
proof (cases single)
  case True
  let ?s = "requested ''s'' rest s"
  have c: "client_sends ''s'' rest s" using assms(1,4) True by simp
  have d: "rsp_client_request p s = rsp_step_generic p ?s"
    using request_dispatched [OF c assms(2), of p] by (simp add: rsp_dispatch_def rsp_step_def)
  show ?thesis
  proof (cases "single_step_mode s")
    case False
    obtain s' where "rsp_step_generic p ?s = Some s'" "resumed ?s s'" "single_step_mode s'"
      "unit (hw s') = (unit (hw ?s))(SPR_DRR := 0, SPR_DMR1 := unit (hw ?s) SPR_DMR1 OR 0xc00000,
         DSPR_DSR := unit (hw ?s) DSPR_DSR OR 0x2000)" "link s' = link ?s"
      by (rule step_effect [OF assms(3), of ?s]) (use False in simp)
    then show ?thesis using True False d by (simp add: run_registers resumed_def) (simp add: requested_def)
  next
    case again: True
    obtain s' where "rsp_step_generic p ?s = Some s'" "resumed ?s s'" "single_step_mode s'"
      "unit (hw s') = (unit (hw ?s))(SPR_DRR := 0)" "link s' = link ?s"
      by (rule step_again_effect [OF assms(3), of ?s]) (use again in simp)
    then show ?thesis using True again d by (simp add: run_registers resumed_def) (simp add: requested_def)
  qed
next
  case False
  let ?s = "requested ''c'' rest s"
  have c: "client_sends ''c'' rest s" using assms(1,4) False by simp
  then have "packet_string ?s = ''c''" by (rule requested_string) simp
  then have d: "rsp_client_request p s = rsp_continue_generic p ?s"
    using request_dispatched [OF c assms(2), of p] by (simp add: rsp_dispatch_def rsp_continue_def)
  obtain s' where "rsp_continue_generic p ?s = Some s'" "resumed ?s s'" "\<not> single_step_mode s'"
    "unit (hw s') = (unit (hw ?s))(SPR_DRR := 0, SPR_DMR1 := unit (hw ?s) SPR_DMR1 AND NOT 0xc00000)" "link s' = link ?s"
    by (rule continue_effect [OF assms(3), of ?s])
  then show ?thesis using False d by (simp add: run_registers resumed_def) (simp add: requested_def)
qed

theorem continue_and_step_witness:
  "(\<exists>s'. let s = stopped_bridge (raw_frame ''s'' @ ''+'') (\<lambda>_. 0, \<lambda>_. 0)
    in rsp_client_request storing_target s = Some s' \<and> monitor_cmds s' = ''U'' \<and> client_waiting s' \<and>
       fst (hw s') 0x3010 AND unit_bits 0x3010 = 0xc00000) \<and>
   (\<exists>s'. let s = (stopped_bridge (raw_frame ''c'' @ ''+'') ((\<lambda>_. 0)(0x3010 := 0xc00000), \<lambda>_. 0))\<lparr>single_step_mode := True\<rparr>
    in rsp_client_request storing_target s = Some s' \<and> \<not> single_step_mode s' \<and> fst (hw s') 0x3010 AND unit_bits 0x3010 = 0)"
proof -
  have c: "client_sends ''s'' [] (stopped_bridge (raw_frame ''s'' @ ''+'') (\<lambda>_. 0, \<lambda>_. 0))"
    "client_sends ''c'' [] ((stopped_bridge (raw_frame ''c'' @ ''+'') ((\<lambda>_. 0)(0x3010 := 0xc00000), \<lambda>_. 0))\<lparr>single_step_mode := True\<rparr>)"
    by (simp_all add: client_sends_def GDB_BUF_MAX_def stopped_bridge_def writable_def)
  have n: "((x :: u32) AND u) AND NOT x = 0" for x u by (rule bit_word_eqI) (auto simp: bit_simps)
  have "- 12582913 = (NOT 0xc00000 :: u32)" by simp
  then have m: "(0xc00000 AND u) AND - 12582913 = (0 :: u32)" for u by (simp only: n)
  show ?thesis
    using continue_and_step [OF c(1) _ storing_unit, of True] continue_and_step [OF c(2) _ storing_unit, of False]
    by (auto simp: m Let_def resumed_def stopped_bridge_def fun_eq_iff)
qed

section \<open>Stopping\<close>

text \<open>
  C25. A stop is reported once, with the right signal and program counter: when the monitor announces that a
  running target has stopped and the client waits, the debug reason is read and translated, and the client gets one \<^verbatim>\<open>S\<close>
  packet with the signal. If it is a trap, and either the stopped instruction is one of our memory
  breakpoints or a watchpoint has fired, the program counter is first set back to that instruction (and
  cached); in every other case the target is only read.
\<close>

theorem stop_reported:
  assumes "target_running s" "client_waiting s" "awaiting_ack rest s"
    and "cpu0_read p SPR_DRR (hw s) = Some (e1, drr, h1)" "signal_of drr = Some signal"
    and "cpu0_read p DSPR_PPC h1 = Some (e2, ppc, h2)"
    and "cpu0_read p SPR_DMR2 h2 = Some (e3, dmr2, h2)"
    and "cpu0_write p DSPR_NPC ppc h2 = Some (e4, h4)"
  shows "monitor_event p CHR ''H'' s =
    (let ours = (signal = 5 \<and> (mp_lookup (mp_hash s) (BP_MEMORY, ucast ppc) \<noteq> None \<or> dmr2 AND 0xffc00000 \<noteq> 0))
     in Some (replied [CHR ''S'', hex_digit (signal div 16), hex_digit (signal mod 16)] rest
       (s\<lparr>target_running := False, client_waiting := False, sigval := signal, hw := (if ours then h4 else h2),
          cached_npc := (if ours then ppc else cached_npc s), use_cached_npc := (ours \<or> use_cached_npc s)\<rparr>)))"
proof -
  have l: "(mp_hash_lookup BP_MEMORY (ucast ppc) (mp_hash s) = None) = (mp_lookup (mp_hash s) (BP_MEMORY, ucast ppc) = None)"
    by (simp add: mp_lookup_def)
  show ?thesis
    using assms
    by (simp add: monitor_event_def target_stopped_def Let_def spr_read_def spr_write_def rsp_exception_def set_npc_def
        reset_npc_after_trap_def rsp_report_exception_def TARGET_SIGNAL_TRAP_def SPR_DMR2_WBS_def l put_reply replied_def)
qed

theorem stop_reported_witness:
  "\<exists>s'. let s = (stopped_bridge ''+'' ((\<lambda>_. 0)(0x3015 := 0x2000, 18 := 0x100), \<lambda>_. 0))
        \<lparr>target_running := True, client_waiting := True, mp_hash := mp_add (BP_MEMORY, 0x100) 0 mp_hash_init\<rparr>
    in monitor_event storing_target CHR ''H'' s = Some s' \<and> outgoing (link s') = frame_text ''S05'' \<and>
       fst (hw s') 16 = 0x100 \<and> cached_npc s' = 0x100"
proof -
  let ?h = "((\<lambda>_. 0)(0x3015 := 0x2000, 18 := 0x100), \<lambda>_. 0) :: (u32 \<Rightarrow> u32) \<times> (u32 \<Rightarrow> u8)"
  let ?s = "(stopped_bridge ''+'' ?h)\<lparr>target_running := True, client_waiting := True, mp_hash := mp_add (BP_MEMORY, 0x100) 0 mp_hash_init\<rparr>"
  have m: "mp_lookup (mp_add (BP_MEMORY, 0x100) 0 mp_hash_init) (BP_MEMORY, 0x100) = Some 0"
    using mp.lookup_add [OF mp_invar_init(1), of "(BP_MEMORY, 0x100)" 0] by (simp add: mp_invar_init(2))
  have a: "awaiting_ack [] ?s" by (simp add: awaiting_ack_def)
  have r: "SPR_DRR = 0x3015" "DSPR_PPC = 18" "SPR_DMR2 = 0x3011" "DSPR_NPC = 16" "hex_digit 0 = CHR ''0''" "hex_digit 5 = CHR ''5''"
    by code_simp+
  show ?thesis
    using stop_reported [OF _ _ a, of storing_target 0 "0x2000" ?h 5 0 "0x100" ?h 0 0 0 "((fst ?h)(16 := 0x100), snd ?h)"] m
    by (simp add: r signal_of_def Let_def replied_def)
qed

section \<open>Packets that are misread\<close>

lemma concat_reg2hex_nth:
  "r < length vs \<Longrightarrow> i < 8 \<Longrightarrow> concat (map reg2hex vs) ! (8 * r + i) = reg2hex (vs ! r) ! i"
proof (induction vs arbitrary: r)
  case (Cons v vs)
  then show ?case by (cases r) (simp_all add: nth_append)
qed simp

lemma concat_reg2hex_length [simp]: "length (concat (map reg2hex vs)) = 8 * length vs"
  by (induction vs) simp_all

text \<open>The registers of a request, read one digit too early: a \<^verbatim>\<open>G\<close> counts as the digit \<open>0xf\<close>.\<close>

definition early :: "u32 list \<Rightarrow> nat \<Rightarrow> u32" where
  "early vs r = push_bit 28 (if r = 0 then 0xf else vs ! (r - 1)) OR drop_bit 4 (vs ! r)"

lemma nibbles_early:
  fixes v w :: u32
  shows "foldl (\<lambda>x n. x OR push_bit (28 - n * 4)
      (if n = 0 then w AND 0xf else drop_bit (28 - (n - 1) * 4) v AND 0xf)) 0 [0..<8] = push_bit 28 w OR drop_bit 4 v"
    (is "?l = ?r")
proof (rule bit_word_eqI)
  fix i assume "i < LENGTH(32)"
  then have "i \<in> set [0..<32]" by simp
  moreover have "\<not> bit v 32" "\<not> bit v 33" "\<not> bit v 34" "\<not> bit v 35" by (auto dest: bit_imp_le_length)
  then have "\<forall>i\<in>set [0..<32]. bit ?l i = bit ?r i"
    by (simp add: upt_rec bit_simps)
  ultimately show "bit ?l i = bit ?r i" by blast
qed

lemma early_register:
  assumes l: "r < length vs" and buf: "\<And>i. i < 8 * length vs \<Longrightarrow> buf (Suc i) = concat (map (\<lambda>v. reg2hex (ucast v)) vs) ! i"
    and g: "buf 0 = CHR ''G''"
  shows "ucast (hex2reg (\<lambda>i. buf (r * 8 + i))) = early vs r"
proof -
  let ?w = "if r = 0 then 0xf else vs ! (r - 1)"
  have c: "concat (map (\<lambda>v. reg2hex (ucast v)) vs) ! (8 * k + i) = reg2hex (ucast (vs ! k)) ! i" if "k < length vs" "i < 8" for k i
    using concat_reg2hex_nth [of k "map ucast vs" i] that by (simp add: comp_def)
  have d: "(of_int (hex (buf (r * 8 + n))) :: u32) =
      (if n = 0 then if r = 0 then - 1 else ?w AND 0xf else drop_bit (28 - (n - 1) * 4) (vs ! r) AND 0xf)" if "n < 8" for n
  proof (cases n)
    case 0
    show ?thesis
    proof (cases r)
      case 0
      have "hex CHR ''G'' = - 1" by code_simp
      then show ?thesis using \<open>n = 0\<close> 0 g by simp
    next
      case (Suc k)
      then have "buf (r * 8 + n) = reg2hex (ucast (vs ! k)) ! 7"
        using buf [of "8 * k + 7"] c [of k 7] l 0 by (simp add: add.commute mult.commute)
      then show ?thesis using hex_reg2hex [of 7 "vs ! k"] 0 Suc by simp
    qed
  next
    case (Suc m)
    then have "buf (r * 8 + n) = reg2hex (ucast (vs ! r)) ! m"
      using buf [of "8 * r + m"] c [of r m] l that by (simp add: mult.commute)
    then show ?thesis using hex_reg2hex [of m "vs ! r"] Suc that by simp
  qed
  have p: "push_bit 28 (- 1 :: u32) = push_bit 28 (0xf AND 0xf)" by code_simp
  have "ucast (hex2reg (\<lambda>i. buf (r * 8 + i))) =
      foldl (\<lambda>x n. x OR push_bit (28 - n * 4) (of_int (hex (buf (r * 8 + n))) :: u32)) 0 [0..<8]"
    by (simp add: hex2reg_def ucast_foldl_or ucast_scast_id)
  also have "\<dots> = foldl (\<lambda>x n. x OR push_bit (28 - n * 4)
      (if n = 0 then ?w AND 0xf else drop_bit (28 - (n - 1) * 4) (vs ! r) AND 0xf)) 0 [0..<8]"
    by (rule foldl_cong) (use d p in auto)
  finally show ?thesis by (simp only: nibbles_early early_def)
qed

text \<open>
  The reply to \<^verbatim>\<open>g\<close> lists the digits of the thirty-two general registers, then the previous and the next
  program counter and the status register, in GDB's order and not in the order in which the target delivers
  them; a cached program counter replaces the one read.
\<close>

lemma all_registers_read:
  assumes "client_sends ''g'' rest s" "\<not> target_running s"
    and "cpu0_read_block p DSPR_GPR_BASE 32 (hw s) = Some (APP_ERR_NONE, gprs, h1)" "length gprs = 32"
    and "cpu0_read_block p DSPR_NPC 3 h1 = Some (APP_ERR_NONE, [npc, sr, ppc], h2)"
  shows "rsp_client_request p s =
    Some (replied (concat (map (\<lambda>v. reg2hex (ucast v)) (gprs @ [ppc, if use_cached_npc s then cached_npc s else npc, sr]))) rest
      ((requested ''g'' rest s)\<lparr>hw := h2\<rparr>))"
proof -
  have g: "concat (map (\<lambda>r. reg2hex (ucast (gprs ! r))) [0..<32]) = concat (map (\<lambda>v. reg2hex (ucast v)) gprs)"
    using arg_cong [OF map_nth [of gprs], of "\<lambda>l. concat (map (\<lambda>v. reg2hex (ucast v)) l)"] assms(4) by (simp add: comp_def)
  show ?thesis
    using assms(3,5) requested_awaits [OF assms(1)]
    by (simp add: request_dispatched [OF assms(1,2)] rsp_dispatch_def rsp_read_all_regs_def MAX_GPRS_def g put_reply
        APP_ERR_NONE_def Let_def)
qed

lemma all_registers_read_witness:
  "\<exists>s'. let s = stopped_bridge (raw_frame ''g'' @ ''+'') (\<lambda>r. if r = 1025 then 0xabcd else 0, \<lambda>_. 0)
    in rsp_client_request storing_target s = Some s' \<and> take 16 (drop 2 (outgoing (link s'))) = ''000000000000abcd''"
proof -
  let ?h = "(\<lambda>r. if r = 1025 then 0xabcd else 0, \<lambda>_. 0) :: (u32 \<Rightarrow> u32) \<times> (u32 \<Rightarrow> u8)"
  have c: "client_sends ''g'' [] (stopped_bridge (raw_frame ''g'' @ ''+'') ?h)"
    by (simp add: client_sends_def GDB_BUF_MAX_def)
  have b: "cpu0_read_block storing_target a n ?h = Some (APP_ERR_NONE, map (\<lambda>i. fst ?h (a + of_nat i)) [0..<n], ?h)" for a n
    by (simp add: storing_target_def APP_ERR_NONE_def)
  have n: "map (\<lambda>i. fst ?h (DSPR_NPC + of_nat i)) [0..<3] = [0, 0, 0]" by code_simp
  have t: "take 16 (drop 1 (frame_text (concat (map (\<lambda>v. reg2hex (ucast v)) (map (\<lambda>i. fst ?h (DSPR_GPR_BASE + of_nat i)) [0..<32] @ [0, 0, 0]))))) =
      ''000000000000abcd''" by code_simp
  have "rsp_client_request storing_target (stopped_bridge (raw_frame ''g'' @ ''+'') ?h) =
      Some (replied (concat (map (\<lambda>v. reg2hex (ucast v)) (map (\<lambda>i. fst ?h (DSPR_GPR_BASE + of_nat i)) [0..<32] @ [0, 0, 0]))) []
        ((requested ''g'' [] (stopped_bridge (raw_frame ''g'' @ ''+'') ?h))\<lparr>hw := ?h\<rparr>))"
    using all_registers_read [OF c _ _ _ b [of DSPR_NPC 3, unfolded n]] b [of DSPR_GPR_BASE 32]
    by (simp add: stopped_bridge_def)
  then show ?thesis using t by (simp add: Let_def replied_def requested_def)
qed

text \<open>
  A \<^verbatim>\<open>G\<close> packet does not write the registers it lists: the digits are taken from the start of the
  packet, where the letter is. Every register gets the last digit of its predecessor in front and loses its
  own last digit; the first gets \<open>0xf\<close>. So the reply of \<^verbatim>\<open>g\<close> cannot be used to restore the registers.
\<close>

lemma all_registers_shifted:
  assumes "client_sends (CHR ''G'' # concat (map (\<lambda>v. reg2hex (ucast v)) vs)) rest s" "\<not> target_running s"
    and "length vs = 35"
  shows "rsp_client_request p s = do {
    (err, h) \<leftarrow> cpu0_write_block p DSPR_GPR_BASE (map (early vs) [0..<32]) (hw s);
    (err', h) \<leftarrow> cpu0_write_block p DSPR_NPC [early vs 33, early vs 34, early vs 32] h;
    Some (replied (if err OR err' = APP_ERR_NONE then ''OK'' else ''E01'') rest
      ((requested (CHR ''G'' # concat (map (\<lambda>v. reg2hex (ucast v)) vs)) rest s)\<lparr>hw := h\<rparr>))
  }"
proof -
  let ?b = "CHR ''G'' # concat (map (\<lambda>v. reg2hex (ucast v)) vs)"
  let ?s = "requested ?b rest s"
  have l: "length (concat (map (\<lambda>v. reg2hex (ucast v)) vs)) = 8 * length vs"
    using concat_reg2hex_length [of "map ucast vs"] by (simp add: comp_def)
  have e: "ucast (hex2reg (\<lambda>i. received (rsp_data s) ?b (r * 8 + i))) = early vs r" if "r < 35" for r
  proof (rule early_register)
    show "received (rsp_data s) ?b (Suc i) = concat (map (\<lambda>v. reg2hex (ucast v)) vs) ! i" if "i < 8 * length vs" for i
      using that by (subst received_nth) (simp_all add: l)
    show "received (rsp_data s) ?b 0 = CHR ''G''" by (subst received_nth) simp_all
  qed (use that assms(3) in simp)
  have m: "map (\<lambda>r. ucast (hex2reg (\<lambda>i. received (rsp_data s) ?b (r * 8 + i)))) [0..<32] = map (early vs) [0..<32]"
    by (rule map_cong) (use e in auto)
  have n: "unat NPC_REGNUM = 33" "unat SR_REGNUM = 34" "unat PPC_REGNUM = 32" by code_simp+
  show ?thesis
    using requested_awaits [OF assms(1)] e [of 33] e [of 34] e [of 32]
    by (simp add: m request_dispatched [OF assms(1,2)] rsp_dispatch_def rsp_write_all_regs_def MAX_GPRS_def n
        put_str_reply GDB_BUF_MAX_def Let_def split: Option.bind_split)
qed

lemma all_registers_shifted_witness:
  "\<exists>s'. let s = stopped_bridge (raw_frame (CHR ''G'' # concat (map (\<lambda>v. reg2hex (ucast v)) (replicate 35 (0x12345678 :: u32)))) @ ''+'')
        (\<lambda>_. 0, \<lambda>_. 0)
    in rsp_client_request storing_target s = Some s' \<and> fst (hw s') 0x400 = 0xf1234567 \<and> fst (hw s') 0x401 = 0x81234567"
proof -
  let ?vs = "replicate 35 0x12345678 :: u32 list"
  let ?b = "CHR ''G'' # concat (map (\<lambda>v. reg2hex (ucast v)) ?vs)"
  let ?s = "stopped_bridge (raw_frame ?b @ ''+'') (\<lambda>_. 0, \<lambda>_. 0) :: ((u32 \<Rightarrow> u32) \<times> (u32 \<Rightarrow> u8)) bridge"
  have p: "CHR ''$'' \<notin> set ?b \<and> CHR ''#'' \<notin> set ?b \<and> length ?b = 281" by code_simp
  then have c: "client_sends ?b [] ?s" by (simp only: client_sends_def) (simp add: GDB_BUF_MAX_def del: replicate.simps)
  have w: "cpu0_write_block storing_target a ws (r, m) =
      Some (0, (\<lambda>i. if unat (i - a) < length ws then ws ! unat (i - a) else r i, m))" for a ws r m
    by (simp add: storing_target_def)
  have i: "unat (0x400 - DSPR_NPC) = 1008" "unat (0x401 - DSPR_NPC) = 1009"
    "unat (0x400 - DSPR_GPR_BASE) = 0" "unat (0x401 - DSPR_GPR_BASE) = 1" by code_simp+
  have f: "early ?vs 0 = 0xf1234567" "early ?vs 1 = 0x81234567" by code_simp+
  have "length ?vs = 35" by simp
  then show ?thesis
    using all_registers_shifted [OF c, of storing_target] f
    unfolding Let_def by (simp add: w i replied_def del: replicate.simps)
qed

lemma read_request:
  assumes "client_sends (mem_head CHR ''m'' a n) rest s" "\<not> target_running s" "n < 2 ^ 31"
  shows "rsp_client_request p s = rsp_read_mem p (requested (mem_head CHR ''m'' a n) rest s)"
    and "sscanf [Lit CHR ''m'', Hex None, Lit CHR '','', Hex None, Lit CHR '':'']
      (packet_string (requested (mem_head CHR ''m'' a n) rest s)) = [Num (ucast a), Num (of_nat n)]"
proof -
  show "rsp_client_request p s = rsp_read_mem p (requested (mem_head CHR ''m'' a n) rest s)"
    using assms(1,2) by (simp add: mem_head_def request_dispatched rsp_dispatch_def)
  have "packet_string (requested (mem_head CHR ''m'' a n) rest s) = mem_head CHR ''m'' a n"
    using assms(1) mem_head_plain [of "CHR ''m''" "CHR 0x00" a n] by (intro requested_string) auto
  then show "sscanf [Lit CHR ''m'', Hex None, Lit CHR '','', Hex None, Lit CHR '':'']
      (packet_string (requested (mem_head CHR ''m'' a n) rest s)) = [Num (ucast a), Num (of_nat n)]"
    using scan_read [of n a] assms(3) by simp
qed

lemma sint_of_int_u32: "sint (of_int k :: u32) = (k + 2 ^ 31) mod 2 ^ 32 - 2 ^ 31"
  by (simp add: signed_of_int signed_take_bit_eq_take_bit_shift take_bit_eq_mod)

lemma doubled_length:
  assumes "n < 2 ^ 31"
  shows "sint ((of_nat n :: u32) * 2) = (if n < 2 ^ 30 then 2 * int n else 2 * int n - 2 ^ 32)"
proof -
  have e: "(of_nat n :: u32) * 2 = of_int (2 * int n)" by simp
  have "sint ((of_nat n :: u32) * 2) = (2 * int n + 2 ^ 31) mod 2 ^ 32 - 2 ^ 31"
    unfolding e by (rule sint_of_int_u32)
  also have "\<dots> = (if n < 2 ^ 30 then 2 * int n else 2 * int n - 2 ^ 32)"
  proof (cases "n < 2 ^ 30")
    case True
    then show ?thesis by simp
  next
    case False
    have "(2 * int n + 2 ^ 31) mod 2 ^ 32 = (2 * int n + 2 ^ 31 - 2 ^ 32) mod (2 ^ 32 :: int)"
      by (metis minus_mod_self2)
    also have "\<dots> = 2 * int n + 2 ^ 31 - 2 ^ 32" using False assms by (intro mod_pos_pos_trivial) auto
    finally show ?thesis using False by simp
  qed
  finally show ?thesis .
qed

text \<open>
  The length of a memory read: from 8192 bytes on the request is cut to the 8191 bytes whose digits fit
  into the buffer, but only up to \<open>2 ^ 30\<close>: twice a larger length is negative as an \<^verbatim>\<open>int\<close>, passes the test, and the
  reply overruns the packet buffer, whatever the target answers.
\<close>

lemma memory_read_bounds:
  assumes "client_sends (mem_head CHR ''m'' a n) rest s" "\<not> target_running s"
    and "8192 \<le> n" "n < 2 ^ 31"
    and "\<And>k. wb_read_block8 p a k (hw s) = Some (APP_ERR_NONE, data k, h)" "\<And>k. length (data k) = nat k"
  shows "(case rsp_client_request p s of
      None \<Rightarrow> 2 ^ 30 \<le> n
    | Some s' \<Rightarrow> n < 2 ^ 30 \<and>
        outgoing (link s') = outgoing (link s) @ ''+'' @ frame_text (concat (map hex_byte (data 8191))))"
proof -
  let ?s = "requested (mem_head CHR ''m'' a n) rest s"
  note r = read_request [OF assms(1,2,4)]
  have l: "ucast (of_nat n :: u64) = (of_nat n :: u32)" "sint (of_nat n :: u32) = int n"
    using small_length [OF assms(4)] by auto
  have b: "concat (map (\<lambda>off. hex_byte (data k ! off)) [0..<nat k]) = concat (map hex_byte (data k))" for k
    using arg_cong [OF map_nth [of "data k"], of "\<lambda>l. concat (map hex_byte l)"] assms(6) by (simp add: comp_def)
  show ?thesis
  proof (cases "n < 2 ^ 30")
    case True
    have t: "16384 \<le> sint ((of_nat n :: u32) * 2)" using True assms(3,4) by (simp add: doubled_length GDB_BUF_MAX_def)
    have c: "sint (of_nat ((GDB_BUF_MAX - 1) div 2) :: u32) = 8191" by (simp add: GDB_BUF_MAX_def)
    have "length (concat (map hex_byte (data 8191))) = 16382" using assms(6) by simp
    then have "rsp_read_mem p ?s = reply_in_buffer p (concat (map hex_byte (data 8191))) (?s\<lparr>hw := h\<rparr>)"
      unfolding rsp_read_mem_def r(2) using assms(5) b [of 8191]
      by (simp add: Let_def l t c GDB_BUF_MAX_def)
    then show ?thesis
      using requested_awaits [OF assms(1)] True r(1) by (simp add: reply_from_buffer) (simp add: replied_def requested_def)
  next
    case False
    have t: "\<not> 16384 \<le> sint ((of_nat n :: u32) * 2)" using False assms(4) by (simp add: doubled_length GDB_BUF_MAX_def)
    have "length (concat (map hex_byte (data (int n)))) = 2 * n" using assms(6) by simp
    then have "rsp_read_mem p ?s = None"
      unfolding rsp_read_mem_def r(2) using assms(3,5) b [of "int n"]
      by (simp add: Let_def l t GDB_BUF_MAX_def)
    then show ?thesis using False r(1) by simp
  qed
qed

lemma memory_read_bounds_witness:
  "rsp_client_request storing_target (stopped_bridge (raw_frame (mem_head CHR ''m'' 0 0x40000000) @ ''+'') (\<lambda>_. 0, \<lambda>_. 0)) = None"
proof -
  let ?h = "mem_head CHR ''m'' 0 0x40000000"
  let ?s = "stopped_bridge (raw_frame ?h @ ''+'') (\<lambda>_. 0, \<lambda>_. 0) :: ((u32 \<Rightarrow> u32) \<times> (u32 \<Rightarrow> u8)) bridge"
  have "?h = ''m0,40000000''"
    by (simp add: mem_head_def hex_digits.simps [of 0] hex_digits.simps [of "numeral k" for k] hex_digit_def)
  then have c: "client_sends ?h [] ?s" by (simp add: client_sends_def GDB_BUF_MAX_def)
  show ?thesis
    using memory_read_bounds [OF c, of storing_target "\<lambda>k. replicate (nat k) 0" "(\<lambda>_. 0, \<lambda>_. 0)"]
    by (auto simp: APP_ERR_NONE_def map_replicate_const split: option.splits)
qed

text \<open>
  Detaching does not restart the target: \<^verbatim>\<open>D\<close> is answered, the connection and the pipes to the monitor are
  closed, the stop register is cleared, and only then is the target to be resumed; the command is lost with the
  pipe, so a stopped target stays stalled.
\<close>

lemma detach_leaves_target_stalled:
  assumes "client_sends ''D'' rest s" "\<not> target_running s"
    and "cpu0_write p DSPR_DSR 0 (hw s) = Some (err, h)"
  shows "\<exists>s'. rsp_client_request p s = Some s' \<and> monitor_cmds s' = monitor_cmds s \<and>
    \<not> link_open (link s') \<and> \<not> pipe_open s' \<and> hw s' = h \<and>
    outgoing (link s') = outgoing (link s) @ ''+'' @ frame_text ''OK''"
  using assms(3) requested_awaits [OF assms(1)] assms(2)
  by (simp add: request_dispatched [OF assms(1,2)] rsp_dispatch_def put_str_reply GDB_BUF_MAX_def rsp_client_close_def
      spr_write_def set_stall_state_def replied_def Let_def) (simp add: requested_def)

lemma detach_leaves_target_stalled_witness:
  "\<exists>s'. rsp_client_request storing_target (stopped_bridge (raw_frame ''D'' @ ''+'') (\<lambda>_. 0, \<lambda>_. 0)) = Some s' \<and>
     monitor_cmds s' = [] \<and> \<not> pipe_open s'"
proof -
  have c: "client_sends ''D'' [] (stopped_bridge (raw_frame ''D'' @ ''+'') (\<lambda>_. 0, \<lambda>_. 0))"
    by (simp add: client_sends_def GDB_BUF_MAX_def)
  show ?thesis
    using detach_leaves_target_stalled [OF c, of storing_target] by (auto simp: stopped_bridge_def)
qed

end
