(* ===== verification/Hwp_Server.thy ===== *)
theory Hwp_Server
  imports Rsp_State
begin

unbundle bit_operations_syntax

text \<open>
  The hardware watchpoint server of the JTAG bridge (\<^verbatim>\<open>hwp_server.c\<close>): a second server, in a thread of
  its own, whose client reads and writes debug registers and whose writes reserve watchpoints in the pool
  the RSP server draws from. The packet layer is that of \<^verbatim>\<open>Rsp_Packet\<close> with a smaller buffer and no
  break.
\<close>

section \<open>State\<close>

definition HWP_BUF_MAX :: nat where
  "HWP_BUF_MAX = 256"

text \<open>
  \<open>hwp_flags\<close> is \<^verbatim>\<open>hwp_in_use\<close>, shared with the RSP server; \<open>hwp_stack\<close> the indeterminate content of automatic
  character arrays.
\<close>

record 'h hwp =
  hwp_link :: link
  hwp_target_is_running :: bool
  use_cached_dmr2 :: bool
  cached_dmr2 :: u32
  hwp_flags :: "bool list"
  hwp_data :: "nat \<Rightarrow> char"
  hwp_stack :: "nat \<Rightarrow> char"
  hwp_hw :: 'h

definition hwp_client_close :: "'h hwp \<Rightarrow> 'h hwp" where
  "hwp_client_close s = s\<lparr>hwp_link := (hwp_link s)\<lparr>link_open := False\<rparr>\<rparr>"

definition hwp_put_packet :: "string \<Rightarrow> 'h hwp \<Rightarrow> 'h hwp" where
  "hwp_put_packet data s = s\<lparr>hwp_link := put_packet data (hwp_link s)\<rparr>"

definition hwp_put_str_packet :: "string \<Rightarrow> 'h hwp \<Rightarrow> 'h hwp" where
  "hwp_put_str_packet str s = hwp_put_packet (take (HWP_BUF_MAX - 1) str) s"

definition hwp_get_packet :: "'h hwp \<Rightarrow> nat option \<times> 'h hwp" where
  "hwp_get_packet s =
     (case get_packet HWP_BUF_MAX False (hwp_data s) (hwp_link s) of
        (len, buf, l) \<Rightarrow> (len, s\<lparr>hwp_data := buf, hwp_link := l\<rparr>))"

definition hwp_string :: "'h hwp \<Rightarrow> string" where
  "hwp_string s = c_string HWP_BUF_MAX (hwp_data s) 0"

section \<open>Requests\<close>

text \<open>The register number is the target's own. A register value is sent back from the packet buffer.\<close>

definition hwp_read_reg :: "'h debug_port \<Rightarrow> 'h hwp \<Rightarrow> 'h hwp option" where
  "hwp_read_reg p s =
     (case sscanf [Lit CHR ''p'', Hex None] (hwp_string s) of
        [Num n] \<Rightarrow>
          (let regnum = (ucast n :: u32);
               reply = (\<lambda>(errcode, tmp, s).
                 if errcode = APP_ERR_NONE
                 then hwp_put_packet (reg2hex (ucast tmp)) (s\<lparr>hwp_data := put_string (reg2hex (ucast tmp)) (hwp_data s)\<rparr>)
                 else hwp_put_str_packet ''E01'' s)
           in if regnum = SPR_DMR2 \<and> use_cached_dmr2 s then Some (reply (APP_ERR_NONE, cached_dmr2 s, s))
              else do {
                (errcode, tmp, h) \<leftarrow> cpu0_read p regnum (hwp_hw s);
                Some (reply (errcode, tmp, s\<lparr>hwp_hw := h\<rparr>))
              })
      | _ \<Rightarrow> Some (hwp_put_str_packet ''E01'' s))"

text \<open>A write to a watchpoint's control register reserves the watchpoint, or frees it when it compares nothing.\<close>

definition note_dcr_write :: "u32 \<Rightarrow> u32 \<Rightarrow> bool list \<Rightarrow> bool list" where
  "note_dcr_write regnum val pool =
     (if SPR_DCR 0 \<le> regnum \<and> regnum \<le> SPR_DCR 7 then
        (let dcridx = regnum - SPR_DCR 0; cc = val AND 0x0E; ct = val AND 0xE0
         in hwp_set_in_use dcridx (\<not> (cc = 0 \<or> ct = 0)) pool)
      else pool)"

definition hwp_write_reg :: "'h debug_port \<Rightarrow> 'h hwp \<Rightarrow> 'h hwp option" where
  "hwp_write_reg p s =
     (case sscanf [Lit CHR ''P'', Hex None, Lit CHR ''='', Word (Some 8)] (hwp_string s) of
        [Num n, Str v] \<Rightarrow>
          (let regnum = (ucast n :: u32); val = (ucast (hex2reg (put_string v (hwp_stack s))) :: u32)
           in do {
             (errcode, h) \<leftarrow> cpu0_write p regnum val (hwp_hw s);
             let s = hwp_put_str_packet (if errcode = APP_ERR_NONE then ''OK'' else ''E01'') (s\<lparr>hwp_hw := h\<rparr>);
             Some (s\<lparr>hwp_flags := note_dcr_write regnum val (hwp_flags s)\<rparr>)
           })
      | _ \<Rightarrow> Some (hwp_put_str_packet ''E01'' s))"

text \<open>
  The two digits are \<^verbatim>\<open>hexchars[ppcval >> 4]\<close> and \<^verbatim>\<open>hexchars[ppcval % 16]\<close> of the whole program counter: index
  16 is the terminator of the string, anything above is outside of it.
\<close>

definition hexchars_at :: "u32 \<Rightarrow> char option" where
  "hexchars_at i =
     (if unat i < 16 then Some (hex_digit (unat i)) else if unat i = 16 then Some CHR 0x00 else None)"

definition hwp_report_stop :: "'h debug_port \<Rightarrow> 'h hwp \<Rightarrow> 'h hwp option" where
  "hwp_report_stop p s = do {
     (_, ppcval, h) \<leftarrow> cpu0_read p DSPR_PPC (hwp_hw s);
     c1 \<leftarrow> hexchars_at (drop_bit 4 ppcval);
     c2 \<leftarrow> hexchars_at (ppcval mod 16);
     Some (hwp_put_packet (takeWhile (\<lambda>c. c \<noteq> CHR 0x00) [CHR ''S'', c1, c2]) (s\<lparr>hwp_hw := h\<rparr>))
   }"

definition hwp_report_run :: "'h hwp \<Rightarrow> 'h hwp" where
  "hwp_report_run s = hwp_put_packet ''RUN'' s"

definition hwp_client_request :: "'h debug_port \<Rightarrow> 'h hwp \<Rightarrow> 'h hwp option" where
  "hwp_client_request p s =
     (let (len, s) = hwp_get_packet s
      in if len = None then Some (hwp_client_close s)
         else if hwp_data s 0 = CHR ''?'' then
           if hwp_target_is_running s then Some (hwp_report_run s) else hwp_report_stop p s
         else if hwp_data s 0 = CHR ''p'' then hwp_read_reg p s
         else if hwp_data s 0 = CHR ''P'' then hwp_write_reg p s
         else Some s)"

section \<open>The server thread\<close>

text \<open>One pass through the inner loop: a message of the monitor first, then a request of the client.\<close>

definition hwp_monitor_message :: "char \<Rightarrow> 'h hwp \<Rightarrow> 'h hwp" where
  "hwp_monitor_message cmd s =
     (if cmd = CHR ''H'' then s\<lparr>hwp_target_is_running := False\<rparr>
      else if cmd = CHR ''R'' then s\<lparr>hwp_target_is_running := True, use_cached_dmr2 := False\<rparr>
      else s)"

definition hwp_server_pass :: "'h debug_port \<Rightarrow> char option \<Rightarrow> bool \<Rightarrow> 'h hwp \<Rightarrow> 'h hwp option" where
  "hwp_server_pass p message client_ready s =
     (let s = (case message of None \<Rightarrow> s | Some cmd \<Rightarrow> hwp_monitor_message cmd s)
      in if client_ready then hwp_client_request p s else Some s)"

definition hwp_new_client :: "link \<Rightarrow> 'h hwp \<Rightarrow> 'h hwp" where
  "hwp_new_client l s = s\<lparr>hwp_link := l\<lparr>link_open := True\<rparr>, use_cached_dmr2 := False\<rparr>"

text \<open>\<^verbatim>\<open>hwp_init\<close>: a watchpoint is available when its control register can be read and says it is present.\<close>

fun hwp_probe :: "'h debug_port \<Rightarrow> nat list \<Rightarrow> 'h \<Rightarrow> bool list \<Rightarrow> (bool list \<times> 'h) option" where
  "hwp_probe p [] h pool = Some (pool, h)"
| "hwp_probe p (i # is) h pool = do {
     (errcode, tmp, h) \<leftarrow> cpu0_read p (SPR_DCR (of_nat i)) h;
     hwp_probe p is h (hwp_set_in_use (of_nat i) (\<not> (errcode = APP_ERR_NONE \<and> tmp AND 1 \<noteq> 0)) pool)
   }"

definition hwp_init :: "'h debug_port \<Rightarrow> 'h hwp \<Rightarrow> 'h hwp option" where
  "hwp_init p s = do {
     (pool, h) \<leftarrow> hwp_probe p [0..<HWP_MAX_WP] (hwp_hw s) (hwp_flags s);
     Some (s\<lparr>hwp_flags := pool, hwp_hw := h, hwp_link := (hwp_link s)\<lparr>link_open := False\<rparr>\<rparr>)
   }"

end
