(* ===== verification/Monitor.thy ===== *)
theory Monitor
  imports Rsp_State
begin

unbundle bit_operations_syntax

text \<open>
  The monitor thread of the JTAG bridge (\<^verbatim>\<open>hardware_monitor.c\<close>): the only part that stalls and starts the
  processor. It takes one-character commands from the servers that have registered, polls a running
  target, and tells every server what has become of it.
\<close>

section \<open>State\<close>

text \<open>
  A connection is a pair of pipes: \<open>to_monitor\<close> and \<open>to_server\<close> are the characters in them. The two
  descriptors a server holds, the write end of the first and the read end of the second, name it.
\<close>

record connection =
  server_fds :: "int \<times> int"
  to_monitor :: string
  to_server :: string

record 'h monitor =
  monitor_thread_running :: bool
  target_is_running :: bool
  connections :: "connection list"
  monitor_hw :: 'h

definition MAX_MONITOR_CONNECTIONS :: nat where
  "MAX_MONITOR_CONNECTIONS = 5"

definition start_monitor_thread :: "'h monitor \<Rightarrow> 'h monitor" where
  "start_monitor_thread m = m\<lparr>target_is_running := True, monitor_thread_running := True\<rparr>"

section \<open>Registration\<close>

text \<open>The new descriptors come from the operating system; the result is 1 or 0.\<close>

definition register_with_monitor_thread :: "int \<times> int \<Rightarrow> int \<times> int \<Rightarrow> 'h monitor \<Rightarrow> int \<times> (int \<times> int) \<times> 'h monitor" where
  "register_with_monitor_thread new_fds pipe_fds m =
     (if \<not> monitor_thread_running m then (0, pipe_fds, m)
      else if length (connections m) \<ge> MAX_MONITOR_CONNECTIONS then (0, pipe_fds, m)
      else (1, new_fds, m\<lparr>connections := connections m @ [\<lparr>server_fds = new_fds, to_monitor = [], to_server = []\<rparr>]\<rparr>))"

text \<open>The first connection with these descriptors is replaced by the last one.\<close>

fun find_connection :: "int \<times> int \<Rightarrow> nat \<Rightarrow> connection list \<Rightarrow> nat option" where
  "find_connection fds i [] = None"
| "find_connection fds i (c # cs) = (if server_fds c = fds then Some i else find_connection fds (i + 1) cs)"

definition remove_connection :: "nat \<Rightarrow> connection list \<Rightarrow> connection list" where
  "remove_connection i cs =
     (if i \<noteq> length cs - 1 then butlast (cs[i := last cs]) else butlast cs)"

definition unregister_with_monitor_thread :: "int \<times> int \<Rightarrow> 'h monitor \<Rightarrow> (int \<times> int) \<times> 'h monitor" where
  "unregister_with_monitor_thread pipe_fds m =
     (if fst pipe_fds < 0 \<or> snd pipe_fds < 0 then (pipe_fds, m)
      else case find_connection pipe_fds 0 (connections m) of
        None \<Rightarrow> (pipe_fds, m)
      | Some i \<Rightarrow> ((- 1, - 1), m\<lparr>connections := remove_connection i (connections m)\<rparr>))"

section \<open>The thread\<close>

text \<open>
  What the thread does with the target is a parameter: \<open>write_ctrl\<close> is \<^verbatim>\<open>dbg_cpu0_write_ctrl(0, data)\<close>,
  \<open>read_ctrl\<close> is \<^verbatim>\<open>dbg_cpu0_read_ctrl(0, &status)\<close>.
\<close>

record 'h control_port =
  write_ctrl :: "u8 \<Rightarrow> 'h \<Rightarrow> u32 \<times> 'h"
  read_ctrl :: "'h \<Rightarrow> u32 \<times> u8 \<times> 'h"

definition stall_cpu :: "'h control_port \<Rightarrow> bool \<Rightarrow> 'h monitor \<Rightarrow> 'h monitor" where
  "stall_cpu c stall m =
     (let data = (if stall then 1 else 0);
          (_, h) = write_ctrl c data (monitor_hw m)
      in m\<lparr>monitor_hw := h, target_is_running := (data = 0)\<rparr>)"

definition notify_listeners :: "char \<Rightarrow> 'h monitor \<Rightarrow> 'h monitor" where
  "notify_listeners ch m = m\<lparr>connections := map (\<lambda>c. c\<lparr>to_server := to_server c @ [ch]\<rparr>) (connections m)\<rparr>"

definition monitor_command :: "'h control_port \<Rightarrow> char \<Rightarrow> 'h monitor \<Rightarrow> 'h monitor" where
  "monitor_command c cmd m =
     (if cmd = CHR ''S'' then
        notify_listeners CHR ''H'' (if target_is_running m then stall_cpu c True m else m)
      else if cmd = CHR ''U'' then
        notify_listeners CHR ''R'' (if \<not> target_is_running m then stall_cpu c False m else m)
      else m)"

text \<open>One command is read from every connection that \<^verbatim>\<open>select\<close> found ready, in the order of the array.\<close>

fun serve_connections :: "'h control_port \<Rightarrow> (nat \<Rightarrow> bool) \<Rightarrow> nat list \<Rightarrow> 'h monitor \<Rightarrow> 'h monitor" where
  "serve_connections c ready [] m = m"
| "serve_connections c ready (i # is) m =
     (if ready i then
        case to_monitor (connections m ! i) of
          [] \<Rightarrow> serve_connections c ready is m
        | cmd # cmds \<Rightarrow>
            serve_connections c ready is
              (monitor_command c cmd (m\<lparr>connections := (connections m)[i := (connections m ! i)\<lparr>to_monitor := cmds\<rparr>]\<rparr>))
      else serve_connections c ready is m)"

text \<open>A running target is polled; bit 0 of its status says that it has stalled.\<close>

definition poll_target :: "'h control_port \<Rightarrow> 'h monitor \<Rightarrow> 'h monitor" where
  "poll_target c m =
     (if target_is_running m then
        (let (ret, status, h) = read_ctrl c (monitor_hw m); m = m\<lparr>monitor_hw := h\<rparr>
         in if ret \<noteq> APP_ERR_NONE then m
            else if status AND 0x01 \<noteq> 0 then notify_listeners CHR ''H'' (m\<lparr>target_is_running := False\<rparr>)
            else m)
      else m)"

text \<open>The result of \<^verbatim>\<open>select\<close>: an error, a timeout, or the connections with data.\<close>

datatype select_result = Select_Error | Select_Timeout | Select_Ready "nat \<Rightarrow> bool"

definition target_handler_pass :: "'h control_port \<Rightarrow> select_result \<Rightarrow> 'h monitor \<Rightarrow> 'h monitor" where
  "target_handler_pass c sel m =
     (case sel of
        Select_Ready ready \<Rightarrow> serve_connections c ready [0..<length (connections m)] m
      | _ \<Rightarrow> poll_target c m)"

end
