(* ===== verification/Hwp_Spec.thy ===== *)
theory Hwp_Spec
  imports Hwp_Server Monitor Rsp_Server_Spec
begin

unbundle bit_operations_syntax

text \<open>
  What the watchpoint server and the monitor thread of the JTAG bridge do: reservation of watchpoints by
  register writes, the report of a stop, and the commands and notices of the monitor.
\<close>

section \<open>The watchpoint server\<close>

definition hwp_sends :: "string \<Rightarrow> string \<Rightarrow> 'h hwp \<Rightarrow> bool" where
  "hwp_sends body rest s \<longleftrightarrow>
     writable (hwp_link s) \<and> incoming (hwp_link s) = raw_frame body @ CHR ''+'' # rest \<and>
     CHR ''$'' \<notin> set body \<and> CHR ''#'' \<notin> set body \<and> CHR 0x03 \<notin> set body \<and> CHR 0x00 \<notin> set body \<and>
     length body < HWP_BUF_MAX - 1"

definition hwp_requested :: "string \<Rightarrow> string \<Rightarrow> 'h hwp \<Rightarrow> 'h hwp" where
  "hwp_requested body rest s =
     s\<lparr>hwp_data := received (hwp_data s) body,
       hwp_link := (hwp_link s)\<lparr>incoming := CHR ''+'' # rest, outgoing := outgoing (hwp_link s) @ ''+''\<rparr>\<rparr>"

definition hwp_replied :: "string \<Rightarrow> string \<Rightarrow> 'h hwp \<Rightarrow> 'h hwp" where
  "hwp_replied text rest s =
     s\<lparr>hwp_link := (hwp_link s)\<lparr>incoming := rest, outgoing := outgoing (hwp_link s) @ frame_text text\<rparr>\<rparr>"

lemma hwp_received:
  assumes "hwp_sends body rest s"
  shows "hwp_get_packet s = (Some (length body), hwp_requested body rest s)"
proof -
  have "get_packet HWP_BUF_MAX False (hwp_data s) (hwp_link s) =
      (Some (length body), received (hwp_data s) body,
       (hwp_link s)\<lparr>incoming := CHR ''+'' # rest, outgoing := outgoing (hwp_link s) @ ''+''\<rparr>)"
    using assms by (intro get_packet_frame [where junk = "[]"]) (auto simp: hwp_sends_def raw_frame_def)
  then show ?thesis by (simp add: hwp_get_packet_def hwp_requested_def)
qed

lemma hwp_requested_string:
  "hwp_sends body rest s \<Longrightarrow> hwp_string (hwp_requested body rest s) = body"
  using c_string_text [of "received (hwp_data s) body" 0 body HWP_BUF_MAX]
  by (auto simp: hwp_string_def hwp_requested_def hwp_sends_def)

lemma hwp_reply:
  assumes "writable (hwp_link s)" "incoming (hwp_link s) = CHR ''+'' # rest"
  shows "hwp_put_packet t s = hwp_replied t rest s"
  using put_packet_acknowledged [OF assms(1), of "[]" rest t] assms(2)
  by (simp add: hwp_put_packet_def hwp_replied_def)

lemma hwp_requested_link:
  "hwp_sends body rest s \<Longrightarrow> writable (hwp_link (hwp_requested body rest s))"
  "incoming (hwp_link (hwp_requested body rest s)) = CHR ''+'' # rest"
  by (simp_all add: hwp_sends_def hwp_requested_def)

lemma dcr_registers: "SPR_DCR 0 = 0x3008" "SPR_DCR 7 = 0x300f"
  by code_simp+

lemma note_dcr_write_eq:
  "note_dcr_write r v pool =
     (if 0x3008 \<le> r \<and> r \<le> 0x300f then pool[unat (r - 0x3008) := (v AND 0x0E \<noteq> 0 \<and> v AND 0xE0 \<noteq> 0)] else pool)"
proof (cases "0x3008 \<le> r \<and> r \<le> 0x300f")
  case True
  then have "unat (r - 0x3008) = unat r - 0x3008" by (simp add: unat_sub)
  moreover have "unat r \<le> 0x300f" using True by (simp add: word_le_nat_alt)
  ultimately have "unat (r - 0x3008) < HWP_MAX_WP" by (simp add: HWP_MAX_WP_def)
  then show ?thesis using True by (simp add: note_dcr_write_def dcr_registers hwp_set_in_use_def Let_def)
next
  case False
  then show ?thesis unfolding note_dcr_write_def dcr_registers by (simp only: if_False)
qed

text \<open>
  Writes through the watchpoint server: a \<^verbatim>\<open>P\<close> packet writes the value it spells to the target's register
  of that number and is answered \<^verbatim>\<open>OK\<close> or \<^verbatim>\<open>E01\<close>. A write to one of the eight watchpoint control registers, and no
  other, changes the pool the debugger draws from: the watchpoint is taken when the value compares
  something and free otherwise, whoever held it before, and even if the write failed.
\<close>

lemma watchpoint_reserved:
  fixes v :: u32
  assumes "hwp_sends (CHR ''P'' # hex_digits n @ CHR ''='' # reg2hex (ucast v)) rest s" "n < 2 ^ 32"
    and "cpu0_write p (of_nat n) v (hwp_hw s) = Some (err, h)"
  shows "\<exists>s'. hwp_client_request p s = Some s' \<and> hwp_hw s' = h \<and>
    hwp_flags s' = (if 0x3008 \<le> n \<and> n \<le> 0x300f
       then (hwp_flags s)[n - 0x3008 := (v AND 0x0e \<noteq> 0 \<and> v AND 0xe0 \<noteq> 0)] else hwp_flags s) \<and>
    outgoing (hwp_link s') = outgoing (hwp_link s) @ ''+'' @ frame_text (if err = APP_ERR_NONE then ''OK'' else ''E01'') \<and>
    incoming (hwp_link s') = rest"
proof -
  let ?b = "CHR ''P'' # hex_digits n @ CHR ''='' # reg2hex (ucast v)"
  let ?s = "hwp_requested ?b rest s"
  have f: "hwp_data ?s 0 = CHR ''P''" using received_nth [of 0 ?b "hwp_data s"] by (simp add: hwp_requested_def)
  have d: "hwp_client_request p s = hwp_write_reg p ?s"
    by (simp add: hwp_client_request_def hwp_received [OF assms(1)] f)
  have scan: "sscanf [Lit CHR ''P'', Hex None, Lit CHR ''='', Word (Some 8)] (hwp_string ?s) =
      [Num (of_nat n), Str (reg2hex (ucast v))]"
    using scan_P [OF assms(2)] hwp_requested_string [OF assms(1)] by simp
  have u: "ucast (of_nat n :: u64) = (of_nat n :: u32)" "unat (of_nat n :: u32) = n"
    using assms(2) by (simp_all add: word_unat_eq_iff unsigned_ucast_eq unat_of_nat take_bit_nat_eq_self)
  have c: "(0x3008 \<le> (of_nat n :: u32)) = (0x3008 \<le> n)" "((of_nat n :: u32) \<le> 0x300f) = (n \<le> 0x300f)"
    by (simp_all add: word_le_nat_alt u(2))
  have i: "unat ((of_nat n :: u32) - 0x3008) = n - 0x3008" if "0x3008 \<le> n"
    using that c(1) by (simp add: unat_sub u(2))
  have w: "writable (hwp_link (?s\<lparr>hwp_hw := h\<rparr>))" "incoming (hwp_link (?s\<lparr>hwp_hw := h\<rparr>)) = CHR ''+'' # rest"
    using hwp_requested_link(1) [OF assms(1)] by (simp_all add: hwp_requested_link(2))
  have o: "hwp_hw ?s = hwp_hw s" "hwp_flags ?s = hwp_flags s" by (simp_all add: hwp_requested_def)
  show ?thesis
    unfolding d hwp_write_reg_def scan using assms(3) u(1) c i o
    by (simp add: Let_def hex2reg_put_string hwp_put_str_packet_def HWP_BUF_MAX_def hwp_reply [OF w] note_dcr_write_eq)
      (simp add: hwp_replied_def hwp_requested_def)
qed

definition hwp_example :: "string \<Rightarrow> 'h \<Rightarrow> 'h hwp" where
  "hwp_example traffic h =
     \<lparr>hwp_link = \<lparr>link_open = True, incoming = traffic, outgoing = [], writes_left = None\<rparr>,
      hwp_target_is_running = False, use_cached_dmr2 = False, cached_dmr2 = 0, hwp_flags = replicate 8 False,
      hwp_data = (\<lambda>_. CHR 0x00), hwp_stack = (\<lambda>_. CHR 0x00), hwp_hw = h\<rparr>"

lemma watchpoint_reserved_witness:
  "\<exists>s'. let s = hwp_example (raw_frame (CHR ''P'' # hex_digits 0x300a @ CHR ''='' # reg2hex (ucast (0x63 :: u32))) @ ''+'') (\<lambda>_. 0, \<lambda>_. 0)
    in hwp_client_request storing_target s = Some s' \<and> hwp_flags s' = [False, False, True, False, False, False, False, False] \<and>
       fst (hwp_hw s') 0x300a = 0x63"
proof -
  let ?b = "CHR ''P'' # hex_digits 0x300a @ CHR ''='' # reg2hex (ucast (0x63 :: u32))"
  have "hex_digit 3 = CHR ''3''" "hex_digit 0 = CHR ''0''" "hex_digit 10 = CHR ''a''" by code_simp+
  then have h: "hex_digits 0x300a = ''300a''"
    by (simp add: hex_digits.simps [of 12298] hex_digits.simps [of 768] hex_digits.simps [of 48] hex_digits.simps [of 3])
  have l: "(replicate 8 False)[2 := True] = [False, False, True, False, False, False, False, False]" by code_simp
  have "reg2hex (ucast (0x63 :: u32)) = ''00000063''" by code_simp
  with h have "?b = ''P300a=00000063''" by simp
  then have c: "hwp_sends ?b [] (hwp_example (raw_frame ?b @ ''+'') (\<lambda>_. 0, \<lambda>_. 0))"
    by (simp add: hwp_sends_def hwp_example_def writable_def HWP_BUF_MAX_def)
  show ?thesis
    using watchpoint_reserved [OF c, of storing_target 0 "((\<lambda>_. 0)(0x300a := 0x63), \<lambda>_. 0)"]
    by (auto simp: hwp_example_def Let_def l simp del: replicate.simps)
qed

text \<open>
  The stop report of the watchpoint server works only for a program counter below \<open>0x100\<close>: it indexes the
  digit string with the whole counter shifted by four. From \<open>0x110\<close> on, which is every program behind the
  exception vectors' first page, the access is outside the string; in between the digits are cut off.
\<close>

lemma stop_report_bounds:
  assumes "hwp_sends ''?'' rest s" "\<not> hwp_target_is_running s"
    and "cpu0_read p DSPR_PPC (hwp_hw s) = Some (err, ppc, h)"
  shows "(case hwp_client_request p s of
      None \<Rightarrow> 0x110 \<le> ppc
    | Some s' \<Rightarrow> ppc < 0x110 \<and>
        outgoing (hwp_link s') = outgoing (hwp_link s) @ ''+'' @
          frame_text (if ppc < 0x100 then CHR ''S'' # hex_byte (ucast ppc) else ''S''))"
proof -
  let ?s = "hwp_requested ''?'' rest s"
  have f: "hwp_data ?s 0 = CHR ''?''" using received_nth [of 0 "''?''" "hwp_data s"] by (simp add: hwp_requested_def)
  have r: "hwp_target_is_running ?s = hwp_target_is_running s" "hwp_hw ?s = hwp_hw s" by (simp_all add: hwp_requested_def)
  have d: "hwp_client_request p s = hwp_report_stop p ?s"
    using assms(2) by (simp add: hwp_client_request_def hwp_received [OF assms(1)] f r)
  have w: "writable (hwp_link (?s\<lparr>hwp_hw := h\<rparr>))" "incoming (hwp_link (?s\<lparr>hwp_hw := h\<rparr>)) = CHR ''+'' # rest"
    using hwp_requested_link(1) [OF assms(1)] by (simp_all add: hwp_requested_link(2))
  have q: "unat (drop_bit 4 ppc) = unat ppc div 16" by (simp add: unat_drop_bit_eq drop_bit_eq_div unat_div)
  have m: "unat (ppc mod 16) = unat ppc mod 16" by (simp add: unat_mod)
  have z: "hex_digit k \<noteq> CHR 0x00" if "k < 16" for k using digit_plain [OF that] by simp
  have l: "(ppc < 0x110) = (unat ppc < 0x110)" "(ppc < 0x100) = (unat ppc < 0x100)" "(0x110 \<le> ppc) = (0x110 \<le> unat ppc)"
    by (simp_all add: word_less_nat_alt word_le_nat_alt)
  consider "unat ppc < 0x100" | "0x100 \<le> unat ppc" "unat ppc < 0x110" | "0x110 \<le> unat ppc" by linarith
  then show ?thesis
  proof cases
    case 1
    then have b: "unat (ucast ppc :: u8) = unat ppc" by (simp add: unsigned_ucast_eq take_bit_nat_eq_self)
    have k: "unat ppc div 16 < 16" "unat ppc mod 16 < 16" using 1 by auto
    show ?thesis
      unfolding d hwp_report_stop_def using assms(3) 1 k z
      by (simp add: r hexchars_at_def q m l hwp_reply [OF w] hex_byte_eq b) (simp add: hwp_replied_def hwp_requested_def)
  next
    case 2
    then have "unat ppc div 16 = 16" by auto
    then show ?thesis
      unfolding d hwp_report_stop_def using assms(3) 2
      by (simp add: r hexchars_at_def q m l hwp_reply [OF w]) (simp add: hwp_replied_def hwp_requested_def)
  next
    case 3
    then have "16 < unat ppc div 16" by auto
    then show ?thesis
      unfolding d hwp_report_stop_def using assms(3) 3 by (simp add: r hexchars_at_def q m l)
  qed
qed

lemma stop_report_bounds_witness:
  "hwp_client_request storing_target (hwp_example (raw_frame ''?'' @ ''+'') (\<lambda>_. 0x2000, \<lambda>_. 0)) = None"
proof -
  have c: "hwp_sends ''?'' [] (hwp_example (raw_frame ''?'' @ ''+'') (\<lambda>_. 0x2000, \<lambda>_. 0))"
    by (simp add: hwp_sends_def hwp_example_def writable_def HWP_BUF_MAX_def)
  show ?thesis
    using stop_report_bounds [OF c, of storing_target 0 "0x2000"]
    by (auto simp: hwp_example_def split: option.splits)
qed

end
