(* ===== verification/Monitor_Spec.thy ===== *)
theory Monitor_Spec
  imports Monitor "HOL-Library.Multiset"
begin

unbundle bit_operations_syntax

text \<open>
  The monitor thread of the JTAG bridge: what one pass does with commands and queues and writes to the processor, that its idea of the
  target is ahead of the target only when a write has failed, and that its array of connections is a set.
\<close>

section \<open>One pass over the commands\<close>

definition answer_to :: "char \<Rightarrow> string" where
  "answer_to cmd = (if cmd = CHR ''S'' then ''H'' else if cmd = CHR ''U'' then ''R'' else [])"

definition running_after :: "bool \<Rightarrow> char \<Rightarrow> bool" where
  "running_after r cmd = (if cmd = CHR ''S'' then False else if cmd = CHR ''U'' then True else r)"

text \<open>
  The values written to the control register: one for each command that finds the target in the other state, 1 to stall it and 0 to
  let it run.
\<close>

fun control_writes :: "bool \<Rightarrow> string \<Rightarrow> u8 list" where
  "control_writes running [] = []"
| "control_writes running (cmd # cmds) =
     (if running_after running cmd = running then [] else [if running then 1 else 0]) @ control_writes (running_after running cmd) cmds"

definition written :: "'h control_port \<Rightarrow> u8 list \<Rightarrow> 'h \<Rightarrow> 'h" where
  "written c ds h = fold (\<lambda>d h. snd (write_ctrl c d h)) ds h"

text \<open>The first command of each ready connection.\<close>

definition pending :: "(nat \<Rightarrow> bool) \<Rightarrow> connection list \<Rightarrow> nat list \<Rightarrow> string" where
  "pending ready cs is = concat (map (\<lambda>i. if ready i then take 1 (to_monitor (cs ! i)) else []) is)"

lemma command_effect:
  "connections (monitor_command c cmd m) = map (\<lambda>k. k\<lparr>to_server := to_server k @ answer_to cmd\<rparr>) (connections m)"
  "target_is_running (monitor_command c cmd m) = running_after (target_is_running m) cmd"
  "monitor_hw (monitor_command c cmd m) = written c (control_writes (target_is_running m) [cmd]) (monitor_hw m)"
  by (auto simp: monitor_command_def notify_listeners_def stall_cpu_def answer_to_def running_after_def written_def Let_def
      split: prod.splits)

lemma written_append: "written c (ds @ es) h = written c es (written c ds h)"
  by (simp add: written_def)

lemma control_writes_Cons: "control_writes r (cmd # cmds) = control_writes r [cmd] @ control_writes (running_after r cmd) cmds"
  by simp

text \<open>The connections after the ready ones among \<open>is\<close> were served and \<open>ev\<close> was sent to all.\<close>

definition served :: "(nat \<Rightarrow> bool) \<Rightarrow> nat list \<Rightarrow> string \<Rightarrow> connection list \<Rightarrow> connection list" where
  "served ready is ev cs =
     map (\<lambda>i. (cs ! i)\<lparr>to_monitor := (if i \<in> set is \<and> ready i then tl (to_monitor (cs ! i)) else to_monitor (cs ! i)),
               to_server := to_server (cs ! i) @ ev\<rparr>) [0..<length cs]"

lemma pending_cong: "(\<And>i. i \<in> set is \<Longrightarrow> to_monitor (cs ! i) = to_monitor (ds ! i)) \<Longrightarrow> pending ready cs is = pending ready ds is"
  unfolding pending_def by (intro arg_cong [where f = concat] map_cong) auto

lemma serve_effect:
  "distinct is \<Longrightarrow> set is \<subseteq> {..<length (connections m)} \<Longrightarrow>
   connections (serve_connections c ready is m) =
     served ready is (concat (map answer_to (pending ready (connections m) is))) (connections m) \<and>
   target_is_running (serve_connections c ready is m) =
     foldl running_after (target_is_running m) (pending ready (connections m) is) \<and>
   monitor_hw (serve_connections c ready is m) =
     written c (control_writes (target_is_running m) (pending ready (connections m) is)) (monitor_hw m)"
proof (induction "is" arbitrary: m)
  case Nil
  show ?case by (auto simp: pending_def served_def written_def intro!: nth_equalityI)
next
  case (Cons i "is")
  let ?cs = "connections m"
  show ?case
  proof (cases "ready i \<and> to_monitor (?cs ! i) \<noteq> []")
    case False
    then have "serve_connections c ready (i # is) m = serve_connections c ready is m"
      by (auto split: list.split)
    moreover have "pending ready ?cs (i # is) = pending ready ?cs is" using False by (auto simp: pending_def)
    moreover have "served ready (i # is) ev ?cs = served ready is ev ?cs" for ev
      using False by (auto simp: served_def)
    ultimately show ?thesis using Cons by simp
  next
    case True
    then obtain cmd cmds where q: "to_monitor (?cs ! i) = cmd # cmds" by (cases "to_monitor (?cs ! i)") auto
    let ?cs' = "?cs[i := (?cs ! i)\<lparr>to_monitor := cmds\<rparr>]"
    let ?m = "monitor_command c cmd (m\<lparr>connections := ?cs'\<rparr>)"
    have i: "i < length ?cs" "i \<notin> set is" "distinct is" "set is \<subseteq> {..<length (connections ?m)}"
      using Cons.prems by (auto simp: command_effect)
    have m: "connections ?m ! j = (?cs' ! j)\<lparr>to_server := to_server (?cs' ! j) @ answer_to cmd\<rparr>" if "j < length ?cs" for j
      using that by (simp add: command_effect)
    have p: "pending ready (connections ?m) is = pending ready ?cs is"
    proof (rule pending_cong)
      fix j assume "j \<in> set is"
      then have "j < length ?cs" "j \<noteq> i" using Cons.prems i(2) by auto
      then show "to_monitor (connections ?m ! j) = to_monitor (?cs ! j)" by (simp add: m)
    qed
    have p': "pending ready ?cs (i # is) = cmd # pending ready ?cs is" using True q by (simp add: pending_def)
    have e: "serve_connections c ready (i # is) m = serve_connections c ready is ?m" using True q by simp
    have sv: "served ready is ev (connections ?m) = served ready (i # is) (answer_to cmd @ ev) ?cs" for ev
      by (rule nth_equalityI) (use i(1,2) True q in \<open>auto simp: served_def command_effect nth_list_update\<close>)
    have r: "target_is_running ?m = running_after (target_is_running m) cmd"
      "monitor_hw ?m = written c (control_writes (target_is_running m) [cmd]) (monitor_hw m)" by (simp_all only: command_effect) simp_all
    show ?thesis
      using Cons.IH [OF i(3,4), unfolded p sv r]
      unfolding e p' control_writes_Cons [of "target_is_running m" cmd "pending ready ?cs is"] written_append by simp
  qed
qed

text \<open>
  C21. One pass of the monitor over its commands: from every ready connection one command is taken, in the
  order of the array; each stall command is announced with an \<^verbatim>\<open>H\<close> and each resume command with an
  \<^verbatim>\<open>R\<close> to every server, in that order and whatever the target was doing; other commands are dropped. The control register
  is written exactly once for each command that finds the target in the other state, in that order, with 1 to stall it and 0 to resume
  it, and not at all otherwise; the monitor takes the target for what the last stall or resume command asked for.
\<close>

theorem monitor_broadcast:
  shows "let n = length (connections m); cmds = pending ready (connections m) [0..<n];
             m' = target_handler_pass c (Select_Ready ready) m
    in length (connections m') = n \<and>
       (\<forall>i\<in>{..<n}. to_server (connections m' ! i) = to_server (connections m ! i) @ concat (map answer_to cmds) \<and>
          to_monitor (connections m' ! i) = (if ready i then tl (to_monitor (connections m ! i)) else to_monitor (connections m ! i)) \<and>
          server_fds (connections m' ! i) = server_fds (connections m ! i)) \<and>
       target_is_running m' = foldl running_after (target_is_running m) cmds \<and>
       monitor_hw m' = written c (control_writes (target_is_running m) cmds) (monitor_hw m)"
proof -
  have "set [0..<length (connections m)] \<subseteq> {..<length (connections m)}" by auto
  from serve_effect [OF distinct_upt this, of c ready]
  show ?thesis by (simp add: Let_def target_handler_pass_def served_def)
qed

definition two_servers :: "'h \<Rightarrow> 'h monitor" where
  "two_servers h =
     \<lparr>monitor_thread_running = True, target_is_running = True,
      connections = [\<lparr>server_fds = (4, 5), to_monitor = ''SU'', to_server = []\<rparr>,
                     \<lparr>server_fds = (8, 9), to_monitor = [], to_server = ''R''\<rparr>],
      monitor_hw = h\<rparr>"

definition stall_port :: "bool control_port" where
  "stall_port = \<lparr>write_ctrl = (\<lambda>d h. (0, d \<noteq> 0)), read_ctrl = (\<lambda>h. (0, if h then 1 else 0, h))\<rparr>"

theorem monitor_broadcast_witness:
  "let m = target_handler_pass stall_port (Select_Ready (\<lambda>i. i = 0)) (two_servers False)
   in map to_server (connections m) = [''H'', ''RH''] \<and> \<not> target_is_running m \<and> monitor_hw m"
proof -
  have "pending (\<lambda>i. i = 0) (connections (two_servers False)) [0..<length (connections (two_servers False))] = ''S''" by code_simp
  then show ?thesis
    using monitor_broadcast [of "two_servers False" "\<lambda>i. i = 0" stall_port]
    by (auto simp: Let_def two_servers_def answer_to_def running_after_def written_def stall_port_def intro!: nth_equalityI)
      (auto simp: less_Suc_eq)
qed

section \<open>Target and monitor\<close>

text \<open>
  What the monitor may expect of a control port, in the states that are \<open>ready\<close>: a write that reports success has set or released the
  stall line, a read that reports success tells whether the processor is stalled. Of calls that fail nothing is known, except that the
  port can be used again.
\<close>

definition stall_line :: "'h control_port \<Rightarrow> ('h \<Rightarrow> bool) \<Rightarrow> ('h \<Rightarrow> bool) \<Rightarrow> bool" where
  "stall_line c ready stalled \<longleftrightarrow>
     (\<forall>d h err h'. ready h \<and> d \<le> 1 \<and> write_ctrl c d h = (err, h') \<longrightarrow>
        ready h' \<and> (err = APP_ERR_NONE \<longrightarrow> stalled h' = (d = 1))) \<and>
     (\<forall>h err status h'. ready h \<and> read_ctrl c h = (err, status, h') \<longrightarrow>
        ready h' \<and> (err = APP_ERR_NONE \<longrightarrow> stalled h' = (status AND 1 \<noteq> 0)))"

text \<open>The state in which a stall command has left the hardware when the write failed.\<close>

definition stall_failed :: "'h control_port \<Rightarrow> ('h \<Rightarrow> bool) \<Rightarrow> 'h \<Rightarrow> bool" where
  "stall_failed c ready h \<longleftrightarrow> (\<exists>h0 err. ready h0 \<and> write_ctrl c 1 h0 = (err, h) \<and> err \<noteq> APP_ERR_NONE)"

lemma stall_lineD:
  assumes "stall_line c ready stalled"
  shows "ready h \<Longrightarrow> d \<le> 1 \<Longrightarrow> write_ctrl c d h = (err, h') \<Longrightarrow> ready h'"
    "ready h \<Longrightarrow> d \<le> 1 \<Longrightarrow> write_ctrl c d h = (APP_ERR_NONE, h') \<Longrightarrow> stalled h' = (d = 1)"
    "ready h \<Longrightarrow> read_ctrl c h = (err, status, h') \<Longrightarrow> ready h'"
    "ready h \<Longrightarrow> read_ctrl c h = (APP_ERR_NONE, status, h') \<Longrightarrow> stalled h' = (status AND 1 \<noteq> 0)"
  using assms unfolding stall_line_def by blast+

text \<open>
  What can happen: a pass of the thread, a server registering, leaving or writing commands, and the processor stalling
  of its own accord.
\<close>

inductive monitor_step :: "'h control_port \<Rightarrow> ('h \<Rightarrow> bool) \<Rightarrow> ('h \<Rightarrow> bool) \<Rightarrow> 'h monitor \<Rightarrow> 'h monitor \<Rightarrow> bool" for c ready stalled where
  pass: "monitor_step c ready stalled m (target_handler_pass c sel m)"
| joins: "register_with_monitor_thread new_fds fds m = (r, fds', m') \<Longrightarrow> monitor_step c ready stalled m m'"
| leaves: "unregister_with_monitor_thread fds m = (fds', m') \<Longrightarrow> monitor_step c ready stalled m m'"
| commands: "map server_fds cs = map server_fds (connections m) \<Longrightarrow> map to_server cs = map to_server (connections m) \<Longrightarrow>
    monitor_step c ready stalled m (m\<lparr>connections := cs\<rparr>)"
| stalls: "ready h \<Longrightarrow> stalled h \<Longrightarrow> monitor_step c ready stalled m (m\<lparr>monitor_hw := h\<rparr>)"

definition not_ahead :: "'h control_port \<Rightarrow> ('h \<Rightarrow> bool) \<Rightarrow> ('h \<Rightarrow> bool) \<Rightarrow> 'h monitor \<Rightarrow> bool" where
  "not_ahead c ready stalled m \<longleftrightarrow>
     ready (monitor_hw m) \<and>
     (target_is_running m \<or> stalled (monitor_hw m) \<or> stall_failed c ready (monitor_hw m))"

lemma command_not_ahead:
  assumes "stall_line c ready stalled" "not_ahead c ready stalled m"
  shows "not_ahead c ready stalled (monitor_command c cmd m)"
proof -
  have r: "ready (monitor_hw m)" using assms(2) by (simp add: not_ahead_def)
  obtain e h where w: "write_ctrl c 1 (monitor_hw m) = (e, h)" by fastforce
  obtain e' h' where w': "write_ctrl c 0 (monitor_hw m) = (e', h')" by fastforce
  have "stalled h \<or> stall_failed c ready h"
  proof (cases "e = APP_ERR_NONE")
    case True
    then show ?thesis using stall_lineD(2) [OF assms(1) r, of 1 h] w by simp
  next
    case False
    then show ?thesis using r w unfolding stall_failed_def by blast
  qed
  then show ?thesis
    using assms(2) stall_lineD(1) [OF assms(1) r _ w] stall_lineD(1) [OF assms(1) r _ w'] w w'
    by (auto simp: monitor_command_def notify_listeners_def stall_cpu_def not_ahead_def Let_def)
qed

lemma serve_not_ahead:
  "stall_line c ready stalled \<Longrightarrow> not_ahead c ready stalled m \<Longrightarrow> not_ahead c ready stalled (serve_connections c rd is m)"
proof (induction "is" arbitrary: m)
  case (Cons i "is")
  have "not_ahead c ready stalled (m\<lparr>connections := cs\<rparr>)" for cs using Cons.prems by (simp add: not_ahead_def)
  then show ?case using Cons.prems by (auto split: list.split intro!: Cons.IH command_not_ahead)
qed simp

text \<open>A poll that reads the status; the belief is then the truth.\<close>

lemma poll_agrees:
  assumes "stall_line c ready stalled" "ready (monitor_hw m)" "target_is_running m" "read_ctrl c (monitor_hw m) = (APP_ERR_NONE, status, h)"
  shows "target_is_running (poll_target c m) = (\<not> stalled h)" "monitor_hw (poll_target c m) = h"
  using stall_lineD(4) [OF assms(1,2,4)] assms(3,4)
  by (auto simp: poll_target_def notify_listeners_def Let_def)

lemma poll_not_ahead:
  assumes "stall_line c ready stalled" "not_ahead c ready stalled m"
  shows "not_ahead c ready stalled (poll_target c m)"
proof (cases "target_is_running m")
  case True
  have r: "ready (monitor_hw m)" using assms(2) by (simp add: not_ahead_def)
  obtain e st h where rd: "read_ctrl c (monitor_hw m) = (e, st, h)" by (metis prod_cases3)
  note h = stall_lineD(3) [OF assms(1) r rd]
  show ?thesis
  proof (cases "e = APP_ERR_NONE")
    case True
    then show ?thesis using poll_agrees [OF assms(1) r \<open>target_is_running m\<close>] rd h by (auto simp: not_ahead_def)
  next
    case False
    then show ?thesis using True rd h by (simp add: poll_target_def not_ahead_def)
  qed
qed (use assms(2) in \<open>simp add: poll_target_def\<close>)

lemma step_not_ahead:
  assumes "monitor_step c ready stalled m m'" "stall_line c ready stalled" "not_ahead c ready stalled m"
  shows "not_ahead c ready stalled m'"
  using assms
proof (induction rule: monitor_step.induct)
  case (pass m sel)
  then show ?case by (cases sel) (simp_all add: target_handler_pass_def serve_not_ahead poll_not_ahead)
next
  case (joins new_fds fds m r fds' m')
  then show ?case by (auto simp: register_with_monitor_thread_def not_ahead_def split: if_splits)
next
  case (leaves fds m fds' m')
  then show ?case by (auto simp: unregister_with_monitor_thread_def not_ahead_def split: if_splits option.splits)
qed (simp_all add: not_ahead_def)

lemma reachable_not_ahead:
  assumes "(monitor_step c ready stalled)\<^sup>*\<^sup>* (start_monitor_thread m0) m" "stall_line c ready stalled" "ready (monitor_hw m0)"
  shows "not_ahead c ready stalled m"
  using assms(1)
proof (induction rule: rtranclp_induct)
  case base
  show ?case using assms(3) by (simp add: not_ahead_def start_monitor_thread_def)
next
  case (step y z)
  then show ?case using step_not_ahead assms(2) by blast
qed

text \<open>
  Nobody looks at the result of the write: a stall command that fails is announced like one that has succeeded, and the
  target, which may still run, is not polled any more.
\<close>

lemma failed_stall_announced:
  assumes "target_is_running m" "write_ctrl c 1 (monitor_hw m) = (err, h)"
  shows "monitor_command c CHR ''S'' m = notify_listeners CHR ''H'' (m\<lparr>monitor_hw := h, target_is_running := False\<rparr>)"
    "poll_target c (monitor_command c CHR ''S'' m) = monitor_command c CHR ''S'' m"
  using assms by (simp_all add: monitor_command_def stall_cpu_def notify_listeners_def poll_target_def)

text \<open>
  C36. What the monitor believes of the target: however passes, registrations, commands and spontaneous stalls follow each other, on any
  control port that keeps the contract \<open>stall_line\<close>, writes and reads that fail included, when the thread holds the target for stopped then
  the processor is stalled, or else the very write that should have stalled it has just failed, which the thread does not notice. And
  one successful poll of a target that is held for running brings belief and truth into agreement.
\<close>

theorem monitor_not_ahead:
  assumes "stall_line c ready stalled" "ready (monitor_hw m0)" "(monitor_step c ready stalled)\<^sup>*\<^sup>* (start_monitor_thread m0) m"
  shows "(\<not> target_is_running m \<longrightarrow> stalled (monitor_hw m) \<or> stall_failed c ready (monitor_hw m)) \<and>
    (\<forall>status h. target_is_running m \<and> read_ctrl c (monitor_hw m) = (APP_ERR_NONE, status, h) \<longrightarrow>
       target_is_running (target_handler_pass c Select_Timeout m) = (\<not> stalled (monitor_hw (target_handler_pass c Select_Timeout m))))"
  using reachable_not_ahead [OF assms(3,1,2)] poll_agrees [OF assms(1)]
  by (auto simp: not_ahead_def target_handler_pass_def)

section \<open>The array of connections\<close>

lemma find_connection_Some:
  "find_connection fds k cs = Some i \<Longrightarrow> k \<le> i \<and> i < k + length cs \<and> server_fds (cs ! (i - k)) = fds"
proof (induction cs arbitrary: k)
  case (Cons c cs)
  then show ?case by (cases "server_fds c = fds") (fastforce simp: nth_Cons')+
qed simp

lemma find_connection_None: "find_connection fds k cs = None \<longleftrightarrow> fds \<notin> server_fds ` set cs"
  by (induction cs arbitrary: k) auto

lemma remove_connection_mset:
  assumes "i < length cs"
  shows "mset (remove_connection i cs) = mset cs - {#cs ! i#}"
proof -
  from assms obtain xs x where cs: "cs = xs @ [x]" by (metis length_0_conv not_less_zero rev_exhaust)
  show ?thesis
  proof (cases "i = length cs - 1")
    case True
    then show ?thesis by (simp add: remove_connection_def cs)
  next
    case False
    then have i: "i < length xs" using assms by (simp add: cs)
    then have "mset (xs[i := x]) = add_mset x (mset xs - {#xs ! i#})" by (rule mset_update)
    moreover have "xs ! i \<in># mset xs" using i by simp
    ultimately show ?thesis using i by (simp add: remove_connection_def cs list_update_append nth_append)
  qed
qed

text \<open>
  Leaving the monitor: a registered server's connection is removed from the array and no other, with all
  queues of the others as they were, wherever it stood; its descriptors become invalid, so that leaving
  twice changes nothing.
\<close>

lemma leaving_exact:
  assumes "distinct (map server_fds (connections m))" "k \<in> set (connections m)"
    and "server_fds k = fds" "0 \<le> fst fds" "0 \<le> snd fds"
  shows "\<exists>m'. unregister_with_monitor_thread fds m = ((- 1, - 1), m') \<and>
    mset (connections m') = mset (connections m) - {#k#} \<and>
    unregister_with_monitor_thread (- 1, - 1) m' = ((- 1, - 1), m') \<and>
    target_is_running m' = target_is_running m \<and> monitor_hw m' = monitor_hw m"
proof -
  let ?cs = "connections m"
  obtain i where i: "find_connection fds 0 ?cs = Some i"
    using find_connection_None [of fds 0 ?cs] assms(2,3) by (cases "find_connection fds 0 ?cs") auto
  note f = find_connection_Some [OF i]
  then have "?cs ! i = k"
    using assms(1,2,3) by (metis add_0 diff_zero distinct_map inj_onD nth_mem)
  then show ?thesis
    using f i assms(4,5) remove_connection_mset [of i ?cs]
    by (simp add: unregister_with_monitor_thread_def)
qed

lemma leaving_exact_witness:
  "\<exists>m'. unregister_with_monitor_thread (4, 5) (two_servers h) = ((- 1, - 1), m') \<and>
     mset (connections m') = {#\<lparr>server_fds = (8, 9), to_monitor = [], to_server = ''R''\<rparr>#}"
  using leaving_exact [of "two_servers h" "\<lparr>server_fds = (4, 5), to_monitor = ''SU'', to_server = []\<rparr>" "(4, 5)"]
  by (auto simp: two_servers_def)

end
