(* ===== verification/Jtag_Cable.thy ===== *)
theory Jtag_Cable
  imports Errcodes
begin

unbundle bit_operations_syntax

text \<open>
  The cable layer of the JTAG bridge (\<^verbatim>\<open>cable_common.h\<close>, \<^verbatim>\<open>cable_common.c\<close>): a driver is a structure of functions,
  \<open>'h\<close> the state of the cable and of everything behind it. The functions that bit-bang a
  whole stream serve every driver that has nothing faster.
\<close>

section \<open>Packets and pins\<close>

definition TRST :: u8 where [err_defs]: "TRST = 0x04"
definition TMS :: u8 where [err_defs]: "TMS = 0x02"
definition TDO :: u8 where [err_defs]: "TDO = 0x01"
definition TCLK_BIT :: u8 where [err_defs]: "TCLK_BIT = 0x01"
definition TRST_BIT :: u8 where [err_defs]: "TRST_BIT = 0x02"
definition TDI_BIT :: u8 where [err_defs]: "TDI_BIT = 0x04"
definition TMS_BIT :: u8 where [err_defs]: "TMS_BIT = 0x08"

section \<open>Drivers\<close>

text \<open>
  \<^verbatim>\<open>struct jtag_cable_t\<close>, without name, options and help text. A stream is an array of 32-bit words; the
  last argument of the stream functions says whether \<^verbatim>\<open>TMS\<close> is set with the last bit. A reading stream function returns the words it
  stores.
\<close>

record 'h jtag_cable =
  inout_func :: "u8 \<Rightarrow> 'h \<Rightarrow> u32 \<times> u8 \<times> 'h"
  out_func :: "u8 \<Rightarrow> 'h \<Rightarrow> u32 \<times> 'h"
  bit_out_func :: "u8 \<Rightarrow> 'h \<Rightarrow> u32 \<times> 'h"
  bit_inout_func :: "u8 \<Rightarrow> 'h \<Rightarrow> u32 \<times> u8 \<times> 'h"
  stream_out_func :: "u32 list \<Rightarrow> int \<Rightarrow> bool \<Rightarrow> 'h \<Rightarrow> u32 \<times> 'h"
  stream_inout_func :: "u32 list \<Rightarrow> int \<Rightarrow> bool \<Rightarrow> 'h \<Rightarrow> u32 \<times> u32 list \<times> 'h"
  flush_func :: "('h \<Rightarrow> u32 \<times> 'h) option"

definition cable_write_stream :: "'h jtag_cable \<Rightarrow> u32 list \<Rightarrow> int \<Rightarrow> bool \<Rightarrow> 'h \<Rightarrow> u32 \<times> 'h" where
  "cable_write_stream c stream len_bits set_last_bit h = stream_out_func c stream len_bits set_last_bit h"

definition cable_read_write_stream :: "'h jtag_cable \<Rightarrow> u32 list \<Rightarrow> int \<Rightarrow> bool \<Rightarrow> 'h \<Rightarrow> u32 \<times> u32 list \<times> 'h" where
  "cable_read_write_stream c outstream len_bits set_last_bit h = stream_inout_func c outstream len_bits set_last_bit h"

definition cable_write_bit :: "'h jtag_cable \<Rightarrow> u8 \<Rightarrow> 'h \<Rightarrow> u32 \<times> 'h" where
  "cable_write_bit c packet h = bit_out_func c packet h"

definition cable_read_write_bit :: "'h jtag_cable \<Rightarrow> u8 \<Rightarrow> 'h \<Rightarrow> u32 \<times> u8 \<times> 'h" where
  "cable_read_write_bit c packet_out h = bit_inout_func c packet_out h"

definition cable_flush :: "'h jtag_cable \<Rightarrow> 'h \<Rightarrow> u32 \<times> 'h" where
  "cable_flush c h = (case flush_func c of Some f \<Rightarrow> f h | None \<Rightarrow> (APP_ERR_NONE, h))"

section \<open>Bit-banging\<close>

text \<open>The pins of a packet: reset is active low on the wire and active high in the packet.\<close>

definition pins_of :: "u8 \<Rightarrow> u8" where
  "pins_of packet =
     (let data = TRST_BIT;
          data = (if packet AND TDO \<noteq> 0 then data OR TDI_BIT else data);
          data = (if packet AND TMS \<noteq> 0 then data OR TMS_BIT else data)
      in if packet AND TRST \<noteq> 0 then data AND NOT TRST_BIT else data)"

definition cable_common_write_bit :: "(u8 \<Rightarrow> 'h \<Rightarrow> u32 \<times> 'h) \<Rightarrow> u8 \<Rightarrow> 'h \<Rightarrow> u32 \<times> 'h" where
  "cable_common_write_bit out packet =
     (let data = pins_of packet in err_seq [out data, out (data OR TCLK_BIT)])"

definition cable_common_read_write_bit ::
  "(u8 \<Rightarrow> 'h \<Rightarrow> u32 \<times> 'h) \<Rightarrow> (u8 \<Rightarrow> 'h \<Rightarrow> u32 \<times> u8 \<times> 'h) \<Rightarrow> u8 \<Rightarrow> 'h \<Rightarrow> u32 \<times> u8 \<times> 'h" where
  "cable_common_read_write_bit out inout packet_out h =
     (let data = pins_of packet_out;
          (e, h) = out data h;
          (e', bit_in, h) = inout (data OR TCLK_BIT) h
      in (e OR e', bit_in, h))"

text \<open>
  The loop of \<^verbatim>\<open>cable_common_write_stream\<close> over all bits but the last, with the position in the array. The last bit is
  taken from the word at \<open>index\<close> with the shift count \<^verbatim>\<open>len_bits - 1\<close>, which C defines for at most 32
  bits only; the host's shift uses the low five bits of the count (\<^term>\<open>c_shr\<close>).
\<close>

definition stream_bit :: "u32 list \<Rightarrow> nat \<Rightarrow> u32 \<Rightarrow> u8" where
  "stream_bit stream index n = ucast (c_shr (stream ! index) n AND 1)"

definition next_index :: "nat \<Rightarrow> nat \<Rightarrow> nat \<times> nat" where
  "next_index index bits_this_index =
     (if bits_this_index + 1 \<ge> 32 then (index + 1, 0) else (index, bits_this_index + 1))"

fun write_stream_loop :: "(u8 \<Rightarrow> 'h \<Rightarrow> u32 \<times> 'h) \<Rightarrow> u32 list \<Rightarrow> nat \<Rightarrow> nat \<Rightarrow> nat \<Rightarrow> u32 \<Rightarrow> 'h \<Rightarrow> nat \<times> u32 \<times> 'h" where
  "write_stream_loop write_bit stream 0 index bits err h = (index, err, h)"
| "write_stream_loop write_bit stream (Suc n) index bits err h =
     (let (e, h) = write_bit (stream_bit stream index (of_nat bits)) h;
          (index, bits) = next_index index bits
      in write_stream_loop write_bit stream n index bits (err OR e) h)"

definition cable_common_write_stream :: "(u8 \<Rightarrow> 'h \<Rightarrow> u32 \<times> 'h) \<Rightarrow> u32 list \<Rightarrow> int \<Rightarrow> bool \<Rightarrow> 'h \<Rightarrow> u32 \<times> 'h" where
  "cable_common_write_stream write_bit stream len_bits set_last_bit h =
     (let (index, err, h) = write_stream_loop write_bit stream (nat (len_bits - 1)) 0 0 APP_ERR_NONE h;
          out = stream_bit stream index (of_int (len_bits - 1));
          out = (if set_last_bit then out OR TMS else out);
          (e, h) = write_bit out h
      in (err OR e, h))"

fun read_stream_loop ::
  "(u8 \<Rightarrow> 'h \<Rightarrow> u32 \<times> u8 \<times> 'h) \<Rightarrow> u32 list \<Rightarrow> nat \<Rightarrow> nat \<Rightarrow> nat \<Rightarrow> u32 list \<Rightarrow> u32 \<Rightarrow> 'h \<Rightarrow> nat \<times> nat \<times> u32 list \<times> u32 \<times> 'h" where
  "read_stream_loop rw_bit outstream 0 index bits instream err h = (index, bits, instream, err, h)"
| "read_stream_loop rw_bit outstream (Suc n) index bits instream err h =
     (let (e, inval, h) = rw_bit (stream_bit outstream index (of_nat bits)) h;
          instream = instream[index := instream ! index OR c_shl (ucast inval) (of_nat bits)];
          (index', bits') = next_index index bits;
          instream = (if index' \<noteq> index then instream @ [0] else instream)
      in read_stream_loop rw_bit outstream n index' bits' instream (err OR e) h)"

definition cable_common_read_stream :: "(u8 \<Rightarrow> 'h \<Rightarrow> u32 \<times> u8 \<times> 'h) \<Rightarrow> u32 list \<Rightarrow> int \<Rightarrow> bool \<Rightarrow> 'h \<Rightarrow> u32 \<times> u32 list \<times> 'h" where
  "cable_common_read_stream rw_bit outstream len_bits set_last_bit h =
     (let (index, bits, instream, err, h) = read_stream_loop rw_bit outstream (nat (len_bits - 1)) 0 0 [0] APP_ERR_NONE h;
          outval = stream_bit outstream index (of_int (len_bits - 1));
          outval = (if set_last_bit then outval OR TMS else outval);
          (e, inval, h) = rw_bit outval h;
          instream = instream[index := instream ! index OR c_shl (ucast inval) (of_nat bits)]
      in (err OR e, instream, h))"

text \<open>The drivers of the simulators and of the bit-banged cables: all four functions are the common ones.\<close>

definition common_cable :: "(u8 \<Rightarrow> 'h \<Rightarrow> u32 \<times> 'h) \<Rightarrow> (u8 \<Rightarrow> 'h \<Rightarrow> u32 \<times> u8 \<times> 'h) \<Rightarrow> 'h jtag_cable" where
  "common_cable out inout =
     \<lparr>inout_func = inout, out_func = out,
      bit_out_func = cable_common_write_bit out,
      bit_inout_func = cable_common_read_write_bit out inout,
      stream_out_func = cable_common_write_stream (cable_common_write_bit out),
      stream_inout_func = cable_common_read_stream (cable_common_read_write_bit out inout),
      flush_func = None\<rparr>"

end
