(* ===== verification/Jtag_Chain.thy ===== *)
theory Jtag_Chain
  imports Jtag_Cable
begin

unbundle bit_operations_syntax

text \<open>
  Transactions on the JTAG chain (\<^verbatim>\<open>chain_commands.c\<close>): walking the test access port, loading its instruction
  register, streams that allow for other devices on the chain, enumeration of the devices, retries.
\<close>

section \<open>State\<close>

text \<open>
  The globals of \<^verbatim>\<open>chain_commands.c\<close>, those of \<^verbatim>\<open>adv_dbg_commands.c\<close> (\<^verbatim>\<open>current_reg_idx\<close>, which \<^verbatim>\<open>tap_reset\<close> clears, and
  the sizes of the scratchpads) and the checksums of \<^verbatim>\<open>legacy_dbg_commands.c\<close>; \<open>port\<close> is the
  cable and everything behind it. Lengths of registers are numbers of bits. The array \<^verbatim>\<open>ir_chain\<close> is written before every
  use, and its length depends on the configuration only, which is complete before the first use; it is
  not part of the state.
\<close>

record 'h jtag =
  port :: 'h
  current_chain :: int
  desired_chain :: int
  current_reg_idx :: "int list"
  soft_retry_no :: nat
  global_IR_size :: nat
  global_IR_prefix_bits :: nat
  global_IR_postfix_bits :: nat
  global_DR_prefix_bits :: nat
  global_DR_postfix_bits :: nat
  global_jtag_cmd_debug :: u32
  global_altera_virtual_jtag :: bool
  vjtag_cmd_vir :: u32
  vjtag_cmd_vdr :: u32
  global_xilinx_bscan :: bool
  input_scratchpad_size :: int
  output_scratchpad_size :: int
  legacy_crc_r :: u32
  legacy_crc_w :: u32

definition DBG_MAX_MODULES :: nat where "DBG_MAX_MODULES = 4"
definition NUM_SOFT_RETRIES :: nat where "NUM_SOFT_RETRIES = 0"
definition ALT_VJTAG_IR_SIZE :: nat where "ALT_VJTAG_IR_SIZE = 4"
definition ALT_VJTAG_CMD_DEBUG :: u32 where "ALT_VJTAG_CMD_DEBUG = 0x8"

definition ALTERA_CYCLONE_CMD_VIR :: u32 where "ALTERA_CYCLONE_CMD_VIR = 0x0E"
definition ALTERA_CYCLONE_CMD_VDR :: u32 where "ALTERA_CYCLONE_CMD_VDR = 0x0C"

text \<open>The globals as the program starts.\<close>

definition jtag_globals :: "'h \<Rightarrow> 'h jtag" where
  "jtag_globals h =
     \<lparr>port = h, current_chain = - 1, desired_chain = - 1, current_reg_idx = replicate DBG_MAX_MODULES 0, soft_retry_no = 0,
      global_IR_size = 0, global_IR_prefix_bits = 0, global_IR_postfix_bits = 0, global_DR_prefix_bits = 0,
      global_DR_postfix_bits = 0, global_jtag_cmd_debug = 0, global_altera_virtual_jtag = False,
      vjtag_cmd_vir = ALTERA_CYCLONE_CMD_VIR, vjtag_cmd_vdr = ALTERA_CYCLONE_CMD_VDR, global_xilinx_bscan = False,
      input_scratchpad_size = 0, output_scratchpad_size = 0, legacy_crc_r = 0, legacy_crc_w = 0\<rparr>"

definition config_set_IR_size :: "nat \<Rightarrow> 'h jtag \<Rightarrow> 'h jtag" where
  "config_set_IR_size len s = s\<lparr>global_IR_size := len\<rparr>"

definition config_set_IR_prefix_bits :: "nat \<Rightarrow> 'h jtag \<Rightarrow> 'h jtag" where
  "config_set_IR_prefix_bits bits s = s\<lparr>global_IR_prefix_bits := bits\<rparr>"

definition config_set_IR_postfix_bits :: "nat \<Rightarrow> 'h jtag \<Rightarrow> 'h jtag" where
  "config_set_IR_postfix_bits bits s = s\<lparr>global_IR_postfix_bits := bits\<rparr>"

definition config_set_DR_prefix_bits :: "nat \<Rightarrow> 'h jtag \<Rightarrow> 'h jtag" where
  "config_set_DR_prefix_bits bits s = s\<lparr>global_DR_prefix_bits := bits\<rparr>"

definition config_set_DR_postfix_bits :: "nat \<Rightarrow> 'h jtag \<Rightarrow> 'h jtag" where
  "config_set_DR_postfix_bits bits s = s\<lparr>global_DR_postfix_bits := bits\<rparr>"

definition config_set_debug_cmd :: "u32 \<Rightarrow> 'h jtag \<Rightarrow> 'h jtag" where
  "config_set_debug_cmd cmd s = s\<lparr>global_jtag_cmd_debug := cmd\<rparr>"

definition config_set_alt_vjtag :: "u8 \<Rightarrow> 'h jtag \<Rightarrow> 'h jtag" where
  "config_set_alt_vjtag enable s = s\<lparr>global_altera_virtual_jtag := (enable \<noteq> 0)\<rparr>"

definition config_set_vjtag_cmd_vir :: "u32 \<Rightarrow> 'h jtag \<Rightarrow> 'h jtag" where
  "config_set_vjtag_cmd_vir cmd s = s\<lparr>vjtag_cmd_vir := cmd\<rparr>"

definition config_set_vjtag_cmd_vdr :: "u32 \<Rightarrow> 'h jtag \<Rightarrow> 'h jtag" where
  "config_set_vjtag_cmd_vdr cmd s = s\<lparr>vjtag_cmd_vdr := cmd\<rparr>"

definition config_set_xilinx_bscan :: "u8 \<Rightarrow> 'h jtag \<Rightarrow> 'h jtag" where
  "config_set_xilinx_bscan enable s = s\<lparr>global_xilinx_bscan := (enable \<noteq> 0)\<rparr>"

section \<open>Bits and streams\<close>

text \<open>A call of the cable layer, which changes nothing but the cable.\<close>

definition on_port :: "('h \<Rightarrow> u32 \<times> 'h) \<Rightarrow> 'h jtag \<Rightarrow> u32 \<times> 'h jtag" where
  "on_port f s = (case f (port s) of (e, h) \<Rightarrow> (e, s\<lparr>port := h\<rparr>))"

definition read_port :: "('h \<Rightarrow> u32 \<times> 'a \<times> 'h) \<Rightarrow> 'h jtag \<Rightarrow> u32 \<times> 'a \<times> 'h jtag" where
  "read_port f s = (case f (port s) of (e, x, h) \<Rightarrow> (e, x, s\<lparr>port := h\<rparr>))"

definition jtag_write_bit :: "'h jtag_cable \<Rightarrow> u8 \<Rightarrow> 'h jtag \<Rightarrow> u32 \<times> 'h jtag" where
  "jtag_write_bit c packet = on_port (cable_write_bit c packet)"

definition jtag_read_write_bit :: "'h jtag_cable \<Rightarrow> u8 \<Rightarrow> 'h jtag \<Rightarrow> u32 \<times> u8 \<times> 'h jtag" where
  "jtag_read_write_bit c packet = read_port (cable_read_write_bit c packet)"

text \<open>Zeros for the devices behind the target, the last one with \<^verbatim>\<open>TMS\<close>.\<close>

definition push_prefix :: "'h jtag_cable \<Rightarrow> 'h jtag \<Rightarrow> u32 \<times> 'h jtag" where
  "push_prefix c s =
     err_seq (replicate (global_DR_prefix_bits s - 1) (jtag_write_bit c 0) @ [jtag_write_bit c TMS]) s"

definition jtag_write_stream :: "'h jtag_cable \<Rightarrow> u32 list \<Rightarrow> int \<Rightarrow> bool \<Rightarrow> 'h jtag \<Rightarrow> u32 \<times> 'h jtag" where
  "jtag_write_stream c out_data length_bits set_TMS s =
     (if \<not> set_TMS then on_port (cable_write_stream c out_data length_bits False) s
      else if global_DR_prefix_bits s = 0 then on_port (cable_write_stream c out_data length_bits True) s
      else err_seq [on_port (cable_write_stream c out_data length_bits False), push_prefix c] s)"

definition jtag_read_write_stream ::
  "'h jtag_cable \<Rightarrow> u32 list \<Rightarrow> int \<Rightarrow> bool \<Rightarrow> bool \<Rightarrow> 'h jtag \<Rightarrow> u32 \<times> u32 list \<times> 'h jtag" where
  "jtag_read_write_stream c out_data length_bits adjust set_TMS s =
     (let (err, s) = (if adjust \<and> global_DR_postfix_bits s > 0
                      then err_seq (replicate (global_DR_postfix_bits s) (on_port (cable_write_bit c 0))) s
                      else (APP_ERR_NONE, s));
          (e, in_data, s) = read_port (cable_read_write_stream c out_data length_bits
                              (set_TMS \<and> global_DR_prefix_bits s = 0)) s;
          (e', s) = (if set_TMS \<and> global_DR_prefix_bits s \<noteq> 0 then push_prefix c s else (APP_ERR_NONE, s))
      in (err OR e OR e', in_data, s))"

section \<open>The test access port\<close>

definition tap_reset :: "'h jtag_cable \<Rightarrow> 'h jtag \<Rightarrow> u32 \<times> 'h jtag" where
  "tap_reset c s =
     (let (err, s) = err_seq ([jtag_write_bit c 0] @ replicate 8 (jtag_write_bit c TMS) @
                              [jtag_write_bit c TRST, jtag_write_bit c 0]) s
      in (err, s\<lparr>current_chain := - 1, current_reg_idx := replicate DBG_MAX_MODULES (- 1)\<rparr>))"

definition tap_set_shift_dr :: "'h jtag_cable \<Rightarrow> 'h jtag \<Rightarrow> u32 \<times> 'h jtag" where
  "tap_set_shift_dr c = err_seq [jtag_write_bit c TMS, jtag_write_bit c 0, jtag_write_bit c 0]"

definition tap_exit_to_idle :: "'h jtag_cable \<Rightarrow> 'h jtag \<Rightarrow> u32 \<times> 'h jtag" where
  "tap_exit_to_idle c = err_seq [jtag_write_bit c TMS, jtag_write_bit c 0]"

text \<open>
  The instruction for the whole chain: ones for the other devices, the instruction between them. The
  shift counts are the host's, of which the low five bits count; C leaves counts from 32 on undefined.
\<close>

definition ir_words :: "nat \<Rightarrow> nat \<Rightarrow> nat \<Rightarrow> u32 \<Rightarrow> u32 list" where
  "ir_words len prefix postfix ir =
     (let chain_size = len + prefix + postfix;
          chain = replicate (chain_size div 32 + 1) 0xFFFFFFFF;
          startoffset = postfix div 32;
          startshift = postfix - startoffset * 32;
          w = chain ! startoffset AND c_shl ir (of_nat startshift);
          w = w OR NOT (c_shl 0xFFFFFFFF (of_nat startshift));
          w = w OR c_shl 0xFFFFFFFF (of_nat (startshift + len));
          chain = chain[startoffset := w]
      in if startshift + len > 32 then
           (let v = chain ! (startoffset + 1) AND signed_drop_bit (unat ((of_nat (32 - startshift) :: u32) AND 31)) ir;
                v = v OR c_shl 0xFFFFFFFF (of_nat (len - (32 - startshift)))
            in chain[startoffset + 1 := v])
         else chain)"

definition tap_set_ir :: "'h jtag_cable \<Rightarrow> u32 \<Rightarrow> 'h jtag \<Rightarrow> u32 \<times> 'h jtag" where
  "tap_set_ir c ir s =
     (let chain_size = global_IR_size s + global_IR_prefix_bits s + global_IR_postfix_bits s;
          ir_chain = ir_words (global_IR_size s) (global_IR_prefix_bits s) (global_IR_postfix_bits s) ir;
          (err, s) = err_seq
            [jtag_write_bit c TMS, jtag_write_bit c TMS, jtag_write_bit c 0, jtag_write_bit c 0,
             on_port (cable_write_stream c ir_chain (int chain_size) True),
             jtag_write_bit c TMS, jtag_write_bit c 0] s
      in (err, s\<lparr>current_chain := - 1\<rparr>))"

definition tap_enable_debug_module :: "'h jtag_cable \<Rightarrow> 'h jtag \<Rightarrow> u32 \<times> 'h jtag" where
  "tap_enable_debug_module c s =
     (if global_altera_virtual_jtag s then
        (let data = push_bit ALT_VJTAG_IR_SIZE 1 OR ALT_VJTAG_CMD_DEBUG
         in err_seq [tap_set_ir c (vjtag_cmd_vir s),
              jtag_write_bit c TMS, jtag_write_bit c 0, jtag_write_bit c 0,
              jtag_write_stream c [data] (int ALT_VJTAG_IR_SIZE + 1) True,
              jtag_write_bit c TMS, jtag_write_bit c 0,
              tap_set_ir c (vjtag_cmd_vdr s)] s)
      else tap_set_ir c (global_jtag_cmd_debug s) s)"

section \<open>Enumeration\<close>

definition MAX_DEVICES :: nat where "MAX_DEVICES = 1024"

text \<open>
  The devices are found one after the other; the result is \<open>None\<close> when the loop is left with an error, in
  which case the port stays where it is. The array of codes grows as needed.
\<close>

function enumerate_loop :: "'h jtag_cable \<Rightarrow> u32 \<Rightarrow> u32 list \<Rightarrow> u32 \<Rightarrow> 'h jtag \<Rightarrow> u32 \<times> u32 list option \<times> 'h jtag" where
  "enumerate_loop c invalid_code ids err s =
     (if length ids < MAX_DEVICES then
        (let (e, start_bit, s) = jtag_read_write_bit c (ucast (invalid_code AND 0x01)) s;
             err = err OR e;
             invalid_code = drop_bit 1 invalid_code
         in if start_bit = 0 then
              if err \<noteq> 0 then (err, None, s) else enumerate_loop c invalid_code (ids @ [- 1]) err s
            else
              (let (e, manuf, s) = jtag_read_write_stream c [invalid_code] 11 False False s;
                   err = err OR e;
                   temp_manuf_code = hd manuf;
                   invalid_code = drop_bit 11 invalid_code
               in if temp_manuf_code \<noteq> 0x3f then
                    (let (e, rest, s) = jtag_read_write_stream c [invalid_code] 20 False False s;
                         err = err OR e;
                         invalid_code = drop_bit 20 invalid_code;
                         tempID = push_bit 12 (hd rest) OR push_bit 1 temp_manuf_code OR 0x01
                     in if err \<noteq> 0 then (err, None, s) else enumerate_loop c invalid_code (ids @ [tempID]) err s)
                  else (err, Some ids, s)))
      else (err, Some ids, s))"
  by pat_completeness auto
termination
  by (relation "measure (\<lambda>(c, code, ids, err, s). MAX_DEVICES - length ids)") auto

declare enumerate_loop.simps [simp del]

definition jtag_enumerate_chain :: "'h jtag_cable \<Rightarrow> 'h jtag \<Rightarrow> u32 \<times> u32 list option \<times> 'h jtag" where
  "jtag_enumerate_chain c s =
     (let (err, s) = err_seq [jtag_write_bit c TMS, jtag_write_bit c 0, jtag_write_bit c 0] s;
          (err, ids, s) = enumerate_loop c 0x7f [] err s
      in case ids of
           None \<Rightarrow> (err, None, s)
         | Some ids \<Rightarrow>
             (let (e, s) = err_seq [jtag_write_bit c TMS, jtag_write_bit c TMS, jtag_write_bit c 0] s
              in (err OR e, Some ids, s)))"

definition jtag_get_idcode :: "'h jtag_cable \<Rightarrow> u32 \<Rightarrow> 'h jtag \<Rightarrow> u32 \<times> u32 \<times> 'h jtag" where
  "jtag_get_idcode c cmd s =
     (let saveconfig = global_altera_virtual_jtag s;
          s = s\<lparr>global_altera_virtual_jtag := False\<rparr>;
          (err, s) = err_seq [tap_set_ir c cmd, tap_set_shift_dr c] s;
          (e, idcode, s) = jtag_read_write_stream c [0] 32 True True s;
          (e', s) = err_seq [jtag_write_bit c TMS, jtag_write_bit c 0] s
      in (err OR e OR e', hd idcode, s\<lparr>global_altera_virtual_jtag := saveconfig\<rparr>))"

section \<open>Retries\<close>

text \<open>The result says whether to try again.\<close>

definition retry_do :: "'h jtag_cable \<Rightarrow> 'h jtag \<Rightarrow> bool \<times> 'h jtag" where
  "retry_do c s =
     (if soft_retry_no s \<ge> NUM_SOFT_RETRIES then (False, s)
      else
        (let (err, s) = tap_reset c s
         in if err \<noteq> 0 then (False, s)
            else
              (let (e, s) = tap_enable_debug_module c s
               in if err OR e \<noteq> 0 then (False, s) else (True, s\<lparr>soft_retry_no := soft_retry_no s + 1\<rparr>))))"

definition retry_ok :: "'h jtag \<Rightarrow> 'h jtag" where
  "retry_ok s = s\<lparr>soft_retry_no := 0\<rparr>"

lemma never_retried [simp]: "retry_do c s = (False, s)"
  by (simp add: retry_do_def NUM_SOFT_RETRIES_def)

end
