(* ===== verification/Jtag_Wire.thy ===== *)
theory Jtag_Wire
  imports Jtag_Cable
begin

unbundle bit_operations_syntax

text \<open>
  What a cable is for: it clocks a JTAG test access port. The state machine of the port is the one of the
  standard, which \<^verbatim>\<open>src/system/hardware/cores/adv_debug_sys/Hardware/jtag/tap/rtl/verilog/tap_top.v\<close>
  implements; a wire records the scans that have passed through it and says what comes back. The interface
  \<open>tap_cable\<close> states the driver functions as clocks on that wire; the bit-banged drivers provide it.
\<close>

section \<open>The test access port\<close>

datatype tap_state = Test_Logic_Reset | Run_Test_Idle
  | Select_DR | Capture_DR | Shift_DR | Exit1_DR | Pause_DR | Exit2_DR | Update_DR
  | Select_IR | Capture_IR | Shift_IR | Exit1_IR | Pause_IR | Exit2_IR | Update_IR

fun tap_next :: "bool \<Rightarrow> tap_state \<Rightarrow> tap_state" where
  "tap_next tms Test_Logic_Reset = (if tms then Test_Logic_Reset else Run_Test_Idle)"
| "tap_next tms Run_Test_Idle = (if tms then Select_DR else Run_Test_Idle)"
| "tap_next tms Select_DR = (if tms then Select_IR else Capture_DR)"
| "tap_next tms Capture_DR = (if tms then Exit1_DR else Shift_DR)"
| "tap_next tms Shift_DR = (if tms then Exit1_DR else Shift_DR)"
| "tap_next tms Exit1_DR = (if tms then Update_DR else Pause_DR)"
| "tap_next tms Pause_DR = (if tms then Exit2_DR else Pause_DR)"
| "tap_next tms Exit2_DR = (if tms then Update_DR else Shift_DR)"
| "tap_next tms Update_DR = (if tms then Select_DR else Run_Test_Idle)"
| "tap_next tms Select_IR = (if tms then Test_Logic_Reset else Capture_IR)"
| "tap_next tms Capture_IR = (if tms then Exit1_IR else Shift_IR)"
| "tap_next tms Shift_IR = (if tms then Exit1_IR else Shift_IR)"
| "tap_next tms Exit1_IR = (if tms then Update_IR else Pause_IR)"
| "tap_next tms Pause_IR = (if tms then Exit2_IR else Pause_IR)"
| "tap_next tms Exit2_IR = (if tms then Update_IR else Shift_IR)"
| "tap_next tms Update_IR = (if tms then Select_DR else Run_Test_Idle)"

text \<open>
  A wire: the state of the port, the bits shifted in since the last capture, the completed scans, and, for the
  bits that come out, a sequence indexed by the number of shift clocks so far. Nothing is assumed of that
  sequence: it stands for whatever the devices answer.
\<close>

datatype scan = IR_Scan "bool list" | DR_Scan "bool list"

record wire =
  tap :: tap_state
  shifted :: "bool list"
  scans :: "scan list"
  reply :: "nat \<Rightarrow> bool"
  clocked :: nat

definition tdo_now :: "wire \<Rightarrow> bool" where
  "tdo_now w = reply w (clocked w)"

definition tap_clock :: "bool \<Rightarrow> bool \<Rightarrow> wire \<Rightarrow> wire" where
  "tap_clock tms tdi w =
     (let w = (if tap w = Capture_DR \<or> tap w = Capture_IR then w\<lparr>shifted := []\<rparr>
               else if tap w = Shift_DR \<or> tap w = Shift_IR
               then w\<lparr>shifted := shifted w @ [tdi], clocked := clocked w + 1\<rparr>
               else w);
          to = tap_next tms (tap w)
      in w\<lparr>tap := to,
           scans := scans w @ (if to = Update_DR then [DR_Scan (shifted w)]
                               else if to = Update_IR then [IR_Scan (shifted w)] else [])\<rparr>)"

text \<open>Clocks given by pairs of \<^verbatim>\<open>TMS\<close> and \<^verbatim>\<open>TDI\<close>, and the bits they read.\<close>

fun tap_clocks :: "(bool \<times> bool) list \<Rightarrow> wire \<Rightarrow> wire" where
  "tap_clocks [] w = w"
| "tap_clocks ((tms, tdi) # cs) w = tap_clocks cs (tap_clock tms tdi w)"

fun tap_reads :: "(bool \<times> bool) list \<Rightarrow> wire \<Rightarrow> bool list" where
  "tap_reads [] w = []"
| "tap_reads ((tms, tdi) # cs) w = tdo_now w # tap_reads cs (tap_clock tms tdi w)"

lemma tap_clocks_append: "tap_clocks (cs @ ds) w = tap_clocks ds (tap_clocks cs w)"
  by (induction cs w rule: tap_clocks.induct) simp_all

lemma tap_reads_append: "tap_reads (cs @ ds) w = tap_reads cs w @ tap_reads ds (tap_clocks cs w)"
  by (induction cs w rule: tap_clocks.induct) simp_all

lemma length_tap_reads [simp]: "length (tap_reads cs w) = length cs"
  by (induction cs w rule: tap_reads.induct) simp_all

text \<open>Bits sent with \<^verbatim>\<open>TMS\<close> low, and then high or low with the last one.\<close>

definition with_tms :: "bool \<Rightarrow> bool list \<Rightarrow> (bool \<times> bool) list" where
  "with_tms tms bs = map (\<lambda>b. (False, b)) (butlast bs) @ [(tms, last bs)]"

section \<open>Streams of words as bits\<close>

definition stream_bits :: "u32 list \<Rightarrow> nat \<Rightarrow> bool list" where
  "stream_bits ws n = map (\<lambda>i. bit (ws ! (i div 32)) (i mod 32)) [0..<n]"

definition pack_words :: "bool list \<Rightarrow> u32 list" where
  "pack_words bs = map (\<lambda>k. horner_sum of_bool 2 (take 32 (drop (32 * k) bs))) [0..<(length bs - 1) div 32 + 1]"

lemma length_stream_bits [simp]: "length (stream_bits ws n) = n"
  by (simp add: stream_bits_def)

lemma stream_bits_Suc: "stream_bits ws (Suc n) = stream_bits ws n @ [bit (ws ! (n div 32)) (n mod 32)]"
  by (simp add: stream_bits_def)

section \<open>The interface of a cable\<close>

locale tap_cable =
  fixes c :: "'h jtag_cable" and view :: "'h \<Rightarrow> wire"
  assumes bit_out_err: "fst (bit_out_func c p h) = APP_ERR_NONE"
    and bit_out: "p AND TRST = 0 \<Longrightarrow> view (snd (bit_out_func c p h)) = tap_clock (p AND TMS \<noteq> 0) (p AND TDO \<noteq> 0) (view h)"
    and bit_out_reset: "view (snd (bit_out_func c TRST h)) = (view h)\<lparr>tap := Test_Logic_Reset\<rparr> \<or>
      view (snd (bit_out_func c TRST h)) = tap_clock False False (view h)"
    and bit_inout_err: "fst (bit_inout_func c p h) = APP_ERR_NONE"
    and bit_inout_read: "p AND TRST = 0 \<Longrightarrow> fst (snd (bit_inout_func c p h)) = of_bool (tdo_now (view h))"
    and bit_inout: "p AND TRST = 0 \<Longrightarrow>
      view (snd (snd (bit_inout_func c p h))) = tap_clock (p AND TMS \<noteq> 0) (p AND TDO \<noteq> 0) (view h)"
    and stream_out_err: "0 < n \<Longrightarrow> n \<le> 32 * length ws \<Longrightarrow> fst (stream_out_func c ws (int n) tms h) = APP_ERR_NONE"
    and stream_out: "0 < n \<Longrightarrow> n \<le> 32 * length ws \<Longrightarrow>
      view (snd (stream_out_func c ws (int n) tms h)) = tap_clocks (with_tms tms (stream_bits ws n)) (view h)"
    and stream_inout_err: "0 < n \<Longrightarrow> n \<le> 32 * length ws \<Longrightarrow> fst (stream_inout_func c ws (int n) tms h) = APP_ERR_NONE"
    and stream_inout_read: "0 < n \<Longrightarrow> n \<le> 32 * length ws \<Longrightarrow>
      fst (snd (stream_inout_func c ws (int n) tms h)) = pack_words (tap_reads (with_tms tms (stream_bits ws n)) (view h))"
    and stream_inout: "0 < n \<Longrightarrow> n \<le> 32 * length ws \<Longrightarrow>
      view (snd (snd (stream_inout_func c ws (int n) tms h))) = tap_clocks (with_tms tms (stream_bits ws n)) (view h)"
    and flush: "view (snd (cable_flush c h)) = view h"

section \<open>The bit-banged drivers\<close>

text \<open>
  A board whose pins the driver sets: \<^verbatim>\<open>TRST\<close> low resets the port, a rising clock steps it.
\<close>

record board =
  board_wire :: wire
  tck :: bool

definition pin_out :: "u8 \<Rightarrow> board \<Rightarrow> u32 \<times> board" where
  "pin_out v b =
     (APP_ERR_NONE,
      b\<lparr>board_wire :=
          (if v AND TRST_BIT = 0 then (board_wire b)\<lparr>tap := Test_Logic_Reset\<rparr>
           else if v AND TCLK_BIT \<noteq> 0 \<and> \<not> tck b
           then tap_clock (v AND TMS_BIT \<noteq> 0) (v AND TDI_BIT \<noteq> 0) (board_wire b)
           else board_wire b),
        tck := (v AND TCLK_BIT \<noteq> 0)\<rparr>)"

definition pin_inout :: "u8 \<Rightarrow> board \<Rightarrow> u32 \<times> u8 \<times> board" where
  "pin_inout v b = (APP_ERR_NONE, of_bool (tdo_now (board_wire b)), snd (pin_out v b))"

lemma pins_of_bits:
  "TCLK_BIT \<noteq> 0"
  "pins_of p AND TCLK_BIT = 0"
  "(pins_of p OR TCLK_BIT) AND TCLK_BIT \<noteq> 0"
  "(pins_of p AND TRST_BIT = 0) = (p AND TRST \<noteq> 0)"
  "((pins_of p OR TCLK_BIT) AND TRST_BIT = 0) = (p AND TRST \<noteq> 0)"
  "((pins_of p OR TCLK_BIT) AND TMS_BIT = 0) = (p AND TMS = 0)"
  "((pins_of p OR TCLK_BIT) AND TDI_BIT = 0) = (p AND TDO = 0)"
  unfolding pins_of_def err_defs Let_def by simp_all

lemma pins_write_bit:
  "fst (cable_common_write_bit pin_out p b) = APP_ERR_NONE"
  "p AND TRST = 0 \<Longrightarrow> board_wire (snd (cable_common_write_bit pin_out p b)) =
     tap_clock (p AND TMS \<noteq> 0) (p AND TDO \<noteq> 0) (board_wire b)"
  "p AND TRST \<noteq> 0 \<Longrightarrow> board_wire (snd (cable_common_write_bit pin_out p b)) = (board_wire b)\<lparr>tap := Test_Logic_Reset\<rparr>"
  by (simp_all add: cable_common_write_bit_def Let_def pin_out_def pins_of_bits APP_ERR_NONE_def)

lemma pins_read_write_bit:
  "fst (cable_common_read_write_bit pin_out pin_inout p b) = APP_ERR_NONE"
  "p AND TRST = 0 \<Longrightarrow> fst (snd (cable_common_read_write_bit pin_out pin_inout p b)) = of_bool (tdo_now (board_wire b))"
  "p AND TRST = 0 \<Longrightarrow> board_wire (snd (snd (cable_common_read_write_bit pin_out pin_inout p b))) =
     tap_clock (p AND TMS \<noteq> 0) (p AND TDO \<noteq> 0) (board_wire b)"
  by (simp_all add: cable_common_read_write_bit_def Let_def pin_out_def pin_inout_def pins_of_bits APP_ERR_NONE_def)

text \<open>
  Streams by bits: whatever writes and reads single bits correctly carries streams correctly with the common
  functions.
\<close>

lemma stream_bit_value: "stream_bit ws index n = of_bool (bit (ws ! index) (unat n mod 32))"
  unfolding stream_bit_def c_shr_def unat_and_31
  by (rule bit_word_eqI) (auto simp: bit_simps and_one_eq mod_2_eq_odd bit_iff_odd_drop_bit [of "ws ! index"])

lemma next_index_div: "next_index (i div 32) (i mod 32) = (Suc i div 32, Suc i mod 32)"
  unfolding next_index_def by (auto simp: div_Suc mod_Suc)

text \<open>The words a reading loop has stored after the bits \<open>rs\<close>.\<close>

definition pack_next :: "bool list \<Rightarrow> u32 list" where
  "pack_next rs = map (\<lambda>k. horner_sum of_bool 2 (take 32 (drop (32 * k) rs))) [0..<length rs div 32 + 1]"

lemma horner_snoc:
  "length xs < LENGTH('a) \<Longrightarrow>
     (horner_sum of_bool 2 (xs @ [r]) :: 'a::len word) = horner_sum of_bool 2 xs OR push_bit (length xs) (of_bool r)"
  by (rule bit_word_eqI) (auto simp: bit_horner_sum_bit_word_iff bit_simps nth_append less_Suc_eq)

lemma pack_step:
  fixes rs r defines "i \<equiv> length rs"
  defines "p \<equiv> (pack_next rs)[i div 32 := pack_next rs ! (i div 32) OR c_shl (ucast (of_bool r :: u8)) (of_nat (i mod 32))]"
  shows "p = pack_words (rs @ [r])"
    and "pack_next (rs @ [r]) = (if Suc i div 32 \<noteq> i div 32 then p @ [0] else p)"
proof -
  have whole: "take 32 (drop (32 * (i div 32)) (rs @ [r])) = drop (32 * (i div 32)) rs @ [r]"
    and len: "length (drop (32 * (i div 32)) rs) = i mod 32"
    and tk: "take 32 (drop (32 * (i div 32)) rs) = drop (32 * (i div 32)) rs"
    unfolding i_def by (auto simp: minus_mult_div_eq_mod)
  have c: "c_shl (ucast (of_bool r :: u8)) (of_nat (i mod 32)) = push_bit (i mod 32) (of_bool r)"
    unfolding c_shl_def unat_and_31 by (auto simp: unat_of_nat of_bool_def)
  show 1: "p = pack_words (rs @ [r])"
  proof (rule nth_equalityI)
    show "length p = length (pack_words (rs @ [r]))" by (simp add: p_def pack_next_def pack_words_def i_def)
  next
    fix k assume k: "k < length p"
    show "p ! k = pack_words (rs @ [r]) ! k"
    proof (cases "k = i div 32")
      case True
      have "pack_words (rs @ [r]) ! k = horner_sum of_bool 2 (drop (32 * (i div 32)) rs @ [r])"
        using True k whole by (simp add: pack_words_def p_def pack_next_def i_def del: upt_Suc)
      also have "\<dots> = pack_next rs ! k OR push_bit (i mod 32) (of_bool r)"
        using True k tk len by (subst horner_snoc) (simp_all add: pack_next_def p_def i_def del: upt_Suc)
      finally show ?thesis using True k c by (simp add: p_def)
    next
      case False
      then have "32 * k + 32 \<le> i" using k by (simp add: p_def pack_next_def i_def)
      then have "take 32 (drop (32 * k) (rs @ [r])) = take 32 (drop (32 * k) rs)" by (simp add: i_def)
      then show ?thesis using False k by (simp add: p_def pack_next_def pack_words_def i_def del: upt_Suc)
    qed
  qed
  show "pack_next (rs @ [r]) = (if Suc i div 32 \<noteq> i div 32 then p @ [0] else p)"
  proof (cases "Suc i div 32 = i div 32")
    case True
    then show ?thesis unfolding 1 by (simp add: pack_next_def pack_words_def i_def)
  next
    case False
    then have d: "Suc i div 32 = Suc (i div 32)" "Suc i mod 32 = 0" by (simp_all add: div_Suc split: if_splits)
    then have "Suc i = 32 * Suc (i div 32)" using div_mult_mod_eq [of "Suc i" 32] by simp
    with d show ?thesis unfolding 1 using False by (simp add: pack_next_def pack_words_def i_def)
  qed
qed

locale bit_banging =
  fixes write_bit :: "u8 \<Rightarrow> 'h \<Rightarrow> u32 \<times> 'h" and rw_bit :: "u8 \<Rightarrow> 'h \<Rightarrow> u32 \<times> u8 \<times> 'h" and view :: "'h \<Rightarrow> wire"
  assumes write_err: "fst (write_bit p h) = APP_ERR_NONE"
    and write_view: "p AND TRST = 0 \<Longrightarrow> view (snd (write_bit p h)) = tap_clock (p AND TMS \<noteq> 0) (p AND TDO \<noteq> 0) (view h)"
    and rw_err: "fst (rw_bit p h) = APP_ERR_NONE"
    and rw_read: "p AND TRST = 0 \<Longrightarrow> fst (snd (rw_bit p h)) = of_bool (tdo_now (view h))"
    and rw_view: "p AND TRST = 0 \<Longrightarrow> view (snd (snd (rw_bit p h))) = tap_clock (p AND TMS \<noteq> 0) (p AND TDO \<noteq> 0) (view h)"
begin

lemma bit_packet:
  "(of_bool b :: u8) AND TRST = 0" "(of_bool b :: u8) AND TMS = 0" "((of_bool b :: u8) AND TDO = 0) = (\<not> b)"
  "(of_bool b OR TMS :: u8) AND TRST = 0" "(of_bool b OR TMS :: u8) AND TMS \<noteq> 0" "((of_bool b OR TMS :: u8) AND TDO = 0) = (\<not> b)" "TMS \<noteq> 0"
  by (cases b; simp add: err_defs)+

lemma write_loop:
  "\<exists>h'. write_stream_loop write_bit ws n (i div 32) (i mod 32) e h = ((i + n) div 32, e, h') \<and>
     view h' = tap_clocks (map (\<lambda>j. (False, bit (ws ! (j div 32)) (j mod 32))) [i..<i + n]) (view h)"
proof (induction n arbitrary: i e h)
  case (Suc n)
  obtain e1 h1 where w: "write_bit (stream_bit ws (i div 32) (of_nat (i mod 32))) h = (e1, h1)" by fastforce
  then have "e1 = APP_ERR_NONE" "view h1 = tap_clock False (bit (ws ! (i div 32)) (i mod 32)) (view h)"
    using write_err [of "stream_bit ws (i div 32) (of_nat (i mod 32))" h]
      write_view [of "stream_bit ws (i div 32) (of_nat (i mod 32))" h]
    by (simp_all add: stream_bit_value bit_packet unat_of_nat)
  moreover have "[i..<i + Suc n] = i # [Suc i..<Suc i + n]" by (simp add: upt_conv_Cons)
  ultimately show ?case
    using Suc.IH [of "Suc i" e h1] by (simp add: w next_index_div APP_ERR_NONE_def del: upt_Suc)
qed simp

lemma stream_bits_loop:
  "0 < n \<Longrightarrow> with_tms tms (stream_bits ws n) =
     map (\<lambda>j. (False, bit (ws ! (j div 32)) (j mod 32))) [0..<n - 1] @ [(tms, bit (ws ! ((n - 1) div 32)) ((n - 1) mod 32))]"
  by (cases n) (simp_all add: with_tms_def stream_bits_def)

lemma last_bit:
  assumes "0 < n"
  shows "stream_bit ws index (of_int (int n - 1)) = of_bool (bit (ws ! index) ((n - 1) mod 32))"
proof -
  have "(of_int (int n - 1) :: u32) = of_nat (n - 1)" using assms by (simp add: of_nat_diff)
  then have "unat (of_int (int n - 1) :: u32) = (n - 1) mod 2 ^ 32" by (simp add: unat_of_nat take_bit_eq_mod)
  then show ?thesis by (simp add: stream_bit_value mod_mod_cancel)
qed

lemma common_write_stream:
  assumes "0 < n"
  shows "fst (cable_common_write_stream write_bit ws (int n) tms h) = APP_ERR_NONE"
    and "view (snd (cable_common_write_stream write_bit ws (int n) tms h)) = tap_clocks (with_tms tms (stream_bits ws n)) (view h)"
proof -
  obtain h' where l: "write_stream_loop write_bit ws (n - 1) 0 0 APP_ERR_NONE h = ((n - 1) div 32, APP_ERR_NONE, h')"
    "view h' = tap_clocks (map (\<lambda>j. (False, bit (ws ! (j div 32)) (j mod 32))) [0..<n - 1]) (view h)"
    using write_loop [of ws "n - 1" 0 APP_ERR_NONE h] by auto
  let ?b = "of_bool (bit (ws ! ((n - 1) div 32)) ((n - 1) mod 32)) :: u8"
  let ?p = "if tms then ?b OR TMS else ?b"
  have n: "nat (int n - 1) = n - 1" by simp
  have "cable_common_write_stream write_bit ws (int n) tms h = write_bit ?p h'"
    using write_err [of ?p h'] unfolding cable_common_write_stream_def n l(1) prod.case Let_def last_bit [OF assms]
    by (simp add: APP_ERR_NONE_def split: prod.splits)
  then show "fst (cable_common_write_stream write_bit ws (int n) tms h) = APP_ERR_NONE"
    "view (snd (cable_common_write_stream write_bit ws (int n) tms h)) = tap_clocks (with_tms tms (stream_bits ws n)) (view h)"
    by (simp_all add: write_err write_view bit_packet l(2) stream_bits_loop [OF assms] tap_clocks_append)
qed

lemma read_loop:
  "\<exists>h'. read_stream_loop rw_bit ws n (length rs div 32) (length rs mod 32) (pack_next rs) e h =
       ((length rs + n) div 32, (length rs + n) mod 32,
        pack_next (rs @ tap_reads (map (\<lambda>j. (False, bit (ws ! (j div 32)) (j mod 32))) [length rs..<length rs + n]) (view h)), e, h') \<and>
     view h' = tap_clocks (map (\<lambda>j. (False, bit (ws ! (j div 32)) (j mod 32))) [length rs..<length rs + n]) (view h)"
proof (induction n arbitrary: rs e h)
  case (Suc n)
  let ?i = "length rs"
  let ?p = "stream_bit ws (?i div 32) (of_nat (?i mod 32))" and ?r = "tdo_now (view h)"
  obtain e1 v h1 where w: "rw_bit ?p h = (e1, v, h1)" by (cases "rw_bit ?p h") auto
  then have v: "e1 = APP_ERR_NONE" "v = of_bool ?r" "view h1 = tap_clock False (bit (ws ! (?i div 32)) (?i mod 32)) (view h)"
    using rw_err [of ?p h] rw_read [of ?p h] rw_view [of ?p h]
    by (simp_all add: stream_bit_value bit_packet unat_of_nat)
  have u: "[?i..<?i + Suc n] = ?i # [Suc ?i..<Suc ?i + n]" by (simp add: upt_conv_Cons)
  let ?s = "(pack_next rs)[?i div 32 := pack_next rs ! (?i div 32) OR c_shl (ucast (of_bool ?r :: u8)) (of_nat (?i mod 32))]"
  have step: "read_stream_loop rw_bit ws (Suc n) (?i div 32) (?i mod 32) (pack_next rs) e h =
      read_stream_loop rw_bit ws n (length (rs @ [?r]) div 32) (length (rs @ [?r]) mod 32) (pack_next (rs @ [?r])) e h1"
    unfolding read_stream_loop.simps w prod.case Let_def next_index_div v(1,2) pack_step(2) by (simp add: APP_ERR_NONE_def)
  show ?case
    using Suc.IH [of "rs @ [?r]" e h1] unfolding step u by (simp add: v(3) del: upt_Suc)
qed simp

lemma common_read_stream:
  assumes "0 < n"
  shows "fst (cable_common_read_stream rw_bit ws (int n) tms h) = APP_ERR_NONE"
    and "fst (snd (cable_common_read_stream rw_bit ws (int n) tms h)) = pack_words (tap_reads (with_tms tms (stream_bits ws n)) (view h))"
    and "view (snd (snd (cable_common_read_stream rw_bit ws (int n) tms h))) = tap_clocks (with_tms tms (stream_bits ws n)) (view h)"
proof -
  let ?cs = "map (\<lambda>j. (False, bit (ws ! (j div 32)) (j mod 32))) [0..<n - 1]"
  let ?rs = "tap_reads ?cs (view h)"
  have z: "pack_next [] = [0]" by (simp add: pack_next_def)
  obtain h' where l: "read_stream_loop rw_bit ws (n - 1) 0 0 [0] APP_ERR_NONE h =
      ((n - 1) div 32, (n - 1) mod 32, pack_next ?rs, APP_ERR_NONE, h')" "view h' = tap_clocks ?cs (view h)"
    using read_loop [of ws "n - 1" "[]" APP_ERR_NONE h] unfolding z by auto
  let ?b = "of_bool (bit (ws ! ((n - 1) div 32)) ((n - 1) mod 32)) :: u8"
  let ?p = "if tms then ?b OR TMS else ?b"
  have n: "nat (int n - 1) = n - 1" by simp
  obtain e v h2 where w: "rw_bit ?p h' = (e, v, h2)" by (cases "rw_bit ?p h'") auto
  then have v: "e = APP_ERR_NONE" "v = of_bool (tdo_now (view h'))"
    "view h2 = tap_clock tms (bit (ws ! ((n - 1) div 32)) ((n - 1) mod 32)) (view h')"
    using rw_err [of ?p h'] rw_read [of ?p h'] rw_view [of ?p h'] by (simp_all add: bit_packet)
  have "cable_common_read_stream rw_bit ws (int n) tms h =
      (APP_ERR_NONE, pack_words (?rs @ [tdo_now (view h')]), h2)"
    using pack_step(1) [of ?rs "tdo_now (view h')"]
    unfolding cable_common_read_stream_def n l(1) prod.case last_bit [OF assms] Let_def w v(1,2)
    by (simp add: APP_ERR_NONE_def)
  then show "fst (cable_common_read_stream rw_bit ws (int n) tms h) = APP_ERR_NONE"
    "fst (snd (cable_common_read_stream rw_bit ws (int n) tms h)) = pack_words (tap_reads (with_tms tms (stream_bits ws n)) (view h))"
    "view (snd (snd (cable_common_read_stream rw_bit ws (int n) tms h))) = tap_clocks (with_tms tms (stream_bits ws n)) (view h)"
    by (simp_all add: v(3) l(2) stream_bits_loop [OF assms] tap_clocks_append tap_reads_append)
qed

end

interpretation pins: bit_banging "cable_common_write_bit pin_out" "cable_common_read_write_bit pin_out pin_inout" board_wire
  by unfold_locales (simp_all add: pins_write_bit pins_read_write_bit)

interpretation banged: tap_cable "common_cable pin_out pin_inout" board_wire
proof unfold_locales
  have "TRST AND TRST \<noteq> 0" by (simp add: err_defs)
  then show "board_wire (snd (bit_out_func (common_cable pin_out pin_inout) TRST h)) = (board_wire h)\<lparr>tap := Test_Logic_Reset\<rparr> \<or>
      board_wire (snd (bit_out_func (common_cable pin_out pin_inout) TRST h)) = tap_clock False False (board_wire h)" for h
    by (simp add: common_cable_def pins_write_bit)
qed (simp_all add: common_cable_def cable_flush_def pins_write_bit pins_read_write_bit pins.common_write_stream pins.common_read_stream)

end
