(* ===== verification/Jtag_Chain_Spec.thy ===== *)
theory Jtag_Chain_Spec
  imports Jtag_Chain Jtag_Wire
begin

unbundle bit_operations_syntax

text \<open>
  What the transactions of \<^verbatim>\<open>chain_commands.c\<close> do to the port, for every cable that provides \<open>tap_cable\<close>: which
  scans they make, what the scans contain, and that each leaves the port where the next one starts.
\<close>

section \<open>Walks through the port\<close>

text \<open>A completed data or instruction scan, as it leaves the wire.\<close>

definition dr_scan :: "bool list \<Rightarrow> wire \<Rightarrow> wire" where
  "dr_scan bs w = w\<lparr>tap := Run_Test_Idle, shifted := bs, scans := scans w @ [DR_Scan bs], clocked := clocked w + length bs\<rparr>"

definition ir_scan :: "bool list \<Rightarrow> wire \<Rightarrow> wire" where
  "ir_scan bs w = w\<lparr>tap := Run_Test_Idle, shifted := bs, scans := scans w @ [IR_Scan bs], clocked := clocked w + length bs\<rparr>"

definition to_shift_dr :: "(bool \<times> bool) list" where
  "to_shift_dr = [(True, False), (False, False), (False, False)]"

definition to_shift_ir :: "(bool \<times> bool) list" where
  "to_shift_ir = [(True, False), (True, False), (False, False), (False, False)]"

definition to_idle :: "(bool \<times> bool) list" where
  "to_idle = [(True, False), (False, False)]"

lemma shift_clocks:
  "tap w = Shift_DR \<or> tap w = Shift_IR \<Longrightarrow>
     tap_clocks (map (Pair False) bs) w = w\<lparr>shifted := shifted w @ bs, clocked := clocked w + length bs\<rparr>"
  by (induction bs arbitrary: w) (auto simp: tap_clock_def)

lemma shift_reads:
  "tap w = Shift_DR \<or> tap w = Shift_IR \<Longrightarrow>
     tap_reads (map (Pair False) bs) w = map (reply w) [clocked w..<clocked w + length bs]"
proof (induction bs arbitrary: w)
  case (Cons b bs)
  have "tap_reads (map (Pair False) bs) (tap_clock False b w) = map (reply w) [Suc (clocked w)..<Suc (clocked w) + length bs]"
    using Cons.prems by (subst Cons.IH) (auto simp: tap_clock_def simp del: upt_Suc)
  moreover have "[clocked w..<clocked w + length (b # bs)] = clocked w # [Suc (clocked w)..<Suc (clocked w) + length bs]"
    by (simp add: upt_conv_Cons del: upt_Suc)
  ultimately show ?case by (simp add: tdo_now_def del: upt_Suc)
qed simp

lemma with_tms_low: "bs \<noteq> [] \<Longrightarrow> with_tms False bs = map (Pair False) bs"
  unfolding with_tms_def by (metis append_butlast_last_id list.simps(8,9) map_append)

text \<open>Shifting with and without leaving the shift state; reading does not depend on \<^verbatim>\<open>TMS\<close>.\<close>

lemma shift_stream:
  assumes "tap w = Shift_DR \<or> tap w = Shift_IR" "bs \<noteq> []"
  shows "tap_clocks (with_tms tms bs) w =
      w\<lparr>tap := tap_next tms (tap w), shifted := shifted w @ bs, clocked := clocked w + length bs\<rparr>"
    and "tap_reads (with_tms tms bs) w = map (reply w) [clocked w..<clocked w + length bs]"
proof -
  obtain ys y where b: "bs = ys @ [y]" using assms(2) by (cases bs rule: rev_cases) auto
  show "tap_clocks (with_tms tms bs) w =
      w\<lparr>tap := tap_next tms (tap w), shifted := shifted w @ bs, clocked := clocked w + length bs\<rparr>"
    using assms(1) by (auto simp: b with_tms_def tap_clocks_append shift_clocks tap_clock_def)
  show "tap_reads (with_tms tms bs) w = map (reply w) [clocked w..<clocked w + length bs]"
    using assms(1) by (auto simp: b with_tms_def tap_reads_append shift_clocks shift_reads tdo_now_def)
qed

lemma enter_dr: "tap w = Run_Test_Idle \<Longrightarrow> tap_clocks to_shift_dr w = w\<lparr>tap := Shift_DR, shifted := []\<rparr>"
  and enter_ir: "tap w = Run_Test_Idle \<Longrightarrow> tap_clocks to_shift_ir w = w\<lparr>tap := Shift_IR, shifted := []\<rparr>"
  and leave_dr: "tap w = Exit1_DR \<Longrightarrow> tap_clocks to_idle w = w\<lparr>tap := Run_Test_Idle, scans := scans w @ [DR_Scan (shifted w)]\<rparr>"
  and leave_ir: "tap w = Exit1_IR \<Longrightarrow> tap_clocks to_idle w = w\<lparr>tap := Run_Test_Idle, scans := scans w @ [IR_Scan (shifted w)]\<rparr>"
  by (simp_all add: to_shift_dr_def to_shift_ir_def to_idle_def tap_clock_def)

lemma scan_clocks:
  assumes "tap w = Run_Test_Idle" "bs \<noteq> []"
  shows "tap_clocks (to_shift_dr @ with_tms True bs @ to_idle) w = dr_scan bs w"
    and "tap_clocks (to_shift_ir @ with_tms True bs @ to_idle) w = ir_scan bs w"
  using assms by (simp_all add: tap_clocks_append enter_dr enter_ir shift_stream leave_dr leave_ir dr_scan_def ir_scan_def)

section \<open>Operations as clocks\<close>

text \<open>
  An operation that succeeds, changes nothing but the port, and clocks the wire with \<open>cs\<close>.
\<close>

definition does :: "('h \<Rightarrow> wire) \<Rightarrow> 'h jtag \<Rightarrow> ('h jtag \<Rightarrow> u32 \<times> 'h jtag) \<Rightarrow> (bool \<times> bool) list \<Rightarrow> bool" where
  "does view s f cs \<longleftrightarrow>
     (\<exists>h. f s = (APP_ERR_NONE, s\<lparr>port := h\<rparr>) \<and> view h = tap_clocks cs (view (port s)))"

lemma does_nil: "does view s (err_seq []) []"
  unfolding does_def by (rule exI [of _ "port s"]) simp

lemma does_cons:
  assumes "does view s f cs" "\<And>h. does view (s\<lparr>port := h\<rparr>) (err_seq fs) ds"
  shows "does view s (err_seq (f # fs)) (cs @ ds)"
proof -
  from assms(1) obtain h where f: "f s = (APP_ERR_NONE, s\<lparr>port := h\<rparr>)" "view h = tap_clocks cs (view (port s))"
    by (auto simp: does_def)
  from assms(2) [of h] obtain h' where "err_seq fs (s\<lparr>port := h\<rparr>) = (APP_ERR_NONE, s\<lparr>port := h'\<rparr>)"
    "view h' = tap_clocks ds (view h)" by (auto simp: does_def)
  then show ?thesis using f by (auto simp: does_def tap_clocks_append APP_ERR_NONE_def)
qed

lemma does_last: "does view s f cs \<Longrightarrow> does view s (err_seq [f]) cs"
  using does_cons [OF _ does_nil] by fastforce

lemma does_append:
  assumes "does view s (err_seq fs) cs" "\<And>h. does view (s\<lparr>port := h\<rparr>) (err_seq gs) ds"
  shows "does view s (err_seq (fs @ gs)) (cs @ ds)"
proof -
  from assms(1) obtain h where f: "err_seq fs s = (APP_ERR_NONE, s\<lparr>port := h\<rparr>)" "view h = tap_clocks cs (view (port s))"
    by (auto simp: does_def)
  from assms(2) [of h] obtain h' where "err_seq gs (s\<lparr>port := h\<rparr>) = (APP_ERR_NONE, s\<lparr>port := h'\<rparr>)"
    "view h' = tap_clocks ds (view h)" by (auto simp: does_def)
  then show ?thesis using f by (auto simp: does_def tap_clocks_append APP_ERR_NONE_def err_seq_append)
qed

text \<open>A reading operation: the same, with the words it delivers.\<close>

definition gives :: "('h \<Rightarrow> wire) \<Rightarrow> 'h jtag \<Rightarrow> ('h jtag \<Rightarrow> u32 \<times> 'a \<times> 'h jtag) \<Rightarrow> (bool \<times> bool) list \<Rightarrow> 'a \<Rightarrow> bool" where
  "gives view s f cs x \<longleftrightarrow>
     (\<exists>h. f s = (APP_ERR_NONE, x, s\<lparr>port := h\<rparr>) \<and> view h = tap_clocks cs (view (port s)))"

text \<open>The bits of a data scan for the target, with the zeros for the devices behind it.\<close>

definition through_prefix :: "'h jtag \<Rightarrow> bool list \<Rightarrow> bool list" where
  "through_prefix s bs = bs @ replicate (global_DR_prefix_bits s) False"

lemma through_prefix_port [simp]: "through_prefix (s\<lparr>port := h\<rparr>) bs = through_prefix s bs"
  by (simp add: through_prefix_def)

lemma through_prefix_length [simp]: "length (through_prefix s bs) = length bs + global_DR_prefix_bits s"
  by (simp add: through_prefix_def)

lemma length_ir_words: "length (ir_words len prefix postfix ir) = (len + prefix + postfix) div 32 + 1"
  by (simp only: ir_words_def Let_def if_distrib [of length] length_list_update length_replicate if_cancel)

lemma port_last [simp]:
  "s\<lparr>port := h, current_chain := k\<rparr> = s\<lparr>current_chain := k, port := h\<rparr>"
  by simp

context tap_cable
begin

lemma does_bit:
  assumes "p AND TRST = 0"
  shows "does view s (jtag_write_bit c p) [(p AND TMS \<noteq> 0, p AND TDO \<noteq> 0)]"
  using bit_out_err [of p "port s"] bit_out [OF assms, of "port s"]
  by (auto simp: does_def jtag_write_bit_def on_port_def cable_write_bit_def split: prod.splits)

lemma does_bits:
  "does view s (jtag_write_bit c 0) [(False, False)]"
  "does view s (jtag_write_bit c TMS) [(True, False)]"
  "does view s (jtag_write_bit c TDO) [(False, True)]"
  using does_bit [of 0 s] does_bit [of TMS s] does_bit [of TDO s] by (simp_all add: err_defs)

lemma does_replicate:
  assumes "\<And>h. does view (s\<lparr>port := h\<rparr>) f [x]"
  shows "does view (s\<lparr>port := h\<rparr>) (err_seq (replicate n f)) (replicate n x)"
proof (induction n arbitrary: h)
  case 0
  show ?case by (simp only: replicate.simps does_nil)
next
  case (Suc n)
  have "does view (s\<lparr>port := h\<rparr>) (err_seq (f # replicate n f)) ([x] @ replicate n x)"
    by (rule does_cons [OF assms]) (simp add: Suc.IH)
  then show ?case by (simp del: err_seq.simps)
qed

lemma does_write_stream:
  assumes "0 < n" "n \<le> 32 * length ws"
  shows "does view s (on_port (cable_write_stream c ws (int n) tms)) (with_tms tms (stream_bits ws n))"
  using stream_out_err [OF assms, of tms "port s"] stream_out [OF assms, of tms "port s"]
  by (auto simp: does_def on_port_def cable_write_stream_def split: prod.splits)

lemma gives_read_stream:
  assumes "0 < n" "n \<le> 32 * length ws"
  shows "gives view s (read_port (cable_read_write_stream c ws (int n) tms)) (with_tms tms (stream_bits ws n))
    (pack_words (tap_reads (with_tms tms (stream_bits ws n)) (view (port s))))"
  using stream_inout_err [OF assms, of tms "port s"] stream_inout [OF assms, of tms "port s"]
    stream_inout_read [OF assms, of tms "port s"]
  by (auto simp: gives_def read_port_def cable_read_write_stream_def split: prod.splits)

lemma gives_bit:
  assumes "p AND TRST = 0"
  shows "gives view s (jtag_read_write_bit c p) [(p AND TMS \<noteq> 0, p AND TDO \<noteq> 0)] (of_bool (tdo_now (view (port s))))"
  using bit_inout_err [of p "port s"] bit_inout [OF assms, of "port s"] bit_inout_read [OF assms, of "port s"]
  by (auto simp: gives_def jtag_read_write_bit_def read_port_def cable_read_write_bit_def split: prod.splits)

lemma does_push_prefix:
  assumes "0 < global_DR_prefix_bits s"
  shows "does view s (push_prefix c) (with_tms True (replicate (global_DR_prefix_bits s) False))"
proof -
  let ?n = "global_DR_prefix_bits s"
  have "replicate ?n False = replicate (?n - 1) False @ [False]"
    using assms by (cases ?n) (simp_all add: replicate_append_same)
  then have w: "with_tms True (replicate ?n False) = replicate (?n - 1) (False, False) @ [(True, False)]"
    by (simp add: with_tms_def)
  have "does view (s\<lparr>port := port s\<rparr>) (err_seq (replicate (?n - 1) (jtag_write_bit c 0))) (replicate (?n - 1) (False, False))"
    by (rule does_replicate) (rule does_bits)
  then have "does view s (err_seq (replicate (?n - 1) (jtag_write_bit c 0) @ [jtag_write_bit c TMS]))
      (replicate (?n - 1) (False, False) @ [(True, False)])"
    by (intro does_append does_last does_bits) simp
  then show ?thesis unfolding w by (simp add: does_def push_prefix_def)
qed

lemma append_with_tms: "as \<noteq> [] \<Longrightarrow> bs \<noteq> [] \<Longrightarrow> with_tms False as @ with_tms tms bs = with_tms tms (as @ bs)"
  unfolding with_tms_low by (simp add: with_tms_def butlast_append)

lemma does_jtag_write_stream:
  assumes "0 < n" "n \<le> 32 * length ws"
  shows "does view s (jtag_write_stream c ws (int n) tms)
    (with_tms tms (if tms then through_prefix s (stream_bits ws n) else stream_bits ws n))"
proof -
  have ne: "stream_bits ws n \<noteq> []" using assms(1) by (metis length_stream_bits less_numeral_extra(3) list.size(3))
  consider "\<not> tms" | "tms" "global_DR_prefix_bits s = 0" | "tms" "0 < global_DR_prefix_bits s" by fastforce
  then show ?thesis
  proof cases
    case 3
    have "does view s (err_seq [on_port (cable_write_stream c ws (int n) False), push_prefix c])
        (with_tms False (stream_bits ws n) @ with_tms True (replicate (global_DR_prefix_bits s) False))"
      by (rule does_cons [OF does_write_stream [OF assms]], rule does_last, use does_push_prefix [of "s\<lparr>port := _\<rparr>"] 3 in simp)
    then show ?thesis using 3 ne by (simp add: does_def jtag_write_stream_def through_prefix_def append_with_tms)
  qed (use does_write_stream [OF assms, of s tms] in \<open>simp_all add: does_def jtag_write_stream_def through_prefix_def\<close>)
qed

lemma does_tap_set_shift_dr: "does view s (tap_set_shift_dr c) to_shift_dr"
proof -
  have "does view s (err_seq [jtag_write_bit c TMS, jtag_write_bit c 0, jtag_write_bit c 0])
      ([(True, False)] @ [(False, False)] @ [(False, False)])"
    by (intro does_cons does_last does_bits)
  then show ?thesis by (simp add: tap_set_shift_dr_def to_shift_dr_def)
qed

lemma does_tap_exit_to_idle: "does view s (tap_exit_to_idle c) to_idle"
proof -
  have "does view s (err_seq [jtag_write_bit c TMS, jtag_write_bit c 0]) ([(True, False)] @ [(False, False)])"
    by (intro does_cons does_last does_bits)
  then show ?thesis by (simp add: tap_exit_to_idle_def to_idle_def)
qed

lemma does_tap_set_ir:
  fixes ir :: u32
  assumes "0 < global_IR_size s + global_IR_prefix_bits s + global_IR_postfix_bits s"
  defines "n \<equiv> global_IR_size s + global_IR_prefix_bits s + global_IR_postfix_bits s"
    and "ws \<equiv> ir_words (global_IR_size s) (global_IR_prefix_bits s) (global_IR_postfix_bits s) ir"
  shows "\<exists>h. tap_set_ir c ir s = (APP_ERR_NONE, s\<lparr>current_chain := - 1, port := h\<rparr>) \<and>
    view h = tap_clocks (to_shift_ir @ with_tms True (stream_bits ws n) @ to_idle) (view (port s))"
proof -
  have l: "n \<le> 32 * length ws"
    unfolding ws_def length_ir_words n_def using mod_less_divisor [of 32 n] div_mult_mod_eq [of n 32] by (simp add: n_def)
  have "does view s (err_seq [jtag_write_bit c TMS, jtag_write_bit c TMS, jtag_write_bit c 0, jtag_write_bit c 0,
      on_port (cable_write_stream c ws (int n) True), jtag_write_bit c TMS, jtag_write_bit c 0])
    ([(True, False)] @ [(True, False)] @ [(False, False)] @ [(False, False)] @ with_tms True (stream_bits ws n) @
      [(True, False)] @ [(False, False)])"
    using assms(1) l by (intro does_cons does_last does_bits does_write_stream) (simp_all add: n_def)
  then show ?thesis by (auto simp: does_def tap_set_ir_def Let_def n_def ws_def to_shift_ir_def to_idle_def)
qed

text \<open>Transactions inside a data scan, where the bits read are the devices' replies.\<close>

lemma write_stream_shift:
  fixes tms :: bool
  assumes "tap (view (port s)) = Shift_DR" "0 < n" "n \<le> 32 * length ws"
  defines "bs \<equiv> (if tms then through_prefix s (stream_bits ws n) else stream_bits ws n)"
  shows "\<exists>h. jtag_write_stream c ws (int n) tms s = (APP_ERR_NONE, s\<lparr>port := h\<rparr>) \<and>
    view h = (view (port s))\<lparr>tap := (if tms then Exit1_DR else Shift_DR),
      shifted := shifted (view (port s)) @ bs, clocked := clocked (view (port s)) + length bs\<rparr>"
proof -
  have "bs \<noteq> []" using assms(2) by (auto simp: bs_def through_prefix_def dest: arg_cong [where f = length])
  then show ?thesis
    using does_jtag_write_stream [OF assms(2,3), of s tms] assms(1) unfolding bs_def by (auto simp: does_def shift_stream)
qed

lemma write_bits_shift:
  assumes "tap (view (port s)) = Shift_DR"
  shows "\<exists>h. err_seq (replicate n (jtag_write_bit c 0)) s = (APP_ERR_NONE, s\<lparr>port := h\<rparr>) \<and>
    view h = (view (port s))\<lparr>shifted := shifted (view (port s)) @ replicate n False, clocked := clocked (view (port s)) + n\<rparr>"
proof -
  have "does view (s\<lparr>port := port s\<rparr>) (err_seq (replicate n (jtag_write_bit c 0))) (replicate n (False, False))"
    by (rule does_replicate) (rule does_bits)
  then show ?thesis using shift_clocks [of "view (port s)" "replicate n False"] assms by (auto simp: does_def)
qed

lemma read_bit_shift:
  assumes "tap (view (port s)) = Shift_DR" "p \<in> {0, TDO}"
  shows "\<exists>h. jtag_read_write_bit c p s = (APP_ERR_NONE, of_bool (reply (view (port s)) (clocked (view (port s)))), s\<lparr>port := h\<rparr>) \<and>
    view h = (view (port s))\<lparr>shifted := shifted (view (port s)) @ [p = TDO], clocked := clocked (view (port s)) + 1\<rparr>"
proof -
  have "p AND TRST = 0" "p AND TMS = 0" "(p AND TDO = 0) = (p \<noteq> TDO)" using assms(2) by (auto simp: err_defs)
  then show ?thesis
    using gives_bit [of p s] shift_clocks [of "view (port s)" "[p = TDO]"] assms(1)
    by (auto simp: gives_def tdo_now_def)
qed

lemma read_write_stream_shift:
  fixes adjust tms :: bool
  assumes "tap (view (port s)) = Shift_DR" "0 < n" "n \<le> 32 * length ws"
  defines "k \<equiv> (if adjust then global_DR_postfix_bits s else 0)"
  defines "bs \<equiv> replicate k False @ stream_bits ws n @ (if tms then replicate (global_DR_prefix_bits s) False else [])"
  defines "w \<equiv> view (port s)"
  shows "\<exists>h. jtag_read_write_stream c ws (int n) adjust tms s =
      (APP_ERR_NONE, pack_words (map (reply w) [clocked w + k..<clocked w + k + n]), s\<lparr>port := h\<rparr>) \<and>
    view h = w\<lparr>tap := (if tms then Exit1_DR else Shift_DR), shifted := shifted w @ bs, clocked := clocked w + length bs\<rparr>"
proof -
  obtain h1 where h1: "(if adjust \<and> 0 < global_DR_postfix_bits s
        then err_seq (replicate (global_DR_postfix_bits s) (on_port (cable_write_bit c 0))) s else (APP_ERR_NONE, s)) =
      (APP_ERR_NONE, s\<lparr>port := h1\<rparr>)" (is "?adj = _")
    and v1: "view h1 = w\<lparr>shifted := shifted w @ replicate k False, clocked := clocked w + k\<rparr>"
  proof (cases "0 < k")
    case True
    then show ?thesis
      using that write_bits_shift [OF assms(1), of k]
      by (auto simp: k_def w_def jtag_write_bit_def split: if_splits)
  next
    case False
    then have "?adj = (APP_ERR_NONE, s\<lparr>port := port s\<rparr>)" by (auto simp: k_def)
    then show ?thesis by (rule that) (use False in \<open>simp add: w_def\<close>)
  qed
  let ?sb = "stream_bits ws n" and ?s1 = "s\<lparr>port := h1\<rparr>" and ?last = "tms \<and> global_DR_prefix_bits s = 0"
  have ne: "?sb \<noteq> []" using assms(2) by (auto dest: arg_cong [where f = length])
  have t1: "tap (view (port ?s1)) = Shift_DR" using v1 assms(1) by (simp add: w_def)
  obtain h2 where h2: "read_port (cable_read_write_stream c ws (int n) ?last) ?s1 =
      (APP_ERR_NONE, pack_words (map (reply w) [clocked w + k..<clocked w + k + n]), s\<lparr>port := h2\<rparr>)"
    and v2: "view h2 = w\<lparr>tap := (if ?last then Exit1_DR else Shift_DR),
      shifted := shifted w @ replicate k False @ ?sb, clocked := clocked w + k + n\<rparr>"
    using gives_read_stream [OF assms(2,3), of ?s1 ?last] shift_stream [of "view h1" ?sb ?last] t1 ne v1
    by (auto simp: gives_def)
  show ?thesis
  proof (cases "tms \<and> global_DR_prefix_bits s \<noteq> 0")
    case True
    let ?z = "replicate (global_DR_prefix_bits s) False"
    have "does view (s\<lparr>port := h2\<rparr>) (push_prefix c) (with_tms True ?z)"
      using does_push_prefix [of "s\<lparr>port := h2\<rparr>"] True by simp
    then obtain h3 where "push_prefix c (s\<lparr>port := h2\<rparr>) = (APP_ERR_NONE, s\<lparr>port := h3\<rparr>)"
      "view h3 = (view h2)\<lparr>tap := Exit1_DR, shifted := shifted (view h2) @ ?z, clocked := clocked (view h2) + global_DR_prefix_bits s\<rparr>"
      using True v2 shift_stream [of "view h2" ?z True] by (auto simp: does_def)
    then show ?thesis
      using True h1 h2 v2 unfolding jtag_read_write_stream_def bs_def by (auto simp: APP_ERR_NONE_def)
  next
    case False
    then show ?thesis
      using h1 h2 v2 unfolding jtag_read_write_stream_def bs_def by (auto simp: APP_ERR_NONE_def)
  qed
qed

end

section \<open>The instruction register\<close>

lemma ones_bit: "i < 32 \<Longrightarrow> bit (0xFFFFFFFF :: u32) i"
  using bit_mask_iff [of 32 i, where ?'a = u32] by (simp add: mask_eq_exp_minus_1)

lemma shl_bit: "i < 32 \<Longrightarrow> bit (c_shl (x :: u32) (of_nat n)) i = (n mod 32 \<le> i \<and> bit x (i - n mod 32))"
  unfolding c_shl_def unat_and_31 by (auto simp: bit_push_bit_iff unat_of_nat take_bit_eq_mod mod_mod_cancel)

lemma ir_word:
  fixes len prefix postfix :: nat and ir :: u32
  defines "sh \<equiv> postfix mod 32"
  assumes "sh + len \<le> 32" "k \<le> (len + prefix + postfix) div 32"
  shows "ir_words len prefix postfix ir ! k =
    (if k = postfix div 32
     then (0xFFFFFFFF AND c_shl ir (of_nat sh) OR NOT (c_shl 0xFFFFFFFF (of_nat sh))) OR c_shl 0xFFFFFFFF (of_nat (sh + len))
     else 0xFFFFFFFF)"
proof -
  have sh: "postfix - postfix div 32 * 32 = sh" by (simp add: sh_def minus_div_mult_eq_mod)
  have p: "postfix div 32 \<le> (len + prefix + postfix) div 32" by (simp add: div_le_mono)
  have k: "k < (len + prefix + postfix) div 32 + 1" "postfix div 32 < (len + prefix + postfix) div 32 + 1"
    using assms(3) p by simp_all
  show ?thesis
    using assms(2) k unfolding ir_words_def Let_def sh
    by (simp only: if_not_P not_less nth_list_update length_replicate nth_replicate if_cancel split: if_split) simp
qed

lemma ir_word_bits:
  fixes len prefix postfix :: nat and ir :: u32
  defines "n \<equiv> len + prefix + postfix" and "sh \<equiv> postfix mod 32"
  assumes "sh + len \<le> 32" "i < n"
  shows "bit (ir_words len prefix postfix ir ! (i div 32)) (i mod 32) =
    (if i div 32 = postfix div 32
     then i mod 32 < sh \<or> (sh + len) mod 32 \<le> i mod 32 \<or> bit ir (i mod 32 - sh) else True)"
proof -
  have k: "i div 32 \<le> (len + prefix + postfix) div 32" using assms(4) by (simp add: n_def div_le_mono)
  define j where "j = i mod 32"
  have j: "j < 32" and s: "sh mod 32 = sh" by (simp_all add: sh_def j_def)
  have word: "bit (a AND b OR NOT d OR e :: u32) j = (bit a j \<and> bit b j \<or> \<not> bit d j \<or> bit e j)" for a b d e
    using j by (simp add: bit_or_iff bit_and_iff bit_not_iff)
  have ones: "bit (0xFFFFFFFF :: u32) j = True" "bit (0xFFFFFFFF :: u32) (j - x) = True" for x
    using ones_bit [OF j] ones_bit [OF less_imp_diff_less [OF j]] by blast+
  show ?thesis
  proof (cases "i div 32 = postfix div 32")
    case True
    have "bit (ir_words len prefix postfix ir ! (i div 32)) j =
        (sh \<le> j \<and> bit ir (j - sh) \<or> \<not> sh \<le> j \<or> (sh + len) mod 32 \<le> j)"
      unfolding ir_word [OF assms(3) [unfolded sh_def] k] if_P [OF True] sh_def [symmetric] or.assoc word
        shl_bit [OF j] s ones by blast
    then show ?thesis using True by (auto simp: j_def)
  next
    case False
    then show ?thesis unfolding ir_word [OF assms(3) [unfolded sh_def] k] j_def [symmetric] if_not_P [OF False] ones by simp
  qed
qed

lemma ir_bits:
  assumes "postfix mod 32 + len < 32"
  shows "stream_bits (ir_words len prefix postfix ir) (len + prefix + postfix) =
    replicate postfix True @ map (bit ir) [0..<len] @ replicate prefix True"
proof (rule nth_equalityI)
  fix i assume i: "i < length (stream_bits (ir_words len prefix postfix ir) (len + prefix + postfix))"
  let ?sh = "postfix mod 32"
  have p: "postfix = 32 * (postfix div 32) + ?sh" by simp
  have d: "i = 32 * (i div 32) + i mod 32" by simp
  have b: "stream_bits (ir_words len prefix postfix ir) (len + prefix + postfix) ! i =
      (if i div 32 = postfix div 32 then i mod 32 < ?sh \<or> ?sh + len \<le> i mod 32 \<or> bit ir (i mod 32 - ?sh) else True)"
    using i assms ir_word_bits [of postfix len i prefix ir] by (simp add: stream_bits_def)
  show "stream_bits (ir_words len prefix postfix ir) (len + prefix + postfix) ! i =
      (replicate postfix True @ map (bit ir) [0..<len] @ replicate prefix True) ! i"
  proof (cases "i div 32 = postfix div 32")
    case True
    then have "i mod 32 = i - 32 * (postfix div 32)" "i mod 32 < ?sh \<longleftrightarrow> i < postfix"
      "?sh + len \<le> i mod 32 \<longleftrightarrow> postfix + len \<le> i" "\<not> i < postfix \<Longrightarrow> i mod 32 - ?sh = i - postfix"
      using p d by linarith+
    then show ?thesis using b True i by (auto simp: nth_append)
  next
    case False
    then have "i < postfix \<or> postfix + len \<le> i"
      using p assms div_nat_eqI [of 32 "postfix div 32" i] by linarith
    then show ?thesis using b False i by (auto simp: nth_append)
  qed
qed simp

lemma ir_boundary_bits:
  assumes "postfix mod 32 + len = 32"
  shows "stream_bits (ir_words len prefix postfix ir) (len + prefix + postfix) = replicate (len + prefix + postfix) True"
proof (rule nth_equalityI)
  fix i assume i: "i < length (stream_bits (ir_words len prefix postfix ir) (len + prefix + postfix))"
  have "bit (ir_words len prefix postfix ir ! (i div 32)) (i mod 32)"
    using ir_word_bits [of postfix len i prefix ir] i unfolding assms length_stream_bits by simp
  then show "stream_bits (ir_words len prefix postfix ir) (len + prefix + postfix) ! i = replicate (len + prefix + postfix) True ! i"
    using i by (simp add: stream_bits_def)
qed simp

text \<open>The instruction as it travels round the chain: ones, which are \<^verbatim>\<open>BYPASS\<close>, for every other device.\<close>

definition ir_image :: "'h jtag \<Rightarrow> u32 \<Rightarrow> bool list" where
  "ir_image s ir = replicate (global_IR_postfix_bits s) True @ map (bit ir) [0..<global_IR_size s] @
     replicate (global_IR_prefix_bits s) True"

lemma ir_image_port [simp]:
  "ir_image (s\<lparr>port := h\<rparr>) = ir_image s" "ir_image (s\<lparr>current_chain := k\<rparr>) = ir_image s"
  by (simp_all add: ir_image_def fun_eq_iff)

text \<open>One word holds the instruction with the ones before it.\<close>

definition ir_fits :: "'h jtag \<Rightarrow> bool" where
  "ir_fits s \<longleftrightarrow> 0 < global_IR_size s + global_IR_prefix_bits s + global_IR_postfix_bits s \<and>
     global_IR_postfix_bits s mod 32 + global_IR_size s < 32"

lemma ir_fits_port [simp]: "ir_fits (s\<lparr>port := h\<rparr>) = ir_fits s" "ir_fits (s\<lparr>current_chain := k\<rparr>) = ir_fits s"
  by (simp_all add: ir_fits_def)

context tap_cable
begin

lemma set_ir_scan:
  assumes "ir_fits s" "tap (view (port s)) = Run_Test_Idle"
  shows "\<exists>h. tap_set_ir c ir s = (APP_ERR_NONE, s\<lparr>current_chain := - 1, port := h\<rparr>) \<and>
    view h = ir_scan (ir_image s ir) (view (port s))"
proof -
  have "ir_image s ir \<noteq> []" using assms(1) by (auto simp: ir_image_def ir_fits_def)
  then show ?thesis
    using does_tap_set_ir [of s ir] assms unfolding ir_fits_def
    by (simp add: ir_bits ir_image_def scan_clocks(2))
qed

lemma data_scan:
  assumes "tap (view (port s)) = Run_Test_Idle" "0 < n" "n \<le> 32 * length ws"
  shows "\<exists>h. err_seq [tap_set_shift_dr c, jtag_write_stream c ws (int n) True, tap_exit_to_idle c] s =
      (APP_ERR_NONE, s\<lparr>port := h\<rparr>) \<and>
    view h = dr_scan (through_prefix s (stream_bits ws n)) (view (port s))"
proof -
  have "through_prefix s (stream_bits ws n) \<noteq> []"
    using assms(2) by (auto simp: through_prefix_def dest: arg_cong [where f = length])
  moreover have "does view s (err_seq [tap_set_shift_dr c, jtag_write_stream c ws (int n) True, tap_exit_to_idle c])
      (to_shift_dr @ with_tms True (through_prefix s (stream_bits ws n)) @ to_idle)"
    using does_jtag_write_stream [OF assms(2,3), of "s\<lparr>port := _\<rparr>" True]
    by (intro does_cons does_last does_tap_set_shift_dr does_tap_exit_to_idle) simp
  ultimately show ?thesis using scan_clocks(1) [OF assms(1)] by (auto simp: does_def)
qed

end

section \<open>Selecting the debug module\<close>

lemma select_scans:
  assumes "tap_cable c view" "ir_fits s" "tap (view (port s)) = Run_Test_Idle"
  shows "\<exists>h. tap_enable_debug_module c s = (APP_ERR_NONE, s\<lparr>current_chain := - 1, port := h\<rparr>) \<and>
    view h = (if global_altera_virtual_jtag s
      then ir_scan (ir_image s (vjtag_cmd_vdr s))
             (dr_scan (through_prefix s [False, False, False, True, True])
               (ir_scan (ir_image s (vjtag_cmd_vir s)) (view (port s))))
      else ir_scan (ir_image s (global_jtag_cmd_debug s)) (view (port s)))"
proof (cases "global_altera_virtual_jtag s")
  case False
  then show ?thesis using tap_cable.set_ir_scan [OF assms, of "global_jtag_cmd_debug s"] by (simp add: tap_enable_debug_module_def)
next
  case True
  define d :: u32 where "d = push_bit ALT_VJTAG_IR_SIZE 1 OR ALT_VJTAG_CMD_DEBUG"
  have d: "stream_bits [d] 5 = [False, False, False, True, True]"
    by (simp add: stream_bits_def d_def ALT_VJTAG_IR_SIZE_def ALT_VJTAG_CMD_DEBUG_def upt_rec)
  obtain h1 where 1: "tap_set_ir c (vjtag_cmd_vir s) s = (APP_ERR_NONE, s\<lparr>current_chain := - 1, port := h1\<rparr>)"
    "view h1 = ir_scan (ir_image s (vjtag_cmd_vir s)) (view (port s))"
    using tap_cable.set_ir_scan [OF assms, of "vjtag_cmd_vir s"] by auto
  let ?s1 = "s\<lparr>current_chain := - 1, port := h1\<rparr>"
  have "tap (view (port ?s1)) = Run_Test_Idle" by (simp add: 1 ir_scan_def)
  from tap_cable.data_scan [OF assms(1) this, of 5 "[d]"]
  obtain h2 where 2: "err_seq [tap_set_shift_dr c, jtag_write_stream c [d] 5 True, tap_exit_to_idle c] ?s1 =
      (APP_ERR_NONE, s\<lparr>current_chain := - 1, port := h2\<rparr>)"
    "view h2 = dr_scan (through_prefix s [False, False, False, True, True]) (view h1)"
    by (auto simp: through_prefix_def d simp del: err_seq.simps)
  let ?s2 = "s\<lparr>current_chain := - 1, port := h2\<rparr>"
  have "tap (view (port ?s2)) = Run_Test_Idle" by (simp add: 2 dr_scan_def)
  from tap_cable.set_ir_scan [OF assms(1) _ this, of "vjtag_cmd_vdr s"] assms(2)
  obtain h3 where 3: "tap_set_ir c (vjtag_cmd_vdr s) ?s2 = (APP_ERR_NONE, s\<lparr>current_chain := - 1, port := h3\<rparr>)"
    "view h3 = ir_scan (ir_image s (vjtag_cmd_vdr s)) (view h2)" by auto
  have "tap_enable_debug_module c s = err_seq ([tap_set_ir c (vjtag_cmd_vir s)] @
      [tap_set_shift_dr c, jtag_write_stream c [d] 5 True, tap_exit_to_idle c] @ [tap_set_ir c (vjtag_cmd_vdr s)]) s"
    using True unfolding tap_enable_debug_module_def Let_def d_def [symmetric]
    by (simp add: tap_set_shift_dr_def tap_exit_to_idle_def ALT_VJTAG_IR_SIZE_def or.assoc APP_ERR_NONE_def split: prod.splits)
  also have "\<dots> = (APP_ERR_NONE, s\<lparr>current_chain := - 1, port := h3\<rparr>)"
    unfolding err_seq_append using 1 2(1) 3 by (simp add: APP_ERR_NONE_def)
  finally show ?thesis using True 1(2) 2(2) 3(2) by (intro exI [of _ h3]) simp
qed

text \<open>
  C17.
  Selecting the debug unit with \<^verbatim>\<open>tap_enable_debug_module\<close>, on any cable: from the idle state, when the instruction and the
  ones before it fit one word, exactly one instruction scan happens, in which every other device of the chain is sent
  \<^verbatim>\<open>BYPASS\<close> and the target the debug instruction, and the port is idle again. With an Altera virtual
  port there are three scans: the virtual instruction register is selected, loaded with the debug command, and the
  virtual data register selected. Afterwards no module counts as selected.
\<close>

theorem select_debug_module:
  assumes "tap_cable c view" "ir_fits s" "tap (view (port s)) = Run_Test_Idle"
  shows "\<exists>h. tap_enable_debug_module c s = (APP_ERR_NONE, s\<lparr>current_chain := - 1, port := h\<rparr>) \<and>
    view h = (if global_altera_virtual_jtag s
      then ir_scan (ir_image s (vjtag_cmd_vdr s))
             (dr_scan (through_prefix s [False, False, False, True, True])
               (ir_scan (ir_image s (vjtag_cmd_vir s)) (view (port s))))
      else ir_scan (ir_image s (global_jtag_cmd_debug s)) (view (port s)))"
  by (rule select_scans [OF assms])

text \<open>A bit-banged cable to a port in its reset state, with two devices before and one behind the target.\<close>

definition bench_wire :: wire where
  "bench_wire = \<lparr>tap = Run_Test_Idle, shifted = [], scans = [], reply = (\<lambda>_. False), clocked = 0\<rparr>"

definition bench :: "board jtag" where
  "bench = \<lparr>port = \<lparr>board_wire = bench_wire, tck = False\<rparr>, current_chain = 0, desired_chain = 0,
     current_reg_idx = [0, 0, 0, 0], soft_retry_no = 0, global_IR_size = 4, global_IR_prefix_bits = 5,
     global_IR_postfix_bits = 11, global_DR_prefix_bits = 1, global_DR_postfix_bits = 2, global_jtag_cmd_debug = 8,
     global_altera_virtual_jtag = False, vjtag_cmd_vir = 0xE, vjtag_cmd_vdr = 0xC, global_xilinx_bscan = False,
     input_scratchpad_size = 0, output_scratchpad_size = 0, legacy_crc_r = 0, legacy_crc_w = 0\<rparr>"

lemmas bench_defs = bench_def bench_wire_def

theorem select_debug_module_witness:
  "\<exists>h. tap_enable_debug_module (common_cable pin_out pin_inout) bench =
      (APP_ERR_NONE, bench\<lparr>current_chain := - 1, port := h\<rparr>) \<and>
    scans (board_wire h) = [IR_Scan (replicate 11 True @ [False, False, False, True] @ replicate 5 True)]"
proof -
  have "ir_image bench 8 = replicate 11 True @ [False, False, False, True] @ replicate 5 True"
    by (simp add: bench_defs ir_image_def upt_rec)
  then show ?thesis
    using select_debug_module [OF banged.tap_cable_axioms, of bench] by (auto simp: ir_fits_def bench_defs ir_scan_def)
qed

section \<open>Reset\<close>

lemma tap_of_clock: "tap (tap_clock tms tdi w) = tap_next tms (tap w)"
  by (simp add: tap_clock_def Let_def)

lemma tms_resets: "tap (tap_clocks ([(False, x)] @ replicate 8 (True, y)) w) = Test_Logic_Reset"
  by (cases "tap w") (simp_all add: tap_of_clock numeral_eq_Suc)

context tap_cable
begin

lemma trst_bit: "\<exists>h. jtag_write_bit c TRST s = (APP_ERR_NONE, s\<lparr>port := h\<rparr>) \<and>
    tap (view h) \<in> {Test_Logic_Reset, tap_next False (tap (view (port s)))}"
proof -
  have "tap (view (snd (bit_out_func c TRST (port s)))) \<in> {Test_Logic_Reset, tap_next False (tap (view (port s)))}"
    by (rule disjE [OF bit_out_reset [of "port s"]]) (simp_all add: tap_of_clock)
  then show ?thesis
    using bit_out_err [of TRST "port s"]
    by (intro exI [of _ "snd (bit_out_func c TRST (port s))"])
      (simp add: jtag_write_bit_def on_port_def cable_write_bit_def case_prod_beta)
qed

lemma reset_to_idle:
  "\<exists>h. err_seq ([jtag_write_bit c 0] @ replicate 8 (jtag_write_bit c TMS) @ [jtag_write_bit c TRST, jtag_write_bit c 0]) s =
      (APP_ERR_NONE, s\<lparr>port := h\<rparr>) \<and> tap (view h) = Run_Test_Idle"
proof -
  have "does view s (err_seq (jtag_write_bit c 0 # replicate 8 (jtag_write_bit c TMS))) ([(False, False)] @ replicate 8 (True, False))"
    by (intro does_cons does_replicate does_bits)
  then obtain h1 where 1: "err_seq (jtag_write_bit c 0 # replicate 8 (jtag_write_bit c TMS)) s = (APP_ERR_NONE, s\<lparr>port := h1\<rparr>)"
    "view h1 = tap_clocks ([(False, False)] @ replicate 8 (True, False)) (view (port s))"
    unfolding does_def by blast
  obtain h2 where 2: "jtag_write_bit c TRST (s\<lparr>port := h1\<rparr>) = (APP_ERR_NONE, s\<lparr>port := h2\<rparr>)"
    "tap (view h2) \<in> {Test_Logic_Reset, Run_Test_Idle}"
    using trst_bit [of "s\<lparr>port := h1\<rparr>"] tms_resets [of False False "view (port s)"] 1(2) by auto
  obtain h3 where 3: "jtag_write_bit c 0 (s\<lparr>port := h2\<rparr>) = (APP_ERR_NONE, s\<lparr>port := h3\<rparr>)" "tap (view h3) = Run_Test_Idle"
    using does_bits(1) [of "s\<lparr>port := h2\<rparr>"] 2(2) by (auto simp: does_def tap_of_clock)
  have "err_seq ((jtag_write_bit c 0 # replicate 8 (jtag_write_bit c TMS)) @ [jtag_write_bit c TRST, jtag_write_bit c 0]) s =
      (APP_ERR_NONE, s\<lparr>port := h3\<rparr>)"
    unfolding err_seq_append 1(1) using 2(1) 3(1) by (simp add: APP_ERR_NONE_def)
  then show ?thesis using 3(2) by auto
qed

end

text \<open>
  C34.
  \<^verbatim>\<open>tap_reset\<close> on any cable, whether or not it has a reset line, brings the port from any state whatever to the idle
  state and forgets which module and which registers were selected; the configuration of the chain is kept.
\<close>

theorem tap_reset_recovers:
  assumes "tap_cable c view"
  shows "\<exists>h. tap_reset c s = (APP_ERR_NONE,
      s\<lparr>port := h, current_chain := - 1, current_reg_idx := replicate DBG_MAX_MODULES (- 1)\<rparr>) \<and>
    tap (view h) = Run_Test_Idle"
  using tap_cable.reset_to_idle [OF assms, of s] unfolding tap_reset_def by (auto simp del: err_seq.simps replicate.simps)

theorem tap_reset_recovers_witness:
  "\<exists>h. tap_reset (common_cable pin_out pin_inout) (bench\<lparr>port := \<lparr>board_wire = bench_wire\<lparr>tap := Exit2_IR\<rparr>, tck = True\<rparr>\<rparr>) =
     (APP_ERR_NONE, bench\<lparr>port := h, current_chain := - 1, current_reg_idx := [- 1, - 1, - 1, - 1]\<rparr>) \<and>
    tap (board_wire h) = Run_Test_Idle"
  using tap_reset_recovers [OF banged.tap_cable_axioms, of "bench\<lparr>port := \<lparr>board_wire = bench_wire\<lparr>tap := Exit2_IR\<rparr>, tck = True\<rparr>\<rparr>"]
  by (auto simp: DBG_MAX_MODULES_def numeral_eq_Suc)

text \<open>
  When the instruction ends exactly at a word boundary of the chain's instruction, \<^verbatim>\<open>tap_set_ir\<close> shifts ones by 32,
  which a host that masks shift counts takes for a shift by zero: the whole chain, the target included, is sent
  \<^verbatim>\<open>BYPASS\<close> whatever the instruction, so the debug unit is not selected, and no error is reported.
\<close>

lemma ir_word_boundary:
  assumes "tap_cable c view" "tap (view (port s)) = Run_Test_Idle" "global_IR_postfix_bits s mod 32 + global_IR_size s = 32"
  shows "\<exists>h. tap_set_ir c ir s = (APP_ERR_NONE, s\<lparr>current_chain := - 1, port := h\<rparr>) \<and>
    view h = ir_scan (replicate (global_IR_size s + global_IR_prefix_bits s + global_IR_postfix_bits s) True) (view (port s))"
proof -
  have n: "0 < global_IR_size s + global_IR_prefix_bits s + global_IR_postfix_bits s"
    using assms(3) by (metis add_gr_0 mod_less_divisor nat_neq_iff not_gr_zero add_0_right zero_less_numeral)
  then have "replicate (global_IR_size s + global_IR_prefix_bits s + global_IR_postfix_bits s) True \<noteq> []" by simp
  then show ?thesis
    using tap_cable.does_tap_set_ir [OF assms(1) n, of ir] ir_boundary_bits [OF assms(3)] scan_clocks(2) [OF assms(2)] by simp
qed

lemma ir_word_boundary_witness:
  "\<exists>h. tap_set_ir (common_cable pin_out pin_inout) 8 (bench\<lparr>global_IR_postfix_bits := 28\<rparr>) =
      (APP_ERR_NONE, bench\<lparr>global_IR_postfix_bits := 28, current_chain := - 1, port := h\<rparr>) \<and>
    scans (board_wire h) = [IR_Scan (replicate 37 True)]"
  using ir_word_boundary [OF banged.tap_cable_axioms, of "bench\<lparr>global_IR_postfix_bits := 28\<rparr>" 8]
  by (auto simp: bench_defs ir_scan_def)

end
