(* ===== verification/Jtag_Enum_Spec.thy ===== *)
theory Jtag_Enum_Spec
  imports Jtag_Chain_Spec
begin

unbundle bit_operations_syntax

text \<open>
  The enumeration of the devices on the chain (\<^verbatim>\<open>jtag_enumerate_chain\<close>) finds exactly the devices there are.
\<close>

text \<open>
  After a reset the data registers of the chain hold, device by device, a 32-bit identification code or a single zero
  for a device without one; behind them come the bits the host sends, of which the marker \<^verbatim>\<open>0x7f\<close> is the first
  seven.
\<close>

fun device_bits :: "u32 option \<Rightarrow> bool list" where
  "device_bits None = [False]"
| "device_bits (Some code) = map (bit code) [0..<32]"

definition marker :: "nat \<Rightarrow> bool" where
  "marker i = (i < 7)"

definition chain_bits :: "u32 option list \<Rightarrow> nat \<Rightarrow> bool" where
  "chain_bits ds i = (let bs = concat (map device_bits ds) in if i < length bs then bs ! i else marker (i - length bs))"

text \<open>
  A code has bit zero set, and its manufacturer field is not the marker's.
\<close>

fun proper_device :: "u32 option \<Rightarrow> bool" where
  "proper_device None = True"
| "proper_device (Some code) = (bit code 0 \<and> take_bit 11 (drop_bit 1 code) \<noteq> 0x3f)"

fun device_code :: "u32 option \<Rightarrow> u32" where
  "device_code None = - 1"
| "device_code (Some code) = code"

lemma chain_bits_Nil: "chain_bits [] i = marker i"
  by (simp add: chain_bits_def)

lemma chain_bits_Cons:
  "chain_bits (d # ds) i = (if i < length (device_bits d) then device_bits d ! i else chain_bits ds (i - length (device_bits d)))"
  by (cases "i < length (device_bits d)") (auto simp: chain_bits_def Let_def nth_append less_diff_conv2 diff_diff_left)

lemma stream_one: "n \<le> 32 \<Longrightarrow> stream_bits [x] n = map (bit x) [0..<n]"
  by (simp add: stream_bits_def)

lemma marker_bit: "bit (drop_bit k 0x7f :: u32) i = marker (k + i)"
proof -
  have "(0x7f :: u32) = mask 7" by (simp add: mask_eq_exp_minus_1)
  moreover have "bit (drop_bit k (mask 7) :: u32) i = (k + i < 7)" by (auto simp: bit_drop_bit_eq bit_mask_iff)
  ultimately show ?thesis by (simp only: marker_def)
qed

lemma marker_bits: "n \<le> 32 \<Longrightarrow> stream_bits [drop_bit k 0x7f] n = map marker [k..<k + n]"
  by (rule nth_equalityI) (simp_all add: stream_one marker_bit)

lemma hd_pack_words:
  "0 < length bs \<Longrightarrow> length bs \<le> 32 \<Longrightarrow> hd (pack_words bs) = horner_sum of_bool 2 bs"
  by (simp add: pack_words_def upt_conv_Cons del: upt_Suc)

lemma pack_bits:
  assumes "0 < n" "n \<le> 32" "\<And>i. i < n \<Longrightarrow> f (a + i) = bit (x :: u32) i"
  shows "hd (pack_words (map f [a..<a + n])) = take_bit n x"
proof -
  have "map f [a..<a + n] = map (bit x) [0..<n]" using assms(3) by (intro nth_equalityI) simp_all
  then show ?thesis using assms(1,2) by (simp add: hd_pack_words horner_sum_bit_eq_take_bit)
qed

lemma code_rebuilt:
  assumes "bit (code :: u32) 0"
  shows "push_bit 12 (take_bit 20 (drop_bit 12 code)) OR push_bit 1 (take_bit 11 (drop_bit 1 code)) OR 1 = code"
proof (rule bit_word_eqI)
  fix n assume "n < LENGTH(32)"
  then show "bit (push_bit 12 (take_bit 20 (drop_bit 12 code)) OR push_bit 1 (take_bit 11 (drop_bit 1 code)) OR 1) n = bit code n"
    using assms by (cases "n = 0") (auto simp: bit_or_iff bit_push_bit_iff bit_take_bit_iff bit_drop_bit_eq bit_1_iff simp del: push_bit_Suc push_bit_of_1 One_nat_def)
qed

lemma marker_manufacturer: "take_bit 11 (drop_bit 1 (0x7f :: u32)) = 0x3f"
  by (simp add: take_bit_eq_mask mask_eq_exp_minus_1 drop_bit_eq_div)

text \<open>
  In the shift state, the first \<open>k\<close> bits of the marker sent; and the effect of sending \<open>n\<close> more.
\<close>

definition scanning :: "('h \<Rightarrow> wire) \<Rightarrow> 'h jtag \<Rightarrow> nat \<Rightarrow> bool" where
  "scanning view s k \<longleftrightarrow> tap (view (port s)) = Shift_DR \<and> shifted (view (port s)) = map marker [0..<k]"

definition moved :: "nat \<Rightarrow> nat \<Rightarrow> wire \<Rightarrow> wire" where
  "moved k n w = w\<lparr>shifted := map marker [0..<k + n], clocked := clocked w + n\<rparr>"

lemma moved_moved: "moved (k + m) n (moved k m w) = moved k (m + n) w"
  by (simp add: moved_def add.assoc)

lemma moved_at [simp]: "reply (moved k n w) = reply w" "clocked (moved k n w) = clocked w + n"
  by (simp_all add: moved_def)

context tap_cable
begin

lemma read_marker_bit:
  assumes "scanning view s k"
  shows "\<exists>h. jtag_read_write_bit c (ucast (drop_bit k (0x7f :: u32) AND 1)) s =
      (APP_ERR_NONE, of_bool (reply (view (port s)) (clocked (view (port s)))), s\<lparr>port := h\<rparr>) \<and>
    view h = moved k 1 (view (port s)) \<and> scanning view (s\<lparr>port := h\<rparr>) (k + 1)"
proof -
  have b: "(ucast (drop_bit k (0x7f :: u32) AND 1) :: u8) = of_bool (marker k)"
    using marker_bit [of k 0] by (simp add: and_one_eq mod_2_eq_odd bit_0)
  have "(of_bool (marker k) :: u8) \<in> {0, TDO}" "(of_bool (marker k) = TDO) = marker k"
    by (cases "marker k"; simp add: err_defs)+
  then show ?thesis
    using read_bit_shift [of s "of_bool (marker k)"] assms unfolding b by (auto simp: scanning_def moved_def)
qed

lemma read_marker_stream:
  assumes "scanning view s k" "0 < n" "n \<le> 32"
  shows "\<exists>h. jtag_read_write_stream c [drop_bit k 0x7f] (int n) False False s =
      (APP_ERR_NONE, pack_words (map (reply (view (port s))) [clocked (view (port s))..<clocked (view (port s)) + n]), s\<lparr>port := h\<rparr>) \<and>
    view h = moved k n (view (port s)) \<and> scanning view (s\<lparr>port := h\<rparr>) (k + n)"
proof -
  have "map marker [0..<k] @ map marker [k..<k + n] = map marker [0..<k + n]"
    by (simp only: upt_add_eq_append [of 0 k n, simplified] map_append)
  then show ?thesis
    using read_write_stream_shift [of s n "[drop_bit k 0x7f]" False False] assms
    by (auto simp: scanning_def moved_def marker_bits)
qed

lemma no_device:
  assumes "scanning view s k" "reply (view (port s)) (clocked (view (port s))) = False" "length ids < MAX_DEVICES"
  shows "\<exists>h. enumerate_loop c (drop_bit k 0x7f) ids APP_ERR_NONE s =
      enumerate_loop c (drop_bit (k + 1) 0x7f) (ids @ [- 1]) APP_ERR_NONE (s\<lparr>port := h\<rparr>) \<and>
    view h = moved k 1 (view (port s)) \<and> scanning view (s\<lparr>port := h\<rparr>) (k + 1)"
proof -
  from read_marker_bit [OF assms(1)] assms(2)
  obtain h where "jtag_read_write_bit c (ucast (drop_bit k (0x7f :: u32) AND 1)) s = (APP_ERR_NONE, 0, s\<lparr>port := h\<rparr>)"
    "view h = moved k 1 (view (port s))" "scanning view (s\<lparr>port := h\<rparr>) (k + 1)" by auto
  then show ?thesis
    using assms(3) by (subst enumerate_loop.simps) (auto simp: APP_ERR_NONE_def add.commute)
qed

lemma start_bit:
  assumes "scanning view s k" "reply (view (port s)) (clocked (view (port s)))" "length ids < MAX_DEVICES"
    "\<And>i. i < 11 \<Longrightarrow> reply (view (port s)) (clocked (view (port s)) + 1 + i) = bit manuf i"
  shows "\<exists>h. enumerate_loop c (drop_bit k 0x7f) ids APP_ERR_NONE s =
      (if take_bit 11 manuf \<noteq> 0x3f then
         (let (e, rest, s') = jtag_read_write_stream c [drop_bit (k + 12) 0x7f] 20 False False (s\<lparr>port := h\<rparr>)
          in if e \<noteq> 0 then (e, None, s')
             else enumerate_loop c (drop_bit (k + 32) 0x7f)
                    (ids @ [push_bit 12 (hd rest) OR push_bit 1 (take_bit 11 manuf) OR 1]) e s')
       else (APP_ERR_NONE, Some ids, s\<lparr>port := h\<rparr>)) \<and>
    view h = moved k 12 (view (port s)) \<and> scanning view (s\<lparr>port := h\<rparr>) (k + 12)"
proof -
  let ?w = "view (port s)"
  from read_marker_bit [OF assms(1)] assms(2)
  obtain h1 where 1: "jtag_read_write_bit c (ucast (drop_bit k (0x7f :: u32) AND 1)) s = (APP_ERR_NONE, 1, s\<lparr>port := h1\<rparr>)"
    "view h1 = moved k 1 ?w" "scanning view (s\<lparr>port := h1\<rparr>) (k + 1)" by auto
  from read_marker_stream [OF 1(3), of 11]
  obtain h2 where 2: "jtag_read_write_stream c [drop_bit (k + 1) 0x7f] 11 False False (s\<lparr>port := h1\<rparr>) =
      (APP_ERR_NONE, pack_words (map (reply ?w) [clocked ?w + 1..<clocked ?w + 1 + 11]), s\<lparr>port := h2\<rparr>)"
    "view h2 = moved (k + 1) 11 (moved k 1 ?w)" "scanning view (s\<lparr>port := h2\<rparr>) (k + 1 + 11)"
    by (auto simp: 1(2) simp del: upt_Suc)
  then have v: "view h2 = moved k 12 ?w" "scanning view (s\<lparr>port := h2\<rparr>) (k + 12)"
    using 2 moved_moved [of k 1 11] by (simp_all add: add.assoc add.commute [of k] )
  have m: "hd (pack_words (map (reply ?w) [clocked ?w + 1..<clocked ?w + 1 + 11])) = take_bit 11 manuf"
    using assms(4) by (intro pack_bits) simp_all
  have d: "drop_bit 1 (drop_bit k (0x7f :: u32)) = drop_bit (k + 1) 0x7f" "drop_bit 11 (drop_bit (k + 1) (0x7f :: u32)) = drop_bit (k + 12) 0x7f"
    "drop_bit 20 (drop_bit (k + 12) (0x7f :: u32)) = drop_bit (k + 32) 0x7f"
    unfolding drop_bit_drop_bit by (intro arg_cong [of _ _ "\<lambda>n. drop_bit n 0x7f"], simp)+
  have "enumerate_loop c (drop_bit k 0x7f) ids APP_ERR_NONE s =
      (if take_bit 11 manuf \<noteq> 0x3f then
         (let (e, rest, s') = jtag_read_write_stream c [drop_bit (k + 12) 0x7f] 20 False False (s\<lparr>port := h2\<rparr>)
          in if e \<noteq> 0 then (e, None, s')
             else enumerate_loop c (drop_bit (k + 32) 0x7f)
                    (ids @ [push_bit 12 (hd rest) OR push_bit 1 (take_bit 11 manuf) OR 1]) e s')
       else (APP_ERR_NONE, Some ids, s\<lparr>port := h2\<rparr>))"
    unfolding enumerate_loop.simps [of c "drop_bit k 0x7f"] if_P [OF assms(3)] Let_def 1(1) prod.case d 2(1) m
    by (simp add: APP_ERR_NONE_def split: prod.splits)
  then show ?thesis using v by blast
qed

lemma enumerate_finds:
  assumes "scanning view s k" "length ids + length ds < MAX_DEVICES" "\<forall>d \<in> set ds. proper_device d"
    "\<And>i. reply (view (port s)) (clocked (view (port s)) + i) = chain_bits ds i"
  shows "\<exists>h. enumerate_loop c (drop_bit k 0x7f) ids APP_ERR_NONE s =
      (APP_ERR_NONE, Some (ids @ map device_code ds), s\<lparr>port := h\<rparr>) \<and>
    view h = moved k (length (concat (map device_bits ds)) + 12) (view (port s))"
  using assms
proof (induction ds arbitrary: s k ids)
  case Nil
  have r: "reply (view (port s)) (clocked (view (port s)) + i) = marker i" for i
    using Nil.prems(4) by (simp add: chain_bits_Nil)
  have "reply (view (port s)) (clocked (view (port s)) + 1 + i) = bit (drop_bit 1 (0x7f :: u32)) i" for i
    using r [of "1 + i"] marker_bit [of 1 i] by (simp only: add.assoc)
  from start_bit [OF Nil.prems(1) _ _ this] r [of 0] Nil.prems(2) show ?case
    by (simp only: marker_manufacturer) (auto simp: marker_def)
next
  case (Cons d ds)
  let ?w = "view (port s)"
  have r: "reply ?w (clocked ?w + i) = chain_bits (d # ds) i" for i by (rule Cons.prems(4))
  have len: "length ids < MAX_DEVICES" and l1: "length (ids @ [x]) + length ds < MAX_DEVICES" for x
    using Cons.prems(2) by simp_all
  have ok: "\<forall>d \<in> set ds. proper_device d" "proper_device d" using Cons.prems(3) by simp_all
  show ?case
  proof (cases d)
    case None
    have "reply ?w (clocked ?w) = False" using r [of 0] by (simp add: None chain_bits_Cons)
    from no_device [OF Cons.prems(1) this len]
    obtain h1 where 1: "enumerate_loop c (drop_bit k 0x7f) ids APP_ERR_NONE s =
        enumerate_loop c (drop_bit (k + 1) 0x7f) (ids @ [- 1]) APP_ERR_NONE (s\<lparr>port := h1\<rparr>)"
      "view h1 = moved k 1 ?w" "scanning view (s\<lparr>port := h1\<rparr>) (k + 1)" by blast
    have "reply (view (port (s\<lparr>port := h1\<rparr>))) (clocked (view (port (s\<lparr>port := h1\<rparr>))) + i) = chain_bits ds i" for i
      using r [of "1 + i"] by (simp add: 1(2) None chain_bits_Cons)
    from Cons.IH [OF 1(3) l1 ok(1) this, of "- 1"] show ?thesis by (auto simp: 1(1,2) moved_def None ac_simps)
  next
    case (Some code)
    have b0: "bit code 0" and mf: "take_bit 11 (drop_bit 1 code) \<noteq> 0x3f" using ok(2) by (simp_all add: Some)
    have rc: "reply ?w (clocked ?w + i) = bit code i" if "i < 32" for i
      using r [of i] that by (simp add: Some chain_bits_Cons)
    have "reply ?w (clocked ?w + 1 + i) = bit (drop_bit 1 code) i" if "i < 11" for i
      using rc [of "1 + i"] that by (simp add: bit_drop_bit_eq)
    from start_bit [OF Cons.prems(1) _ len this] rc [of 0] b0 mf
    obtain h1 where 1: "enumerate_loop c (drop_bit k 0x7f) ids APP_ERR_NONE s =
         (let (e, rest, s') = jtag_read_write_stream c [drop_bit (k + 12) 0x7f] 20 False False (s\<lparr>port := h1\<rparr>)
          in if e \<noteq> 0 then (e, None, s')
             else enumerate_loop c (drop_bit (k + 32) 0x7f)
                    (ids @ [push_bit 12 (hd rest) OR push_bit 1 (take_bit 11 (drop_bit 1 code)) OR 1]) e s')"
      "view h1 = moved k 12 ?w" "scanning view (s\<lparr>port := h1\<rparr>) (k + 12)" by auto
    from read_marker_stream [OF 1(3), of 20]
    obtain h2 where 2: "jtag_read_write_stream c [drop_bit (k + 12) 0x7f] 20 False False (s\<lparr>port := h1\<rparr>) =
        (APP_ERR_NONE, pack_words (map (reply ?w) [clocked ?w + 12..<clocked ?w + 12 + 20]), s\<lparr>port := h2\<rparr>)"
      "view h2 = moved (k + 12) 20 (moved k 12 ?w)" "scanning view (s\<lparr>port := h2\<rparr>) (k + 12 + 20)"
      by (auto simp: 1(2) simp del: upt_Suc)
    have v: "view h2 = moved k 32 ?w" using 2(2) moved_moved [of k 12 20] by simp
    have sc: "scanning view (s\<lparr>port := h2\<rparr>) (k + 32)" using 2(3) by (simp add: add.assoc)
    have "hd (pack_words (map (reply ?w) [clocked ?w + 12..<clocked ?w + 12 + 20])) = take_bit 20 (drop_bit 12 code)"
      by (rule pack_bits) (use rc [of "12 + _"] in \<open>auto simp: bit_drop_bit_eq add.assoc\<close>)
    then have e: "enumerate_loop c (drop_bit k 0x7f) ids APP_ERR_NONE s =
        enumerate_loop c (drop_bit (k + 32) 0x7f) (ids @ [code]) APP_ERR_NONE (s\<lparr>port := h2\<rparr>)"
      unfolding 1(1) 2(1) Let_def prod.case using code_rebuilt [OF b0] by (simp only: APP_ERR_NONE_def) simp
    have "reply (view (port (s\<lparr>port := h2\<rparr>))) (clocked (view (port (s\<lparr>port := h2\<rparr>))) + i) = chain_bits ds i" for i
      using r [of "32 + i"] by (simp add: v Some chain_bits_Cons add.assoc)
    from Cons.IH [OF sc l1 ok(1) this, of code] show ?thesis by (auto simp: e v moved_def Some ac_simps)
  qed
qed

end

lemma enumerate_devices:
  assumes "tap_cable c view" "tap (view (port s)) = Run_Test_Idle"
    "length ds < MAX_DEVICES" "\<forall>d \<in> set ds. proper_device d"
    "\<And>i. reply (view (port s)) (clocked (view (port s)) + i) = chain_bits ds i"
  shows "\<exists>h. jtag_enumerate_chain c s = (APP_ERR_NONE, Some (map device_code ds), s\<lparr>port := h\<rparr>) \<and>
    view h = dr_scan (map marker [0..<length (concat (map device_bits ds)) + 13]) (view (port s))"
proof -
  let ?n = "length (concat (map device_bits ds)) + 12" and ?w = "view (port s)"
  have "does view s (err_seq [jtag_write_bit c TMS, jtag_write_bit c 0, jtag_write_bit c 0]) to_shift_dr"
    using tap_cable.does_tap_set_shift_dr [OF assms(1)] by (simp add: tap_set_shift_dr_def)
  then obtain h1 where 1: "err_seq [jtag_write_bit c TMS, jtag_write_bit c 0, jtag_write_bit c 0] s = (APP_ERR_NONE, s\<lparr>port := h1\<rparr>)"
    "view h1 = ?w\<lparr>tap := Shift_DR, shifted := []\<rparr>" unfolding does_def enter_dr [OF assms(2)] by blast
  have "scanning view (s\<lparr>port := h1\<rparr>) 0" by (simp add: scanning_def 1)
  from tap_cable.enumerate_finds [OF assms(1) this _ assms(4), of "[]"] assms(3,5)
  obtain h2 where 2: "enumerate_loop c 0x7f [] APP_ERR_NONE (s\<lparr>port := h1\<rparr>) = (APP_ERR_NONE, Some (map device_code ds), s\<lparr>port := h2\<rparr>)"
    "view h2 = ?w\<lparr>tap := Shift_DR, shifted := map marker [0..<?n], clocked := clocked ?w + ?n\<rparr>"
    by (auto simp: 1(2) moved_def)
  have "does view (s\<lparr>port := h2\<rparr>) (err_seq [jtag_write_bit c TMS, jtag_write_bit c TMS, jtag_write_bit c 0])
      ([(True, False)] @ [(True, False)] @ [(False, False)])"
    using tap_cable.does_bits [OF assms(1)] by (intro does_cons does_last)
  then obtain h3 where 3: "err_seq [jtag_write_bit c TMS, jtag_write_bit c TMS, jtag_write_bit c 0] (s\<lparr>port := h2\<rparr>) =
      (APP_ERR_NONE, s\<lparr>port := h3\<rparr>)"
    "view h3 = tap_clocks ([(True, False)] @ [(True, False)] @ [(False, False)]) (view h2)" by (auto simp: does_def simp del: err_seq.simps tap_clocks.simps)
  have "map marker [0..<?n] @ [False] = map marker [0..<?n + 1]"
    using upt_Suc_append [of 0 ?n] by (simp only: Suc_eq_plus1 map_append) (simp add: marker_def)
  then have "view h3 = dr_scan (map marker [0..<?n + 1]) ?w"
    unfolding 3(2) 2(2) by (simp add: tap_clock_def dr_scan_def)
  then show ?thesis
    unfolding jtag_enumerate_chain_def 1(1) Let_def prod.case 2(1) option.case 3(1) by (auto simp: APP_ERR_NONE_def add.commute)
qed

text \<open>
  C16.
  Enumerating the chain, on any cable: when every device answers with a proper code or its one bypass bit, there are fewer than
  \<^verbatim>\<open>MAX_DEVICES\<close> of them, and what the host sends comes back behind them, \<^verbatim>\<open>jtag_enumerate_chain\<close> succeeds and returns exactly
  the codes of the devices in order (minus one for those without), having shifted the whole chain and the twelve bits of
  the marker in one data scan, and leaves the port idle.
\<close>

theorem enumeration_exact:
  assumes "tap_cable c view" "tap (view (port s)) = Run_Test_Idle"
    "length ds < MAX_DEVICES" "\<forall>d \<in> set ds. proper_device d"
    "\<And>i. reply (view (port s)) (clocked (view (port s)) + i) = chain_bits ds i"
  shows "\<exists>h. jtag_enumerate_chain c s = (APP_ERR_NONE, Some (map device_code ds), s\<lparr>port := h\<rparr>) \<and>
    view h = dr_scan (map marker [0..<length (concat (map device_bits ds)) + 13]) (view (port s))"
  by (rule enumerate_devices [OF assms])

theorem enumeration_exact_witness:
  "\<exists>h. jtag_enumerate_chain (common_cable pin_out pin_inout)
      (bench\<lparr>port := \<lparr>board_wire = bench_wire\<lparr>reply := chain_bits [Some 0x14951185, None]\<rparr>, tck = False\<rparr>\<rparr>) =
      (APP_ERR_NONE, Some [0x14951185, - 1], bench\<lparr>port := h\<rparr>) \<and>
    scans (board_wire h) = [DR_Scan (map marker [0..<46])]"
proof -
  have "take_bit 11 (drop_bit 1 0x14951185) \<noteq> (0x3f :: u32)" "bit (0x14951185 :: u32) 0"
    by (simp_all add: take_bit_eq_mask mask_eq_exp_minus_1 drop_bit_eq_div bit_0)
  then show ?thesis
    using enumeration_exact [OF banged.tap_cable_axioms,
        of "bench\<lparr>port := \<lparr>board_wire = bench_wire\<lparr>reply := chain_bits [Some 0x14951185, None]\<rparr>, tck = False\<rparr>\<rparr>" "[Some 0x14951185, None]"]
    by (auto simp: bench_wire_def dr_scan_def MAX_DEVICES_def)
qed

end
