(* ===== verification/Adv_Dbg.thy ===== *)
theory Adv_Dbg
  imports Jtag_Chain
begin

unbundle bit_operations_syntax

text \<open>
  Transactions of the advanced debug interface (\<^verbatim>\<open>adv_dbg_commands.h\<close>, \<^verbatim>\<open>adv_dbg_commands.c\<close>, \<^verbatim>\<open>utilities.c\<close>), as the Makefile builds
  them by default: with \<^verbatim>\<open>ADBG_OPT_HISPEED\<close> and \<^verbatim>\<open>OPTIMIZE_JSP_FOR_USB\<close>, without \<^verbatim>\<open>ENABLE_JSP_MULTI\<close>. Addresses are 32-bit, as every caller
  passes them. The host is little-endian; \<open>long\<close> is the size of its \<^verbatim>\<open>unsigned long\<close> in bytes.
\<close>

section \<open>Constants\<close>

named_theorems adbg_defs \<open>module numbers and opcodes of the debug unit\<close>

definition DC_WISHBONE :: int where [adbg_defs]: "DC_WISHBONE = 0"
definition DC_CPU0 :: int where [adbg_defs]: "DC_CPU0 = 1"
definition DC_CPU1 :: int where [adbg_defs]: "DC_CPU1 = 2"
definition DC_JSP :: int where [adbg_defs]: "DC_JSP = 3"
definition DBG_MODULE_SELECT_REG_SIZE :: nat where [adbg_defs]: "DBG_MODULE_SELECT_REG_SIZE = 2"
definition ADBG_CRC_POLY :: u32 where "ADBG_CRC_POLY = 0xedb88320"
definition DBG_WB_REG_SEL_LEN :: nat where [adbg_defs]: "DBG_WB_REG_SEL_LEN = 1"
definition DBG_WB_REG_ERROR :: nat where [adbg_defs]: "DBG_WB_REG_ERROR = 0"
definition DBG_WB_OPCODE_LEN :: nat where [adbg_defs]: "DBG_WB_OPCODE_LEN = 4"
definition DBG_WB_CMD_NOP :: u32 where [adbg_defs]: "DBG_WB_CMD_NOP = 0x0"
definition DBG_WB_CMD_BWRITE8 :: u32 where [adbg_defs]: "DBG_WB_CMD_BWRITE8 = 0x1"
definition DBG_WB_CMD_BWRITE16 :: u32 where [adbg_defs]: "DBG_WB_CMD_BWRITE16 = 0x2"
definition DBG_WB_CMD_BWRITE32 :: u32 where [adbg_defs]: "DBG_WB_CMD_BWRITE32 = 0x3"
definition DBG_WB_CMD_BREAD8 :: u32 where [adbg_defs]: "DBG_WB_CMD_BREAD8 = 0x5"
definition DBG_WB_CMD_BREAD16 :: u32 where [adbg_defs]: "DBG_WB_CMD_BREAD16 = 0x6"
definition DBG_WB_CMD_BREAD32 :: u32 where [adbg_defs]: "DBG_WB_CMD_BREAD32 = 0x7"
definition DBG_WB_CMD_IREG_WR :: u32 where [adbg_defs]: "DBG_WB_CMD_IREG_WR = 0x9"
definition DBG_WB_CMD_IREG_SEL :: u32 where [adbg_defs]: "DBG_WB_CMD_IREG_SEL = 0xd"
definition DBG_CPU0_REG_SEL_LEN :: nat where [adbg_defs]: "DBG_CPU0_REG_SEL_LEN = 1"
definition DBG_CPU0_REG_STATUS :: nat where [adbg_defs]: "DBG_CPU0_REG_STATUS = 0"
definition DBG_CPU0_OPCODE_LEN :: nat where [adbg_defs]: "DBG_CPU0_OPCODE_LEN = 4"
definition DBG_CPU0_CMD_NOP :: u32 where [adbg_defs]: "DBG_CPU0_CMD_NOP = 0x0"
definition DBG_CPU0_CMD_BWRITE32 :: u32 where [adbg_defs]: "DBG_CPU0_CMD_BWRITE32 = 0x3"
definition DBG_CPU0_CMD_BREAD32 :: u32 where [adbg_defs]: "DBG_CPU0_CMD_BREAD32 = 0x7"
definition DBG_CPU0_CMD_IREG_WR :: u32 where [adbg_defs]: "DBG_CPU0_CMD_IREG_WR = 0x9"
definition DBG_CPU0_CMD_IREG_SEL :: u32 where [adbg_defs]: "DBG_CPU0_CMD_IREG_SEL = 0xd"
definition DBG_CPU1_REG_SEL_LEN :: nat where [adbg_defs]: "DBG_CPU1_REG_SEL_LEN = 1"
definition DBG_CPU1_REG_STATUS :: nat where [adbg_defs]: "DBG_CPU1_REG_STATUS = 0"
definition DBG_CPU1_OPCODE_LEN :: nat where [adbg_defs]: "DBG_CPU1_OPCODE_LEN = 4"
definition DBG_CPU1_CMD_NOP :: u32 where [adbg_defs]: "DBG_CPU1_CMD_NOP = 0x0"
definition DBG_CPU1_CMD_BWRITE32 :: u32 where [adbg_defs]: "DBG_CPU1_CMD_BWRITE32 = 0x3"
definition DBG_CPU1_CMD_BREAD32 :: u32 where [adbg_defs]: "DBG_CPU1_CMD_BREAD32 = 0x7"
definition DBG_CPU1_CMD_IREG_WR :: u32 where [adbg_defs]: "DBG_CPU1_CMD_IREG_WR = 0x9"
definition DBG_CPU1_CMD_IREG_SEL :: u32 where [adbg_defs]: "DBG_CPU1_CMD_IREG_SEL = 0xd"
definition MAX_READ_STATUS_WAIT :: nat where "MAX_READ_STATUS_WAIT = 100"
definition MAX_BUS_ERRORS :: nat where "MAX_BUS_ERRORS = 10"

section \<open>Helpers\<close>

text \<open>One round of the checksum loop, and the loop over the low bits of a word.\<close>

definition crc_round :: "bool \<Rightarrow> u32 \<Rightarrow> u32" where
  "crc_round data_bit crc_out =
     (let d = (if data_bit then 0xffffffff else 0);
          c = (if crc_out AND 0x1 \<noteq> 0 then 0xffffffff else 0);
          crc_out = drop_bit 1 crc_out
      in crc_out XOR ((d XOR c) AND ADBG_CRC_POLY))"

definition adbg_compute_crc :: "u32 \<Rightarrow> u32 \<Rightarrow> nat \<Rightarrow> u32" where
  "adbg_compute_crc crc_in data_in length_bits =
     fold (\<lambda>i. crc_round (drop_bit i data_in AND 0x1 \<noteq> 0)) [0..<length_bits] crc_in"

text \<open>
  \<^verbatim>\<open>check_buffer_size\<close> makes a buffer of the size asked for when the present one is smaller; \<open>room\<close> says whether \<^verbatim>\<open>malloc\<close>
  succeeds. Of a buffer only the size is kept: it is written before it is read.
\<close>

definition check_buffer_size :: "(int \<Rightarrow> bool) \<Rightarrow> int \<Rightarrow> int \<Rightarrow> u32 \<times> int" where
  "check_buffer_size room buf_size_bytes requested_size_bytes =
     (if buf_size_bytes \<ge> requested_size_bytes then (APP_ERR_NONE, buf_size_bytes)
      else if room requested_size_bytes then (APP_ERR_NONE, requested_size_bytes)
      else (APP_ERR_MALLOC, 0))"

text \<open>Bytes in memory as the words of a little-endian host, and back.\<close>

fun le_word :: "u8 list \<Rightarrow> u32" where
  "le_word [] = 0"
| "le_word (b # bs) = ucast b OR push_bit 8 (le_word bs)"

definition le_bytes :: "u32 \<Rightarrow> u8 list" where
  "le_bytes w = [ucast w, ucast (drop_bit 8 w), ucast (drop_bit 16 w), ucast (drop_bit 24 w)]"

definition words_of_bytes :: "u8 list \<Rightarrow> u32 list" where
  "words_of_bytes bs = map (\<lambda>k. le_word (take 4 (drop (4 * k) bs))) [0..<(length bs + 3) div 4]"

definition bytes_of_words :: "u32 list \<Rightarrow> u8 list" where
  "bytes_of_words ws = concat (map le_bytes ws)"

section \<open>Modules and control registers\<close>

definition adbg_select_module :: "'h jtag_cable \<Rightarrow> int \<Rightarrow> 'h jtag \<Rightarrow> u32 \<times> 'h jtag" where
  "adbg_select_module c chain s =
     (if current_chain s = chain then (APP_ERR_NONE, s)
      else
        (let s = s\<lparr>current_chain := - 1, desired_chain := chain\<rparr>;
             data = of_int chain OR push_bit DBG_MODULE_SELECT_REG_SIZE 1;
             (err, s) = err_seq [tap_set_shift_dr c, jtag_write_stream c [data] 3 True, tap_exit_to_idle c] s
         in (err, s\<lparr>current_chain := chain\<rparr>)))"

text \<open>The three switches on the module: the length of a register index with the opcode.\<close>

definition ireg_sel :: "int \<Rightarrow> (nat \<times> u32) option" where
  "ireg_sel chain =
     (if chain = DC_WISHBONE then Some (DBG_WB_REG_SEL_LEN, DBG_WB_CMD_IREG_SEL)
      else if chain = DC_CPU0 then Some (DBG_CPU0_REG_SEL_LEN, DBG_CPU0_CMD_IREG_SEL)
      else if chain = DC_CPU1 then Some (DBG_CPU1_REG_SEL_LEN, DBG_CPU1_CMD_IREG_SEL)
      else None)"

definition ireg_wr :: "int \<Rightarrow> (nat \<times> u32) option" where
  "ireg_wr chain =
     (if chain = DC_WISHBONE then Some (DBG_WB_REG_SEL_LEN, DBG_WB_CMD_IREG_WR)
      else if chain = DC_CPU0 then Some (DBG_CPU0_REG_SEL_LEN, DBG_CPU0_CMD_IREG_WR)
      else if chain = DC_CPU1 then Some (DBG_CPU1_REG_SEL_LEN, DBG_CPU1_CMD_IREG_WR)
      else None)"

definition ireg_nop :: "int \<Rightarrow> (nat \<times> u32) option" where
  "ireg_nop chain =
     (if chain = DC_WISHBONE then Some (DBG_WB_OPCODE_LEN, DBG_WB_CMD_NOP)
      else if chain = DC_CPU0 then Some (DBG_CPU0_OPCODE_LEN, DBG_CPU0_CMD_NOP)
      else if chain = DC_CPU1 then Some (DBG_CPU1_OPCODE_LEN, DBG_CPU1_CMD_NOP)
      else None)"

definition set_reg_idx :: "nat \<Rightarrow> 'h jtag \<Rightarrow> 'h jtag" where
  "set_reg_idx regidx s = s\<lparr>current_reg_idx := (current_reg_idx s)[nat (current_chain s) := int regidx]\<rparr>"

definition adbg_select_ctrl_reg :: "'h jtag_cable \<Rightarrow> nat \<Rightarrow> 'h jtag \<Rightarrow> u32 \<times> 'h jtag" where
  "adbg_select_ctrl_reg c regidx s =
     (let (err, s) = adbg_select_module c (desired_chain s) s
      in if err \<noteq> 0 then (err, s)
         else if current_reg_idx s ! nat (current_chain s) = int regidx then (APP_ERR_NONE, s)
         else case ireg_sel (current_chain s) of
           None \<Rightarrow> (1, s)
         | Some (index_len, opcode) \<Rightarrow>
             (let data = push_bit index_len (opcode AND NOT (push_bit DBG_WB_OPCODE_LEN 1)) OR of_nat regidx;
                  (err, s) = err_seq [tap_set_shift_dr c, jtag_write_stream c [data] (5 + int index_len) True,
                                      tap_exit_to_idle c] s
              in (err, set_reg_idx regidx (retry_ok s))))"

definition adbg_ctrl_write :: "'h jtag_cable \<Rightarrow> nat \<Rightarrow> u32 list \<Rightarrow> int \<Rightarrow> 'h jtag \<Rightarrow> u32 \<times> 'h jtag" where
  "adbg_ctrl_write c regidx cmd_data length_bits s =
     (let (err, s) = adbg_select_module c (desired_chain s) s
      in if err \<noteq> 0 then (err, s)
         else case ireg_wr (current_chain s) of
           None \<Rightarrow> (1, s)
         | Some (index_len, opcode) \<Rightarrow>
             (let data = push_bit index_len (opcode AND NOT (push_bit DBG_WB_OPCODE_LEN 1)) OR of_nat regidx;
                  (err, s) = err_seq [tap_set_shift_dr c, jtag_write_stream c cmd_data length_bits False,
                                      jtag_write_stream c [data] (5 + int index_len) True, tap_exit_to_idle c] s
              in (err, set_reg_idx regidx (retry_ok s))))"

text \<open>
  The words read go to the beginning of the caller's array, which is otherwise, and on the early returns altogether,
  left as it was.
\<close>

definition adbg_ctrl_read :: "'h jtag_cable \<Rightarrow> nat \<Rightarrow> u32 list \<Rightarrow> int \<Rightarrow> 'h jtag \<Rightarrow> u32 \<times> u32 list \<times> 'h jtag" where
  "adbg_ctrl_read c regidx data databits s =
     (let (err, s) = adbg_select_module c (desired_chain s) s
      in if err \<noteq> 0 then (err, data, s)
         else
           (let (err, s) = adbg_select_ctrl_reg c regidx s
            in if err \<noteq> 0 then (err, data, s)
               else case ireg_nop (current_chain s) of
                 None \<Rightarrow> (1, data, s)
               | Some (opcode_len, opcode) \<Rightarrow>
                   (let outdata = [opcode AND NOT (push_bit opcode_len 1), 0, 0, 0];
                        (err, s) = tap_set_shift_dr c s;
                        (e, words, s) = jtag_read_write_stream c outdata databits True False s;
                        (e', s) = err_seq [jtag_write_stream c outdata (int opcode_len + 1) True, tap_exit_to_idle c] s
                    in (err OR e OR e', words @ drop (length words) data, retry_ok s))))"

definition adbg_burst_command :: "'h jtag_cable \<Rightarrow> u32 \<Rightarrow> u32 \<Rightarrow> int \<Rightarrow> 'h jtag \<Rightarrow> u32 \<times> 'h jtag" where
  "adbg_burst_command c opcode address length_words s =
     (let (err, s) = adbg_select_module c (desired_chain s) s
      in if err \<noteq> 0 then (err, s)
         else
           (let data0 = of_int length_words OR push_bit 16 address;
                data1 = (drop_bit 16 address OR push_bit 16 (opcode AND 0xf)) AND NOT (push_bit 20 1);
                (err, s) = err_seq [tap_set_shift_dr c, jtag_write_stream c [data0, data1] 53 True, tap_exit_to_idle c] s
            in (err, retry_ok s)))"

section \<open>Bursts\<close>

definition bread_opcode :: "int \<Rightarrow> int \<Rightarrow> u32 option" where
  "bread_opcode chain word_size_bytes =
     (if chain = DC_WISHBONE then
        Some (if word_size_bytes = 1 then DBG_WB_CMD_BREAD8
              else if word_size_bytes = 2 then DBG_WB_CMD_BREAD16
              else if word_size_bytes = 4 then DBG_WB_CMD_BREAD32
              else DBG_WB_CMD_BREAD32)
      else if chain = DC_CPU0 then
        Some (if word_size_bytes = 4 then DBG_CPU0_CMD_BREAD32 else DBG_CPU0_CMD_BREAD32)
      else if chain = DC_CPU1 then
        Some (if word_size_bytes = 4 then DBG_CPU1_CMD_BREAD32 else DBG_CPU0_CMD_BREAD32)
      else None)"

definition bwrite_opcode :: "int \<Rightarrow> int \<Rightarrow> u32 option" where
  "bwrite_opcode chain word_size_bytes =
     (if chain = DC_WISHBONE then
        Some (if word_size_bytes = 1 then DBG_WB_CMD_BWRITE8
              else if word_size_bytes = 2 then DBG_WB_CMD_BWRITE16
              else if word_size_bytes = 4 then DBG_WB_CMD_BWRITE32
              else DBG_WB_CMD_BWRITE32)
      else if chain = DC_CPU0 then
        Some (if word_size_bytes = 4 then DBG_CPU0_CMD_BWRITE32 else DBG_CPU0_CMD_BWRITE32)
      else if chain = DC_CPU1 then
        Some (if word_size_bytes = 4 then DBG_CPU1_CMD_BWRITE32 else DBG_CPU0_CMD_BWRITE32)
      else None)"

text \<open>
  Waiting for the status bit: \<open>k\<close> zeros may still come; the bit after them counts as a timeout even when it is set.
\<close>

fun wait_status :: "'h jtag_cable \<Rightarrow> nat \<Rightarrow> u32 \<Rightarrow> 'h jtag \<Rightarrow> u32 \<times> bool \<times> 'h jtag" where
  "wait_status c 0 err s = (let (e, status, s) = jtag_read_write_bit c 0 s in (err OR e, False, s))"
| "wait_status c (Suc k) err s =
     (let (e, status, s) = jtag_read_write_bit c 0 s
      in if status = 0 then wait_status c k (err OR e) s else (err OR e, True, s))"

text \<open>
  The error register of the Wishbone module, read bit by bit: \<open>None\<close> when no error is flagged, the failing address
  otherwise. An array the reads leave unwritten is undefined in C and zero here.
\<close>

definition bus_error :: "'h jtag_cable \<Rightarrow> u32 \<Rightarrow> 'h jtag \<Rightarrow> u32 \<times> u32 list \<times> u32 option \<times> 'h jtag" where
  "bus_error c err s =
     (let (e, err_data, s) = adbg_ctrl_read c DBG_WB_REG_ERROR [0, 0] 1 s
      in if err_data ! 0 AND 0x1 \<noteq> 0 then
           (let (e', err_data, s) = adbg_ctrl_read c DBG_WB_REG_ERROR err_data 33 s
            in (err OR e OR e', err_data, Some (drop_bit 1 (err_data ! 0) OR push_bit 31 (err_data ! 1)), s))
         else (err OR e, err_data, None, s))"

definition bus_error_index :: "nat \<Rightarrow> u32 \<Rightarrow> u32 \<Rightarrow> int \<Rightarrow> int" where
  "bus_error_index long addr start_address word_size_bytes =
     sint (of_int ((uint addr - uint start_address) mod 2 ^ (8 * long) div word_size_bytes) :: i32)"

text \<open>
  The body of the read from the label \<^verbatim>\<open>wb_burst_read_retry_partial\<close> on; \<open>left\<close> is how many more bus errors are
  put up with, \<open>data\<close> what has been stored in the caller's buffer.
\<close>

function burst_read_from ::
  "'h jtag_cable \<Rightarrow> (int \<Rightarrow> bool) \<Rightarrow> nat \<Rightarrow> u32 \<Rightarrow> int \<Rightarrow> int \<Rightarrow> u32 \<Rightarrow> u32 \<Rightarrow> int \<Rightarrow> nat \<Rightarrow> u8 list option \<Rightarrow> u32 \<Rightarrow> 'h jtag \<Rightarrow>
     u32 \<times> u8 list option \<times> 'h jtag" where
  "burst_read_from c room long opcode word_size_bytes word_count start_address addr i left data err s =
     (let (e, s) = adbg_burst_command c opcode addr (word_count - i) s;
          err = err OR e
      in if err \<noteq> 0 then (err, data, s)
         else
           (let (err, s) = (if global_xilinx_bscan s then err_seq [tap_set_ir c 0xFFFFFFFF, tap_enable_debug_module c] s
                            else (err, s));
                (e, s) = tap_set_shift_dr c s;
                (err, ready, s) = wait_status c MAX_READ_STATUS_WAIT (err OR e) s
            in if \<not> ready then
                 (let (again, s) = retry_do c s
                  in if \<not> again then (err OR APP_ERR_MAX_RETRY, data, s)
                     else burst_read_from c room long opcode word_size_bytes word_count start_address start_address 0 left
                            data APP_ERR_NONE s)
               else
                 (let total_size_bytes = word_count * word_size_bytes + 4;
                      (e, n) = check_buffer_size room (input_scratchpad_size s) total_size_bytes;
                      (e', m) = check_buffer_size room (output_scratchpad_size s) total_size_bytes;
                      s = s\<lparr>input_scratchpad_size := n, output_scratchpad_size := m\<rparr>;
                      err = err OR e OR e'
                  in if err \<noteq> APP_ERR_NONE then (err, data, s)
                     else
                       (let (e, words, s) = jtag_read_write_stream c (replicate ((nat total_size_bytes + 3) div 4) 0)
                                              (total_size_bytes * 8) False True s;
                            input = bytes_of_words words;
                            data = take (nat (word_count * word_size_bytes)) input;
                            crc_read = le_word (take 4 (drop (nat (word_count * word_size_bytes)) input));
                            crc_calc = fold (\<lambda>b crc. adbg_compute_crc crc (ucast b) 8) data 0xffffffff;
                            (e', s) = tap_exit_to_idle c s;
                            err = err OR e OR e'
                        in if crc_calc \<noteq> crc_read then
                             (let (again, s) = retry_do c s
                              in if \<not> again then (err OR APP_ERR_CRC, Some data, s)
                                 else burst_read_from c room long opcode word_size_bytes word_count start_address start_address 0
                                        left (Some data) err s)
                           else if current_chain s = DC_WISHBONE then
                             (let (err, err_data, failed, s) = bus_error c err s
                              in case failed of
                                   None \<Rightarrow> (err, Some data, retry_ok s)
                                 | Some addr \<Rightarrow>
                                     (case left of
                                        0 \<Rightarrow> (err OR APP_ERR_MAX_BUS_ERR, Some data, s)
                                      | Suc left' \<Rightarrow>
                                          (let (e, s) = adbg_ctrl_write c DBG_WB_REG_ERROR [1, err_data ! 1] 1 s
                                           in burst_read_from c room long opcode word_size_bytes word_count start_address addr
                                                (bus_error_index long addr start_address word_size_bytes) left' (Some data)
                                                (err OR e) s)))
                           else (err, Some data, retry_ok s)))))"
  by pat_completeness auto
termination
  by (relation "measure (\<lambda>(c, room, long, opcode, size, count, start, addr, i, left, data, err, s). left)") auto

declare burst_read_from.simps [simp del]

definition adbg_wb_burst_read ::
  "'h jtag_cable \<Rightarrow> (int \<Rightarrow> bool) \<Rightarrow> nat \<Rightarrow> int \<Rightarrow> int \<Rightarrow> u32 \<Rightarrow> 'h jtag \<Rightarrow> u32 \<times> u8 list option \<times> 'h jtag" where
  "adbg_wb_burst_read c room long word_size_bytes word_count start_address s =
     (if word_count \<le> 0 then (0, None, s)
      else case bread_opcode (current_chain s) word_size_bytes of
        None \<Rightarrow> (1, None, s)
      | Some opcode \<Rightarrow>
          burst_read_from c room long opcode word_size_bytes word_count start_address start_address 0 MAX_BUS_ERRORS
            None APP_ERR_NONE s)"

text \<open>
  The word the checksum of a write takes at index \<open>k\<close>: \<^verbatim>\<open>((unsigned long *)data)[k]\<close> for four-byte words. \<open>data\<close> is the memory
  from the pointer on.
\<close>

definition burst_word :: "nat \<Rightarrow> int \<Rightarrow> (nat \<Rightarrow> u8) \<Rightarrow> nat \<Rightarrow> u32" where
  "burst_word long word_size_bytes data k =
     (if word_size_bytes = 4 then le_word (map data [long * k..<long * k + 4])
      else if word_size_bytes = 2 then le_word (map data [2 * k..<2 * k + 2])
      else ucast (data k))"

text \<open>
  The body of the write from the label \<^verbatim>\<open>wb_burst_write_retry_partial\<close> on; \<open>None\<close> where the program exits.
\<close>

function burst_write_from ::
  "'h jtag_cable \<Rightarrow> (int \<Rightarrow> bool) \<Rightarrow> nat \<Rightarrow> u32 \<Rightarrow> (nat \<Rightarrow> u8) \<Rightarrow> int \<Rightarrow> int \<Rightarrow> u32 \<Rightarrow> u32 \<Rightarrow> int \<Rightarrow> nat \<Rightarrow> u32 \<Rightarrow> 'h jtag \<Rightarrow>
     (u32 \<times> 'h jtag) option" where
  "burst_write_from c room long opcode data word_size_bytes word_count start_address addr i left err s =
     (let (e, s) = adbg_burst_command c opcode addr (word_count - i) s;
          err = err OR e
      in if err \<noteq> 0 then Some (err, s)
         else
           (let (e, s) = err_seq [tap_set_shift_dr c, jtag_write_bit c TDO] s;
                crc_calc = fold (\<lambda>k crc. adbg_compute_crc crc (burst_word long word_size_bytes data k) (8 * nat word_size_bytes))
                             [0..<nat word_count] 0xffffffff;
                total_size_bytes = word_count * word_size_bytes + 4;
                (e', n) = check_buffer_size room (output_scratchpad_size s) total_size_bytes;
                s = s\<lparr>output_scratchpad_size := n\<rparr>;
                err = err OR e OR e'
            in if err \<noteq> APP_ERR_NONE then Some (err, s)
               else
                 (let output = map data [0..<nat (word_count * word_size_bytes)] @ le_bytes crc_calc;
                      (e, s) = err_seq ([jtag_write_stream c (words_of_bytes output) (total_size_bytes * 8) False] @
                                        replicate (global_DR_prefix_bits s) (jtag_write_bit c 0)) s;
                      (e', crc_match, s) = jtag_read_write_stream c [0, 0] 1 True False s;
                      (e'', s) = err_seq [jtag_write_bit c TMS, tap_exit_to_idle c] s;
                      err = err OR e OR e' OR e''
                  in if hd crc_match = 0 then
                       (let (again, s) = retry_do c s
                        in if \<not> again then None
                           else burst_write_from c room long opcode data word_size_bytes word_count start_address start_address 0
                                  left err s)
                     else if current_chain s = DC_WISHBONE then
                       (let (err, err_data, failed, s) = bus_error c err s
                        in case failed of
                             None \<Rightarrow> Some (err, retry_ok s)
                           | Some addr \<Rightarrow>
                               (case left of
                                  0 \<Rightarrow> Some (err OR APP_ERR_MAX_BUS_ERR, s)
                                | Suc left' \<Rightarrow>
                                    (let (e, s) = adbg_ctrl_write c DBG_WB_REG_ERROR err_data 1 s
                                     in burst_write_from c room long opcode data word_size_bytes word_count start_address addr
                                          (bus_error_index long addr start_address word_size_bytes) left' (err OR e) s)))
                     else Some (err, retry_ok s))))"
  by pat_completeness auto
termination
  by (relation "measure (\<lambda>(c, room, long, opcode, data, size, count, start, addr, i, left, err, s). left)") auto

declare burst_write_from.simps [simp del]

definition adbg_wb_burst_write ::
  "'h jtag_cable \<Rightarrow> (int \<Rightarrow> bool) \<Rightarrow> nat \<Rightarrow> (nat \<Rightarrow> u8) \<Rightarrow> int \<Rightarrow> int \<Rightarrow> u32 \<Rightarrow> 'h jtag \<Rightarrow> (u32 \<times> 'h jtag) option" where
  "adbg_wb_burst_write c room long data word_size_bytes word_count start_address s =
     (if word_count \<le> 0 then Some (0, s)
      else case bwrite_opcode (current_chain s) word_size_bytes of
        None \<Rightarrow> Some (1, s)
      | Some opcode \<Rightarrow>
          burst_write_from c room long opcode data word_size_bytes word_count start_address start_address 0 MAX_BUS_ERRORS
            APP_ERR_NONE s)"

section \<open>The JTAG serial port\<close>

text \<open>
  One exchange: the bytes to send; the error, and unless the module could not be selected the number of bytes sent and
  the bytes received.
\<close>

definition jsp_outdata :: "u8 list \<Rightarrow> u8 list" where
  "jsp_outdata data_to_send =
     (let xmitsize = min (length data_to_send) 8
      in push_bit 4 (of_nat xmitsize) # take xmitsize data_to_send @ replicate (9 - xmitsize) 0)"

definition adbg_jsp_transact :: "'h jtag_cable \<Rightarrow> u8 list \<Rightarrow> 'h jtag \<Rightarrow> u32 \<times> (nat \<times> u8 list) option \<times> 'h jtag" where
  "adbg_jsp_transact c data_to_send s =
     (let xmitsize = min (length data_to_send) 8;
          (err, s) = adbg_select_module c (desired_chain s) s
      in if err \<noteq> 0 then (err, None, s)
         else
           (let (err, s) = tap_set_shift_dr c s;
                outdata = jsp_outdata data_to_send;
                stopbit = (if outdata ! 8 AND 0x80 \<noteq> 0 then 1 else 0);
                (e, words, s) = jtag_read_write_stream c (words_of_bytes outdata) (72 + stopbit) True True s;
                indata = bytes_of_words words;
                bytes_received = unat (drop_bit 4 (indata ! 0) AND 0xF);
                bytes_free = unat (indata ! 0 AND 0x0F);
                (e', s) = tap_exit_to_idle c s
            in (err OR e OR e', Some (min bytes_free xmitsize, take bytes_received (drop 1 indata)), s)))"

end
