(* ===== verification/Legacy_Dbg.thy ===== *)
theory Legacy_Dbg
  imports Jtag_Chain
begin

unbundle bit_operations_syntax

text \<open>
  Transactions of the legacy debug interface (\<^verbatim>\<open>legacy_dbg_commands.h\<close>, \<^verbatim>\<open>legacy_dbg_commands.c\<close>), which the Makefile selects by
  default. Errors of the chain layer are printed and otherwise ignored, as the code does; \<open>None\<close> is a failed assertion.
\<close>

definition DC_SIZE :: nat where "DC_SIZE = 4"
definition DC_STATUS_SIZE :: nat where "DC_STATUS_SIZE = 4"
definition DBG_CRC_SIZE :: nat where "DBG_CRC_SIZE = 32"
definition DI_GO :: u32 where "DI_GO = 0"
definition DI_WRITE_CMD :: u32 where "DI_WRITE_CMD = 2"
definition DI_READ_CTRL :: u32 where "DI_READ_CTRL = 3"
definition DI_WRITE_CTRL :: u32 where "DI_WRITE_CTRL = 4"
definition LEGACY_CRC_POLY :: u64 where "LEGACY_CRC_POLY = 0x04c11db7"

text \<open>The checksum is computed in an \<^verbatim>\<open>unsigned long\<close> of 64 bits and kept in an \<^verbatim>\<open>int\<close>.\<close>

definition legacy_crc_calc :: "u64 \<Rightarrow> bool \<Rightarrow> u64" where
  "legacy_crc_calc crc input_bit =
     (let d = (if input_bit then 0xfffffff else 0);
          crc_32 = (if drop_bit 31 crc AND 1 \<noteq> 0 then 0xfffffff else 0);
          crc = push_bit 1 crc
      in crc XOR ((d XOR crc_32) AND LEGACY_CRC_POLY))"

definition crc_update :: "u32 \<Rightarrow> bool \<Rightarrow> u32" where
  "crc_update crc b = ucast (legacy_crc_calc (scast crc) b)"

text \<open>The loop that brings the \<open>len\<close> low bits into the opposite order.\<close>

fun reverse_loop :: "nat \<Rightarrow> u32 \<Rightarrow> u32 \<Rightarrow> u32" where
  "reverse_loop 0 outdata stream = outdata"
| "reverse_loop (Suc k) outdata stream =
     (let outdata = outdata OR (stream AND 0x1)
      in if k > 0 then reverse_loop k (push_bit 1 outdata) (drop_bit 1 stream) else outdata)"

text \<open>The bits of a value from the highest of \<open>len\<close> down, as the checksum loops take them.\<close>

definition msb_first :: "nat \<Rightarrow> u32 \<Rightarrow> bool list" where
  "msb_first len x = map (bit x) (rev [0..<len])"

definition legacy_write_stream :: "'h jtag_cable \<Rightarrow> u32 \<Rightarrow> nat \<Rightarrow> bool \<Rightarrow> 'h jtag \<Rightarrow> 'h jtag" where
  "legacy_write_stream c stream len set_last_bit s =
     (let outdata = reverse_loop len 0 stream;
          (err, s) = jtag_write_stream c [outdata] (int len) set_last_bit s
      in s\<lparr>legacy_crc_w := fold (\<lambda>b crc. crc_update crc b) (msb_first len stream) (legacy_crc_w s)\<rparr>)"

definition legacy_read_stream :: "'h jtag_cable \<Rightarrow> u32 \<Rightarrow> nat \<Rightarrow> bool \<Rightarrow> 'h jtag \<Rightarrow> u32 \<times> 'h jtag" where
  "legacy_read_stream c stream len set_last_bit s =
     (let outdata = stream;
          (err, indata, s) = jtag_read_write_stream c [outdata] (int len) False set_last_bit s;
          data = reverse_loop len 0 (hd indata)
      in (data, s\<lparr>legacy_crc_w := fold (\<lambda>b crc. crc_update crc b) (msb_first len stream) (legacy_crc_w s),
                  legacy_crc_r := fold (\<lambda>b crc. crc_update crc b) (msb_first len data) (legacy_crc_r s)\<rparr>))"

text \<open>The checksum of what has been written, and the status with the checksum the unit answers; common to all transactions.\<close>

definition send_crc :: "'h jtag_cable \<Rightarrow> 'h jtag \<Rightarrow> 'h jtag" where
  "send_crc c s = legacy_write_stream c (legacy_crc_w s) DBG_CRC_SIZE False s"

definition read_status :: "'h jtag_cable \<Rightarrow> 'h jtag \<Rightarrow> u32 \<times> bool \<times> 'h jtag" where
  "read_status c s =
     (let (status, s) = legacy_read_stream c 0 DC_STATUS_SIZE False s;
          crc_generated = legacy_crc_r s;
          (legacy_crc_read, s) = legacy_read_stream c 0 DBG_CRC_SIZE True s
      in (status, legacy_crc_read = crc_generated, s))"

text \<open>
  The end of a transaction: \<open>Inl\<close> when it is to be tried again, \<open>Inr\<close> with what it returns.
\<close>

definition conclude :: "'h jtag_cable \<Rightarrow> u32 \<Rightarrow> bool \<Rightarrow> 'h jtag \<Rightarrow> 'h jtag + (u32 \<times> 'h jtag)" where
  "conclude c status crc_ok s =
     (if \<not> crc_ok then (let (again, s) = retry_do c s in if again then Inl s else Inr (APP_ERR_CRC, s))
      else if status \<noteq> 0 then (let (again, s) = retry_do c s in if again then Inl s else Inr (APP_ERR_BAD_PARAM, s))
      else Inr (APP_ERR_NONE, snd (tap_exit_to_idle c (retry_ok s))))"

lemma never_again [simp]: "conclude c status crc_ok s \<noteq> Inl s'"
  by (simp add: conclude_def)

function legacy_dbg_set_chain :: "'h jtag_cable \<Rightarrow> int \<Rightarrow> 'h jtag \<Rightarrow> u32 \<times> 'h jtag" where
  "legacy_dbg_set_chain c chain s =
     (let s = s\<lparr>desired_chain := chain\<rparr>
      in if current_chain s = chain then (APP_ERR_NONE, s)
         else
           (let s = (snd (tap_set_shift_dr c (s\<lparr>current_chain := - 1\<rparr>)))\<lparr>legacy_crc_w := 0xffffffff\<rparr>;
                s = legacy_write_stream c ((of_int chain AND 0xf) OR push_bit DC_SIZE 1) (DC_SIZE + 1) False s;
                s = (send_crc c s)\<lparr>legacy_crc_r := 0xffffffff\<rparr>;
                (status, crc_ok, s) = read_status c s
            in case conclude c status crc_ok s of
                 Inl s \<Rightarrow> legacy_dbg_set_chain c chain s
               | Inr (err, s) \<Rightarrow> (err, if err = APP_ERR_NONE then s\<lparr>current_chain := chain\<rparr> else s)))"
  by pat_completeness auto
termination
  by (relation "{}") (auto simp: sum.case_eq_if)

declare legacy_dbg_set_chain.simps [simp del]

function legacy_dbg_command :: "'h jtag_cable \<Rightarrow> u32 \<Rightarrow> u32 \<Rightarrow> int \<Rightarrow> 'h jtag \<Rightarrow> (u32 \<times> 'h jtag) option" where
  "legacy_dbg_command c type adr len s =
     (let (e, s) = legacy_dbg_set_chain c (desired_chain s) s;
          s = (snd (tap_set_shift_dr c s))\<lparr>legacy_crc_w := 0xffffffff\<rparr>;
          s = legacy_write_stream c ((DI_WRITE_CMD AND 0xf) OR push_bit DC_SIZE 0) (DC_SIZE + 1) False s;
          s = legacy_write_stream c type 4 False s;
          s = legacy_write_stream c adr 32 False s
      in if \<not> len > 0 then None
         else
           (let s = legacy_write_stream c (of_int (len - 1)) 16 False s;
                s = (send_crc c s)\<lparr>legacy_crc_r := 0xffffffff\<rparr>;
                (status, crc_ok, s) = read_status c s
            in case conclude c status crc_ok s of
                 Inl s \<Rightarrow> legacy_dbg_command c type adr len s
               | Inr r \<Rightarrow> Some r))"
  by pat_completeness auto
termination
  by (relation "{}") (auto simp: sum.case_eq_if)

declare legacy_dbg_command.simps [simp del]

function legacy_dbg_ctrl :: "'h jtag_cable \<Rightarrow> u32 \<Rightarrow> u32 \<Rightarrow> 'h jtag \<Rightarrow> u32 \<times> 'h jtag" where
  "legacy_dbg_ctrl c reset stall s =
     (let (e, s) = legacy_dbg_set_chain c (desired_chain s) s;
          s = (snd (tap_set_shift_dr c s))\<lparr>legacy_crc_w := 0xffffffff\<rparr>;
          s = legacy_write_stream c ((DI_WRITE_CTRL AND 0xf) OR push_bit DC_SIZE 0) (DC_SIZE + 1) False s;
          s = legacy_write_stream c reset 1 False s;
          s = legacy_write_stream c stall 1 False s;
          s = legacy_write_stream c 0 32 False s;
          s = legacy_write_stream c 0 18 False s;
          s = (send_crc c s)\<lparr>legacy_crc_r := 0xffffffff\<rparr>;
          (status, crc_ok, s) = read_status c s
      in case conclude c status crc_ok s of
           Inl s \<Rightarrow> legacy_dbg_ctrl c reset stall s
         | Inr r \<Rightarrow> r)"
  by pat_completeness auto
termination
  by (relation "{}") (auto simp: sum.case_eq_if)

declare legacy_dbg_ctrl.simps [simp del]

text \<open>The two bits read are stored for the caller in every case.\<close>

function legacy_dbg_ctrl_read :: "'h jtag_cable \<Rightarrow> 'h jtag \<Rightarrow> u32 \<times> u32 \<times> u32 \<times> 'h jtag" where
  "legacy_dbg_ctrl_read c s =
     (let (e, s) = legacy_dbg_set_chain c (desired_chain s) s;
          s = (snd (tap_set_shift_dr c s))\<lparr>legacy_crc_w := 0xffffffff\<rparr>;
          s = legacy_write_stream c (DI_READ_CTRL OR push_bit DC_SIZE 0) (DC_SIZE + 1) False s;
          s = (send_crc c s)\<lparr>legacy_crc_r := 0xffffffff\<rparr>;
          (reset, s) = legacy_read_stream c 0 1 False s;
          (stall, s) = legacy_read_stream c 0 1 False s;
          (x, s) = legacy_read_stream c 0 32 False s;
          (y, s) = legacy_read_stream c 0 18 False s;
          (status, crc_ok, s) = read_status c s
      in case conclude c status crc_ok s of
           Inl s \<Rightarrow> legacy_dbg_ctrl_read c s
         | Inr (err, s) \<Rightarrow> (err, reset, stall, s))"
  by pat_completeness auto
termination
  by (relation "{}") (auto simp: sum.case_eq_if)

declare legacy_dbg_ctrl_read.simps [simp del]

fun legacy_write_bytes :: "'h jtag_cable \<Rightarrow> u8 list \<Rightarrow> 'h jtag \<Rightarrow> 'h jtag" where
  "legacy_write_bytes c [] s = s"
| "legacy_write_bytes c (b # bs) s = legacy_write_bytes c bs (legacy_write_stream c (ucast b) 8 False s)"

fun legacy_read_bytes :: "'h jtag_cable \<Rightarrow> nat \<Rightarrow> 'h jtag \<Rightarrow> u8 list \<times> 'h jtag" where
  "legacy_read_bytes c 0 s = ([], s)"
| "legacy_read_bytes c (Suc n) s =
     (let (b, s) = legacy_read_stream c 0 8 False s;
          (bs, s) = legacy_read_bytes c n s
      in (ucast b # bs, s))"

text \<open>
  The transfer itself: the length is an \<^verbatim>\<open>unsigned short\<close>; a write takes that many bytes of \<open>data\<close>, a read overwrites them. It is not
  tried again, and a bad status is itself the error.
\<close>

definition legacy_dbg_go :: "'h jtag_cable \<Rightarrow> u8 list \<Rightarrow> 16 word \<Rightarrow> bool \<Rightarrow> 'h jtag \<Rightarrow> u32 \<times> u8 list \<times> 'h jtag" where
  "legacy_dbg_go c data len read s =
     (let (e, s) = legacy_dbg_set_chain c (desired_chain s) s;
          s = (snd (tap_set_shift_dr c s))\<lparr>legacy_crc_w := 0xffffffff\<rparr>;
          s = legacy_write_stream c (DI_GO OR push_bit DC_SIZE 0) (DC_SIZE + 1) False s;
          s = (if \<not> read then legacy_write_bytes c (take (unat len) data) s else s);
          s = (send_crc c s)\<lparr>legacy_crc_r := 0xffffffff\<rparr>;
          (data, s) = (if read then (case legacy_read_bytes c (unat len) s of (bs, s) \<Rightarrow> (bs @ drop (unat len) data, s))
                       else (data, s));
          (status, crc_ok, s) = read_status c s
      in if \<not> crc_ok then (APP_ERR_CRC, data, s)
         else if status \<noteq> 0 then (status, data, s)
         else (APP_ERR_NONE, data, retry_ok (snd (tap_exit_to_idle c s))))"

end
