(* ===== verification/Dbg_Api.thy ===== *)
theory Dbg_Api
  imports Adv_Dbg Legacy_Dbg
begin

unbundle bit_operations_syntax

text \<open>
  The operations the servers call (\<^verbatim>\<open>dbg_api.c\<close>), on the advanced or the legacy debug hardware. Every operation holds the
  mutex \<^verbatim>\<open>dbg_access_mutex\<close> from its first transaction to the flush of the cable, so operations of different threads do not
  interleave; each is a step of its own. \<open>None\<close> is a program that has exited or aborted.
\<close>

section \<open>The host\<close>

datatype debug_hw = DBG_HW_ADVANCED | DBG_HW_LEGACY

text \<open>
  Whether \<^verbatim>\<open>malloc\<close> has room for a size, the size of \<^verbatim>\<open>unsigned long\<close>, and the memory behind an array handed to an operation, which
  the checksum of a burst write can read.
\<close>

record host =
  malloc_room :: "int \<Rightarrow> bool"
  ulong_bytes :: nat
  behind :: "nat \<Rightarrow> u8"

definition memory_of :: "host \<Rightarrow> u8 list \<Rightarrow> nat \<Rightarrow> u8" where
  "memory_of host bs k = (if k < length bs then bs ! k else behind host (k - length bs))"

text \<open>\<^verbatim>\<open>ntohl\<close> and \<^verbatim>\<open>ntohs\<close> on a little-endian host; half words in memory.\<close>

definition ntohl :: "u32 \<Rightarrow> u32" where
  "ntohl x = le_word (rev (le_bytes x))"

definition ntohs :: "16 word \<Rightarrow> 16 word" where
  "ntohs x = push_bit 8 x OR drop_bit 8 x"

definition bytes_of_halves :: "16 word list \<Rightarrow> u8 list" where
  "bytes_of_halves xs = concat (map (\<lambda>x. [ucast x, ucast (drop_bit 8 x)]) xs)"

definition halves_of_bytes :: "u8 list \<Rightarrow> 16 word list" where
  "halves_of_bytes bs = map (\<lambda>k. ucast (le_word (take 2 (drop (2 * k) bs)))) [0..<length bs div 2]"

text \<open>What a read has stored at the beginning of the caller's array.\<close>

definition overwrite :: "'a list \<Rightarrow> 'a list \<Rightarrow> 'a list" where
  "overwrite new_part data = new_part @ drop (length new_part) data"

section \<open>Access to a module\<close>

definition flushed :: "'h jtag_cable \<Rightarrow> 'h jtag \<Rightarrow> 'h jtag" where
  "flushed c s = s\<lparr>port := snd (cable_flush c (port s))\<rparr>"

text \<open>The advanced interface: select the module, do the operation, flush the cable.\<close>

definition on_module ::
  "'h jtag_cable \<Rightarrow> int \<Rightarrow> 'a \<Rightarrow> ('h jtag \<Rightarrow> (u32 \<times> 'a \<times> 'h jtag) option) \<Rightarrow> 'h jtag \<Rightarrow> (u32 \<times> 'a \<times> 'h jtag) option" where
  "on_module c module data f s =
     (let (err, s) = adbg_select_module c module s
      in if err \<noteq> 0 then Some (err, data, flushed c s)
         else map_option (\<lambda>(err, data, s). (err, data, flushed c s)) (f s))"

definition adv_read ::
  "'h jtag_cable \<Rightarrow> host \<Rightarrow> int \<Rightarrow> int \<Rightarrow> int \<Rightarrow> u32 \<Rightarrow> u8 list \<Rightarrow> 'h jtag \<Rightarrow> (u32 \<times> u8 list \<times> 'h jtag) option" where
  "adv_read c host module unit count adr data =
     on_module c module data
       (\<lambda>s. case adbg_wb_burst_read c (malloc_room host) (ulong_bytes host) unit count adr s of
              (err, stored, s) \<Rightarrow> Some (err, case stored of None \<Rightarrow> data | Some bs \<Rightarrow> overwrite bs data, s))"

definition adv_write ::
  "'h jtag_cable \<Rightarrow> host \<Rightarrow> int \<Rightarrow> int \<Rightarrow> int \<Rightarrow> u32 \<Rightarrow> u8 list \<Rightarrow> 'h jtag \<Rightarrow> (u32 \<times> 'h jtag) option" where
  "adv_write c host module unit count adr data s =
     map_option (\<lambda>(err, u, s). (err, s))
       (on_module c module ()
          (\<lambda>s. map_option (\<lambda>(err, s). (err, (), s))
             (adbg_wb_burst_write c (malloc_room host) (ulong_bytes host) (memory_of host data) unit count adr s)) s)"

text \<open>The legacy interface: set the chain, send the command, transfer; each only when the one before succeeded.\<close>

definition legacy_transfer ::
  "'h jtag_cable \<Rightarrow> int \<Rightarrow> u32 \<Rightarrow> u32 \<Rightarrow> int \<Rightarrow> bool \<Rightarrow> u8 list \<Rightarrow> 'h jtag \<Rightarrow> (u32 \<times> u8 list \<times> 'h jtag) option" where
  "legacy_transfer c chain type adr len read data s =
     (let (err, s) = legacy_dbg_set_chain c chain s
      in if err \<noteq> APP_ERR_NONE then Some (err, data, s)
         else case legacy_dbg_command c type adr len s of
           None \<Rightarrow> None
         | Some (err, s) \<Rightarrow>
             if err \<noteq> APP_ERR_NONE then Some (err, data, s)
             else Some (legacy_dbg_go c data (of_int len) read s))"

definition legacy_write ::
  "'h jtag_cable \<Rightarrow> int \<Rightarrow> u32 \<Rightarrow> u32 \<Rightarrow> int \<Rightarrow> u8 list \<Rightarrow> 'h jtag \<Rightarrow> (u32 \<times> 'h jtag) option" where
  "legacy_write c chain type adr len data s =
     map_option (\<lambda>(err, data, s). (err, flushed c s)) (legacy_transfer c chain type adr len False data s)"

section \<open>The Wishbone bus\<close>

text \<open>A reading operation is given what the caller's variable or array holds and returns what it holds afterwards.\<close>

definition dbg_wb_read32 :: "debug_hw \<Rightarrow> 'h jtag_cable \<Rightarrow> host \<Rightarrow> u32 \<Rightarrow> u32 \<Rightarrow> 'h jtag \<Rightarrow> (u32 \<times> u32 \<times> 'h jtag) option" where
  "dbg_wb_read32 hardware c host adr data s =
     (case hardware of
        DBG_HW_ADVANCED \<Rightarrow>
          map_option (\<lambda>(err, bs, s). (err, le_word bs, s)) (adv_read c host DC_WISHBONE 4 1 adr (le_bytes data) s)
      | DBG_HW_LEGACY \<Rightarrow>
          map_option (\<lambda>(err, bs, s). (err, ntohl (le_word bs), flushed c s))
            (legacy_transfer c DC_WISHBONE 0x6 adr 4 True (le_bytes data) s))"

definition dbg_wb_write32 :: "debug_hw \<Rightarrow> 'h jtag_cable \<Rightarrow> host \<Rightarrow> u32 \<Rightarrow> u32 \<Rightarrow> 'h jtag \<Rightarrow> (u32 \<times> 'h jtag) option" where
  "dbg_wb_write32 hardware c host adr data s =
     (case hardware of
        DBG_HW_ADVANCED \<Rightarrow> adv_write c host DC_WISHBONE 4 1 adr (le_bytes data) s
      | DBG_HW_LEGACY \<Rightarrow> legacy_write c DC_WISHBONE 0x2 adr 4 (le_bytes (ntohl data)) s)"

definition dbg_wb_write16 :: "debug_hw \<Rightarrow> 'h jtag_cable \<Rightarrow> host \<Rightarrow> u32 \<Rightarrow> 16 word \<Rightarrow> 'h jtag \<Rightarrow> (u32 \<times> 'h jtag) option" where
  "dbg_wb_write16 hardware c host adr data s =
     (case hardware of
        DBG_HW_ADVANCED \<Rightarrow> adv_write c host DC_WISHBONE 2 1 adr (bytes_of_halves [data]) s
      | DBG_HW_LEGACY \<Rightarrow> legacy_write c DC_WISHBONE 0x1 adr 2 (bytes_of_halves [ntohs data]) s)"

definition dbg_wb_write8 :: "debug_hw \<Rightarrow> 'h jtag_cable \<Rightarrow> host \<Rightarrow> u32 \<Rightarrow> u8 \<Rightarrow> 'h jtag \<Rightarrow> (u32 \<times> 'h jtag) option" where
  "dbg_wb_write8 hardware c host adr data s =
     (case hardware of
        DBG_HW_ADVANCED \<Rightarrow> adv_write c host DC_WISHBONE 1 1 adr [data] s
      | DBG_HW_LEGACY \<Rightarrow> legacy_write c DC_WISHBONE 0x0 adr 1 [data] s)"

text \<open>On the legacy hardware the words of a block are brought into the host's order only when the transfer succeeded.\<close>

definition dbg_wb_read_block32 ::
  "debug_hw \<Rightarrow> 'h jtag_cable \<Rightarrow> host \<Rightarrow> u32 \<Rightarrow> u32 list \<Rightarrow> int \<Rightarrow> 'h jtag \<Rightarrow> (u32 \<times> u32 list \<times> 'h jtag) option" where
  "dbg_wb_read_block32 hardware c host adr data len s =
     (if len = 0 then Some (APP_ERR_NONE, data, s)
      else case hardware of
        DBG_HW_ADVANCED \<Rightarrow>
          map_option (\<lambda>(err, bs, s). (err, words_of_bytes bs, s))
            (adv_read c host DC_WISHBONE 4 len adr (bytes_of_words data) s)
      | DBG_HW_LEGACY \<Rightarrow>
          map_option (\<lambda>(err, bs, s).
              (err,
               if err = APP_ERR_NONE then overwrite (map ntohl (take (nat len) (words_of_bytes bs))) (words_of_bytes bs)
               else words_of_bytes bs,
               flushed c s))
            (legacy_transfer c DC_WISHBONE 0x6 adr (4 * len) True (bytes_of_words data) s))"

definition dbg_wb_read_block16 ::
  "debug_hw \<Rightarrow> 'h jtag_cable \<Rightarrow> host \<Rightarrow> u32 \<Rightarrow> 16 word list \<Rightarrow> int \<Rightarrow> 'h jtag \<Rightarrow> (u32 \<times> 16 word list \<times> 'h jtag) option" where
  "dbg_wb_read_block16 hardware c host adr data len s =
     (if len = 0 then Some (APP_ERR_NONE, data, s)
      else case hardware of
        DBG_HW_ADVANCED \<Rightarrow>
          map_option (\<lambda>(err, bs, s). (err, halves_of_bytes bs, s))
            (adv_read c host DC_WISHBONE 2 len adr (bytes_of_halves data) s)
      | DBG_HW_LEGACY \<Rightarrow>
          map_option (\<lambda>(err, bs, s).
              (err,
               if err = APP_ERR_NONE then overwrite (map ntohs (take (nat len) (halves_of_bytes bs))) (halves_of_bytes bs)
               else halves_of_bytes bs,
               flushed c s))
            (legacy_transfer c DC_WISHBONE 0x5 adr (2 * len) True (bytes_of_halves data) s))"

definition dbg_wb_read_block8 ::
  "debug_hw \<Rightarrow> 'h jtag_cable \<Rightarrow> host \<Rightarrow> u32 \<Rightarrow> u8 list \<Rightarrow> int \<Rightarrow> 'h jtag \<Rightarrow> (u32 \<times> u8 list \<times> 'h jtag) option" where
  "dbg_wb_read_block8 hardware c host adr data len s =
     (if len = 0 then Some (APP_ERR_NONE, data, s)
      else case hardware of
        DBG_HW_ADVANCED \<Rightarrow> adv_read c host DC_WISHBONE 1 len adr data s
      | DBG_HW_LEGACY \<Rightarrow>
          map_option (\<lambda>(err, bs, s). (err, bs, flushed c s)) (legacy_transfer c DC_WISHBONE 0x4 adr len True data s))"

text \<open>The length of a block to be written counts from its start; on the legacy hardware the array is left reversed.\<close>

definition dbg_wb_write_block32 ::
  "debug_hw \<Rightarrow> 'h jtag_cable \<Rightarrow> host \<Rightarrow> u32 \<Rightarrow> u32 list \<Rightarrow> int \<Rightarrow> 'h jtag \<Rightarrow> (u32 \<times> 'h jtag) option" where
  "dbg_wb_write_block32 hardware c host adr data len s =
     (if len = 0 then Some (APP_ERR_NONE, s)
      else case hardware of
        DBG_HW_ADVANCED \<Rightarrow> adv_write c host DC_WISHBONE 4 len adr (bytes_of_words data) s
      | DBG_HW_LEGACY \<Rightarrow>
          legacy_write c DC_WISHBONE 0x2 adr (4 * len) (bytes_of_words (overwrite (map ntohl (take (nat len) data)) data)) s)"

definition dbg_wb_write_block16 ::
  "debug_hw \<Rightarrow> 'h jtag_cable \<Rightarrow> host \<Rightarrow> u32 \<Rightarrow> 16 word list \<Rightarrow> int \<Rightarrow> 'h jtag \<Rightarrow> (u32 \<times> 'h jtag) option" where
  "dbg_wb_write_block16 hardware c host adr data len s =
     (if len = 0 then Some (APP_ERR_NONE, s)
      else case hardware of
        DBG_HW_ADVANCED \<Rightarrow> adv_write c host DC_WISHBONE 2 len adr (bytes_of_halves data) s
      | DBG_HW_LEGACY \<Rightarrow>
          legacy_write c DC_WISHBONE 0x1 adr (2 * len) (bytes_of_halves (overwrite (map ntohs (take (nat len) data)) data)) s)"

definition dbg_wb_write_block8 ::
  "debug_hw \<Rightarrow> 'h jtag_cable \<Rightarrow> host \<Rightarrow> u32 \<Rightarrow> u8 list \<Rightarrow> int \<Rightarrow> 'h jtag \<Rightarrow> (u32 \<times> 'h jtag) option" where
  "dbg_wb_write_block8 hardware c host adr data len s =
     (if len = 0 then Some (APP_ERR_NONE, s)
      else case hardware of
        DBG_HW_ADVANCED \<Rightarrow> adv_write c host DC_WISHBONE 1 len adr data s
      | DBG_HW_LEGACY \<Rightarrow> legacy_write c DC_WISHBONE 0x0 adr len data s)"

section \<open>The processors\<close>

text \<open>Here the word is brought into the host's order only after a successful transfer.\<close>

definition dbg_cpu0_read :: "debug_hw \<Rightarrow> 'h jtag_cable \<Rightarrow> host \<Rightarrow> u32 \<Rightarrow> u32 \<Rightarrow> 'h jtag \<Rightarrow> (u32 \<times> u32 \<times> 'h jtag) option" where
  "dbg_cpu0_read hardware c host adr data s =
     (case hardware of
        DBG_HW_ADVANCED \<Rightarrow>
          map_option (\<lambda>(err, bs, s). (err, le_word bs, s)) (adv_read c host DC_CPU0 4 1 adr (le_bytes data) s)
      | DBG_HW_LEGACY \<Rightarrow>
          map_option (\<lambda>(err, bs, s). (err, if err = APP_ERR_NONE then ntohl (le_word bs) else le_word bs, flushed c s))
            (legacy_transfer c DC_CPU0 0x6 adr 4 True (le_bytes data) s))"

text \<open>On the legacy hardware a block of registers is read and written one by one, with the errors collected.\<close>

fun cpu0_read_each ::
  "'h jtag_cable \<Rightarrow> host \<Rightarrow> u32 \<Rightarrow> u32 \<Rightarrow> u32 list \<Rightarrow> nat \<Rightarrow> 'h jtag \<Rightarrow> (u32 \<times> u32 list \<times> 'h jtag) option" where
  "cpu0_read_each c host err readaddr data 0 s = Some (err, data, s)"
| "cpu0_read_each c host err readaddr [] (Suc n) s = Some (err, [], s)"
| "cpu0_read_each c host err readaddr (d # ds) (Suc n) s =
     (case dbg_cpu0_read DBG_HW_LEGACY c host readaddr d s of
        None \<Rightarrow> None
      | Some (e, d, s) \<Rightarrow>
          map_option (\<lambda>(err, ds, s). (err, d # ds, s)) (cpu0_read_each c host (err OR e) (readaddr + 1) ds n s))"

definition dbg_cpu0_read_block ::
  "debug_hw \<Rightarrow> 'h jtag_cable \<Rightarrow> host \<Rightarrow> u32 \<Rightarrow> u32 list \<Rightarrow> int \<Rightarrow> 'h jtag \<Rightarrow> (u32 \<times> u32 list \<times> 'h jtag) option" where
  "dbg_cpu0_read_block hardware c host adr data count s =
     (case hardware of
        DBG_HW_ADVANCED \<Rightarrow>
          map_option (\<lambda>(err, bs, s). (err, words_of_bytes bs, s)) (adv_read c host DC_CPU0 4 count adr (bytes_of_words data) s)
      | DBG_HW_LEGACY \<Rightarrow> cpu0_read_each c host APP_ERR_NONE adr data (nat count) s)"

definition dbg_cpu0_write :: "debug_hw \<Rightarrow> 'h jtag_cable \<Rightarrow> host \<Rightarrow> u32 \<Rightarrow> u32 \<Rightarrow> 'h jtag \<Rightarrow> (u32 \<times> 'h jtag) option" where
  "dbg_cpu0_write hardware c host adr data s =
     (case hardware of
        DBG_HW_ADVANCED \<Rightarrow> adv_write c host DC_CPU0 4 1 adr (le_bytes data) s
      | DBG_HW_LEGACY \<Rightarrow> legacy_write c DC_CPU0 0x2 adr 4 (le_bytes (ntohl data)) s)"

fun cpu0_write_each :: "'h jtag_cable \<Rightarrow> host \<Rightarrow> u32 \<Rightarrow> u32 \<Rightarrow> u32 list \<Rightarrow> 'h jtag \<Rightarrow> (u32 \<times> 'h jtag) option" where
  "cpu0_write_each c host err writeaddr [] s = Some (err, s)"
| "cpu0_write_each c host err writeaddr (d # ds) s =
     (case dbg_cpu0_write DBG_HW_LEGACY c host writeaddr d s of
        None \<Rightarrow> None
      | Some (e, s) \<Rightarrow> cpu0_write_each c host (err OR e) (writeaddr + 1) ds s)"

definition dbg_cpu0_write_block ::
  "debug_hw \<Rightarrow> 'h jtag_cable \<Rightarrow> host \<Rightarrow> u32 \<Rightarrow> u32 list \<Rightarrow> int \<Rightarrow> 'h jtag \<Rightarrow> (u32 \<times> 'h jtag) option" where
  "dbg_cpu0_write_block hardware c host adr data count s =
     (case hardware of
        DBG_HW_ADVANCED \<Rightarrow> adv_write c host DC_CPU0 4 count adr (bytes_of_words data) s
      | DBG_HW_LEGACY \<Rightarrow> cpu0_write_each c host APP_ERR_NONE adr (take (nat count) data) s)"

text \<open>The control register: bit 1 is reset, bit 0 stall.\<close>

definition adv_write_ctrl :: "'h jtag_cable \<Rightarrow> int \<Rightarrow> nat \<Rightarrow> u8 \<Rightarrow> 'h jtag \<Rightarrow> u32 \<times> 'h jtag" where
  "adv_write_ctrl c module regidx data s =
     (let (err, s) = adbg_select_module c module s
      in if err \<noteq> 0 then (err, flushed c s)
         else (let (err, s) = adbg_ctrl_write c regidx [ucast data] 2 s in (err, flushed c s)))"

definition adv_read_ctrl :: "'h jtag_cable \<Rightarrow> int \<Rightarrow> nat \<Rightarrow> u8 \<Rightarrow> 'h jtag \<Rightarrow> u32 \<times> u8 \<times> 'h jtag" where
  "adv_read_ctrl c module regidx data s =
     (let (err, s) = adbg_select_module c module s
      in if err \<noteq> 0 then (err, data, flushed c s)
         else (let (err, dataword, s) = adbg_ctrl_read c regidx [0] 2 s
               in (err, if err \<noteq> 0 then data else ucast (hd dataword), flushed c s)))"

definition legacy_write_ctrl :: "'h jtag_cable \<Rightarrow> int \<Rightarrow> u8 \<Rightarrow> 'h jtag \<Rightarrow> u32 \<times> 'h jtag" where
  "legacy_write_ctrl c chain data s =
     (let (err, s) = legacy_dbg_set_chain c chain s;
          (err, s) = (if err = APP_ERR_NONE then legacy_dbg_ctrl c (ucast (data AND 2)) (ucast (data AND 1)) s else (err, s))
      in (err, flushed c s))"

text \<open>When the chain cannot be set the value stored is indeterminate in C; here it is left as it was.\<close>

definition legacy_read_ctrl :: "'h jtag_cable \<Rightarrow> int \<Rightarrow> u8 \<Rightarrow> 'h jtag \<Rightarrow> u32 \<times> u8 \<times> 'h jtag" where
  "legacy_read_ctrl c chain data s =
     (let (err, s) = legacy_dbg_set_chain c chain s
      in if err \<noteq> APP_ERR_NONE then (err, data, flushed c s)
         else (let (err, r, st, s) = legacy_dbg_ctrl_read c s
               in (err, ucast (push_bit 1 r OR st), flushed c s)))"

definition dbg_cpu0_write_ctrl :: "debug_hw \<Rightarrow> 'h jtag_cable \<Rightarrow> u32 \<Rightarrow> u8 \<Rightarrow> 'h jtag \<Rightarrow> u32 \<times> 'h jtag" where
  "dbg_cpu0_write_ctrl hardware c adr data s =
     (case hardware of
        DBG_HW_ADVANCED \<Rightarrow> adv_write_ctrl c DC_CPU0 DBG_CPU0_REG_STATUS data s
      | DBG_HW_LEGACY \<Rightarrow> legacy_write_ctrl c DC_CPU0 data s)"

definition dbg_cpu0_read_ctrl :: "debug_hw \<Rightarrow> 'h jtag_cable \<Rightarrow> u32 \<Rightarrow> u8 \<Rightarrow> 'h jtag \<Rightarrow> u32 \<times> u8 \<times> 'h jtag" where
  "dbg_cpu0_read_ctrl hardware c adr data s =
     (case hardware of
        DBG_HW_ADVANCED \<Rightarrow> adv_read_ctrl c DC_CPU0 DBG_CPU0_REG_STATUS data s
      | DBG_HW_LEGACY \<Rightarrow> legacy_read_ctrl c DC_CPU0 data s)"

text \<open>The second processor. On the advanced hardware its write selects the module of the first.\<close>

definition dbg_cpu1_read :: "debug_hw \<Rightarrow> 'h jtag_cable \<Rightarrow> host \<Rightarrow> u32 \<Rightarrow> u32 \<Rightarrow> 'h jtag \<Rightarrow> (u32 \<times> u32 \<times> 'h jtag) option" where
  "dbg_cpu1_read hardware c host adr data s =
     (case hardware of
        DBG_HW_ADVANCED \<Rightarrow>
          map_option (\<lambda>(err, bs, s). (err, le_word bs, s)) (adv_read c host DC_CPU1 4 1 adr (le_bytes data) s)
      | DBG_HW_LEGACY \<Rightarrow>
          map_option (\<lambda>(err, bs, s). (err, ntohl (le_word bs), flushed c s))
            (legacy_transfer c DC_CPU1 0x6 adr 4 True (le_bytes data) s))"

definition dbg_cpu1_write :: "debug_hw \<Rightarrow> 'h jtag_cable \<Rightarrow> host \<Rightarrow> u32 \<Rightarrow> u32 \<Rightarrow> 'h jtag \<Rightarrow> (u32 \<times> 'h jtag) option" where
  "dbg_cpu1_write hardware c host adr data s =
     (case hardware of
        DBG_HW_ADVANCED \<Rightarrow> adv_write c host DC_CPU0 4 1 adr (le_bytes data) s
      | DBG_HW_LEGACY \<Rightarrow> legacy_write c DC_CPU1 0x2 adr 4 (le_bytes (ntohl data)) s)"

definition dbg_cpu1_write_ctrl :: "debug_hw \<Rightarrow> 'h jtag_cable \<Rightarrow> u32 \<Rightarrow> u8 \<Rightarrow> 'h jtag \<Rightarrow> u32 \<times> 'h jtag" where
  "dbg_cpu1_write_ctrl hardware c adr data s =
     (case hardware of
        DBG_HW_ADVANCED \<Rightarrow> adv_write_ctrl c DC_CPU1 DBG_CPU1_REG_STATUS data s
      | DBG_HW_LEGACY \<Rightarrow> legacy_write_ctrl c DC_CPU1 data s)"

definition dbg_cpu1_read_ctrl :: "debug_hw \<Rightarrow> 'h jtag_cable \<Rightarrow> u32 \<Rightarrow> u8 \<Rightarrow> 'h jtag \<Rightarrow> u32 \<times> u8 \<times> 'h jtag" where
  "dbg_cpu1_read_ctrl hardware c adr data s =
     (case hardware of
        DBG_HW_ADVANCED \<Rightarrow> adv_read_ctrl c DC_CPU1 DBG_CPU1_REG_STATUS data s
      | DBG_HW_LEGACY \<Rightarrow> legacy_read_ctrl c DC_CPU1 data s)"

section \<open>The serial port\<close>

definition dbg_serial_sndrcv :: "'h jtag_cable \<Rightarrow> u8 list \<Rightarrow> 'h jtag \<Rightarrow> u32 \<times> (nat \<times> u8 list) option \<times> 'h jtag" where
  "dbg_serial_sndrcv c data_to_send s =
     (let (err, s) = adbg_select_module c DC_JSP s
      in if err \<noteq> 0 then (err, None, flushed c s)
         else (let (err, r, s) = adbg_jsp_transact c data_to_send s in (err, r, flushed c s)))"

end
