(* ===== verification/Jtag_State_Spec.thy ===== *)
theory Jtag_State_Spec
  imports Dbg_Api Jtag_Chain_Spec
begin

unbundle bit_operations_syntax

text \<open>
  A type for the state the transactions keep between them (the record \<open>jtag\<close>), and that every operation of the debug
  API and of the chain layer preserves it, on any cable whatever, with or without errors: one rule per function, in the
  collection \<open>kept_state\<close>, composed along the sequences of calls.
\<close>

section \<open>The type of the state\<close>

definition configuration :: "'h jtag \<Rightarrow> nat list \<times> u32 list \<times> bool list" where
  "configuration s =
     ([global_IR_size s, global_IR_prefix_bits s, global_IR_postfix_bits s, global_DR_prefix_bits s, global_DR_postfix_bits s],
      [global_jtag_cmd_debug s, vjtag_cmd_vir s, vjtag_cmd_vdr s],
      [global_altera_virtual_jtag s, global_xilinx_bscan s])"

text \<open>
  The module selected is unknown or the one asked for, which is one of the \<^verbatim>\<open>DBG_MAX_MODULES\<close> modules or none yet;
  \<^verbatim>\<open>current_reg_idx\<close> has an entry for each; no retry is counted; the sizes of the scratchpads are none or positive.
\<close>

definition well_formed :: "'h jtag \<Rightarrow> bool" where
  "well_formed s \<longleftrightarrow>
     length (current_reg_idx s) = DBG_MAX_MODULES \<and>
     - 1 \<le> desired_chain s \<and> desired_chain s < int DBG_MAX_MODULES \<and>
     (current_chain s = - 1 \<or> current_chain s = desired_chain s) \<and>
     soft_retry_no s \<le> NUM_SOFT_RETRIES \<and> 0 \<le> input_scratchpad_size s \<and> 0 \<le> output_scratchpad_size s"

definition proper :: "nat list \<times> u32 list \<times> bool list \<Rightarrow> 'h jtag \<Rightarrow> bool" where
  "proper k s \<longleftrightarrow> well_formed s \<and> configuration s = k"

section \<open>Results\<close>

definition keeps2 :: "nat list \<times> u32 list \<times> bool list \<Rightarrow> 'a \<times> 'h jtag \<Rightarrow> bool" where
  "keeps2 k r \<longleftrightarrow> proper k (snd r)"

definition keeps3 :: "nat list \<times> u32 list \<times> bool list \<Rightarrow> 'a \<times> 'b \<times> 'h jtag \<Rightarrow> bool" where
  "keeps3 k r \<longleftrightarrow> proper k (snd (snd r))"

named_theorems kept_state \<open>results that keep the state proper\<close>

lemma keeps2_pair [simp]: "keeps2 k (e, s) = proper k s"
  by (simp add: keeps2_def)

lemma keeps3_triple [simp]: "keeps3 k (e, x, s) = proper k s"
  by (simp add: keeps3_def)

text \<open>Composition: what a call returns is proper, so what is done with it may assume so.\<close>

lemma bind2:
  assumes "keeps2 k r" "\<And>e s. proper k s \<Longrightarrow> P (f e s)"
  shows "P (case r of (e, s) \<Rightarrow> f e s)"
  using assms by (cases r) simp

lemma bind3:
  assumes "keeps3 k r" "\<And>e x s. proper k s \<Longrightarrow> P (f e x s)"
  shows "P (case r of (e, x, s) \<Rightarrow> f e x s)"
  using assms by (cases r) simp

lemma keeps_seq [kept_state]:
  "\<forall>f \<in> set fs. \<forall>s. proper k s \<longrightarrow> keeps2 k (f s) \<Longrightarrow> proper k s \<Longrightarrow> keeps2 k (err_seq fs s)"
  by (induction fs arbitrary: s) (auto simp: Let_def keeps2_def split: prod.splits, (metis snd_conv)+)

lemma proper_port [simp]: "proper k (s\<lparr>port := h\<rparr>) = proper k s"
  by (simp add: proper_def well_formed_def configuration_def)

lemma proper_retry_ok [simp]: "proper k s \<Longrightarrow> proper k (retry_ok s)"
  by (simp add: proper_def well_formed_def configuration_def retry_ok_def)

lemma proper_reg_idx [simp]: "proper k s \<Longrightarrow> proper k (set_reg_idx i s)"
  by (simp add: proper_def well_formed_def configuration_def set_reg_idx_def)

lemma proper_no_chain [simp]: "proper k s \<Longrightarrow> proper k (s\<lparr>current_chain := - 1\<rparr>)"
  by (simp add: proper_def well_formed_def configuration_def)

lemma proper_crc [simp]: "proper k (s\<lparr>legacy_crc_w := x\<rparr>) = proper k s" "proper k (s\<lparr>legacy_crc_r := x\<rparr>) = proper k s"
  by (simp_all add: proper_def well_formed_def configuration_def)

lemma proper_scratch [simp]:
  "proper k s \<Longrightarrow> 0 \<le> n \<Longrightarrow> proper k (s\<lparr>input_scratchpad_size := n\<rparr>)"
  "proper k s \<Longrightarrow> 0 \<le> n \<Longrightarrow> proper k (s\<lparr>output_scratchpad_size := n\<rparr>)"
  by (simp_all add: proper_def well_formed_def configuration_def)

section \<open>Bits, streams and the test access port\<close>

lemma keeps_on_port [kept_state]: "proper k s \<Longrightarrow> keeps2 k (on_port f s)"
  by (simp add: on_port_def split: prod.splits)

lemma keeps_read_port [kept_state]: "proper k s \<Longrightarrow> keeps3 k (read_port f s)"
  by (simp add: read_port_def split: prod.splits)

lemma keeps_bits [kept_state]:
  "proper k s \<Longrightarrow> keeps2 k (jtag_write_bit c p s)" "proper k s \<Longrightarrow> keeps3 k (jtag_read_write_bit c p s)"
  unfolding jtag_write_bit_def jtag_read_write_bit_def by (rule kept_state; assumption)+

lemma keeps_prefix [kept_state]: "proper k s \<Longrightarrow> keeps2 k (push_prefix c s)"
  unfolding push_prefix_def by (rule keeps_seq) (auto intro: kept_state)

lemma keeps_streams [kept_state]:
  "proper k s \<Longrightarrow> keeps2 k (jtag_write_stream c ws n tms s)"
  "proper k s \<Longrightarrow> keeps3 k (jtag_read_write_stream c ws n adjust tms s)"
proof -
  show "proper k s \<Longrightarrow> keeps2 k (jtag_write_stream c ws n tms s)"
    unfolding jtag_write_stream_def by (auto intro!: kept_state simp del: err_seq.simps)
  show "proper k s \<Longrightarrow> keeps3 k (jtag_read_write_stream c ws n adjust tms s)"
    unfolding jtag_read_write_stream_def Let_def
    by (rule bind2 [where k = k], auto intro!: kept_state simp del: err_seq.simps)
       (rule bind3 [where k = k], auto intro!: kept_state simp del: err_seq.simps, rule bind2 [where k = k], auto intro!: kept_state)
qed

lemma keeps_tap [kept_state]:
  "proper k s \<Longrightarrow> keeps2 k (tap_set_shift_dr c s)" "proper k s \<Longrightarrow> keeps2 k (tap_exit_to_idle c s)"
  unfolding tap_set_shift_dr_def tap_exit_to_idle_def by (auto intro!: kept_state simp del: err_seq.simps)

lemma keeps_set_ir [kept_state]: "proper k s \<Longrightarrow> keeps2 k (tap_set_ir c ir s)"
  unfolding tap_set_ir_def Let_def by (rule bind2 [where k = k]) (auto intro!: kept_state simp del: err_seq.simps)

lemma keeps_enable [kept_state]: "proper k s \<Longrightarrow> keeps2 k (tap_enable_debug_module c s)"
  unfolding tap_enable_debug_module_def Let_def by (auto intro!: kept_state simp del: err_seq.simps)

lemma keeps_reset [kept_state]: "proper k s \<Longrightarrow> keeps2 k (tap_reset c s)"
proof -
  have p: "proper k s' \<Longrightarrow> proper k (s'\<lparr>current_chain := - 1, current_reg_idx := replicate DBG_MAX_MODULES (- 1)\<rparr>)" for s' :: "'a jtag"
    by (simp add: proper_def well_formed_def configuration_def)
  show "proper k s \<Longrightarrow> keeps2 k (tap_reset c s)"
    unfolding tap_reset_def Let_def
    by (rule bind2 [where k = k]) (auto intro!: kept_state p simp del: err_seq.simps replicate.simps)
qed

section \<open>Enumeration\<close>

lemma keeps_enumerate [kept_state]: "proper k s \<Longrightarrow> keeps3 k (enumerate_loop c code ids err s)"
proof (induction "MAX_DEVICES - length ids" arbitrary: code ids err s rule: less_induct)
  case less
  have IH: "keeps3 k (enumerate_loop c code' (ids @ [d]) err' s')" if "length ids < MAX_DEVICES" "proper k s'" for code' d err' s'
    by (rule less.hyps) (use that in auto)
  have streams: "keeps3 k (let (e, rest, s) = jtag_read_write_stream c ws n False False s' in f e rest s)"
    if "proper k s'" "\<And>e rest s. proper k s \<Longrightarrow> keeps3 k (f e rest s)" for ws n s' f
    unfolding Let_def by (rule bind3 [where k = k]) (auto intro: kept_state that)
  show ?case
    unfolding enumerate_loop.simps [of c code]
    by (auto intro!: bind3 [where k = k and P = "keeps3 k"] kept_state less.prems IH streams simp: Let_def)
qed

lemma keeps_enumerate_chain [kept_state]: "proper k s \<Longrightarrow> keeps3 k (jtag_enumerate_chain c s)"
  unfolding jtag_enumerate_chain_def Let_def
  by (auto intro!: bind2 [where k = k and P = "keeps3 k"] bind3 [where k = k and P = "keeps3 k"] kept_state
      simp del: err_seq.simps split: option.splits)

section \<open>Modules of the advanced interface\<close>

text \<open>What leaves everything but the cable alone leaves the selection alone.\<close>

definition only_port :: "'h jtag \<Rightarrow> 'a \<times> 'h jtag \<Rightarrow> bool" where
  "only_port s r \<longleftrightarrow> (\<exists>h. snd r = s\<lparr>port := h\<rparr>)"

lemma only_port_seq:
  "\<forall>f \<in> set fs. \<forall>s. only_port s (f s) \<Longrightarrow> only_port s (err_seq fs s)"
proof (induction fs arbitrary: s)
  case Nil
  show ?case by (auto simp: only_port_def intro: exI [of _ "port s"])
next
  case (Cons f fs)
  have "only_port s (f s)" using Cons.prems by simp
  then obtain e h where f: "f s = (e, s\<lparr>port := h\<rparr>)" by (cases "f s") (auto simp: only_port_def)
  have "only_port (s\<lparr>port := h\<rparr>) (err_seq fs (s\<lparr>port := h\<rparr>))" using Cons by simp
  then show ?case by (cases "err_seq fs (s\<lparr>port := h\<rparr>)") (auto simp: f only_port_def)
qed

lemma only_port_bits: "only_port s (on_port f s)" "only_port s (jtag_write_bit c p s)"
  by (auto simp: jtag_write_bit_def on_port_def only_port_def split: prod.splits)

lemma only_port_streams: "only_port s (jtag_write_stream c ws n tms s)"
  unfolding jtag_write_stream_def push_prefix_def
  by (auto intro!: only_port_seq only_port_bits simp del: err_seq.simps)

lemma only_port_tap: "only_port s (tap_set_shift_dr c s)" "only_port s (tap_exit_to_idle c s)"
  unfolding tap_set_shift_dr_def tap_exit_to_idle_def by (auto intro!: only_port_seq only_port_bits simp del: err_seq.simps)

lemma keeps_select_module [kept_state]:
  assumes "proper k s" "- 1 \<le> chain" "chain < int DBG_MAX_MODULES"
  shows "keeps2 k (adbg_select_module c chain s)"
proof -
  let ?s0 = "s\<lparr>current_chain := - 1, desired_chain := chain\<rparr>"
  let ?fs = "[tap_set_shift_dr c, jtag_write_stream c [of_int chain OR push_bit DBG_MODULE_SELECT_REG_SIZE 1] 3 True, tap_exit_to_idle c]"
  have "only_port ?s0 (err_seq ?fs ?s0)" by (rule only_port_seq) (auto intro: only_port_tap only_port_streams)
  then obtain e h where "err_seq ?fs ?s0 = (e, ?s0\<lparr>port := h\<rparr>)" by (cases "err_seq ?fs ?s0") (auto simp: only_port_def)
  then show ?thesis
    using assms by (auto simp add: adbg_select_module_def Let_def proper_def well_formed_def configuration_def del: err_seq.simps)
qed

lemma keeps_select_desired [kept_state]: "proper k s \<Longrightarrow> keeps2 k (adbg_select_module c (desired_chain s) s)"
  by (rule keeps_select_module) (auto simp: proper_def well_formed_def)

lemma keeps_select_ctrl_reg [kept_state]: "proper k s \<Longrightarrow> keeps2 k (adbg_select_ctrl_reg c i s)"
  unfolding adbg_select_ctrl_reg_def Let_def
  by (auto intro!: bind2 [where k = k and P = "keeps2 k"] kept_state simp del: err_seq.simps split: option.splits)

lemma keeps_ctrl_write [kept_state]: "proper k s \<Longrightarrow> keeps2 k (adbg_ctrl_write c i ws n s)"
  unfolding adbg_ctrl_write_def Let_def
  by (auto intro!: bind2 [where k = k and P = "keeps2 k"] kept_state simp del: err_seq.simps split: option.splits)

lemma keeps_ctrl_read [kept_state]: "proper k s \<Longrightarrow> keeps3 k (adbg_ctrl_read c i ws n s)"
  unfolding adbg_ctrl_read_def Let_def
  by (auto intro!: bind2 [where k = k and P = "keeps3 k"] bind3 [where k = k and P = "keeps3 k"] kept_state
      simp del: err_seq.simps split: option.splits)

lemma keeps_burst_command [kept_state]: "proper k s \<Longrightarrow> keeps2 k (adbg_burst_command c op adr n s)"
  unfolding adbg_burst_command_def Let_def
  by (auto intro!: bind2 [where k = k and P = "keeps2 k"] kept_state simp del: err_seq.simps)

section \<open>Bursts\<close>

lemma keeps_bus_error:
  assumes "proper k s" "\<And>err d a s. proper k s \<Longrightarrow> P (f err d a s)"
  shows "P (case bus_error c err s of (err, d, a, s) \<Rightarrow> f err d a s)"
proof -
  have "proper k (snd (snd (snd (bus_error c err s))))"
    using keeps_ctrl_read [OF assms(1), of c DBG_WB_REG_ERROR "[0, 0]" 1]
      keeps_ctrl_read [where k = k and c = c and i = DBG_WB_REG_ERROR and n = 33]
    by (auto simp: bus_error_def Let_def split: prod.splits) (metis keeps3_triple)
  then show ?thesis using assms(2) by (cases "bus_error c err s") auto
qed

lemma keeps_wait [kept_state]: "proper k s \<Longrightarrow> keeps3 k (wait_status c n err s)"
  by (induction n arbitrary: err s)
    (auto simp: Let_def intro!: bind3 [where k = k and P = "keeps3 k"] kept_state)

lemma bind_buffer:
  assumes "0 \<le> m" "\<And>e n. 0 \<le> n \<Longrightarrow> P (f e n)"
  shows "P (case check_buffer_size room m requested of (e, n) \<Rightarrow> f e n)"
  using assms by (auto simp: check_buffer_size_def)

lemma proper_sizes: "proper k s \<Longrightarrow> 0 \<le> input_scratchpad_size s" "proper k s \<Longrightarrow> 0 \<le> output_scratchpad_size s"
  by (simp_all add: proper_def well_formed_def)

lemmas binds3 = bind2 [where P = "keeps3 k" and k = k for k] bind3 [where P = "keeps3 k" and k = k for k]
  keeps_bus_error [where P = "keeps3 k" and k = k for k] bind_buffer [where P = "keeps3 k" for k]

lemma keeps_burst_read_from:
  "proper k s \<Longrightarrow> keeps3 k (burst_read_from c room long op ws count start addr i left data err s)"
proof (induction left arbitrary: addr i data err s)
  case 0
  then show ?case
    unfolding burst_read_from.simps [of c room long op ws count start addr i 0] Let_def never_retried prod.case not_False_eq_True if_True nat.case
    by (auto intro!: binds3 kept_state proper_sizes simp del: err_seq.simps split: option.splits)
next
  case (Suc left)
  show ?case
    unfolding burst_read_from.simps [of c room long op ws count start addr i "Suc left"] Let_def never_retried prod.case not_False_eq_True if_True nat.case
    by (auto intro!: binds3 kept_state proper_sizes Suc simp del: err_seq.simps split: option.splits)
qed

lemma keeps_burst_read [kept_state]: "proper k s \<Longrightarrow> keeps3 k (adbg_wb_burst_read c room long ws count start s)"
  unfolding adbg_wb_burst_read_def by (auto intro: keeps_burst_read_from split: option.splits)

text \<open>A call that may end the program keeps the state when it returns.\<close>

definition keeps_opt2 :: "nat list \<times> u32 list \<times> bool list \<Rightarrow> ('a \<times> 'h jtag) option \<Rightarrow> bool" where
  "keeps_opt2 k r \<longleftrightarrow> pred_option (keeps2 k) r"

definition keeps_opt3 :: "nat list \<times> u32 list \<times> bool list \<Rightarrow> ('a \<times> 'b \<times> 'h jtag) option \<Rightarrow> bool" where
  "keeps_opt3 k r \<longleftrightarrow> pred_option (keeps3 k) r"

lemma keeps_opt_simps [simp]:
  "keeps_opt2 k None" "keeps_opt2 k (Some r) = keeps2 k r" "keeps_opt3 k None" "keeps_opt3 k (Some r') = keeps3 k r'"
  by (simp_all add: keeps_opt2_def keeps_opt3_def)

lemmas bindso2 = bind2 [where P = "keeps_opt2 k" and k = k for k] bind3 [where P = "keeps_opt2 k" and k = k for k]
  keeps_bus_error [where P = "keeps_opt2 k" and k = k for k] bind_buffer [where P = "keeps_opt2 k" for k]

lemma keeps_burst_write_from:
  "proper k s \<Longrightarrow> keeps_opt2 k (burst_write_from c room long op data ws count start addr i left err s)"
proof (induction left arbitrary: addr i err s)
  case 0
  then show ?case
    unfolding burst_write_from.simps [of c room long op data ws count start addr i 0] Let_def never_retried prod.case not_False_eq_True if_True nat.case
    by (auto intro!: bindso2 kept_state proper_sizes simp del: err_seq.simps split: option.splits)
next
  case (Suc left)
  show ?case
    unfolding burst_write_from.simps [of c room long op data ws count start addr i "Suc left"] Let_def never_retried prod.case not_False_eq_True if_True nat.case
    by (auto intro!: bindso2 kept_state proper_sizes Suc simp del: err_seq.simps split: option.splits)
qed

lemma keeps_burst_write [kept_state]: "proper k s \<Longrightarrow> keeps_opt2 k (adbg_wb_burst_write c room long data ws count start s)"
  unfolding adbg_wb_burst_write_def by (auto intro: keeps_burst_write_from split: option.splits)

lemma keeps_jsp [kept_state]: "proper k s \<Longrightarrow> keeps3 k (adbg_jsp_transact c data s)"
  unfolding adbg_jsp_transact_def Let_def by (auto intro!: binds3 kept_state simp del: err_seq.simps)

section \<open>The legacy interface\<close>

lemma keeps_legacy_streams [simp]:
  "proper k s \<Longrightarrow> proper k (legacy_write_stream c x n tms s)" "proper k s \<Longrightarrow> proper k (snd (legacy_read_stream c x n tms s))"
  using keeps_streams(1) [of k s c "[reverse_loop n 0 x]" "int n" tms] keeps_streams(2) [of k s c "[x]" "int n" False tms]
  by (auto simp: legacy_write_stream_def legacy_read_stream_def Let_def split: prod.splits)

lemma keeps_send_crc [simp]: "proper k s \<Longrightarrow> proper k (send_crc c s)"
  by (simp add: send_crc_def)

lemma keeps_snd: "keeps2 k r \<Longrightarrow> proper k (snd r)"
  by (simp add: keeps2_def)

lemma keeps_read_status [kept_state]: "proper k s \<Longrightarrow> keeps3 k (read_status c s)"
  unfolding read_status_def Let_def by (auto split: prod.splits) (metis keeps_legacy_streams(2) snd_conv proper_crc)

lemma keeps_read2 [kept_state]: "proper k s \<Longrightarrow> keeps2 k (legacy_read_stream c x n tms s)"
  by (simp add: keeps2_def)

lemma keeps_tap_snd [simp]: "proper k s \<Longrightarrow> proper k (snd (tap_set_shift_dr c s))" "proper k s \<Longrightarrow> proper k (snd (tap_exit_to_idle c s))"
  by (simp_all add: keeps_snd kept_state)

lemma conclude_cases:
  assumes "proper k s" "\<And>err s. proper k s \<Longrightarrow> P (g (err, s))"
  shows "P (case conclude c status crc_ok s of Inl s \<Rightarrow> f s | Inr r \<Rightarrow> g r)"
  using assms by (simp add: conclude_def)

text \<open>The chain asked for stays what it is during a transaction.\<close>

lemma desired_tap [simp]:
  "desired_chain (snd (tap_set_shift_dr c s)) = desired_chain s" "desired_chain (snd (tap_exit_to_idle c s)) = desired_chain s"
  using only_port_tap [of s c] by (auto simp: only_port_def)

lemma only_port_desired: "only_port s r \<Longrightarrow> desired_chain (snd r) = desired_chain s"
  by (auto simp: only_port_def)

lemma desired_read_stream: "desired_chain (snd (snd (jtag_read_write_stream c ws n False tms s))) = desired_chain s"
proof -
  have o: "only_port s (push_prefix c s)" for s :: "'a jtag"
    unfolding push_prefix_def by (rule only_port_seq) (auto intro: only_port_bits)
  have p: "push_prefix c s = (e, s') \<Longrightarrow> desired_chain s' = desired_chain s" for e and s s' :: "'a jtag"
    using only_port_desired [OF o [of s]] by simp
  show ?thesis by (auto simp: jtag_read_write_stream_def read_port_def split: prod.splits dest: p)
qed

lemma desired_legacy [simp]:
  "desired_chain (legacy_write_stream c x n tms s) = desired_chain s" "desired_chain (snd (legacy_read_stream c x n tms s)) = desired_chain s"
  using only_port_streams [of s c "[reverse_loop n 0 x]" "int n" tms] desired_read_stream [of c "[x]" "int n" tms s]
  by (auto simp: legacy_write_stream_def legacy_read_stream_def only_port_def Let_def split: prod.splits)

lemma desired_status: "read_status c s = (status, crc_ok, s') \<Longrightarrow> desired_chain s' = desired_chain s"
proof -
  have d: "legacy_read_stream c x n tms s = (e, s') \<Longrightarrow> desired_chain s' = desired_chain s" for x n tms e and s s' :: "'a jtag"
    using desired_legacy(2) [of c x n tms s] by simp
  show "read_status c s = (status, crc_ok, s') \<Longrightarrow> desired_chain s' = desired_chain s"
    by (auto simp: read_status_def Let_def split: prod.splits dest!: d)
qed

lemma keeps_set_chain [kept_state]:
  assumes "proper k s" "- 1 \<le> chain" "chain < int DBG_MAX_MODULES"
  shows "keeps2 k (legacy_dbg_set_chain c chain s)"
proof (cases "current_chain s = chain")
  case True
  then show ?thesis
    using assms by (auto simp: legacy_dbg_set_chain.simps [of c chain s] Let_def proper_def well_formed_def configuration_def)
next
  case False
  define s1 where "s1 = (snd (tap_set_shift_dr c (s\<lparr>desired_chain := chain, current_chain := - 1\<rparr>)))\<lparr>legacy_crc_w := 0xffffffff\<rparr>"
  define s2 where "s2 = (send_crc c (legacy_write_stream c ((of_int chain AND 0xf) OR push_bit DC_SIZE 1) (DC_SIZE + 1) False s1))\<lparr>legacy_crc_r := 0xffffffff\<rparr>"
  obtain status crc_ok s3 where s3: "read_status c s2 = (status, crc_ok, s3)" by (metis surj_pair)
  have "proper k (s\<lparr>desired_chain := chain, current_chain := - 1\<rparr>)"
    using assms by (auto simp: proper_def well_formed_def configuration_def)
  then have "proper k s2" by (simp add: s1_def s2_def)
  then have p: "proper k s3" using keeps_read_status [of k s2 c] by (simp add: s3)
  have d: "desired_chain s3 = chain" using desired_status [OF s3] by (simp add: s2_def s1_def send_crc_def)
  have e: "proper k (s'\<lparr>current_chain := chain\<rparr>)" if "proper k s'" "desired_chain s' = chain" for s' :: "'a jtag"
    using that by (auto simp: proper_def well_formed_def configuration_def)
  have q: "proper k (snd (tap_exit_to_idle c (retry_ok s3)))" using p by simp
  have r: "desired_chain (snd (tap_exit_to_idle c (retry_ok s3))) = chain" using d by (simp add: retry_ok_def)
  have n: "(current_chain (s\<lparr>desired_chain := chain\<rparr>) = chain) = False" using False by simp
  show ?thesis
    unfolding legacy_dbg_set_chain.simps [of c chain s] Let_def n if_False s1_def [symmetric] s2_def [symmetric] s3 prod.case conclude_def
    using p e [OF q r] by (simp add: APP_ERR_NONE_def APP_ERR_CRC_def APP_ERR_BAD_PARAM_def)
qed

lemma keeps_set_desired [kept_state]: "proper k s \<Longrightarrow> keeps2 k (legacy_dbg_set_chain c (desired_chain s) s)"
  by (rule keeps_set_chain) (auto simp: proper_def well_formed_def)

lemmas bindsl2 = bind2 [where P = "keeps2 k" and k = k for k] bind3 [where P = "keeps2 k" and k = k for k]
  conclude_cases [where P = "keeps2 k" and k = k for k]

lemmas bindslo2 = bindso2 conclude_cases [where P = "keeps_opt2 k" and k = k for k]

lemma keeps_legacy_command [kept_state]: "proper k s \<Longrightarrow> keeps_opt2 k (legacy_dbg_command c type adr len s)"
  unfolding legacy_dbg_command.simps [of c type adr len s] Let_def
  by (auto intro!: bindslo2 kept_state keeps_legacy_streams)

lemma keeps_legacy_ctrl [kept_state]: "proper k s \<Longrightarrow> keeps2 k (legacy_dbg_ctrl c reset stall s)"
  unfolding legacy_dbg_ctrl.simps [of c reset stall s] Let_def
  by (auto intro!: bindsl2 kept_state keeps_legacy_streams)

lemma keeps_legacy_ctrl_read [kept_state]: "proper k s \<Longrightarrow> proper k (snd (snd (snd (legacy_dbg_ctrl_read c s))))"
  unfolding legacy_dbg_ctrl_read.simps [of c s] Let_def
  by (auto intro!: kept_state keeps_legacy_streams
      bind2 [where P = "\<lambda>r. proper k (snd (snd (snd r)))" and k = k] bind3 [where P = "\<lambda>r. proper k (snd (snd (snd r)))" and k = k]
      conclude_cases [where P = "\<lambda>r. proper k (snd (snd (snd r)))" and k = k])

lemma keeps_legacy_bytes [simp]: "proper k s \<Longrightarrow> proper k (legacy_write_bytes c bs s)"
  by (induction bs arbitrary: s) simp_all

lemma keeps_legacy_read_bytes [kept_state]: "proper k s \<Longrightarrow> keeps2 k (legacy_read_bytes c n s)"
  by (induction n arbitrary: s) (auto simp: Let_def intro!: bind2 [where P = "keeps2 k" and k = k for k] kept_state)

lemma keeps_legacy_go [kept_state]: "proper k s \<Longrightarrow> keeps3 k (legacy_dbg_go c data len read s)"
  unfolding legacy_dbg_go_def Let_def
  by (auto intro!: binds3 bind2 [where P = "keeps2 k" and k = k for k] kept_state keeps_legacy_streams)

section \<open>The debug API\<close>

lemma keeps_flushed [simp]: "proper k (flushed c s) = proper k s"
  by (simp add: flushed_def)

lemma keeps_opt2_map [simp]: "keeps_opt2 k (map_option (\<lambda>(e, s). (f e, s)) r) = keeps_opt2 k r"
  by (cases r) (auto simp: keeps2_def)

lemma keeps_on_module:
  assumes "proper k s" "- 1 \<le> module" "module < int DBG_MAX_MODULES" "\<And>s. proper k s \<Longrightarrow> keeps_opt3 k (f s)"
  shows "keeps_opt3 k (on_module c module data f s)"
proof -
  have m: "keeps_opt3 k (map_option (\<lambda>(err, data, s). (err, data, flushed c s)) r) = keeps_opt3 k r" for r :: "(u32 \<times> 'b \<times> 'a jtag) option"
    by (cases r) (auto simp: keeps3_def)
  show ?thesis
    unfolding on_module_def Let_def
    by (rule bind2 [where k = k]) (use assms in \<open>auto intro: kept_state simp: m\<close>)
qed

definition known_module :: "int \<Rightarrow> bool" where
  "known_module module \<longleftrightarrow> - 1 \<le> module \<and> module < int DBG_MAX_MODULES"

lemma known_modules [simp]: "known_module DC_WISHBONE" "known_module DC_CPU0" "known_module DC_CPU1" "known_module DC_JSP"
  by (simp_all add: known_module_def adbg_defs DBG_MAX_MODULES_def)

lemma keeps_adv_read [kept_state]:
  "proper k s \<Longrightarrow> known_module module \<Longrightarrow> keeps_opt3 k (adv_read c host module unit count adr data s)"
  unfolding adv_read_def
  by (rule keeps_on_module) (auto simp: known_module_def intro!: bind3 [where P = "keeps_opt3 k" and k = k for k] kept_state)

lemma keeps_adv_write [kept_state]:
  assumes "proper k s" "known_module module"
  shows "keeps_opt2 k (adv_write c host module unit count adr data s)"
proof -
  have a: "keeps_opt3 k (map_option (\<lambda>(err, s). (err, (), s)) r) = keeps_opt2 k r" for r :: "(u32 \<times> 'a jtag) option"
    by (cases r) (auto simp: keeps3_def keeps2_def)
  have b: "keeps_opt2 k (map_option (\<lambda>(err, u, s). (err, s)) r) = keeps_opt3 k r" for r :: "(u32 \<times> unit \<times> 'a jtag) option"
    by (cases r) (auto simp: keeps3_def keeps2_def)
  show ?thesis
    unfolding adv_write_def b by (rule keeps_on_module) (use assms in \<open>auto simp: known_module_def a intro: kept_state\<close>)
qed

lemma keeps_legacy_transfer [kept_state]:
  assumes "proper k s" "known_module chain"
  shows "keeps_opt3 k (legacy_transfer c chain type adr len read data s)"
proof -
  have o: "keeps_opt3 k (case r of None \<Rightarrow> None | Some (err, s) \<Rightarrow> if err \<noteq> APP_ERR_NONE then Some (err, data, s) else Some (g s))"
    if "keeps_opt2 k r" "\<And>s. proper k s \<Longrightarrow> keeps3 k (g s)" for r :: "(u32 \<times> 'a jtag) option" and g
    using that by (cases r) auto
  show ?thesis
    unfolding legacy_transfer_def Let_def
    by (rule bind2 [where k = k]) (use assms in \<open>auto simp: known_module_def intro!: kept_state o\<close>)
qed

lemma keeps_opt3_map [simp]:
  "keeps_opt3 k (map_option (\<lambda>(e, x, s). (e, f e x, s)) r) = keeps_opt3 k r"
  "keeps_opt3 k (map_option (\<lambda>(e, x, s). (e, f e x, flushed c s)) r) = keeps_opt3 k r"
  "keeps_opt2 k (map_option (\<lambda>(e, x, s). (e, flushed c s)) r') = keeps_opt3 k r'"
  by (cases r; cases r'; auto simp: keeps3_def keeps2_def)+

lemma keeps_legacy_write [kept_state]:
  "proper k s \<Longrightarrow> known_module chain \<Longrightarrow> keeps_opt2 k (legacy_write c chain type adr len data s)"
  by (simp add: legacy_write_def kept_state)

lemma keeps_reads [kept_state]:
  assumes "proper k s"
  shows
    "keeps_opt3 k (dbg_wb_read32 hardware c host adr data s)"
    "keeps_opt3 k (dbg_wb_read_block32 hardware c host adr ws len s)"
    "keeps_opt3 k (dbg_wb_read_block16 hardware c host adr hs len s)"
    "keeps_opt3 k (dbg_wb_read_block8 hardware c host adr bs len s)"
    "keeps_opt3 k (dbg_cpu0_read hardware c host adr data s)"
    "keeps_opt3 k (dbg_cpu1_read hardware c host adr data s)"
  using assms
  by (auto simp: dbg_wb_read32_def dbg_wb_read_block32_def dbg_wb_read_block16_def dbg_wb_read_block8_def dbg_cpu0_read_def dbg_cpu1_read_def
      intro!: kept_state split: debug_hw.split)

lemma keeps_writes [kept_state]:
  assumes "proper k s"
  shows
    "keeps_opt2 k (dbg_wb_write32 hardware c host adr data s)"
    "keeps_opt2 k (dbg_wb_write16 hardware c host adr h s)"
    "keeps_opt2 k (dbg_wb_write8 hardware c host adr b s)"
    "keeps_opt2 k (dbg_wb_write_block32 hardware c host adr ws len s)"
    "keeps_opt2 k (dbg_wb_write_block16 hardware c host adr hs len s)"
    "keeps_opt2 k (dbg_wb_write_block8 hardware c host adr bs len s)"
    "keeps_opt2 k (dbg_cpu0_write hardware c host adr data s)"
    "keeps_opt2 k (dbg_cpu1_write hardware c host adr data s)"
  using assms
  by (auto simp: dbg_wb_write32_def dbg_wb_write16_def dbg_wb_write8_def dbg_wb_write_block32_def dbg_wb_write_block16_def dbg_wb_write_block8_def dbg_cpu0_write_def dbg_cpu1_write_def
      intro!: kept_state split: debug_hw.split)

lemma keeps_cpu0_each:
  "proper k s \<Longrightarrow> keeps_opt3 k (cpu0_read_each c host err adr ws n s)"
  "proper k s \<Longrightarrow> keeps_opt2 k (cpu0_write_each c host err adr ws s)"
proof -
  show "proper k s \<Longrightarrow> keeps_opt3 k (cpu0_read_each c host err adr ws n s)"
  proof (induction c host err adr ws n s rule: cpu0_read_each.induct)
    case (3 c host err adr d ds n s)
    show ?case
    proof (cases "dbg_cpu0_read DBG_HW_LEGACY c host adr d s")
      case (Some r)
      with keeps_reads(5) [OF "3.prems", of DBG_HW_LEGACY c host adr d] show ?thesis
        by (cases r) (simp add: "3.IH")
    qed simp
  qed simp_all
  show "proper k s \<Longrightarrow> keeps_opt2 k (cpu0_write_each c host err adr ws s)"
  proof (induction ws arbitrary: err adr s)
    case (Cons d ds)
    show ?case
    proof (cases "dbg_cpu0_write DBG_HW_LEGACY c host adr d s")
      case (Some r)
      with keeps_writes(7) [OF Cons.prems, of DBG_HW_LEGACY c host adr d] show ?thesis
        by (cases r) (simp add: Cons.IH)
    qed simp
  qed simp
qed

lemma keeps_cpu0_blocks [kept_state]:
  "proper k s \<Longrightarrow> keeps_opt3 k (dbg_cpu0_read_block hardware c host adr ws len s)"
  "proper k s \<Longrightarrow> keeps_opt2 k (dbg_cpu0_write_block hardware c host adr ws len s)"
  by (auto simp: dbg_cpu0_read_block_def dbg_cpu0_write_block_def intro!: kept_state keeps_cpu0_each split: debug_hw.split)

lemma keeps_ctrl_ports [kept_state]:
  assumes "proper k s" "known_module module"
  shows "keeps2 k (adv_write_ctrl c module i b s)" "keeps3 k (adv_read_ctrl c module i b s)"
    "keeps2 k (legacy_write_ctrl c module b s)" "keeps3 k (legacy_read_ctrl c module b s)"
proof -
  note m = assms [unfolded known_module_def]
  show "keeps2 k (adv_write_ctrl c module i b s)" "keeps3 k (adv_read_ctrl c module i b s)"
    unfolding adv_write_ctrl_def adv_read_ctrl_def Let_def using m by (auto intro!: bindsl2 binds3 kept_state)
  have r: "keeps3 k (case legacy_dbg_ctrl_read c s of (err, r, st, s) \<Rightarrow> (err, f r st, flushed c s))" if "proper k s" for s and f :: "u32 \<Rightarrow> u32 \<Rightarrow> u8"
    using keeps_legacy_ctrl_read [OF that, of c] by (auto simp: keeps3_def split: prod.splits)
  show "keeps2 k (legacy_write_ctrl c module b s)" "keeps3 k (legacy_read_ctrl c module b s)"
    unfolding legacy_write_ctrl_def legacy_read_ctrl_def Let_def using m by (auto intro!: bindsl2 binds3 kept_state r)
qed

lemma keeps_ctrl [kept_state]:
  assumes "proper k s"
  shows "keeps2 k (dbg_cpu0_write_ctrl hardware c adr b s)" "keeps3 k (dbg_cpu0_read_ctrl hardware c adr b s)"
    "keeps2 k (dbg_cpu1_write_ctrl hardware c adr b s)" "keeps3 k (dbg_cpu1_read_ctrl hardware c adr b s)"
  using assms
  by (auto simp: dbg_cpu0_write_ctrl_def dbg_cpu0_read_ctrl_def dbg_cpu1_write_ctrl_def dbg_cpu1_read_ctrl_def
      intro!: kept_state split: debug_hw.split)

lemma keeps_serial [kept_state]: "proper k s \<Longrightarrow> keeps3 k (dbg_serial_sndrcv c data s)"
  unfolding dbg_serial_sndrcv_def Let_def
  by (auto simp: adbg_defs DBG_MAX_MODULES_def intro!: binds3 kept_state)

lemma keeps_idcode [kept_state]:
  assumes "proper k s"
  shows "keeps3 k (jtag_get_idcode c cmd s)"
proof -
  define k' where "k' = configuration (s\<lparr>global_altera_virtual_jtag := False\<rparr>)"
  have p: "proper k' (s\<lparr>global_altera_virtual_jtag := False\<rparr>)"
    using assms by (simp add: k'_def proper_def well_formed_def configuration_def)
  have r: "proper k (s'\<lparr>global_altera_virtual_jtag := global_altera_virtual_jtag s\<rparr>)" if "proper k' s'" for s' :: "'a jtag"
    using that assms by (auto simp: k'_def proper_def well_formed_def configuration_def)
  show ?thesis
    unfolding jtag_get_idcode_def Let_def
    by (auto intro!: bind2 [where k = k' and P = "keeps3 k"] bind3 [where k = k' and P = "keeps3 k"] kept_state p r simp del: err_seq.simps)
qed

section \<open>Every reachable state\<close>

text \<open>
  The program's accesses to the hardware: the operations of the debug API, for any arguments, and at the start those of
  the chain layer. Every result is one step, errors included.
\<close>

inductive access :: "debug_hw \<Rightarrow> 'h jtag_cable \<Rightarrow> host \<Rightarrow> 'h jtag \<Rightarrow> 'h jtag \<Rightarrow> bool" for hardware c host where
  "tap_reset c s = (e, s') \<Longrightarrow> access hardware c host s s'"
| "tap_enable_debug_module c s = (e, s') \<Longrightarrow> access hardware c host s s'"
| "jtag_enumerate_chain c s = (e, ids, s') \<Longrightarrow> access hardware c host s s'"
| "jtag_get_idcode c cmd s = (e, code, s') \<Longrightarrow> access hardware c host s s'"
| "dbg_wb_read32 hardware c host adr data s = Some (e, x, s') \<Longrightarrow> access hardware c host s s'"
| "dbg_wb_read_block32 hardware c host adr ws len s = Some (e, x, s') \<Longrightarrow> access hardware c host s s'"
| "dbg_wb_read_block16 hardware c host adr hs len s = Some (e, x, s') \<Longrightarrow> access hardware c host s s'"
| "dbg_wb_read_block8 hardware c host adr bs len s = Some (e, x, s') \<Longrightarrow> access hardware c host s s'"
| "dbg_cpu0_read hardware c host adr data s = Some (e, x, s') \<Longrightarrow> access hardware c host s s'"
| "dbg_cpu0_read_block hardware c host adr ws len s = Some (e, x, s') \<Longrightarrow> access hardware c host s s'"
| "dbg_cpu1_read hardware c host adr data s = Some (e, x, s') \<Longrightarrow> access hardware c host s s'"
| "dbg_wb_write32 hardware c host adr data s = Some (e, s') \<Longrightarrow> access hardware c host s s'"
| "dbg_wb_write16 hardware c host adr h s = Some (e, s') \<Longrightarrow> access hardware c host s s'"
| "dbg_wb_write8 hardware c host adr b s = Some (e, s') \<Longrightarrow> access hardware c host s s'"
| "dbg_wb_write_block32 hardware c host adr ws len s = Some (e, s') \<Longrightarrow> access hardware c host s s'"
| "dbg_wb_write_block16 hardware c host adr hs len s = Some (e, s') \<Longrightarrow> access hardware c host s s'"
| "dbg_wb_write_block8 hardware c host adr bs len s = Some (e, s') \<Longrightarrow> access hardware c host s s'"
| "dbg_cpu0_write hardware c host adr data s = Some (e, s') \<Longrightarrow> access hardware c host s s'"
| "dbg_cpu0_write_block hardware c host adr ws len s = Some (e, s') \<Longrightarrow> access hardware c host s s'"
| "dbg_cpu1_write hardware c host adr data s = Some (e, s') \<Longrightarrow> access hardware c host s s'"
| "dbg_cpu0_write_ctrl hardware c adr b s = (e, s') \<Longrightarrow> access hardware c host s s'"
| "dbg_cpu0_read_ctrl hardware c adr b s = (e, x, s') \<Longrightarrow> access hardware c host s s'"
| "dbg_cpu1_write_ctrl hardware c adr b s = (e, s') \<Longrightarrow> access hardware c host s s'"
| "dbg_cpu1_read_ctrl hardware c adr b s = (e, x, s') \<Longrightarrow> access hardware c host s s'"
| "dbg_serial_sndrcv c data s = (e, r, s') \<Longrightarrow> access hardware c host s s'"

lemma keeps_dest:
  "f s = (e, s') \<Longrightarrow> keeps2 k (f s) \<Longrightarrow> proper k s'"
  "g s = (e', x, s') \<Longrightarrow> keeps3 k (g s) \<Longrightarrow> proper k s'"
  "f' s = Some (e, s') \<Longrightarrow> keeps_opt2 k (f' s) \<Longrightarrow> proper k s'"
  "g' s = Some (e', x, s') \<Longrightarrow> keeps_opt3 k (g' s) \<Longrightarrow> proper k s'"
  by simp_all

lemma access_keeps: "access hardware c host s s' \<Longrightarrow> proper k s \<Longrightarrow> proper k s'"
  by (induction rule: access.induct) (drule keeps_dest [where k = k]; simp add: kept_state)+

lemma globals_well_formed: "well_formed (jtag_globals h)"
  by (simp add: well_formed_def jtag_globals_def DBG_MAX_MODULES_def)

text \<open>
  C33.
  Whatever sequence of operations of the debug API and the chain layer the program makes, on any cable and whatever fails, the
  state between them stays well-formed: the module that counts as selected is none or the one asked for, there is a
  register index for each of the four modules, which every access therefore finds, no retry is ever counted, and
  no buffer size is negative; the configuration of the chain never changes.
\<close>

theorem jtag_state_type:
  assumes "(access hardware c host)\<^sup>*\<^sup>* s s'" "well_formed s"
  shows "well_formed s' \<and> configuration s' = configuration s"
proof -
  have "proper (configuration s) s'"
    using assms(1)
  proof (induction rule: rtranclp_induct)
    case base
    show ?case using assms(2) by (simp add: proper_def)
  next
    case (step y z)
    show ?case by (rule access_keeps [OF step.hyps(2) step.IH])
  qed
  then show ?thesis by (simp add: proper_def)
qed

theorem jtag_state_type_witness:
  "well_formed (snd (dbg_cpu0_write_ctrl DBG_HW_ADVANCED (common_cable pin_out pin_inout) 0 1 (jtag_globals (port bench))))"
proof -
  let ?c = "common_cable pin_out pin_inout" and ?s = "jtag_globals (port bench)"
    and ?host = "\<lparr>malloc_room = (\<lambda>_. True), ulong_bytes = 8, behind = (\<lambda>_. 0)\<rparr>"
  obtain e s' where r: "dbg_cpu0_write_ctrl DBG_HW_ADVANCED ?c 0 1 ?s = (e, s')" by (metis surj_pair)
  then have "access DBG_HW_ADVANCED ?c ?host ?s s'" by (rule access.intros)
  then have "(access DBG_HW_ADVANCED ?c ?host)\<^sup>*\<^sup>* ?s s'" by (rule r_into_rtranclp)
  from jtag_state_type [OF this globals_well_formed] show ?thesis by (simp add: r)
qed

end
