(* ===== verification/Adv_Crc_Spec.thy ===== *)
theory Adv_Crc_Spec
  imports Adv_Dbg
begin

unbundle bit_operations_syntax

text \<open>
  The checksum of the bursts (\<^verbatim>\<open>adbg_compute_crc\<close>): it is the one the debug unit computes, it does not depend on how the
  bits are grouped into words, and it tells apart data that differ within 32 consecutive bits.
\<close>

section \<open>One round\<close>

definition crc_bits :: "bool list \<Rightarrow> u32 \<Rightarrow> u32" where
  "crc_bits = fold crc_round"

definition bits_of :: "nat \<Rightarrow> u32 \<Rightarrow> bool list" where
  "bits_of n x = map (bit x) [0..<n]"

lemma length_bits_of [simp]: "length (bits_of n x) = n"
  by (simp add: bits_of_def)

lemma low_bit: "((x :: u32) AND 1 \<noteq> 0) = bit x 0"
  by (simp add: and_one_eq mod_2_eq_odd bit_0)

lemma crc_round_alt: "crc_round b x = drop_bit 1 x XOR (if b \<noteq> bit x 0 then ADBG_CRC_POLY else 0)"
  unfolding crc_round_def Let_def low_bit by (simp add: ADBG_CRC_POLY_def)

lemma compute_crc_bits: "adbg_compute_crc x d n = crc_bits (bits_of n d) x"
proof -
  have "crc_round (drop_bit i d AND 0x1 \<noteq> 0) = crc_round (bit d i)" for i
    by (simp only: low_bit) (simp add: bit_drop_bit_eq)
  then show ?thesis
    unfolding adbg_compute_crc_def crc_bits_def bits_of_def fold_map comp_def by (simp only:)
qed

lemma crc_bits_append: "crc_bits (as @ bs) x = crc_bits bs (crc_bits as x)"
  by (simp add: crc_bits_def)

section \<open>The debug unit's register\<close>

text \<open>
  The next value of the register of \<^verbatim>\<open>adbg_crc32.v\<close>, wire by wire: bit 31 is the feedback, the listed bits take the next
  higher bit and the feedback, the others the next higher bit.
\<close>

definition adbg_crc32_taps :: "nat list" where
  "adbg_crc32_taps = [5, 8, 9, 15, 19, 20, 21, 23, 24, 26, 27, 29, 30]"

definition adbg_crc32_next :: "bool \<Rightarrow> (nat \<Rightarrow> bool) \<Rightarrow> nat \<Rightarrow> bool" where
  "adbg_crc32_next data crc i =
     (let feedback = (data \<noteq> crc 0)
      in if i = 31 then feedback else if i \<in> set adbg_crc32_taps then crc (i + 1) \<noteq> feedback else crc (i + 1))"

lemma poly_bits: "i < 32 \<Longrightarrow> bit ADBG_CRC_POLY i = (i = 31 \<or> i \<in> set adbg_crc32_taps)"
proof -
  have "\<forall>i \<in> set [0..<32]. bit ADBG_CRC_POLY i = (i = 31 \<or> i \<in> set adbg_crc32_taps)"
    unfolding ADBG_CRC_POLY_def adbg_crc32_taps_def by (simp add: upt_rec)
  then show "i < 32 \<Longrightarrow> ?thesis" by simp
qed

lemma crc_round_bit:
  "i < 32 \<Longrightarrow> bit (crc_round b x) i =
     ((i \<noteq> 31 \<and> bit x (i + 1)) \<noteq> ((b \<noteq> bit x 0) \<and> (i = 31 \<or> i \<in> set adbg_crc32_taps)))"
  using bit_imp_le_length [of x 32]
  by (cases "i = 31") (auto simp: crc_round_alt bit_xor_iff bit_drop_bit_eq poly_bits simp del: bit_numeral_word_iff)

text \<open>
  C32.
  The host and the debug unit compute the same checksum: one round of \<^verbatim>\<open>adbg_compute_crc\<close> is one clock of the register in
  \<^verbatim>\<open>adbg_crc32.v\<close>, so after any number of data bits the register holds the host's value.
\<close>

theorem crc_is_hardware:
  "i < 32 \<Longrightarrow> bit (adbg_compute_crc x d n) i = fold (\<lambda>k. adbg_crc32_next (bit d k)) [0..<n] (bit x) i"
proof (induction n arbitrary: i)
  case 0
  then show ?case by (simp add: adbg_compute_crc_def)
next
  case (Suc n)
  have s: "adbg_compute_crc x d (Suc n) = crc_round (bit d n) (adbg_compute_crc x d n)"
    by (simp add: compute_crc_bits bits_of_def crc_bits_def)
  define hw where "hw = fold (\<lambda>k. adbg_crc32_next (bit d k)) [0..<n] (bit x)"
  have IH: "bit (adbg_compute_crc x d n) j = hw j" if "j < 32" for j
    using Suc.IH [OF that] by (simp only: hw_def)
  have f: "fold (\<lambda>k. adbg_crc32_next (bit d k)) [0..<Suc n] (bit x) = adbg_crc32_next (bit d n) hw" by (simp add: hw_def)
  show ?case
    unfolding s f crc_round_bit [OF Suc.prems] using Suc.prems IH [of 0] IH [of "i + 1"]
    by (cases "i = 31") (simp_all add: adbg_crc32_next_def Let_def)
qed

theorem crc_is_hardware_witness:
  "bit (adbg_compute_crc 0xFFFFFFFF 0x12345678 32) 31 =
     fold (\<lambda>k. adbg_crc32_next (bit (0x12345678 :: u32) k)) [0..<32] (bit (0xFFFFFFFF :: u32)) 31"
  by (rule crc_is_hardware) simp

section \<open>Detection of corrupted data\<close>

text \<open>How the difference of two checksums evolves; \<open>e\<close> says whether the data bits differ.\<close>

lemma crc_round_xor: "crc_round b x XOR crc_round b' x' = crc_round (b \<noteq> b') (x XOR x')"
  by (rule bit_word_eqI) (auto simp: crc_round_alt bit_xor_iff bit_drop_bit_eq)

lemma crc_bits_xor:
  "length bs = length bs' \<Longrightarrow> crc_bits bs x XOR crc_bits bs' x' = crc_bits (map2 (\<noteq>) bs bs') (x XOR x')"
  unfolding crc_bits_def
  by (induction bs bs' arbitrary: x x' rule: list_induct2) (simp_all add: crc_round_xor)

lemma crc_round_high: "bit (crc_round b x) 31 = (b \<noteq> bit x 0)"
  by (simp add: crc_round_bit)

text \<open>A difference that vanishes after \<open>n\<close> more bits lies in the low \<open>n\<close> bits.\<close>

lemma crc_vanishing: "length es \<le> 32 \<Longrightarrow> crc_bits es x = 0 \<Longrightarrow> length es \<le> i \<Longrightarrow> i < 32 \<Longrightarrow> \<not> bit x i"
proof (induction es arbitrary: x i)
  case (Cons e es)
  have IH: "\<not> bit (crc_round e x) j" if "length es \<le> j" "j < 32" for j
    using Cons.IH [of "crc_round e x" j] Cons.prems that by (simp add: crc_bits_def)
  have "\<not> bit (crc_round e x) 31" using IH [of 31] Cons.prems(1) by simp
  then have "crc_round e x = drop_bit 1 x" unfolding crc_round_high by (simp add: crc_round_alt)
  then show ?case using IH [of "i - 1"] Cons.prems by (auto simp: bit_drop_bit_eq)
qed (simp add: crc_bits_def)

lemma crc_window: "length es \<le> 32 \<Longrightarrow> crc_bits es 0 = 0 \<Longrightarrow> es = replicate (length es) False"
proof (induction es)
  case (Cons e es)
  have "\<not> bit (crc_round e 0) 31"
    using crc_vanishing [of es "crc_round e 0" 31] Cons.prems by (simp add: crc_bits_def)
  then have e: "\<not> e" unfolding crc_round_high by simp
  then show ?case using Cons by (simp add: crc_bits_def crc_round_alt)
qed simp

lemma crc_round_inj:
  assumes "crc_round b x = crc_round b x'"
  shows "x = x'"
proof (rule bit_word_eqI)
  fix i assume i: "i < LENGTH(32)"
  have z: "bit x 0 = bit x' 0" using crc_round_high [of b x] crc_round_high [of b x'] assms by auto
  show "bit x i = bit x' i"
  proof (cases i)
    case (Suc j)
    then show ?thesis using i z crc_round_bit [of j b x] crc_round_bit [of j b x'] assms by auto
  qed (use z in simp)
qed

lemma crc_bits_inj: "crc_bits bs x = crc_bits bs x' \<Longrightarrow> x = x'"
  unfolding crc_bits_def by (induction bs arbitrary: x x') (auto dest: crc_round_inj)

lemma crc_detects:
  assumes "length es = length es'" "length es \<le> 32" "crc_bits (pre @ es @ post) x = crc_bits (pre @ es' @ post) x"
  shows "es = es'"
proof -
  have "crc_bits es (crc_bits pre x) = crc_bits es' (crc_bits pre x)"
    using assms(3) unfolding crc_bits_append by (rule crc_bits_inj)
  then have "crc_bits (map2 (\<noteq>) es es') 0 = 0" using crc_bits_xor [OF assms(1), of "crc_bits pre x" "crc_bits pre x"] by simp
  then have "map2 (\<noteq>) es es' = replicate (length es) False" using crc_window [of "map2 (\<noteq>) es es'"] assms(1,2) by simp
  moreover have "map2 (\<noteq>) es es' ! i = (es ! i \<noteq> es' ! i)" if "i < length es" for i
    using that assms(1) by simp
  ultimately have "es ! i = es' ! i" if "i < length es" for i using that by (metis nth_replicate)
  then show ?thesis using assms(1) by (intro nth_equalityI) auto
qed

section \<open>Grouping\<close>

definition byte_bits :: "u8 \<Rightarrow> bool list" where
  "byte_bits b = map (bit b) [0..<8]"

definition bytes_bits :: "u8 list \<Rightarrow> bool list" where
  "bytes_bits bs = concat (map byte_bits bs)"

text \<open>The checksum the read computes over the bytes it has received.\<close>

definition crc_of_bytes :: "u8 list \<Rightarrow> u32" where
  "crc_of_bytes bs = fold (\<lambda>b crc. adbg_compute_crc crc (ucast b) 8) bs 0xffffffff"

lemma bytes_bits_simps [simp]:
  "bytes_bits [] = []" "bytes_bits (b # bs) = byte_bits b @ bytes_bits bs" "bytes_bits (as @ bs) = bytes_bits as @ bytes_bits bs"
  by (simp_all add: bytes_bits_def)

lemma length_byte_bits [simp]: "length (byte_bits b) = 8"
  by (simp add: byte_bits_def)

lemma length_bytes_bits [simp]: "length (bytes_bits bs) = 8 * length bs"
  by (induction bs) simp_all

lemma byte_crc: "adbg_compute_crc x (ucast (b :: u8)) 8 = crc_bits (byte_bits b) x"
proof -
  have "bits_of 8 (ucast b) = byte_bits b" by (simp add: bits_of_def byte_bits_def bit_ucast_iff)
  then show ?thesis by (simp add: compute_crc_bits)
qed

lemma crc_of_bytes_bits: "crc_of_bytes bs = crc_bits (bytes_bits bs) 0xffffffff"
proof -
  have "fold (\<lambda>b crc. adbg_compute_crc crc (ucast b) 8) bs x = crc_bits (bytes_bits bs) x" for x
    by (induction bs arbitrary: x) (simp_all add: byte_crc crc_bits_append, simp add: crc_bits_def)
  then show ?thesis by (simp add: crc_of_bytes_def)
qed

lemma byte_bits_inj: "byte_bits a = byte_bits b \<Longrightarrow> a = b"
  by (rule bit_word_eqI) (auto simp: byte_bits_def)

lemma bytes_bits_inj: "bytes_bits as = bytes_bits bs \<Longrightarrow> as = bs"
proof (induction as arbitrary: bs)
  case (Cons a as)
  then obtain b bs' where bs: "bs = b # bs'" by (cases bs) (auto dest: arg_cong [where f = length])
  with Cons.prems have "byte_bits a = byte_bits b" "bytes_bits as = bytes_bits bs'" by simp_all
  then show ?case using Cons.IH byte_bits_inj bs by blast
qed (auto dest: arg_cong [where f = length])

text \<open>
  The checksum detects every burst error: when the bytes received and the bytes sent differ, but only within 32
  consecutive bits, their checksums as \<^verbatim>\<open>adbg_wb_burst_read\<close> computes them differ.
\<close>

lemma crc_detects_bursts:
  assumes "bytes_bits sent = pre @ es @ post" "bytes_bits received = pre @ es' @ post"
    "length es = length es'" "length es \<le> 32" "sent \<noteq> received"
  shows "crc_of_bytes sent \<noteq> crc_of_bytes received"
proof
  assume "crc_of_bytes sent = crc_of_bytes received"
  then have "es = es'" using assms(1-4) crc_detects unfolding crc_of_bytes_bits by auto
  then have "bytes_bits sent = bytes_bits received" using assms(1,2) by simp
  then show False using bytes_bits_inj assms(5) by blast
qed

lemma crc_detects_bursts_witness:
  "crc_of_bytes [0x12, 0x34, 0x56, 0x78, 0x9A, 0xBC] \<noteq> crc_of_bytes [0x12, 0xCB, 0x56, 0x00, 0x9B, 0xBC]"
proof (rule crc_detects_bursts)
  show "bytes_bits [0x12, 0x34, 0x56, 0x78, 0x9A, 0xBC] =
      bytes_bits [0x12] @ bytes_bits [0x34, 0x56, 0x78, 0x9A] @ bytes_bits [0xBC]"
    "bytes_bits [0x12, 0xCB, 0x56, 0x00, 0x9B, 0xBC] =
      bytes_bits [0x12] @ bytes_bits [0xCB, 0x56, 0x00, 0x9B] @ bytes_bits [0xBC]" by simp_all
qed simp_all

end
