(* ===== verification/Adv_Dbg_Spec.thy ===== *)
theory Adv_Dbg_Spec
  imports Adv_Crc_Spec Jtag_Chain_Spec
begin

unbundle bit_operations_syntax

text \<open>
  What the transactions of the advanced debug interface put on the wire, bit by bit, and what they make of the answers,
  for every cable that provides \<open>tap_cable\<close>.
\<close>

section \<open>Bytes and words on the wire\<close>

lemma le_word_bit: "length bs \<le> 4 \<Longrightarrow> i < 8 * length bs \<Longrightarrow> bit (le_word bs) i = bit (bs ! (i div 8)) (i mod 8)"
proof (induction bs arbitrary: i)
  case (Cons b bs)
  show ?case
  proof (cases "i < 8")
    case True
    then show ?thesis by (simp add: bit_or_iff bit_ucast_iff bit_push_bit_iff)
  next
    case False
    then have "\<not> bit b i" using bit_imp_le_length [of b i] by auto
    moreover have "i div 8 = Suc ((i - 8) div 8)" "i mod 8 = (i - 8) mod 8" using False by (simp_all add: div_if mod_if)
    ultimately show ?thesis using False Cons by (simp add: bit_or_iff bit_ucast_iff bit_push_bit_iff)
  qed
qed simp

lemma bytes_bits_nth: "i < 8 * length bs \<Longrightarrow> bytes_bits bs ! i = bit (bs ! (i div 8)) (i mod 8)"
proof (induction bs arbitrary: i)
  case (Cons b bs)
  show ?case
  proof (cases "i < 8")
    case False
    then have "i div 8 = Suc ((i - 8) div 8)" "i mod 8 = (i - 8) mod 8" by (simp_all add: div_if mod_if)
    then show ?thesis using False Cons by (simp add: nth_append)
  qed (simp add: nth_append byte_bits_def)
qed simp

lemma stream_of_bytes: "stream_bits (words_of_bytes bs) (8 * length bs) = bytes_bits bs"
proof (rule nth_equalityI)
  fix i assume "i < length (stream_bits (words_of_bytes bs) (8 * length bs))"
  then have i: "i < 8 * length bs" by simp
  have k: "i div 32 < (length bs + 3) div 4" using i by linarith
  have "(8 * (4 * (i div 32)) + i mod 32) div 8 = 4 * (i div 32) + i mod 32 div 8" by (rule div_mult_self4) simp
  moreover have "8 * (4 * (i div 32)) + i mod 32 = i" by simp
  ultimately have d: "i div 8 = 4 * (i div 32) + i mod 32 div 8" "i mod 32 mod 8 = i mod 8" "i mod 32 div 8 < 4"
    by (simp_all add: mod_mod_cancel less_mult_imp_div_less)
  have "r < 8 * length (take 4 (drop (4 * q) bs))" if "32 * q + r < 8 * length bs" "r < 32" for q r
    using that by (auto simp: min_def)
  from this [of "i div 32" "i mod 32"] i have n: "i mod 32 < 8 * length (take 4 (drop (4 * (i div 32)) bs))" by simp
  have "bit (words_of_bytes bs ! (i div 32)) (i mod 32) = bit (take 4 (drop (4 * (i div 32)) bs) ! (i mod 32 div 8)) (i mod 8)"
    unfolding words_of_bytes_def using k n by (simp add: le_word_bit d(2))
  also have "\<dots> = bit (bs ! (i div 8)) (i mod 8)"
  proof -
    have "i div 8 < length bs" using i by linarith
    then show ?thesis using d by (simp add: nth_take)
  qed
  finally show "stream_bits (words_of_bytes bs) (8 * length bs) ! i = bytes_bits bs ! i"
    using i by (simp add: stream_bits_def bytes_bits_nth)
qed simp

lemma length_words_of_bytes: "8 * length bs \<le> 32 * length (words_of_bytes bs)"
  by (simp add: words_of_bytes_def)

lemma le_bytes_bits: "bytes_bits (le_bytes w) = bits_of 32 w"
proof (rule nth_equalityI)
  show "length (bytes_bits (le_bytes w)) = length (bits_of 32 w)" by (simp add: le_bytes_def)
next
  fix i assume "i < length (bytes_bits (le_bytes w))"
  then have i: "i < 32" by (simp add: le_bytes_def)
  then have "i div 8 = 0 \<and> i mod 8 = i \<or> i div 8 = 1 \<and> 8 + i mod 8 = i \<or> i div 8 = 2 \<and> 16 + i mod 8 = i \<or>
      i div 8 = 3 \<and> 24 + i mod 8 = i" by presburger
  then show "bytes_bits (le_bytes w) ! i = bits_of 32 w ! i"
    using i by (subst bytes_bits_nth) (auto simp: le_bytes_def bits_of_def bit_ucast_iff bit_drop_bit_eq)
qed

text \<open>The words a reading stream stores are, as bytes, the bits that came in.\<close>

lemma bytes_of_words_bits: "i < 32 * length ws \<Longrightarrow> bytes_bits (bytes_of_words ws) ! i = bit (ws ! (i div 32)) (i mod 32)"
proof (induction ws arbitrary: i)
  case (Cons w ws)
  show ?case
  proof (cases "i < 32")
    case True
    then show ?thesis by (simp add: bytes_of_words_def le_bytes_bits nth_append bits_of_def)
  next
    case False
    then have "i div 32 = Suc ((i - 32) div 32)" "i mod 32 = (i - 32) mod 32" by (simp_all add: div_if mod_if)
    then show ?thesis using False Cons by (simp add: bytes_of_words_def le_bytes_bits nth_append)
  qed
qed simp

lemma length_bytes_of_words: "length (bytes_of_words ws) = 4 * length ws"
  by (induction ws) (simp_all add: bytes_of_words_def le_bytes_def)

lemma words_enough: "(n :: nat) \<le> 32 * ((n - 1) div 32 + 1)"
proof -
  have "n \<le> 32 * (q + 1)" if "n - 1 = 32 * q + r" "r < 32" for q r using that by (cases n) simp_all
  from this [of "(n - 1) div 32" "(n - 1) mod 32"] show ?thesis by simp
qed

lemma length_pack_words: "length (pack_words bs) = (length bs - 1) div 32 + 1"
  by (simp add: pack_words_def)

lemma pack_words_bit:
  assumes "i < length bs"
  shows "bit (pack_words bs ! (i div 32)) (i mod 32) = bs ! i"
proof -
  have k: "i div 32 < (length bs - 1) div 32 + 1" using assms by (simp add: less_Suc_eq_le div_le_mono)
  have s: "32 * (i div 32) + i mod 32 = i" by simp
  have "i mod 32 < length (drop (32 * (i div 32)) bs)" using assms s unfolding length_drop by linarith
  then show ?thesis
    using k assms s by (simp add: pack_words_def bit_horner_sum_bit_word_iff del: upt_Suc)
qed

lemma stored_bytes:
  assumes "map f [a..<a + 8 * length bs] = bytes_bits bs" "bs \<noteq> []"
  shows "take (length bs) (bytes_of_words (pack_words (map f [a..<a + 8 * length bs]))) = bs"
proof (rule bytes_bits_inj, rule nth_equalityI)
  let ?ws = "pack_words (bytes_bits bs)"
  have l: "8 * length bs \<le> 32 * length ?ws" unfolding length_pack_words length_bytes_bits by (rule words_enough)
  then show "length (bytes_bits (take (length bs) (bytes_of_words (pack_words (map f [a..<a + 8 * length bs]))))) = length (bytes_bits bs)"
    unfolding assms(1) by (simp add: length_bytes_of_words)
  fix i assume "i < length (bytes_bits (take (length bs) (bytes_of_words (pack_words (map f [a..<a + 8 * length bs])))))"
  then have i: "i < 8 * length bs" unfolding assms(1) using l by (simp add: length_bytes_of_words)
  have d: "i div 8 < length bs" using i by linarith
  have "bytes_bits (take (length bs) (bytes_of_words ?ws)) ! i = bytes_bits (bytes_of_words ?ws) ! i"
    using i l d by (simp add: bytes_bits_nth length_bytes_of_words)
  also have "\<dots> = bytes_bits bs ! i" using i l by (simp add: bytes_of_words_bits pack_words_bit)
  finally show "bytes_bits (take (length bs) (bytes_of_words (pack_words (map f [a..<a + 8 * length bs])))) ! i = bytes_bits bs ! i"
    unfolding assms(1) .
qed

section \<open>Inside a data scan\<close>

text \<open>In the shift state with the bits \<open>bs\<close> sent since the scan began on \<open>w\<close>; and having left it.\<close>

definition in_shift :: "bool list \<Rightarrow> wire \<Rightarrow> wire" where
  "in_shift bs w = w\<lparr>tap := Shift_DR, shifted := bs, clocked := clocked w + length bs\<rparr>"

definition exited :: "bool list \<Rightarrow> wire \<Rightarrow> wire" where
  "exited bs w = w\<lparr>tap := Exit1_DR, shifted := bs, clocked := clocked w + length bs\<rparr>"

lemma in_shift_simps [simp]:
  "tap (in_shift bs w) = Shift_DR" "shifted (in_shift bs w) = bs" "reply (in_shift bs w) = reply w"
  "clocked (in_shift bs w) = clocked w + length bs"
  by (simp_all add: in_shift_def)

lemma in_shift_more: "(in_shift bs w)\<lparr>shifted := bs @ cs, clocked := clocked w + length bs + length cs\<rparr> = in_shift (bs @ cs) w"
  "(in_shift bs w)\<lparr>tap := Shift_DR, shifted := bs @ cs, clocked := clocked w + length bs + length cs\<rparr> = in_shift (bs @ cs) w"
  "(in_shift bs w)\<lparr>tap := Exit1_DR, shifted := bs @ cs, clocked := clocked w + length bs + length cs\<rparr> = exited (bs @ cs) w"
  by (simp_all add: in_shift_def exited_def)

lemma dr_scan_simps [simp]:
  "tap (dr_scan bs w) = Run_Test_Idle" "reply (dr_scan bs w) = reply w" "clocked (dr_scan bs w) = clocked w + length bs"
  "scans (dr_scan bs w) = scans w @ [DR_Scan bs]"
  by (simp_all add: dr_scan_def)

lemma port_upd: "port (s\<lparr>port := h\<rparr>) = h"
  by simp

context tap_cable
begin

lemma start_scan:
  assumes "tap (view (port s)) = Run_Test_Idle"
  shows "\<exists>h. tap_set_shift_dr c s = (APP_ERR_NONE, s\<lparr>port := h\<rparr>) \<and> view h = in_shift [] (view (port s))"
  using does_tap_set_shift_dr [of s] enter_dr [OF assms] by (auto simp: does_def in_shift_def)

lemma shift_zeros:
  assumes "view (port s) = in_shift bs w"
  shows "\<exists>h. err_seq (replicate n (jtag_write_bit c 0)) s = (APP_ERR_NONE, s\<lparr>port := h\<rparr>) \<and>
    view h = in_shift (bs @ replicate n False) w"
  using write_bits_shift [of s n] in_shift_more(1) [where bs = bs and w = w and cs = "replicate n False"] assms by auto

lemma shift_one:
  assumes "view (port s) = in_shift bs w"
  shows "\<exists>h. jtag_write_bit c TDO s = (APP_ERR_NONE, s\<lparr>port := h\<rparr>) \<and> view h = in_shift (bs @ [True]) w"
  using does_bits(3) [of s] shift_clocks [of "view (port s)" "[True]"] in_shift_more(1) [where bs = bs and w = w and cs = "[True]"] assms by (auto simp: does_def)

lemma shift_out:
  assumes "view (port s) = in_shift bs w" "0 < n" "n \<le> 32 * length ws"
  shows "\<exists>h. jtag_write_stream c ws (int n) False s = (APP_ERR_NONE, s\<lparr>port := h\<rparr>) \<and>
    view h = in_shift (bs @ stream_bits ws n) w"
  using write_stream_shift [of s n ws False] in_shift_more(2) [where bs = bs and w = w and cs = "stream_bits ws n"] assms by auto

lemma shift_last_out:
  assumes "view (port s) = in_shift bs w" "0 < n" "n \<le> 32 * length ws"
  shows "\<exists>h. jtag_write_stream c ws (int n) True s = (APP_ERR_NONE, s\<lparr>port := h\<rparr>) \<and>
    view h = exited (bs @ through_prefix s (stream_bits ws n)) w"
  using write_stream_shift [of s n ws True] in_shift_more(3) [where bs = bs and w = w and cs = "through_prefix s (stream_bits ws n)"] assms by auto

text \<open>Reading: the bits that come in start behind those of the devices after the target, when they are adjusted for.\<close>

lemma shift_in:
  fixes adjust :: bool
  assumes "view (port s) = in_shift bs w" "0 < n" "n \<le> 32 * length ws"
  defines "k \<equiv> (if adjust then global_DR_postfix_bits s else 0)"
  shows "\<exists>h. jtag_read_write_stream c ws (int n) adjust False s =
      (APP_ERR_NONE, pack_words (map (reply w) [clocked w + length bs + k..<clocked w + length bs + k + n]), s\<lparr>port := h\<rparr>) \<and>
    view h = in_shift (bs @ replicate k False @ stream_bits ws n) w"
  using read_write_stream_shift [of s n ws adjust False] in_shift_more(2) [where bs = bs and w = w and cs = "replicate k False @ stream_bits ws n"] assms
  by (auto simp: add.assoc)

lemma shift_last_in:
  fixes adjust :: bool
  assumes "view (port s) = in_shift bs w" "0 < n" "n \<le> 32 * length ws"
  defines "k \<equiv> (if adjust then global_DR_postfix_bits s else 0)"
  shows "\<exists>h. jtag_read_write_stream c ws (int n) adjust True s =
      (APP_ERR_NONE, pack_words (map (reply w) [clocked w + length bs + k..<clocked w + length bs + k + n]), s\<lparr>port := h\<rparr>) \<and>
    view h = exited (bs @ replicate k False @ through_prefix s (stream_bits ws n)) w"
  using read_write_stream_shift [of s n ws adjust True]
    in_shift_more(3) [where bs = bs and w = w and cs = "replicate k False @ through_prefix s (stream_bits ws n)"] assms
  by (auto simp: add.assoc through_prefix_def)

lemma leave_scan:
  assumes "view (port s) = exited bs w"
  shows "\<exists>h. tap_exit_to_idle c s = (APP_ERR_NONE, s\<lparr>port := h\<rparr>) \<and> view h = dr_scan bs w"
  using does_tap_exit_to_idle [of s] leave_dr [of "view (port s)"] assms by (auto simp: does_def exited_def dr_scan_def)

lemma leave_with_bit:
  assumes "view (port s) = in_shift bs w"
  shows "\<exists>h. err_seq [jtag_write_bit c TMS, tap_exit_to_idle c] s = (APP_ERR_NONE, s\<lparr>port := h\<rparr>) \<and>
    view h = dr_scan (bs @ [False]) w"
proof -
  have "with_tms True [False] = [(True, False)]" by (simp add: with_tms_def)
  then obtain h1 where 1: "jtag_write_bit c TMS s = (APP_ERR_NONE, s\<lparr>port := h1\<rparr>)" "view h1 = exited (bs @ [False]) w"
    using does_bits(2) [of s] shift_stream(1) [of "view (port s)" "[False]" True] in_shift_more(3) [where bs = bs and w = w and cs = "[False]"] assms
    by (auto simp: does_def)
  then show ?thesis using leave_scan [of "s\<lparr>port := h1\<rparr>" "bs @ [False]" w] by (auto simp: APP_ERR_NONE_def)
qed

lemma read_bit_in:
  assumes "view (port s) = in_shift bs w"
  shows "\<exists>h. jtag_read_write_bit c 0 s = (APP_ERR_NONE, of_bool (reply w (clocked w + length bs)), s\<lparr>port := h\<rparr>) \<and>
    view h = in_shift (bs @ [False]) w"
  using read_bit_shift [of s 0] in_shift_more(1) [where bs = bs and w = w and cs = "[False]"] assms by (auto simp: err_defs)

end

end
