(* ===== verification/Adv_Frames_Spec.thy ===== *)
theory Adv_Frames_Spec
  imports Adv_Dbg_Spec
begin

unbundle bit_operations_syntax

text \<open>
  The commands of the advanced debug interface as scans: selecting a module and a register, reading and writing registers,
  starting a burst.
\<close>

text \<open>The port is written last in a normal form of the states.\<close>

lemma port_last_more [simp]:
  "s\<lparr>port := h, desired_chain := k\<rparr> = s\<lparr>desired_chain := k, port := h\<rparr>"
  "s\<lparr>port := h, soft_retry_no := n\<rparr> = s\<lparr>soft_retry_no := n, port := h\<rparr>"
  "s\<lparr>port := h, current_reg_idx := r\<rparr> = s\<lparr>current_reg_idx := r, port := h\<rparr>"
  "s\<lparr>port := h, input_scratchpad_size := z\<rparr> = s\<lparr>input_scratchpad_size := z, port := h\<rparr>"
  "s\<lparr>port := h, output_scratchpad_size := z\<rparr> = s\<lparr>output_scratchpad_size := z, port := h\<rparr>"
  by simp_all

lemma through_prefix_other [simp]:
  "through_prefix (s\<lparr>desired_chain := k\<rparr>) bs = through_prefix s bs"
  "through_prefix (s\<lparr>current_chain := k\<rparr>) bs = through_prefix s bs"
  "through_prefix (s\<lparr>soft_retry_no := n\<rparr>) bs = through_prefix s bs"
  "through_prefix (s\<lparr>current_reg_idx := r\<rparr>) bs = through_prefix s bs"
  by (simp_all add: through_prefix_def)

section \<open>The bits of the commands\<close>

lemma select_bits:
  "chain \<in> {0, 1, 2, 3} \<Longrightarrow>
     stream_bits [of_int chain OR push_bit DBG_MODULE_SELECT_REG_SIZE 1] 3 = [odd chain, 2 \<le> chain, True]"
  by (auto simp: stream_bits_def adbg_defs upt_rec)

text \<open>Register index, opcode, and the zero that addresses the selected module.\<close>

definition ireg_bits :: "nat \<Rightarrow> u32 \<Rightarrow> bool list" where
  "ireg_bits regidx opcode = [odd regidx] @ bits_of 4 opcode @ [False]"

lemma ireg_word_bits:
  "regidx < 2 \<Longrightarrow> opcode \<in> {0x9, 0xd} \<Longrightarrow>
     stream_bits [push_bit 1 (opcode AND NOT (push_bit 4 1)) OR of_nat regidx] 6 = ireg_bits regidx opcode"
  by (auto simp: stream_bits_def ireg_bits_def bits_of_def upt_rec less_2_cases_iff)

text \<open>Burst length, address, opcode and the zero.\<close>

definition burst_bits :: "u32 \<Rightarrow> u32 \<Rightarrow> int \<Rightarrow> bool list" where
  "burst_bits opcode address count = bits_of 16 (of_int count) @ bits_of 32 address @ bits_of 4 opcode @ [False]"

lemma burst_word_bits:
  assumes "0 \<le> count" "count < 65536" "opcode = take_bit 4 opcode"
  shows "stream_bits [of_int count OR push_bit 16 address,
      (drop_bit 16 address OR push_bit 16 (opcode AND 0xf)) AND NOT (push_bit 20 1)] 53 = burst_bits opcode address count"
proof (rule nth_equalityI)
  fix i assume "i < length (stream_bits [of_int count OR push_bit 16 address,
      (drop_bit 16 address OR push_bit 16 (opcode AND 0xf)) AND NOT (push_bit 20 1)] 53)"
  then have i: "i < 53" by simp
  have f: "opcode AND 0xf = take_bit 4 opcode" by (simp add: take_bit_eq_mask mask_eq_exp_minus_1)
  have hi: "\<not> bit (of_int count :: u32) j" if "16 \<le> j" for j
  proof -
    have "count = take_bit 16 count" using assms(1,2) by (simp add: take_bit_int_eq_self)
    then have "\<not> bit count j" using that by (metis bit_take_bit_iff not_less)
    then show ?thesis by (simp add: bit_of_int_iff)
  qed
  have lo: "bit (of_int count OR push_bit 16 address) i = burst_bits opcode address count ! i" if "i < 32"
    using that hi [of i] by (auto simp: burst_bits_def bits_of_def nth_append bit_or_iff bit_push_bit_iff)
  have up: "bit ((drop_bit 16 address OR push_bit 16 (opcode AND 0xf)) AND NOT (push_bit 20 1)) m =
      burst_bits opcode address count ! (32 + m)" if "m < 21" for m
  proof -
    have "bit (push_bit 20 1 :: u32) m = (m = 20)" using that by (auto simp: bit_push_bit_iff bit_1_iff simp del: push_bit_of_1)
    moreover have "\<not> bit address (16 + m)" if "16 \<le> m" using bit_imp_le_length [of address "16 + m"] that by auto
    ultimately show ?thesis
      unfolding f using that
      by (auto simp: burst_bits_def bits_of_def nth_append bit_or_iff bit_and_iff bit_not_iff bit_push_bit_iff bit_drop_bit_eq
          bit_take_bit_iff simp del: push_bit_of_1 split: if_splits)
  qed
  show "stream_bits [of_int count OR push_bit 16 address,
      (drop_bit 16 address OR push_bit 16 (opcode AND 0xf)) AND NOT (push_bit 20 1)] 53 ! i = burst_bits opcode address count ! i"
  proof (cases "i < 32")
    case True
    then show ?thesis using i lo by (simp add: stream_bits_def)
  next
    case False
    then have "i div 32 = 1" "i mod 32 = i - 32" "i - 32 < 21" "32 + (i - 32) = i" using i by (simp_all add: div_if mod_if)
    then show ?thesis using i up [of "i - 32"] by (simp add: stream_bits_def)
  qed
qed (simp add: burst_bits_def)

context tap_cable
begin

lemma select_module_scan:
  assumes "tap (view (port s)) = Run_Test_Idle" "current_chain s \<noteq> chain" "chain \<in> {0, 1, 2, 3}"
  shows "\<exists>h. adbg_select_module c chain s = (APP_ERR_NONE, s\<lparr>desired_chain := chain, current_chain := chain, port := h\<rparr>) \<and>
    view h = dr_scan (through_prefix s [odd chain, 2 \<le> chain, True]) (view (port s))"
  using data_scan [of "s\<lparr>current_chain := - 1, desired_chain := chain\<rparr>" 3 "[of_int chain OR push_bit DBG_MODULE_SELECT_REG_SIZE 1]"]
    assms select_bits [OF assms(3)]
  by (auto simp: adbg_select_module_def Let_def simp del: err_seq.simps)

lemma select_module_again: "current_chain s = chain \<Longrightarrow> adbg_select_module c chain s = (APP_ERR_NONE, s)"
  by (simp add: adbg_select_module_def)

text \<open>A command in one stream, when the module is selected.\<close>

lemma select_ctrl_reg_scan:
  assumes "tap (view (port s)) = Run_Test_Idle" "current_chain s = desired_chain s" "current_chain s \<in> {0, 1, 2}"
    "regidx < 2" "current_reg_idx s ! nat (current_chain s) \<noteq> int regidx"
  shows "\<exists>h. adbg_select_ctrl_reg c regidx s = (APP_ERR_NONE, (set_reg_idx regidx (retry_ok s))\<lparr>port := h\<rparr>) \<and>
    view h = dr_scan (through_prefix s (ireg_bits regidx 0xd)) (view (port s))"
  using data_scan [of s 6 "[push_bit 1 (0xd AND NOT (push_bit 4 1)) OR of_nat regidx]"] assms ireg_word_bits [where regidx = regidx and opcode = "0xd"]
    select_module_again [of s "desired_chain s"]
  by (auto simp: adbg_select_ctrl_reg_def Let_def ireg_sel_def adbg_defs APP_ERR_NONE_def set_reg_idx_def retry_ok_def
      simp del: err_seq.simps)

lemma ctrl_write_scan:
  assumes "tap (view (port s)) = Run_Test_Idle" "current_chain s = desired_chain s" "current_chain s \<in> {0, 1, 2}"
    "regidx < 2" "0 < n" "n \<le> 32 * length cmd"
  shows "\<exists>h. adbg_ctrl_write c regidx cmd (int n) s = (APP_ERR_NONE, (set_reg_idx regidx (retry_ok s))\<lparr>port := h\<rparr>) \<and>
    view h = dr_scan (through_prefix s (stream_bits cmd n @ ireg_bits regidx 0x9)) (view (port s))"
proof -
  let ?d = "push_bit 1 (0x9 AND NOT (push_bit 4 1)) OR of_nat regidx :: u32"
  have d: "stream_bits [?d] 6 = ireg_bits regidx 0x9" using assms(4) by (intro ireg_word_bits) simp_all
  have ne: "stream_bits cmd n \<noteq> []" "through_prefix s (ireg_bits regidx 0x9) \<noteq> []"
    using assms(5) by (auto simp: through_prefix_def ireg_bits_def dest: arg_cong [where f = length])
  have "does view s (err_seq [tap_set_shift_dr c, jtag_write_stream c cmd (int n) False, jtag_write_stream c [?d] (int 6) True,
      tap_exit_to_idle c]) (to_shift_dr @ with_tms False (stream_bits cmd n) @ with_tms True (through_prefix s (ireg_bits regidx 0x9)) @ to_idle)"
    using does_jtag_write_stream [OF assms(5,6), of "s\<lparr>port := _\<rparr>" False] does_jtag_write_stream [of 6 "[?d]" "s\<lparr>port := _\<rparr>" True]
    unfolding d by (intro does_cons does_last does_tap_set_shift_dr does_tap_exit_to_idle) simp_all
  moreover have "to_shift_dr @ with_tms False (stream_bits cmd n) @ with_tms True (through_prefix s (ireg_bits regidx 0x9)) @ to_idle =
      to_shift_dr @ with_tms True (through_prefix s (stream_bits cmd n @ ireg_bits regidx 0x9)) @ to_idle"
    using append_with_tms [OF ne, of True] by (simp add: through_prefix_def)
  ultimately have "does view s (err_seq [tap_set_shift_dr c, jtag_write_stream c cmd (int n) False, jtag_write_stream c [?d] (int 6) True,
      tap_exit_to_idle c]) (to_shift_dr @ with_tms True (through_prefix s (stream_bits cmd n @ ireg_bits regidx 0x9)) @ to_idle)"
    by (simp only:)
  then obtain h where "err_seq [tap_set_shift_dr c, jtag_write_stream c cmd (int n) False, jtag_write_stream c [?d] 6 True,
      tap_exit_to_idle c] s = (APP_ERR_NONE, s\<lparr>port := h\<rparr>)"
    "view h = dr_scan (through_prefix s (stream_bits cmd n @ ireg_bits regidx 0x9)) (view (port s))"
    using scan_clocks(1) [OF assms(1), of "through_prefix s (stream_bits cmd n @ ireg_bits regidx 0x9)"] ne(1)
    by (auto simp: does_def through_prefix_def simp del: err_seq.simps)
  then show ?thesis
    using assms(2,3) select_module_again [of s "desired_chain s"]
    by (auto simp: adbg_ctrl_write_def Let_def ireg_wr_def adbg_defs APP_ERR_NONE_def set_reg_idx_def retry_ok_def
      simp del: err_seq.simps)
qed

lemma burst_command_scan:
  assumes "tap (view (port s)) = Run_Test_Idle" "current_chain s = desired_chain s"
    "0 \<le> count" "count < 65536" "opcode = take_bit 4 opcode"
  shows "\<exists>h. adbg_burst_command c opcode address count s = (APP_ERR_NONE, (retry_ok s)\<lparr>port := h\<rparr>) \<and>
    view h = dr_scan (through_prefix s (burst_bits opcode address count)) (view (port s))"
  using data_scan [of s 53 "[of_int count OR push_bit 16 address,
      (drop_bit 16 address OR push_bit 16 (opcode AND 0xf)) AND NOT (push_bit 20 1)]"] assms burst_word_bits [OF assms(3-5)]
    select_module_again [of s "desired_chain s"]
  by (auto simp: adbg_burst_command_def Let_def APP_ERR_NONE_def retry_ok_def simp del: err_seq.simps)

text \<open>The register is selected first, when it is not already; then a scan reads it and ends with a command that does nothing.\<close>

lemma ctrl_reg_selected:
  assumes "tap (view (port s)) = Run_Test_Idle" "current_chain s = desired_chain s" "current_chain s \<in> {0, 1, 2}" "regidx < 2"
  defines "sel \<equiv> current_reg_idx s ! nat (current_chain s) = int regidx"
  shows "\<exists>h. adbg_select_ctrl_reg c regidx s = (APP_ERR_NONE, (if sel then s else set_reg_idx regidx (retry_ok s))\<lparr>port := h\<rparr>) \<and>
    view h = (if sel then view (port s) else dr_scan (through_prefix s (ireg_bits regidx 0xd)) (view (port s)))"
proof (cases sel)
  case True
  then show ?thesis
    using select_module_again [of s "desired_chain s"] assms(2)
    by (intro exI [of _ "port s"]) (simp add: adbg_select_ctrl_reg_def sel_def APP_ERR_NONE_def)
next
  case False
  then show ?thesis using select_ctrl_reg_scan [OF assms(1-4)] by (simp add: sel_def)
qed

lemma ctrl_read_scan:
  assumes "tap (view (port s)) = Run_Test_Idle" "current_chain s = desired_chain s" "current_chain s \<in> {0, 1, 2}"
    "regidx < 2" "0 < n" "n \<le> 128"
  defines "sel \<equiv> current_reg_idx s ! nat (current_chain s) = int regidx"
  defines "w \<equiv> (if sel then view (port s) else dr_scan (through_prefix s (ireg_bits regidx 0xd)) (view (port s)))"
  defines "words \<equiv> pack_words (map (reply w) [clocked w + global_DR_postfix_bits s..<clocked w + global_DR_postfix_bits s + n])"
  shows "\<exists>h. adbg_ctrl_read c regidx data (int n) s =
      (APP_ERR_NONE, words @ drop (length words) data, (retry_ok (if sel then s else set_reg_idx regidx s))\<lparr>port := h\<rparr>) \<and>
    view h = dr_scan (replicate (global_DR_postfix_bits s + n) False @ through_prefix s (replicate 5 False)) w"
proof -
  obtain h1 where 1: "adbg_select_ctrl_reg c regidx s = (APP_ERR_NONE, (if sel then s else set_reg_idx regidx (retry_ok s))\<lparr>port := h1\<rparr>)"
    "view h1 = w" using ctrl_reg_selected [OF assms(1-4)] by (auto simp: sel_def w_def)
  let ?s1 = "(if sel then s else set_reg_idx regidx (retry_ok s))\<lparr>port := h1\<rparr>"
  have cfg: "global_DR_postfix_bits ?s1 = global_DR_postfix_bits s" "current_chain ?s1 = current_chain s"
    "through_prefix (?s1\<lparr>port := h\<rparr>) bs = through_prefix s bs" for h bs
    by (simp_all add: set_reg_idx_def retry_ok_def)
  have idle: "tap (view (port ?s1)) = Run_Test_Idle" using 1(2) assms(1) by (simp add: w_def)
  have z: "stream_bits [0, 0, 0, 0 :: u32] m = replicate m False" if "m \<le> 128" for m
    by (rule nth_equalityI) (use that in \<open>auto simp: stream_bits_def nth_Cons split: nat.splits\<close>)
  obtain h2 where 2: "tap_set_shift_dr c ?s1 = (APP_ERR_NONE, ?s1\<lparr>port := h2\<rparr>)" "view h2 = in_shift [] w"
    using start_scan [OF idle] 1(2) by auto
  obtain h3 where 3: "jtag_read_write_stream c [0, 0, 0, 0] (int n) True False (?s1\<lparr>port := h2\<rparr>) =
      (APP_ERR_NONE, words, ?s1\<lparr>port := h3\<rparr>)"
    "view h3 = in_shift (replicate (global_DR_postfix_bits s + n) False) w"
    using shift_in [of "?s1\<lparr>port := h2\<rparr>" "[]" w n "[0, 0, 0, 0]" True] assms(5,6) 2(2) cfg
    by (auto simp: words_def z replicate_add)
  obtain h4 where 4: "jtag_write_stream c [0, 0, 0, 0] (int 5) True (?s1\<lparr>port := h3\<rparr>) = (APP_ERR_NONE, ?s1\<lparr>port := h4\<rparr>)"
    "view h4 = exited (replicate (global_DR_postfix_bits s + n) False @ through_prefix s (replicate 5 False)) w"
    using shift_last_out [of "?s1\<lparr>port := h3\<rparr>" _ w 5 "[0, 0, 0, 0]"] 3(2) z [of 5] cfg by auto
  obtain h5 where 5: "tap_exit_to_idle c (?s1\<lparr>port := h4\<rparr>) = (APP_ERR_NONE, ?s1\<lparr>port := h5\<rparr>)"
    "view h5 = dr_scan (replicate (global_DR_postfix_bits s + n) False @ through_prefix s (replicate 5 False)) w"
    using leave_scan [of "?s1\<lparr>port := h4\<rparr>"] 4(2) by auto
  have nop: "ireg_nop (current_chain s) = Some (4, 0)" using assms(3) by (auto simp: ireg_nop_def adbg_defs)
  have "retry_ok (?s1\<lparr>port := h5\<rparr>) = (retry_ok (if sel then s else set_reg_idx regidx s))\<lparr>port := h5\<rparr>"
    by (simp add: retry_ok_def set_reg_idx_def)
  then show ?thesis
    unfolding adbg_ctrl_read_def select_module_again [OF assms(2)] Let_def prod.case 1(1)
    using cfg(2) nop 2(1) 3(1) 4(1) 5 by (auto simp: APP_ERR_NONE_def)
qed

lemma pack_one: "pack_words [b] = [of_bool b]"
  by (simp add: pack_words_def)

text \<open>No error is found when the error register's first bit reads zero.\<close>

lemma bus_error_none:
  assumes "tap (view (port s)) = Run_Test_Idle" "current_chain s = desired_chain s" "current_chain s = DC_WISHBONE"
  defines "sel \<equiv> current_reg_idx s ! 0 = 0"
  defines "w \<equiv> (if sel then view (port s) else dr_scan (through_prefix s (ireg_bits 0 0xd)) (view (port s)))"
  assumes "\<not> reply w (clocked w + global_DR_postfix_bits s)"
  shows "\<exists>h ed. bus_error c err s = (err, ed, None, (retry_ok (if sel then s else set_reg_idx 0 s))\<lparr>port := h\<rparr>) \<and>
    view h = dr_scan (replicate (global_DR_postfix_bits s + 1) False @ through_prefix s (replicate 5 False)) w"
proof -
  have "current_chain s \<in> {0, 1, 2}" using assms(3) by (simp add: adbg_defs)
  from ctrl_read_scan [OF assms(1,2) this, of 0 1 "[0, 0]"] assms(3,6)
  show ?thesis by (auto simp: bus_error_def adbg_defs sel_def w_def pack_one APP_ERR_NONE_def)
qed

end

end
