(* ===== verification/Adv_Burst_Spec.thy ===== *)
theory Adv_Burst_Spec
  imports Adv_Frames_Spec
begin

unbundle bit_operations_syntax

text \<open>
  Burst reads and writes of the advanced debug interface: the frames they exchange with the debug unit, what a write
  needs to be reported done, and what a read hands to its caller.
\<close>

section \<open>Writing\<close>

text \<open>The checksum a write sends.\<close>

definition write_crc :: "nat \<Rightarrow> int \<Rightarrow> int \<Rightarrow> (nat \<Rightarrow> u8) \<Rightarrow> u32" where
  "write_crc long word_size_bytes word_count data =
     fold (\<lambda>k crc. adbg_compute_crc crc (burst_word long word_size_bytes data k) (8 * nat word_size_bytes))
       [0..<nat word_count] 0xffffffff"

definition payload :: "int \<Rightarrow> int \<Rightarrow> (nat \<Rightarrow> u8) \<Rightarrow> u8 list" where
  "payload word_size_bytes word_count data = map data [0..<nat (word_count * word_size_bytes)]"

text \<open>
  The data frame of a write: the start bit, the data, the checksum, zeros that push them through to the debug unit and
  pull its answer through to the host, and the bits of the answer and of leaving the scan.
\<close>

definition write_frame :: "'h jtag \<Rightarrow> nat \<Rightarrow> int \<Rightarrow> int \<Rightarrow> (nat \<Rightarrow> u8) \<Rightarrow> bool list" where
  "write_frame s long word_size_bytes word_count data =
     [True] @ bytes_bits (payload word_size_bytes word_count data) @ bits_of 32 (write_crc long word_size_bytes word_count data) @
     replicate (global_DR_prefix_bits s + global_DR_postfix_bits s + 2) False"

text \<open>Where the answer comes out, counted from the start of that frame.\<close>

definition answer_at :: "'h jtag \<Rightarrow> int \<Rightarrow> int \<Rightarrow> nat" where
  "answer_at s word_size_bytes word_count =
     1 + 8 * (nat (word_count * word_size_bytes) + 4) + global_DR_prefix_bits s + global_DR_postfix_bits s"

text \<open>The buffer for the whole stream is there or can be had.\<close>

definition fits_scratch :: "(int \<Rightarrow> bool) \<Rightarrow> int \<Rightarrow> int \<Rightarrow> bool" where
  "fits_scratch room have_size needed \<longleftrightarrow> needed \<le> have_size \<or> room needed"

lemma check_fits: "fits_scratch room z n \<Longrightarrow> check_buffer_size room z n = (APP_ERR_NONE, max z n)"
  by (auto simp: fits_scratch_def check_buffer_size_def max_def)

lemma one_upt: "[a..<a + 1] = [a]"
  by simp

context tap_cable
begin

lemma write_round:
  fixes start opcode :: u32 and data :: "nat \<Rightarrow> u8" and long left :: nat
  assumes idle: "tap (view (port s)) = Run_Test_Idle" and "current_chain s = desired_chain s"
    and "0 < count" "count < 65536" "opcode = take_bit 4 opcode" "0 < ws"
    and "fits_scratch room (output_scratchpad_size s) (count * ws + 4)"
  defines "w \<equiv> dr_scan (through_prefix s (burst_bits opcode start count)) (view (port s))"
    and "s1 \<equiv> (retry_ok s)\<lparr>output_scratchpad_size := max (output_scratchpad_size s) (count * ws + 4)\<rparr>"
  defines "m \<equiv> reply w (clocked w + answer_at s ws count)"
    and "run \<equiv> burst_write_from c room long opcode data ws count start start 0 left APP_ERR_NONE s"
  shows "\<exists>h. view h = dr_scan (write_frame s long ws count data) w \<and>
    (\<not> m \<longrightarrow> run = None) \<and>
    (m \<and> current_chain s \<noteq> DC_WISHBONE \<longrightarrow> run = Some (APP_ERR_NONE, retry_ok (s1\<lparr>port := h\<rparr>))) \<and>
    (m \<and> current_chain s = DC_WISHBONE \<longrightarrow>
       (\<forall>e ed s'. bus_error c APP_ERR_NONE (s1\<lparr>port := h\<rparr>) = (e, ed, None, s') \<longrightarrow> run = Some (e, retry_ok s')))"
proof -
  let ?p = "payload ws count data" and ?crc = "write_crc long ws count data"
  let ?pre = "global_DR_prefix_bits s" and ?post = "global_DR_postfix_bits s" and ?total = "count * ws + 4"
  have len: "length (?p @ le_bytes ?crc) = nat (count * ws) + 4" by (simp add: payload_def le_bytes_def)
  have tot: "?total * 8 = int (8 * length (?p @ le_bytes ?crc))"
    using assms(3,6) by (simp add: payload_def le_bytes_def)
  have sb: "stream_bits (words_of_bytes (?p @ le_bytes ?crc)) (8 * length (?p @ le_bytes ?crc)) = bytes_bits ?p @ bits_of 32 ?crc"
    unfolding stream_of_bytes by (simp add: le_bytes_bits)
  obtain h1 where 1: "adbg_burst_command c opcode start count s = (APP_ERR_NONE, (retry_ok s)\<lparr>port := h1\<rparr>)" "view h1 = w"
    using burst_command_scan [OF idle assms(2) _ assms(4,5), of start] assms(3) by (auto simp: w_def)
  obtain h2 where 2: "tap_set_shift_dr c ((retry_ok s)\<lparr>port := h1\<rparr>) = (APP_ERR_NONE, (retry_ok s)\<lparr>port := h2\<rparr>)" "view h2 = in_shift [] w"
    using start_scan [of "(retry_ok s)\<lparr>port := h1\<rparr>"] 1(2) by (auto simp: w_def)
  obtain h3 where 3: "jtag_write_bit c TDO ((retry_ok s)\<lparr>port := h2\<rparr>) = (APP_ERR_NONE, (retry_ok s)\<lparr>port := h3\<rparr>)" "view h3 = in_shift [True] w"
    using shift_one [of "(retry_ok s)\<lparr>port := h2\<rparr>" "[]" w] 2(2) by auto
  have s3: "((retry_ok s)\<lparr>port := h3\<rparr>)\<lparr>output_scratchpad_size := max (output_scratchpad_size s) ?total\<rparr> = s1\<lparr>port := h3\<rparr>"
    by (simp add: s1_def)
  obtain h4 where 4: "jtag_write_stream c (words_of_bytes (?p @ le_bytes ?crc)) (?total * 8) False (s1\<lparr>port := h3\<rparr>) = (APP_ERR_NONE, s1\<lparr>port := h4\<rparr>)"
    "view h4 = in_shift ([True] @ bytes_bits ?p @ bits_of 32 ?crc) w"
    using shift_out [of "s1\<lparr>port := h3\<rparr>" "[True]" w "8 * length (?p @ le_bytes ?crc)" "words_of_bytes (?p @ le_bytes ?crc)"]
      3(2) sb length_words_of_bytes [of "?p @ le_bytes ?crc"] unfolding tot by (auto simp: le_bytes_def)
  obtain h5 where 5: "err_seq (replicate ?pre (jtag_write_bit c 0)) (s1\<lparr>port := h4\<rparr>) = (APP_ERR_NONE, s1\<lparr>port := h5\<rparr>)"
    "view h5 = in_shift ([True] @ bytes_bits ?p @ bits_of 32 ?crc @ replicate ?pre False) w"
    using shift_zeros [of "s1\<lparr>port := h4\<rparr>", unfolded port_upd, OF 4(2), of ?pre] by auto
  have e5: "err_seq ([jtag_write_stream c (words_of_bytes (?p @ le_bytes ?crc)) (?total * 8) False] @ replicate ?pre (jtag_write_bit c 0)) (s1\<lparr>port := h3\<rparr>)
      = (APP_ERR_NONE, s1\<lparr>port := h5\<rparr>)"
    unfolding err_seq_append using 4(1) 5(1) by (simp add: APP_ERR_NONE_def)
  have z: "stream_bits [0, 0 :: u32] 1 = [False]" by (simp add: stream_bits_def)
  have cfg: "global_DR_prefix_bits (s1\<lparr>port := h\<rparr>) = ?pre" "global_DR_postfix_bits (s1\<lparr>port := h\<rparr>) = ?post" "current_chain (s1\<lparr>port := h\<rparr>) = current_chain s"
    "output_scratchpad_size ((retry_ok s)\<lparr>port := h\<rparr>) = output_scratchpad_size s" for h
    by (simp_all add: s1_def retry_ok_def)
  have at: "clocked w + length ([True] @ bytes_bits ?p @ bits_of 32 ?crc @ replicate ?pre False) + ?post = clocked w + answer_at s ws count"
    by (simp add: answer_at_def payload_def)
  obtain h6 where 6: "jtag_read_write_stream c [0, 0] 1 True False (s1\<lparr>port := h5\<rparr>) = (APP_ERR_NONE, [of_bool m], s1\<lparr>port := h6\<rparr>)"
    "view h6 = in_shift ([True] @ bytes_bits ?p @ bits_of 32 ?crc @ replicate ?pre False @ replicate ?post False @ [False]) w"
    using shift_in [of "s1\<lparr>port := h5\<rparr>", unfolded port_upd, OF 5(2), of 1 "[0, 0]" True]
    unfolding if_True cfg at one_upt z by (auto simp: pack_one m_def)
  have frame: "([True] @ bytes_bits ?p @ bits_of 32 ?crc @ replicate ?pre False @ replicate ?post False @ [False]) @ [False] =
      write_frame s long ws count data"
    unfolding write_frame_def replicate_add by (simp add: numeral_2_eq_2 del: replicate_append_same)
  obtain h7 where 7: "err_seq [jtag_write_bit c TMS, tap_exit_to_idle c] (s1\<lparr>port := h6\<rparr>) = (APP_ERR_NONE, s1\<lparr>port := h7\<rparr>)"
    "view h7 = dr_scan (write_frame s long ws count data) w"
    using leave_with_bit [of "s1\<lparr>port := h6\<rparr>", unfolded port_upd, OF 6(2)]
    unfolding frame by (auto simp del: err_seq.simps)
  have e3: "err_seq [tap_set_shift_dr c, jtag_write_bit c TDO] ((retry_ok s)\<lparr>port := h1\<rparr>) = (APP_ERR_NONE, (retry_ok s)\<lparr>port := h3\<rparr>)"
    using 2(1) 3(1) by (simp add: APP_ERR_NONE_def)
  have none: "APP_ERR_NONE OR APP_ERR_NONE = APP_ERR_NONE" "(APP_ERR_NONE \<noteq> 0) = False" by (simp_all add: APP_ERR_NONE_def)
  have hd: "(hd [of_bool m :: u32] = 0) = (\<not> m)" by simp
  have run: "run = (if \<not> m then None
      else if current_chain s = DC_WISHBONE then
        (let (err, err_data, failed, s') = bus_error c APP_ERR_NONE (s1\<lparr>port := h7\<rparr>)
         in case failed of
              None \<Rightarrow> Some (err, retry_ok s')
            | Some addr \<Rightarrow>
                (case left of
                   0 \<Rightarrow> Some (err OR APP_ERR_MAX_BUS_ERR, s')
                 | Suc left' \<Rightarrow>
                     (let (e, s') = adbg_ctrl_write c DBG_WB_REG_ERROR err_data 1 s'
                      in burst_write_from c room long opcode data ws count start addr (bus_error_index long addr start ws) left' (err OR e) s')))
      else Some (APP_ERR_NONE, retry_ok (s1\<lparr>port := h7\<rparr>)))"
    unfolding run_def burst_write_from.simps [of c room long opcode data ws count start start 0 left APP_ERR_NONE s] diff_0_right 1(1) Let_def prod.case none
      if_False e3 cfg check_fits [OF assms(7)] s3 payload_def [symmetric] write_crc_def [symmetric] e5 6(1) 7(1) hd never_retried
    by simp
  then show ?thesis using 7(2) by auto
qed

end

text \<open>The first bit of the error register of the Wishbone module, when it is read after \<open>w\<close>.\<close>

definition bus_error_bit :: "'h jtag \<Rightarrow> wire \<Rightarrow> bool" where
  "bus_error_bit s w =
     (let w' = (if current_reg_idx s ! 0 = 0 then w else dr_scan (through_prefix s (ireg_bits 0 0xd)) w)
      in reply w' (clocked w' + global_DR_postfix_bits s))"

lemma bwrite_opcode_fits: "bwrite_opcode chain ws = Some opcode \<Longrightarrow> opcode = take_bit 4 opcode"
  by (auto simp: bwrite_opcode_def adbg_defs split: if_splits)

lemma bread_opcode_fits: "bread_opcode chain ws = Some opcode \<Longrightarrow> opcode = take_bit 4 opcode"
  by (auto simp: bread_opcode_def adbg_defs split: if_splits)

lemma burst_write_done:
  fixes start :: u32 and data :: "nat \<Rightarrow> u8" and long :: nat
  assumes "tap_cable c view" "tap (view (port s)) = Run_Test_Idle" "current_chain s = desired_chain s"
    "bwrite_opcode (current_chain s) ws = Some opcode" "0 < ws" "0 < count" "count < 65536"
    "fits_scratch room (output_scratchpad_size s) (count * ws + 4)"
  defines "w1 \<equiv> dr_scan (through_prefix s (burst_bits opcode start count)) (view (port s))"
  defines "w2 \<equiv> dr_scan (write_frame s long ws count data) w1"
    and "answered \<equiv> reply w1 (clocked w1 + answer_at s ws count)"
    and "result \<equiv> adbg_wb_burst_write c room long data ws count start s"
  shows "(\<not> answered \<longrightarrow> result = None) \<and>
    (answered \<and> current_chain s \<noteq> DC_WISHBONE \<longrightarrow>
      (\<exists>s'. result = Some (APP_ERR_NONE, s') \<and> view (port s') = w2)) \<and>
    (answered \<and> current_chain s = DC_WISHBONE \<and> \<not> bus_error_bit s w2 \<longrightarrow>
      (\<exists>s'. result = Some (APP_ERR_NONE, s') \<and> tap (view (port s')) = Run_Test_Idle \<and>
        take (length (scans w2)) (scans (view (port s'))) = scans w2))"
proof -
  let ?s1 = "(retry_ok s)\<lparr>output_scratchpad_size := max (output_scratchpad_size s) (count * ws + 4)\<rparr>"
  have r: "result = burst_write_from c room long opcode data ws count start start 0 MAX_BUS_ERRORS APP_ERR_NONE s"
    using assms(4,6) by (simp add: result_def adbg_wb_burst_write_def)
  obtain h where h: "view h = w2" "\<not> answered \<longrightarrow> result = None"
    "answered \<and> current_chain s \<noteq> DC_WISHBONE \<longrightarrow> result = Some (APP_ERR_NONE, retry_ok (?s1\<lparr>port := h\<rparr>))"
    "answered \<and> current_chain s = DC_WISHBONE \<longrightarrow>
       (\<forall>e ed s'. bus_error c APP_ERR_NONE (?s1\<lparr>port := h\<rparr>) = (e, ed, None, s') \<longrightarrow> result = Some (e, retry_ok s'))"
    using tap_cable.write_round [OF assms(1-3,6,7) bwrite_opcode_fits [OF assms(4)] assms(5,8), where start = start and long = long and data = data and left = MAX_BUS_ERRORS]
    unfolding r w1_def w2_def answered_def by blast
  have cpu: "\<exists>s'. result = Some (APP_ERR_NONE, s') \<and> view (port s') = w2" if "answered" "current_chain s \<noteq> DC_WISHBONE"
    using h(1,3) that by (auto simp: retry_ok_def)
  have "\<exists>s'. result = Some (APP_ERR_NONE, s') \<and> tap (view (port s')) = Run_Test_Idle \<and>
      take (length (scans w2)) (scans (view (port s'))) = scans w2"
    if a: "answered" "current_chain s = DC_WISHBONE" "\<not> bus_error_bit s w2"
  proof -
    define S where "S = ?s1\<lparr>port := h\<rparr>"
    have S: "tap (view (port S)) = Run_Test_Idle" "current_chain S = desired_chain S" "current_chain S = DC_WISHBONE"
      and e: "current_reg_idx S = current_reg_idx s" "through_prefix S = through_prefix s" "view (port S) = w2"
        "global_DR_postfix_bits S = global_DR_postfix_bits s"
      using assms(3) a(2) h(1) by (simp_all add: S_def retry_ok_def through_prefix_def fun_eq_iff w2_def)
    obtain h' ed where "bus_error c APP_ERR_NONE S =
        (APP_ERR_NONE, ed, None, (retry_ok (if current_reg_idx s ! 0 = 0 then S else set_reg_idx 0 S))\<lparr>port := h'\<rparr>)"
      and v: "view h' = dr_scan (replicate (global_DR_postfix_bits s + 1) False @ through_prefix s (replicate 5 False))
        (if current_reg_idx s ! 0 = 0 then w2 else dr_scan (through_prefix s (ireg_bits 0 0xd)) w2)"
      using tap_cable.bus_error_none [OF assms(1) S, of APP_ERR_NONE] a(3) unfolding bus_error_bit_def Let_def e by blast
    then have "result = Some (APP_ERR_NONE, retry_ok ((retry_ok (if current_reg_idx s ! 0 = 0 then S else set_reg_idx 0 S))\<lparr>port := h'\<rparr>))"
      using h(4) a(1,2) unfolding S_def by blast
    then show ?thesis using v by (auto simp: retry_ok_def)
  qed
  then show ?thesis using h(2) cpu by blast
qed

text \<open>
  C14.
  A burst write, on any cable, when the module is selected and the buffer can be had: it makes exactly two data scans, the
  burst command and the frame with the data and their checksum. The program exits unless the debug unit answers that the
  checksum matched; a write whose data it did acknowledge, and for which the Wishbone module then flags no bus error, is
  reported as a success with the port idle.
\<close>

theorem burst_write_frames:
  fixes start :: u32 and data :: "nat \<Rightarrow> u8" and long :: nat
  assumes "tap_cable c view" "tap (view (port s)) = Run_Test_Idle" "current_chain s = desired_chain s"
    "bwrite_opcode (current_chain s) ws = Some opcode" "0 < ws" "0 < count" "count < 65536"
    "fits_scratch room (output_scratchpad_size s) (count * ws + 4)"
  defines "w1 \<equiv> dr_scan (through_prefix s (burst_bits opcode start count)) (view (port s))"
  defines "w2 \<equiv> dr_scan (write_frame s long ws count data) w1"
    and "answered \<equiv> reply w1 (clocked w1 + answer_at s ws count)"
    and "result \<equiv> adbg_wb_burst_write c room long data ws count start s"
  shows "(\<not> answered \<longrightarrow> result = None) \<and>
    (answered \<and> current_chain s \<noteq> DC_WISHBONE \<longrightarrow>
      (\<exists>s'. result = Some (APP_ERR_NONE, s') \<and> view (port s') = w2)) \<and>
    (answered \<and> current_chain s = DC_WISHBONE \<and> \<not> bus_error_bit s w2 \<longrightarrow>
      (\<exists>s'. result = Some (APP_ERR_NONE, s') \<and> tap (view (port s')) = Run_Test_Idle \<and>
        take (length (scans w2)) (scans (view (port s'))) = scans w2))"
  unfolding w1_def w2_def answered_def result_def
  by (rule burst_write_done [OF assms(1-8)])

definition bench_answering :: "nat \<Rightarrow> board jtag" where
  "bench_answering k = bench\<lparr>port := \<lparr>board_wire = bench_wire\<lparr>reply := (\<lambda>i. i = k)\<rparr>, tck = False\<rparr>\<rparr>"

theorem burst_write_frames_witness:
  "\<exists>s'. adbg_wb_burst_write (common_cable pin_out pin_inout) (\<lambda>_. True) 8 (\<lambda>_. 0x5A) 1 1 0x100 (bench_answering 98) = Some (APP_ERR_NONE, s') \<and>
    tap (board_wire (port s')) = Run_Test_Idle"
proof -
  have op: "bwrite_opcode (current_chain (bench_answering 98)) 1 = Some 1"
    by (simp add: bench_answering_def bench_def bwrite_opcode_def adbg_defs)
  from burst_write_frames [OF banged.tap_cable_axioms _ _ this, where count = 1 and room = "\<lambda>_. True" and start = "0x100" and long = 8 and data = "\<lambda>_. 0x5A"]
  show ?thesis
    by (auto simp: bench_answering_def bench_defs fits_scratch_def adbg_defs answer_at_def bus_error_bit_def through_prefix_def
        burst_bits_def write_frame_def payload_def Let_def)
qed

text \<open>Which memory the checksum covers.\<close>

lemma bits_of_le_word: "length bs \<le> 4 \<Longrightarrow> bits_of (8 * length bs) (le_word bs) = bytes_bits bs"
  by (rule nth_equalityI) (simp_all add: bits_of_def le_word_bit bytes_bits_nth)

lemma word_crc:
  "ws \<in> {1, 2, 4} \<Longrightarrow>
     adbg_compute_crc x (burst_word long ws data k) (8 * nat ws) =
     crc_bits (bytes_bits (map data [(if ws = 4 then long else nat ws) * k..<(if ws = 4 then long else nat ws) * k + nat ws])) x"
  unfolding compute_crc_bits
  using bits_of_le_word [of "map data [long * k..<long * k + 4]"] bits_of_le_word [of "map data [2 * k..<2 * k + 2]"]
    bits_of_le_word [of "[data k]"]
  by (auto simp: burst_word_def)

lemma write_crc_bits:
  fixes long :: nat
  assumes "ws \<in> {1, 2, 4}"
  defines "stride \<equiv> (if ws = 4 then long else nat ws)"
  shows "write_crc long ws count data =
    crc_of_bytes (concat (map (\<lambda>k. map data [stride * k..<stride * k + nat ws]) [0..<nat count]))"
proof -
  have "fold (\<lambda>k crc. adbg_compute_crc crc (burst_word long ws data k) (8 * nat ws)) ks x =
      crc_bits (bytes_bits (concat (map (\<lambda>k. map data [stride * k..<stride * k + nat ws]) ks))) x" for ks x
  proof (induction ks arbitrary: x)
    case (Cons k ks)
    then show ?case using word_crc [OF assms(1), of x long data k] by (simp add: stride_def crc_bits_append)
  qed (simp add: crc_bits_def)
  then show ?thesis by (simp add: write_crc_def crc_of_bytes_bits)
qed

lemma concat_chunks: "concat (map (\<lambda>k. map f [n * k..<n * k + n]) [0..<m]) = map f [0..<m * n]"
proof (induction m)
  case (Suc m)
  have "[0..<Suc m * n] = [0..<m * n] @ [m * n..<m * n + n]" using upt_add_eq_append [of 0 "m * n" n] by (simp add: add.commute)
  then show ?case using Suc by (simp add: mult.commute)
qed simp

text \<open>
  The checksum of a burst write is that of the data it sends, for bytes and half words, for single words, and on a host
  whose \<^verbatim>\<open>unsigned long\<close> has four bytes.
\<close>

lemma burst_write_checksum:
  assumes "ws \<in> {1, 2, 4}" "0 < count" "ws = 4 \<Longrightarrow> long = 4 \<or> count = 1"
  shows "write_crc long ws count data = crc_of_bytes (payload ws count data)"
proof -
  let ?stride = "if ws = 4 then long else nat ws"
  have "concat (map (\<lambda>k. map data [?stride * k..<?stride * k + nat ws]) [0..<nat count]) = payload ws count data"
  proof (cases "?stride = nat ws")
    case True
    then show ?thesis
      using concat_chunks [of data "nat ws" "nat count"] assms(1,2) by (auto simp: payload_def nat_mult_distrib)
  next
    case False
    then have "ws = 4" "count = 1" using assms(1,3) by (auto split: if_splits)
    then show ?thesis by (simp add: payload_def)
  qed
  then show ?thesis unfolding write_crc_bits [OF assms(1)] by simp
qed

lemma burst_write_checksum_witness: "write_crc 8 2 3 (\<lambda>k. of_nat k) = crc_of_bytes [0, 1, 2, 3, 4, 5]"
  using burst_write_checksum [of 2 3 8 "\<lambda>k. of_nat k"] by (simp add: payload_def upt_rec)

text \<open>With eight bytes the checksum of two words takes the first and the one behind the buffer.\<close>

lemma stride_checksum_wrong:
  assumes "map data [8..<12] \<noteq> map data [4..<8]"
  shows "write_crc 8 4 2 data \<noteq> crc_of_bytes (payload 4 2 data)"
proof
  let ?a = "map data [0..<4]" and ?b = "map data [4..<8]" and ?c = "map data [8..<12]"
  assume eq: "write_crc 8 4 2 data = crc_of_bytes (payload 4 2 data)"
  have p: "payload 4 2 data = ?a @ ?b" using upt_add_eq_append [of 0 4 4] by (simp add: payload_def)
  have "write_crc 8 4 2 data = crc_of_bytes (?a @ ?c)"
    using write_crc_bits [of 4 8 2 data] by (simp add: upt_rec)
  then have "bytes_bits ?c = bytes_bits ?b"
    using eq p crc_detects [of "bytes_bits ?c" "bytes_bits ?b" "bytes_bits ?a" "[]" "0xffffffff"] unfolding crc_of_bytes_bits by simp
  then show False using bytes_bits_inj assms by blast
qed

text \<open>
  C35.
  On a host whose \<^verbatim>\<open>unsigned long\<close> has eight bytes a burst of two words fails: the checksum takes the words at even offsets, so when
  the word behind the buffer differs from the second word, a debug unit that answers truthfully whether the
  checksum matches the data makes the program exit.
\<close>

theorem burst_write_stride_lp64:
  fixes start :: u32 and data :: "nat \<Rightarrow> u8"
  assumes "tap_cable c view" "tap (view (port s)) = Run_Test_Idle" "current_chain s = desired_chain s"
    "bwrite_opcode (current_chain s) 4 = Some opcode" "fits_scratch room (output_scratchpad_size s) 12"
    "map data [8..<12] \<noteq> map data [4..<8]"
  defines "w1 \<equiv> dr_scan (through_prefix s (burst_bits opcode start 2)) (view (port s))"
  assumes "reply w1 (clocked w1 + answer_at s 4 2) = (write_crc 8 4 2 data = crc_of_bytes (payload 4 2 data))"
  shows "adbg_wb_burst_write c room 8 data 4 2 start s = None"
  using burst_write_done [OF assms(1-4), where count = 2 and room = room and start = start and long = 8 and data = data] stride_checksum_wrong [OF assms(6)] assms(5,8)
  unfolding w1_def by simp

theorem burst_write_stride_lp64_witness:
  "adbg_wb_burst_write (common_cable pin_out pin_inout) (\<lambda>_. True) 8 (\<lambda>k. of_nat k) 4 2 0x100 (bench_answering 0) = None"
proof (rule burst_write_stride_lp64 [OF banged.tap_cable_axioms])
  show "bwrite_opcode (current_chain (bench_answering 0)) 4 = Some 3"
    by (simp add: bench_answering_def bench_def bwrite_opcode_def adbg_defs)
  have "map (\<lambda>k. of_nat k :: u8) [8..<12] \<noteq> map of_nat [4..<8]" by (simp add: upt_rec)
  then show "map (\<lambda>k. of_nat k :: u8) [8..<12] \<noteq> map of_nat [4..<8]"
    "reply (dr_scan (through_prefix (bench_answering 0) (burst_bits 3 0x100 2)) (board_wire (port (bench_answering 0))))
        (clocked (dr_scan (through_prefix (bench_answering 0) (burst_bits 3 0x100 2)) (board_wire (port (bench_answering 0)))) +
         answer_at (bench_answering 0) 4 2) =
      (write_crc 8 4 2 of_nat = crc_of_bytes (payload 4 2 of_nat))"
    using stride_checksum_wrong [of of_nat] by (simp_all add: bench_answering_def answer_at_def)
qed (simp_all add: bench_answering_def bench_defs fits_scratch_def)

section \<open>Reading\<close>

lemma le_word_bytes: "le_word (le_bytes w) = w"
proof -
  have "bits_of 32 (le_word (le_bytes w)) = bits_of 32 w"
    using bits_of_le_word [of "le_bytes w"] unfolding le_bytes_bits by (simp add: le_bytes_def)
  then show ?thesis by (intro bit_word_eqI) (simp add: bits_of_def)
qed

text \<open>
  What the debug unit sends for a read: a number of zeros, a one, the data and its checksum, from the shift clock
  \<open>k\<close> on.
\<close>

definition unit_sends :: "wire \<Rightarrow> nat \<Rightarrow> u8 list \<Rightarrow> u32 \<Rightarrow> bool" where
  "unit_sends w zeros bs crc \<longleftrightarrow>
     (\<forall>i < zeros + 1 + 8 * (length bs + 4).
        reply w (clocked w + i) = (replicate zeros False @ [True] @ bytes_bits bs @ bits_of 32 crc) ! i)"

definition read_frame :: "'h jtag \<Rightarrow> nat \<Rightarrow> nat \<Rightarrow> bool list" where
  "read_frame s zeros bytes = replicate (zeros + 1) False @ through_prefix s (replicate (8 * (bytes + 4)) False)"

context tap_cable
begin

lemma wait_ready:
  assumes "view (port s) = in_shift bs w" "z < k"
    "\<And>i. i < z \<Longrightarrow> \<not> reply w (clocked w + length bs + i)" "reply w (clocked w + length bs + z)"
  shows "\<exists>h. wait_status c k APP_ERR_NONE s = (APP_ERR_NONE, True, s\<lparr>port := h\<rparr>) \<and>
    view h = in_shift (bs @ replicate (z + 1) False) w"
  using assms
proof (induction z arbitrary: s bs k)
  case 0
  then obtain k' where "k = Suc k'" by (cases k) auto
  then show ?case using read_bit_in [OF 0(1)] 0(4) by (auto simp: APP_ERR_NONE_def)
next
  case (Suc z)
  then obtain k' where k: "k = Suc k'" "z < k'" by (cases k) auto
  obtain h where h: "jtag_read_write_bit c 0 s = (APP_ERR_NONE, 0, s\<lparr>port := h\<rparr>)" "view h = in_shift (bs @ [False]) w"
    using read_bit_in [OF Suc.prems(1)] Suc.prems(3) [of 0] by auto
  have "\<exists>h'. wait_status c k' APP_ERR_NONE (s\<lparr>port := h\<rparr>) = (APP_ERR_NONE, True, (s\<lparr>port := h\<rparr>)\<lparr>port := h'\<rparr>) \<and>
      view h' = in_shift ((bs @ [False]) @ replicate (z + 1) False) w"
    using Suc.prems(3) [of "Suc _"] Suc.prems(4) by (intro Suc.IH) (simp_all add: h(2) k(2))
  then show ?case using h(1) by (auto simp: k(1) APP_ERR_NONE_def)
qed

lemma wait_timeout:
  assumes "view (port s) = in_shift bs w" "\<And>i. i < k \<Longrightarrow> \<not> reply w (clocked w + length bs + i)"
  shows "\<exists>h. wait_status c k APP_ERR_NONE s = (APP_ERR_NONE, False, s\<lparr>port := h\<rparr>) \<and>
    view h = in_shift (bs @ replicate (k + 1) False) w"
  using assms
proof (induction k arbitrary: s bs)
  case 0
  then show ?case using read_bit_in [OF 0(1)] by (auto simp: APP_ERR_NONE_def)
next
  case (Suc k)
  obtain h where h: "jtag_read_write_bit c 0 s = (APP_ERR_NONE, 0, s\<lparr>port := h\<rparr>)" "view h = in_shift (bs @ [False]) w"
    using read_bit_in [OF Suc.prems(1)] Suc.prems(2) [of 0] by auto
  have "\<exists>h'. wait_status c k APP_ERR_NONE (s\<lparr>port := h\<rparr>) = (APP_ERR_NONE, False, (s\<lparr>port := h\<rparr>)\<lparr>port := h'\<rparr>) \<and>
      view h' = in_shift ((bs @ [False]) @ replicate (k + 1) False) w"
    using Suc.prems(2) [of "Suc _"] by (intro Suc.IH) (simp_all add: h(2))
  then show ?case using h(1) by (auto simp: APP_ERR_NONE_def)
qed

lemma read_round:
  fixes start opcode :: u32 and long left :: nat and data :: "u8 list option"
  assumes idle: "tap (view (port s)) = Run_Test_Idle" and "current_chain s = desired_chain s" "\<not> global_xilinx_bscan s"
    and "0 < count" "count < 65536" "opcode = take_bit 4 opcode" "0 < ws"
    and "fits_scratch room (input_scratchpad_size s) (count * ws + 4)" "fits_scratch room (output_scratchpad_size s) (count * ws + 4)"
    and "length bs = nat (count * ws)" "zeros < MAX_READ_STATUS_WAIT"
  defines "w \<equiv> dr_scan (through_prefix s (burst_bits opcode start count)) (view (port s))"
    and "s1 \<equiv> (retry_ok s)\<lparr>input_scratchpad_size := max (input_scratchpad_size s) (count * ws + 4),
                 output_scratchpad_size := max (output_scratchpad_size s) (count * ws + 4)\<rparr>"
  assumes "unit_sends w zeros bs crc"
  defines "run \<equiv> burst_read_from c room long opcode ws count start start 0 left data APP_ERR_NONE s"
  shows "\<exists>h. view h = dr_scan (read_frame s zeros (length bs)) w \<and>
    (crc_of_bytes bs \<noteq> crc \<longrightarrow> run = (APP_ERR_CRC, Some bs, s1\<lparr>port := h\<rparr>)) \<and>
    (crc_of_bytes bs = crc \<and> current_chain s \<noteq> DC_WISHBONE \<longrightarrow> run = (APP_ERR_NONE, Some bs, retry_ok (s1\<lparr>port := h\<rparr>))) \<and>
    (crc_of_bytes bs = crc \<and> current_chain s = DC_WISHBONE \<longrightarrow>
       (\<forall>e ed s'. bus_error c APP_ERR_NONE (s1\<lparr>port := h\<rparr>) = (e, ed, None, s') \<longrightarrow> run = (e, Some bs, retry_ok s')))"
proof -
  let ?total = "count * ws + 4" and ?n = "length bs"
  let ?words = "replicate ((nat ?total + 3) div 4) (0 :: u32)" and ?z = "replicate (zeros + 1) False"
  let ?a = "clocked w + (zeros + 1)" and ?bs = "bs @ le_bytes crc"
  have tot: "?total * 8 = int (8 * (?n + 4))" "nat ?total = ?n + 4" using assms(4,7,10) by (simp_all add: nat_add_distrib)
  have len: "length ?bs = ?n + 4" by (simp add: le_bytes_def)
  have u: "reply w (clocked w + i) = (replicate zeros False @ [True] @ bytes_bits bs @ bits_of 32 crc) ! i"
    if "i < zeros + 1 + 8 * (?n + 4)" for i using assms(14) that by (simp add: unit_sends_def)
  obtain h1 where 1: "adbg_burst_command c opcode start count s = (APP_ERR_NONE, (retry_ok s)\<lparr>port := h1\<rparr>)" "view h1 = w"
    using burst_command_scan [OF idle assms(2) _ assms(5,6), of start] assms(4) by (auto simp: w_def)
  obtain h2 where 2: "tap_set_shift_dr c ((retry_ok s)\<lparr>port := h1\<rparr>) = (APP_ERR_NONE, (retry_ok s)\<lparr>port := h2\<rparr>)" "view h2 = in_shift [] w"
    using start_scan [of "(retry_ok s)\<lparr>port := h1\<rparr>"] 1(2) by (auto simp: w_def)
  obtain h3 where 3: "wait_status c MAX_READ_STATUS_WAIT APP_ERR_NONE ((retry_ok s)\<lparr>port := h2\<rparr>) = (APP_ERR_NONE, True, (retry_ok s)\<lparr>port := h3\<rparr>)"
    "view h3 = in_shift ?z w"
    using wait_ready [of "(retry_ok s)\<lparr>port := h2\<rparr>", unfolded port_upd, OF 2(2) assms(11)] u [of zeros] u
    by (auto simp: nth_append)
  have s3: "((retry_ok s)\<lparr>port := h3\<rparr>)\<lparr>input_scratchpad_size := max (input_scratchpad_size s) ?total,
      output_scratchpad_size := max (output_scratchpad_size s) ?total\<rparr> = s1\<lparr>port := h3\<rparr>" by (simp add: s1_def)
  have got: "map (reply w) [?a..<?a + 8 * length ?bs] = bytes_bits ?bs"
  proof (rule nth_equalityI)
    fix i assume "i < length (map (reply w) [?a..<?a + 8 * length ?bs])"
    then have i: "i < 8 * (?n + 4)" unfolding len by simp
    have "(replicate zeros False @ [True] @ bytes_bits bs @ bits_of 32 crc) ! (zeros + 1 + i) = bytes_bits ?bs ! i"
      by (simp add: nth_append le_bytes_bits)
    moreover have "map (reply w) [?a..<?a + 8 * length ?bs] ! i = reply w (?a + i)" by (rule nth_map_upt) (use i len in simp)
    ultimately show "map (reply w) [?a..<?a + 8 * length ?bs] ! i = bytes_bits ?bs ! i"
      using u [of "zeros + 1 + i"] i by (simp only: add.assoc)
  qed (simp add: len del: upt_Suc)
  define input where "input = bytes_of_words (pack_words (map (reply w) [?a..<?a + 8 * length ?bs]))"
  have input: "take (?n + 4) input = ?bs" using stored_bytes [OF got] unfolding input_def len by (simp add: le_bytes_def del: upt_Suc)
  have i1: "take ?n input = bs" using arg_cong [OF input, of "take ?n"] by (simp add: min_def)
  have i2: "le_word (take 4 (drop ?n input)) = crc"
    using arg_cong [OF input, of "drop ?n"] by (simp add: drop_take le_word_bytes)
  have room: "8 * (?n + 4) \<le> 32 * length ?words"
  proof -
    have "m \<le> 4 * ((m + 3) div 4)" for m :: nat by presburger
    from this [of "?n + 4"] show ?thesis unfolding tot(2) length_replicate by simp
  qed
  have z: "stream_bits ?words (8 * (?n + 4)) = replicate (8 * (?n + 4)) False"
    by (rule nth_equalityI) (use room in \<open>auto simp: stream_bits_def\<close>)
  obtain h4 where 4: "jtag_read_write_stream c ?words (?total * 8) False True (s1\<lparr>port := h3\<rparr>) =
      (APP_ERR_NONE, pack_words (map (reply w) [?a..<?a + 8 * length ?bs]), s1\<lparr>port := h4\<rparr>)"
    "view h4 = exited (read_frame s zeros ?n) w"
    using shift_last_in [of "s1\<lparr>port := h3\<rparr>", unfolded port_upd, OF 3(2) _ room, of False] unfolding tot(1) z len
    by (auto simp: read_frame_def through_prefix_def s1_def retry_ok_def add.assoc)
  obtain h5 where 5: "tap_exit_to_idle c (s1\<lparr>port := h4\<rparr>) = (APP_ERR_NONE, s1\<lparr>port := h5\<rparr>)" "view h5 = dr_scan (read_frame s zeros ?n) w"
    using leave_scan [of "s1\<lparr>port := h4\<rparr>", unfolded port_upd, OF 4(2)] by auto
  have cfg: "global_xilinx_bscan ((retry_ok s)\<lparr>port := h\<rparr>) = False" "current_chain (s1\<lparr>port := h\<rparr>) = current_chain s"
    "output_scratchpad_size ((retry_ok s)\<lparr>port := h\<rparr>) = output_scratchpad_size s"
    "input_scratchpad_size ((retry_ok s)\<lparr>port := h\<rparr>) = input_scratchpad_size s" for h
    using assms(3) by (simp_all add: s1_def retry_ok_def)
  have none: "APP_ERR_NONE OR x = x" "(APP_ERR_NONE \<noteq> 0) = False" for x by (simp_all add: APP_ERR_NONE_def)
  have n: "nat (count * ws) = ?n" using assms(10) by simp
  show ?thesis
    unfolding run_def burst_read_from.simps [of c room long opcode ws count start start 0 left data APP_ERR_NONE s] diff_0_right 1(1)
      Let_def prod.case none if_False cfg 2(1) 3(1) check_fits [OF assms(8)] check_fits [OF assms(9)] s3 4(1) 5(1) n
      input_def [symmetric] i1 i2 crc_of_bytes_def [symmetric] never_retried not_True_eq_False simp_thms
    using 5(2) by auto
qed

lemma read_timeout_round:
  fixes start opcode :: u32 and long left :: nat and data :: "u8 list option"
  assumes idle: "tap (view (port s)) = Run_Test_Idle" and "current_chain s = desired_chain s" "\<not> global_xilinx_bscan s"
    and "0 < count" "count < 65536" "opcode = take_bit 4 opcode"
  defines "w \<equiv> dr_scan (through_prefix s (burst_bits opcode start count)) (view (port s))"
  assumes "\<And>i. i < MAX_READ_STATUS_WAIT \<Longrightarrow> \<not> reply w (clocked w + i)"
  shows "\<exists>h. burst_read_from c room long opcode ws count start start 0 left data APP_ERR_NONE s =
      (APP_ERR_MAX_RETRY, data, (retry_ok s)\<lparr>port := h\<rparr>) \<and>
    view h = in_shift (replicate (MAX_READ_STATUS_WAIT + 1) False) w"
proof -
  obtain h1 where 1: "adbg_burst_command c opcode start count s = (APP_ERR_NONE, (retry_ok s)\<lparr>port := h1\<rparr>)" "view h1 = w"
    using burst_command_scan [OF idle assms(2) _ assms(5,6), of start] assms(4) by (auto simp: w_def)
  obtain h2 where 2: "tap_set_shift_dr c ((retry_ok s)\<lparr>port := h1\<rparr>) = (APP_ERR_NONE, (retry_ok s)\<lparr>port := h2\<rparr>)" "view h2 = in_shift [] w"
    using start_scan [of "(retry_ok s)\<lparr>port := h1\<rparr>"] 1(2) by (auto simp: w_def)
  obtain h3 where 3: "wait_status c MAX_READ_STATUS_WAIT APP_ERR_NONE ((retry_ok s)\<lparr>port := h2\<rparr>) = (APP_ERR_NONE, False, (retry_ok s)\<lparr>port := h3\<rparr>)"
    "view h3 = in_shift (replicate (MAX_READ_STATUS_WAIT + 1) False) w"
    using wait_timeout [of "(retry_ok s)\<lparr>port := h2\<rparr>", unfolded port_upd, OF 2(2), of MAX_READ_STATUS_WAIT] assms(8)
    by (auto simp del: replicate.simps)
  have cfg: "global_xilinx_bscan ((retry_ok s)\<lparr>port := h\<rparr>) = False" for h using assms(3) by (simp add: retry_ok_def)
  have none: "APP_ERR_NONE OR x = x" "(APP_ERR_NONE \<noteq> 0) = False" for x by (simp_all add: APP_ERR_NONE_def)
  show ?thesis
    unfolding burst_read_from.simps [of c room long opcode ws count start start 0 left data APP_ERR_NONE s] diff_0_right 1(1)
      Let_def prod.case none if_False cfg 2(1) 3(1) never_retried
    using 3(2) by auto
qed

end

lemma burst_read_done:
  fixes start :: u32 and long :: nat
  assumes "tap_cable c view" "tap (view (port s)) = Run_Test_Idle" "current_chain s = desired_chain s" "\<not> global_xilinx_bscan s"
    "bread_opcode (current_chain s) ws = Some opcode" "0 < ws" "0 < count" "count < 65536"
    "fits_scratch room (input_scratchpad_size s) (count * ws + 4)" "fits_scratch room (output_scratchpad_size s) (count * ws + 4)"
    "length bs = nat (count * ws)" "zeros < MAX_READ_STATUS_WAIT"
  defines "w1 \<equiv> dr_scan (through_prefix s (burst_bits opcode start count)) (view (port s))"
  defines "w2 \<equiv> dr_scan (read_frame s zeros (length bs)) w1"
    and "result \<equiv> adbg_wb_burst_read c room long ws count start s"
  assumes "unit_sends w1 zeros bs crc"
  shows "(crc_of_bytes bs \<noteq> crc \<longrightarrow> (\<exists>s'. result = (APP_ERR_CRC, Some bs, s') \<and> view (port s') = w2)) \<and>
    (crc_of_bytes bs = crc \<and> (current_chain s = DC_WISHBONE \<longrightarrow> \<not> bus_error_bit s w2) \<longrightarrow>
      (\<exists>s'. result = (APP_ERR_NONE, Some bs, s') \<and> tap (view (port s')) = Run_Test_Idle \<and>
        take (length (scans w2)) (scans (view (port s'))) = scans w2))"
proof -
  let ?s1 = "(retry_ok s)\<lparr>input_scratchpad_size := max (input_scratchpad_size s) (count * ws + 4),
                 output_scratchpad_size := max (output_scratchpad_size s) (count * ws + 4)\<rparr>"
  have r: "result = burst_read_from c room long opcode ws count start start 0 MAX_BUS_ERRORS None APP_ERR_NONE s"
    using assms(5,7) by (simp add: result_def adbg_wb_burst_read_def)
  obtain h where h: "view h = w2" "crc_of_bytes bs \<noteq> crc \<longrightarrow> result = (APP_ERR_CRC, Some bs, ?s1\<lparr>port := h\<rparr>)"
    "crc_of_bytes bs = crc \<and> current_chain s \<noteq> DC_WISHBONE \<longrightarrow> result = (APP_ERR_NONE, Some bs, retry_ok (?s1\<lparr>port := h\<rparr>))"
    "crc_of_bytes bs = crc \<and> current_chain s = DC_WISHBONE \<longrightarrow>
       (\<forall>e ed s'. bus_error c APP_ERR_NONE (?s1\<lparr>port := h\<rparr>) = (e, ed, None, s') \<longrightarrow> result = (e, Some bs, retry_ok s'))"
    using tap_cable.read_round [OF assms(1-4,7,8) bread_opcode_fits [OF assms(5)] assms(6,9-12,16) [unfolded w1_def],
        where long = long and data = None and left = MAX_BUS_ERRORS]
    unfolding r w1_def w2_def by blast
  have crc: "\<exists>s'. result = (APP_ERR_CRC, Some bs, s') \<and> view (port s') = w2" if "crc_of_bytes bs \<noteq> crc"
    using h(1,2) that by (intro exI [of _ "?s1\<lparr>port := h\<rparr>"]) simp
  have cpu: "\<exists>s'. result = (APP_ERR_NONE, Some bs, s') \<and> tap (view (port s')) = Run_Test_Idle \<and>
        take (length (scans w2)) (scans (view (port s'))) = scans w2"
    if "crc_of_bytes bs = crc" "current_chain s \<noteq> DC_WISHBONE"
    using h(1,3) that by (intro exI [of _ "retry_ok (?s1\<lparr>port := h\<rparr>)"]) (simp add: retry_ok_def w2_def)
  have "\<exists>s'. result = (APP_ERR_NONE, Some bs, s') \<and> tap (view (port s')) = Run_Test_Idle \<and>
        take (length (scans w2)) (scans (view (port s'))) = scans w2"
    if a: "crc_of_bytes bs = crc" "current_chain s = DC_WISHBONE" "\<not> bus_error_bit s w2"
  proof -
    define S where "S = ?s1\<lparr>port := h\<rparr>"
    have S: "tap (view (port S)) = Run_Test_Idle" "current_chain S = desired_chain S" "current_chain S = DC_WISHBONE"
      and e: "current_reg_idx S = current_reg_idx s" "through_prefix S = through_prefix s" "view (port S) = w2"
        "global_DR_postfix_bits S = global_DR_postfix_bits s"
      using assms(3) a(2) h(1) by (simp_all add: S_def retry_ok_def through_prefix_def fun_eq_iff w2_def)
    obtain h' ed where "bus_error c APP_ERR_NONE S =
        (APP_ERR_NONE, ed, None, (retry_ok (if current_reg_idx s ! 0 = 0 then S else set_reg_idx 0 S))\<lparr>port := h'\<rparr>)"
      and v: "view h' = dr_scan (replicate (global_DR_postfix_bits s + 1) False @ through_prefix s (replicate 5 False))
        (if current_reg_idx s ! 0 = 0 then w2 else dr_scan (through_prefix s (ireg_bits 0 0xd)) w2)"
      using tap_cable.bus_error_none [OF assms(1) S, of APP_ERR_NONE] a(3) unfolding bus_error_bit_def Let_def e by blast
    then have "result = (APP_ERR_NONE, Some bs, retry_ok ((retry_ok (if current_reg_idx s ! 0 = 0 then S else set_reg_idx 0 S))\<lparr>port := h'\<rparr>))"
      using h(4) a(1,2) unfolding S_def by blast
    then show ?thesis using v by (auto simp: retry_ok_def dr_scan_def)
  qed
  then show ?thesis using crc cpu by blast
qed

text \<open>
  C13.
  A burst read, on any cable, when the module is selected and the buffers can be had, and the debug unit answers with
  fewer than \<^verbatim>\<open>MAX_READ_STATUS_WAIT\<close> zeros, a one, the data and a checksum: when the checksum is that of the data, the read succeeds with
  exactly those bytes (on the Wishbone module, if no bus error is flagged), the burst command and the scan of the answer are on the
  wire and the port is idle; when it is not, the read makes just these two scans and reports \<^verbatim>\<open>APP_ERR_CRC\<close>, although the bytes have been stored in the caller's buffer.
\<close>

theorem burst_read_delivers:
  fixes start :: u32 and long :: nat
  assumes "tap_cable c view" "tap (view (port s)) = Run_Test_Idle" "current_chain s = desired_chain s" "\<not> global_xilinx_bscan s"
    "bread_opcode (current_chain s) ws = Some opcode" "0 < ws" "0 < count" "count < 65536"
    "fits_scratch room (input_scratchpad_size s) (count * ws + 4)" "fits_scratch room (output_scratchpad_size s) (count * ws + 4)"
    "length bs = nat (count * ws)" "zeros < MAX_READ_STATUS_WAIT"
  defines "w1 \<equiv> dr_scan (through_prefix s (burst_bits opcode start count)) (view (port s))"
  defines "w2 \<equiv> dr_scan (read_frame s zeros (length bs)) w1"
    and "result \<equiv> adbg_wb_burst_read c room long ws count start s"
  assumes "unit_sends w1 zeros bs crc"
  shows "(crc_of_bytes bs \<noteq> crc \<longrightarrow> (\<exists>s'. result = (APP_ERR_CRC, Some bs, s') \<and> view (port s') = w2)) \<and>
    (crc_of_bytes bs = crc \<and> (current_chain s = DC_WISHBONE \<longrightarrow> \<not> bus_error_bit s w2) \<longrightarrow>
      (\<exists>s'. result = (APP_ERR_NONE, Some bs, s') \<and> tap (view (port s')) = Run_Test_Idle \<and>
        take (length (scans w2)) (scans (view (port s'))) = scans w2))"
  unfolding w1_def w2_def result_def
  by (rule burst_read_done [OF assms(1-12) assms(16) [unfolded w1_def]])

text \<open>A bench on which the debug unit sends the bits \<open>bs\<close> after the burst command, and zeros otherwise.\<close>

definition bench_sending :: "bool list \<Rightarrow> board jtag" where
  "bench_sending bs = bench\<lparr>port := \<lparr>board_wire = bench_wire\<lparr>reply := (\<lambda>i. 54 \<le> i \<and> i - 54 < length bs \<and> bs ! (i - 54))\<rparr>, tck = False\<rparr>\<rparr>"

lemma bench_sends:
  assumes "count < 65536" "0 \<le> count"
  shows "unit_sends (dr_scan (through_prefix (bench_sending (replicate zeros False @ [True] @ bytes_bits bs @ bits_of 32 crc))
      (burst_bits opcode start count)) (board_wire (port (bench_sending (replicate zeros False @ [True] @ bytes_bits bs @ bits_of 32 crc)))))
    zeros bs crc"
  unfolding unit_sends_def
  by (auto simp: bench_sending_def bench_defs through_prefix_def burst_bits_def)

lemma bench_sending_simps [simp]:
  "tap (board_wire (port (bench_sending bs))) = Run_Test_Idle" "current_chain (bench_sending bs) = 0" "desired_chain (bench_sending bs) = 0"
  "global_xilinx_bscan (bench_sending bs) = False" "bread_opcode 0 1 = Some 5" "bread_opcode 0 2 = Some 6"
  "input_scratchpad_size (bench_sending bs) = 0" "output_scratchpad_size (bench_sending bs) = 0"
  by (simp_all add: bench_sending_def bench_defs bread_opcode_def adbg_defs)

theorem burst_read_delivers_witness:
  "\<exists>s'. adbg_wb_burst_read (common_cable pin_out pin_inout) (\<lambda>_. True) 8 2 1 0x100
      (bench_sending (replicate 3 False @ [True] @ bytes_bits [0x12, 0x34] @ bits_of 32 (crc_of_bytes [0x12, 0x34]))) =
    (APP_ERR_NONE, Some [0x12, 0x34], s') \<and> tap (board_wire (port s')) = Run_Test_Idle"
proof -
  define s where "s = bench_sending (replicate 3 False @ [True] @ bytes_bits [0x12, 0x34] @ bits_of 32 (crc_of_bytes [0x12, 0x34]))"
  define w where "w = dr_scan (through_prefix s (burst_bits 6 0x100 1)) (board_wire (port s))"
  have sends: "unit_sends w 3 [0x12, 0x34] (crc_of_bytes [0x12, 0x34])"
    unfolding w_def s_def by (rule bench_sends) simp_all
  have e: "\<not> bus_error_bit s (dr_scan (read_frame s 3 (Suc (Suc 0))) w)"
    by (simp add: bus_error_bit_def Let_def bench_sending_def bench_defs through_prefix_def burst_bits_def read_frame_def s_def w_def)
  have s: "tap (board_wire (port s)) = Run_Test_Idle" "current_chain s = 0" "desired_chain s = 0" "\<not> global_xilinx_bscan s"
    "input_scratchpad_size s = 0" "output_scratchpad_size s = 0" by (simp_all add: s_def)
  show ?thesis
    using burst_read_delivers [OF banged.tap_cable_axioms s(1) _ s(4), of 2 6 1 "\<lambda>_. True" "[0x12, 0x34]" 3 "0x100" "crc_of_bytes [0x12, 0x34]" 8]
      sends e s unfolding w_def [symmetric] s_def [symmetric]
    by (auto simp: fits_scratch_def MAX_READ_STATUS_WAIT_def)
qed

text \<open>
  C15.
  No corrupted data is delivered as good: when the debug unit has read \<open>sent\<close> and sends its checksum, but the bits are
  disturbed on the way within 32 consecutive ones, the read reports \<^verbatim>\<open>APP_ERR_CRC\<close>.
\<close>

theorem burst_read_detects_corruption:
  fixes start :: u32 and long :: nat
  assumes "tap_cable c view" "tap (view (port s)) = Run_Test_Idle" "current_chain s = desired_chain s" "\<not> global_xilinx_bscan s"
    "bread_opcode (current_chain s) ws = Some opcode" "0 < ws" "0 < count" "count < 65536"
    "fits_scratch room (input_scratchpad_size s) (count * ws + 4)" "fits_scratch room (output_scratchpad_size s) (count * ws + 4)"
    "length received = nat (count * ws)" "zeros < MAX_READ_STATUS_WAIT"
    "unit_sends (dr_scan (through_prefix s (burst_bits opcode start count)) (view (port s))) zeros received (crc_of_bytes sent)"
    "bytes_bits sent = pre @ es @ post" "bytes_bits received = pre @ es' @ post"
    "length es = length es'" "length es \<le> 32" "sent \<noteq> received"
  shows "fst (adbg_wb_burst_read c room long ws count start s) = APP_ERR_CRC"
proof -
  have "crc_of_bytes received \<noteq> crc_of_bytes sent" using crc_detects_bursts [OF assms(14-18)] by simp
  then show ?thesis using burst_read_done [OF assms(1-13), where long = long] by auto
qed

theorem burst_read_detects_corruption_witness:
  "fst (adbg_wb_burst_read (common_cable pin_out pin_inout) (\<lambda>_. True) 8 2 1 0x100
      (bench_sending (replicate 0 False @ [True] @ bytes_bits [0x12, 0x35] @ bits_of 32 (crc_of_bytes [0x12, 0x34])))) = APP_ERR_CRC"
proof (rule burst_read_detects_corruption [OF banged.tap_cable_axioms])
  show "unit_sends (dr_scan (through_prefix (bench_sending (replicate 0 False @ [True] @ bytes_bits [0x12, 0x35] @ bits_of 32 (crc_of_bytes [0x12, 0x34])))
      (burst_bits 6 0x100 1)) (board_wire (port (bench_sending (replicate 0 False @ [True] @ bytes_bits [0x12, 0x35] @ bits_of 32 (crc_of_bytes [0x12, 0x34]))))))
    0 [0x12, 0x35] (crc_of_bytes [0x12, 0x34])" by (rule bench_sends) simp_all
  show "bytes_bits [0x12, 0x34] = bytes_bits [0x12] @ bytes_bits [0x34] @ []" "bytes_bits [0x12, 0x35] = bytes_bits [0x12] @ bytes_bits [0x35] @ []"
    by simp_all
qed (simp_all add: fits_scratch_def MAX_READ_STATUS_WAIT_def)

text \<open>
  When the status bit stays zero a burst read gives up with \<^verbatim>\<open>APP_ERR_MAX_RETRY\<close> after exactly \<^verbatim>\<open>MAX_READ_STATUS_WAIT\<close> plus one bits.
  It leaves the port in the shift state, from which the next transaction, which expects it idle, does not reach the data
  register.
\<close>

lemma burst_read_timeout:
  fixes start :: u32 and long :: nat
  assumes "tap_cable c view" "tap (view (port s)) = Run_Test_Idle" "current_chain s = desired_chain s" "\<not> global_xilinx_bscan s"
    "bread_opcode (current_chain s) ws = Some opcode" "0 < count" "count < 65536"
  defines "w \<equiv> dr_scan (through_prefix s (burst_bits opcode start count)) (view (port s))"
  assumes "\<And>i. i < MAX_READ_STATUS_WAIT \<Longrightarrow> \<not> reply w (clocked w + i)"
  shows "\<exists>s'. adbg_wb_burst_read c room long ws count start s = (APP_ERR_MAX_RETRY, None, s') \<and>
    view (port s') = in_shift (replicate (MAX_READ_STATUS_WAIT + 1) False) w \<and>
    tap (tap_clocks to_shift_dr (view (port s'))) = Pause_DR"
proof -
  have p: "tap (tap_clocks to_shift_dr (in_shift bs w)) = Pause_DR" for bs
    by (simp add: to_shift_dr_def tap_of_clock)
  show ?thesis
    using tap_cable.read_timeout_round [OF assms(1-4,6,7) bread_opcode_fits [OF assms(5)], where start = start and long = long and
        left = MAX_BUS_ERRORS and data = None and room = room and ws = ws] assms(5,6,9) p
    unfolding w_def adbg_wb_burst_read_def by auto
qed

lemma burst_read_timeout_witness:
  "\<exists>s'. adbg_wb_burst_read (common_cable pin_out pin_inout) (\<lambda>_. True) 8 2 1 0x100 (bench_sending []) = (APP_ERR_MAX_RETRY, None, s') \<and>
    tap (tap_clocks to_shift_dr (board_wire (port s'))) = Pause_DR"
  using burst_read_timeout [OF banged.tap_cable_axioms, of "bench_sending []" 2 6 1 "0x100" "\<lambda>_. True" 8]
  by (auto simp: bench_sending_def bench_defs)

end
