(* ===== verification/Legacy_Spec.thy ===== *)
theory Legacy_Spec
  imports Legacy_Dbg Adv_Dbg_Spec Jtag_Enum_Spec
begin

unbundle bit_operations_syntax

text \<open>
  The legacy debug interface: its checksum is the one of the advanced interface, mirrored; its values travel highest bit first;
  what a transaction that fails leaves behind.
\<close>

section \<open>The checksum\<close>

lemma shl_one_bit: "bit (push_bit 1 (x :: 'a::len word)) i = (0 < i \<and> i < LENGTH('a) \<and> bit x (i - 1))"
  unfolding bit_push_bit_iff by auto

text \<open>Computing in 64 bits, with masks of 28, comes to the same as computing in 32.\<close>

lemma crc_update_alt: "crc_update x b = push_bit 1 x XOR (if b \<noteq> bit x 31 then 0x04c11db7 else 0)"
proof (rule bit_word_eqI)
  fix i assume "i < LENGTH(32)"
  then have i: "i < 32" by simp
  have sx: "bit (scast x :: u64) j = bit x j" if "j < 32" for j using that by (auto simp: bit_simps)
  have m: "((if b then 0xfffffff else 0) XOR (if drop_bit 31 (scast x :: u64) AND 1 \<noteq> 0 then 0xfffffff else 0)) AND LEGACY_CRC_POLY =
      (if b \<noteq> bit x 31 then 0x04c11db7 else 0)"
  proof -
    have "(drop_bit 31 (scast x :: u64) AND 1 \<noteq> 0) = bit x 31"
      using sx [of 31] by (simp add: and_one_eq mod_2_eq_odd bit_iff_odd_drop_bit [of "scast x"])
    then show ?thesis by (simp add: LEGACY_CRC_POLY_def)
  qed
  have p: "bit (0x04c11db7 :: u64) i = bit (0x04c11db7 :: u32) i" using i by simp
  show "bit (crc_update x b) i = bit (push_bit 1 x XOR (if b \<noteq> bit x 31 then 0x04c11db7 else 0)) i"
    unfolding crc_update_def legacy_crc_calc_def Let_def m bit_ucast_iff bit_xor_iff shl_one_bit
    using i p sx [of "i - 1"] by (auto simp del: bit_numeral_word_iff)
qed

definition legacy_crc :: "bool list \<Rightarrow> u32 \<Rightarrow> u32" where
  "legacy_crc bs crc = fold (\<lambda>b crc. crc_update crc b) bs crc"

lemma legacy_crc_append: "legacy_crc (as @ bs) x = legacy_crc bs (legacy_crc as x)"
  by (simp add: legacy_crc_def)

definition mirror :: "u32 \<Rightarrow> u32" where
  "mirror x = horner_sum of_bool 2 (rev (bits_of 32 x))"

lemma mirror_bit: "i < 32 \<Longrightarrow> bit (mirror x) i = bit x (31 - i)"
  by (simp add: mirror_def bit_horner_sum_bit_word_iff rev_nth bits_of_def)

lemma poly_mirror: "i < 32 \<Longrightarrow> bit (0x04c11db7 :: u32) i = bit ADBG_CRC_POLY (31 - i)"
proof -
  have "\<forall>i \<in> set [0..<32]. bit (0x04c11db7 :: u32) i = bit ADBG_CRC_POLY (31 - i)"
    unfolding ADBG_CRC_POLY_def by (simp add: upt_rec)
  then show "i < 32 \<Longrightarrow> ?thesis" by simp
qed

lemma crc_update_mirror: "crc_update (mirror x) b = mirror (crc_round b x)"
proof (rule bit_word_eqI)
  fix i assume "i < LENGTH(32)"
  then have i: "i < 32" by simp
  have "bit (push_bit 1 (mirror x)) i = (0 < i \<and> bit x (32 - i))"
    unfolding shl_one_bit using i by (cases i) (auto simp: mirror_bit)
  moreover have "bit (drop_bit 1 x) (31 - i) = (0 < i \<and> bit x (32 - i))"
  proof -
    have "1 + (31 - i) = 32 - i" using i by simp
    moreover have "\<not> bit x 32" using bit_imp_le_length [of x 32] by auto
    ultimately show ?thesis unfolding bit_drop_bit_eq comp_def by (cases "i = 0") simp_all
  qed
  moreover have "bit (mirror x) 31 = bit x 0" by (simp add: mirror_bit)
  ultimately show "bit (crc_update (mirror x) b) i = bit (mirror (crc_round b x)) i"
    using i poly_mirror [OF i]
    unfolding crc_update_alt crc_round_alt mirror_bit [OF i] bit_xor_iff by (simp del: bit_numeral_word_iff)
qed

lemma mirror_ones: "mirror 0xffffffff = 0xffffffff"
  by (rule bit_word_eqI) (simp add: mirror_bit ones_bit del: bit_numeral_word_iff)

lemma length_msb_first [simp]: "length (msb_first n x) = n"
  by (simp add: msb_first_def)

lemma msb_first_nth: "i < n \<Longrightarrow> msb_first n x ! i = bit x (n - 1 - i)"
  by (simp add: msb_first_def rev_nth)

text \<open>
  The two debug interfaces protect the same data with the same bits: the checksum register of the legacy interface, which is
  computed with the other polynomial from the other end, is the mirror image of that of the advanced interface, and
  sent highest bit first it is the same sequence on the wire.
\<close>

lemma legacy_crc_same_bits:
  "msb_first 32 (legacy_crc bs 0xffffffff) = bits_of 32 (crc_bits bs 0xffffffff)"
proof -
  have "legacy_crc bs (mirror x) = mirror (crc_bits bs x)" for x
    unfolding legacy_crc_def crc_bits_def by (induction bs arbitrary: x) (simp_all add: crc_update_mirror)
  from this [of "0xffffffff"] have "legacy_crc bs 0xffffffff = mirror (crc_bits bs 0xffffffff)" by (simp only: mirror_ones)
  then show ?thesis by (intro nth_equalityI) (simp_all add: msb_first_nth mirror_bit bits_of_def)
qed

section \<open>Values on the wire\<close>

text \<open>The loop that reverses a value keeps what is collected above the bits to come.\<close>

lemma reverse_loop_bits:
  "0 < k \<Longrightarrow> \<not> bit x 0 \<Longrightarrow> i < 32 \<Longrightarrow>
     bit (reverse_loop k x y) i = (if i < k then bit y (k - 1 - i) else bit x (i - (k - 1)))"
proof (induction k x y rule: reverse_loop.induct)
  case (2 k x y)
  have y0: "bit (y AND 1) j = (j = 0 \<and> bit y 0)" for j by (auto simp: bit_and_iff bit_1_iff)
  show ?case
  proof (cases "k = 0")
    case True
    then show ?thesis using 2(3,4) by (auto simp: bit_or_iff y0)
  next
    case False
    then have "bit (reverse_loop k (push_bit 1 (x OR y AND 1)) (drop_bit 1 y)) i =
        (if i < k then bit (drop_bit 1 y) (k - 1 - i) else bit (push_bit 1 (x OR y AND 1)) (i - (k - 1)))"
      using 2(4) shl_one_bit [of "x OR y AND 1" 0] by (intro 2(1)) simp_all
    also have "\<dots> = (if i < Suc k then bit y (k - i) else bit x (i - k))"
      using False 2(3,4) unfolding shl_one_bit bit_drop_bit_eq bit_or_iff y0 comp_def
      by (auto simp: Suc_diff_le le_Suc_eq not_less Suc_diff_Suc)
    finally have "bit (reverse_loop k (push_bit 1 (x OR y AND 1)) (drop_bit 1 y)) i =
        (if i < Suc k then bit y (k - i) else bit x (i - k))" .
    moreover have "reverse_loop (Suc k) x y = reverse_loop k (push_bit 1 (x OR y AND 1)) (drop_bit 1 y)"
      unfolding reverse_loop.simps(2) Let_def using False by (intro if_P) simp
    ultimately show ?thesis by (simp only: diff_Suc_1)
  qed
qed simp

lemma reversed_bits: "0 < n \<Longrightarrow> n \<le> 32 \<Longrightarrow> bits_of n (reverse_loop n 0 x) = msb_first n x"
  by (rule nth_equalityI) (simp_all add: bits_of_def msb_first_nth reverse_loop_bits)

lemma reversed_stream: "0 < n \<Longrightarrow> n \<le> 32 \<Longrightarrow> stream_bits [reverse_loop n 0 x] n = msb_first n x"
  using reversed_bits [of n x] stream_one [of n] by (simp add: bits_of_def)

text \<open>The value of bits that came in highest first.\<close>

lemma reversed_read:
  assumes "0 < length bs" "length bs \<le> 32"
  shows "msb_first (length bs) (reverse_loop (length bs) 0 (hd (pack_words bs))) = bs"
    and "length bs \<le> i \<Longrightarrow> \<not> bit (reverse_loop (length bs) 0 (hd (pack_words bs))) i"
proof -
  have h: "bit (hd (pack_words bs)) i = bs ! i" if "i < length bs" for i
    using assms that by (simp add: pack_words_def upt_conv_Cons bit_horner_sum_bit_word_iff del: upt_Suc)
  show "msb_first (length bs) (reverse_loop (length bs) 0 (hd (pack_words bs))) = bs"
    by (rule nth_equalityI) (use assms h in \<open>simp_all add: msb_first_nth reverse_loop_bits\<close>)
  show "length bs \<le> i \<Longrightarrow> \<not> bit (reverse_loop (length bs) 0 (hd (pack_words bs))) i"
    using assms bit_imp_le_length [of "reverse_loop (length bs) 0 (hd (pack_words bs))" i]
    by (cases "i < 32") (auto simp: reverse_loop_bits)
qed

section \<open>Transactions\<close>

lemma port_last_legacy [simp]:
  "s\<lparr>port := h, legacy_crc_w := x\<rparr> = s\<lparr>legacy_crc_w := x, port := h\<rparr>"
  "s\<lparr>port := h, legacy_crc_r := x\<rparr> = s\<lparr>legacy_crc_r := x, port := h\<rparr>"
  by simp_all

text \<open>The bits the unit answers from shift clock \<open>k\<close> on.\<close>

definition answers :: "wire \<Rightarrow> nat \<Rightarrow> nat \<Rightarrow> bool list" where
  "answers w k n = map (reply w) [k..<k + n]"

lemma length_answers [simp]: "length (answers w k n) = n"
  by (simp add: answers_def)

text \<open>Equality of values that have \<open>n\<close> bits is equality of their bits.\<close>

lemma msb_first_inj: "msb_first 32 x = msb_first 32 y \<Longrightarrow> x = y"
proof (rule bit_word_eqI)
  fix i assume e: "msb_first 32 x = msb_first 32 y" and "i < LENGTH(32)"
  then have "i < 32" by simp
  then show "bit x i = bit y i"
    using arg_cong [OF e, of "\<lambda>l. l ! (31 - i)"] by (simp add: msb_first_nth)
qed

context tap_cable
begin

lemma legacy_write:
  assumes "view (port s) = in_shift bs w" "0 < n" "n \<le> 32"
  shows "\<exists>h. legacy_write_stream c x n False s =
      s\<lparr>legacy_crc_w := legacy_crc (msb_first n x) (legacy_crc_w s), port := h\<rparr> \<and>
    view h = in_shift (bs @ msb_first n x) w"
  using shift_out [OF assms(1,2), of "[reverse_loop n 0 x]"] assms(2,3) reversed_stream [of n x]
  by (auto simp: legacy_write_stream_def legacy_crc_def)

lemma legacy_read:
  fixes last :: bool
  assumes "view (port s) = in_shift bs w" "0 < n" "n \<le> 32"
  defines "z \<equiv> replicate n False"
  shows "\<exists>h v cw. legacy_read_stream c 0 n last s =
      (v, s\<lparr>legacy_crc_w := cw, legacy_crc_r := legacy_crc (answers w (clocked w + length bs) n) (legacy_crc_r s), port := h\<rparr>) \<and>
    msb_first n v = answers w (clocked w + length bs) n \<and> (\<forall>i \<ge> n. \<not> bit v i) \<and>
    view h = (if last then exited (bs @ through_prefix s z) w else in_shift (bs @ z) w)"
proof -
  have z: "stream_bits [0 :: u32] n = z"
    unfolding z_def by (rule nth_equalityI) (use assms(3) in \<open>auto simp: stream_one\<close>)
  let ?bs = "answers w (clocked w + length bs) n"
  obtain h where h: "jtag_read_write_stream c [0] (int n) False last s = (APP_ERR_NONE, pack_words ?bs, s\<lparr>port := h\<rparr>)"
    "view h = (if last then exited (bs @ through_prefix s z) w else in_shift (bs @ z) w)"
    using shift_in [OF assms(1,2), of "[0]" False] shift_last_in [OF assms(1,2), of "[0]" False] assms(3) z
    by (cases last) (auto simp: answers_def)
  define v where "v = reverse_loop n 0 (hd (pack_words ?bs))"
  have v: "msb_first n v = ?bs" "n \<le> i \<Longrightarrow> \<not> bit v i" for i
    using reversed_read [of ?bs] assms(2,3) by (simp_all add: v_def)
  show ?thesis
    using h v by (auto simp: legacy_read_stream_def v_def [symmetric] legacy_crc_def intro!: exI [of _ h])
qed

text \<open>The end of every transaction: the status, then the checksum over it.\<close>

lemma status_read:
  assumes "view (port s) = in_shift bs w"
  defines "st \<equiv> answers w (clocked w + length bs) 4" and "cr \<equiv> answers w (clocked w + length bs + 4) 32"
  shows "\<exists>h status cw x. read_status c s =
      (status, cr = msb_first 32 (legacy_crc st (legacy_crc_r s)), s\<lparr>legacy_crc_w := cw, legacy_crc_r := x, port := h\<rparr>) \<and>
    (status = 0 \<longleftrightarrow> st = replicate 4 False) \<and> view h = exited (bs @ replicate 4 False @ through_prefix s (replicate 32 False)) w"
proof -
  obtain h1 status cw1 where 1: "legacy_read_stream c 0 4 False s =
      (status, s\<lparr>legacy_crc_w := cw1, legacy_crc_r := legacy_crc st (legacy_crc_r s), port := h1\<rparr>)"
    "msb_first 4 status = st" "\<forall>i \<ge> 4. \<not> bit status i" "view h1 = in_shift (bs @ replicate 4 False) w"
    using legacy_read [OF assms(1), of 4 False] unfolding st_def by auto
  let ?s1 = "s\<lparr>legacy_crc_w := cw1, legacy_crc_r := legacy_crc st (legacy_crc_r s), port := h1\<rparr>"
  obtain h2 v cw2 where 2: "legacy_read_stream c 0 32 True ?s1 =
      (v, ?s1\<lparr>legacy_crc_w := cw2, legacy_crc_r := legacy_crc cr (legacy_crc_r ?s1), port := h2\<rparr>)"
    "msb_first 32 v = cr" "view h2 = exited ((bs @ replicate 4 False) @ through_prefix ?s1 (replicate 32 False)) w"
    using legacy_read [of ?s1, unfolded port_upd, OF 1(4), of 32 True] unfolding cr_def by (auto simp: add.assoc)
  have "status = 0 \<longleftrightarrow> st = replicate 4 False"
  proof
    assume "st = replicate 4 False"
    then have "\<not> bit status j" if "j < 4" for j
      using 1(2) that msb_first_nth [of "3 - j" 4 status] by simp
    then have "\<not> bit status j" for j using 1(3) by (cases "j < 4") simp_all
    then show "status = 0" by (intro bit_word_eqI) simp
  next
    assume "status = 0"
    then show "st = replicate 4 False" unfolding 1(2) [symmetric] by (intro nth_equalityI) (simp_all add: msb_first_nth)
  qed
  moreover have "(v = legacy_crc st (legacy_crc_r s)) = (cr = msb_first 32 (legacy_crc st (legacy_crc_r s)))"
    using 2(2) msb_first_inj [of v "legacy_crc st (legacy_crc_r s)"] by auto
  ultimately show ?thesis
    using 1(1) 2(1,3) by (auto simp: read_status_def DC_STATUS_SIZE_def DBG_CRC_SIZE_def through_prefix_def)
qed

text \<open>Setting the chain, when it is not the current one.\<close>

lemma set_chain_round:
  fixes chain :: int
  assumes "tap (view (port s)) = Run_Test_Idle" "current_chain s \<noteq> chain"
  defines "w \<equiv> view (port s)"
    and "request \<equiv> msb_first 5 ((of_int chain AND 0xf) OR push_bit DC_SIZE 1)"
  defines "sent \<equiv> request @ msb_first 32 (legacy_crc request 0xffffffff)"
    and "status \<equiv> answers w (clocked w + 37) 4" and "checksum \<equiv> answers w (clocked w + 41) 32"
  defines "frame \<equiv> sent @ replicate 4 False @ through_prefix s (replicate 32 False)"
    and "crc_ok \<equiv> checksum = msb_first 32 (legacy_crc status 0xffffffff)" and "status_ok \<equiv> status = replicate 4 False"
  shows "\<exists>s'. legacy_dbg_set_chain c chain s =
      (if \<not> crc_ok then APP_ERR_CRC else if \<not> status_ok then APP_ERR_BAD_PARAM else APP_ERR_NONE, s') \<and>
    desired_chain s' = chain \<and> current_chain s' = (if crc_ok \<and> status_ok then chain else - 1) \<and>
    view (port s') = (if crc_ok \<and> status_ok then dr_scan frame w else exited frame w)"
proof -
  let ?s0 = "s\<lparr>desired_chain := chain, current_chain := - 1\<rparr>"
  obtain h1 where 1: "tap_set_shift_dr c ?s0 = (APP_ERR_NONE, ?s0\<lparr>port := h1\<rparr>)" "view h1 = in_shift [] w"
    using start_scan [of ?s0] assms(1) by (auto simp: w_def)
  let ?s1 = "?s0\<lparr>legacy_crc_w := 0xffffffff, port := h1\<rparr>"
  have c1: "legacy_crc_w ?s1 = 0xffffffff" by simp
  obtain h2 where 2: "legacy_write_stream c ((of_int chain AND 0xf) OR push_bit DC_SIZE 1) 5 False ?s1 =
      ?s1\<lparr>legacy_crc_w := legacy_crc request 0xffffffff, port := h2\<rparr>" "view h2 = in_shift request w"
    using legacy_write [of ?s1, unfolded port_upd c1, OF 1(2), of 5 "(of_int chain AND 0xf) OR push_bit DC_SIZE 1"]
    unfolding request_def by auto
  let ?s2 = "?s1\<lparr>legacy_crc_w := legacy_crc request 0xffffffff, port := h2\<rparr>"
  have c2: "legacy_crc_w ?s2 = legacy_crc request 0xffffffff" by simp
  obtain h3 cw where 3: "send_crc c ?s2 = ?s2\<lparr>legacy_crc_w := cw, port := h3\<rparr>" "view h3 = in_shift sent w"
    using legacy_write [of ?s2, unfolded port_upd c2, OF 2(2), of 32 "legacy_crc request 0xffffffff"]
    unfolding send_crc_def DBG_CRC_SIZE_def c2 sent_def by auto
  let ?s3 = "?s2\<lparr>legacy_crc_w := cw, legacy_crc_r := 0xffffffff, port := h3\<rparr>"
  have s3: "(?s2\<lparr>legacy_crc_w := cw, port := h3\<rparr>)\<lparr>legacy_crc_r := 0xffffffff\<rparr> = ?s3" "legacy_crc_r ?s3 = 0xffffffff" by simp_all
  have l: "length sent = 37" by (simp add: sent_def request_def)
  obtain h4 st cw' cr' where 4: "read_status c ?s3 = (st, crc_ok, ?s3\<lparr>legacy_crc_w := cw', legacy_crc_r := cr', port := h4\<rparr>)"
    "st = 0 \<longleftrightarrow> status_ok" "view h4 = exited frame w"
    using status_read [of ?s3, unfolded port_upd s3(2), OF 3(2)] unfolding l frame_def crc_ok_def status_ok_def status_def checksum_def
    by (auto simp: through_prefix_def add.assoc)
  let ?s4 = "?s3\<lparr>legacy_crc_w := cw', legacy_crc_r := cr', port := h4\<rparr>"
  obtain h5 where 5: "tap_exit_to_idle c (retry_ok ?s4) = (APP_ERR_NONE, (retry_ok ?s4)\<lparr>port := h5\<rparr>)" "view h5 = dr_scan frame w"
    using leave_scan [of "retry_ok ?s4" frame w] 4(3) by (auto simp: retry_ok_def)
  have start: "(snd (tap_set_shift_dr c (s\<lparr>desired_chain := chain, current_chain := - 1\<rparr>)))\<lparr>legacy_crc_w := 0xffffffff\<rparr> = ?s1"
    using 1(1) by simp
  have "legacy_dbg_set_chain c chain s =
      (case conclude c st crc_ok ?s4 of
         Inl s \<Rightarrow> legacy_dbg_set_chain c chain s
       | Inr (err, s) \<Rightarrow> (err, if err = APP_ERR_NONE then s\<lparr>current_chain := chain\<rparr> else s))"
    unfolding legacy_dbg_set_chain.simps [of c chain s] Let_def start DC_SIZE_def [symmetric]
    using assms(2) 2(1) 3(1) 4(1) s3(1) by (simp add: DC_SIZE_def)
  also have "conclude c st crc_ok ?s4 =
      Inr (if \<not> crc_ok then (APP_ERR_CRC, ?s4) else if \<not> status_ok then (APP_ERR_BAD_PARAM, ?s4) else (APP_ERR_NONE, (retry_ok ?s4)\<lparr>port := h5\<rparr>))"
    using 4(2) 5(1) by (auto simp: conclude_def)
  finally show ?thesis
    using 4(3) 5(2) by (auto simp: retry_ok_def err_defs APP_ERR_NONE_def split: if_splits)
qed

text \<open>What the same operations do when the port is in the idle state instead of the shift state: nothing is shifted.\<close>

lemma idle_clocks:
  assumes "tap w = Run_Test_Idle" "bs \<noteq> []"
  shows "tap_clocks (map (Pair False) bs) w = w"
    and "tap_clocks (with_tms tms bs) w = (if tms then w\<lparr>tap := Select_DR\<rparr> else w)"
    and "tap_reads (with_tms tms bs) w = replicate (length bs) (tdo_now w)"
proof -
  have i: "tap_clock False b w = w" for b using assms(1) by (cases w) (simp add: tap_clock_def)
  have c: "tap_clocks (map (Pair False) cs) w = w" for cs
    by (induction cs) (simp_all add: i)
  have r: "tap_reads (map (Pair False) cs) w = replicate (length cs) (tdo_now w)" for cs
    by (induction cs) (simp_all add: i)
  show "tap_clocks (map (Pair False) bs) w = w" by (rule c)
  obtain as b where bs: "bs = as @ [b]" using assms(2) by (cases bs rule: rev_cases) auto
  show "tap_clocks (with_tms tms bs) w = (if tms then w\<lparr>tap := Select_DR\<rparr> else w)"
    using assms(1) by (simp add: bs with_tms_def tap_clocks_append c i) (simp add: tap_clock_def)
  show "tap_reads (with_tms tms bs) w = replicate (length bs) (tdo_now w)"
    by (simp add: bs with_tms_def tap_reads_append c r replicate_append_same)
qed

lemma idle_write:
  assumes "tap (view (port s)) = Run_Test_Idle" "0 < n" "n \<le> 32"
  shows "\<exists>h cw. legacy_write_stream c x n False s = s\<lparr>legacy_crc_w := cw, port := h\<rparr> \<and> view h = view (port s)"
proof -
  let ?ws = "[reverse_loop n 0 x]"
  have "stream_bits ?ws n \<noteq> []" using assms(2) by (auto dest: arg_cong [where f = length])
  then obtain h where "jtag_write_stream c ?ws (int n) False s = (APP_ERR_NONE, s\<lparr>port := h\<rparr>)" "view h = view (port s)"
    using does_jtag_write_stream [OF assms(2), of ?ws s False] assms(3) idle_clocks(2) [OF assms(1), of "stream_bits ?ws n" False]
    by (auto simp: does_def)
  then show ?thesis by (auto simp: legacy_write_stream_def)
qed

lemma idle_read_write:
  assumes "tap (view (port s)) = Run_Test_Idle" "0 < n" "n \<le> 32 * length ws"
  shows "\<exists>h. jtag_read_write_stream c ws (int n) False tms s = (APP_ERR_NONE, pack_words (replicate n (tdo_now (view (port s)))), s\<lparr>port := h\<rparr>) \<and>
    view h = (if tms then (view (port s))\<lparr>tap := Select_DR\<rparr> else view (port s))"
proof -
  let ?w = "view (port s)" and ?now = "tms \<and> global_DR_prefix_bits s = 0"
  have "stream_bits ws n \<noteq> []" using assms(2) by (auto dest: arg_cong [where f = length])
  then obtain h1 where 1: "read_port (cable_read_write_stream c ws (int n) ?now) s =
      (APP_ERR_NONE, pack_words (replicate n (tdo_now ?w)), s\<lparr>port := h1\<rparr>)"
    "view h1 = (if ?now then ?w\<lparr>tap := Select_DR\<rparr> else ?w)"
    using gives_read_stream [OF assms(2,3), of s ?now] idle_clocks(2,3) [OF assms(1), of "stream_bits ws n" ?now] by (auto simp: gives_def)
  show ?thesis
  proof (cases "tms \<and> global_DR_prefix_bits s \<noteq> 0")
    case True
    let ?z = "replicate (global_DR_prefix_bits s) False"
    have "?z \<noteq> []" using True by simp
    then obtain h2 where "push_prefix c (s\<lparr>port := h1\<rparr>) = (APP_ERR_NONE, s\<lparr>port := h2\<rparr>)" "view h2 = ?w\<lparr>tap := Select_DR\<rparr>"
      using does_push_prefix [of "s\<lparr>port := h1\<rparr>"] True 1(2) idle_clocks(2) [OF assms(1), of ?z True] by (auto simp: does_def)
    then show ?thesis using True 1 unfolding jtag_read_write_stream_def by (auto simp: APP_ERR_NONE_def)
  next
    case False
    then show ?thesis using 1 unfolding jtag_read_write_stream_def by (auto simp: APP_ERR_NONE_def)
  qed
qed

lemma idle_read:
  assumes "tap (view (port s)) = Run_Test_Idle" "0 < n" "n \<le> 32"
  shows "\<exists>h v cw. legacy_read_stream c 0 n tms s =
      (v, s\<lparr>legacy_crc_w := cw, legacy_crc_r := legacy_crc (replicate n (tdo_now (view (port s)))) (legacy_crc_r s), port := h\<rparr>) \<and>
    msb_first n v = replicate n (tdo_now (view (port s))) \<and>
    view h = (if tms then (view (port s))\<lparr>tap := Select_DR\<rparr> else view (port s))"
proof -
  let ?bs = "replicate n (tdo_now (view (port s)))"
  obtain h where h: "jtag_read_write_stream c [0] (int n) False tms s = (APP_ERR_NONE, pack_words ?bs, s\<lparr>port := h\<rparr>)"
    "view h = (if tms then (view (port s))\<lparr>tap := Select_DR\<rparr> else view (port s))"
    using idle_read_write [OF assms(1,2), of "[0]" tms] assms(3) by auto
  have "msb_first n (reverse_loop n 0 (hd (pack_words ?bs))) = ?bs" using reversed_read(1) [of ?bs] assms(2,3) by simp
  then show ?thesis using h by (auto simp: legacy_read_stream_def legacy_crc_def)
qed

end

text \<open>Four equal bits are never followed by their own checksum in 32 more of them.\<close>

lemma stuck_checksum: "replicate 32 b \<noteq> msb_first 32 (legacy_crc (replicate 4 b) 0xffffffff)"
proof
  assume a: "replicate 32 b = msb_first 32 (legacy_crc (replicate 4 b) 0xffffffff)"
  have e: "bit (legacy_crc (replicate 4 b) 0xffffffff) i = b" if "i < 32" for i
    using arg_cong [OF a, of "\<lambda>l. l ! (31 - i)"] that by (simp add: msb_first_nth)
  have r: "replicate 4 b = [b, b, b, b]" by (simp add: numeral_eq_Suc)
  have "legacy_crc [True, True, True, True] 0xffffffff = 0xfffffff0" "legacy_crc [False, False, False, False] 0xffffffff = 0xc7b0424d"
    by (simp_all add: legacy_crc_def crc_update_alt)
  then show False using e [of 0] e [of 31] unfolding r by (cases b) simp_all
qed

text \<open>A transaction started in \<^verbatim>\<open>Exit1-DR\<close>: it is not seen by the debug unit.\<close>

context tap_cable
begin

lemma status_read_idle:
  assumes "tap (view (port s)) = Run_Test_Idle" "legacy_crc_r s = 0xffffffff"
  shows "\<exists>h status cw x. read_status c s = (status, False, s\<lparr>legacy_crc_w := cw, legacy_crc_r := x, port := h\<rparr>) \<and>
    view h = (view (port s))\<lparr>tap := Select_DR\<rparr>"
proof -
  let ?b = "tdo_now (view (port s))"
  obtain h1 status cw1 where 1: "legacy_read_stream c 0 4 False s =
      (status, s\<lparr>legacy_crc_w := cw1, legacy_crc_r := legacy_crc (replicate 4 ?b) 0xffffffff, port := h1\<rparr>)" "view h1 = view (port s)"
    using idle_read [OF assms(1), of 4 False] assms(2) by auto
  let ?s1 = "s\<lparr>legacy_crc_w := cw1, legacy_crc_r := legacy_crc (replicate 4 ?b) 0xffffffff, port := h1\<rparr>"
  obtain h2 v cw2 x where 2: "legacy_read_stream c 0 32 True ?s1 = (v, ?s1\<lparr>legacy_crc_w := cw2, legacy_crc_r := x, port := h2\<rparr>)"
    "msb_first 32 v = replicate 32 ?b" "view h2 = (view (port s))\<lparr>tap := Select_DR\<rparr>"
    using idle_read [of ?s1 32 True] assms(1) 1(2) by auto
  have "v \<noteq> legacy_crc (replicate 4 ?b) 0xffffffff" using 2(2) stuck_checksum [of ?b] by metis
  then show ?thesis using 1(1) 2(1,3) by (auto simp: read_status_def DC_STATUS_SIZE_def DBG_CRC_SIZE_def)
qed

lemma set_chain_stranded:
  assumes "tap (view (port s)) = Exit1_DR" "current_chain s \<noteq> chain"
  defines "w \<equiv> view (port s)"
  shows "\<exists>s'. legacy_dbg_set_chain c chain s = (APP_ERR_CRC, s') \<and>
    view (port s') = w\<lparr>tap := Select_DR, scans := scans w @ [DR_Scan (shifted w)]\<rparr>"
proof -
  let ?s0 = "s\<lparr>desired_chain := chain, current_chain := - 1\<rparr>" and ?w1 = "w\<lparr>tap := Run_Test_Idle, scans := scans w @ [DR_Scan (shifted w)]\<rparr>"
  have t: "tap_clocks to_shift_dr w = ?w1"
    using assms(1) unfolding w_def [symmetric] by (simp add: to_shift_dr_def tap_clock_def)
  obtain h1 where 1: "tap_set_shift_dr c ?s0 = (APP_ERR_NONE, ?s0\<lparr>port := h1\<rparr>)" "view h1 = ?w1"
    using does_tap_set_shift_dr [of ?s0] t by (auto simp: does_def w_def)
  let ?s1 = "?s0\<lparr>legacy_crc_w := 0xffffffff, port := h1\<rparr>"
  obtain h2 cw2 where 2: "legacy_write_stream c ((of_int chain AND 0xf) OR push_bit DC_SIZE 1) 5 False ?s1 =
      ?s1\<lparr>legacy_crc_w := cw2, port := h2\<rparr>" "view h2 = ?w1"
    using idle_write [of ?s1 5 "(of_int chain AND 0xf) OR push_bit DC_SIZE 1"] 1(2) by auto
  let ?s2 = "?s1\<lparr>legacy_crc_w := cw2, port := h2\<rparr>"
  obtain h3 cw3 where 3: "send_crc c ?s2 = ?s2\<lparr>legacy_crc_w := cw3, port := h3\<rparr>" "view h3 = ?w1"
    using idle_write [of ?s2 32 cw2] 2(2) by (auto simp: send_crc_def DBG_CRC_SIZE_def)
  let ?s3 = "?s2\<lparr>legacy_crc_w := cw3, legacy_crc_r := 0xffffffff, port := h3\<rparr>"
  have s3: "(?s2\<lparr>legacy_crc_w := cw3, port := h3\<rparr>)\<lparr>legacy_crc_r := 0xffffffff\<rparr> = ?s3" by simp
  have "tap (view (port ?s3)) = Run_Test_Idle" "legacy_crc_r ?s3 = 0xffffffff" using 3(2) by simp_all
  from status_read_idle [OF this] obtain h4 st cw4 x where 4:
    "read_status c ?s3 = (st, False, ?s3\<lparr>legacy_crc_w := cw4, legacy_crc_r := x, port := h4\<rparr>)" "view h4 = ?w1\<lparr>tap := Select_DR\<rparr>"
    using 3(2) by auto
  have start: "(snd (tap_set_shift_dr c (s\<lparr>desired_chain := chain, current_chain := - 1\<rparr>)))\<lparr>legacy_crc_w := 0xffffffff\<rparr> = ?s1"
    using 1(1) by simp
  have "legacy_dbg_set_chain c chain s = (APP_ERR_CRC, ?s3\<lparr>legacy_crc_w := cw4, legacy_crc_r := x, port := h4\<rparr>)"
    unfolding legacy_dbg_set_chain.simps [of c chain s] Let_def start
    using assms(2) 2(1) 3(1) 4(1) s3 by (simp add: DC_SIZE_def conclude_def err_defs APP_ERR_NONE_def)
  then show ?thesis using 4(2) by simp
qed

end

text \<open>
  Selecting a chain of the legacy debug unit, on any cable, from the idle state: one data scan with the request and its checksum,
  and the outcome follows from the 36 bits the unit answers: \<^verbatim>\<open>APP_ERR_CRC\<close> unless its checksum is that of its status,
  \<^verbatim>\<open>APP_ERR_BAD_PARAM\<close> unless the status is zero, and otherwise success with the chain selected and the port idle. After
  an error no chain counts as selected and the port has been left in \<^verbatim>\<open>Exit1-DR\<close>.
\<close>

lemma legacy_set_chain_outcome:
  fixes chain :: int
  assumes "tap_cable c view" "tap (view (port s)) = Run_Test_Idle" "current_chain s \<noteq> chain"
  defines "w \<equiv> view (port s)"
    and "request \<equiv> msb_first 5 ((of_int chain AND 0xf) OR push_bit DC_SIZE 1)"
  defines "status \<equiv> answers w (clocked w + 37) 4" and "checksum \<equiv> answers w (clocked w + 41) 32"
    and "frame \<equiv> request @ msb_first 32 (legacy_crc request 0xffffffff) @ replicate 4 False @ through_prefix s (replicate 32 False)"
  defines "crc_ok \<equiv> checksum = msb_first 32 (legacy_crc status 0xffffffff)" and "status_ok \<equiv> status = replicate 4 False"
  shows "\<exists>s'. legacy_dbg_set_chain c chain s =
      (if \<not> crc_ok then APP_ERR_CRC else if \<not> status_ok then APP_ERR_BAD_PARAM else APP_ERR_NONE, s') \<and>
    desired_chain s' = chain \<and> current_chain s' = (if crc_ok \<and> status_ok then chain else - 1) \<and>
    view (port s') = (if crc_ok \<and> status_ok then dr_scan frame w else exited frame w)"
  using tap_cable.set_chain_round [OF assms(1-3)]
  unfolding w_def request_def status_def checksum_def frame_def crc_ok_def status_ok_def append_assoc .

text \<open>
  After such an error the interface stays unusable: the next attempt to select a chain, made with the port in \<^verbatim>\<open>Exit1-DR\<close>, shifts
  nothing at all and reports \<^verbatim>\<open>APP_ERR_CRC\<close> whatever the unit answers; it leaves the port in \<^verbatim>\<open>Select-DR\<close>, from where the attempt
  after it goes to \<^verbatim>\<open>Shift-IR\<close> and writes into the instruction register.
\<close>

lemma legacy_error_strands:
  assumes "tap_cable c view" "tap (view (port s)) = Exit1_DR" "current_chain s \<noteq> chain"
  shows "\<exists>s'. legacy_dbg_set_chain c chain s = (APP_ERR_CRC, s') \<and> clocked (view (port s')) = clocked (view (port s)) \<and>
    tap (view (port s')) = Select_DR \<and> tap (tap_clocks to_shift_dr (view (port s'))) = Shift_IR"
  using tap_cable.set_chain_stranded [OF assms] by (auto simp: to_shift_dr_def tap_of_clock)


text \<open>A bench whose unit answers zeros, after which no checksum matches.\<close>

lemma legacy_set_chain_outcome_witness:
  "\<exists>s'. legacy_dbg_set_chain (common_cable pin_out pin_inout) 1 bench = (APP_ERR_CRC, s') \<and>
    current_chain s' = - 1 \<and> tap (board_wire (port s')) = Exit1_DR"
proof -
  have z: "answers (board_wire (port bench)) k n = replicate n False" for k n
    by (rule nth_equalityI) (simp_all add: answers_def bench_defs)
  have "replicate 32 False \<noteq> msb_first 32 (legacy_crc (replicate 4 False) 0xffffffff)" by (rule stuck_checksum)
  then show ?thesis
    using legacy_set_chain_outcome [OF banged.tap_cable_axioms, of bench 1] unfolding z
    by (auto simp: bench_defs exited_def)
qed

lemma legacy_error_strands_witness:
  "\<exists>s'. legacy_dbg_set_chain (common_cable pin_out pin_inout) 1
      (bench\<lparr>port := \<lparr>board_wire = bench_wire\<lparr>tap := Exit1_DR\<rparr>, tck = False\<rparr>, current_chain := - 1\<rparr>) = (APP_ERR_CRC, s') \<and>
    tap (tap_clocks to_shift_dr (board_wire (port s'))) = Shift_IR"
  using legacy_error_strands [OF banged.tap_cable_axioms, of "bench\<lparr>port := \<lparr>board_wire = bench_wire\<lparr>tap := Exit1_DR\<rparr>, tck = False\<rparr>, current_chain := - 1\<rparr>" 1]
  by auto

end
