(* ===== verification/Dbg_Api_Spec.thy ===== *)
theory Dbg_Api_Spec
  imports Jtag_State_Spec Adv_Burst_Spec Legacy_Spec Monitor_Spec
begin

unbundle bit_operations_syntax

text \<open>
  The operations of the debug interface from the servers down to the wire: the ports that the servers use are instances of
  \<^verbatim>\<open>dbg_api.c\<close> on the layers below, and what goes in at the top comes out as scans.
\<close>

section \<open>The servers' ports\<close>

text \<open>
  The operations of the RSP and watchpoint servers, and those of the monitor thread. What the servers' arrays hold before a
  read is \<open>junk\<close>.
\<close>

definition jtag_port :: "debug_hw \<Rightarrow> 'h jtag_cable \<Rightarrow> host \<Rightarrow> u32 \<Rightarrow> 'h jtag debug_port" where
  "jtag_port hardware c host junk =
     \<lparr>cpu0_read = (\<lambda>adr. dbg_cpu0_read hardware c host adr junk),
      cpu0_write = dbg_cpu0_write hardware c host,
      cpu0_read_block = (\<lambda>adr count. dbg_cpu0_read_block hardware c host adr (replicate count junk) (int count)),
      cpu0_write_block = (\<lambda>adr data. dbg_cpu0_write_block hardware c host adr data (int (length data))),
      wb_read_block8 = (\<lambda>adr len. dbg_wb_read_block8 hardware c host adr (replicate (nat len) (ucast junk)) len),
      wb_write_block8 = dbg_wb_write_block8 hardware c host,
      wb_read_block32 = (\<lambda>adr len. dbg_wb_read_block32 hardware c host adr (replicate (nat len) junk) len),
      wb_write_block32 = dbg_wb_write_block32 hardware c host\<rparr>"

definition jtag_control :: "debug_hw \<Rightarrow> 'h jtag_cable \<Rightarrow> u8 \<Rightarrow> 'h jtag control_port" where
  "jtag_control hardware c junk =
     \<lparr>write_ctrl = dbg_cpu0_write_ctrl hardware c 0, read_ctrl = dbg_cpu0_read_ctrl hardware c 0 junk\<rparr>"

section \<open>The control register\<close>

lemma flushed_state: "tap_cable c view \<Longrightarrow> view (port (flushed c s)) = view (port s)"
  using tap_cable.flush [of c view "port s"] by (simp add: flushed_def)

lemma legacy_bit: "legacy_write_stream c x 1 tms s = legacy_write_stream c (x AND 1) 1 tms s"
  by (simp add: legacy_write_stream_def msb_first_def Let_def bit_and_iff bit_1_iff)

lemma legacy_ctrl_bits: "legacy_dbg_ctrl c reset stall s = legacy_dbg_ctrl c (reset AND 1) (stall AND 1) s"
  unfolding legacy_dbg_ctrl.simps [of c reset stall s] legacy_dbg_ctrl.simps [of c "reset AND 1" "stall AND 1" s]
  unfolding legacy_bit [of c reset] legacy_bit [of c stall]
  by (auto simp: Let_def split: prod.splits sum.splits)

text \<open>
  On the legacy hardware, which the Makefile selects, the processor cannot be reset: \<^verbatim>\<open>dbg_cpu0_write_ctrl\<close> passes the
  reset bit as the value two to a stream of one bit, so a value with the reset bit does exactly what the value
  without it does, on any cable and whatever the unit answers.
\<close>

lemma legacy_reset_lost:
  "dbg_cpu0_write_ctrl DBG_HW_LEGACY c adr data s = dbg_cpu0_write_ctrl DBG_HW_LEGACY c adr (data AND 1) s"
proof -
  have r: "(ucast (x AND 2) :: u32) AND 1 = 0" for x :: u8
    by (rule bit_word_eqI) (auto simp: bit_and_iff bit_ucast_iff bit_1_iff intro: gr0I)
  have s: "(data AND 1) AND 1 = data AND 1" by (rule bit_word_eqI) (auto simp: bit_and_iff)
  have l: "legacy_dbg_ctrl c (ucast (data AND 2)) x s' = legacy_dbg_ctrl c (ucast ((data AND 1) AND 2)) x s'" for x s'
    unfolding legacy_ctrl_bits [of c "ucast (data AND 2)"] legacy_ctrl_bits [of c "ucast ((data AND 1) AND 2)"] r ..
  show ?thesis unfolding dbg_cpu0_write_ctrl_def debug_hw.case legacy_write_ctrl_def l s ..
qed

text \<open>The wire once a module has been selected: unchanged when it already was, else one scan later.\<close>

definition selecting :: "int \<Rightarrow> 'h jtag \<Rightarrow> wire \<Rightarrow> wire" where
  "selecting module s w =
     (if current_chain s = module then w else dr_scan (through_prefix s [odd module, 2 \<le> module, True]) w)"

lemma module_selected:
  assumes "tap_cable c view" "tap (view (port s)) = Run_Test_Idle" "well_formed s" "module \<in> {0, 1, 2, 3}"
  shows "\<exists>s1. adbg_select_module c module s = (APP_ERR_NONE, s1) \<and> current_chain s1 = module \<and> desired_chain s1 = module \<and>
    view (port s1) = selecting module s (view (port s)) \<and> tap (view (port s1)) = Run_Test_Idle \<and>
    through_prefix s1 = through_prefix s \<and> global_xilinx_bscan s1 = global_xilinx_bscan s \<and>
    input_scratchpad_size s1 = input_scratchpad_size s \<and> output_scratchpad_size s1 = output_scratchpad_size s \<and>
    global_DR_prefix_bits s1 = global_DR_prefix_bits s \<and> global_DR_postfix_bits s1 = global_DR_postfix_bits s \<and>
    current_reg_idx s1 = current_reg_idx s"
proof (cases "current_chain s = module")
  case True
  then have "desired_chain s = module" using assms(3,4) by (auto simp: well_formed_def)
  then show ?thesis using True assms(2) tap_cable.select_module_again [OF assms(1) True] by (auto simp: selecting_def)
next
  case False
  then show ?thesis
    using tap_cable.select_module_scan [OF assms(1,2) False assms(4)] by (auto simp: selecting_def through_prefix_def fun_eq_iff)
qed

text \<open>
  On the advanced hardware \<^verbatim>\<open>dbg_cpu0_write_ctrl\<close> reaches the control register: with the port idle, after selecting the processor's
  module when needed, it makes one data scan that carries the stall bit, the reset bit and the command to write the register, and
  returns without error.
\<close>

lemma control_register_written:
  assumes "tap_cable c view" "tap (view (port s)) = Run_Test_Idle" "well_formed s"
  shows "\<exists>s'. dbg_cpu0_write_ctrl DBG_HW_ADVANCED c adr data s = (APP_ERR_NONE, s') \<and>
    view (port s') =
      dr_scan (through_prefix s ([bit data 0, bit data 1] @ ireg_bits 0 0x9)) (selecting DC_CPU0 s (view (port s)))"
proof -
  have b: "stream_bits [ucast data :: u32] 2 = [bit data 0, bit data 1]"
    by (simp add: stream_one upt_rec bit_ucast_iff)
  obtain s1 where s1: "adbg_select_module c DC_CPU0 s = (APP_ERR_NONE, s1)" "current_chain s1 = DC_CPU0" "desired_chain s1 = DC_CPU0"
    "view (port s1) = selecting DC_CPU0 s (view (port s))" "tap (view (port s1)) = Run_Test_Idle" "through_prefix s1 = through_prefix s"
    using module_selected [OF assms(1-3), of DC_CPU0] by (auto simp: adbg_defs)
  obtain h where h: "adbg_ctrl_write c 0 [ucast data] 2 s1 = (APP_ERR_NONE, (set_reg_idx 0 (retry_ok s1))\<lparr>port := h\<rparr>)"
    "view h = dr_scan (through_prefix s ([bit data 0, bit data 1] @ ireg_bits 0 0x9)) (view (port s1))"
    using tap_cable.ctrl_write_scan [OF assms(1) s1(5), of 0 2 "[ucast data]"] s1(2,3,6) b by (auto simp: adbg_defs)
  have n: "(APP_ERR_NONE \<noteq> 0) = False" by (simp add: APP_ERR_NONE_def)
  show ?thesis
    unfolding dbg_cpu0_write_ctrl_def debug_hw.case adv_write_ctrl_def s1(1) Let_def prod.case n if_False DBG_CPU0_REG_STATUS_def h(1)
    using h(2) s1(4) tap_cable.flush [OF assms(1)] by (auto simp: flushed_def)
qed

lemma bench_well_formed: "well_formed (bench\<lparr>current_chain := - 1\<rparr>)"
  by (simp add: well_formed_def bench_def DBG_MAX_MODULES_def)

text \<open>
  C10.
  Stopping the processor, from the monitor thread to the wire: when the monitor has been told that the target runs and receives the
  command \<^verbatim>\<open>S\<close> of a server, then on the advanced hardware, from any well-formed state with the port idle, the processor's
  module is selected unless it already is, and exactly one more data scan is made, which sets the stall bit and not the reset bit;
  the monitor then takes the target for stopped and tells every server so.
\<close>

theorem stall_reaches_wire:
  fixes junk :: u8
  assumes "tap_cable c view" "target_is_running m" "tap (view (port (monitor_hw m))) = Run_Test_Idle" "well_formed (monitor_hw m)"
  defines "m' \<equiv> monitor_command (jtag_control DBG_HW_ADVANCED c junk) CHR ''S'' m"
  shows "view (port (monitor_hw m')) =
      dr_scan (through_prefix (monitor_hw m) ([True, False] @ ireg_bits 0 0x9))
        (selecting DC_CPU0 (monitor_hw m) (view (port (monitor_hw m)))) \<and>
    \<not> target_is_running m' \<and> map to_server (connections m') = map (\<lambda>k. to_server k @ ''H'') (connections m)"
proof -
  obtain s' where "dbg_cpu0_write_ctrl DBG_HW_ADVANCED c 0 1 (monitor_hw m) = (APP_ERR_NONE, s')"
    "view (port s') = dr_scan (through_prefix (monitor_hw m) ([True, False] @ ireg_bits 0 0x9))
        (selecting DC_CPU0 (monitor_hw m) (view (port (monitor_hw m))))"
    using control_register_written [OF assms(1,3,4), of 0 1] by auto
  then show ?thesis
    using assms(2) by (auto simp: m'_def monitor_command_def notify_listeners_def stall_cpu_def jtag_control_def)
qed

theorem stall_reaches_wire_witness:
  "scans (board_wire (port (monitor_hw (monitor_command (jtag_control DBG_HW_ADVANCED (common_cable pin_out pin_inout) 0) CHR ''S''
      \<lparr>monitor_thread_running = True, target_is_running = True, connections = [], monitor_hw = bench\<lparr>current_chain := - 1\<rparr>\<rparr>)))) =
    [DR_Scan [True, False, True, False], DR_Scan [True, False, False, True, False, False, True, False, False]]"
  using stall_reaches_wire [OF banged.tap_cable_axioms, of "\<lparr>monitor_thread_running = True, target_is_running = True, connections = [],
       monitor_hw = bench\<lparr>current_chain := - 1\<rparr>\<rparr>" 0] bench_well_formed
  by (simp add: bench_defs adbg_defs selecting_def through_prefix_def ireg_bits_def bits_of_def upt_rec)

section \<open>The control port of the monitor thread\<close>

text \<open>
  What the wire says of the processor: the last scan either stalls it, or has read its status with the stall bit set. The status
  bit is the first one behind the devices that follow the debug unit.
\<close>

definition status_frame :: "'h jtag \<Rightarrow> bool list" where
  "status_frame s = replicate (global_DR_postfix_bits s + 2) False @ through_prefix s (replicate 5 False)"

definition wire_stalled :: "('h \<Rightarrow> wire) \<Rightarrow> 'h jtag \<Rightarrow> bool" where
  "wire_stalled view s \<longleftrightarrow>
     (let w = view (port s)
      in last (scans w) = DR_Scan (through_prefix s ([True, False] @ ireg_bits 0 0x9)) \<or>
         last (scans w) = DR_Scan (status_frame s) \<and> reply w (clocked w - (7 + global_DR_prefix_bits s)))"

definition port_ready :: "('h \<Rightarrow> wire) \<Rightarrow> 'h jtag \<Rightarrow> bool" where
  "port_ready view s \<longleftrightarrow> tap (view (port s)) = Run_Test_Idle \<and> well_formed s"

lemma control_register_read:
  assumes "tap_cable c view" "tap (view (port s)) = Run_Test_Idle" "well_formed s"
  shows "\<exists>status s'. dbg_cpu0_read_ctrl DBG_HW_ADVANCED c adr data s = (APP_ERR_NONE, status, s') \<and>
    (let w = view (port s')
     in tap w = Run_Test_Idle \<and> last (scans w) = DR_Scan (status_frame s) \<and>
        (status AND 1 \<noteq> 0) = reply w (clocked w - (7 + global_DR_prefix_bits s)))"
proof -
  obtain s1 where s1: "adbg_select_module c DC_CPU0 s = (APP_ERR_NONE, s1)" "current_chain s1 = DC_CPU0" "desired_chain s1 = DC_CPU0"
    "tap (view (port s1)) = Run_Test_Idle" "through_prefix s1 = through_prefix s"
    "global_DR_prefix_bits s1 = global_DR_prefix_bits s" "global_DR_postfix_bits s1 = global_DR_postfix_bits s"
    using module_selected [OF assms(1-3), of DC_CPU0] by (auto simp: adbg_defs)
  define w where "w = (if current_reg_idx s1 ! nat (current_chain s1) = int 0 then view (port s1)
      else dr_scan (through_prefix s1 (ireg_bits 0 0xd)) (view (port s1)))"
  let ?words = "pack_words (map (reply w) [clocked w + global_DR_postfix_bits s..<clocked w + global_DR_postfix_bits s + 2])"
  obtain s2 where s2: "adbg_ctrl_read c 0 [0] 2 s1 = (APP_ERR_NONE, ?words @ drop (length ?words) [0], s2)"
    "view (port s2) = dr_scan (status_frame s) w"
    using tap_cable.ctrl_read_scan [OF assms(1) s1(4), of 0 2 "[0]"] s1(2,3,5,7) unfolding w_def [symmetric]
    by (auto simp: adbg_defs status_frame_def)
  have b: "bit (hd ?words) 0 = reply w (clocked w + global_DR_postfix_bits s)"
    using pack_words_bit [of 0 "map (reply w) [clocked w + global_DR_postfix_bits s..<clocked w + global_DR_postfix_bits s + 2]"]
    by (simp add: hd_conv_nth pack_words_def)
  have one: "(ucast x AND 1 \<noteq> (0 :: u8)) = bit (x :: u32) 0" for x
    by (auto simp: bit_eq_iff [where ?'a = "8 word"] bit_simps bit_1_iff)
  have n: "(APP_ERR_NONE \<noteq> 0) = False" by (simp add: APP_ERR_NONE_def)
  have h: "hd (?words @ drop (length ?words) [0]) = hd ?words" by (simp add: pack_words_def)
  have "tap w = Run_Test_Idle" using s1(4) by (simp add: w_def)
  then show ?thesis
    unfolding dbg_cpu0_read_ctrl_def debug_hw.case adv_read_ctrl_def s1(1) Let_def prod.case n if_False DBG_CPU0_REG_STATUS_def s2(1) h
    using flushed_state [OF assms(1), of s2] s2(2) b one [of "hd ?words"] by (simp add: status_frame_def dr_scan_def)
qed

text \<open>
  The debug API on the advanced hardware and any cable keeps the contract of the monitor's control port, and no write fails there.
\<close>

lemma control_keeps_state:
  assumes "well_formed s"
  shows "write_ctrl (jtag_control hardware c junk) d s = (e, s') \<Longrightarrow> well_formed s' \<and> configuration s' = configuration s"
    "read_ctrl (jtag_control hardware c junk) s = (e, st, s') \<Longrightarrow> well_formed s' \<and> configuration s' = configuration s"
proof -
  have p: "proper (configuration s) s" using assms by (simp add: proper_def)
  show "write_ctrl (jtag_control hardware c junk) d s = (e, s') \<Longrightarrow> well_formed s' \<and> configuration s' = configuration s"
    using keeps_ctrl(1) [OF p, of hardware c 0 d] by (simp add: jtag_control_def proper_def)
  show "read_ctrl (jtag_control hardware c junk) s = (e, st, s') \<Longrightarrow> well_formed s' \<and> configuration s' = configuration s"
    using keeps_ctrl(2) [OF p, of hardware c 0 junk] by (simp add: jtag_control_def proper_def)
qed

lemma prefix_of_configuration:
  "configuration s' = configuration s \<Longrightarrow> through_prefix s' = through_prefix s \<and> status_frame s' = status_frame s \<and>
     global_DR_prefix_bits s' = global_DR_prefix_bits s"
  by (auto simp: configuration_def through_prefix_def status_frame_def)

lemma stall_frames:
  "through_prefix s ([b, False] @ ireg_bits 0 0x9) \<noteq> status_frame s"
  "through_prefix s ([b, False] @ ireg_bits 0 0x9) = through_prefix s ([True, False] @ ireg_bits 0 0x9) \<longleftrightarrow> b"
proof -
  have "True \<in> set (through_prefix s ([b, False] @ ireg_bits 0 0x9))" by (simp add: through_prefix_def ireg_bits_def bits_of_def upt_rec)
  moreover have "True \<notin> set (status_frame s)" by (simp add: status_frame_def through_prefix_def)
  ultimately show "through_prefix s ([b, False] @ ireg_bits 0 0x9) \<noteq> status_frame s" by metis
qed (simp add: through_prefix_def)

lemma jtag_stall_line:
  assumes "tap_cable c view"
  shows "stall_line (jtag_control DBG_HW_ADVANCED c junk) (port_ready view) (wire_stalled view)"
    "\<not> stall_failed (jtag_control DBG_HW_ADVANCED c junk) (port_ready view) s"
proof -
  let ?p = "jtag_control DBG_HW_ADVANCED c junk"
  have w: "err = APP_ERR_NONE \<and> port_ready view s' \<and> wire_stalled view s' = (d = 1)"
    if r: "port_ready view s" "d \<le> 1" "write_ctrl ?p d s = (err, s')" for s d err s'
  proof -
    have s: "tap (view (port s)) = Run_Test_Idle" "well_formed s" using r(1) by (simp_all add: port_ready_def)
    have "unat d \<le> 1" using r(2) by (simp add: word_le_nat_alt)
    then have "d = 0 \<or> d = 1" by (auto simp: word_unat_eq_iff le_Suc_eq)
    then have b: "bit d 0 = (d = 1)" "\<not> bit d (Suc 0)" by (auto simp: bit_1_iff)
    note k = control_keeps_state(1) [OF s(2) r(3)]
    from control_register_written [OF assms s, of 0 d] r(3) have "err = APP_ERR_NONE"
      and v: "view (port s') = dr_scan (through_prefix s ([d = 1, False] @ ireg_bits 0 0x9)) (selecting DC_CPU0 s (view (port s)))"
      by (auto simp: jtag_control_def b)
    moreover have "wire_stalled view s' = (d = 1)"
      using prefix_of_configuration [OF conjunct2 [OF k]] stall_frames [of s "d = 1"] by (simp add: wire_stalled_def v)
    ultimately show ?thesis using k by (simp add: port_ready_def)
  qed
  have rd: "port_ready view s' \<and> wire_stalled view s' = (status AND 1 \<noteq> 0)"
    if r: "port_ready view s" "read_ctrl ?p s = (err, status, s')" for s err status s'
  proof -
    have s: "tap (view (port s)) = Run_Test_Idle" "well_formed s" using r(1) by (simp_all add: port_ready_def)
    note k = control_keeps_state(2) [OF s(2) r(2)]
    from control_register_read [OF assms s, of 0 junk] r(2) have "tap (view (port s')) = Run_Test_Idle"
      "last (scans (view (port s'))) = DR_Scan (status_frame s)"
      "(status AND 1 \<noteq> 0) = reply (view (port s')) (clocked (view (port s')) - (7 + global_DR_prefix_bits s))"
      by (auto simp: jtag_control_def Let_def)
    then show ?thesis
      using k prefix_of_configuration [OF conjunct2 [OF k]] stall_frames(1) [of s True, symmetric]
      by (simp add: port_ready_def wire_stalled_def Let_def)
  qed
  show "stall_line ?p (port_ready view) (wire_stalled view)" unfolding stall_line_def using w rd by blast
  show "\<not> stall_failed ?p (port_ready view) s"
  proof
    assume "stall_failed ?p (port_ready view) s"
    then obtain h0 err where "port_ready view h0" "write_ctrl ?p 1 h0 = (err, s)" "err \<noteq> APP_ERR_NONE" by (auto simp: stall_failed_def)
    then show False using w [of h0 1 err s] by simp
  qed
qed

text \<open>
  The monitor on this port: a stall command, and then a poll, which finds the target already held for stopped; the wire has been told to
  stall the processor.
\<close>

theorem monitor_not_ahead_witness:
  "let c = jtag_control DBG_HW_ADVANCED (common_cable pin_out pin_inout) 0;
       m = target_handler_pass c Select_Timeout
             (target_handler_pass c (Select_Ready (\<lambda>i. i = 0)) (start_monitor_thread (two_servers (bench\<lparr>current_chain := - 1\<rparr>))))
   in \<not> target_is_running m \<and> wire_stalled board_wire (monitor_hw m)"
proof -
  let ?c = "jtag_control DBG_HW_ADVANCED (common_cable pin_out pin_inout) 0"
  let ?start = "two_servers (bench\<lparr>current_chain := - 1\<rparr>)"
  let ?mid = "target_handler_pass ?c (Select_Ready (\<lambda>i. i = 0)) (start_monitor_thread ?start)"
  let ?last = "target_handler_pass ?c Select_Timeout ?mid"
  let ?step = "monitor_step ?c (port_ready board_wire) (wire_stalled board_wire)"
  have r: "port_ready board_wire (monitor_hw ?start)" using bench_well_formed by (simp add: port_ready_def two_servers_def bench_defs)
  have "?step\<^sup>*\<^sup>* (start_monitor_thread ?start) ?last"
    by (rule converse_rtranclp_into_rtranclp [OF monitor_step.pass r_into_rtranclp [of ?step, OF monitor_step.pass]])
  moreover have stopped: "\<not> target_is_running ?mid"
    by (simp add: target_handler_pass_def two_servers_def start_monitor_thread_def monitor_command_def notify_listeners_def
        stall_cpu_def Let_def upt_rec split: prod.split)
  then have "\<not> target_is_running ?last" by (simp add: target_handler_pass_def poll_target_def)
  ultimately show ?thesis
    using monitor_not_ahead [OF jtag_stall_line(1) [OF banged.tap_cable_axioms] r] jtag_stall_line(2) [OF banged.tap_cable_axioms]
    unfolding Let_def by blast
qed

end
