(* ===== verification/Bridge_Spec.thy ===== *)
theory Bridge_Spec
  imports Dbg_Api_Spec Rsp_Server_Spec
begin

text \<open>
  The whole bridge: packets of the debugger on one side, scans of the wire on the other, with the RSP server on the
  debug API on the chain layer on any cable.
\<close>

section \<open>Reading through the advanced interface\<close>

lemma adv_read_done:
  fixes a :: u32 and count :: int
  assumes "tap_cable c view" "tap (view (port s)) = Run_Test_Idle" "well_formed s" "\<not> global_xilinx_bscan s"
    "module \<in> {0, 1, 2, 3}" "bread_opcode module unit = Some opcode" "0 < unit" "0 < count" "count < 65536" "\<forall>n. malloc_room host n"
    "length bs = nat (count * unit)" "length data = length bs" "zeros < MAX_READ_STATUS_WAIT"
  defines "w1 \<equiv> dr_scan (through_prefix s (burst_bits opcode a count)) (selecting module s (view (port s)))"
  defines "w2 \<equiv> dr_scan (read_frame s zeros (length bs)) w1"
  assumes "unit_sends w1 zeros bs crc" "module = DC_WISHBONE \<longrightarrow> \<not> bus_error_bit s w2"
  shows "\<exists>s'. adv_read c host module unit count a data s =
      Some (if crc_of_bytes bs = crc then APP_ERR_NONE else APP_ERR_CRC, bs, s') \<and> tap (view (port s')) = Run_Test_Idle \<and>
        take (length (scans w2)) (scans (view (port s'))) = scans w2"
proof -
  obtain s1 where sel: "adbg_select_module c module s = (APP_ERR_NONE, s1)"
    and s1: "current_chain s1 = module" "desired_chain s1 = module" "view (port s1) = selecting module s (view (port s))"
      "tap (view (port s1)) = Run_Test_Idle" "through_prefix s1 = through_prefix s" "global_xilinx_bscan s1 = global_xilinx_bscan s"
      "global_DR_postfix_bits s1 = global_DR_postfix_bits s" "current_reg_idx s1 = current_reg_idx s"
    using module_selected [OF assms(1-3,5)] by auto
  have w: "dr_scan (through_prefix s1 (burst_bits opcode a count)) (view (port s1)) = w1" by (simp add: w1_def s1)
  have b: "bus_error_bit s1 x = bus_error_bit s x" for x by (simp add: bus_error_bit_def s1)
  have f: "read_frame s1 zeros (length bs) = read_frame s zeros (length bs)" by (simp add: read_frame_def s1)
  have i: "tap w2 = Run_Test_Idle" by (simp add: w2_def)
  have r: "\<exists>s'. adbg_wb_burst_read c (malloc_room host) (ulong_bytes host) unit count a s1 =
      (if crc_of_bytes bs = crc then APP_ERR_NONE else APP_ERR_CRC, Some bs, s') \<and> tap (view (port s')) = Run_Test_Idle \<and>
        take (length (scans w2)) (scans (view (port s'))) = scans w2"
    using burst_read_done [of c view s1 unit opcode count "malloc_room host" bs zeros a crc "ulong_bytes host"] assms s1
      i
    unfolding w b f w2_def [symmetric] by (cases "crc_of_bytes bs = crc") (auto simp: fits_scratch_def)
  have n: "(APP_ERR_NONE \<noteq> 0) = False" by (simp add: APP_ERR_NONE_def)
  show ?thesis
    using r assms(12) tap_cable.flush [OF assms(1)]
    unfolding adv_read_def on_module_def sel Let_def prod.case n if_False by (auto simp: overwrite_def flushed_def)
qed

text \<open>
  C11.
  Reading memory from the debugger to the wire: an \<^verbatim>\<open>m\<close> packet to the server on the advanced interface, in any well-formed state
  with the port idle, puts on the wire the selection of the bus module, if another was selected, the burst command for exactly the address
  and the number of bytes of the packet, and the scan that takes the answer of the debug unit. The debugger is sent the bytes of the
  unit, digit by digit, when their checksum is right, and an error otherwise; it is answered once in either case, and the port is idle
  again.
\<close>

theorem debugger_reads_memory:
  fixes a :: u32 and s :: "'h jtag bridge" and host :: host
  assumes "tap_cable c view" "tap (view (port (hw s))) = Run_Test_Idle" "well_formed (hw s)" "\<not> global_xilinx_bscan (hw s)"
    "client_sends (mem_head CHR ''m'' a (length bs)) rest s" "\<not> target_running s" "bs \<noteq> []" "2 * length bs < GDB_BUF_MAX"
    "\<forall>n. malloc_room host n" "zeros < MAX_READ_STATUS_WAIT"
  defines "w1 \<equiv> dr_scan (through_prefix (hw s) (burst_bits DBG_WB_CMD_BREAD8 a (int (length bs))))
      (selecting DC_WISHBONE (hw s) (view (port (hw s))))"
  defines "w2 \<equiv> dr_scan (read_frame (hw s) zeros (length bs)) w1"
  assumes "unit_sends w1 zeros bs crc" "\<not> bus_error_bit (hw s) w2"
  shows "\<exists>s'. rsp_client_request (jtag_port DBG_HW_ADVANCED c host junk) s = Some s' \<and>
    outgoing (link s') = outgoing (link s) @ ''+'' @
      frame_text (if crc_of_bytes bs = crc then concat (map hex_byte bs) else ''E01'') \<and>
    incoming (link s') = rest \<and> tap (view (port (hw s'))) = Run_Test_Idle \<and>
    take (length (scans w2)) (scans (view (port (hw s')))) = scans w2"
proof -
  let ?p = "jtag_port DBG_HW_ADVANCED c host junk" and ?n = "int (length bs)"
  have n: "0 < ?n" "?n < 65536" using assms(7,8) by (simp_all add: GDB_BUF_MAX_def)
  obtain s1 where r: "adv_read c host DC_WISHBONE 1 ?n a (replicate (length bs) (ucast junk)) (hw s) =
      Some (if crc_of_bytes bs = crc then APP_ERR_NONE else APP_ERR_CRC, bs, s1)"
    and wire: "tap (view (port s1)) = Run_Test_Idle" "take (length (scans w2)) (scans (view (port s1))) = scans w2"
    using adv_read_done [OF assms(1-4) _ _ _ n assms(9), of DC_WISHBONE 1 DBG_WB_CMD_BREAD8 bs "replicate (length bs) (ucast junk)"
        zeros a crc] assms(10,13,14) unfolding w1_def w2_def
    by (auto simp: bread_opcode_def adbg_defs)
  have "wb_read_block8 ?p a ?n (hw s) = Some (if crc_of_bytes bs = crc then APP_ERR_NONE else APP_ERR_CRC, bs, s1)"
    using r n(1) by (simp add: jtag_port_def dbg_wb_read_block8_def)
  from read_memory [OF assms(5,6,8) this refl] wire show ?thesis
    by (auto simp: replied_def requested_def APP_ERR_NONE_def APP_ERR_CRC_def)
qed

lemma hd_of_take: "take (Suc n) xs = y # ys \<Longrightarrow> hd xs = y"
  by (cases xs) simp_all

theorem debugger_reads_memory_witness:
  "\<exists>s'. rsp_client_request (jtag_port DBG_HW_ADVANCED (common_cable pin_out pin_inout)
        \<lparr>malloc_room = (\<lambda>_. True), ulong_bytes = 8, behind = (\<lambda>_. 0)\<rparr> 0)
      (stopped_bridge (raw_frame (mem_head CHR ''m'' 0x100 2) @ ''+'')
        (bench_sending (replicate 3 False @ [True] @ bytes_bits [0x12, 0x3f] @ bits_of 32 (crc_of_bytes [0x12, 0x3f])))) = Some s' \<and>
    outgoing (link s') = ''+'' @ frame_text ''123f'' \<and>
    hd (scans (board_wire (port (hw s')))) = DR_Scan (burst_bits DBG_WB_CMD_BREAD8 0x100 2 @ [False])"
proof -
  define h where "h = bench_sending (replicate 3 False @ [True] @ bytes_bits [0x12, 0x3f] @ bits_of 32 (crc_of_bytes [0x12, 0x3f]))"
  let ?s = "stopped_bridge (raw_frame (mem_head CHR ''m'' 0x100 2) @ ''+'') h"
  define w where "w = dr_scan (through_prefix h (burst_bits DBG_WB_CMD_BREAD8 0x100 2)) (selecting DC_WISHBONE h (board_wire (port h)))"
  have h: "tap (board_wire (port h)) = Run_Test_Idle" "\<not> global_xilinx_bscan h" "selecting DC_WISHBONE h x = x" for x
    by (simp_all add: h_def selecting_def adbg_defs)
  have wf: "well_formed h" by (simp add: h_def bench_sending_def bench_def well_formed_def DBG_MAX_MODULES_def)
  have sends: "unit_sends w 3 [0x12, 0x3f] (crc_of_bytes [0x12, 0x3f])"
    unfolding w_def h(3) unfolding h_def by (rule bench_sends) simp_all
  have e: "\<not> bus_error_bit h (dr_scan (read_frame h 3 2) w)"
    by (simp add: bus_error_bit_def Let_def bench_sending_def bench_defs through_prefix_def burst_bits_def read_frame_def h_def w_def
        selecting_def adbg_defs)
  have c: "client_sends (mem_head CHR ''m'' 0x100 2) [] ?s" by code_simp
  have t: "concat (map hex_byte [0x12, 0x3f]) = ''123f''" by code_simp
  have f: "hw ?s = h" "\<not> target_running ?s" "outgoing (link ?s) = []" by (simp_all add: stopped_bridge_def)
  have l: "length [0x12, 0x3f :: u8] = 2" by simp
  have "\<exists>s'. rsp_client_request (jtag_port DBG_HW_ADVANCED (common_cable pin_out pin_inout)
          \<lparr>malloc_room = (\<lambda>_. True), ulong_bytes = 8, behind = (\<lambda>_. 0)\<rparr> 0) ?s = Some s' \<and>
      outgoing (link s') = outgoing (link ?s) @ ''+'' @
        frame_text (if crc_of_bytes [0x12, 0x3f] = crc_of_bytes [0x12, 0x3f] then concat (map hex_byte [0x12, 0x3f]) else ''E01'') \<and>
      incoming (link s') = [] \<and> tap (board_wire (port (hw s'))) = Run_Test_Idle \<and>
      take (length (scans (dr_scan (read_frame h 3 2) w))) (scans (board_wire (port (hw s')))) = scans (dr_scan (read_frame h 3 2) w)"
    by (rule debugger_reads_memory [OF banged.tap_cable_axioms, where zeros = 3 and a = "0x100" and s = ?s and bs = "[0x12, 0x3f]",
        unfolded f(1) l of_nat_numeral, folded w_def])
      (use h(1,2) wf sends e c f(2) in \<open>simp_all add: w_def MAX_READ_STATUS_WAIT_def GDB_BUF_MAX_def\<close>)
  moreover have "scans w = [DR_Scan (burst_bits DBG_WB_CMD_BREAD8 0x100 2 @ [False])]"
    unfolding w_def h(3) by (simp add: h_def bench_sending_def bench_defs through_prefix_def)
  ultimately show ?thesis unfolding f(3) t h_def [symmetric]
    by (auto intro!: hd_of_take)
qed

section \<open>Writing through the advanced interface\<close>

lemma adv_write_done:
  fixes a :: u32
  assumes "tap_cable c view" "tap (view (port s)) = Run_Test_Idle" "well_formed s" "bs \<noteq> []" "length bs < 65536" "\<forall>n. malloc_room host n"
  defines "w1 \<equiv> dr_scan (through_prefix s (burst_bits DBG_WB_CMD_BWRITE8 a (int (length bs)))) (selecting DC_WISHBONE s (view (port s)))"
  defines "w2 \<equiv> dr_scan ([True] @ bytes_bits bs @ bits_of 32 (crc_of_bytes bs) @
      replicate (global_DR_prefix_bits s + global_DR_postfix_bits s + 2) False) w1"
    and "answered \<equiv> reply w1 (clocked w1 + answer_at s 1 (int (length bs)))"
    and "result \<equiv> adv_write c host DC_WISHBONE 1 (int (length bs)) a bs s"
  shows "(\<not> answered \<longrightarrow> result = None) \<and>
    (answered \<and> \<not> bus_error_bit s w2 \<longrightarrow>
      (\<exists>s'. result = Some (APP_ERR_NONE, s') \<and> tap (view (port s')) = Run_Test_Idle \<and>
        take (length (scans w2)) (scans (view (port s'))) = scans w2))"
proof -
  obtain s1 where sel: "adbg_select_module c DC_WISHBONE s = (APP_ERR_NONE, s1)"
    and s1: "current_chain s1 = DC_WISHBONE" "desired_chain s1 = DC_WISHBONE" "view (port s1) = selecting DC_WISHBONE s (view (port s))"
      "tap (view (port s1)) = Run_Test_Idle" "through_prefix s1 = through_prefix s" "global_DR_prefix_bits s1 = global_DR_prefix_bits s"
      "global_DR_postfix_bits s1 = global_DR_postfix_bits s" "current_reg_idx s1 = current_reg_idx s"
    using module_selected [OF assms(1-3), of DC_WISHBONE] by (auto simp: adbg_defs)
  let ?n = "int (length bs)" and ?m = "memory_of host bs"
  have p: "payload 1 ?n ?m = bs"
    by (rule nth_equalityI) (simp_all add: payload_def memory_of_def)
  have crc: "write_crc (ulong_bytes host) 1 ?n ?m = crc_of_bytes bs"
    using burst_write_checksum [of 1 ?n "ulong_bytes host" ?m] assms(4) p by simp
  have f: "write_frame s1 (ulong_bytes host) 1 ?n ?m =
      [True] @ bytes_bits bs @ bits_of 32 (crc_of_bytes bs) @ replicate (global_DR_prefix_bits s + global_DR_postfix_bits s + 2) False"
    by (simp add: write_frame_def p crc s1)
  have w: "dr_scan (through_prefix s1 (burst_bits DBG_WB_CMD_BWRITE8 a ?n)) (view (port s1)) = w1" by (simp add: w1_def s1)
  have b: "bus_error_bit s1 x = bus_error_bit s x" "answer_at s1 1 ?n = answer_at s 1 ?n" for x
    by (simp_all add: bus_error_bit_def answer_at_def s1)
  have n: "(APP_ERR_NONE \<noteq> 0) = False" by (simp add: APP_ERR_NONE_def)
  have op: "bwrite_opcode (current_chain s1) 1 = Some DBG_WB_CMD_BWRITE8" by (simp add: s1 bwrite_opcode_def)
  have pre: "current_chain s1 = desired_chain s1" "0 < ?n" "?n < 65536"
    "fits_scratch (malloc_room host) (output_scratchpad_size s1) (?n * 1 + 4)"
    using assms(4-6) s1(1,2) by (simp_all add: fits_scratch_def)
  have "(\<not> answered \<longrightarrow> adbg_wb_burst_write c (malloc_room host) (ulong_bytes host) ?m 1 ?n a s1 = None) \<and>
    (answered \<and> \<not> bus_error_bit s w2 \<longrightarrow>
      (\<exists>s'. adbg_wb_burst_write c (malloc_room host) (ulong_bytes host) ?m 1 ?n a s1 = Some (APP_ERR_NONE, s') \<and>
        tap (view (port s')) = Run_Test_Idle \<and> take (length (scans w2)) (scans (view (port s'))) = scans w2))"
    using burst_write_done [OF assms(1) s1(4) pre(1) op zero_less_one pre(2-4), where start = a and long = "ulong_bytes host" and data = ?m,
        unfolded w f b] s1(1)
    unfolding answered_def w2_def by blast
  then show ?thesis
    using tap_cable.flush [OF assms(1)]
    unfolding result_def adv_write_def on_module_def sel Let_def prod.case n if_False by (auto simp: flushed_def)
qed

text \<open>
  C12.
  Writing memory from the debugger to the wire: an \<^verbatim>\<open>M\<close> or \<^verbatim>\<open>X\<close> packet becomes the burst command and the frame with exactly the
  packet's bytes and their checksum. When the debug unit acknowledges the checksum and flags no bus error the debugger is answered
  \<^verbatim>\<open>OK\<close>, with those scans on the wire and the port idle; when it does not acknowledge it, the bridge exits and the debugger is
  never told that anything was written.
\<close>

theorem debugger_writes_memory:
  fixes a :: u32 and s :: "'h jtag bridge" and host :: host and junk :: u32
  assumes "tap_cable c view" "tap (view (port (hw s))) = Run_Test_Idle" "well_formed (hw s)"
    "client_sends (write_body binary a bs) rest s" "\<not> target_running s" "bs \<noteq> []" "length bs < 65536" "\<forall>n. malloc_room host n"
  defines "w1 \<equiv> dr_scan (through_prefix (hw s) (burst_bits DBG_WB_CMD_BWRITE8 a (int (length bs))))
      (selecting DC_WISHBONE (hw s) (view (port (hw s))))"
  defines "w2 \<equiv> dr_scan ([True] @ bytes_bits bs @ bits_of 32 (crc_of_bytes bs) @
      replicate (global_DR_prefix_bits (hw s) + global_DR_postfix_bits (hw s) + 2) False) w1"
    and "answered \<equiv> reply w1 (clocked w1 + answer_at (hw s) 1 (int (length bs)))"
    and "result \<equiv> rsp_client_request (jtag_port DBG_HW_ADVANCED c host junk) s"
  shows "(\<not> answered \<longrightarrow> result = None) \<and>
    (answered \<and> \<not> bus_error_bit (hw s) w2 \<longrightarrow>
      (\<exists>s'. result = Some s' \<and> outgoing (link s') = outgoing (link s) @ ''+'' @ frame_text ''OK'' \<and>
        tap (view (port (hw s'))) = Run_Test_Idle \<and>
        take (length (scans w2)) (scans (view (port (hw s')))) = scans w2))"
proof -
  let ?p = "jtag_port DBG_HW_ADVANCED c host junk"
  have b: "wb_write_block8 ?p a bs (int (length bs)) (hw s) = adv_write c host DC_WISHBONE 1 (int (length bs)) a bs (hw s)"
    using assms(6) by (simp add: jtag_port_def dbg_wb_write_block8_def)
  note d = adv_write_done [OF assms(1-3,6-8), where a = a, folded b w1_def, folded w2_def answered_def]
  have "result = None" if "\<not> answered"
    unfolding result_def using d that by (intro write_memory_exits [OF assms(4,5)]) simp
  moreover have "\<exists>s'. result = Some s' \<and> outgoing (link s') = outgoing (link s) @ ''+'' @ frame_text ''OK'' \<and>
      tap (view (port (hw s'))) = Run_Test_Idle \<and> take (length (scans w2)) (scans (view (port (hw s')))) = scans w2"
    if ok: "answered" "\<not> bus_error_bit (hw s) w2"
  proof -
    obtain h where h: "wb_write_block8 ?p a bs (int (length bs)) (hw s) = Some (APP_ERR_NONE, h)" "tap (view (port h)) = Run_Test_Idle"
      "take (length (scans w2)) (scans (view (port h))) = scans w2" using d ok by blast
    from write_memory [OF assms(4,5) h(1)] h(2,3) show ?thesis
      by (auto simp: result_def replied_def requested_def)
  qed
  ultimately show ?thesis by blast
qed

theorem debugger_writes_memory_witness:
  "\<exists>s'. rsp_client_request (jtag_port DBG_HW_ADVANCED (common_cable pin_out pin_inout)
        \<lparr>malloc_room = (\<lambda>_. True), ulong_bytes = 8, behind = (\<lambda>_. 0)\<rparr> 0)
      (stopped_bridge (raw_frame (write_body False 0x100 [0x5a]) @ ''+'') (bench_answering 98)) = Some s' \<and>
    outgoing (link s') = ''+'' @ frame_text ''OK''"
proof -
  define h where "h = bench_answering 98"
  let ?s = "stopped_bridge (raw_frame (write_body False 0x100 [0x5a]) @ ''+'') h"
  define w where "w = dr_scan (through_prefix h (burst_bits DBG_WB_CMD_BWRITE8 0x100 1)) (selecting DC_WISHBONE h (board_wire (port h)))"
  have t: "tap (board_wire (port h)) = Run_Test_Idle" by (simp add: h_def bench_answering_def bench_defs)
  have wf: "well_formed h" by (simp add: h_def bench_answering_def bench_def well_formed_def DBG_MAX_MODULES_def)
  have a: "reply w (clocked w + answer_at h 1 1)"
    by (simp add: w_def h_def bench_answering_def bench_defs through_prefix_def burst_bits_def selecting_def adbg_defs answer_at_def)
  have e: "\<not> bus_error_bit h (dr_scan ([True] @ bytes_bits [0x5a] @ bits_of 32 (crc_of_bytes [0x5a]) @
      replicate (global_DR_prefix_bits h + global_DR_postfix_bits h + 2) False) w)"
    by (simp add: bus_error_bit_def Let_def w_def h_def bench_answering_def bench_defs through_prefix_def burst_bits_def selecting_def adbg_defs)
  have c: "client_sends (write_body False 0x100 [0x5a]) [] ?s" by code_simp
  have f: "hw ?s = h" "\<not> target_running ?s" "outgoing (link ?s) = []" by (simp_all add: stopped_bridge_def)
  have l: "length [0x5a :: u8] = 1" by simp
  show ?thesis
    using debugger_writes_memory [OF banged.tap_cable_axioms _ _ c f(2), where junk = 0 and host = "\<lparr>malloc_room = (\<lambda>_. True), ulong_bytes = 8, behind = (\<lambda>_. 0)\<rparr>",
        unfolded f(1,3) l of_nat_1, folded w_def] t wf a e
    unfolding h_def [symmetric] by auto
qed

end
