(* ===== verification/Jsp_Server.thy ===== *)
theory Jsp_Server
  imports Dbg_Api
begin

text \<open>
  The server of the JTAG serial port (\<^verbatim>\<open>jsp_server.c\<close>): characters between a telnet client and the serial port of the
  debug unit, through a ring buffer in each direction.

  The results of the system calls are arguments: what \<^verbatim>\<open>recv\<close> stores, how much \<^verbatim>\<open>send\<close> takes (\<open>None\<close> is the
  result \<open>-1\<close>), what \<^verbatim>\<open>select\<close> finds ready. The transaction with the hardware, \<^verbatim>\<open>dbg_serial_sndrcv\<close>, is an argument of the
  passes of the server, with the state \<open>'d\<close> of all that is behind it.
\<close>

section \<open>Buffers\<close>

definition JSP_BUFFER_SIZE :: int where "JSP_BUFFER_SIZE = 256"

text \<open>A buffer with its read and write index and the number of characters in it: \<^verbatim>\<open>jsp_tohw\<close> and \<^verbatim>\<open>jsp_fromhw\<close>.\<close>

record ring =
  ring_buf :: "u8 list"
  rd_idx :: int
  wr_idx :: int
  ring_count :: int

definition ring_clear :: "ring \<Rightarrow> ring" where
  "ring_clear r = r\<lparr>rd_idx := 0, wr_idx := 0, ring_count := 0\<rparr>"

text \<open>The room from the write index on that does not wrap around, and characters received into it.\<close>

definition space_available :: "ring \<Rightarrow> int" where
  "space_available r =
     (let n = JSP_BUFFER_SIZE - wr_idx r
      in if n > JSP_BUFFER_SIZE - ring_count r then JSP_BUFFER_SIZE - ring_count r else n)"

definition ring_store :: "u8 list \<Rightarrow> ring \<Rightarrow> ring" where
  "ring_store data r =
     r\<lparr>ring_buf := take (nat (wr_idx r)) (ring_buf r) @ data @ drop (nat (wr_idx r) + length data) (ring_buf r),
       wr_idx := (wr_idx r + int (length data)) mod JSP_BUFFER_SIZE,
       ring_count := ring_count r + int (length data)\<rparr>"

text \<open>The characters from the read index on that do not wrap around, and the removal of those that have been used.\<close>

definition bytes_available :: "ring \<Rightarrow> int" where
  "bytes_available r =
     (if ring_count r > JSP_BUFFER_SIZE - rd_idx r then JSP_BUFFER_SIZE - rd_idx r else ring_count r)"

definition ring_drop :: "nat \<Rightarrow> ring \<Rightarrow> ring" where
  "ring_drop n r = r\<lparr>ring_count := ring_count r - int n, rd_idx := (rd_idx r + int n) mod JSP_BUFFER_SIZE\<rparr>"

text \<open>One character from the hardware; the count is not looked at.\<close>

definition ring_put :: "u8 \<Rightarrow> ring \<Rightarrow> ring" where
  "ring_put b r =
     r\<lparr>ring_buf := (ring_buf r)[nat (wr_idx r) := b], wr_idx := (wr_idx r + 1) mod JSP_BUFFER_SIZE,
       ring_count := ring_count r + 1\<rparr>"

section \<open>State\<close>

record jsp =
  jsp_tohw :: ring
  jsp_fromhw :: ring
  jsp_target_is_running :: bool
  jsp_client_open :: bool

text \<open>A new client: the indices are set back, the characters in the buffers stay.\<close>

definition jsp_accept :: "bool \<Rightarrow> jsp \<Rightarrow> jsp" where
  "jsp_accept accepted s =
     (if accepted
      then s\<lparr>jsp_tohw := ring_clear (jsp_tohw s), jsp_fromhw := ring_clear (jsp_fromhw s), jsp_client_open := True\<rparr>
      else s\<lparr>jsp_client_open := False\<rparr>)"

definition jsp_client_close :: "jsp \<Rightarrow> jsp" where
  "jsp_client_close s = s\<lparr>jsp_client_open := False\<rparr>"

section \<open>Transfers\<close>

text \<open>Twice, because the free part of the buffer may wrap around; a failed \<^verbatim>\<open>recv\<close> ends the function.\<close>

definition jsp_queue_data_from_client :: "u8 list option \<Rightarrow> u8 list option \<Rightarrow> jsp \<Rightarrow> jsp" where
  "jsp_queue_data_from_client recv1 recv2 s =
     (case recv1 of
        None \<Rightarrow> s
      | Some data \<Rightarrow>
          (let s = s\<lparr>jsp_tohw := ring_store data (jsp_tohw s)\<rparr>
           in case recv2 of
                None \<Rightarrow> s
              | Some data \<Rightarrow> s\<lparr>jsp_tohw := ring_store data (jsp_tohw s)\<rparr>))"

text \<open>One \<^verbatim>\<open>send\<close> of the part that does not wrap around: what the client gets, and the buffer.\<close>

definition send_once :: "nat option \<Rightarrow> ring \<Rightarrow> u8 list \<times> ring" where
  "send_once bytes_written r =
     (if ring_count r > 0 then
        (case bytes_written of
           None \<Rightarrow> ([], r)
         | Some n \<Rightarrow> (take n (take (nat (bytes_available r)) (drop (nat (rd_idx r)) (ring_buf r))), ring_drop n r))
      else ([], r))"

definition jsp_send_data_to_client :: "nat option \<Rightarrow> nat option \<Rightarrow> jsp \<Rightarrow> u8 list \<times> jsp" where
  "jsp_send_data_to_client send1 send2 s =
     (let (out1, r) = send_once send1 (jsp_fromhw s);
          (out2, r) = send_once send2 r
      in (out1 @ out2, s\<lparr>jsp_fromhw := r\<rparr>))"

text \<open>Up to eight characters from the read index on.\<close>

definition sendbuf :: "ring \<Rightarrow> u8 list" where
  "sendbuf r =
     map (\<lambda>i. ring_buf r ! nat ((rd_idx r + int i) mod JSP_BUFFER_SIZE)) [0..<nat (min (ring_count r) 8)]"

definition jsp_hardware_transact ::
  "(u8 list \<Rightarrow> 'd \<Rightarrow> u32 \<times> (nat \<times> u8 list) option \<times> 'd) \<Rightarrow> jsp \<times> 'd \<Rightarrow> (u8 list \<times> u8 list) \<times> jsp \<times> 'd" where
  "jsp_hardware_transact sndrcv sd =
     (let (s, d) = sd;
          data = sendbuf (jsp_tohw s);
          (ret, r, d) = sndrcv data d
      in case r of
           None \<Rightarrow> (([], []), s, d)
         | Some (bytes_sent, rcvbuf) \<Rightarrow>
             if ret \<noteq> APP_ERR_NONE then (([], []), s, d)
             else ((take bytes_sent data, rcvbuf),
                   s\<lparr>jsp_tohw := ring_drop bytes_sent (jsp_tohw s), jsp_fromhw := fold ring_put rcvbuf (jsp_fromhw s)\<rparr>, d))"

section \<open>The server\<close>

text \<open>The character of the monitor thread says whether the target runs.\<close>

definition jsp_monitor_status :: "char option \<Rightarrow> jsp \<Rightarrow> jsp" where
  "jsp_monitor_status cmd s =
     (case cmd of
        None \<Rightarrow> s
      | Some c \<Rightarrow> if c = CHR ''H'' then s\<lparr>jsp_target_is_running := False\<rparr>
                  else if c = CHR ''R'' then s\<lparr>jsp_target_is_running := True\<rparr> else s)"

text \<open>
  What one pass of the loop of \<^verbatim>\<open>jsp_server\<close> finds: the descriptors \<^verbatim>\<open>select\<close> reports as ready, with the result of reading the pipe and
  of the two \<^verbatim>\<open>recv\<close>, and the results of the two \<^verbatim>\<open>send\<close>.
\<close>

record jsp_io =
  pipe_ready :: "char option option"
  client_ready :: "(u8 list option \<times> u8 list option) option"
  send_results :: "nat option \<times> nat option"

text \<open>What one pass moves.\<close>

record jsp_log =
  from_client :: "u8 list"
  to_hardware :: "u8 list"
  from_hardware :: "u8 list"
  to_client :: "u8 list"

definition recv_data :: "(u8 list option \<times> u8 list option) option \<Rightarrow> u8 list" where
  "recv_data ready =
     (case ready of
        Some (Some data, Some data') \<Rightarrow> data @ data'
      | Some (Some data, None) \<Rightarrow> data
      | _ \<Rightarrow> [])"

definition jsp_pass ::
  "(u8 list \<Rightarrow> 'd \<Rightarrow> u32 \<times> (nat \<times> u8 list) option \<times> 'd) \<Rightarrow> jsp_io \<Rightarrow> jsp \<times> 'd \<Rightarrow> jsp_log \<times> jsp \<times> 'd" where
  "jsp_pass sndrcv io sd =
     (let (s, d) = sd;
          s = (case pipe_ready io of Some cmd \<Rightarrow> jsp_monitor_status cmd s | None \<Rightarrow> s);
          s = (case client_ready io of Some (recv1, recv2) \<Rightarrow> jsp_queue_data_from_client recv1 recv2 s | None \<Rightarrow> s);
          (out, s) = jsp_send_data_to_client (fst (send_results io)) (snd (send_results io)) s;
          ((acc, rcv), s, d) = (if jsp_target_is_running s then jsp_hardware_transact sndrcv (s, d) else (([], []), s, d))
      in (\<lparr>from_client = recv_data (client_ready io), to_hardware = acc, from_hardware = rcv, to_client = out\<rparr>, s, d))"

section \<open>Welcome\<close>

text \<open>
  \<^verbatim>\<open>jsp_send_all\<close>, with the results of \<^verbatim>\<open>send\<close> still to come. Every call passes the whole text again. The result is \<open>None\<close> while the loop has
  not ended.
\<close>

fun jsp_send_all :: "string \<Rightarrow> nat \<Rightarrow> nat option list \<Rightarrow> string \<Rightarrow> (string \<times> nat option list) option" where
  "jsp_send_all buf total_sent results out =
     (if length buf \<le> total_sent then Some (out, results)
      else (case results of
              [] \<Rightarrow> None
            | None # results \<Rightarrow> Some (out, results)
            | Some bytes_sent # results \<Rightarrow>
                jsp_send_all buf (total_sent + bytes_sent) results (out @ take bytes_sent buf)))"

declare jsp_send_all.simps [simp del]

fun jsp_send_each :: "string list \<Rightarrow> nat option list \<Rightarrow> string \<Rightarrow> (string \<times> nat option list) option" where
  "jsp_send_each [] results out = Some (out, results)"
| "jsp_send_each (buf # bufs) results out =
     (case jsp_send_all buf 0 results out of None \<Rightarrow> None | Some (out, results) \<Rightarrow> jsp_send_each bufs results out)"

text \<open>The three literal texts are sent with their terminators.\<close>

definition jsp_print_welcome :: "string \<Rightarrow> string \<Rightarrow> string \<Rightarrow> nat option list \<Rightarrow> (string \<times> nat option list) option" where
  "jsp_print_welcome hostname ipstr portnum results =
     jsp_send_each
       [''Advanced Debug System JTAG Serial Port Server'' @ [CHR 0x0A, CHR 0x0D, CHR 0x00], hostname,
        '' ('' @ [CHR 0x00], ipstr, ''), port '' @ [CHR 0x00], portnum @ [CHR 0x0A, CHR 0x0A, CHR 0x0D]] results []"

end
