(* ===== verification/Jsp_Spec.thy ===== *)
theory Jsp_Spec
  imports Jsp_Server Dbg_Api_Spec
begin

text \<open>
  The buffers of the serial-port server are queues. The server moves every character from the client once and in order, in every
  session; those from the hardware until the buffer for them runs over, and then it still counts them.
\<close>

section \<open>Queues\<close>

text \<open>
  The contract of a buffer: an abstract content, room for some characters, storing at one end and removing at the other.
\<close>

locale byte_queue =
  fixes ok :: "'r \<Rightarrow> bool"
    and contents :: "'r \<Rightarrow> u8 list"
    and room :: "'r \<Rightarrow> nat"
    and store :: "u8 list \<Rightarrow> 'r \<Rightarrow> 'r"
    and remove :: "nat \<Rightarrow> 'r \<Rightarrow> 'r"
    and capacity :: nat
  assumes store_ok: "ok r \<Longrightarrow> length data \<le> room r \<Longrightarrow> ok (store data r) \<and> contents (store data r) = contents r @ data"
    and remove_ok: "ok r \<Longrightarrow> n \<le> length (contents r) \<Longrightarrow> ok (remove n r) \<and> contents (remove n r) = drop n (contents r)"
    and room_ok: "ok r \<Longrightarrow> length (contents r) + room r \<le> capacity \<and> (length (contents r) < capacity \<longrightarrow> 0 < room r)"
begin

lemma store_each:
  "ok r \<Longrightarrow> length (contents r) + length data \<le> capacity \<Longrightarrow>
   ok (fold (\<lambda>b. store [b]) data r) \<and> contents (fold (\<lambda>b. store [b]) data r) = contents r @ data"
proof (induction data arbitrary: r)
  case (Cons b data)
  have "length [b] \<le> room r" using room_ok [OF Cons.prems(1)] Cons.prems(2) by (simp add: Suc_le_eq)
  from store_ok [OF Cons.prems(1) this] Cons.IH [of "store [b] r"] Cons.prems(2) show ?case by simp
qed simp

lemma remove_splits: "ok r \<Longrightarrow> n \<le> length (contents r) \<Longrightarrow> take n (contents r) @ contents (remove n r) = contents r"
  by (simp add: remove_ok)

end

section \<open>The ring buffer is a queue\<close>

definition ring_ok :: "ring \<Rightarrow> bool" where
  "ring_ok r \<longleftrightarrow> length (ring_buf r) = 256 \<and> 0 \<le> rd_idx r \<and> rd_idx r < 256 \<and> 0 \<le> ring_count r \<and> ring_count r \<le> 256 \<and>
     wr_idx r = (rd_idx r + ring_count r) mod 256"

definition ring_contents :: "ring \<Rightarrow> u8 list" where
  "ring_contents r = map (\<lambda>i. ring_buf r ! ((nat (rd_idx r) + i) mod 256)) [0..<nat (ring_count r)]"

lemma length_ring_contents [simp]: "length (ring_contents r) = nat (ring_count r)"
  by (simp add: ring_contents_def)

lemma ring_wr: "ring_ok r \<Longrightarrow> nat (wr_idx r) = (nat (rd_idx r) + nat (ring_count r)) mod 256"
  by (simp add: ring_ok_def nat_mod_distrib nat_add_distrib)

lemma wr_range: "ring_ok r \<Longrightarrow> 0 \<le> wr_idx r \<and> wr_idx r < 256"
  by (simp add: ring_ok_def)

lemma space_room:
  assumes "ring_ok r" "int n \<le> space_available r"
  shows "nat (wr_idx r) + n \<le> 256" "nat (ring_count r) + n \<le> 256"
  using assms wr_range [OF assms(1)] by (auto simp: space_available_def ring_ok_def JSP_BUFFER_SIZE_def Let_def split: if_splits)

lemma mod_apart:
  assumes "(a + i) mod 256 = (a + j) mod (256 :: nat)" "i < 256" "j < 256"
  shows "i = j"
proof -
  have "int (a + i) mod 256 = int (a + j) mod 256" using assms(1) by (metis of_nat_mod of_nat_numeral)
  then have "256 dvd int i - int j" by (simp add: mod_eq_dvd_iff)
  moreover have "\<bar>int i - int j\<bar> < 256" using assms(2,3) by simp
  ultimately have "int i - int j = 0" by (metis abs_numeral dvd_imp_le_int not_le)
  then show ?thesis by simp
qed

lemma stored_nth:
  "w + length data \<le> length buf \<Longrightarrow> k < length buf \<Longrightarrow>
   (take w buf @ data @ drop (w + length data) buf) ! k = (if w \<le> k \<and> k < w + length data then data ! (k - w) else buf ! k)"
  by (auto simp: nth_append)

lemma ring_store_queue:
  assumes "ring_ok r" "int (length data) \<le> space_available r"
  shows "ring_ok (ring_store data r) \<and> ring_contents (ring_store data r) = ring_contents r @ data"
proof
  let ?rd = "nat (rd_idx r)" and ?wr = "nat (wr_idx r)" and ?c = "nat (ring_count r)" and ?n = "length data"
  note sp = space_room [OF assms]
  have len: "length (ring_buf r) = 256" and c0: "0 \<le> ring_count r" using assms(1) by (simp_all add: ring_ok_def)
  have wr: "?wr = (?rd + ?c) mod 256" by (rule ring_wr [OF assms(1)])
  show "ring_ok (ring_store data r)"
    using assms(1) sp by (auto simp: ring_ok_def ring_store_def JSP_BUFFER_SIZE_def mod_simps add.assoc)
  show "ring_contents (ring_store data r) = ring_contents r @ data"
  proof (rule nth_equalityI)
    show "length (ring_contents (ring_store data r)) = length (ring_contents r @ data)"
      using c0 by (simp add: ring_store_def nat_add_distrib)
  next
    fix i assume "i < length (ring_contents (ring_store data r))"
    then have i: "i < ?c + ?n" using c0 by (simp add: ring_store_def nat_add_distrib)
    let ?k = "(?rd + i) mod 256"
    have k: "ring_contents (ring_store data r) ! i = (if ?wr \<le> ?k \<and> ?k < ?wr + ?n then data ! (?k - ?wr) else ring_buf r ! ?k)"
      using i c0 stored_nth [of ?wr data "ring_buf r" ?k] sp(1) len
      by (simp add: ring_contents_def ring_store_def nat_add_distrib)
    show "ring_contents (ring_store data r) ! i = (ring_contents r @ data) ! i"
    proof (cases "i < ?c")
      case True
      have nk: "\<not> (?wr \<le> ?k \<and> ?k < ?wr + ?n)"
      proof
        assume a: "?wr \<le> ?k \<and> ?k < ?wr + ?n"
        let ?m = "?k - ?wr"
        have "(?rd + i) mod 256 = (?wr + ?m) mod 256" using a sp(1) by simp
        also have "\<dots> = (?rd + (?c + ?m)) mod 256" unfolding wr by (simp add: mod_simps add.assoc)
        finally have "i = ?c + ?m" by (rule mod_apart) (use i sp a True in linarith)+
        then show False using True by simp
      qed
      show ?thesis using True unfolding k if_not_P [OF nk] by (simp add: nth_append ring_contents_def)
    next
      case False
      then have "?rd + i = ?rd + ?c + (i - ?c)" by simp
      then have "?k = (?wr + (i - ?c)) mod 256" unfolding wr by (metis mod_add_left_eq)
      also have "\<dots> = ?wr + (i - ?c)" using False i sp(1) by (intro mod_less) simp
      finally have e: "?k = ?wr + (i - ?c)" .
      then have "?wr \<le> ?k \<and> ?k < ?wr + ?n" "?k - ?wr = i - ?c" using False i by linarith+
      then show ?thesis using False unfolding k by (simp add: nth_append)
    qed
  qed
qed

lemma ring_drop_queue:
  assumes "ring_ok r" "n \<le> length (ring_contents r)"
  shows "ring_ok (ring_drop n r) \<and> ring_contents (ring_drop n r) = drop n (ring_contents r)"
proof
  have b: "0 \<le> rd_idx r" "0 \<le> ring_count r" using assms(1) by (simp_all add: ring_ok_def)
  then have n: "int n \<le> ring_count r" using assms(2) by simp
  show "ring_ok (ring_drop n r)"
    using assms b n by (auto simp: ring_ok_def ring_drop_def JSP_BUFFER_SIZE_def mod_simps)
  have rd: "nat ((rd_idx r + int n) mod 256) = (nat (rd_idx r) + n) mod 256"
    using b by (simp add: nat_mod_distrib nat_add_distrib)
  have "ring_contents (ring_drop n r) =
      map (\<lambda>i. ring_buf r ! ((nat (rd_idx r) + (n + i)) mod 256)) [0..<nat (ring_count r) - n]"
    using b n by (simp add: ring_contents_def ring_drop_def JSP_BUFFER_SIZE_def rd mod_simps add.assoc nat_diff_distrib)
  also have "\<dots> = drop n (ring_contents r)"
    by (rule nth_equalityI) (simp_all add: ring_contents_def less_diff_conv add.commute)
  finally show "ring_contents (ring_drop n r) = drop n (ring_contents r)" .
qed

lemma ring_room:
  assumes "ring_ok r"
  shows "length (ring_contents r) + nat (space_available r) \<le> 256"
    "length (ring_contents r) < 256 \<Longrightarrow> 0 < nat (space_available r)"
  using assms wr_range [OF assms] by (auto simp: space_available_def ring_ok_def JSP_BUFFER_SIZE_def Let_def)

interpretation rings: byte_queue ring_ok ring_contents "\<lambda>r. nat (space_available r)" ring_store ring_drop 256
proof
  fix r and data :: "u8 list"
  assume r: "ring_ok r" and l: "length data \<le> nat (space_available r)"
  have "0 \<le> space_available r"
    using r wr_range [OF r] by (auto simp: space_available_def ring_ok_def JSP_BUFFER_SIZE_def Let_def)
  then show "ring_ok (ring_store data r) \<and> ring_contents (ring_store data r) = ring_contents r @ data"
    using ring_store_queue [OF r, of data] l by linarith
qed (use ring_drop_queue ring_room in blast)+

lemma put_is_store: "ring_ok r \<Longrightarrow> ring_put b r = ring_store [b] r"
proof -
  assume r: "ring_ok r"
  have "nat (wr_idx r) < length (ring_buf r)" using wr_range [OF r] r by (simp add: ring_ok_def)
  then show ?thesis by (simp add: ring_put_def ring_store_def upd_conv_take_nth_drop)
qed

section \<open>Transfers\<close>

text \<open>
  What the system promises: \<^verbatim>\<open>recv\<close> stores no more than it is given room for, \<^verbatim>\<open>send\<close> takes no more than it is offered.
\<close>

definition recv_contract :: "u8 list option \<Rightarrow> ring \<Rightarrow> bool" where
  "recv_contract data r = (case data of None \<Rightarrow> True | Some data \<Rightarrow> length data \<le> nat (space_available r))"

definition send_contract :: "nat option \<Rightarrow> ring \<Rightarrow> bool" where
  "send_contract n r = (case n of None \<Rightarrow> True | Some n \<Rightarrow> n \<le> nat (bytes_available r))"

definition io_contract :: "jsp_io \<Rightarrow> jsp \<Rightarrow> bool" where
  "io_contract io s \<longleftrightarrow>
     (case client_ready io of
        None \<Rightarrow> True
      | Some (recv1, recv2) \<Rightarrow>
          recv_contract recv1 (jsp_tohw s) \<and>
          (case recv1 of None \<Rightarrow> True | Some data \<Rightarrow> recv_contract recv2 (ring_store data (jsp_tohw s)))) \<and>
     send_contract (fst (send_results io)) (jsp_fromhw s) \<and>
     send_contract (snd (send_results io)) (snd (send_once (fst (send_results io)) (jsp_fromhw s)))"

lemma queue_data:
  assumes "ring_ok (jsp_tohw s)"
    "recv_contract recv1 (jsp_tohw s)" "case recv1 of None \<Rightarrow> True | Some data \<Rightarrow> recv_contract recv2 (ring_store data (jsp_tohw s))"
  shows "\<exists>r. jsp_queue_data_from_client recv1 recv2 s = s\<lparr>jsp_tohw := r\<rparr> \<and> ring_ok r \<and>
    ring_contents r = ring_contents (jsp_tohw s) @ recv_data (Some (recv1, recv2))"
proof (cases recv1)
  case None
  then show ?thesis using assms(1) by (intro exI [of _ "jsp_tohw s"]) (simp add: jsp_queue_data_from_client_def recv_data_def)
next
  case (Some data)
  let ?r = "ring_store data (jsp_tohw s)"
  have r: "ring_ok ?r" "ring_contents ?r = ring_contents (jsp_tohw s) @ data"
    using rings.store_ok [OF assms(1), of data] assms(2) by (simp_all add: Some recv_contract_def)
  show ?thesis
  proof (cases recv2)
    case None
    then show ?thesis using r by (intro exI [of _ ?r]) (simp add: jsp_queue_data_from_client_def recv_data_def Some)
  next
    case (Some data')
    then show ?thesis
      using rings.store_ok [OF r(1), of data'] r(2) assms(3) \<open>recv1 = Some data\<close>
      by (intro exI [of _ "ring_store data' ?r"]) (simp add: jsp_queue_data_from_client_def recv_data_def recv_contract_def)
  qed
qed

lemma available_contents:
  assumes "ring_ok r"
  shows "take (nat (bytes_available r)) (drop (nat (rd_idx r)) (ring_buf r)) = take (nat (bytes_available r)) (ring_contents r)"
proof (rule nth_equalityI)
  have b: "bytes_available r \<le> 256 - rd_idx r" "bytes_available r \<le> ring_count r" "0 \<le> bytes_available r"
    using assms by (auto simp: bytes_available_def JSP_BUFFER_SIZE_def ring_ok_def)
  have len: "length (ring_buf r) = 256" and rd: "0 \<le> rd_idx r" "rd_idx r < 256" using assms by (simp_all add: ring_ok_def)
  have l: "nat (bytes_available r) \<le> 256 - nat (rd_idx r)" "nat (bytes_available r) \<le> nat (ring_count r)" using b rd by linarith+
  then show "length (take (nat (bytes_available r)) (drop (nat (rd_idx r)) (ring_buf r))) =
      length (take (nat (bytes_available r)) (ring_contents r))" by (simp add: len)
  fix i assume "i < length (take (nat (bytes_available r)) (drop (nat (rd_idx r)) (ring_buf r)))"
  then have i: "i < nat (bytes_available r)" by simp
  then have "(nat (rd_idx r) + i) mod 256 = nat (rd_idx r) + i" using l rd by (intro mod_less) linarith
  then show "take (nat (bytes_available r)) (drop (nat (rd_idx r)) (ring_buf r)) ! i = take (nat (bytes_available r)) (ring_contents r) ! i"
    using i l rd len by (simp add: ring_contents_def)
qed

lemma send_queue:
  assumes "ring_ok r" "send_contract n r" "send_once n r = (out, r')"
  shows "ring_ok r' \<and> ring_contents r = out @ ring_contents r'"
proof (cases "ring_count r > 0 \<and> n \<noteq> None")
  case True
  then obtain k where n: "n = Some k" by blast
  have k: "k \<le> nat (bytes_available r)" using assms(2) by (simp add: send_contract_def n)
  have "bytes_available r \<le> ring_count r" by (simp add: bytes_available_def)
  then have kc: "k \<le> length (ring_contents r)" using k by simp
  have "out = take k (ring_contents r)" "r' = ring_drop k r"
    using assms(3) True available_contents [OF assms(1)] k by (simp_all add: send_once_def n min_absorb1)
  then show ?thesis using rings.remove_splits [OF assms(1) kc] rings.remove_ok [OF assms(1) kc] by simp
next
  case False
  then have "out = []" "r' = r" using assms(3) by (auto simp: send_once_def split: option.splits if_splits)
  then show ?thesis using assms(1) by simp
qed

lemma sendbuf_contents: "ring_ok r \<Longrightarrow> sendbuf r = take 8 (ring_contents r)"
proof (rule nth_equalityI)
  assume r: "ring_ok r"
  then have c: "nat (min (ring_count r) 8) = min (nat (ring_count r)) 8" by (auto simp: ring_ok_def min_def)
  then show "length (sendbuf r) = length (take 8 (ring_contents r))" by (simp add: sendbuf_def)
  fix i assume "i < length (sendbuf r)"
  moreover have "nat ((rd_idx r + int i) mod 256) = (nat (rd_idx r) + i) mod 256"
    using r by (simp add: ring_ok_def nat_mod_distrib nat_add_distrib)
  ultimately show "sendbuf r ! i = take 8 (ring_contents r) ! i"
    using c by (simp add: sendbuf_def ring_contents_def JSP_BUFFER_SIZE_def)
qed

lemma put_each:
  assumes "ring_ok r" "length (ring_contents r) + length data \<le> 256"
  shows "ring_ok (fold ring_put data r)" "ring_contents (fold ring_put data r) = ring_contents r @ data"
proof -
  have "fold ring_put data r = fold (\<lambda>b. ring_store [b]) data r"
    using assms
  proof (induction data arbitrary: r)
    case (Cons b data)
    have "length [b] \<le> nat (space_available r)" using ring_room(2) [OF Cons.prems(1)] Cons.prems(2) by (simp add: Suc_le_eq)
    from rings.store_ok [OF Cons.prems(1) this] Cons.prems(2) Cons.IH [of "ring_store [b] r"]
    show ?case by (simp add: put_is_store [OF Cons.prems(1)] del: length_ring_contents)
  qed simp
  then show "ring_ok (fold ring_put data r)" "ring_contents (fold ring_put data r) = ring_contents r @ data"
    using rings.store_each [OF assms] by simp_all
qed

section \<open>Counting when a buffer has run over\<close>

text \<open>What stays true of a buffer into which more has been put than it holds: the indices are in range, and the count counts.\<close>

definition ring_counts :: "ring \<Rightarrow> bool" where
  "ring_counts r \<longleftrightarrow> length (ring_buf r) = 256 \<and> 0 \<le> rd_idx r \<and> rd_idx r < 256 \<and> 0 \<le> wr_idx r \<and> wr_idx r < 256 \<and> 0 \<le> ring_count r"

lemma ring_ok_counts: "ring_ok r \<Longrightarrow> ring_counts r"
  using wr_range [of r] by (simp add: ring_counts_def ring_ok_def)

lemma put_counts:
  "ring_counts r \<Longrightarrow> ring_counts (fold ring_put data r) \<and> ring_count (fold ring_put data r) = ring_count r + int (length data)"
proof (induction data arbitrary: r)
  case (Cons b data)
  have "ring_counts (ring_put b r)" "ring_count (ring_put b r) = ring_count r + 1"
    using Cons.prems by (simp_all add: ring_counts_def ring_put_def JSP_BUFFER_SIZE_def)
  then show ?case using Cons.IH [of "ring_put b r"] by simp
qed simp

lemma send_counts:
  assumes "ring_counts r" "send_contract n r" "send_once n r = (out, r')"
  shows "ring_counts r' \<and> ring_count r = int (length out) + ring_count r'"
proof (cases "ring_count r > 0 \<and> n \<noteq> None")
  case True
  then obtain k where n: "n = Some k" by blast
  have k: "k \<le> nat (bytes_available r)" using assms(2) by (simp add: send_contract_def n)
  have b: "bytes_available r \<le> ring_count r" "bytes_available r \<le> 256 - rd_idx r" "0 \<le> bytes_available r"
    using assms(1) by (auto simp: bytes_available_def JSP_BUFFER_SIZE_def ring_counts_def)
  have r: "out = take k (take (nat (bytes_available r)) (drop (nat (rd_idx r)) (ring_buf r)))" "r' = ring_drop k r"
    using assms(3) True by (simp_all add: send_once_def n)
  have "nat (bytes_available r) \<le> 256 - nat (rd_idx r)" using b(2,3) assms(1) by (auto simp: ring_counts_def)
  then have "length out = k" using k assms(1) by (simp add: r(1) ring_counts_def)
  moreover have "int k \<le> ring_count r" using k b by linarith
  ultimately show ?thesis using assms(1) by (simp add: r(2) ring_drop_def ring_counts_def JSP_BUFFER_SIZE_def)
next
  case False
  then have "out = []" "r' = r" using assms(3) by (auto simp: send_once_def split: option.splits if_splits)
  then show ?thesis using assms(1) by simp
qed

section \<open>The serial unit\<close>

text \<open>The client's view of the transaction: it never reports more characters as sent than it was given.\<close>

locale serial_unit =
  fixes sndrcv :: "u8 list \<Rightarrow> 'd \<Rightarrow> u32 \<times> (nat \<times> u8 list) option \<times> 'd"
  assumes sent_bound: "sndrcv data d = (ret, Some (n, rcv), d') \<Longrightarrow> n \<le> length data"
begin

lemma transact:
  assumes "ring_ok (jsp_tohw s)" "ring_counts (jsp_fromhw s)" "jsp_hardware_transact sndrcv (s, d) = ((acc, rcv), s', d')"
  shows "ring_ok (jsp_tohw s')" "ring_contents (jsp_tohw s) = acc @ ring_contents (jsp_tohw s')"
    "jsp_fromhw s' = fold ring_put rcv (jsp_fromhw s)"
proof -
  let ?data = "sendbuf (jsp_tohw s)"
  obtain ret res d1 where e: "sndrcv ?data d = (ret, res, d1)" by (metis prod_cases3)
  have "ring_ok (jsp_tohw s') \<and> ring_contents (jsp_tohw s) = acc @ ring_contents (jsp_tohw s') \<and>
    jsp_fromhw s' = fold ring_put rcv (jsp_fromhw s)"
  proof (cases "res = None \<or> ret \<noteq> APP_ERR_NONE")
    case True
    then have "acc = []" "rcv = []" "s' = s"
      using assms(3) by (auto simp: jsp_hardware_transact_def e split: option.splits if_splits)
    then show ?thesis using assms(1) by simp
  next
    case False
    then obtain n rcv' where res: "res = Some (n, rcv')" and ret: "ret = APP_ERR_NONE" by auto
    have r: "acc = take n ?data" "rcv = rcv'"
      "s' = s\<lparr>jsp_tohw := ring_drop n (jsp_tohw s), jsp_fromhw := fold ring_put rcv' (jsp_fromhw s)\<rparr>"
      using assms(3) by (auto simp: jsp_hardware_transact_def e res ret)
    have n: "n \<le> length ?data" using sent_bound e res by blast
    then have nc: "n \<le> length (ring_contents (jsp_tohw s))" and acc: "acc = take n (ring_contents (jsp_tohw s))"
      unfolding r(1) sendbuf_contents [OF assms(1)] by (auto simp: min_absorb1)
    show ?thesis
      using rings.remove_splits [OF assms(1) nc] rings.remove_ok [OF assms(1) nc] by (simp add: r(2,3) acc)
  qed
  then show "ring_ok (jsp_tohw s')" "ring_contents (jsp_tohw s) = acc @ ring_contents (jsp_tohw s')"
    "jsp_fromhw s' = fold ring_put rcv (jsp_fromhw s)" by simp_all
qed

end

interpretation debug_serial: serial_unit "dbg_serial_sndrcv c"
  by unfold_locales
    (auto simp: dbg_serial_sndrcv_def adbg_jsp_transact_def Let_def split: prod.splits if_splits)

section \<open>Sessions\<close>

lemma send_data:
  assumes "send_contract n1 (jsp_fromhw s)" "send_contract n2 (snd (send_once n1 (jsp_fromhw s)))"
    "jsp_send_data_to_client n1 n2 s = (out, s')" "ring_counts (jsp_fromhw s)"
  shows "\<exists>r. s' = s\<lparr>jsp_fromhw := r\<rparr> \<and> ring_counts r \<and> ring_count (jsp_fromhw s) = int (length out) + ring_count r \<and>
    (ring_ok (jsp_fromhw s) \<longrightarrow> ring_ok r \<and> ring_contents (jsp_fromhw s) = out @ ring_contents r)"
proof -
  obtain out1 r1 where 1: "send_once n1 (jsp_fromhw s) = (out1, r1)" by fastforce
  obtain out2 r2 where 2: "send_once n2 r1 = (out2, r2)" by fastforce
  have n2: "send_contract n2 r1" using assms(2) by (simp add: 1)
  note c1 = send_counts [OF assms(4,1) 1]
  note c2 = send_counts [OF conjunct1 [OF c1] n2 2]
  have "ring_ok r2 \<and> ring_contents (jsp_fromhw s) = (out1 @ out2) @ ring_contents r2" if "ring_ok (jsp_fromhw s)"
    using send_queue [OF that assms(1) 1] send_queue [OF _ n2 2] by simp
  then show ?thesis
    using assms(3) c1 c2 by (intro exI [of _ r2]) (auto simp: jsp_send_data_to_client_def 1 2)
qed

lemma status_keeps_rings:
  "jsp_tohw (jsp_monitor_status cmd s) = jsp_tohw s" "jsp_fromhw (jsp_monitor_status cmd s) = jsp_fromhw s"
  by (simp_all add: jsp_monitor_status_def split: option.split)

text \<open>The first part of a pass, which fills the buffer for the hardware.\<close>

lemma queued:
  assumes "ring_ok (jsp_tohw s)" "io_contract io s" "jsp_tohw s1 = jsp_tohw s" "jsp_fromhw s1 = jsp_fromhw s"
  defines "s2 \<equiv> case client_ready io of Some (recv1, recv2) \<Rightarrow> jsp_queue_data_from_client recv1 recv2 s1 | None \<Rightarrow> s1"
  shows "ring_ok (jsp_tohw s2) \<and> ring_contents (jsp_tohw s2) = ring_contents (jsp_tohw s) @ recv_data (client_ready io) \<and>
    jsp_fromhw s2 = jsp_fromhw s"
proof (cases "client_ready io")
  case None
  then show ?thesis using assms(1,3,4) by (simp add: s2_def recv_data_def)
next
  case (Some rr)
  obtain a b where rr: "rr = (a, b)" by fastforce
  have "\<exists>r. jsp_queue_data_from_client a b s1 = s1\<lparr>jsp_tohw := r\<rparr> \<and> ring_ok r \<and>
      ring_contents r = ring_contents (jsp_tohw s1) @ recv_data (Some (a, b))"
    by (rule queue_data, unfold assms(3)) (use assms(1,2) in \<open>simp_all add: io_contract_def Some rr\<close>)
  then show ?thesis unfolding s2_def Some rr option.case prod.case assms(3) using assms(4) by fastforce
qed

context serial_unit
begin

text \<open>
  One pass: the characters of the client are never lost; those of the hardware are counted, and none is lost when the count does not
  exceed the size of the buffer at the end of the pass, where it is highest.
\<close>

lemma pass_conserves:
  assumes "ring_ok (jsp_tohw s)" "ring_counts (jsp_fromhw s)" "jsp_pass sndrcv io (s, d) = (log, s', d')" "io_contract io s"
  shows "ring_ok (jsp_tohw s') \<and> ring_contents (jsp_tohw s) @ from_client log = to_hardware log @ ring_contents (jsp_tohw s') \<and>
    ring_counts (jsp_fromhw s') \<and>
    ring_count (jsp_fromhw s) + int (length (from_hardware log)) = int (length (to_client log)) + ring_count (jsp_fromhw s') \<and>
    (ring_ok (jsp_fromhw s) \<and> ring_count (jsp_fromhw s') \<le> JSP_BUFFER_SIZE \<longrightarrow>
       ring_ok (jsp_fromhw s') \<and> ring_contents (jsp_fromhw s) @ from_hardware log = to_client log @ ring_contents (jsp_fromhw s'))"
proof -
  let ?s1 = "case pipe_ready io of Some cmd \<Rightarrow> jsp_monitor_status cmd s | None \<Rightarrow> s"
  let ?s2 = "case client_ready io of Some (recv1, recv2) \<Rightarrow> jsp_queue_data_from_client recv1 recv2 ?s1 | None \<Rightarrow> ?s1"
  have r1: "jsp_tohw ?s1 = jsp_tohw s" "jsp_fromhw ?s1 = jsp_fromhw s"
    by (auto simp: status_keeps_rings split: option.split)
  have 2: "ring_ok (jsp_tohw ?s2)" "ring_contents (jsp_tohw ?s2) = ring_contents (jsp_tohw s) @ recv_data (client_ready io)"
    "jsp_fromhw ?s2 = jsp_fromhw s"
    using queued [OF assms(1,4) r1] by blast+
  obtain out s3 where 3: "jsp_send_data_to_client (fst (send_results io)) (snd (send_results io)) ?s2 = (out, s3)" by fastforce
  obtain acc rcv s4 d4 where 4: "(if jsp_target_is_running s3 then jsp_hardware_transact sndrcv (s3, d) else (([], []), s3, d)) =
      ((acc, rcv), s4, d4)" by (metis prod_cases3 surj_pair)
  have log: "log = \<lparr>from_client = recv_data (client_ready io), to_hardware = acc, from_hardware = rcv, to_client = out\<rparr>" "s' = s4"
    using assms(3) unfolding jsp_pass_def Let_def prod.case 3 4 by auto
  from send_data [OF _ _ 3] assms(2,4) obtain q where q: "s3 = ?s2\<lparr>jsp_fromhw := q\<rparr>" "ring_counts q"
    "ring_count (jsp_fromhw s) = int (length out) + ring_count q"
    "ring_ok (jsp_fromhw s) \<longrightarrow> ring_ok q \<and> ring_contents (jsp_fromhw s) = out @ ring_contents q" by (auto simp: 2(3) io_contract_def)
  have t: "ring_ok (jsp_tohw s4)" "ring_contents (jsp_tohw s3) = acc @ ring_contents (jsp_tohw s4)" "jsp_fromhw s4 = fold ring_put rcv q"
    using transact [of s3 d acc rcv s4 d4] 4 2(1) q(1,2) by (auto split: if_splits)
  note p = put_counts [OF q(2), of rcv, folded t(3)]
  have "ring_ok (jsp_fromhw s4) \<and> ring_contents (jsp_fromhw s) @ rcv = out @ ring_contents (jsp_fromhw s4)"
    if "ring_ok (jsp_fromhw s)" "ring_count (jsp_fromhw s4) \<le> JSP_BUFFER_SIZE"
    using q(2,4) that p put_each [of q rcv] by (auto simp: t(3) JSP_BUFFER_SIZE_def ring_counts_def)
  then show ?thesis using 2 q(1,3) t p by (auto simp: log)
qed

end

text \<open>
  A session: a client is accepted, then any number of passes, with any results of the system calls that these promise. The log gathers
  what has been moved; the last argument says whether the count of the characters from the hardware has never exceeded the size of
  their buffer.
\<close>

definition empty_log :: jsp_log where
  "empty_log = \<lparr>from_client = [], to_hardware = [], from_hardware = [], to_client = []\<rparr>"

definition log_append :: "jsp_log \<Rightarrow> jsp_log \<Rightarrow> jsp_log" where
  "log_append a b =
     \<lparr>from_client = from_client a @ from_client b, to_hardware = to_hardware a @ to_hardware b,
      from_hardware = from_hardware a @ from_hardware b, to_client = to_client a @ to_client b\<rparr>"

definition buffers_there :: "jsp \<Rightarrow> bool" where
  "buffers_there s \<longleftrightarrow> length (ring_buf (jsp_tohw s)) = 256 \<and> length (ring_buf (jsp_fromhw s)) = 256"

inductive jsp_session ::
  "(u8 list \<Rightarrow> 'd \<Rightarrow> u32 \<times> (nat \<times> u8 list) option \<times> 'd) \<Rightarrow> jsp \<times> 'd \<Rightarrow> jsp_log \<Rightarrow> bool \<Rightarrow> bool" for sndrcv
where
  start: "buffers_there s \<Longrightarrow> jsp_session sndrcv (jsp_accept True s, d) empty_log True"
| pass: "jsp_session sndrcv (s, d) log no_overrun \<Longrightarrow> jsp_pass sndrcv io (s, d) = (log', s', d') \<Longrightarrow> io_contract io s \<Longrightarrow>
    jsp_session sndrcv (s', d') (log_append log log') (no_overrun \<and> ring_count (jsp_fromhw s') \<le> JSP_BUFFER_SIZE)"

lemma accepted_ok: "buffers_there s \<Longrightarrow> ring_ok (jsp_tohw (jsp_accept True s)) \<and> ring_ok (jsp_fromhw (jsp_accept True s))"
  by (simp add: buffers_there_def jsp_accept_def ring_ok_def ring_clear_def)

context serial_unit
begin

lemma session_conserves:
  "jsp_session sndrcv sd log no_overrun \<Longrightarrow>
     ring_ok (jsp_tohw (fst sd)) \<and> ring_counts (jsp_fromhw (fst sd)) \<and>
     from_client log = to_hardware log @ ring_contents (jsp_tohw (fst sd)) \<and>
     int (length (from_hardware log)) = int (length (to_client log)) + ring_count (jsp_fromhw (fst sd)) \<and>
     (no_overrun \<longrightarrow> ring_ok (jsp_fromhw (fst sd)) \<and> from_hardware log = to_client log @ ring_contents (jsp_fromhw (fst sd)))"
proof (induction rule: jsp_session.induct)
  case (start s d)
  then show ?case
    using accepted_ok [OF start] ring_ok_counts
    by (simp add: empty_log_def jsp_accept_def ring_contents_def ring_clear_def)
next
  case (pass s d log no_overrun io log' s' d')
  have ok: "ring_ok (jsp_tohw s)" "ring_counts (jsp_fromhw s)" using pass.IH by simp_all
  from pass_conserves [OF ok pass.hyps(2,3)] pass.IH show ?case by (auto simp: log_append_def)
qed

end

text \<open>
  C30.
  The two channels of the serial-port server, in every session with the debug unit, whatever the sizes of the single transfers, whichever of
  them fail, and however often the buffers wrap around. The characters received from the client are, in order, those the hardware has
  taken followed by those still in the one buffer: none is ever lost. As many characters have been received from the hardware as the client
  has been sent and the other buffer counts; and as long as that count has never exceeded the size of the buffer, which the
  server does not check, they are, in order, those the client has been sent followed by those in the buffer.
\<close>

theorem serial_channel_lossless:
  assumes "jsp_session (dbg_serial_sndrcv c) (s, d) log no_overrun"
  shows "from_client log = to_hardware log @ ring_contents (jsp_tohw s) \<and>
    int (length (from_hardware log)) = int (length (to_client log)) + ring_count (jsp_fromhw s) \<and>
    (no_overrun \<longrightarrow> from_hardware log = to_client log @ ring_contents (jsp_fromhw s))"
  using debug_serial.session_conserves [OF assms] by simp

section \<open>One exchange on the wire\<close>

text \<open>
  A transaction with the serial port, on any cable, when the port is idle: one data scan, whose answer holds in its first byte how many
  characters the unit sends and how many it can take, and then the characters.
\<close>

lemma serial_exchange:
  assumes "tap_cable c view" "tap (view (port s)) = Run_Test_Idle" "well_formed s" "length data < 8"
  defines "w \<equiv> selecting DC_JSP s (view (port s))"
  defines "answer \<equiv> bytes_of_words (pack_words (map (reply w)
      [clocked w + global_DR_postfix_bits s..<clocked w + global_DR_postfix_bits s + 72]))"
  shows "\<exists>s'. dbg_serial_sndrcv c data s =
      (APP_ERR_NONE,
       Some (min (unat (answer ! 0 AND 0x0F)) (length data), take (unat (drop_bit 4 (answer ! 0) AND 0xF)) (drop 1 answer)), s')"
proof -
  obtain s1 where s1: "adbg_select_module c DC_JSP s = (APP_ERR_NONE, s1)" "current_chain s1 = DC_JSP" "desired_chain s1 = DC_JSP"
    "view (port s1) = w" "tap (view (port s1)) = Run_Test_Idle" "global_DR_postfix_bits s1 = global_DR_postfix_bits s"
    using module_selected [OF assms(1-3), of DC_JSP] by (auto simp: adbg_defs w_def)
  let ?ws = "words_of_bytes (jsp_outdata data)"
  have stop: "\<not> (jsp_outdata data ! 8 AND 0x80 \<noteq> 0)"
    using assms(4) by (simp add: jsp_outdata_def Let_def nth_append)
  have n: "72 \<le> 32 * length ?ws" using assms(4) by (simp add: words_of_bytes_def jsp_outdata_def Let_def)
  have sel: "adbg_select_module c (desired_chain s1) s1 = (APP_ERR_NONE, s1)"
    using tap_cable.select_module_again [OF assms(1) s1(2)] s1(3) by simp
  obtain h1 where 1: "tap_set_shift_dr c s1 = (APP_ERR_NONE, s1\<lparr>port := h1\<rparr>)" "view h1 = in_shift [] w"
    using tap_cable.start_scan [OF assms(1) s1(5)] s1(4) by auto
  obtain h2 bs where 2: "jtag_read_write_stream c ?ws 72 True True (s1\<lparr>port := h1\<rparr>) =
      (APP_ERR_NONE, pack_words (map (reply w) [clocked w + global_DR_postfix_bits s..<clocked w + global_DR_postfix_bits s + 72]),
       s1\<lparr>port := h2\<rparr>)" "view h2 = exited bs w"
    using tap_cable.shift_last_in [OF assms(1), of "s1\<lparr>port := h1\<rparr>" "[]" w 72 ?ws True] 1(2) n s1(6) by auto
  obtain h3 where 3: "tap_exit_to_idle c (s1\<lparr>port := h2\<rparr>) = (APP_ERR_NONE, s1\<lparr>port := h3\<rparr>)"
    using tap_cable.leave_scan [OF assms(1), of "s1\<lparr>port := h2\<rparr>"] 2(2) by auto
  have z: "(APP_ERR_NONE \<noteq> 0) = False" "APP_ERR_NONE OR APP_ERR_NONE OR APP_ERR_NONE = APP_ERR_NONE" by (simp_all add: APP_ERR_NONE_def)
  have "min (length data) 8 = length data" using assms(4) by simp
  then have "adbg_jsp_transact c data s1 =
      (APP_ERR_NONE,
       Some (min (unat (answer ! 0 AND 0x0F)) (length data), take (unat (drop_bit 4 (answer ! 0) AND 0xF)) (drop 1 answer)), s1\<lparr>port := h3\<rparr>)"
    using 2(1) 3 stop unfolding adbg_jsp_transact_def Let_def sel prod.case z if_False 1(1) by (simp add: answer_def z)
  then show ?thesis unfolding dbg_serial_sndrcv_def s1(1) Let_def prod.case z if_False by simp
qed

text \<open>
  A client that has typed two characters while the target runs, on a board whose serial port takes one of them and sends another; in
  the pass after that the client is sent it.
\<close>

definition idle_server :: jsp where
  "idle_server =
     (let r = \<lparr>ring_buf = replicate 256 0, rd_idx = 0, wr_idx = 0, ring_count = 0\<rparr>
      in \<lparr>jsp_tohw = r, jsp_fromhw = r, jsp_target_is_running = False, jsp_client_open = False\<rparr>)"

definition typed_io :: jsp_io where
  "typed_io = \<lparr>pipe_ready = Some (Some CHR ''R''), client_ready = Some (Some [0x41, 0x42], None), send_results = (None, None)\<rparr>"

definition serial_board :: "board jtag" where
  "serial_board = bench\<lparr>port := \<lparr>board_wire = bench_wire\<lparr>reply := (\<lambda>i. i \<in> {6, 10, 15, 17, 18, 20})\<rparr>, tck = False\<rparr>\<rparr>"

lemma serial_board_answers:
  "\<exists>d. dbg_serial_sndrcv (common_cable pin_out pin_inout) [0x41, 0x42] serial_board = (APP_ERR_NONE, Some (1, [0x5A]), d)"
proof -
  have b: "tap (board_wire (port serial_board)) = Run_Test_Idle" "well_formed serial_board" "global_DR_postfix_bits serial_board = 2"
    by (simp_all add: serial_board_def bench_defs well_formed_def DBG_MAX_MODULES_def)
  have w: "clocked (selecting DC_JSP serial_board (board_wire (port serial_board))) = 4"
    "reply (selecting DC_JSP serial_board (board_wire (port serial_board))) = (\<lambda>i. i \<in> {6, 10, 15, 17, 18, 20})"
    by (simp_all add: selecting_def serial_board_def bench_defs adbg_defs through_prefix_def)
  have a: "bytes_of_words (pack_words (map (\<lambda>i. i \<in> {6, 10, 15, 17, 18, 20 :: nat}) [4 + 2..<4 + 2 + 72])) =
      [0x11, 0x5A, 0, 0, 0, 0, 0, 0, 0, 0, 0, 0]" by code_simp
  show ?thesis
    using serial_exchange [OF banged.tap_cable_axioms b(1,2), of "[0x41, 0x42]"] unfolding w b(3) a by simp
qed

theorem serial_channel_lossless_witness:
  "\<exists>s d log. jsp_session (dbg_serial_sndrcv (common_cable pin_out pin_inout)) (s, d) log True \<and>
    from_client log = [0x41, 0x42] \<and> to_hardware log = [0x41] \<and> ring_contents (jsp_tohw s) = [0x42] \<and>
    from_hardware log = [0x5A] \<and> to_client log = [] \<and> ring_contents (jsp_fromhw s) = [0x5A]"
proof -
  let ?f = "dbg_serial_sndrcv (common_cable pin_out pin_inout)" and ?a = "jsp_accept True idle_server"
  let ?log = "\<lparr>from_client = [0x41, 0x42], to_hardware = [0x41], from_hardware = [0x5A], to_client = []\<rparr>"
  let ?s = "?a\<lparr>jsp_target_is_running := True, jsp_tohw := ring_drop 1 (ring_store [0x41, 0x42] (jsp_tohw ?a)),
      jsp_fromhw := ring_put 0x5A (jsp_fromhw ?a)\<rparr>"
  obtain d where d: "?f [0x41, 0x42] serial_board = (APP_ERR_NONE, Some (1, [0x5A]), d)" using serial_board_answers by blast
  have "sendbuf (ring_store [0x41, 0x42] (jsp_tohw ?a)) = [0x41, 0x42]" by code_simp
  then have p: "jsp_pass ?f typed_io (?a, serial_board) = (?log, ?s, d)"
    using d by (simp add: jsp_pass_def typed_io_def idle_server_def jsp_accept_def Let_def jsp_queue_data_from_client_def
        jsp_monitor_status_def jsp_send_data_to_client_def send_once_def ring_clear_def recv_data_def jsp_hardware_transact_def)
  have "jsp_session ?f (?a, serial_board) empty_log True" by (rule start) (simp add: buffers_there_def idle_server_def Let_def)
  moreover have "io_contract typed_io ?a"
    by (simp add: io_contract_def recv_contract_def send_contract_def typed_io_def idle_server_def jsp_accept_def
        ring_clear_def space_available_def JSP_BUFFER_SIZE_def Let_def)
  ultimately have "jsp_session ?f (?s, d) (log_append empty_log ?log) (True \<and> ring_count (jsp_fromhw ?s) \<le> JSP_BUFFER_SIZE)"
    using p by (intro pass)
  moreover have "True \<and> ring_count (jsp_fromhw ?s) \<le> JSP_BUFFER_SIZE" by code_simp
  ultimately have j: "jsp_session ?f (?s, d) (log_append empty_log ?log) True" by simp
  have l: "log_append empty_log ?log = ?log" by (simp add: log_append_def empty_log_def)
  from serial_channel_lossless [OF j] have "[0x41, 0x42] = [0x41] @ ring_contents (jsp_tohw ?s)" "[0x5A] = [] @ ring_contents (jsp_fromhw ?s)"
    unfolding l by simp_all
  with j l show ?thesis by (intro exI [of _ ?s] exI [of _ d] exI [of _ ?log]) simp
qed

section \<open>What the server does not notice\<close>

text \<open>
  A full buffer takes one more character from the hardware: it replaces the oldest, and the count exceeds the size.
\<close>

lemma overrun:
  assumes "ring_ok r" "ring_count r = 256"
  shows "ring_buf (ring_put b r) ! nat (rd_idx r) = b" "ring_count (ring_put b r) = 257"
proof -
  have "nat (rd_idx r) < length (ring_buf r)" using assms(1) by (simp add: ring_ok_def nat_less_iff)
  then show "ring_buf (ring_put b r) ! nat (rd_idx r) = b" "ring_count (ring_put b r) = 257"
    using assms by (simp_all add: ring_put_def ring_ok_def)
qed

text \<open>
  A client that has closed its connection is always ready, with no characters. The pass changes nothing, and the client stays open:
  no other client is ever accepted.
\<close>

lemma closed_client_stays:
  "jsp_queue_data_from_client (Some []) (Some []) s = s" if "ring_ok (jsp_tohw s)"
proof -
  have "ring_store [] (jsp_tohw s) = jsp_tohw s"
    using wr_range [of "jsp_tohw s"] that by (simp add: ring_store_def ring_ok_def JSP_BUFFER_SIZE_def)
  then show ?thesis by (simp add: jsp_queue_data_from_client_def)
qed

text \<open>A text that the connection takes in two parts is started again for the second.\<close>

lemma partial_send_repeats: "jsp_send_all ''port'' 0 [Some 2, Some 2] [] = Some (''popo'', [])"
  by (simp add: jsp_send_all.simps)

end
