(* ===== verification/Bsdl_Parse.thy ===== *)
theory Bsdl_Parse
  imports C_Scan
begin

unbundle bit_operations_syntax

text \<open>
  The parser of device descriptions (\<^verbatim>\<open>bsdl_parse.c\<close>): from the text of a BSDL file to the instruction length, the
  instruction codes and the identification code of a device.

  A file is the list of its characters. The parser writes terminators into its copy of the file, but only into the
  line it has just cut out and, at the end of the file, over the last character, which \<^verbatim>\<open>get_line\<close> never returns;
  so the text can stay as it is, and a position says how far it has been read. Behind the end \<^verbatim>\<open>get_line\<close> returns empty lines
  for ever; a search that gets there never returns, which is \<open>None\<close>. So is writing past a buffer, and
  capitalising a string that is not there.
\<close>

section \<open>Data\<close>

definition TAP_CMD_INVALID :: u32 where "TAP_CMD_INVALID = 0xFFFFFFFF"
definition IDCODE_INVALID :: u32 where "IDCODE_INVALID = 0xFFFFFFFF"

record bsdlinfo =
  entity_name :: "string option"
  idcode :: u32
  idcode_mask :: u32
  IR_size :: int
  cmd_debug :: u32
  cmd_user1 :: u32
  cmd_idcode :: u32

text \<open>What the parser has found so far.\<close>

record bsdl_scan = bsdlinfo +
  found_IR_size :: bool
  found_cmds :: bool
  found_idcode :: bool

definition nothing_found :: bsdl_scan where
  "nothing_found =
     \<lparr>entity_name = None, idcode = 0, idcode_mask = 0xFFFFFFFF, IR_size = - 1, cmd_debug = TAP_CMD_INVALID,
      cmd_user1 = TAP_CMD_INVALID, cmd_idcode = TAP_CMD_INVALID,
      found_IR_size = False, found_cmds = False, found_idcode = False\<rparr>"

section \<open>Characters and strings\<close>

definition to_upper :: "char \<Rightarrow> char" where
  "to_upper c = (if 97 \<le> (of_char c :: nat) \<and> (of_char c :: nat) \<le> 122 then char_of ((of_char c :: nat) - 32) else c)"

definition is_cntrl :: "char \<Rightarrow> bool" where
  "is_cntrl c = ((of_char c :: nat) < 32 \<or> (of_char c :: nat) = 127)"

definition is_digit :: "char \<Rightarrow> bool" where
  "is_digit c = (48 \<le> (of_char c :: nat) \<and> (of_char c :: nat) \<le> 57)"

definition strtoupper :: "string \<Rightarrow> string" where
  "strtoupper str = map to_upper str"

text \<open>A pointer into a string is the rest of the string from there.\<close>

definition strchr_s :: "string \<Rightarrow> string \<Rightarrow> string option" where
  "strchr_s chars str = (case dropWhile (\<lambda>c. c \<notin> set chars) str of [] \<Rightarrow> None | r \<Rightarrow> Some r)"

definition strchr :: "char \<Rightarrow> string \<Rightarrow> string option" where
  "strchr c str = (case dropWhile (\<lambda>d. d \<noteq> c) str of [] \<Rightarrow> None | r \<Rightarrow> Some r)"

fun strstr :: "string \<Rightarrow> string \<Rightarrow> string option" where
  "strstr p [] = (if p = [] then Some [] else None)"
| "strstr p (c # s) = (if starts_with p (c # s) then Some (c # s) else strstr p s)"

text \<open>\<^verbatim>\<open>strtok_r\<close>: the token, and where the next call goes on.\<close>

definition strtok_r :: "string \<Rightarrow> string \<Rightarrow> string option \<times> string" where
  "strtok_r delims s =
     (let s = dropWhile (\<lambda>c. c \<in> set delims) s;
          token = takeWhile (\<lambda>c. c \<notin> set delims) s
      in if token = [] then (None, []) else (Some token, drop (length token + 1) s))"

text \<open>\<^verbatim>\<open>strtoul\<close>; with base 0 a leading zero means base 8, and the one caller passes digits only.\<close>

definition strtoul :: "int \<Rightarrow> string \<Rightarrow> u64" where
  "strtoul base s =
     (let base = (if base = 0 then if starts_with ''0'' s then 8 else 10 else base)
      in case scan_number base None s of None \<Rightarrow> 0 | Some (v, rest) \<Rightarrow> v)"

abbreviation blanks :: string where "blanks \<equiv> [CHR '' '', CHR 0x09]"

section \<open>Lines\<close>

text \<open>Where the next line with data starts: blanks and lines that are only a comment are left out.\<close>

function line_start :: "string \<Rightarrow> nat \<Rightarrow> nat" where
  "line_start filedata i =
     (let i = i + length (takeWhile is_space (drop i filedata))
      in if length filedata \<le> i + 1 then length filedata - 1
         else if filedata ! i = CHR ''-'' \<and> filedata ! (i + 1) = CHR ''-'' then
           line_start filedata (i + length (takeWhile (\<lambda>c. c \<noteq> CHR 0x0A \<and> c \<noteq> CHR 0x0D) (drop i filedata)))
         else i)"
  by pat_completeness auto
termination
proof (relation "measure (\<lambda>(filedata, i). length filedata - i)")
  fix filedata i j
  assume j: "j = i + length (takeWhile is_space (drop i filedata))" "\<not> length filedata \<le> j + 1"
    and d: "filedata ! j = CHR ''-'' \<and> filedata ! (j + 1) = CHR ''-''"
  have "drop j filedata = filedata ! j # drop (j + 1) filedata" using j(2) by (simp add: Cons_nth_drop_Suc)
  then have "0 < length (takeWhile (\<lambda>c. c \<noteq> CHR 0x0A \<and> c \<noteq> CHR 0x0D) (drop j filedata))" using d by simp
  then show "((filedata, j + length (takeWhile (\<lambda>c. c \<noteq> CHR 0x0A \<and> c \<noteq> CHR 0x0D) (drop j filedata))), filedata, i)
      \<in> measure (\<lambda>(filedata, i). length filedata - i)" using j by (simp del: length_greater_0_conv)
qed simp

declare line_start.simps [simp del]

definition before_comment :: "string \<Rightarrow> string" where
  "before_comment line = (case strstr ''--'' line of None \<Rightarrow> line | Some r \<Rightarrow> take (length line - length r) line)"

definition get_line :: "string \<Rightarrow> nat \<Rightarrow> string \<times> nat" where
  "get_line filedata startpos =
     (let i = line_start filedata startpos;
          line = takeWhile (\<lambda>c. \<not> is_cntrl c) (drop i filedata);
          lineidx = i + length line;
          (line, lineidx) = (if length filedata \<le> lineidx then (butlast line, length filedata - 1) else (line, lineidx))
      in (before_comment line, lineidx + 1))"

lemma line_start_bounds: "i < length filedata \<Longrightarrow> i \<le> line_start filedata i \<and> line_start filedata i < length filedata"
proof (induction filedata i rule: line_start.induct)
  case (1 filedata i)
  let ?j = "i + length (takeWhile is_space (drop i filedata))"
  let ?k = "?j + length (takeWhile (\<lambda>c. c \<noteq> CHR 0x0A \<and> c \<noteq> CHR 0x0D) (drop ?j filedata))"
  have j: "?j \<le> length filedata" using length_takeWhile_le [of is_space "drop i filedata"] "1.prems" by simp
  show ?case
  proof (cases "length filedata \<le> ?j + 1 \<or> \<not> (filedata ! ?j = CHR ''-'' \<and> filedata ! (?j + 1) = CHR ''-'')")
    case True
    then show ?thesis using "1.prems" j by (subst (1 2) line_start.simps) (auto simp: Let_def)
  next
    case False
    have k: "?k \<le> length filedata" using length_takeWhile_le [of "\<lambda>c. c \<noteq> CHR 0x0A \<and> c \<noteq> CHR 0x0D" "drop ?j filedata"] j by simp
    have e: "line_start filedata i = line_start filedata ?k" using False by (subst line_start.simps) (simp add: Let_def)
    show ?thesis
    proof (cases "?k < length filedata")
      case True
      then show ?thesis using 1 False e by (auto simp: Let_def)
    next
      case f: False
      then have "line_start filedata ?k = length filedata - 1" using k by (subst line_start.simps) (simp add: Let_def)
      then show ?thesis using e "1.prems" by auto
    qed
  qed
qed

text \<open>A line is read past its start, never past the end.\<close>

lemma get_line_progress: "pos < length filedata \<Longrightarrow> pos < snd (get_line filedata pos) \<and> snd (get_line filedata pos) \<le> length filedata"
  using line_start_bounds [of pos filedata] by (auto simp: get_line_def Let_def split: if_splits)

section \<open>Searches over the lines\<close>

text \<open>
  A search in the current line that goes on to the following lines until it succeeds. It fails on an empty line, so that at
  the end of the file it never ends.
\<close>

function find_in_lines :: "(string \<Rightarrow> string option) \<Rightarrow> string \<Rightarrow> string \<Rightarrow> nat \<Rightarrow> (string \<times> nat) option" where
  "find_in_lines search filedata ptr filepos =
     (case search ptr of
        Some r \<Rightarrow> Some (r, filepos)
      | None \<Rightarrow> if length filedata \<le> filepos then None
                else find_in_lines search filedata (fst (get_line filedata filepos)) (snd (get_line filedata filepos)))"
  by pat_completeness auto
termination
  by (relation "measure (\<lambda>(search, filedata, ptr, filepos). length filedata - filepos)")
    (auto simp: not_le diff_less_mono2 get_line_progress simp del: prod.collapse)

declare find_in_lines.simps [simp del]

text \<open>The data of an attribute, gathered from the rest of the lines that follow until the one that ends it.\<close>

function more_lines :: "(string \<Rightarrow> 'a \<Rightarrow> 'a \<times> bool) \<Rightarrow> string \<Rightarrow> 'a \<Rightarrow> nat \<Rightarrow> ('a \<times> nat) option" where
  "more_lines scan filedata buf filepos =
     (if length filedata \<le> filepos then None
      else (case scan (fst (get_line filedata filepos)) buf of
              (buf, True) \<Rightarrow> Some (buf, snd (get_line filedata filepos))
            | (buf, False) \<Rightarrow> more_lines scan filedata buf (snd (get_line filedata filepos))))"
  by pat_completeness auto
termination
  by (relation "measure (\<lambda>(scan, filedata, buf, filepos). length filedata - filepos)")
    (auto simp: not_le diff_less_mono2 get_line_progress simp del: prod.collapse)

declare more_lines.simps [simp del]

fun scan_digits :: "string \<Rightarrow> string \<Rightarrow> string \<times> bool" where
  "scan_digits [] buf = (buf, False)"
| "scan_digits (c # s) buf =
     (if is_digit c then scan_digits s (buf @ [c]) else if c = CHR '';'' then (buf, True) else scan_digits s buf)"

text \<open>
  What stands between double quotes. On the first line a semicolon ends the attribute even there, on the others only outside of
  quotes.
\<close>

fun scan_quoted :: "bool \<Rightarrow> string \<Rightarrow> string \<times> bool \<Rightarrow> (string \<times> bool) \<times> bool" where
  "scan_quoted first [] buf = (buf, False)"
| "scan_quoted first (c # s) (buf, valid) =
     (if first \<and> c = CHR '';'' then ((buf, valid), True)
      else if valid \<and> c \<noteq> CHR 0x22 then scan_quoted first s (buf @ [c], valid)
      else if c = CHR 0x22 then scan_quoted first s (buf, \<not> valid)
      else if c = CHR '';'' then ((buf, valid), True)
      else scan_quoted first s (buf, valid))"

definition read_digits :: "string \<Rightarrow> string \<Rightarrow> nat \<Rightarrow> (string \<times> nat) option" where
  "read_digits filedata ptr filepos =
     (case scan_digits ptr [] of
        (buf, True) \<Rightarrow> Some (buf, filepos)
      | (buf, False) \<Rightarrow> more_lines scan_digits filedata buf filepos)"

definition read_quoted :: "string \<Rightarrow> string \<Rightarrow> nat \<Rightarrow> (string \<times> nat) option" where
  "read_quoted filedata ptr filepos =
     (case scan_quoted True ptr ([], False) of
        (buf, True) \<Rightarrow> Some (fst buf, filepos)
      | (buf, False) \<Rightarrow>
          (case more_lines (scan_quoted False) filedata buf filepos of
             None \<Rightarrow> None
           | Some (buf, filepos) \<Rightarrow> Some (fst buf, filepos)))"

definition find_entity_is :: "string \<Rightarrow> string \<Rightarrow> nat \<Rightarrow> (string \<times> nat) option" where
  "find_entity_is filedata ptr filepos =
     (case find_in_lines (strchr CHR '':'') filedata ptr filepos of
        None \<Rightarrow> None
      | Some (ptr, filepos) \<Rightarrow>
          (case find_in_lines (strstr ''entity'') filedata ptr filepos of
             None \<Rightarrow> None
           | Some (ptr, filepos) \<Rightarrow> find_in_lines (strstr ''is'') filedata ptr filepos))"

text \<open>Until a semicolon.\<close>

definition skip_statement :: "string \<Rightarrow> string \<Rightarrow> nat \<Rightarrow> nat option" where
  "skip_statement filedata ptr filepos = map_option snd (find_in_lines (strchr CHR '';'') filedata ptr filepos)"

lemma find_in_lines_progress:
  "find_in_lines search filedata ptr filepos = Some (r, pos) \<Longrightarrow>
   filepos \<le> pos \<and> (pos = filepos \<longrightarrow> search ptr = Some r)"
proof (induction search filedata ptr filepos rule: find_in_lines.induct)
  case (1 search filedata ptr filepos)
  show ?case
  proof (cases "search ptr")
    case None
    then have "filepos < length filedata" using "1.prems" by (simp add: find_in_lines.simps [of search _ ptr] split: if_splits)
    then show ?thesis
      using "1.IH" [OF None] "1.prems" None get_line_progress [of filepos filedata]
      by (simp add: find_in_lines.simps [of search _ ptr])
  qed (use "1.prems" in \<open>simp add: find_in_lines.simps [of search _ ptr]\<close>)
qed

lemma more_lines_progress: "more_lines scan filedata buf filepos = Some (r, pos) \<Longrightarrow> filepos \<le> pos"
proof (induction scan filedata buf filepos rule: more_lines.induct)
  case (1 scan filedata buf filepos)
  have p: "filepos < length filedata" using "1.prems" by (simp add: more_lines.simps [of _ _ buf] split: if_splits)
  obtain b d where e: "scan (fst (get_line filedata filepos)) buf = (b, d)" by fastforce
  show ?case
    using "1.IH" [OF _ e [symmetric]] "1.prems" p e get_line_progress [OF p]
    by (cases d) (auto simp: more_lines.simps [of _ _ buf])
qed

section \<open>Attributes\<close>

text \<open>\<^verbatim>\<open>parse_opcodes\<close>: pairs of a name and a code, separated by commas. A pair without a name is a null pointer to \<^verbatim>\<open>strtoupper\<close>.\<close>

definition parse_opcode :: "string \<Rightarrow> bsdl_scan \<Rightarrow> bsdl_scan option" where
  "parse_opcode cmd s =
     (case strtok_r (blanks @ ''('') cmd of
        (None, saveptr2) \<Rightarrow> None
      | (Some token, saveptr2) \<Rightarrow>
          (let target = strtoupper token
           in if target \<noteq> ''DEBUG'' \<and> target \<noteq> ''USER1'' \<and> target \<noteq> ''IDCODE'' then Some s
              else (case strtok_r (blanks @ ''()'') saveptr2 of
                      (None, rest) \<Rightarrow> Some s
                    | (Some token, rest) \<Rightarrow>
                        (let opcode = ucast (strtoul 2 token)
                         in Some (if target = ''DEBUG'' then s\<lparr>cmd_debug := opcode\<rparr>
                                  else if target = ''USER1'' then s\<lparr>cmd_user1 := opcode\<rparr>
                                  else s\<lparr>cmd_idcode := opcode\<rparr>)))))"

lemma strtok_r_shorter: "strtok_r delims s = (Some token, rest) \<Longrightarrow> length rest < length s"
proof -
  assume a: "strtok_r delims s = (Some token, rest)"
  let ?s = "dropWhile (\<lambda>c. c \<in> set delims) s"
  from a have "rest = drop (length token + 1) ?s" by (auto simp: strtok_r_def Let_def split: if_splits)
  moreover have "?s \<noteq> []" using a by (cases "?s = []") (simp_all add: strtok_r_def Let_def del: dropWhile_eq_Nil_conv)
  moreover have "length ?s \<le> length s" by (rule length_dropWhile_le)
  ultimately show ?thesis by (cases ?s) auto
qed

function parse_opcodes :: "string \<Rightarrow> bsdl_scan \<Rightarrow> bsdl_scan option" where
  "parse_opcodes cmdbuf s =
     (case strtok_r '','' cmdbuf of
        (None, saveptr) \<Rightarrow> Some s
      | (Some cmd, saveptr) \<Rightarrow>
          (case parse_opcode cmd s of
             None \<Rightarrow> None
           | Some s \<Rightarrow> parse_opcodes saveptr s))"
  by pat_completeness auto
termination
  by (relation "measure (\<lambda>(cmdbuf, s). length cmdbuf)") (auto dest!: strtok_r_shorter [OF sym])

declare parse_opcodes.simps [simp del]

text \<open>
  The characters of the identification code, highest bit first; an \<^verbatim>\<open>X\<close> takes the bit out of the mask. Beyond 32 characters the
  shift count is negative; it is the host's then, of which the low five bits count.
\<close>

fun idcode_bits :: "string \<Rightarrow> nat \<Rightarrow> bsdl_scan \<Rightarrow> bsdl_scan" where
  "idcode_bits [] i s = s"
| "idcode_bits (c # tmpbuf) i s =
     idcode_bits tmpbuf (i + 1)
       (if c = CHR ''1'' then s\<lparr>idcode := idcode s OR c_shl 1 (of_int (31 - int i))\<rparr>
        else if to_upper c = CHR ''X'' then s\<lparr>idcode_mask := idcode_mask s AND NOT (c_shl 1 (of_int (31 - int i)))\<rparr>
        else s)"

text \<open>
  The values of the attributes. \<^verbatim>\<open>tmpbuf\<close> has 128 characters; the buffer for the instruction codes is as large as the part of the file
  behind the current line.
\<close>

definition TMPBUF_SIZE :: nat where "TMPBUF_SIZE = 128"

definition instruction_length :: "string \<Rightarrow> string \<Rightarrow> nat \<Rightarrow> bsdl_scan \<Rightarrow> (bsdl_scan \<times> nat) option" where
  "instruction_length filedata ptr filepos s =
     (case find_entity_is filedata ptr filepos of
        None \<Rightarrow> None
      | Some (ptr, filepos) \<Rightarrow>
          (case read_digits filedata ptr filepos of
             None \<Rightarrow> None
           | Some (tmpbuf, filepos) \<Rightarrow>
               if TMPBUF_SIZE \<le> length tmpbuf then None
               else Some (s\<lparr>IR_size := sint (ucast (strtoul 0 tmpbuf) :: u32), found_IR_size := True\<rparr>, filepos)))"

definition instruction_opcode :: "string \<Rightarrow> string \<Rightarrow> nat \<Rightarrow> bsdl_scan \<Rightarrow> (bsdl_scan \<times> nat) option" where
  "instruction_opcode filedata ptr filepos s =
     (case find_entity_is filedata ptr filepos of
        None \<Rightarrow> None
      | Some (ptr, filepos) \<Rightarrow>
          (case read_quoted filedata ptr filepos of
             None \<Rightarrow> None
           | Some (cmdbuf, filepos') \<Rightarrow>
               if length filedata - filepos \<le> length cmdbuf then None
               else (case parse_opcodes cmdbuf s of
                       None \<Rightarrow> None
                     | Some s \<Rightarrow> Some (s\<lparr>found_cmds := True\<rparr>, filepos'))))"

definition idcode_register :: "string \<Rightarrow> string \<Rightarrow> nat \<Rightarrow> bsdl_scan \<Rightarrow> (bsdl_scan \<times> nat) option" where
  "idcode_register filedata ptr filepos s =
     (case find_entity_is filedata ptr filepos of
        None \<Rightarrow> None
      | Some (ptr, filepos) \<Rightarrow>
          (case read_quoted filedata ptr filepos of
             None \<Rightarrow> None
           | Some (tmpbuf, filepos) \<Rightarrow>
               if TMPBUF_SIZE \<le> length tmpbuf then None
               else Some ((idcode_bits tmpbuf 0 s)\<lparr>found_idcode := True\<rparr>, filepos)))"

definition parse_attribute :: "string \<Rightarrow> string \<Rightarrow> nat \<Rightarrow> bsdl_scan \<Rightarrow> (bsdl_scan \<times> nat) option" where
  "parse_attribute filedata ptr filepos s =
     (case strtok_r blanks ptr of
        (None, ptr) \<Rightarrow> None
      | (Some token, ptr) \<Rightarrow>
          (let token = strtoupper token
           in if token = ''INSTRUCTION_LENGTH'' then instruction_length filedata ptr filepos s
              else if token = ''INSTRUCTION_OPCODE'' then instruction_opcode filedata ptr filepos s
              else if token = ''IDCODE_REGISTER'' then idcode_register filedata ptr filepos s
              else map_option (Pair s) (skip_statement filedata ptr filepos)))"

section \<open>Statements\<close>

text \<open>The list of ports: to the parenthesis that closes the first one. \<^verbatim>\<open>opens\<close> is a \<^verbatim>\<open>char\<close>.\<close>

function skip_parens :: "string \<Rightarrow> string \<Rightarrow> nat \<Rightarrow> u8 \<Rightarrow> (string \<times> nat) option" where
  "skip_parens filedata ptr filepos opens =
     (case find_in_lines (strchr_s ''()'') filedata ptr filepos of
        None \<Rightarrow> None
      | Some (ptr, filepos) \<Rightarrow>
          (let opens = (if hd ptr = CHR ''('' then opens + 1 else opens - 1)
           in if opens = 0 then Some (tl ptr, filepos) else skip_parens filedata (tl ptr) filepos opens))"
  by pat_completeness auto

lemma strchr_s_shorter: "strchr_s chars str = Some r \<Longrightarrow> r \<noteq> [] \<and> length r \<le> length str"
  by (auto simp: strchr_s_def split: list.splits)
    (metis length_Cons length_dropWhile_le)

lemma find_in_lines_result:
  "find_in_lines search filedata ptr filepos = Some (r, pos) \<Longrightarrow> \<exists>line. search line = Some r"
proof (induction search filedata ptr filepos rule: find_in_lines.induct)
  case (1 search filedata ptr filepos)
  then show ?case by (cases "search ptr") (auto simp: find_in_lines.simps [of search _ ptr] split: if_splits)
qed

lemma find_in_lines_end:
  "find_in_lines search filedata ptr filepos = Some (r, pos) \<Longrightarrow> pos = filepos \<or> pos \<le> length filedata"
proof (induction search filedata ptr filepos rule: find_in_lines.induct)
  case (1 search filedata ptr filepos)
  then show ?case
    by (cases "search ptr")
      (auto simp: find_in_lines.simps [of search _ ptr] get_line_progress not_le split: if_splits dest: get_line_progress)
qed

termination skip_parens
proof (relation "measures [\<lambda>(filedata, ptr, filepos, opens). length filedata - filepos, \<lambda>(filedata, ptr, filepos, opens). length ptr]",
    goal_cases)
  case (2 filedata ptr filepos opens x ptr' filepos')
  then have f: "find_in_lines (strchr_s ''()'') filedata ptr filepos = Some (ptr', filepos')" by simp
  from find_in_lines_result [OF f] have n: "ptr' \<noteq> []" using strchr_s_shorter by blast
  from find_in_lines_progress [OF f] consider "filepos' = filepos" "length ptr' \<le> length ptr" | "filepos < filepos'"
    using strchr_s_shorter by force
  then show ?case
  proof cases
    case 1
    then show ?thesis using n by (cases ptr') auto
  next
    case 2
    then have "filepos' \<le> length filedata" using find_in_lines_end [OF f] by simp
    then have "length filedata - filepos' < length filedata - filepos" using 2 by linarith
    then show ?thesis by simp
  qed
qed simp

declare skip_parens.simps [simp del]

definition skip_ports :: "string \<Rightarrow> string \<Rightarrow> nat \<Rightarrow> nat option" where
  "skip_ports filedata ptr filepos =
     (case find_in_lines (strchr CHR ''('') filedata ptr filepos of
        None \<Rightarrow> None
      | Some (ptr, filepos) \<Rightarrow>
          (case skip_parens filedata (tl ptr) filepos 1 of
             None \<Rightarrow> None
           | Some (ptr, filepos) \<Rightarrow> skip_statement filedata ptr filepos))"

text \<open>One statement, its first token cut off; the flag says that the description ends here.\<close>

definition parse_statement :: "string \<Rightarrow> string \<Rightarrow> string \<Rightarrow> nat \<Rightarrow> bsdl_scan \<Rightarrow> (bool \<times> bsdl_scan \<times> nat) option" where
  "parse_statement filedata token ptr filepos s =
     (let token = strtoupper token
      in if token = ''ENTITY'' then
           (case fst (strtok_r blanks ptr) of
              Some token \<Rightarrow> Some (False, s\<lparr>entity_name := Some token\<rparr>, filepos)
            | None \<Rightarrow> Some (False, s, filepos))
         else if token = ''CONSTANT'' \<or> token = ''GENERIC'' then
           map_option (\<lambda>filepos. (False, s, filepos)) (skip_statement filedata (snd (strtok_r blanks ptr)) filepos)
         else if token = ''USE'' then
           map_option (\<lambda>filepos. (False, s, filepos)) (skip_statement filedata (snd (strtok_r (blanks @ '';'') ptr)) filepos)
         else if token = ''END'' then Some (True, s, filepos)
         else if token = ''PORT'' then
           map_option (\<lambda>filepos. (False, s, filepos)) (skip_ports filedata ptr filepos)
         else if token = ''ATTRIBUTE'' then map_option (Pair False) (parse_attribute filedata ptr filepos s)
         else Some (False, s, filepos))"

lemma skip_statement_progress: "skip_statement filedata ptr filepos = Some pos \<Longrightarrow> filepos \<le> pos"
  by (auto simp: skip_statement_def dest: find_in_lines_progress)

lemma find_entity_is_progress: "find_entity_is filedata ptr filepos = Some (r, pos) \<Longrightarrow> filepos \<le> pos"
  unfolding find_entity_is_def
  by (auto split: option.splits dest!: find_in_lines_progress)

lemma skip_parens_progress: "skip_parens filedata ptr filepos opens = Some (r, pos) \<Longrightarrow> filepos \<le> pos"
proof (induction filedata ptr filepos opens rule: skip_parens.induct)
  case (1 filedata ptr filepos opens)
  from "1.prems" obtain ptr' filepos' where f: "find_in_lines (strchr_s ''()'') filedata ptr filepos = Some (ptr', filepos')"
    by (auto simp: skip_parens.simps [of _ ptr] split: option.splits)
  from find_in_lines_progress [OF this] have "filepos \<le> filepos'" ..
  then show ?case
    using "1.IH" [OF f refl refl] "1.prems" f
    by (auto simp: skip_parens.simps [of _ ptr] Let_def split: if_splits)
qed

lemma skip_ports_progress: "skip_ports filedata ptr filepos = Some pos \<Longrightarrow> filepos \<le> pos"
  unfolding skip_ports_def
  by (auto split: option.splits dest!: find_in_lines_progress skip_parens_progress skip_statement_progress)

lemma read_progress:
  "read_digits filedata ptr filepos = Some (buf, pos) \<Longrightarrow> filepos \<le> pos"
  "read_quoted filedata ptr filepos = Some (buf, pos) \<Longrightarrow> filepos \<le> pos"
  by (auto simp: read_digits_def read_quoted_def split: prod.splits bool.splits option.splits dest: more_lines_progress)

lemma parse_attribute_progress: "parse_attribute filedata ptr filepos s = Some (s', pos) \<Longrightarrow> filepos \<le> pos"
  unfolding parse_attribute_def instruction_length_def instruction_opcode_def idcode_register_def
  by (auto simp: Let_def split: option.splits prod.splits if_splits
      dest!: find_entity_is_progress read_progress skip_statement_progress)

lemma parse_statement_progress: "parse_statement filedata token ptr filepos s = Some (d, s', pos) \<Longrightarrow> filepos \<le> pos"
  unfolding parse_statement_def
  by (auto simp: Let_def split: option.splits if_splits
      dest: skip_statement_progress skip_ports_progress parse_attribute_progress)

section \<open>The whole file\<close>

function parse_loop :: "string \<Rightarrow> nat \<Rightarrow> bsdl_scan \<Rightarrow> bsdl_scan option" where
  "parse_loop filedata filepos s =
     (if filepos < length filedata \<and> (\<not> found_IR_size s \<or> \<not> found_cmds s \<or> \<not> found_idcode s) then
        (case strtok_r blanks (fst (get_line filedata filepos)) of
           (None, ptr) \<Rightarrow> Some s
         | (Some token, ptr) \<Rightarrow>
             (case parse_statement filedata token ptr (snd (get_line filedata filepos)) s of
                None \<Rightarrow> None
              | Some (True, s, filepos) \<Rightarrow> Some s
              | Some (False, s, filepos) \<Rightarrow> parse_loop filedata filepos s))
      else Some s)"
  by pat_completeness auto
termination
  by (relation "measure (\<lambda>(filedata, filepos, s). length filedata - filepos)")
    (auto dest!: parse_statement_progress [OF sym] parse_statement_progress get_line_progress)

declare parse_loop.simps [simp del]

text \<open>
  The description in a file, if it can be opened. The result is \<open>None\<close> when the parser does not return, and the inner \<open>None\<close>
  is the null pointer.
\<close>

definition parse_extract_values :: "string option \<Rightarrow> bsdlinfo option option" where
  "parse_extract_values contents =
     (case contents of
        None \<Rightarrow> Some None
      | Some filedata \<Rightarrow> map_option (\<lambda>s. Some (bsdlinfo.truncate s)) (parse_loop filedata 0 nothing_found))"

end
