(* ===== verification/Bsdl.thy ===== *)
theory Bsdl
  imports Bsdl_Parse
begin

unbundle bit_operations_syntax

text \<open>
  The data base of device descriptions (\<^verbatim>\<open>bsdl.h\<close>, \<^verbatim>\<open>bsdl.c\<close>): directories are opened and files parsed only until the device
  asked for is found; what has been parsed is kept.
\<close>

section \<open>State\<close>

text \<open>
  The host: the names in a directory in the order of \<^verbatim>\<open>readdir\<close> (\<open>None\<close> if it cannot be opened), the text of a file, and whether
  \<^verbatim>\<open>realloc\<close> to a size succeeds.
\<close>

record bsdl_host =
  opendir :: "string \<Rightarrow> string list option"
  fopen :: "string \<Rightarrow> string option"
  realloc :: "nat \<Rightarrow> bool"

definition MAX_BSDL_DIRS :: nat where "MAX_BSDL_DIRS = 64"

text \<open>
  The globals. The linked list is a list, the pointer \<^verbatim>\<open>bsdl_last\<close> into it a position; of an open directory the names that have
  not been read yet remain.
\<close>

record bsdl =
  bsdl_dirs :: "string list"
  bsdl_current_dir :: int
  bsdl_open_dir :: "string list option"
  bsdl_infos :: "bsdlinfo list"
  bsdl_last :: "nat option"
  bsdl_scratchpad_size :: nat

definition bsdl_init :: bsdl where
  "bsdl_init =
     \<lparr>bsdl_dirs = [''/opt/bsdl'', ''/usr/share/bsdl'', ''~/.bsdl'', ''.''] @ replicate (MAX_BSDL_DIRS - 4) [],
      bsdl_current_dir = 3, bsdl_open_dir = None, bsdl_infos = [], bsdl_last = None, bsdl_scratchpad_size = 64\<rparr>"

definition bsdl_add_directory :: "string \<Rightarrow> bsdl \<Rightarrow> bsdl" where
  "bsdl_add_directory dirname b =
     (if bsdl_current_dir b \<ge> int MAX_BSDL_DIRS - 1 then b
      else b\<lparr>bsdl_current_dir := bsdl_current_dir b + 1,
             bsdl_dirs := (bsdl_dirs b)[nat (bsdl_current_dir b + 1) := dirname]\<rparr>)"

section \<open>Looking for a device\<close>

definition info_matches :: "u32 \<Rightarrow> bsdlinfo \<Rightarrow> bool" where
  "info_matches code info \<longleftrightarrow> idcode info AND idcode_mask info = code AND idcode_mask info"

text \<open>From the last dot of the name on.\<close>

definition file_extension :: "string \<Rightarrow> string option" where
  "file_extension d_name =
     (if CHR ''.'' \<in> set d_name then Some (CHR ''.'' # rev (takeWhile (\<lambda>c. c \<noteq> CHR ''.'') (rev d_name))) else None)"

definition is_bsdl_name :: "string \<Rightarrow> bool" where
  "is_bsdl_name d_name = (file_extension d_name \<in> {Some ''.bsd'', Some ''.bsdl'', Some ''.BSD'', Some ''.BSDL''})"

definition path_of :: "string \<Rightarrow> string \<Rightarrow> string" where
  "path_of dir d_name = dir @ ''/'' @ d_name"

text \<open>
  Room for the path: \<^verbatim>\<open>Some\<close> the size of the scratchpad afterwards. It is doubled once, however long the path is.
\<close>

definition grow_scratchpad :: "bsdl_host \<Rightarrow> nat \<Rightarrow> nat \<Rightarrow> nat option" where
  "grow_scratchpad host n len =
     (if n + 2 \<ge> len then if realloc host (len * 2) then Some (len * 2) else None else Some len)"

definition dir_of :: "bsdl \<Rightarrow> string" where
  "dir_of b = bsdl_dirs b ! nat (bsdl_current_dir b + 1)"

text \<open>
  The loop of \<^verbatim>\<open>get_bsdl_info\<close> that parses files. The result is the position of the description found; the outer \<open>None\<close>
  is a parser that does not return or a path that does not fit into the scratchpad.
\<close>

function parse_files :: "bsdl_host \<Rightarrow> u32 \<Rightarrow> bsdl \<Rightarrow> (nat option \<times> bsdl) option" where
  "parse_files host code b =
     (case bsdl_open_dir b of
        None \<Rightarrow>
          if bsdl_current_dir b < 0 then Some (None, b)
          else parse_files host code
                 (b\<lparr>bsdl_open_dir := opendir host (bsdl_dirs b ! nat (bsdl_current_dir b)),
                    bsdl_current_dir := bsdl_current_dir b - 1\<rparr>)
      | Some names \<Rightarrow>
          (case dropWhile (\<lambda>d_name. \<not> is_bsdl_name d_name) names of
             [] \<Rightarrow> parse_files host code (b\<lparr>bsdl_open_dir := None\<rparr>)
           | d_name # names \<Rightarrow>
               (let b = b\<lparr>bsdl_open_dir := Some names\<rparr>
                in case grow_scratchpad host (length d_name + length (dir_of b)) (bsdl_scratchpad_size b) of
                     None \<Rightarrow> parse_files host code b
                   | Some len \<Rightarrow>
                       if length d_name + length (dir_of b) + 2 > len then None
                       else
                         (let b = b\<lparr>bsdl_scratchpad_size := len\<rparr>
                          in case parse_extract_values (fopen host (path_of (dir_of b) d_name)) of
                               None \<Rightarrow> None
                             | Some None \<Rightarrow> parse_files host code b
                             | Some (Some info) \<Rightarrow>
                                 (let b = b\<lparr>bsdl_infos := bsdl_infos b @ [info]\<rparr>
                                  in if info_matches code info
                                     then Some (Some (length (bsdl_infos b) - 1), b\<lparr>bsdl_last := Some (length (bsdl_infos b) - 1)\<rparr>)
                                     else parse_files host code b)))))"
  by pat_completeness auto
termination
proof (relation "measures [\<lambda>(host, code, b). nat (bsdl_current_dir b + 1),
    \<lambda>(host, code, b). case bsdl_open_dir b of None \<Rightarrow> 0 | Some names \<Rightarrow> Suc (length names)]", goal_cases)
  case 1
  show ?case by (rule wf_measures)
next
  case (2 host code b)
  then show ?case by simp
next
  case 3
  then show ?case by simp
next
  case (4 host code b names d_name names')
  then show ?case using length_dropWhile_le [of "\<lambda>d_name. \<not> is_bsdl_name d_name" names] by simp
next
  case (5 host code b names d_name names')
  then show ?case using length_dropWhile_le [of "\<lambda>d_name. \<not> is_bsdl_name d_name" names] by simp
next
  case (6 host code b names d_name names')
  then show ?case using length_dropWhile_le [of "\<lambda>d_name. \<not> is_bsdl_name d_name" names] by simp
qed

declare parse_files.simps [simp del]

text \<open>First the description used last, then all those known, then new ones.\<close>

fun known_info :: "u32 \<Rightarrow> nat \<Rightarrow> bsdlinfo list \<Rightarrow> nat option" where
  "known_info code i [] = None"
| "known_info code i (info # infos) = (if info_matches code info then Some i else known_info code (i + 1) infos)"

definition last_matches :: "u32 \<Rightarrow> bsdl \<Rightarrow> nat option" where
  "last_matches code b =
     (case bsdl_last b of None \<Rightarrow> None | Some i \<Rightarrow> if info_matches code (bsdl_infos b ! i) then Some i else None)"

definition get_bsdl_info :: "bsdl_host \<Rightarrow> u32 \<Rightarrow> bsdl \<Rightarrow> (nat option \<times> bsdl) option" where
  "get_bsdl_info host code b =
     (case last_matches code b of
        Some i \<Rightarrow> Some (Some i, b)
      | None \<Rightarrow>
          (case known_info code 0 (bsdl_infos b) of
             Some i \<Rightarrow> Some (Some i, b\<lparr>bsdl_last := Some i\<rparr>)
           | None \<Rightarrow> parse_files host code b))"

section \<open>Queries\<close>

definition bsdl_get_name :: "bsdl_host \<Rightarrow> u32 \<Rightarrow> bsdl \<Rightarrow> (string option \<times> bsdl) option" where
  "bsdl_get_name host code b =
     map_option (\<lambda>(i, b). (case i of Some i \<Rightarrow> entity_name (bsdl_infos b ! i) | None \<Rightarrow> None, b)) (get_bsdl_info host code b)"

definition bsdl_get_IR_size :: "bsdl_host \<Rightarrow> u32 \<Rightarrow> bsdl \<Rightarrow> (int \<times> bsdl) option" where
  "bsdl_get_IR_size host code b =
     map_option (\<lambda>(i, b). (case i of Some i \<Rightarrow> IR_size (bsdl_infos b ! i) | None \<Rightarrow> - 1, b)) (get_bsdl_info host code b)"

definition bsdl_get_debug_cmd :: "bsdl_host \<Rightarrow> u32 \<Rightarrow> bsdl \<Rightarrow> (u32 \<times> bsdl) option" where
  "bsdl_get_debug_cmd host code b =
     map_option (\<lambda>(i, b). (case i of Some i \<Rightarrow> cmd_debug (bsdl_infos b ! i) | None \<Rightarrow> TAP_CMD_INVALID, b)) (get_bsdl_info host code b)"

definition bsdl_get_user1_cmd :: "bsdl_host \<Rightarrow> u32 \<Rightarrow> bsdl \<Rightarrow> (u32 \<times> bsdl) option" where
  "bsdl_get_user1_cmd host code b =
     map_option (\<lambda>(i, b). (case i of Some i \<Rightarrow> cmd_user1 (bsdl_infos b ! i) | None \<Rightarrow> TAP_CMD_INVALID, b)) (get_bsdl_info host code b)"

definition bsdl_get_idcode_cmd :: "bsdl_host \<Rightarrow> u32 \<Rightarrow> bsdl \<Rightarrow> (u32 \<times> bsdl) option" where
  "bsdl_get_idcode_cmd host code b =
     map_option (\<lambda>(i, b). (case i of Some i \<Rightarrow> cmd_idcode (bsdl_infos b ! i) | None \<Rightarrow> TAP_CMD_INVALID, b)) (get_bsdl_info host code b)"

end
