(* ===== verification/Bridge_Start.thy ===== *)
theory Bridge_Start
  imports Bsdl Dbg_Api
begin

unbundle bit_operations_syntax

text \<open>
  Start-up of the bridge (\<^verbatim>\<open>adv_jtag_bridge.c\<close>): the options of the command line, and \<^verbatim>\<open>configure_chain\<close>, which finds the devices on the
  chain, takes what it has to know about them from the command line and from their descriptions, and selects the debug unit of
  the target. The program is modelled with the serial-port server compiled in.
\<close>

section \<open>Outcomes\<close>

text \<open>
  The program goes on, ends with an exit status, or is stuck in a parser that does not return.
\<close>

datatype 'a run = Goes_on 'a | Exits int | Stuck

fun run_bind :: "'a run \<Rightarrow> ('a \<Rightarrow> 'b run) \<Rightarrow> 'b run" where
  "run_bind (Goes_on x) f = f x"
| "run_bind (Exits n) f = Exits n"
| "run_bind Stuck f = Stuck"

definition returned :: "'a option \<Rightarrow> 'a run" where
  "returned r = (case r of None \<Rightarrow> Stuck | Some x \<Rightarrow> Goes_on x)"

section \<open>Options\<close>

text \<open>The globals that the command line sets. The array of instruction lengths grows as needed.\<close>

record bridge_options =
  target_dev_pos :: nat
  do_selftest :: bool
  cmd_line_ir_sizes :: "(int \<times> int) list"
  cmd_line_cmd_debug :: int
  gdb_port :: string
  jspport :: string
  hwpport :: string
  force_alt_vjtag :: int

definition default_port :: string where "default_port = ''9999''"
definition default_jspport :: string where "default_jspport = ''9944''"
definition default_hwpport :: string where "default_hwpport = ''9928''"

definition default_options :: bridge_options where
  "default_options =
     \<lparr>target_dev_pos = 0, do_selftest = False, cmd_line_ir_sizes = [], cmd_line_cmd_debug = - 1,
      gdb_port = default_port, jspport = default_jspport, hwpport = default_hwpport, force_alt_vjtag = 0\<rparr>"

text \<open>A 64-bit result as an \<^verbatim>\<open>int\<close>.\<close>

definition c_int :: "u64 \<Rightarrow> int" where
  "c_int x = sint (ucast x :: u32)"

text \<open>\<^verbatim>\<open>strtol\<close> to base 10: the number, kept within 64 bits, and what follows it. \<^verbatim>\<open>atoi\<close> takes its low part.\<close>

definition strtol10 :: "string \<Rightarrow> int \<times> string" where
  "strtol10 s =
     (let t = dropWhile is_space s;
          sign = (if starts_with ''-'' t \<or> starts_with ''+'' t then take 1 t else []);
          ds = digits_of 10 (drop (length sign) t);
          v = (if sign = ''-'' then - digits_value 10 ds else digits_value 10 ds)
      in if ds = [] then (0, s)
         else (max (- (2 ^ 63)) (min v (2 ^ 63 - 1)), drop (length sign + length ds) t))"

definition atoi_int :: "string \<Rightarrow> int" where
  "atoi_int s = sint (of_int (fst (strtol10 s)) :: u32)"

text \<open>\<open>index:value\<close>, both to base 10.\<close>

definition get_ir_opts :: "string \<Rightarrow> (int \<times> int) run" where
  "get_ir_opts optstr =
     (case strstr '':'' optstr of
        None \<Rightarrow> Exits 1
      | Some ptr \<Rightarrow>
          Goes_on (c_int (strtoul 10 (take (length optstr - length ptr) optstr)), c_int (strtoul 10 (tl ptr))))"

text \<open>
  One option as \<^verbatim>\<open>getopt\<close> delivers it; an option it does not know, or one without its argument, is \<^verbatim>\<open>?\<close>.
\<close>

definition parse_option :: "char \<Rightarrow> string \<Rightarrow> bridge_options \<times> 'h jtag \<times> bsdl \<Rightarrow> (bridge_options \<times> 'h jtag \<times> bsdl) run" where
  "parse_option c optarg st =
     (let (opts, s, b) = st
      in if c = CHR ''h'' then Exits 0
         else if c = CHR ''g'' then Goes_on (opts\<lparr>gdb_port := optarg\<rparr>, s, b)
         else if c = CHR ''j'' then Goes_on (opts\<lparr>jspport := optarg\<rparr>, s, b)
         else if c = CHR ''w'' then Goes_on (opts\<lparr>hwpport := optarg\<rparr>, s, b)
         else if c = CHR ''x'' then Goes_on (opts\<lparr>target_dev_pos := unat (of_int (atoi_int optarg) :: u32)\<rparr>, s, b)
         else if c = CHR ''l'' then
           run_bind (get_ir_opts optarg)
             (\<lambda>set. Goes_on (opts\<lparr>cmd_line_ir_sizes := cmd_line_ir_sizes opts @ [set]\<rparr>, s, b))
         else if c = CHR ''c'' then Goes_on (opts\<lparr>cmd_line_cmd_debug := c_int (strtoul 16 optarg)\<rparr>, s, b)
         else if c = CHR ''v'' then Goes_on (opts, config_set_vjtag_cmd_vir (ucast (strtoul 16 optarg)) s, b)
         else if c = CHR ''r'' then Goes_on (opts, config_set_vjtag_cmd_vdr (ucast (strtoul 16 optarg)) s, b)
         else if c = CHR ''t'' then Goes_on (opts\<lparr>do_selftest := True\<rparr>, s, b)
         else if c = CHR ''a'' then
           Goes_on (opts\<lparr>force_alt_vjtag := (if atoi_int optarg = 1 then 1 else - 1)\<rparr>, s, b)
         else if c = CHR ''b'' then Goes_on (opts, s, bsdl_add_directory optarg b)
         else Exits 1)"

fun parse_options :: "(char \<times> string) list \<Rightarrow> bridge_options \<times> 'h jtag \<times> bsdl \<Rightarrow> (bridge_options \<times> 'h jtag \<times> bsdl) run" where
  "parse_options [] st = Goes_on st"
| "parse_options ((c, optarg) # cs) st = run_bind (parse_option c optarg st) (parse_options cs)"

section \<open>Looking up the devices\<close>

text \<open>The length given last on the command line overrides the description.\<close>

definition cmd_line_IR_size :: "bridge_options \<Rightarrow> nat \<Rightarrow> int \<Rightarrow> int" where
  "cmd_line_IR_size opts devidx retval =
     fold (\<lambda>(dev_index, ir_length) retval. if dev_index = int devidx then ir_length else retval) (cmd_line_ir_sizes opts) retval"

definition get_IR_size :: "bsdl_host \<Rightarrow> bridge_options \<Rightarrow> u32 list \<Rightarrow> nat \<Rightarrow> bsdl \<Rightarrow> (nat \<times> bsdl) run" where
  "get_IR_size host opts idcodes devidx b =
     run_bind (if idcodes ! devidx \<noteq> IDCODE_INVALID then returned (bsdl_get_IR_size host (idcodes ! devidx) b) else Goes_on (- 1, b))
       (\<lambda>(retval, b).
          let retval = cmd_line_IR_size opts devidx retval
          in if retval < 0 then Exits 1 else Goes_on (nat retval, b))"

definition ALTERA_MANUFACTURER_ID :: u32 where "ALTERA_MANUFACTURER_ID = 0x6E"
definition XILINX_MANUFACTURER_ID :: u32 where "XILINX_MANUFACTURER_ID = 0x49"

definition manuf_id :: "u32 \<Rightarrow> u32" where
  "manuf_id code = drop_bit 1 code AND 0x7FF"

definition get_debug_cmd :: "bsdl_host \<Rightarrow> bridge_options \<Rightarrow> u32 list \<Rightarrow> nat \<Rightarrow> bsdl \<Rightarrow> (u32 \<times> bsdl) run" where
  "get_debug_cmd host opts idcodes devidx b =
     run_bind
       (if idcodes ! devidx \<noteq> IDCODE_INVALID then
          if manuf_id (idcodes ! devidx) = XILINX_MANUFACTURER_ID then returned (bsdl_get_user1_cmd host (idcodes ! devidx) b)
          else returned (bsdl_get_debug_cmd host (idcodes ! devidx) b)
        else Goes_on (TAP_CMD_INVALID, b))
       (\<lambda>(retval, b).
          Goes_on (if cmd_line_cmd_debug opts \<ge> 0 then of_int (cmd_line_cmd_debug opts) else retval, b))"

section \<open>Configuring the chain\<close>

text \<open>The list of devices that is printed; it looks up every device.\<close>

fun list_devices :: "bsdl_host \<Rightarrow> u32 list \<Rightarrow> bsdl \<Rightarrow> bsdl run" where
  "list_devices host [] b = Goes_on b"
| "list_devices host (code # codes) b =
     (if code \<noteq> IDCODE_INVALID then
        run_bind (returned (bsdl_get_name host code b))
          (\<lambda>(name, b). run_bind (returned (bsdl_get_IR_size host code b)) (\<lambda>(irlen, b). list_devices host codes b))
      else list_devices host codes b)"

text \<open>
  The loop over the devices that adds up their instruction lengths; at the target the sum so far becomes the postfix, and the sum starts
  again.
\<close>

fun sum_IR_sizes :: "bsdl_host \<Rightarrow> bridge_options \<Rightarrow> u32 list \<Rightarrow> nat list \<Rightarrow> nat \<Rightarrow> 'h jtag \<times> bsdl \<Rightarrow> (nat \<times> 'h jtag \<times> bsdl) run" where
  "sum_IR_sizes host opts idcodes [] bits (s, b) = Goes_on (bits, s, b)"
| "sum_IR_sizes host opts idcodes (i # is) bits (s, b) =
     (if i = target_dev_pos opts then sum_IR_sizes host opts idcodes is 0 (config_set_IR_postfix_bits bits s, b)
      else run_bind (get_IR_size host opts idcodes i b)
             (\<lambda>(n, b). sum_IR_sizes host opts idcodes is (bits + n) (s, b)))"

definition set_lengths :: "bsdl_host \<Rightarrow> bridge_options \<Rightarrow> u32 list \<Rightarrow> 'h jtag \<times> bsdl \<Rightarrow> ('h jtag \<times> bsdl) run" where
  "set_lengths host opts idcodes sb =
     (let (s, b) = sb
      in run_bind (get_IR_size host opts idcodes (target_dev_pos opts) b) (\<lambda>(n, b).
         run_bind (sum_IR_sizes host opts idcodes [0..<length idcodes] 0 (config_set_IR_size n s, b)) (\<lambda>(bits, s, b).
         Goes_on (config_set_DR_postfix_bits (target_dev_pos opts)
                    (config_set_DR_prefix_bits (length idcodes - target_dev_pos opts - 1)
                      (config_set_IR_prefix_bits bits s)), b))))"

text \<open>The instruction for the debug unit, and the modes for the devices of the two manufacturers.\<close>

definition set_commands :: "bsdl_host \<Rightarrow> bridge_options \<Rightarrow> u32 list \<Rightarrow> 'h jtag \<times> bsdl \<Rightarrow> ('h jtag \<times> bsdl) run" where
  "set_commands host opts idcodes sb =
     (let (s, b) = sb;
          manuf = manuf_id (idcodes ! target_dev_pos opts)
      in run_bind
           (if force_alt_vjtag opts = - 1 \<or> force_alt_vjtag opts = 0 \<and> manuf \<noteq> ALTERA_MANUFACTURER_ID then
              run_bind (get_debug_cmd host opts idcodes (target_dev_pos opts) b) (\<lambda>(cmd, b).
                if cmd = TAP_CMD_INVALID then Exits 1 else Goes_on (config_set_debug_cmd cmd s, b))
            else Goes_on (s, b))
           (\<lambda>(s, b).
              let s = (if manuf = XILINX_MANUFACTURER_ID then config_set_xilinx_bscan 1 s else s);
                  s = (if force_alt_vjtag opts = 1 then config_set_alt_vjtag 1 s
                       else if force_alt_vjtag opts = - 1 then config_set_alt_vjtag 0 s
                       else if manuf = ALTERA_MANUFACTURER_ID then config_set_alt_vjtag 1 s
                       else config_set_alt_vjtag 0 s)
              in Goes_on (s, b)))"

text \<open>Reading the identification code of the target again; another code is only reported.\<close>

definition sanity_test :: "'h jtag_cable \<Rightarrow> bsdl_host \<Rightarrow> bridge_options \<Rightarrow> u32 list \<Rightarrow> 'h jtag \<times> bsdl \<Rightarrow> ('h jtag \<times> bsdl) run" where
  "sanity_test c host opts idcodes sb =
     (let (s, b) = sb
      in run_bind (returned (bsdl_get_idcode_cmd host (idcodes ! target_dev_pos opts) b)) (\<lambda>(cmd, b).
           if cmd \<noteq> TAP_CMD_INVALID then
             (let (err, id_read, s) = jtag_get_idcode c cmd s in if err \<noteq> APP_ERR_NONE then Exits 1 else Goes_on (s, b))
           else Goes_on (s, b)))"

definition configure_chain ::
  "'h jtag_cable \<Rightarrow> debug_hw \<Rightarrow> bsdl_host \<Rightarrow> bridge_options \<Rightarrow> 'h jtag \<times> bsdl \<Rightarrow> (u32 list \<times> 'h jtag \<times> bsdl) run" where
  "configure_chain c hardware host opts sb =
     (let (s, b) = sb;
          (err, s) = tap_reset c s;
          (e, ids, s) = jtag_enumerate_chain c s
      in case ids of
           None \<Rightarrow> Exits 1
         | Some idcodes \<Rightarrow>
             if err OR e \<noteq> APP_ERR_NONE then Exits 1
             else
               run_bind (list_devices host idcodes b) (\<lambda>b.
                 if hardware = DBG_HW_LEGACY \<and> length idcodes > 1 then Exits 0
                 else if target_dev_pos opts \<ge> length idcodes then Exits 1
                 else
                   run_bind (set_lengths host opts idcodes (s, b)) (\<lambda>sb.
                   run_bind (set_commands host opts idcodes sb) (\<lambda>sb.
                   run_bind (sanity_test c host opts idcodes sb) (\<lambda>(s, b).
                     let (err, s) = tap_enable_debug_module c s
                     in if err \<noteq> 0 then Exits 1 else Goes_on (idcodes, s, b))))))"

section \<open>The ports of the servers\<close>

text \<open>
  The value, and whether the whole string was a number. An argument that is no number gives way to the default for
  the first server only: for the others the default is stored in the variable of the first.
\<close>

definition port_number :: "string \<Rightarrow> int \<times> bool" where
  "port_number s = (fst (strtol10 s), snd (strtol10 s) = [])"

definition server_ports :: "bridge_options \<Rightarrow> int \<times> int \<times> int" where
  "server_ports opts =
     (let (serverPort, ok) = port_number (gdb_port opts);
          serverPort = (if ok then serverPort else fst (port_number default_port));
          rsp = serverPort;
          (jspserverport, ok) = port_number (jspport opts);
          serverPort = (if ok then serverPort else fst (port_number default_jspport));
          (hwpserverport, ok) = port_number (hwpport opts);
          serverPort = (if ok then serverPort else fst (port_number default_hwpport))
      in (rsp, jspserverport, hwpserverport))"

end
