(* ===== verification/Bsdl_Parse_Spec.thy ===== *)
theory Bsdl_Parse_Spec
  imports Bsdl_Parse
begin

unbundle bit_operations_syntax

text \<open>
  The parser of device descriptions reads back what a description says: printing a device in the layout of the published BSDL files and
  parsing the text gives the values of the device.
\<close>

section \<open>Printing a description\<close>

abbreviation dquote :: char where "dquote \<equiv> CHR 0x22"
abbreviation eol :: char where "eol \<equiv> CHR 0x0A"

definition bits_text :: "bool list \<Rightarrow> string" where
  "bits_text bs = map (\<lambda>b. if b then CHR ''1'' else CHR ''0'') bs"

text \<open>A register of the description, highest bit first; \<open>None\<close> is a bit that is not compared.\<close>

definition pattern_text :: "bool option list \<Rightarrow> string" where
  "pattern_text ps = map (\<lambda>p. case p of None \<Rightarrow> CHR ''X'' | Some b \<Rightarrow> if b then CHR ''1'' else CHR ''0'') ps"

fun decimal :: "nat \<Rightarrow> string" where
  "decimal n = (if n < 10 then [hex_digit n] else decimal (n div 10) @ [hex_digit (n mod 10)])"

declare decimal.simps [simp del]

record device =
  dev_name :: string
  dev_length :: nat
  dev_codes :: "(string \<times> bool list) list"
  dev_idcode :: "bool option list"

definition attribute_line :: "string \<Rightarrow> string \<Rightarrow> string \<Rightarrow> string" where
  "attribute_line attr dev rest = ''attribute'' @ CHR '' '' # attr @ CHR '' '' # ''of '' @ dev @ '' : entity is'' @ rest"

definition code_text :: "string \<times> bool list \<Rightarrow> string" where
  "code_text c = fst c @ '' ('' @ bits_text (snd c) @ '')''"

fun code_lines :: "(string \<times> bool list) list \<Rightarrow> string list" where
  "code_lines [] = []"
| "code_lines [c] = [dquote # code_text c @ [dquote, CHR '';'']]"
| "code_lines (c # cs) = (dquote # code_text c @ [CHR '','', dquote, CHR ''&'']) # code_lines cs"

definition device_lines :: "device \<Rightarrow> string list" where
  "device_lines d =
     [''entity'' @ CHR '' '' # dev_name d @ CHR '' '' # ''is'',
      attribute_line ''INSTRUCTION_LENGTH'' (dev_name d) (CHR '' '' # decimal (dev_length d) @ '';''),
      attribute_line ''INSTRUCTION_OPCODE'' (dev_name d) []] @
     code_lines (dev_codes d) @
     [attribute_line ''IDCODE_REGISTER'' (dev_name d) (CHR '' '' # dquote # pattern_text (dev_idcode d) @ [dquote, CHR '';'']),
      ''end'' @ CHR '' '' # dev_name d @ '';'']"

definition text_of :: "string list \<Rightarrow> string" where
  "text_of ls = concat (map (\<lambda>l. l @ [eol]) ls)"

text \<open>Names are made of letters, digits and underscores.\<close>

definition is_word :: "string \<Rightarrow> bool" where
  "is_word s \<longleftrightarrow> s \<noteq> [] \<and> (\<forall>c \<in> set s. is_digit c \<or> 65 \<le> (of_char c :: nat) \<and> (of_char c :: nat) \<le> 90 \<or>
     97 \<le> (of_char c :: nat) \<and> (of_char c :: nat) \<le> 122 \<or> c = CHR ''_'')"

definition proper_device_text :: "device \<Rightarrow> bool" where
  "proper_device_text d \<longleftrightarrow> is_word (dev_name d) \<and> dev_codes d \<noteq> [] \<and>
     (\<forall>c \<in> set (dev_codes d). is_word (fst c) \<and> strtoupper (fst c) = fst c \<and> snd c \<noteq> [] \<and> length (snd c) \<le> 32) \<and>
     dev_length d < 2 ^ 31 \<and> length (dev_idcode d) = 32"

text \<open>The values the device stands for.\<close>

definition bits_value :: "bool list \<Rightarrow> u32" where
  "bits_value bs = horner_sum of_bool 2 (rev bs)"

definition code_of :: "device \<Rightarrow> string \<Rightarrow> u32" where
  "code_of d nm = (case map_of (rev (dev_codes d)) nm of None \<Rightarrow> TAP_CMD_INVALID | Some bs \<Rightarrow> bits_value bs)"

definition device_info :: "device \<Rightarrow> bsdlinfo" where
  "device_info d =
     \<lparr>entity_name = Some (dev_name d),
      idcode = bits_value (map (\<lambda>p. p = Some True) (dev_idcode d)),
      idcode_mask = bits_value (map (\<lambda>p. p \<noteq> None) (dev_idcode d)),
      IR_size = int (dev_length d),
      cmd_debug = code_of d ''DEBUG'', cmd_user1 = code_of d ''USER1'', cmd_idcode = code_of d ''IDCODE''\<rparr>"

section \<open>Lines\<close>

text \<open>A line that \<^verbatim>\<open>get_line\<close> returns as it is.\<close>

definition plain :: "string \<Rightarrow> bool" where
  "plain l \<longleftrightarrow> l \<noteq> [] \<and> \<not> is_space (hd l) \<and> (\<forall>c \<in> set l. \<not> is_cntrl c \<and> c \<noteq> CHR ''-'')"

lemma strstr_absent: "c \<notin> set s \<Longrightarrow> strstr (c # p) s = None"
  by (induction s) (auto simp: starts_with_def)

lemma before_comment_plain: "CHR ''-'' \<notin> set l \<Longrightarrow> before_comment l = l"
  by (simp add: before_comment_def strstr_absent)

lemma newline_cntrl: "is_cntrl eol" "is_space eol"
  by (simp_all add: is_cntrl_def is_space_def)

lemma get_line_plain:
  assumes "plain l"
  shows "get_line (pre @ l @ eol # rest) (length pre) = (l, length pre + length l + 1)"
proof -
  let ?f = "pre @ l @ eol # rest"
  obtain c l' where l: "l = c # l'" using assms by (cases l) (auto simp: plain_def)
  have c: "\<not> is_space c" "c \<noteq> CHR ''-''" and n: "\<forall>c \<in> set l. \<not> is_cntrl c" "CHR ''-'' \<notin> set l"
    using assms by (auto simp: plain_def l)
  have "line_start ?f (length pre) = length pre"
    using c by (subst line_start.simps) (simp add: l nth_append)
  moreover have "takeWhile (\<lambda>c. \<not> is_cntrl c) (l @ eol # rest) = l"
    using n(1) by (simp add: newline_cntrl takeWhile_append2 takeWhile_tail)
  ultimately show ?thesis using before_comment_plain [OF n(2)] by (simp add: get_line_def)
qed

lemma text_of_simps [simp]: "text_of [] = []" "text_of (l # ls) = l @ eol # text_of ls" "text_of (ls @ ls') = text_of ls @ text_of ls'"
  by (simp_all add: text_of_def)

text \<open>The position behind the first lines of a text.\<close>

lemma get_line_text:
  assumes "plain l"
  shows "get_line (text_of (before @ l # rest)) (length (text_of before)) = (l, length (text_of (before @ [l])))"
  using get_line_plain [OF assms, of "text_of before" "text_of rest"] by simp

section \<open>Words and numbers\<close>

lemma word_char:
  assumes "is_word s" "c \<in> set s"
  shows "\<not> is_space c" "\<not> is_cntrl c" "c \<notin> set ''-(),:; &''" "c \<noteq> dquote" "c \<noteq> CHR 0x09"
  using assms by (auto simp: is_word_def is_digit_def is_space_def is_cntrl_def)

lemma strtok_cut:
  "t \<noteq> [] \<Longrightarrow> \<forall>c \<in> set t. c \<notin> set delims \<Longrightarrow> d \<in> set delims \<Longrightarrow> strtok_r delims (t @ d # r) = (Some t, r)"
  by (cases t) (simp_all add: strtok_r_def Let_def takeWhile_append2)

lemma strtok_end: "t \<noteq> [] \<Longrightarrow> \<forall>c \<in> set t. c \<notin> set delims \<Longrightarrow> strtok_r delims t = (Some t, [])"
  by (cases t) (simp_all add: strtok_r_def Let_def takeWhile_eq_all_conv [THEN iffD2])

lemma strtok_skip: "c \<in> set delims \<Longrightarrow> strtok_r delims (c # s) = strtok_r delims s"
  by (simp add: strtok_r_def)

lemma digit_chars: "0 \<le> hex c \<Longrightarrow> hex c < 10 \<Longrightarrow> is_digit c \<and> \<not> is_space c \<and> \<not> is_cntrl c \<and> c \<notin> set ''-+;:(),''"
  using of_nat_of_char [of c, where 'a = int]
  by (auto simp: hex_def is_digit_def is_space_def is_cntrl_def Let_def split: if_splits)

lemma scan_plain_number:
  assumes "ds \<noteq> []" "\<forall>c \<in> set ds. 0 \<le> hex c \<and> hex c < base" "base \<le> 10"
  shows "scan_number base None ds = Some (of_int (min (digits_value base ds) (2 ^ 64 - 1)), [])"
proof -
  obtain d ds' where d: "ds = d # ds'" using assms(1) by (cases ds) auto
  then have "\<not> is_space d" "d \<noteq> CHR ''-''" "d \<noteq> CHR ''+''" using assms(2,3) digit_chars [of d] by auto
  moreover have "digits_of base ds = ds" using assms(2) by (simp add: digits_of_def)
  ultimately show ?thesis using assms(3) by (simp add: scan_number_def within_def d Let_def)
qed

lemma decimal_digits: "c \<in> set (decimal n) \<Longrightarrow> 0 \<le> hex c \<and> hex c < 10"
proof (induction n rule: decimal.induct)
  case (1 n)
  show ?case
  proof (cases "n < 10")
    case True
    then show ?thesis using "1.prems" by (simp add: decimal.simps [of n] hex_digit_value)
  next
    case False
    then show ?thesis using 1 by (auto simp: decimal.simps [of n] hex_digit_value)
  qed
qed

lemma decimal_value: "digits_value 10 (decimal n) = int n"
proof (induction n rule: decimal.induct)
  case (1 n)
  show ?case
  proof (cases "n < 10")
    case True
    then show ?thesis by (simp add: decimal.simps [of n] digits_value_def hex_digit_value)
  next
    case False
    then have "digits_value 10 (decimal n) = 10 * digits_value 10 (decimal (n div 10)) + int (n mod 10)"
      by (simp add: decimal.simps [of n] digits_value_def hex_digit_value)
    also have "\<dots> = int (10 * (n div 10) + n mod 10)" using 1 [OF False] by (simp only: of_nat_add of_nat_mult of_nat_numeral)
    finally show ?thesis by simp
  qed
qed

lemma decimal_nonempty [simp]: "decimal n \<noteq> []"
  by (subst decimal.simps) simp

lemma decimal_length: "n < 10 ^ k \<Longrightarrow> 0 < k \<Longrightarrow> length (decimal n) \<le> k"
proof (induction k arbitrary: n)
  case (Suc k)
  show ?case
  proof (cases "n < 10")
    case False
    then have "0 < k" using Suc.prems by (cases k) auto
    moreover have "n div 10 < 10 ^ k" using Suc.prems by (simp add: less_mult_imp_div_less)
    ultimately show ?thesis using Suc.IH [of "n div 10"] False by (simp add: decimal.simps [of n])
  qed (simp add: decimal.simps [of n])
qed simp

lemma decimal_leading: "0 < n \<Longrightarrow> hd (decimal n) \<noteq> CHR ''0''"
proof (induction n rule: decimal.induct)
  case (1 n)
  show ?case
  proof (cases "n < 10")
    case True
    then have "hex (hd (decimal n)) = int n" by (simp add: decimal.simps [of n] hex_digit_value)
    then show ?thesis using "1.prems" by (auto simp: hex_def)
  next
    case False
    then show ?thesis using 1 by (simp add: decimal.simps [of n])
  qed
qed

lemma strtoul_decimal: "n < 2 ^ 64 \<Longrightarrow> strtoul 0 (decimal n) = of_nat n"
proof (cases "n = 0")
  case True
  then show ?thesis by (simp add: decimal.simps [of 0]) code_simp
next
  case False
  assume n: "n < 2 ^ 64"
  have "\<not> starts_with ''0'' (decimal n)" using decimal_leading [of n] False by (cases "decimal n") (auto simp: starts_with_def)
  then show ?thesis
    using scan_plain_number [of "decimal n" 10] decimal_digits [of _ n] decimal_value [of n] n
    by (simp add: strtoul_def min_def)
qed

lemma bits_digits: "c \<in> set (bits_text bs) \<Longrightarrow> 0 \<le> hex c \<and> hex c < 2"
  by (auto simp: bits_text_def hex_def split: if_splits)

lemma bits_digits_value: "digits_value 2 (bits_text bs) = horner_sum of_bool 2 (rev bs)"
proof (induction bs rule: rev_induct)
  case (snoc b bs)
  have "digits_value 2 (bits_text (bs @ [b])) = 2 * digits_value 2 (bits_text bs) + of_bool b"
    by (simp add: digits_value_def bits_text_def hex_def)
  then show ?case using snoc by simp
qed (simp add: digits_value_def bits_text_def)

lemma of_int_bits: "(of_int (horner_sum of_bool 2 bs) :: u32) = horner_sum of_bool 2 bs"
  by (induction bs) simp_all

lemma strtoul_bits:
  assumes "bs \<noteq> []" "length bs \<le> 32"
  shows "(ucast (strtoul 2 (bits_text bs)) :: u32) = bits_value bs"
proof -
  let ?v = "horner_sum of_bool 2 (rev bs) :: int"
  have "?v < 2 ^ length bs" using horner_sum_bound [of "rev bs"] by simp
  also have "(2 :: int) ^ length bs \<le> 2 ^ 32" using assms(2) by (intro power_increasing) simp_all
  finally have v: "?v < 2 ^ 32" .
  have "strtoul 2 (bits_text bs) = of_int ?v"
    using scan_plain_number [of "bits_text bs" 2] assms(1) bits_digits [of _ bs] bits_digits_value [of bs] v
    by (simp add: strtoul_def min_def bits_text_def)
  moreover have "(ucast (of_int ?v :: u64) :: u32) = of_int ?v"
  proof -
    have "0 \<le> ?v" by (rule horner_sum_nonnegative)
    then have "uint (of_int ?v :: u64) = ?v" using v by (simp add: uint_word_of_int take_bit_int_eq_self)
    then show ?thesis by (metis of_int_uint)
  qed
  moreover have "(of_int ?v :: u32) = bits_value bs" unfolding bits_value_def by (rule of_int_bits)
  ultimately show ?thesis by simp
qed

section \<open>Statements\<close>

lemma find_here: "search ptr = Some r \<Longrightarrow> find_in_lines search filedata ptr pos = Some (r, pos)"
  by (simp add: find_in_lines.simps)

lemma strchr_cut: "c \<notin> set t \<Longrightarrow> strchr c (t @ c # r) = Some (c # r)"
  by (induction t) (auto simp: strchr_def)

lemma entity_is:
  assumes "is_word dev"
  shows "find_entity_is filedata (''of '' @ dev @ '' : entity is'' @ rest) pos = Some (''is'' @ rest, pos)"
proof -
  have "strchr CHR '':'' (''of '' @ dev @ '' : entity is'' @ rest) = Some ('': entity is'' @ rest)"
    using strchr_cut [of "CHR '':''" "''of '' @ dev @ '' ''" "'' entity is'' @ rest"] word_char(3) [OF assms] by auto
  moreover have "strstr ''entity'' ('': entity is'' @ rest) = Some (''entity is'' @ rest)" by (simp add: starts_with_def)
  moreover have "strstr ''is'' (''entity is'' @ rest) = Some (''is'' @ rest)" by (simp add: starts_with_def)
  ultimately show ?thesis by (simp add: find_entity_is_def find_here)
qed

lemma scan_digits_front: "\<forall>c \<in> set ds. is_digit c \<Longrightarrow> scan_digits (ds @ r) buf = scan_digits r (buf @ ds)"
  by (induction ds arbitrary: buf) auto

lemma scan_quoted_front:
  "dquote \<notin> set s \<Longrightarrow> CHR '';'' \<notin> set s \<Longrightarrow> scan_quoted first (s @ r) (buf, True) = scan_quoted first r (buf @ s, True)"
  by (induction s arbitrary: buf) auto

lemma length_attribute:
  assumes "is_word dev" "n < 2 ^ 31"
  shows "instruction_length filedata (''of '' @ dev @ '' : entity is'' @ CHR '' '' # decimal n @ '';'') pos s =
    Some (s\<lparr>IR_size := int n, found_IR_size := True\<rparr>, pos)"
proof -
  have "scan_digits (decimal n @ '';'') [] = (decimal n, True)"
    using scan_digits_front [of "decimal n" "'';''" "[]"] decimal_digits [of _ n] digit_chars by (simp add: is_digit_def)
  then have "read_digits filedata (''is'' @ CHR '' '' # decimal n @ '';'') pos = Some (decimal n, pos)"
    by (simp add: read_digits_def is_digit_def)
  moreover have "length (decimal n) < TMPBUF_SIZE"
    using decimal_length [of n 10] assms(2) by (simp add: TMPBUF_SIZE_def)
  moreover have "sint (ucast (strtoul 0 (decimal n)) :: u32) = int n"
  proof -
    have "(ucast (of_nat n :: u64) :: u32) = of_nat n" using assms(2) by (simp add: unsigned_of_nat take_bit_nat_eq_self)
    moreover have "sint (of_nat n :: u32) = int n" using assms(2) by (simp add: sint_eq_uint_if unsigned_of_nat take_bit_nat_eq_self bit_31_iff_uint take_bit_int_eq_self uint_nat)
    ultimately show ?thesis using assms(2) by (simp add: strtoul_decimal)
  qed
  ultimately show ?thesis
    unfolding instruction_length_def entity_is [OF assms(1)] by simp
qed

text \<open>The identification code.\<close>

lemma pattern_quoted: "dquote \<notin> set (pattern_text ps)" "CHR '';'' \<notin> set (pattern_text ps)"
  by (auto simp: pattern_text_def split: option.splits if_splits)

lemma idcode_bits_frame:
  "idcode_bits cs i s = s\<lparr>idcode := idcode (idcode_bits cs i s), idcode_mask := idcode_mask (idcode_bits cs i s)\<rparr>"
proof (induction cs arbitrary: i s)
  case (Cons c cs)
  show ?case by (subst (1) idcode_bits.simps, subst (1) Cons) simp
qed simp

lemma idcode_bit_shifted: "i < 32 \<Longrightarrow> n < 32 \<Longrightarrow> bit (c_shl 1 (of_int (31 - int i))) n \<longleftrightarrow> n = 31 - i"
proof -
  assume i: "i < 32" and n: "n < 32"
  then have "(of_int (31 - int i) :: u32) = of_nat (31 - i)" by (simp add: of_nat_diff)
  moreover have "unat (of_nat (31 - i) AND 31 :: u32) = 31 - i"
    by (subst unat_and_31) (simp add: unsigned_of_nat take_bit_nat_eq_self)
  ultimately show ?thesis using n by (auto simp: c_shl_def bit_push_bit_iff bit_1_iff bit_exp_iff)
qed

lemma idcode_bits_bit:
  assumes "i + length ps \<le> 32" "k < 32"
  shows "(bit (idcode (idcode_bits (pattern_text ps) i s)) (31 - k) \<longleftrightarrow>
      bit (idcode s) (31 - k) \<or> i \<le> k \<and> k < i + length ps \<and> ps ! (k - i) = Some True) \<and>
    (bit (idcode_mask (idcode_bits (pattern_text ps) i s)) (31 - k) \<longleftrightarrow>
      bit (idcode_mask s) (31 - k) \<and> \<not> (i \<le> k \<and> k < i + length ps \<and> ps ! (k - i) = None))"
  using assms
proof (induction ps arbitrary: i s)
  case Nil
  show ?case by (auto simp: pattern_text_def)
next
  case (Cons p ps)
  obtain w :: u32 where w: "c_shl 1 (of_int (31 - int i)) = w" by blast
  have b: "bit w (31 - k) \<longleftrightarrow> k = i"
    unfolding w [symmetric] using idcode_bit_shifted [of i "31 - k"] Cons.prems by auto
  obtain t where t: "t = (if p = Some True then s\<lparr>idcode := idcode s OR w\<rparr>
    else if p = None then s\<lparr>idcode_mask := idcode_mask s AND NOT w\<rparr> else s)" by blast
  have e: "idcode_bits (pattern_text (p # ps)) i s = idcode_bits (pattern_text ps) (i + 1) t"
    unfolding pattern_text_def list.map idcode_bits.simps w t by (auto simp: to_upper_def split: option.splits)
  have l: "31 - k < 32" by simp
  have bt: "bit (idcode t) (31 - k) \<longleftrightarrow> bit (idcode s) (31 - k) \<or> k = i \<and> p = Some True"
    "bit (idcode_mask t) (31 - k) \<longleftrightarrow> bit (idcode_mask s) (31 - k) \<and> \<not> (k = i \<and> p = None)"
    using b l by (auto simp: t bit_or_iff bit_and_iff bit_not_iff)
  have "i + 1 + length ps \<le> 32" using Cons.prems by simp
  note IH = Cons.IH [OF this \<open>k < 32\<close>, of t]
  consider "k < i" | "k = i" | "i < k" "k - i = Suc (k - (i + 1))" by (metis Suc_diff_Suc Suc_eq_plus1 nat_neq_iff)
  then show ?case
  proof cases
    case 1
    then show ?thesis unfolding e IH [THEN conjunct1] IH [THEN conjunct2] bt by simp
  next
    case 2
    then show ?thesis unfolding e IH [THEN conjunct1] IH [THEN conjunct2] bt by simp
  next
    case 3
    then show ?thesis unfolding e IH [THEN conjunct1] IH [THEN conjunct2] bt by simp
  qed
qed

lemma bits_value_bit: "length bs = 32 \<Longrightarrow> k < 32 \<Longrightarrow> bit (bits_value bs) (31 - k) \<longleftrightarrow> bs ! k"
  unfolding bits_value_def by (subst bit_horner_sum_bit_word_iff) (auto simp: rev_nth)

lemma bits_value_eqI:
  assumes "length bs = 32" "\<And>k. k < 32 \<Longrightarrow> bit w (31 - k) \<longleftrightarrow> bs ! k"
  shows "(w :: u32) = bits_value bs"
proof (rule bit_word_eqI)
  fix n assume "n < LENGTH(32)"
  then have "31 - (31 - n) = n" "31 - n < 32" by simp_all
  then show "bit w n \<longleftrightarrow> bit (bits_value bs) n"
    using assms(2) [of "31 - n"] bits_value_bit [OF assms(1), of "31 - n"] by simp
qed

lemma idcode_pattern:
  assumes "length ps = 32" "idcode s = 0" "idcode_mask s = 0xFFFFFFFF"
  shows "idcode_bits (pattern_text ps) 0 s =
    s\<lparr>idcode := bits_value (map (\<lambda>p. p = Some True) ps), idcode_mask := bits_value (map (\<lambda>p. p \<noteq> None) ps)\<rparr>"
proof -
  have m: "bit (0xFFFFFFFF :: u32) (31 - k)" for k
  proof -
    have "(0xFFFFFFFF :: u32) = mask 32" by (simp add: mask_eq_exp_minus_1)
    then show ?thesis by (simp only: bit_mask_iff) simp
  qed
  have "idcode (idcode_bits (pattern_text ps) 0 s) = bits_value (map (\<lambda>p. p = Some True) ps)"
    using idcode_bits_bit [of 0 ps] assms by (intro bits_value_eqI) auto
  moreover have "idcode_mask (idcode_bits (pattern_text ps) 0 s) = bits_value (map (\<lambda>p. p \<noteq> None) ps)"
    using idcode_bits_bit [of 0 ps] assms m by (intro bits_value_eqI) auto
  ultimately show ?thesis by (subst idcode_bits_frame) simp
qed

text \<open>The instruction codes.\<close>

definition proper_code :: "string \<times> bool list \<Rightarrow> bool" where
  "proper_code c \<longleftrightarrow> is_word (fst c) \<and> strtoupper (fst c) = fst c \<and> snd c \<noteq> [] \<and> length (snd c) \<le> 32"

fun set_code :: "string \<times> bool list \<Rightarrow> bsdl_scan \<Rightarrow> bsdl_scan" where
  "set_code (nm, bs) s =
     (if nm = ''DEBUG'' then s\<lparr>cmd_debug := bits_value bs\<rparr>
      else if nm = ''USER1'' then s\<lparr>cmd_user1 := bits_value bs\<rparr>
      else if nm = ''IDCODE'' then s\<lparr>cmd_idcode := bits_value bs\<rparr> else s)"

fun joined :: "(string \<times> bool list) list \<Rightarrow> string" where
  "joined [] = []"
| "joined [c] = code_text c"
| "joined (c # cs) = code_text c @ CHR '','' # joined cs"

lemma bits_char: "c \<in> set (bits_text bs) \<Longrightarrow> c \<in> {CHR ''0'', CHR ''1''}"
  by (auto simp: bits_text_def)

lemma code_char:
  assumes "proper_code c" "x \<in> set (code_text c)"
  shows "x \<noteq> dquote" "x \<noteq> CHR '';''" "x \<noteq> CHR '',''" "x \<noteq> CHR ''-''" "\<not> is_cntrl x"
  using assms word_char [of "fst c" x] bits_char [of x "snd c"]
  by (auto simp: proper_code_def code_text_def is_cntrl_def)

lemma parse_code:
  assumes "proper_code c"
  shows "parse_opcode (code_text c) s = Some (set_code c s)"
proof -
  obtain nm bs where c: "c = (nm, bs)" by (cases c)
  have w: "is_word nm" "strtoupper nm = nm" "bs \<noteq> []" "length bs \<le> 32" using assms by (simp_all add: proper_code_def c)
  have "strtok_r (blanks @ ''('') (nm @ CHR '' '' # CHR ''('' # bits_text bs @ '')'') = (Some nm, CHR ''('' # bits_text bs @ '')'')"
    using word_char [OF w(1)] w(1) by (intro strtok_cut) (auto simp: is_word_def)
  moreover have "strtok_r (blanks @ ''()'') (CHR ''('' # bits_text bs @ '')'') = (Some (bits_text bs), [])"
    using strtok_cut [of "bits_text bs" "blanks @ ''()''" "CHR '')''" "[]"] bits_char [of _ bs] w(3)
    by (auto simp: strtok_skip bits_text_def)
  ultimately show ?thesis
    using w by (simp add: parse_opcode_def c code_text_def strtoul_bits Let_def)
qed

lemma code_text_nonempty: "code_text c \<noteq> []"
  by (simp add: code_text_def)

lemma parse_codes: "\<forall>c \<in> set cs. proper_code c \<Longrightarrow> parse_opcodes (joined cs) s = Some (fold set_code cs s)"
proof (induction cs arbitrary: s rule: joined.induct)
  case 1
  show ?case by (subst parse_opcodes.simps) (simp add: strtok_r_def)
next
  case (2 c)
  then have "strtok_r '','' (code_text c) = (Some (code_text c), [])"
    using code_char(3) [of c] by (intro strtok_end) (auto simp: code_text_nonempty)
  then have "parse_opcodes (code_text c) s = parse_opcodes [] (set_code c s)"
    using 2 by (subst parse_opcodes.simps) (simp add: parse_code)
  then show ?case by (simp, subst parse_opcodes.simps) (simp add: strtok_r_def)
next
  case (3 c c' cs)
  then have "strtok_r '','' (joined (c # c' # cs)) = (Some (code_text c), joined (c' # cs))"
    using code_char(3) [of c] strtok_cut [of "code_text c" "'',''" "CHR '',''"] by (auto simp: code_text_nonempty)
  then have "parse_opcodes (joined (c # c' # cs)) s = parse_opcodes (joined (c' # cs)) (set_code c s)"
    using 3 by (subst parse_opcodes.simps) (simp add: parse_code)
  then show ?case using 3 by simp
qed

lemma set_codes:
  "fold set_code cs s =
     s\<lparr>cmd_debug := (case map_of (rev cs) ''DEBUG'' of None \<Rightarrow> cmd_debug s | Some bs \<Rightarrow> bits_value bs),
       cmd_user1 := (case map_of (rev cs) ''USER1'' of None \<Rightarrow> cmd_user1 s | Some bs \<Rightarrow> bits_value bs),
       cmd_idcode := (case map_of (rev cs) ''IDCODE'' of None \<Rightarrow> cmd_idcode s | Some bs \<Rightarrow> bits_value bs)\<rparr>"
proof (induction cs rule: rev_induct)
  case (snoc c cs)
  then show ?case by (cases c) (simp add: fold_append)
qed simp

lemma quoted_plain:
  assumes "proper_code c" "set r \<subseteq> {CHR '','', dquote, CHR ''&'', CHR '';''}"
  shows "plain (dquote # code_text c @ r)"
proof -
  have "\<not> is_cntrl x \<and> x \<noteq> CHR ''-''" if "x \<in> set (dquote # code_text c @ r)" for x
    using that assms(2) code_char [OF assms(1), of x] by (auto simp: is_cntrl_def)
  then show ?thesis by (simp add: plain_def is_space_def)
qed

lemma code_lines_plain: "\<forall>c \<in> set cs. proper_code c \<Longrightarrow> l \<in> set (code_lines cs) \<Longrightarrow> plain l"
  by (induction cs rule: code_lines.induct) (auto intro!: quoted_plain)

lemma scan_code:
  assumes "proper_code c"
  shows "scan_quoted False (dquote # code_text c @ r) (buf, False) = scan_quoted False r (buf @ code_text c, True)"
  using scan_quoted_front [of "code_text c" False r buf] code_char [OF assms] by auto

lemma gather_codes:
  assumes "cs \<noteq> []" "\<forall>c \<in> set cs. proper_code c"
  shows "more_lines (scan_quoted False) (text_of (before @ code_lines cs @ rest)) (buf, False) (length (text_of before)) =
    Some ((buf @ joined cs, False), length (text_of (before @ code_lines cs)))"
  using assms
proof (induction cs arbitrary: before buf rule: joined.induct)
  case (2 c)
  let ?l = "dquote # code_text c @ [dquote, CHR '';'']"
  have "plain ?l" using code_lines_plain [OF 2(2)] by simp
  from get_line_text [OF this, of before rest] show ?case
    using scan_code [of c "[dquote, CHR '';'']" buf] 2 by (subst more_lines.simps) simp
next
  case (3 c c' cs)
  let ?l = "dquote # code_text c @ [CHR '','', dquote, CHR ''&'']"
  have "plain ?l" using code_lines_plain [OF 3(3), of ?l] by simp
  from get_line_text [OF this, of before "code_lines (c' # cs) @ rest"]
  have "more_lines (scan_quoted False) (text_of (before @ code_lines (c # c' # cs) @ rest)) (buf, False) (length (text_of before)) =
      more_lines (scan_quoted False) (text_of ((before @ [?l]) @ code_lines (c' # cs) @ rest)) (buf @ code_text c @ '','', False)
        (length (text_of (before @ [?l])))"
    using scan_code [of c "[CHR '','', dquote, CHR ''&'']" buf] 3(3) by (subst more_lines.simps) simp
  also have "\<dots> = Some (((buf @ code_text c @ '','') @ joined (c' # cs), False), length (text_of ((before @ [?l]) @ code_lines (c' # cs))))"
    using 3 by (intro "3.IH") auto
  finally show ?case by simp
qed simp

lemma joined_shorter: "cs \<noteq> [] \<Longrightarrow> length (joined cs) < length (text_of (code_lines cs))"
  by (induction cs rule: joined.induct) auto

lemma codes_attribute:
  assumes "is_word dev" "cs \<noteq> []" "\<forall>c \<in> set cs. proper_code c"
  shows "instruction_opcode (text_of (before @ code_lines cs @ rest)) (''of '' @ dev @ '' : entity is'') (length (text_of before)) s =
    Some ((fold set_code cs s)\<lparr>found_cmds := True\<rparr>, length (text_of (before @ code_lines cs)))"
proof -
  have "length (joined cs) < length (text_of (before @ code_lines cs @ rest)) - length (text_of before)"
    using joined_shorter [OF assms(2)] by simp
  then show ?thesis
    using entity_is [OF assms(1), of _ "[]"] gather_codes [OF assms(2,3), of before rest "[]"] parse_codes [OF assms(3)]
    unfolding instruction_opcode_def read_quoted_def by simp
qed

lemma idcode_attribute:
  assumes "is_word dev" "length ps = 32" "idcode s = 0" "idcode_mask s = 0xFFFFFFFF"
  shows "idcode_register filedata (''of '' @ dev @ '' : entity is'' @ CHR '' '' # dquote # pattern_text ps @ [dquote, CHR '';'']) pos s =
    Some (s\<lparr>idcode := bits_value (map (\<lambda>p. p = Some True) ps), idcode_mask := bits_value (map (\<lambda>p. p \<noteq> None) ps),
      found_idcode := True\<rparr>, pos)"
proof -
  have "read_quoted filedata (''is'' @ CHR '' '' # dquote # pattern_text ps @ [dquote, CHR '';'']) pos = Some (pattern_text ps, pos)"
    using scan_quoted_front [OF pattern_quoted, of True ps "[dquote, CHR '';'']" "[]"] by (simp add: read_quoted_def)
  moreover have "length (pattern_text ps) < TMPBUF_SIZE" using assms(2) by (simp add: pattern_text_def TMPBUF_SIZE_def)
  ultimately show ?thesis
    using entity_is [OF assms(1)] idcode_pattern [OF assms(2-4)] unfolding idcode_register_def by simp
qed

lemma upper_words:
  "strtoupper ''attribute'' = ''ATTRIBUTE''" "strtoupper ''entity'' = ''ENTITY''"
  "strtoupper ''INSTRUCTION_LENGTH'' = ''INSTRUCTION_LENGTH''" "strtoupper ''INSTRUCTION_OPCODE'' = ''INSTRUCTION_OPCODE''"
  "strtoupper ''IDCODE_REGISTER'' = ''IDCODE_REGISTER''"
  by code_simp+

lemma attribute_tokens:
  assumes "attr \<in> {''INSTRUCTION_LENGTH'', ''INSTRUCTION_OPCODE'', ''IDCODE_REGISTER''}"
  shows "strtok_r blanks (attribute_line attr dev rest) =
      (Some ''attribute'', attr @ CHR '' '' # ''of '' @ dev @ '' : entity is'' @ rest)"
    "strtok_r blanks (attr @ CHR '' '' # ''of '' @ dev @ '' : entity is'' @ rest) = (Some attr, ''of '' @ dev @ '' : entity is'' @ rest)"
    "strtoupper attr = attr"
proof -
  show "strtok_r blanks (attribute_line attr dev rest) =
      (Some ''attribute'', attr @ CHR '' '' # ''of '' @ dev @ '' : entity is'' @ rest)"
    unfolding attribute_line_def by (intro strtok_cut) auto
  show "strtok_r blanks (attr @ CHR '' '' # ''of '' @ dev @ '' : entity is'' @ rest) = (Some attr, ''of '' @ dev @ '' : entity is'' @ rest)"
    using assms by (intro strtok_cut) auto
  show "strtoupper attr = attr" using assms upper_words by auto
qed

definition printable :: "char \<Rightarrow> bool" where
  "printable c \<longleftrightarrow> \<not> is_cntrl c \<and> c \<noteq> CHR ''-''"

lemma plainI: "l \<noteq> [] \<Longrightarrow> \<not> is_space (hd l) \<Longrightarrow> list_all printable l \<Longrightarrow> plain l"
  by (simp add: plain_def printable_def list_all_iff)

lemma printable_literals:
  "list_all printable ''attribute''" "list_all printable ''entity''" "list_all printable ''INSTRUCTION_LENGTH''"
  "list_all printable ''INSTRUCTION_OPCODE''" "list_all printable ''IDCODE_REGISTER''" "list_all printable ''of ''"
  "list_all printable '' : entity is''" "list_all printable ''is''" "printable CHR '' ''" "printable CHR '';''" "printable dquote"
  by code_simp+

lemma printable_texts:
  "is_word s \<Longrightarrow> list_all printable s" "list_all printable (decimal n)" "list_all printable (pattern_text ps)"
proof -
  show "list_all printable s" if "is_word s" using word_char [OF that] by (auto simp: list_all_iff printable_def)
  show "list_all printable (decimal n)" using decimal_digits [of _ n] digit_chars by (auto simp: list_all_iff printable_def)
  show "list_all printable (pattern_text ps)"
    by (auto simp: list_all_iff pattern_text_def printable_def is_cntrl_def split: option.splits if_splits)
qed

lemma attribute_plain:
  assumes "is_word dev" "attr \<in> {''INSTRUCTION_LENGTH'', ''INSTRUCTION_OPCODE'', ''IDCODE_REGISTER''}" "list_all printable rest"
  shows "plain (attribute_line attr dev rest)"
proof (rule plainI)
  have "list_all printable attr" using assms(2) printable_literals by blast
  then show "list_all printable (attribute_line attr dev rest)"
    using printable_literals printable_texts(1) [OF assms(1)] assms(3) by (simp add: attribute_line_def)
qed (simp_all add: attribute_line_def is_space_def)

lemma attribute_statement:
  assumes "attr \<in> {''INSTRUCTION_LENGTH'', ''INSTRUCTION_OPCODE'', ''IDCODE_REGISTER''}"
  shows "parse_statement filedata ''attribute'' (attr @ CHR '' '' # ''of '' @ dev @ '' : entity is'' @ rest) pos s =
    map_option (Pair False)
      (if attr = ''INSTRUCTION_LENGTH'' then instruction_length filedata (''of '' @ dev @ '' : entity is'' @ rest) pos s
       else if attr = ''INSTRUCTION_OPCODE'' then instruction_opcode filedata (''of '' @ dev @ '' : entity is'' @ rest) pos s
       else idcode_register filedata (''of '' @ dev @ '' : entity is'' @ rest) pos s)"
  unfolding parse_statement_def parse_attribute_def attribute_tokens(2) [OF assms] Let_def
  using attribute_tokens(3) [OF assms] assms by (auto simp: upper_words)

section \<open>The whole file\<close>

lemma parse_step:
  assumes "ls = before @ l # rest" "plain l" "\<not> found_idcode s" "strtok_r blanks l = (Some token, ptr)"
    "parse_statement (text_of ls) token ptr (length (text_of (before @ [l]))) s = Some (False, s', pos)"
  shows "parse_loop (text_of ls) (length (text_of before)) s = parse_loop (text_of ls) pos s'"
proof -
  have "length (text_of before) < length (text_of ls)" by (simp add: assms(1))
  then show ?thesis
    using assms(3-5) get_line_text [OF assms(2), of before rest, folded assms(1)] by (subst parse_loop.simps) simp
qed

text \<open>One step for each statement of a description.\<close>

lemma entity_step:
  assumes "is_word dev" "ls = before @ (''entity'' @ CHR '' '' # dev @ CHR '' '' # ''is'') # rest" "\<not> found_idcode s"
  shows "parse_loop (text_of ls) (length (text_of before)) s =
    parse_loop (text_of ls) (length (text_of (before @ [''entity'' @ CHR '' '' # dev @ CHR '' '' # ''is'']))) (s\<lparr>entity_name := Some dev\<rparr>)"
proof (rule parse_step [OF assms(2) _ assms(3)])
  let ?l = "''entity'' @ CHR '' '' # dev @ CHR '' '' # ''is''"
  have n: "dev \<noteq> []" "\<forall>c \<in> set dev. c \<notin> set blanks" using word_char [OF assms(1)] assms(1) by (auto simp: is_word_def)
  show "plain ?l" using printable_literals printable_texts(1) [OF assms(1)] by (intro plainI) (simp_all add: is_space_def)
  show "strtok_r blanks ?l = (Some ''entity'', dev @ CHR '' '' # ''is'')" by (intro strtok_cut) auto
  show "parse_statement (text_of ls) ''entity'' (dev @ CHR '' '' # ''is'') pos s = Some (False, s\<lparr>entity_name := Some dev\<rparr>, pos)" for pos
    using n strtok_cut [of dev blanks "CHR '' ''" "''is''"] by (simp add: parse_statement_def upper_words)
qed

lemma attribute_step:
  assumes "is_word dev" "attr \<in> {''INSTRUCTION_LENGTH'', ''INSTRUCTION_OPCODE'', ''IDCODE_REGISTER''}" "list_all printable data"
    "ls = before @ attribute_line attr dev data # rest" "\<not> found_idcode s"
    "parse_statement (text_of ls) ''attribute'' (attr @ CHR '' '' # ''of '' @ dev @ '' : entity is'' @ data)
       (length (text_of (before @ [attribute_line attr dev data]))) s = Some (False, s', pos)"
  shows "parse_loop (text_of ls) (length (text_of before)) s = parse_loop (text_of ls) pos s'"
  using parse_step [OF assms(4) attribute_plain [OF assms(1-3)] assms(5) attribute_tokens(1) [OF assms(2)] assms(6)] .

lemma length_step:
  assumes "is_word dev" "n < 2 ^ 31"
    "ls = before @ attribute_line ''INSTRUCTION_LENGTH'' dev (CHR '' '' # decimal n @ '';'') # rest" "\<not> found_idcode s"
  shows "parse_loop (text_of ls) (length (text_of before)) s =
    parse_loop (text_of ls) (length (text_of (before @ [attribute_line ''INSTRUCTION_LENGTH'' dev (CHR '' '' # decimal n @ '';'')])))
      (s\<lparr>IR_size := int n, found_IR_size := True\<rparr>)"
proof (rule attribute_step [OF assms(1) _ _ assms(3,4)])
  show "list_all printable (CHR '' '' # decimal n @ '';'')" using printable_literals printable_texts by simp
qed (simp, subst attribute_statement, simp_all only: length_attribute [OF assms(1,2)] insert_iff simp_thms if_True option.map)

lemma codes_step:
  assumes "is_word dev" "cs \<noteq> []" "\<forall>c \<in> set cs. proper_code c"
    "ls = before @ attribute_line ''INSTRUCTION_OPCODE'' dev [] # code_lines cs @ rest" "\<not> found_idcode s"
  shows "parse_loop (text_of ls) (length (text_of before)) s =
    parse_loop (text_of ls) (length (text_of (before @ attribute_line ''INSTRUCTION_OPCODE'' dev [] # code_lines cs)))
      ((fold set_code cs s)\<lparr>found_cmds := True\<rparr>)"
proof (rule attribute_step [OF assms(1) _ _ assms(4,5)])
  let ?l = "attribute_line ''INSTRUCTION_OPCODE'' dev []"
  have "instruction_opcode (text_of ls) (''of '' @ dev @ '' : entity is'') (length (text_of (before @ [?l]))) s =
      Some ((fold set_code cs s)\<lparr>found_cmds := True\<rparr>, length (text_of (before @ ?l # code_lines cs)))"
    using codes_attribute [OF assms(1-3), of "before @ [?l]" rest s] by (simp only: assms(4) append_assoc append_Cons append_Nil)
  then show "parse_statement (text_of ls) ''attribute'' (''INSTRUCTION_OPCODE'' @ CHR '' '' # ''of '' @ dev @ '' : entity is'' @ [])
      (length (text_of (before @ [?l]))) s =
      Some (False, (fold set_code cs s)\<lparr>found_cmds := True\<rparr>, length (text_of (before @ ?l # code_lines cs)))"
    by (subst attribute_statement) (simp_all del: text_of_simps)
qed simp_all

lemma idcode_step:
  assumes "is_word dev" "length ps = 32" "idcode s = 0" "idcode_mask s = 0xFFFFFFFF"
    "ls = before @ attribute_line ''IDCODE_REGISTER'' dev (CHR '' '' # dquote # pattern_text ps @ [dquote, CHR '';'']) # rest"
    "\<not> found_idcode s"
  shows "parse_loop (text_of ls) (length (text_of before)) s =
    parse_loop (text_of ls)
      (length (text_of (before @ [attribute_line ''IDCODE_REGISTER'' dev (CHR '' '' # dquote # pattern_text ps @ [dquote, CHR '';''])])))
      (s\<lparr>idcode := bits_value (map (\<lambda>p. p = Some True) ps), idcode_mask := bits_value (map (\<lambda>p. p \<noteq> None) ps), found_idcode := True\<rparr>)"
proof (rule attribute_step [OF assms(1) _ _ assms(5,6)])
  show "list_all printable (CHR '' '' # dquote # pattern_text ps @ [dquote, CHR '';''])" using printable_literals printable_texts by simp
qed (simp, subst attribute_statement, simp_all only: idcode_attribute [OF assms(1-4)] insert_iff simp_thms if_True if_False option.map, simp)

lemma parse_description:
  assumes "proper_device_text d"
  shows "parse_extract_values (Some (text_of (device_lines d))) = Some (Some (device_info d))"
proof -
  let ?n = "dev_name d" and ?cs = "dev_codes d" and ?ps = "dev_idcode d" and ?ls = "device_lines d"
  let ?l1 = "''entity'' @ CHR '' '' # ?n @ CHR '' '' # ''is''"
  let ?l2 = "attribute_line ''INSTRUCTION_LENGTH'' ?n (CHR '' '' # decimal (dev_length d) @ '';'')"
  let ?l3 = "attribute_line ''INSTRUCTION_OPCODE'' ?n []"
  let ?l5 = "attribute_line ''IDCODE_REGISTER'' ?n (CHR '' '' # dquote # pattern_text ?ps @ [dquote, CHR '';''])"
  let ?s1 = "nothing_found\<lparr>entity_name := Some ?n\<rparr>"
  let ?s2 = "?s1\<lparr>IR_size := int (dev_length d), found_IR_size := True\<rparr>"
  let ?s3 = "(fold set_code ?cs ?s2)\<lparr>found_cmds := True\<rparr>"
  let ?s5 = "?s3\<lparr>idcode := bits_value (map (\<lambda>p. p = Some True) ?ps), idcode_mask := bits_value (map (\<lambda>p. p \<noteq> None) ?ps),
      found_idcode := True\<rparr>"
  have w: "is_word ?n" "?cs \<noteq> []" "\<forall>c \<in> set ?cs. proper_code c" "dev_length d < 2 ^ 31" "length ?ps = 32"
    using assms by (auto simp: proper_device_text_def proper_code_def)
  have f: "\<not> found_idcode nothing_found" "\<not> found_idcode ?s1" "\<not> found_idcode ?s2" "\<not> found_idcode ?s3"
    "idcode ?s3 = 0" "idcode_mask ?s3 = 0xFFFFFFFF" "found_IR_size ?s3"
    by (simp_all add: set_codes nothing_found_def)
  have "parse_loop (text_of ?ls) (length (text_of [])) nothing_found = parse_loop (text_of ?ls) (length (text_of [?l1])) ?s1"
    using entity_step [OF w(1) _ f(1), of ?ls "[]"] by (simp add: device_lines_def)
  also have "\<dots> = parse_loop (text_of ?ls) (length (text_of [?l1, ?l2])) ?s2"
    using length_step [OF w(1,4) _ f(2), of ?ls "[?l1]"] by (simp add: device_lines_def)
  also have "\<dots> = parse_loop (text_of ?ls) (length (text_of ([?l1, ?l2, ?l3] @ code_lines ?cs))) ?s3"
    using codes_step [OF w(1-3) _ f(3), of ?ls "[?l1, ?l2]"] by (simp add: device_lines_def)
  also have "\<dots> = parse_loop (text_of ?ls) (length (text_of ([?l1, ?l2, ?l3] @ code_lines ?cs @ [?l5]))) ?s5"
    using idcode_step [OF w(1,5) f(5,6) _ f(4), of ?ls "[?l1, ?l2, ?l3] @ code_lines ?cs"] by (simp add: device_lines_def)
  also have "\<dots> = Some ?s5" using f(7) by (subst parse_loop.simps) simp
  finally have "parse_loop (text_of ?ls) 0 nothing_found = Some ?s5" by simp
  moreover have "bsdlinfo.truncate ?s5 = device_info d"
    by (simp add: set_codes nothing_found_def bsdlinfo.truncate_def device_info_def code_of_def split: option.split)
  ultimately show ?thesis by (simp add: parse_extract_values_def)
qed

text \<open>A test access port of four bits, with the version of its identification code open.\<close>

definition or1k_tap :: device where
  "or1k_tap =
     \<lparr>dev_name = ''or1k_tap'', dev_length = 4,
      dev_codes = [(''IDCODE'', [False, False, True, False]), (''DEBUG'', [True, False, False, False])],
      dev_idcode = map (\<lambda>c. if c = CHR ''X'' then None else Some (c = CHR ''1'')) ''XXXX0100100101010001000110000101''\<rparr>"

lemma or1k_tap_proper: "proper_device_text or1k_tap"
proof -
  have "is_word ''or1k_tap''" "is_word ''IDCODE''" "is_word ''DEBUG''" "strtoupper ''IDCODE'' = ''IDCODE''" "strtoupper ''DEBUG'' = ''DEBUG''"
    by code_simp+
  then show ?thesis by (simp add: proper_device_text_def or1k_tap_def)
qed

lemma or1k_tap_info:
  "device_info or1k_tap = \<lparr>entity_name = Some ''or1k_tap'', idcode = 0x4951185, idcode_mask = 0x0FFFFFFF, IR_size = 4,
    cmd_debug = 8, cmd_user1 = TAP_CMD_INVALID, cmd_idcode = 2\<rparr>"
  by (simp add: device_info_def or1k_tap_def code_of_def bits_value_def split: option.splits) (metis (full_types))

text \<open>
  C29.
  Reading a device description: for every device with a proper name, at least one instruction code of at most 32 bits and an
  identification code of 32 characters, the parser returns for the printed description exactly the name, instruction length,
  identification code with the mask of the compared bits, and the codes of \<^verbatim>\<open>DEBUG\<close>, \<^verbatim>\<open>USER1\<close> and \<^verbatim>\<open>IDCODE\<close>
  (the last one where a name occurs twice, the invalid code where it does not occur).
\<close>

theorem description_round_trip:
  assumes "proper_device_text d"
  shows "parse_extract_values (Some (text_of (device_lines d))) = Some (Some (device_info d))"
  by (rule parse_description [OF assms])

theorem description_round_trip_witness:
  "parse_extract_values (Some (text_of (device_lines or1k_tap))) =
    Some (Some \<lparr>entity_name = Some ''or1k_tap'', idcode = 0x4951185, idcode_mask = 0x0FFFFFFF, IR_size = 4,
      cmd_debug = 8, cmd_user1 = TAP_CMD_INVALID, cmd_idcode = 2\<rparr>)"
  using description_round_trip [OF or1k_tap_proper] by (simp only: or1k_tap_info)

section \<open>What the parser does not read\<close>

text \<open>
  Keywords are capitalised only where they start a statement: an attribute that writes \<^verbatim>\<open>ENTITY IS\<close> in capitals sends the parser through
  the rest of the file and then into an endless loop.
\<close>

lemma capital_entity_hangs:
  "parse_extract_values (Some (text_of [''attribute INSTRUCTION_LENGTH of x : ENTITY IS 4;'', ''end x;''])) = None"
  by code_simp

text \<open>
  The semicolon of a \<^verbatim>\<open>use\<close> statement is cut off with the name before it, so that the next statement is taken for a part of it.
\<close>

lemma use_swallows_statement:
  "map_option (map_option IR_size)
     (parse_extract_values (Some (text_of [''use STD.all;'', ''attribute INSTRUCTION_LENGTH of x : entity is 4;'', ''end x;'']))) =
   Some (Some (- 1))"
  by code_simp

text \<open>
  The buffer for the instruction codes has the size of the file behind the current line: codes on the line of the attribute itself can
  be longer.
\<close>

lemma codes_overflow_buffer:
  "parse_extract_values
     (Some (text_of [''attribute INSTRUCTION_OPCODE of x : entity is '' @ dquote # ''DEBUG (1000)'' @ [dquote, CHR '';''], ''end x;''])) = None"
  by code_simp

end
