(* ===== verification/Bsdl_Spec.thy ===== *)
theory Bsdl_Spec
  imports Bsdl Bsdl_Parse_Spec
begin

text \<open>
  The lazy search for a device description (\<^verbatim>\<open>get_bsdl_info\<close>) answers as a search in the complete data base would.
\<close>

section \<open>The complete data base\<close>

text \<open>The files that have not been looked at yet, with their directory, in the order in which they will be.\<close>

definition names_in :: "string list option \<Rightarrow> string list" where
  "names_in names = (case names of None \<Rightarrow> [] | Some names \<Rightarrow> filter is_bsdl_name names)"

definition files_ahead :: "bsdl_host \<Rightarrow> bsdl \<Rightarrow> (string \<times> string) list" where
  "files_ahead host b =
     map (Pair (dir_of b)) (names_in (bsdl_open_dir b)) @
     concat (map (\<lambda>dir. map (Pair dir) (names_in (opendir host dir))) (rev (take (nat (bsdl_current_dir b + 1)) (bsdl_dirs b))))"

fun described :: "bsdl_host \<Rightarrow> string \<times> string \<Rightarrow> bsdlinfo option option" where
  "described host (dir, d_name) = parse_extract_values (fopen host (path_of dir d_name))"

definition info_of :: "bsdl_host \<Rightarrow> string \<times> string \<Rightarrow> bsdlinfo list" where
  "info_of host f = (case described host f of Some (Some info) \<Rightarrow> [info] | _ \<Rightarrow> [])"

definition all_infos :: "bsdl_host \<Rightarrow> bsdl \<Rightarrow> bsdlinfo list" where
  "all_infos host b = bsdl_infos b @ concat (map (info_of host) (files_ahead host b))"

text \<open>
  The parser returns for every file ahead, and its path fits into the scratchpad after one extension.
\<close>

definition fits_scratchpad :: "nat \<Rightarrow> string \<times> string \<Rightarrow> bool" where
  "fits_scratchpad len f \<longleftrightarrow> length (fst f) + length (snd f) + 2 \<le> 2 * len"

definition readable :: "bsdl_host \<Rightarrow> bsdl \<Rightarrow> bool" where
  "readable host b \<longleftrightarrow> (\<forall>n. realloc host n) \<and>
     (\<forall>f \<in> set (files_ahead host b). described host f \<noteq> None \<and> fits_scratchpad (bsdl_scratchpad_size b) f)"

definition bsdl_valid :: "bsdl \<Rightarrow> bool" where
  "bsdl_valid b \<longleftrightarrow> bsdl_current_dir b < int (length (bsdl_dirs b)) \<and>
     (case bsdl_last b of None \<Rightarrow> True | Some i \<Rightarrow> i < length (bsdl_infos b))"

section \<open>Parsing ahead\<close>

lemma files_ahead_next_dir:
  assumes "bsdl_open_dir b = None" "\<not> bsdl_current_dir b < 0" "bsdl_current_dir b < int (length (bsdl_dirs b))"
  shows "files_ahead host (b\<lparr>bsdl_open_dir := opendir host (bsdl_dirs b ! nat (bsdl_current_dir b)),
      bsdl_current_dir := bsdl_current_dir b - 1\<rparr>) = files_ahead host b"
proof -
  have "nat (bsdl_current_dir b + 1) = Suc (nat (bsdl_current_dir b))" using assms(2) by simp
  moreover have "nat (bsdl_current_dir b) < length (bsdl_dirs b)" using assms by linarith
  ultimately show ?thesis by (simp add: files_ahead_def dir_of_def names_in_def assms(1) take_Suc_conv_app_nth)
qed

lemma names_in_dropWhile: "names_in (Some (dropWhile (\<lambda>d_name. \<not> is_bsdl_name d_name) names)) = names_in (Some names)"
  by (induction names) (auto simp: names_in_def)

lemma files_ahead_end:
  "bsdl_open_dir b = Some names \<Longrightarrow> dropWhile (\<lambda>d_name. \<not> is_bsdl_name d_name) names = [] \<Longrightarrow>
   files_ahead host (b\<lparr>bsdl_open_dir := None\<rparr>) = files_ahead host b"
  using names_in_dropWhile [of names] by (simp add: files_ahead_def names_in_def dir_of_def)

lemma files_ahead_next:
  assumes "bsdl_open_dir b = Some names" "dropWhile (\<lambda>d_name. \<not> is_bsdl_name d_name) names = d_name # names'"
  shows "files_ahead host b = (dir_of b, d_name) # files_ahead host (b\<lparr>bsdl_open_dir := Some names'\<rparr>)"
proof -
  have "is_bsdl_name d_name" using assms(2) by (auto simp: dropWhile_eq_Cons_conv)
  then show ?thesis
    using names_in_dropWhile [of names, symmetric] by (simp add: files_ahead_def names_in_def dir_of_def assms)
qed

lemma files_ahead_cong:
  "files_ahead host (b\<lparr>bsdl_infos := infos\<rparr>) = files_ahead host b"
  "files_ahead host (b\<lparr>bsdl_last := i\<rparr>) = files_ahead host b"
  "files_ahead host (b\<lparr>bsdl_scratchpad_size := len\<rparr>) = files_ahead host b"
  by (simp_all add: files_ahead_def dir_of_def)

lemma grow_fits:
  assumes "\<forall>n. realloc host n" "fits_scratchpad (bsdl_scratchpad_size b) (dir, d_name)"
  shows "\<exists>len. grow_scratchpad host (length d_name + length dir) (bsdl_scratchpad_size b) = Some len \<and>
    \<not> length d_name + length dir + 2 > len \<and> bsdl_scratchpad_size b \<le> len"
  using assms by (auto simp: grow_scratchpad_def fits_scratchpad_def)

text \<open>What a search leaves behind.\<close>

definition finds :: "bsdl_host \<Rightarrow> u32 \<Rightarrow> bsdl \<Rightarrow> nat option \<Rightarrow> bsdl \<Rightarrow> bool" where
  "finds host code b r b' \<longleftrightarrow> all_infos host b' = all_infos host b \<and> bsdl_valid b' \<and> readable host b' \<and>
     (case r of
        None \<Rightarrow> \<forall>info \<in> set (all_infos host b). \<not> info_matches code info
      | Some i \<Rightarrow> i < length (bsdl_infos b') \<and> info_matches code (bsdl_infos b' ! i))"

lemma finds_cong: "all_infos host b1 = all_infos host b \<Longrightarrow> finds host code b1 = finds host code b"
  by (intro ext) (simp add: finds_def split: option.split)

lemma parse_files_finds:
  assumes "bsdl_valid b" "readable host b" "\<forall>info \<in> set (bsdl_infos b). \<not> info_matches code info"
  shows "\<exists>r b'. parse_files host code b = Some (r, b') \<and> finds host code b r b'"
  using assms
proof (induction host code b rule: parse_files.induct)
  case (1 host code b)
  note IH_dir = "1.IH"(1) and IH_end = "1.IH"(2) and IH_skip = "1.IH"(3) and IH_null = "1.IH"(4) and IH_next = "1.IH"(5)
  show ?case
  proof (cases "bsdl_open_dir b")
    case None
    show ?thesis
    proof (cases "bsdl_current_dir b < 0")
      case True
      then have "files_ahead host b = []" by (simp add: files_ahead_def None names_in_def)
      then have "finds host code b None b" using "1.prems" by (simp add: finds_def all_infos_def)
      then show ?thesis by (subst parse_files.simps) (simp add: None True)
    next
      case False
      let ?b = "b\<lparr>bsdl_open_dir := opendir host (bsdl_dirs b ! nat (bsdl_current_dir b)), bsdl_current_dir := bsdl_current_dir b - 1\<rparr>"
      have f: "files_ahead host ?b = files_ahead host b"
        using files_ahead_next_dir [OF None False] "1.prems"(1) by (simp add: bsdl_valid_def)
      then have a: "all_infos host ?b = all_infos host b" by (simp add: all_infos_def)
      moreover have "bsdl_valid ?b" using "1.prems"(1) by (simp add: bsdl_valid_def split: option.splits)
      moreover have "readable host ?b" using "1.prems"(2) f by (simp add: readable_def)
      moreover have "parse_files host code b = parse_files host code ?b" by (subst parse_files.simps) (simp add: None False)
      ultimately show ?thesis using IH_dir [OF None False] "1.prems"(3) finds_cong [OF a] by simp
    qed
  next
    case (Some names)
    show ?thesis
    proof (cases "dropWhile (\<lambda>d_name. \<not> is_bsdl_name d_name) names")
      case Nil
      let ?b = "b\<lparr>bsdl_open_dir := None\<rparr>"
      have f: "files_ahead host ?b = files_ahead host b" by (rule files_ahead_end [OF Some Nil])
      then have a: "all_infos host ?b = all_infos host b" by (simp add: all_infos_def)
      moreover have "bsdl_valid ?b" using "1.prems"(1) by (simp add: bsdl_valid_def split: option.splits)
      moreover have "readable host ?b" using "1.prems"(2) f by (simp add: readable_def)
      moreover have "parse_files host code b = parse_files host code ?b" by (subst parse_files.simps) (simp add: Some Nil)
      ultimately show ?thesis using IH_end [OF Some Nil] "1.prems"(3) finds_cong [OF a] by simp
    next
      case (Cons d_name names')
      let ?b = "b\<lparr>bsdl_open_dir := Some names'\<rparr>"
      have d: "dir_of ?b = dir_of b" by (simp add: dir_of_def)
      note f = files_ahead_next [OF Some Cons, of host]
      have r: "\<forall>n. realloc host n" "described host (dir_of b, d_name) \<noteq> None"
        "fits_scratchpad (bsdl_scratchpad_size b) (dir_of b, d_name)"
        using "1.prems"(2) by (auto simp: readable_def f)
      from grow_fits [OF r(1,3)] obtain len where
        g: "grow_scratchpad host (length d_name + length (dir_of ?b)) (bsdl_scratchpad_size ?b) = Some len"
          "\<not> length d_name + length (dir_of ?b) + 2 > len" "bsdl_scratchpad_size b \<le> len"
        by (auto simp: d)
      let ?c = "?b\<lparr>bsdl_scratchpad_size := len\<rparr>"
      have dc: "dir_of ?c = dir_of b" by (simp add: dir_of_def)
      have fc: "files_ahead host ?c = files_ahead host ?b" by (rule files_ahead_cong)
      have vc: "bsdl_valid ?c" using "1.prems"(1) by (simp add: bsdl_valid_def split: option.splits)
      have rc: "readable host ?c"
        using "1.prems"(2) g(3) by (fastforce simp: readable_def fc f fits_scratchpad_def)
      from r(2) obtain p where p: "parse_extract_values (fopen host (path_of (dir_of ?c) d_name)) = Some p"
        by (auto simp: dc)
      show ?thesis
      proof (cases p)
        case None
        then have a: "all_infos host ?c = all_infos host b" using p by (simp add: all_infos_def fc f info_of_def dc)
        moreover have "parse_files host code b = parse_files host code ?c"
          unfolding parse_files.simps [of host code b] Some Cons option.case list.case Let_def g(1) if_not_P [OF g(2)] p None ..
        moreover have "\<exists>r b'. parse_files host code ?c = Some (r, b') \<and> finds host code ?c r b'"
          using IH_null [OF Some Cons refl g(1) g(2) refl p None vc rc] "1.prems"(3) by simp
        ultimately show ?thesis using finds_cong [OF a] by simp
      next
        case (Some info)
        let ?d = "?c\<lparr>bsdl_infos := bsdl_infos ?c @ [info]\<rparr>"
        have fd: "files_ahead host ?d = files_ahead host ?b" using fc by (simp add: files_ahead_cong)
        have ad: "all_infos host ?d = all_infos host b" unfolding all_infos_def fd f using p Some by (simp add: info_of_def dc)
        have vd: "bsdl_valid ?d" using vc by (auto simp: bsdl_valid_def split: option.splits)
        have rd: "readable host ?d" using rc unfolding readable_def fc fd by (auto simp: fits_scratchpad_def)
        have e: "parse_files host code b =
            (if info_matches code info then Some (Some (length (bsdl_infos b)), ?d\<lparr>bsdl_last := Some (length (bsdl_infos b))\<rparr>)
             else parse_files host code ?d)"
          unfolding parse_files.simps [of host code b] \<open>bsdl_open_dir b = Some names\<close> Cons option.case list.case Let_def
            g(1) if_not_P [OF g(2)] p Some by simp
        show ?thesis
        proof (cases "info_matches code info")
          case True
          have "finds host code b (Some (length (bsdl_infos b))) (?d\<lparr>bsdl_last := Some (length (bsdl_infos b))\<rparr>)"
            using ad vd rd True by (simp add: finds_def all_infos_def files_ahead_cong readable_def bsdl_valid_def)
          then show ?thesis by (simp add: e True)
        next
          case False
          have "\<exists>r b'. parse_files host code ?d = Some (r, b') \<and> finds host code ?d r b'"
            using IH_next [OF \<open>bsdl_open_dir b = Some names\<close> Cons refl g(1) g(2) refl p Some refl False vd rd] "1.prems"(3) False by simp
          then show ?thesis using finds_cong [OF ad] by (simp add: e False)
        qed
      qed
    qed
  qed
qed

lemma known_info_finds:
  "known_info code i infos = Some j \<Longrightarrow> i \<le> j \<and> j - i < length infos \<and> info_matches code (infos ! (j - i))"
proof (induction infos arbitrary: i)
  case (Cons info infos)
  show ?case
  proof (cases "info_matches code info")
    case False
    then have "i + 1 \<le> j" "j - (i + 1) < length infos" "info_matches code (infos ! (j - (i + 1)))"
      using Cons.IH [of "i + 1"] Cons.prems by simp_all
    moreover from this have "j - i = Suc (j - (i + 1))" by simp
    ultimately show ?thesis by simp
  qed (use Cons.prems in simp)
qed simp

lemma known_info_none: "known_info code i infos = None \<Longrightarrow> \<forall>info \<in> set infos. \<not> info_matches code info"
  by (induction infos arbitrary: i) (auto split: if_splits)

lemma get_bsdl_info_finds:
  assumes "bsdl_valid b" "readable host b"
  shows "\<exists>r b'. get_bsdl_info host code b = Some (r, b') \<and> finds host code b r b'"
proof (cases "last_matches code b")
  case (Some i)
  then have "finds host code b (Some i) b"
    using assms by (auto simp: finds_def last_matches_def bsdl_valid_def split: option.splits if_splits)
  then show ?thesis by (simp add: get_bsdl_info_def Some)
next
  case None
  show ?thesis
  proof (cases "known_info code 0 (bsdl_infos b)")
    case (Some i)
    then have "finds host code b (Some i) (b\<lparr>bsdl_last := Some i\<rparr>)"
      using assms known_info_finds [OF Some]
      by (auto simp: finds_def all_infos_def files_ahead_cong readable_def bsdl_valid_def)
    then show ?thesis by (simp add: get_bsdl_info_def None Some)
  next
    case none: None
    from parse_files_finds [OF assms known_info_none [OF none]] show ?thesis by (simp add: get_bsdl_info_def None none)
  qed
qed

lemma find_unique:
  assumes "x \<in> set xs" "P x" "\<And>y. y \<in> set xs \<Longrightarrow> P y \<Longrightarrow> y = x"
  shows "List.find P xs = Some x"
proof -
  have "List.find P xs \<noteq> None" using assms(1,2) by (auto simp: find_None_iff)
  then obtain y where y: "List.find P xs = Some y" by blast
  then have "y \<in> set xs" "P y" by (auto simp: find_Some_iff)
  then show ?thesis using y assms(3) by simp
qed

text \<open>Each query answers what the complete data base says, and the data base stays the same.\<close>

definition unambiguous :: "u32 \<Rightarrow> bsdlinfo list \<Rightarrow> bool" where
  "unambiguous code infos \<longleftrightarrow>
     (\<forall>x \<in> set infos. \<forall>y \<in> set infos. info_matches code x \<longrightarrow> info_matches code y \<longrightarrow> x = y)"

lemma lookup_is_find:
  assumes "bsdl_valid b" "readable host b" "unambiguous code (all_infos host b)"
  shows "\<exists>r b'. get_bsdl_info host code b = Some (r, b') \<and>
    map_option ((!) (bsdl_infos b')) r = List.find (info_matches code) (all_infos host b) \<and>
    all_infos host b' = all_infos host b \<and> bsdl_valid b' \<and> readable host b'"
proof -
  from get_bsdl_info_finds [OF assms(1,2), of code] obtain r b' where
    f: "get_bsdl_info host code b = Some (r, b')" "finds host code b r b'" by blast
  have "map_option ((!) (bsdl_infos b')) r = List.find (info_matches code) (all_infos host b)"
  proof (cases r)
    case None
    then show ?thesis using f(2) by (auto simp: finds_def find_None_iff2)
  next
    case (Some i)
    then have m: "info_matches code (bsdl_infos b' ! i)" and i: "i < length (bsdl_infos b')"
      using f(2) by (simp_all add: finds_def)
    have "bsdl_infos b' ! i \<in> set (all_infos host b')" using i by (simp add: all_infos_def)
    then have "bsdl_infos b' ! i \<in> set (all_infos host b)" using f(2) by (simp add: finds_def)
    moreover from this have "y = bsdl_infos b' ! i" if "y \<in> set (all_infos host b)" "info_matches code y" for y
      using assms(3) that m unfolding unambiguous_def by blast
    ultimately have "List.find (info_matches code) (all_infos host b) = Some (bsdl_infos b' ! i)"
      using m by (intro find_unique)
    then show ?thesis by (simp add: Some)
  qed
  then show ?thesis using f by (auto simp: finds_def)
qed

section \<open>The queries\<close>

lemma queries_are_find:
  assumes "bsdl_valid b" "readable host b" "unambiguous code (all_infos host b)"
  shows "\<exists>b'. all_infos host b' = all_infos host b \<and> bsdl_valid b' \<and> readable host b' \<and>
    (let info = List.find (info_matches code) (all_infos host b)
     in bsdl_get_name host code b = Some (case info of Some i \<Rightarrow> entity_name i | None \<Rightarrow> None, b') \<and>
        bsdl_get_IR_size host code b = Some (case info of Some i \<Rightarrow> IR_size i | None \<Rightarrow> - 1, b') \<and>
        bsdl_get_debug_cmd host code b = Some (case info of Some i \<Rightarrow> cmd_debug i | None \<Rightarrow> TAP_CMD_INVALID, b') \<and>
        bsdl_get_user1_cmd host code b = Some (case info of Some i \<Rightarrow> cmd_user1 i | None \<Rightarrow> TAP_CMD_INVALID, b') \<and>
        bsdl_get_idcode_cmd host code b = Some (case info of Some i \<Rightarrow> cmd_idcode i | None \<Rightarrow> TAP_CMD_INVALID, b'))"
proof -
  from lookup_is_find [OF assms] obtain r b' where l: "get_bsdl_info host code b = Some (r, b')"
    "List.find (info_matches code) (all_infos host b) = map_option ((!) (bsdl_infos b')) r"
    "all_infos host b' = all_infos host b \<and> bsdl_valid b' \<and> readable host b'" by metis
  then show ?thesis
    by (intro exI [of _ b'], cases r)
      (simp_all add: bsdl_get_name_def bsdl_get_IR_size_def bsdl_get_debug_cmd_def bsdl_get_user1_cmd_def bsdl_get_idcode_cmd_def)
qed

text \<open>
  C28.
  The lazy search for device descriptions: when every file that is still ahead can be parsed and its path fits, and the descriptions
  that match the code agree, each query (name, instruction length, codes of \<^verbatim>\<open>DEBUG\<close>, \<^verbatim>\<open>USER1\<close>,
  \<^verbatim>\<open>IDCODE\<close>) answers with the value of the matching description among all files of all directories, and with the error value
  when there is none. What a search parses is kept: all later queries see the same data base and the same conditions.
\<close>

theorem device_lookup_complete:
  assumes "bsdl_valid b" "readable host b" "unambiguous code (all_infos host b)"
  shows "\<exists>b'. all_infos host b' = all_infos host b \<and> bsdl_valid b' \<and> readable host b' \<and>
    (let info = List.find (info_matches code) (all_infos host b)
     in bsdl_get_name host code b = Some (case info of Some i \<Rightarrow> entity_name i | None \<Rightarrow> None, b') \<and>
        bsdl_get_IR_size host code b = Some (case info of Some i \<Rightarrow> IR_size i | None \<Rightarrow> - 1, b') \<and>
        bsdl_get_debug_cmd host code b = Some (case info of Some i \<Rightarrow> cmd_debug i | None \<Rightarrow> TAP_CMD_INVALID, b') \<and>
        bsdl_get_user1_cmd host code b = Some (case info of Some i \<Rightarrow> cmd_user1 i | None \<Rightarrow> TAP_CMD_INVALID, b') \<and>
        bsdl_get_idcode_cmd host code b = Some (case info of Some i \<Rightarrow> cmd_idcode i | None \<Rightarrow> TAP_CMD_INVALID, b'))"
  by (rule queries_are_find [OF assms])

text \<open>A host with one description in the current directory.\<close>

definition example_host :: bsdl_host where
  "example_host =
     \<lparr>opendir = (\<lambda>dir. if dir = ''.'' then Some [''README'', ''tap.bsd''] else None),
      fopen = (\<lambda>path. if path = ''./tap.bsd'' then Some (text_of (device_lines or1k_tap)) else None),
      realloc = (\<lambda>n. True)\<rparr>"

lemma example_files: "files_ahead example_host bsdl_init = [(''.'', ''tap.bsd'')]"
proof -
  have "\<not> is_bsdl_name ''README''" "is_bsdl_name ''tap.bsd''" by (simp_all add: is_bsdl_name_def file_extension_def)
  then show ?thesis
    by (simp add: files_ahead_def bsdl_init_def example_host_def names_in_def dir_of_def MAX_BSDL_DIRS_def numeral_eq_Suc)
qed

lemma example_infos:
  "all_infos example_host bsdl_init = [device_info or1k_tap]" "bsdl_valid bsdl_init" "readable example_host bsdl_init"
proof -
  have "described example_host (''.'', ''tap.bsd'') = Some (Some (device_info or1k_tap))"
    using parse_description [OF or1k_tap_proper] by (simp add: example_host_def path_of_def)
  then show "all_infos example_host bsdl_init = [device_info or1k_tap]" "readable example_host bsdl_init"
    by (simp_all add: all_infos_def readable_def example_files info_of_def fits_scratchpad_def)
      (simp_all add: bsdl_init_def example_host_def)
  show "bsdl_valid bsdl_init" by (simp add: bsdl_valid_def bsdl_init_def MAX_BSDL_DIRS_def)
qed

theorem device_lookup_complete_witness:
  "\<exists>b'. bsdl_get_IR_size example_host 0x14951185 bsdl_init = Some (4, b') \<and>
    bsdl_get_debug_cmd example_host 0x14951185 bsdl_init = Some (8, b')"
  using device_lookup_complete [OF example_infos(2,3), of "0x14951185"]
  by (auto simp: example_infos(1) unambiguous_def or1k_tap_info info_matches_def Let_def)

text \<open>
  The scratchpad is doubled once only: a path of more than twice its length is copied beyond its end.
\<close>

lemma long_path_overflows:
  assumes "bsdl_open_dir b = Some (d_name # names)" "is_bsdl_name d_name" "realloc host (2 * bsdl_scratchpad_size b)"
    "2 * bsdl_scratchpad_size b < length d_name + length (dir_of b) + 2"
  shows "parse_files host code b = None"
proof -
  have "dir_of (b\<lparr>bsdl_open_dir := Some names\<rparr>) = dir_of b" by (simp add: dir_of_def)
  then show ?thesis using assms by (subst parse_files.simps) (simp add: grow_scratchpad_def mult.commute)
qed

end
