(* ===== verification/Bridge_Start_Spec.thy ===== *)
theory Bridge_Start_Spec
  imports Bridge_Start Bsdl_Spec Jtag_Enum_Spec
begin

unbundle bit_operations_syntax

text \<open>
  What start-up promises: after \<^verbatim>\<open>configure_chain\<close> the transactions are configured for the chain that is there, and the debug unit of the
  target is selected.
\<close>

section \<open>The code of the target\<close>

text \<open>Reading the identification code, as two scans.\<close>

context tap_cable
begin

lemma get_idcode_reads:
  fixes cmd :: u32
  assumes "ir_fits s" "tap (view (port s)) = Run_Test_Idle"
  defines "w \<equiv> ir_scan (ir_image s cmd) (view (port s))"
  shows "\<exists>h. jtag_get_idcode c cmd s =
      (APP_ERR_NONE, hd (pack_words (map (reply w) [clocked w + global_DR_postfix_bits s..<clocked w + global_DR_postfix_bits s + 32])),
       s\<lparr>current_chain := - 1, port := h\<rparr>) \<and>
    view h = dr_scan (replicate (global_DR_postfix_bits s) False @ replicate 32 False @ replicate (global_DR_prefix_bits s) False) w"
proof -
  let ?s = "s\<lparr>global_altera_virtual_jtag := False\<rparr>"
  have f: "ir_fits ?s" "ir_image ?s cmd = ir_image s cmd" "tap (view (port ?s)) = Run_Test_Idle"
    using assms(1,2) by (simp_all add: ir_fits_def ir_image_def)
  from set_ir_scan [OF f(1,3), of cmd] obtain h1 where
    1: "tap_set_ir c cmd ?s = (APP_ERR_NONE, ?s\<lparr>current_chain := - 1, port := h1\<rparr>)" "view h1 = w"
    by (auto simp: w_def f(2))
  let ?s1 = "?s\<lparr>current_chain := - 1, port := h1\<rparr>"
  have idle: "tap w = Run_Test_Idle" by (simp add: w_def ir_scan_def)
  from does_tap_set_shift_dr [of ?s1] obtain h2 where
    2: "tap_set_shift_dr c ?s1 = (APP_ERR_NONE, ?s1\<lparr>port := h2\<rparr>)" "view h2 = w\<lparr>tap := Shift_DR, shifted := []\<rparr>"
    by (auto simp: does_def 1(2) enter_dr [OF idle])
  let ?s2 = "?s1\<lparr>port := h2\<rparr>"
  have z: "stream_bits [0 :: u32] 32 = replicate 32 False"
    by (rule nth_equalityI) (simp_all add: stream_bits_def)
  have "tap (view (port ?s2)) = Shift_DR" by (simp add: 2(2))
  from read_write_stream_shift [OF this, of 32 "[0]" True True] obtain h3 where
    3: "jtag_read_write_stream c [0] 32 True True ?s2 =
        (APP_ERR_NONE, pack_words (map (reply w) [clocked w + global_DR_postfix_bits s..<clocked w + global_DR_postfix_bits s + 32]),
         ?s2\<lparr>port := h3\<rparr>)"
      "view h3 = w\<lparr>tap := Exit1_DR,
        shifted := replicate (global_DR_postfix_bits s) False @ replicate 32 False @ replicate (global_DR_prefix_bits s) False,
        clocked := clocked w + (global_DR_postfix_bits s + (32 + global_DR_prefix_bits s))\<rparr>"
    by (auto simp: 2(2) z)
  have "does view (?s2\<lparr>port := h3\<rparr>) (err_seq [jtag_write_bit c TMS, jtag_write_bit c 0]) to_idle"
    using does_tap_exit_to_idle by (simp add: tap_exit_to_idle_def)
  then obtain h4 where 4: "err_seq [jtag_write_bit c TMS, jtag_write_bit c 0] (?s2\<lparr>port := h3\<rparr>) = (APP_ERR_NONE, ?s2\<lparr>port := h4\<rparr>)"
    "view h4 = tap_clocks to_idle (view h3)" by (auto simp: does_def)
  have v: "view h4 = dr_scan (replicate (global_DR_postfix_bits s) False @ replicate 32 False @ replicate (global_DR_prefix_bits s) False) w"
    by (simp add: 4(2) 3(2) to_idle_def tap_clock_def dr_scan_def)
  have a: "err_seq [tap_set_ir c cmd, tap_set_shift_dr c] ?s = (APP_ERR_NONE, ?s2)"
    using 1(1) 2(1) by (simp add: APP_ERR_NONE_def)
  show ?thesis
    unfolding jtag_get_idcode_def Let_def a prod.case 3(1) 4(1) using v by (intro exI [of _ h4]) (simp add: APP_ERR_NONE_def)
qed

end

section \<open>Looking up the devices\<close>

text \<open>The descriptions \<open>infos\<close> are those of all files of the host.\<close>

definition knows :: "bsdl_host \<Rightarrow> bsdlinfo list \<Rightarrow> bsdl \<Rightarrow> bool" where
  "knows host infos b \<longleftrightarrow> bsdl_valid b \<and> readable host b \<and> all_infos host b = infos"

definition described_by :: "bsdlinfo list \<Rightarrow> u32 \<Rightarrow> bsdlinfo option" where
  "described_by infos code = (if code = IDCODE_INVALID then None else List.find (info_matches code) infos)"

lemma queries:
  assumes "knows host infos b" "unambiguous code infos"
  shows "\<exists>b'. knows host infos b' \<and>
    (let info = List.find (info_matches code) infos
     in bsdl_get_name host code b = Some (case info of Some i \<Rightarrow> entity_name i | None \<Rightarrow> None, b') \<and>
        bsdl_get_IR_size host code b = Some (case info of Some i \<Rightarrow> IR_size i | None \<Rightarrow> - 1, b') \<and>
        bsdl_get_debug_cmd host code b = Some (case info of Some i \<Rightarrow> cmd_debug i | None \<Rightarrow> TAP_CMD_INVALID, b') \<and>
        bsdl_get_user1_cmd host code b = Some (case info of Some i \<Rightarrow> cmd_user1 i | None \<Rightarrow> TAP_CMD_INVALID, b') \<and>
        bsdl_get_idcode_cmd host code b = Some (case info of Some i \<Rightarrow> cmd_idcode i | None \<Rightarrow> TAP_CMD_INVALID, b'))"
  using queries_are_find [of b host code] assms unfolding knows_def by metis

text \<open>The length of the instruction register of a device: the command line first, then its description.\<close>

definition ir_length :: "bsdlinfo list \<Rightarrow> bridge_options \<Rightarrow> u32 list \<Rightarrow> nat \<Rightarrow> int" where
  "ir_length infos opts codes i =
     cmd_line_IR_size opts i (case described_by infos (codes ! i) of Some info \<Rightarrow> IR_size info | None \<Rightarrow> - 1)"

definition ir_lengths :: "bsdlinfo list \<Rightarrow> bridge_options \<Rightarrow> u32 list \<Rightarrow> nat list" where
  "ir_lengths infos opts codes = map (\<lambda>i. nat (ir_length infos opts codes i)) [0..<length codes]"

text \<open>The instruction for the debug unit: the command line first, then \<^verbatim>\<open>USER1\<close> of a Xilinx device, \<^verbatim>\<open>DEBUG\<close> of another.\<close>

definition debug_command :: "bsdlinfo list \<Rightarrow> bridge_options \<Rightarrow> u32 \<Rightarrow> u32" where
  "debug_command infos opts code =
     (if cmd_line_cmd_debug opts \<ge> 0 then of_int (cmd_line_cmd_debug opts)
      else (case described_by infos code of
              None \<Rightarrow> TAP_CMD_INVALID
            | Some info \<Rightarrow> if manuf_id code = XILINX_MANUFACTURER_ID then cmd_user1 info else cmd_debug info))"

lemma IR_size_known:
  assumes "knows host infos b" "unambiguous (codes ! i) infos" "0 \<le> ir_length infos opts codes i"
  shows "\<exists>b'. get_IR_size host opts codes i b = Goes_on (nat (ir_length infos opts codes i), b') \<and> knows host infos b'"
proof (cases "codes ! i = IDCODE_INVALID")
  case True
  then show ?thesis using assms(1,3) by (simp add: get_IR_size_def ir_length_def described_by_def Let_def)
next
  case False
  then show ?thesis
    using queries [OF assms(1,2)] assms(3) by (auto simp: get_IR_size_def ir_length_def described_by_def Let_def returned_def)
qed

lemma debug_cmd_known:
  assumes "knows host infos b" "unambiguous (codes ! i) infos"
  shows "\<exists>b'. get_debug_cmd host opts codes i b = Goes_on (debug_command infos opts (codes ! i), b') \<and> knows host infos b'"
proof (cases "codes ! i = IDCODE_INVALID")
  case True
  then show ?thesis using assms(1) by (simp add: get_debug_cmd_def debug_command_def described_by_def)
next
  case False
  then show ?thesis
    using queries [OF assms] by (auto simp: get_debug_cmd_def debug_command_def described_by_def Let_def returned_def split: option.splits)
qed

lemma list_devices_known:
  assumes "knows host infos b" "\<forall>code \<in> set codes. unambiguous code infos"
  shows "\<exists>b'. list_devices host codes b = Goes_on b' \<and> knows host infos b'"
  using assms
proof (induction codes arbitrary: b)
  case (Cons code codes)
  show ?case
  proof (cases "code = IDCODE_INVALID")
    case False
    from queries [OF Cons.prems(1), of code] Cons.prems(2) obtain b1 n where
      1: "bsdl_get_name host code b = Some (n, b1)" "knows host infos b1" by (auto simp: Let_def)
    from queries [OF 1(2), of code] Cons.prems(2) obtain b2 m where
      2: "bsdl_get_IR_size host code b1 = Some (m, b2)" "knows host infos b2" by (auto simp: Let_def)
    show ?thesis using Cons.IH [OF 2(2)] Cons.prems(2) False by (simp add: 1(1) 2(1) returned_def)
  qed (use Cons in simp)
qed simp

lemma sum_IR_sizes_append:
  "sum_IR_sizes host opts codes (is @ js) n (s, b) =
     run_bind (sum_IR_sizes host opts codes is n (s, b)) (\<lambda>(n, s, b). sum_IR_sizes host opts codes js n (s, b))"
proof (induction "is" arbitrary: n s b)
  case (Cons i "is")
  show ?case
  proof (cases "get_IR_size host opts codes i b")
    case (Goes_on x)
    then show ?thesis using Cons by (cases x) simp
  qed (use Cons in simp_all)
qed simp

lemma sum_IR_sizes_known:
  assumes "knows host infos b" "\<forall>i \<in> set is. i \<noteq> target_dev_pos opts \<and> unambiguous (codes ! i) infos \<and> 0 \<le> ir_length infos opts codes i"
  shows "\<exists>b'. sum_IR_sizes host opts codes is n (s, b) =
      Goes_on (n + sum_list (map (\<lambda>i. nat (ir_length infos opts codes i)) is), s, b') \<and> knows host infos b'"
  using assms
proof (induction "is" arbitrary: n b)
  case (Cons i "is")
  from IR_size_known [OF Cons.prems(1), of codes i opts] Cons.prems(2) obtain b1 where
    1: "get_IR_size host opts codes i b = Goes_on (nat (ir_length infos opts codes i), b1)" "knows host infos b1" by auto
  show ?case using Cons.IH [OF 1(2), of "n + nat (ir_length infos opts codes i)"] Cons.prems(2) 1(1) by (auto simp: add.assoc)
qed simp

section \<open>The configuration\<close>

definition uses_vjtag :: "bridge_options \<Rightarrow> u32 \<Rightarrow> bool" where
  "uses_vjtag opts code \<longleftrightarrow> force_alt_vjtag opts = 1 \<or> force_alt_vjtag opts = 0 \<and> manuf_id code = ALTERA_MANUFACTURER_ID"

definition with_lengths :: "bsdlinfo list \<Rightarrow> bridge_options \<Rightarrow> u32 list \<Rightarrow> 'h jtag \<Rightarrow> 'h jtag" where
  "with_lengths infos opts codes s =
     (let t = target_dev_pos opts; lens = ir_lengths infos opts codes
      in s\<lparr>global_IR_size := lens ! t, global_IR_prefix_bits := sum_list (drop (t + 1) lens),
           global_IR_postfix_bits := sum_list (take t lens), global_DR_prefix_bits := length codes - t - 1,
           global_DR_postfix_bits := t\<rparr>)"

definition with_commands :: "bsdlinfo list \<Rightarrow> bridge_options \<Rightarrow> u32 \<Rightarrow> 'h jtag \<Rightarrow> 'h jtag" where
  "with_commands infos opts code s =
     s\<lparr>global_jtag_cmd_debug := (if uses_vjtag opts code then global_jtag_cmd_debug s else debug_command infos opts code),
       global_altera_virtual_jtag := uses_vjtag opts code,
       global_xilinx_bscan := (global_xilinx_bscan s \<or> manuf_id code = XILINX_MANUFACTURER_ID)\<rparr>"

definition configured :: "bsdlinfo list \<Rightarrow> bridge_options \<Rightarrow> u32 list \<Rightarrow> 'h jtag \<Rightarrow> 'h jtag" where
  "configured infos opts codes s =
     with_commands infos opts (codes ! target_dev_pos opts) (with_lengths infos opts codes s)"

text \<open>
  The chain can be configured: the target exists, every device has a length, the descriptions of a device agree, and there is an
  instruction for the debug unit.
\<close>

definition configurable :: "bsdlinfo list \<Rightarrow> bridge_options \<Rightarrow> u32 list \<Rightarrow> bool" where
  "configurable infos opts codes \<longleftrightarrow>
     target_dev_pos opts < length codes \<and> (\<forall>code \<in> set codes. unambiguous code infos) \<and>
     (\<forall>i < length codes. 0 \<le> ir_length infos opts codes i) \<and> force_alt_vjtag opts \<in> {- 1, 0, 1} \<and>
     (uses_vjtag opts (codes ! target_dev_pos opts) \<or> debug_command infos opts (codes ! target_dev_pos opts) \<noteq> TAP_CMD_INVALID)"

lemma set_lengths_known:
  assumes "knows host infos b" "configurable infos opts codes"
  shows "\<exists>b'. set_lengths host opts codes (s, b) = Goes_on (with_lengths infos opts codes s, b') \<and> knows host infos b'"
proof -
  let ?t = "target_dev_pos opts" and ?n = "length codes" and ?len = "\<lambda>i. nat (ir_length infos opts codes i)"
  have t: "?t < ?n" and ok: "\<And>i. i < ?n \<Longrightarrow> unambiguous (codes ! i) infos \<and> 0 \<le> ir_length infos opts codes i"
    using assms(2) by (auto simp: configurable_def)
  from IR_size_known [OF assms(1), of codes ?t opts] ok [OF t] obtain b1 where
    1: "get_IR_size host opts codes ?t b = Goes_on (?len ?t, b1)" "knows host infos b1" by auto
  let ?s1 = "config_set_IR_size (?len ?t) s"
  from sum_IR_sizes_known [OF 1(2), of "[0..<?t]" opts codes 0 ?s1] t ok obtain b2 where
    2: "sum_IR_sizes host opts codes [0..<?t] 0 (?s1, b1) = Goes_on (sum_list (map ?len [0..<?t]), ?s1, b2)" "knows host infos b2"
    by auto
  let ?s2 = "config_set_IR_postfix_bits (sum_list (map ?len [0..<?t])) ?s1"
  from sum_IR_sizes_known [OF 2(2), of "[?t + 1..<?n]" opts codes 0 ?s2] ok obtain b3 where
    3: "sum_IR_sizes host opts codes [?t + 1..<?n] 0 (?s2, b2) = Goes_on (sum_list (map ?len [?t + 1..<?n]), ?s2, b3)" "knows host infos b3"
    by auto
  have "[0..<?n] = [0..<?t] @ ?t # [?t + 1..<?n]"
    using t upt_add_eq_append [of 0 ?t "?n - ?t"] by (simp add: upt_conv_Cons)
  then have "sum_IR_sizes host opts codes [0..<?n] 0 (?s1, b1) = Goes_on (sum_list (map ?len [?t + 1..<?n]), ?s2, b3)"
    using 2(1) 3(1) by (simp add: sum_IR_sizes_append)
  moreover have "ir_lengths infos opts codes ! ?t = ?len ?t" "take ?t (ir_lengths infos opts codes) = map ?len [0..<?t]"
    "drop (?t + 1) (ir_lengths infos opts codes) = map ?len [?t + 1..<?n]"
    using t by (simp_all add: ir_lengths_def take_map drop_map)
  ultimately show ?thesis
    using 1(1) 3(2)
    by (simp add: set_lengths_def with_lengths_def config_set_IR_size_def config_set_IR_postfix_bits_def config_set_IR_prefix_bits_def
        config_set_DR_prefix_bits_def config_set_DR_postfix_bits_def Let_def)
qed

lemma set_commands_known:
  fixes s :: "'a jtag"
  assumes "knows host infos b" "configurable infos opts codes"
  shows "\<exists>b'. set_commands host opts codes (s, b) =
    Goes_on (with_commands infos opts (codes ! target_dev_pos opts) s, b') \<and> knows host infos b'"
proof -
  let ?code = "codes ! target_dev_pos opts"
  have u: "unambiguous ?code infos" and f: "force_alt_vjtag opts \<in> {- 1, 0, 1}"
    and d: "uses_vjtag opts ?code \<or> debug_command infos opts ?code \<noteq> TAP_CMD_INVALID"
    using assms(2) by (auto simp: configurable_def)
  from debug_cmd_known [OF assms(1) u] obtain b1 where
    1: "get_debug_cmd host opts codes (target_dev_pos opts) b = Goes_on (debug_command infos opts ?code, b1)" "knows host infos b1"
    by blast
  have c: "(force_alt_vjtag opts = - 1 \<or> force_alt_vjtag opts = 0 \<and> manuf_id ?code \<noteq> ALTERA_MANUFACTURER_ID) = (\<not> uses_vjtag opts ?code)"
    using f by (auto simp: uses_vjtag_def)
  have m: "(if force_alt_vjtag opts = 1 then config_set_alt_vjtag 1 x
      else if force_alt_vjtag opts = - 1 then config_set_alt_vjtag 0 x
      else if manuf_id ?code = ALTERA_MANUFACTURER_ID then config_set_alt_vjtag 1 x
      else config_set_alt_vjtag 0 x) = x\<lparr>global_altera_virtual_jtag := uses_vjtag opts ?code\<rparr>" for x :: "'a jtag"
  proof -
    from f consider "force_alt_vjtag opts = - 1" | "force_alt_vjtag opts = 0" | "force_alt_vjtag opts = 1" by blast
    then show ?thesis by cases (simp_all add: uses_vjtag_def config_set_alt_vjtag_def)
  qed
  have x: "(if manuf_id ?code = XILINX_MANUFACTURER_ID then config_set_xilinx_bscan 1 x else x) =
      x\<lparr>global_xilinx_bscan := (global_xilinx_bscan x \<or> manuf_id ?code = XILINX_MANUFACTURER_ID)\<rparr>" for x :: "'a jtag"
    by (simp add: config_set_xilinx_bscan_def)
  show ?thesis
  proof (cases "uses_vjtag opts ?code")
    case True
    then show ?thesis
      using assms(1) unfolding set_commands_def Let_def prod.case c m x by (simp add: with_commands_def)
  next
    case False
    then show ?thesis
      using 1 d unfolding set_commands_def Let_def prod.case c m x by (simp add: with_commands_def config_set_debug_cmd_def)
  qed
qed

section \<open>Start-up on the wire\<close>

text \<open>The scans of the test of the identification code, if the device has an instruction for it, and of the selection.\<close>

definition idcode_command :: "bsdlinfo list \<Rightarrow> u32 \<Rightarrow> u32" where
  "idcode_command infos code = (case List.find (info_matches code) infos of None \<Rightarrow> TAP_CMD_INVALID | Some info \<Rightarrow> cmd_idcode info)"

definition idcode_scans :: "'h jtag \<Rightarrow> u32 \<Rightarrow> scan list" where
  "idcode_scans s cmd =
     (if cmd = TAP_CMD_INVALID then []
      else [IR_Scan (ir_image s cmd), DR_Scan (replicate (global_DR_postfix_bits s + 32 + global_DR_prefix_bits s) False)])"

definition enable_scans :: "'h jtag \<Rightarrow> scan list" where
  "enable_scans s =
     (if global_altera_virtual_jtag s
      then [IR_Scan (ir_image s (vjtag_cmd_vir s)), DR_Scan (through_prefix s [False, False, False, True, True]),
            IR_Scan (ir_image s (vjtag_cmd_vdr s))]
      else [IR_Scan (ir_image s (global_jtag_cmd_debug s))])"

lemma sanity_test_known:
  assumes "tap_cable c view" "knows host infos b" "unambiguous (codes ! target_dev_pos opts) infos"
    "ir_fits s" "tap (view (port s)) = Run_Test_Idle" "current_chain s = - 1"
  shows "\<exists>h b'. sanity_test c host opts codes (s, b) = Goes_on (s\<lparr>port := h\<rparr>, b') \<and> knows host infos b' \<and>
    tap (view h) = Run_Test_Idle \<and>
    scans (view h) = scans (view (port s)) @ idcode_scans s (idcode_command infos (codes ! target_dev_pos opts))"
proof -
  let ?cmd = "idcode_command infos (codes ! target_dev_pos opts)"
  from queries [OF assms(2,3)] obtain b1 where
    1: "bsdl_get_idcode_cmd host (codes ! target_dev_pos opts) b = Some (?cmd, b1)" "knows host infos b1"
    by (auto simp: idcode_command_def Let_def)
  show ?thesis
  proof (cases "?cmd = TAP_CMD_INVALID")
    case True
    then show ?thesis
      using 1 assms(5) by (intro exI [of _ "port s"] exI [of _ b1]) (simp add: sanity_test_def returned_def idcode_scans_def)
  next
    case False
    from tap_cable.get_idcode_reads [OF assms(1,4,5), of ?cmd] obtain h x where
      h: "jtag_get_idcode c ?cmd s = (APP_ERR_NONE, x, s\<lparr>current_chain := - 1, port := h\<rparr>)"
        "view h = dr_scan (replicate (global_DR_postfix_bits s) False @ replicate 32 False @ replicate (global_DR_prefix_bits s) False)
          (ir_scan (ir_image s ?cmd) (view (port s)))" by auto
    have "s\<lparr>current_chain := - 1, port := h\<rparr> = s\<lparr>port := h\<rparr>" using assms(6) by (cases s) simp
    then show ?thesis
      using 1 h False
      by (intro exI [of _ h] exI [of _ b1])
        (simp add: sanity_test_def returned_def idcode_scans_def dr_scan_def ir_scan_def replicate_add [symmetric] add.assoc)
  qed
qed

lemma enable_known:
  assumes "tap_cable c view" "ir_fits s" "tap (view (port s)) = Run_Test_Idle"
  shows "\<exists>h. tap_enable_debug_module c s = (APP_ERR_NONE, s\<lparr>current_chain := - 1, port := h\<rparr>) \<and>
    tap (view h) = Run_Test_Idle \<and> scans (view h) = scans (view (port s)) @ enable_scans s"
  using select_scans [OF assms] by (auto simp: enable_scans_def ir_scan_def dr_scan_def split: if_splits)

text \<open>The state after the reset.\<close>

definition reset_state :: "'h jtag_cable \<Rightarrow> 'h jtag \<Rightarrow> 'h jtag" where
  "reset_state c s = snd (tap_reset c s)"

lemma after_reset:
  assumes "tap_cable c view"
  shows "tap_reset c s = (APP_ERR_NONE, reset_state c s)" "tap (view (port (reset_state c s))) = Run_Test_Idle"
    "reset_state c s = s\<lparr>port := port (reset_state c s), current_chain := - 1, current_reg_idx := replicate DBG_MAX_MODULES (- 1)\<rparr>"
  using tap_cable.reset_to_idle [OF assms, of s] unfolding tap_reset_def reset_state_def
  by (auto simp del: err_seq.simps replicate.simps)

text \<open>An idle port comes out of the reset as it went in.\<close>

lemma tms_from_idle:
  "tap w = Run_Test_Idle \<Longrightarrow> tap_clocks ([(False, False)] @ replicate 8 (True, False)) w = w\<lparr>tap := Test_Logic_Reset\<rparr>"
  by (simp add: tap_clock_def numeral_eq_Suc)

lemma clock_to_idle:
  "tap w \<in> {Test_Logic_Reset, Run_Test_Idle} \<Longrightarrow> tap_clock False tdi w = w\<lparr>tap := Run_Test_Idle\<rparr>"
  by (auto simp: tap_clock_def)

lemma reset_from_idle:
  assumes "tap_cable c view" "tap (view (port s)) = Run_Test_Idle"
  shows "view (port (reset_state c s)) = view (port s)"
proof -
  let ?w = "view (port s)"
  have "does view s (err_seq (jtag_write_bit c 0 # replicate 8 (jtag_write_bit c TMS))) ([(False, False)] @ replicate 8 (True, False))"
    using tap_cable.does_bits [OF assms(1)] by (intro does_cons tap_cable.does_replicate [OF assms(1)])
  then obtain h1 where 1: "err_seq (jtag_write_bit c 0 # replicate 8 (jtag_write_bit c TMS)) s = (APP_ERR_NONE, s\<lparr>port := h1\<rparr>)"
    "view h1 = ?w\<lparr>tap := Test_Logic_Reset\<rparr>"
    unfolding does_def tms_from_idle [OF assms(2)] by blast
  let ?h2 = "snd (bit_out_func c TRST h1)"
  have 2: "jtag_write_bit c TRST (s\<lparr>port := h1\<rparr>) = (APP_ERR_NONE, s\<lparr>port := ?h2\<rparr>)"
    using tap_cable.bit_out_err [OF assms(1), of TRST h1]
    by (simp add: jtag_write_bit_def on_port_def cable_write_bit_def case_prod_beta)
  have "view ?h2 = (view h1)\<lparr>tap := Test_Logic_Reset\<rparr> \<or> view ?h2 = tap_clock False False (view h1)"
    using tap_cable.bit_out_reset [OF assms(1), of h1] by simp
  then have v2: "view ?h2 = ?w\<lparr>tap := Test_Logic_Reset\<rparr> \<or> view ?h2 = ?w\<lparr>tap := Run_Test_Idle\<rparr>"
    using 1(2) by (auto simp: clock_to_idle)
  obtain h3 where 3: "jtag_write_bit c 0 (s\<lparr>port := ?h2\<rparr>) = (APP_ERR_NONE, s\<lparr>port := h3\<rparr>)" "view h3 = ?w\<lparr>tap := Run_Test_Idle\<rparr>"
    using tap_cable.does_bits(1) [OF assms(1), of "s\<lparr>port := ?h2\<rparr>"] v2 by (auto simp: does_def clock_to_idle)
  have "err_seq ((jtag_write_bit c 0 # replicate 8 (jtag_write_bit c TMS)) @ [jtag_write_bit c TRST, jtag_write_bit c 0]) s =
      (APP_ERR_NONE, s\<lparr>port := h3\<rparr>)"
    unfolding err_seq_append 1(1) using 2 3(1) by (simp add: APP_ERR_NONE_def)
  moreover have "?w\<lparr>tap := Run_Test_Idle\<rparr> = ?w" using assms(2) by (cases ?w) simp
  ultimately show ?thesis
    using 3(2) by (simp add: reset_state_def tap_reset_def del: err_seq.simps replicate.simps)
qed

lemma configured_cong:
  "configured infos opts codes (s\<lparr>port := h\<rparr>) = (configured infos opts codes s)\<lparr>port := h\<rparr>"
  "port (configured infos opts codes s) = port s" "current_chain (configured infos opts codes s) = current_chain s"
  by (simp_all add: configured_def with_commands_def with_lengths_def Let_def)

lemma idcode_scans_port: "idcode_scans (s\<lparr>port := h\<rparr>) cmd = idcode_scans s cmd" "enable_scans (s\<lparr>port := h\<rparr>) = enable_scans s"
  by (simp_all add: idcode_scans_def enable_scans_def)

lemma configured_chain:
  assumes "tap_cable c view" "knows host infos b" "length ds < MAX_DEVICES" "\<forall>d \<in> set ds. proper_device d"
    "\<And>i. reply (view (port (reset_state c s))) (clocked (view (port (reset_state c s))) + i) = chain_bits ds i"
    "hardware = DBG_HW_ADVANCED \<or> length ds \<le> 1" "configurable infos opts (map device_code ds)"
    "ir_fits (configured infos opts (map device_code ds) (reset_state c s))"
  defines "s1 \<equiv> configured infos opts (map device_code ds) (reset_state c s)"
  shows "\<exists>h b'. configure_chain c hardware host opts (s, b) = Goes_on (map device_code ds, s1\<lparr>port := h\<rparr>, b') \<and>
    knows host infos b' \<and> tap (view h) = Run_Test_Idle \<and>
    scans (view h) = scans (view (port (reset_state c s))) @ [DR_Scan (map marker [0..<length (concat (map device_bits ds)) + 13])] @
      idcode_scans s1 (idcode_command infos (device_code (ds ! target_dev_pos opts))) @ enable_scans s1"
proof -
  let ?codes = "map device_code ds" and ?r = "reset_state c s" and ?t = "target_dev_pos opts"
  have t: "?t < length ds" and u: "\<forall>code \<in> set ?codes. unambiguous code infos"
    using assms(7) by (simp_all add: configurable_def)
  then have ut: "unambiguous (?codes ! ?t) infos" by simp
  note r = after_reset [OF assms(1), of s]
  from enumerate_devices [OF assms(1) r(2) assms(3,4,5)] obtain h1 where
    1: "jtag_enumerate_chain c ?r = (APP_ERR_NONE, Some ?codes, ?r\<lparr>port := h1\<rparr>)"
      "view h1 = dr_scan (map marker [0..<length (concat (map device_bits ds)) + 13]) (view (port ?r))" by blast
  from list_devices_known [OF assms(2) u] obtain b1 where b1: "list_devices host ?codes b = Goes_on b1" "knows host infos b1" by blast
  from set_lengths_known [OF b1(2) assms(7), of "?r\<lparr>port := h1\<rparr>"] obtain b2 where
    b2: "set_lengths host opts ?codes (?r\<lparr>port := h1\<rparr>, b1) = Goes_on (with_lengths infos opts ?codes (?r\<lparr>port := h1\<rparr>), b2)"
      "knows host infos b2" by blast
  let ?s2 = "s1\<lparr>port := h1\<rparr>"
  from set_commands_known [OF b2(2) assms(7), of "with_lengths infos opts ?codes (?r\<lparr>port := h1\<rparr>)"] obtain b3 where
    b3: "set_commands host opts ?codes (with_lengths infos opts ?codes (?r\<lparr>port := h1\<rparr>), b2) = Goes_on (?s2, b3)"
      "knows host infos b3" by (auto simp: s1_def configured_cong configured_def [symmetric])
  have cc: "current_chain s1 = - 1" by (simp add: s1_def configured_cong) (subst r(3), simp)
  have fits: "ir_fits ?s2" and idle: "tap (view (port ?s2)) = Run_Test_Idle" and c2: "current_chain ?s2 = - 1"
    using assms(8) by (simp_all add: s1_def [symmetric] 1(2) dr_scan_def cc)
  from sanity_test_known [OF assms(1) b3(2) ut fits idle c2] obtain h4 b4 where
    4: "sanity_test c host opts ?codes (?s2, b3) = Goes_on (?s2\<lparr>port := h4\<rparr>, b4)" "knows host infos b4"
      "tap (view h4) = Run_Test_Idle" "scans (view h4) = scans (view h1) @ idcode_scans ?s2 (idcode_command infos (?codes ! ?t))"
    by auto
  have "ir_fits (?s2\<lparr>port := h4\<rparr>)" "tap (view (port (?s2\<lparr>port := h4\<rparr>))) = Run_Test_Idle" using fits 4(3) by simp_all
  from enable_known [OF assms(1) this] obtain h5 where
    5: "tap_enable_debug_module c (?s2\<lparr>port := h4\<rparr>) = (APP_ERR_NONE, ?s2\<lparr>port := h4, current_chain := - 1, port := h5\<rparr>)"
      "tap (view h5) = Run_Test_Idle" "scans (view h5) = scans (view h4) @ enable_scans (?s2\<lparr>port := h4\<rparr>)" by auto
  have s5: "?s2\<lparr>port := h4, current_chain := - 1, port := h5\<rparr> = s1\<lparr>port := h5\<rparr>" using cc by (cases s1) simp
  have "\<not> (hardware = DBG_HW_LEGACY \<and> length ?codes > 1)" "\<not> ?t \<ge> length ?codes" using assms(6) t by auto
  moreover have "\<not> (APP_ERR_NONE OR APP_ERR_NONE \<noteq> APP_ERR_NONE)" "\<not> (APP_ERR_NONE \<noteq> 0)" by (simp_all add: APP_ERR_NONE_def)
  ultimately have "configure_chain c hardware host opts (s, b) = Goes_on (?codes, s1\<lparr>port := h5\<rparr>, b4)"
    unfolding configure_chain_def Let_def prod.case r(1) 1(1) option.case b1(1)
    by (simp only: if_False run_bind.simps b2(1) b3(1) 4(1) 5(1) s5 prod.case)
  then show ?thesis
    using 4(2,4) 5(2,3) t by (intro exI [of _ h5] exI [of _ b4]) (simp add: 1(2) dr_scan_def idcode_scans_port)
qed

text \<open>
  C27.
  Start-up on any cable, from any state of the port: when the devices answer with proper codes, the target is among them, every device has
  an instruction length (from the command line or its description), there is an instruction for the debug unit, and the target's
  instruction fits one word with the ones before it, \<^verbatim>\<open>configure_chain\<close> returns. The lengths, prefix and postfix are those
  of the chain that is there (the devices before the target make the postfix, those behind it the prefix), the commands and modes those
  of the target. On the wire there has been one scan that enumerates the devices, the two scans of the identification test if
  the target has an instruction for it, and last the scans that select the debug unit, in which every other device is sent \<^verbatim>\<open>BYPASS\<close>.
\<close>

theorem chain_configured:
  assumes "tap_cable c view" "knows host infos b" "length ds < MAX_DEVICES" "\<forall>d \<in> set ds. proper_device d"
    "\<And>i. reply (view (port (reset_state c s))) (clocked (view (port (reset_state c s))) + i) = chain_bits ds i"
    "hardware = DBG_HW_ADVANCED \<or> length ds \<le> 1" "configurable infos opts (map device_code ds)"
    "ir_fits (configured infos opts (map device_code ds) (reset_state c s))"
  shows "\<exists>h b'.
    (let s1 = configured infos opts (map device_code ds) (reset_state c s)
     in configure_chain c hardware host opts (s, b) = Goes_on (map device_code ds, s1\<lparr>port := h\<rparr>, b') \<and>
        knows host infos b' \<and> tap (view h) = Run_Test_Idle \<and>
        scans (view h) = scans (view (port (reset_state c s))) @ [DR_Scan (map marker [0..<length (concat (map device_bits ds)) + 13])] @
          idcode_scans s1 (idcode_command infos (device_code (ds ! target_dev_pos opts))) @ enable_scans s1)"
  using configured_chain [OF assms] by (simp add: Let_def)

text \<open>A chain of the port described by \<open>or1k_tap\<close> and a device without a code, whose length is given on the command line.\<close>

definition two_devices :: "board jtag" where
  "two_devices = bench\<lparr>port := \<lparr>board_wire = bench_wire\<lparr>reply := chain_bits [Some 0x14951185, None]\<rparr>, tck = False\<rparr>\<rparr>"

definition two_options :: bridge_options where
  "two_options = default_options\<lparr>cmd_line_ir_sizes := [(1, 5)]\<rparr>"

lemma two_described: "described_by [device_info or1k_tap] 0x14951185 = Some (device_info or1k_tap)" "described_by infos (- 1) = None"
  by (simp_all add: described_by_def IDCODE_INVALID_def or1k_tap_info info_matches_def)

lemma or1k_values:
  "IR_size (device_info or1k_tap) = 4" "cmd_debug (device_info or1k_tap) = 8" "cmd_user1 (device_info or1k_tap) = TAP_CMD_INVALID"
  by (simp_all add: or1k_tap_info)

lemma two_lengths:
  "ir_length [device_info or1k_tap] two_options [0x14951185, - 1] 0 = 4"
  "ir_length [device_info or1k_tap] two_options [0x14951185, - 1] (Suc 0) = 5"
  by (simp_all add: ir_length_def two_described cmd_line_IR_size_def two_options_def default_options_def or1k_values)

lemma two_vjtag: "\<not> uses_vjtag two_options 0x14951185"
  by (simp add: uses_vjtag_def two_options_def default_options_def manuf_id_def ALTERA_MANUFACTURER_ID_def drop_bit_eq_div)

lemma two_debug: "debug_command [device_info or1k_tap] two_options 0x14951185 = 8"
  by (simp add: debug_command_def two_described two_options_def default_options_def manuf_id_def XILINX_MANUFACTURER_ID_def
      or1k_values drop_bit_eq_div)

lemma two_target: "target_dev_pos two_options = 0" "force_alt_vjtag two_options = 0"
  by (simp_all add: two_options_def default_options_def)

lemma two_configurable: "configurable [device_info or1k_tap] two_options [0x14951185, - 1]"
  using two_lengths two_debug two_target by (auto simp: configurable_def unambiguous_def TAP_CMD_INVALID_def less_Suc_eq)

lemma two_configured:
  fixes s :: "'a jtag"
  defines "s1 \<equiv> configured [device_info or1k_tap] two_options [0x14951185, - 1] s"
  shows "global_IR_size s1 = 4" "global_IR_prefix_bits s1 = 5" "global_IR_postfix_bits s1 = 0"
    "global_jtag_cmd_debug s1 = 8" "global_altera_virtual_jtag s1 = False"
proof -
  have "ir_lengths [device_info or1k_tap] two_options [0x14951185, - 1] = [4, 5]"
    using two_lengths by (simp add: ir_lengths_def upt_rec)
  then show "global_IR_size s1 = 4" "global_IR_prefix_bits s1 = 5" "global_IR_postfix_bits s1 = 0"
    "global_jtag_cmd_debug s1 = 8" "global_altera_virtual_jtag s1 = False"
    using two_vjtag two_debug two_target by (simp_all add: s1_def configured_def with_lengths_def with_commands_def Let_def)
qed

theorem chain_configured_witness:
  "\<exists>h s1 b'. configure_chain (common_cable pin_out pin_inout) DBG_HW_ADVANCED example_host two_options (two_devices, bsdl_init) =
      Goes_on ([0x14951185, - 1], s1\<lparr>port := h\<rparr>, b') \<and>
    last (scans (board_wire h)) = IR_Scan [False, False, False, True, True, True, True, True, True]"
proof -
  let ?c = "common_cable pin_out pin_inout" and ?ds = "[Some 0x14951185, None] :: u32 option list"
  let ?infos = "[device_info or1k_tap]"
  let ?s1 = "configured ?infos two_options [0x14951185, - 1] (reset_state ?c two_devices)"
  have k: "knows example_host ?infos bsdl_init" using example_infos by (simp add: knows_def)
  have "tap (board_wire (port two_devices)) = Run_Test_Idle" by (simp add: two_devices_def bench_wire_def)
  from reset_from_idle [OF banged.tap_cable_axioms this]
  have r: "reply (board_wire (port (reset_state ?c two_devices))) (clocked (board_wire (port (reset_state ?c two_devices))) + i) =
      chain_bits ?ds i" for i by (simp add: two_devices_def bench_wire_def)
  have d: "length ?ds < MAX_DEVICES" "\<forall>d \<in> set ?ds. proper_device d"
    by (simp_all add: MAX_DEVICES_def take_bit_eq_mask mask_eq_exp_minus_1 drop_bit_eq_div bit_0)
  have f: "ir_fits ?s1" by (simp add: ir_fits_def two_configured)
  have "map (bit (8 :: u32)) [0..<4] = [False, False, False, True]" by (simp add: upt_rec bit_numeral_rec)
  then have "enable_scans ?s1 = [IR_Scan [False, False, False, True, True, True, True, True, True]]"
    by (simp add: enable_scans_def ir_image_def two_configured numeral_eq_Suc)
  then show ?thesis
    using chain_configured [OF banged.tap_cable_axioms k d r, of DBG_HW_ADVANCED two_options] two_configurable f
    by (fastforce simp: Let_def)
qed

section \<open>The ports\<close>

text \<open>
  A port that is no number: for GDB the default is used, for the other servers what the number starts with.
\<close>

lemma bad_port:
  "server_ports (default_options\<lparr>gdb_port := ''99x9''\<rparr>) = (9999, 9944, 9928)"
  "server_ports (default_options\<lparr>hwpport := ''99x8''\<rparr>) = (9999, 9944, 99)"
  by code_simp+

end
