(* ===== verification/Spec2Isabelle.thy ===== *)
theory Spec2Isabelle
  imports Recovery_Spec Sim_Main Bin_Utils Rsp_Run_Spec Hwp_Spec Monitor_Spec Jtag_Enum_Spec Bridge_Spec
    Jsp_Spec Bridge_Start_Spec
begin

text \<open>
  A verification development for the software of the wirepatch system (\<^verbatim>\<open>src/\<close>): an OR1200 system on chip with
  hardware assertions on its processor, the firmware that repairs the processor's state when an
  assertion fires, and the bridge through which a debugger controls the system.

  \<^bold>\<open>The program and its parts.\<close>

  The assertion hardware (Verilog, \<^verbatim>\<open>src/system/hardware\<close>) raises an exception when the processor is
  about to commit a wrong state. Its handler saves the registers into \<^verbatim>\<open>struct CPU\<close> and calls
  \<^verbatim>\<open>runSim\<close>, which repairs what the violated assertion names and then executes the next instructions
  in software, with the instruction simulator, until the processor can be handed back outside a delay slot. The
  same simulator also runs on a host. The debug bridge \<^verbatim>\<open>adv_jtag_bridge\<close>
  is a host program: it finds the devices on the chain with the help of their descriptions and
  selects the debug unit; then run a server for GDB, a server for a watchpoint tool, a server for the serial port of the debug unit, and a
  thread that alone stalls and starts the processor and tells all of them what has become of it.

  \<^bold>\<open>Theories and code.\<close> In \<^verbatim>\<open>src/system/software/sim_module/\<close>:

  \<^item> \<open>Prelude\<close>: word types, C shifts, shared word and option lemmas, the collections of rewrite rules.
  \<^item> \<open>Cpu\<close>: \<^verbatim>\<open>cpu.h\<close>, \<^verbatim>\<open>cpu.c\<close>, \<^verbatim>\<open>spr_defs.h\<close>. The record \<open>CPU\<close> has the fields of \<^verbatim>\<open>struct CPU\<close>; the macros
    \<^verbatim>\<open>cpu_get_x\<close>, \<^verbatim>\<open>cpu_set_x\<close> are definitions of the same name.
  \<^item> \<open>Sim_Arith\<close>, \<open>Decode\<close>, \<open>Exceptions\<close>, \<open>Alu_Inst\<close>: \<^verbatim>\<open>simulator.c\<close> and \<^verbatim>\<open>simulator.h\<close> in the order of the
    code: adder, multipliers and divider; fields and \<^verbatim>\<open>struct control\<close>; exception handlers; the handlers of
    register instructions (the C function \<^verbatim>\<open>add\<close> is \<open>l_add\<close>, after the instruction).
  \<^item> \<open>Guest_Words\<close>, \<open>Machine\<close>, \<open>Mem_Inst\<close>: \<^verbatim>\<open>mmu_support.h\<close>, \<^verbatim>\<open>mmu_support.c\<close> and the memory handlers. The record
    \<open>machine\<close> is the simulated processor, physical memory by bytes and the hardware registers behind
    \<^verbatim>\<open>getSPR\<close> and \<^verbatim>\<open>setSPR\<close>.
  \<^item> \<open>Execute\<close>: \<^verbatim>\<open>fetch\<close>, the dispatcher and \<^verbatim>\<open>cpu_exec_inst\<close>. \<open>Recovery\<close>: \<^verbatim>\<open>runSim.c\<close>.
  \<^item> \<open>Sim_Main\<close>: \<^verbatim>\<open>sim_main.c\<close>, the hosted simulator. \<open>Bin_Utils\<close>: the image converters
    \<^verbatim>\<open>src/system/software/utils/bin2*.c\<close>.

  In \<^verbatim>\<open>src/system/hardware/cores/adv_debug_sys/Software/adv_jtag_bridge/\<close>:

  \<^item> \<open>Rsp_Packet\<close>: the packet layer of \<^verbatim>\<open>rsp-server.c\<close>. A connection is the record \<open>link\<close>: the characters still
    to come, those sent, and after how many writes it breaks.
  \<^item> \<open>C_Scan\<close>: what the requests use of the C library, \<^verbatim>\<open>sscanf\<close>, \<^verbatim>\<open>strncmp\<close> and \<^verbatim>\<open>memchr\<close> on character arrays.
  \<^item> \<open>Matchpoints\<close>: the hash table of \<^verbatim>\<open>rsp-server.c\<close> and the watchpoint pool of \<^verbatim>\<open>hwp_server.c\<close>.
  \<^item> \<open>Rsp_State\<close>, \<open>Rsp_Server\<close>, \<open>Rsp_Events\<close>: the structure \<^verbatim>\<open>rsp\<close> with the globals around it (record \<open>bridge\<close>), every
    request handler, and \<^verbatim>\<open>handle_rsp\<close> with its events. The debug operations of \<^verbatim>\<open>dbg_api.c\<close> are the record
    \<open>debug_port\<close>, an argument of every handler.
  \<^item> \<open>Hwp_Server\<close>: \<^verbatim>\<open>hwp_server.c\<close>. \<open>Monitor\<close>: \<^verbatim>\<open>hardware_monitor.c\<close>.
  \<^item> \<open>Errcodes\<close>, \<open>Jtag_Cable\<close>: \<^verbatim>\<open>errcodes.c\<close>, \<^verbatim>\<open>cable_common.c\<close>. A driver is the record \<open>jtag_cable\<close> of its functions; its
    state, the type \<open>'h\<close>, is the cable and everything behind it.
  \<^item> \<open>Jtag_Chain\<close>: \<^verbatim>\<open>chain_commands.c\<close>, with its globals as the record \<open>jtag\<close>. \<open>Adv_Dbg\<close>: \<^verbatim>\<open>adv_dbg_commands.c\<close> as built by default.
    \<open>Legacy_Dbg\<close>: \<^verbatim>\<open>legacy_dbg_commands.c\<close>. \<open>Dbg_Api\<close>: \<^verbatim>\<open>dbg_api.c\<close>, for either hardware; \<open>Dbg_Api_Spec\<close> makes it
    the \<open>debug_port\<close> of the servers.
  \<^item> \<open>Jsp_Server\<close>: \<^verbatim>\<open>jsp_server.c\<close>. A buffer is the record \<open>ring\<close>; the results of \<^verbatim>\<open>recv\<close>, \<^verbatim>\<open>send\<close> and \<^verbatim>\<open>select\<close> are arguments of each
    pass, and so is the transaction with the hardware, \<^verbatim>\<open>dbg_serial_sndrcv\<close>.
  \<^item> \<open>Bsdl_Parse\<close>: \<^verbatim>\<open>bsdl_parse.c\<close>, over the text of a file; the pointer into it is a position. \<open>Bsdl\<close>: \<^verbatim>\<open>bsdl.c\<close>, with its globals as the
    record \<open>bsdl\<close> and the file system as the record \<open>bsdl_host\<close>.
  \<^item> \<open>Bridge_Start\<close>: \<^verbatim>\<open>adv_jtag_bridge.c\<close>, its options and \<^verbatim>\<open>configure_chain\<close>. An \<^verbatim>\<open>exit\<close> is a value of the type \<open>run\<close>.

  A theory whose name ends in \<open>_Spec\<close>, and \<open>Rsp_Invariant\<close>, holds no code but the properties of the one it is named after.

  \<^bold>\<open>What the lemmas show.\<close>

  \<^item> Arithmetic: each loop equals the integer operation it stands for, and the instructions set result, carry
    and overflow as the architecture asks (\<open>Sim_Arith\<close>, \<open>Alu_Spec\<close>).
  \<^item> Memory: loads and stores, which work on words, refine big-endian byte accesses through the TLB; faults leave memory
    alone (\<open>Guest_Words\<close>, \<open>Machine\<close>, \<open>Mem_Spec\<close>, over the interfaces \<open>word_memory\<close> and \<open>page_translation\<close>).
  \<^item> Exceptions: entry and return, once for all handlers (interface \<open>exception_entry\<close>).
  \<^item> One instruction: termination for exactly the implemented instructions, the register-file invariant, privilege, delay slots
    (\<open>Execute_Spec\<close>); the recovery routine as a whole (\<open>Recovery_Spec\<close>).
  \<^item> Images: the converters' output reads back as the input (interface \<open>byte_codec\<close>).
  \<^item> Packets: sending and receiving are inverse for all data, receiving validates (\<open>Rsp_Packet_Spec\<close>).
  \<^item> Requests: registers and memory round trips through whole packets (\<open>Rsp_Server_Spec\<close>); lives of breakpoints and
    watchpoints against an abstract target (\<open>Rsp_Break_Spec\<close>); continue, step, stop, detach (\<open>Rsp_Run_Spec\<close>).
  \<^item> \<open>Rsp_Invariant\<close>: an invariant of matchpoint table and watchpoint pool in every reachable state, by a small calculus for the
    handlers (collection \<open>kept\<close>); the table obeys the map laws of the interface \<open>matchpoint_map\<close>.
  \<^item> The watchpoint server (\<open>Hwp_Spec\<close>). The monitor thread on a control port that may fail: what it writes and announces, and when its belief
    is wrong (\<open>Monitor_Spec\<close>; the port of the debug API keeps the contract, \<open>Dbg_Api_Spec\<close>).
  \<^item> The wire (\<open>Jtag_Wire\<close>): the state machine of the test access port, and what a cable promises as the interface
    \<open>tap_cable\<close>: each bit is one clock of the wire. The bit-banging functions keep the promise on any two pin functions
    that drive the wire (interface \<open>bit_banging\<close>), so that all that follows is about wires, not about drivers.
  \<^item> Transactions as scans of the instruction and data registers: \<open>Jtag_Chain_Spec\<close>, \<open>Jtag_Enum_Spec\<close>, \<open>Adv_Dbg_Spec\<close>, \<open>Adv_Frames_Spec\<close>.
    The checksum against the hardware's (\<open>Adv_Crc_Spec\<close>), bursts with their failures (\<open>Adv_Burst_Spec\<close>), the legacy
    interface (\<open>Legacy_Spec\<close>). A type of the state between the transactions, kept by every operation (\<open>Jtag_State_Spec\<close>, collection
    \<open>kept_state\<close>). The whole bridge: from the monitor thread and from the debugger's packets to the wire (\<open>Dbg_Api_Spec\<close>, \<open>Bridge_Spec\<close>).
  \<^item> Device descriptions: a description as the parser expects it is read back exactly (\<open>Bsdl_Parse_Spec\<close>), and the lookup that parses files
    only as far as it must gives what a search of all of them would give (\<open>Bsdl_Spec\<close>). Start-up uses both, and leaves the chain
    configured and the debug unit selected, on the wire (\<open>Bridge_Start_Spec\<close>).
  \<^item> The serial port: the buffers are queues (interface \<open>byte_queue\<close>), so that with a transaction that keeps its contract
    (interface \<open>serial_unit\<close>, interpreted with the debug API) nothing from the client is lost or reordered, and nothing from the hardware
    until its buffer runs over, which the server does not prevent (\<open>Jsp_Spec\<close>).

  \<^bold>\<open>Loops, bounds, not returning.\<close> Loops are structural recursion or come with a measure; no fuel is used. A
  \<open>None\<close> is a call that does not return: \<open>exec_slots\<close> may simulate branches for ever, \<^verbatim>\<open>unimpl\<close> spins in the firmware build,
  a debug operation may end the process, \<^verbatim>\<open>poll\<close> may block for ever, an access outside an array has no meaning, the parser of device descriptions may read the
  end of its text for ever. The loops that read a connection end because its
  input is finite. Machine integers have the width of the code; \<^verbatim>\<open>unsigned long\<close> on the host has 64 bits, except in
  the bursts, where its size is a parameter.

  \<^bold>\<open>Not modelled.\<close> Verilog, except for the checksum \<^verbatim>\<open>adbg_crc32.v\<close> (\<open>Adv_Crc_Spec\<close>), and the assembly that switches contexts,
  because they are not C; the attack and
  regression programs, which are inline assembly that provokes the hardware; of the bridge the
  self test, the choice of a cable with its options, the cable drivers below their pin functions, and the
  branches that the default build leaves out, except for the serial-port server, which is modelled as compiled in. Of the modelled files: messages on standard error, debug printing, and the calls that create sockets, pipes and
  threads, whose outcomes are arguments. Threads appear as the interleaving of the monitor's passes with
  the calls of the servers.
\<close>

end
